(* ===== verification/Prelude.thy ===== *)
theory Prelude
  imports Main "HOL-Library.AList" "HOL-Library.Signed_Division"
begin

text \<open>
  Shared vocabulary of the development: how a Go function that may fail is
  modelled, Go's 64-bit integers and its truncating division, loops with an
  early return, and Go maps.

  \<^item> A Go \<^verbatim>\<open>error\<close> result is an option: \<open>None\<close> is \<^verbatim>\<open>nil\<close>.
  \<^item> A Go result \<^verbatim>\<open>(T, error)\<close> is a sum \<open>'e + 'a\<close>, \<open>Inl\<close> for the error.
  \<^item> An \<^verbatim>\<open>int64\<close> is an \<open>int\<close>; \<open>wrap64\<close> is applied where the
    arithmetic of the source is 64-bit, so overflow wraps as it does in Go.
  \<^item> A \<^verbatim>\<open>map[K]V\<close> is an association list read by \<open>mget\<close>; its order is never
    observable in the results, as Go's iteration order is unspecified.
\<close>

named_theorems go_simps \<open>defining equations used to compute the model\<close>
named_theorems wf_intros \<open>rules that re-establish a well-formedness invariant\<close>

section \<open>Results and early returns\<close>

definition errE :: "'e + 'a \<Rightarrow> 'e option" where
  "errE r = (case r of Inl e \<Rightarrow> Some e | Inr _ \<Rightarrow> None)"

definition bindE :: "'e + 'a \<Rightarrow> ('a \<Rightarrow> 'e + 'b) \<Rightarrow> 'e + 'b" where
  "bindE r f = (case r of Inl e \<Rightarrow> Inl e | Inr x \<Rightarrow> f x)"

definition guardE :: "'e option \<Rightarrow> 'e + 'a \<Rightarrow> 'e + 'a" where
  "guardE c r = (case c of Some e \<Rightarrow> Inl e | None \<Rightarrow> r)"

definition orElse :: "'e option \<Rightarrow> 'e option \<Rightarrow> 'e option" where
  "orElse c d = (case c of Some e \<Rightarrow> Some e | None \<Rightarrow> d)"

text \<open>\<^verbatim>\<open>for _, x := range xs { if err := f(x); err != nil { return err } }\<close>\<close>

fun firstErr :: "('a \<Rightarrow> 'e option) \<Rightarrow> 'a list \<Rightarrow> 'e option" where
  "firstErr f [] = None"
| "firstErr f (x # xs) = (case f x of Some e \<Rightarrow> Some e | None \<Rightarrow> firstErr f xs)"

text \<open>A loop that threads a state and leaves at the first error.\<close>

fun foldE :: "('s \<Rightarrow> 'a \<Rightarrow> 'e + 's) \<Rightarrow> 's \<Rightarrow> 'a list \<Rightarrow> 'e + 's" where
  "foldE f s [] = Inr s"
| "foldE f s (x # xs) = (case f s x of Inl e \<Rightarrow> Inl e | Inr s' \<Rightarrow> foldE f s' xs)"

text \<open>
  A loop over a state that Go mutates in place: an early return leaves the state as the
  failing iteration left it.
\<close>

fun loopE :: "('s \<Rightarrow> 'a \<Rightarrow> 's \<times> 'e option) \<Rightarrow> 's \<Rightarrow> 'a list \<Rightarrow> 's \<times> 'e option" where
  "loopE f s [] = (s, None)"
| "loopE f s (x # xs) = (case f s x of (s', Some e) \<Rightarrow> (s', Some e) | (s', None) \<Rightarrow> loopE f s' xs)"

lemma bindE_simps [simp]:
  "bindE (Inl e) f = Inl e"
  "bindE (Inr x) f = f x"
  by (simp_all add: bindE_def)

lemma bindE_eq_Inr_iff: "bindE r f = Inr y \<longleftrightarrow> (\<exists>x. r = Inr x \<and> f x = Inr y)"
  by (cases r) auto

lemma guardE_simps [simp]:
  "guardE (Some e) r = Inl e"
  "guardE None r = r"
  by (simp_all add: guardE_def)

lemma guardE_eq_Inr_iff [simp]: "guardE c r = Inr y \<longleftrightarrow> c = None \<and> r = Inr y"
  by (cases c) auto

lemma guardE_fails_iff [simp]: "(\<exists>e. guardE c r = Inl e) \<longleftrightarrow> c \<noteq> None \<or> (\<exists>e. r = Inl e)"
  by (cases c) auto

lemma orElse_simps [simp]:
  "orElse (Some e) d = Some e"
  "orElse None d = d"
  by (simp_all add: orElse_def)

lemma orElse_eq_None_iff [simp]: "orElse c d = None \<longleftrightarrow> c = None \<and> d = None"
  by (cases c) auto

lemma firstErr_None_iff: "firstErr f xs = None \<longleftrightarrow> (\<forall>x \<in> set xs. f x = None)"
  by (induction xs) (auto split: option.splits)

lemma firstErr_append:
  "firstErr f (xs @ ys) = orElse (firstErr f xs) (firstErr f ys)"
  by (induction xs) (auto split: option.splits)

lemma foldE_map: "foldE (\<lambda>t x. f t (g x)) a xs = foldE f a (map g xs)"
  by (induction xs arbitrary: a) (simp_all split: sum.splits)

lemma foldE_append:
  "foldE f s (xs @ ys) = bindE (foldE f s xs) (\<lambda>s'. foldE f s' ys)"
  by (induction xs arbitrary: s) (auto split: sum.splits)

text \<open>The invariant rule of such a loop: what every iteration keeps, the loop keeps.\<close>

lemma foldE_invariant:
  assumes "foldE f s xs = Inr t" and "P s"
    and "\<And>u x v. P u \<Longrightarrow> x \<in> set xs \<Longrightarrow> f u x = Inr v \<Longrightarrow> P v"
  shows "P t"
  using assms
proof (induction xs arbitrary: s)
  case Nil
  then show ?case by simp
next
  case (Cons x xs)
  from Cons.prems(1) obtain v where v: "f s x = Inr v" and rest: "foldE f v xs = Inr t"
    by (auto split: sum.splits)
  have "P v" by (rule Cons.prems(3)[OF Cons.prems(2) _ v]) simp
  moreover have "P v'" if "P u" "y \<in> set xs" "f u y = Inr v'" for u y v'
    using Cons.prems(3)[of u y v'] that by simp
  ultimately show ?case by (rule Cons.IH[OF rest])
qed

text \<open>A mutating loop keeps what every iteration keeps, whether or not the iteration fails.\<close>

lemma loopE_invariant:
  assumes "P s" and "\<And>u x. P u \<Longrightarrow> x \<in> set xs \<Longrightarrow> P (fst (f u x))"
  shows "P (fst (loopE f s xs))"
  using assms
proof (induction xs arbitrary: s)
  case Nil
  then show ?case by simp
next
  case (Cons x xs)
  have step: "P (fst (f s x))" using Cons.prems(2)[of s x] Cons.prems(1) by simp
  have rest: "P (fst (f u y))" if "P u" "y \<in> set xs" for u y using Cons.prems(2)[of u y] that by simp
  show ?case
    using step Cons.IH[OF step rest] by (cases "f s x") (auto split: option.splits)
qed

section \<open>Machine integers\<close>

definition wrap64 :: "int \<Rightarrow> int" where
  "wrap64 x = (x + 2 ^ 63) mod 2 ^ 64 - 2 ^ 63"

definition MaxInt64 :: int where "MaxInt64 = 2 ^ 63 - 1"
definition MinInt64 :: int where "MinInt64 = - (2 ^ 63)"

definition int64 :: "int \<Rightarrow> bool" where
  "int64 x \<longleftrightarrow> MinInt64 \<le> x \<and> x \<le> MaxInt64"

lemmas int64_defs = int64_def MinInt64_def MaxInt64_def

lemma wrap64_id: "int64 x \<Longrightarrow> wrap64 x = x"
  by (simp add: wrap64_def int64_defs)

lemma wrap64_range: "int64 (wrap64 x)"
proof -
  have "0 \<le> (x + 2 ^ 63) mod 2 ^ 64" "(x + 2 ^ 63) mod 2 ^ 64 < 2 ^ 64"
    by (simp_all only: pos_mod_sign pos_mod_bound zero_less_power zero_less_numeral)
  then show ?thesis
    unfolding wrap64_def int64_defs by simp
qed

text \<open>
  Go's \<^verbatim>\<open>/\<close> and \<^verbatim>\<open>%\<close>, and \<^verbatim>\<open>big.Int\<close>'s \<^verbatim>\<open>QuoRem\<close>, truncate towards zero: \<open>sdiv\<close>
  and \<open>smod\<close>. On non-negative arguments they are the floor operations.
\<close>

lemma sdiv_nonneg: "0 \<le> a \<Longrightarrow> 0 < b \<Longrightarrow> (a::int) sdiv b = a div b"
  by (cases "a = 0") (simp_all add: signed_divide_int_def)

lemma smod_nonneg: "0 \<le> a \<Longrightarrow> 0 < b \<Longrightarrow> (a::int) smod b = a mod b"
  by (cases "a = 0") (simp_all add: signed_modulo_int_def signed_divide_int_def minus_div_mult_eq_mod)

lemma div_less_int: "0 < (u::int) \<Longrightarrow> a div u < n \<longleftrightarrow> a < n * u"
proof -
  assume u: "0 < u"
  have a: "a = a div u * u + a mod u" "0 \<le> a mod u" "a mod u < u" using u by simp_all
  show ?thesis
  proof
    assume "a div u < n"
    then have "(a div u + 1) * u \<le> n * u" using u by (intro mult_right_mono) simp_all
    then have "a div u * u + u \<le> n * u" by (simp add: distrib_right)
    then show "a < n * u" using a by linarith
  next
    assume "a < n * u"
    then have "a div u * u < n * u" using a by linarith
    then show "a div u < n" using u by (simp add: mult_less_cancel_right_pos)
  qed
qed

text \<open>The rounded-up quotient that the pricing code builds from \<^verbatim>\<open>QuoRem\<close>.\<close>

definition ceilQuo :: "int \<Rightarrow> int \<Rightarrow> int" where
  "ceilQuo n d = (if n smod d \<noteq> 0 then n sdiv d + 1 else n sdiv d)"

lemma ceilQuo_bracket:
  assumes "0 \<le> n" and "0 < d"
  shows "(ceilQuo n d - 1) * d < n" and "n \<le> ceilQuo n d * d" and "0 \<le> ceilQuo n d"
proof -
  have n: "n = n div d * d + n mod d" by simp
  have m: "0 \<le> n mod d" "n mod d < d" using assms by simp_all
  have q: "0 \<le> n div d" using assms by (simp add: pos_imp_zdiv_nonneg_iff)
  show "(ceilQuo n d - 1) * d < n"
  proof (cases "n mod d = 0")
    case True
    then show ?thesis using assms n
      by (simp add: ceilQuo_def sdiv_nonneg smod_nonneg left_diff_distrib)
  next
    case False
    then have "n div d * d < n" using n m by linarith
    with False show ?thesis using assms by (simp add: ceilQuo_def sdiv_nonneg smod_nonneg)
  qed
  have "n \<le> n div d * d + d" using n m by linarith
  then show "n \<le> ceilQuo n d * d"
    using assms n by (auto simp: ceilQuo_def sdiv_nonneg smod_nonneg distrib_right)
  show "0 \<le> ceilQuo n d"
    using assms q by (auto simp: ceilQuo_def sdiv_nonneg smod_nonneg)
qed

lemma ceilQuo_least:
  assumes "0 \<le> n" and "0 < d" and "n \<le> k * d"
  shows "ceilQuo n d \<le> k"
proof -
  have "(ceilQuo n d - 1) * d < k * d"
    using ceilQuo_bracket(1)[OF assms(1,2)] assms(3) by linarith
  then have "ceilQuo n d - 1 < k"
    using assms(2) by (simp add: mult_less_cancel_right_pos)
  then show ?thesis by simp
qed

lemma ceilQuo_mono:
  assumes "0 \<le> n" and "n \<le> m" and "0 < d"
  shows "ceilQuo n d \<le> ceilQuo m d"
  using assms ceilQuo_bracket(2)[of m d] by (intro ceilQuo_least) auto

lemma ceilQuo_exact: "0 \<le> k \<Longrightarrow> 0 < d \<Longrightarrow> ceilQuo (k * d) d = k"
  by (simp add: ceilQuo_def sdiv_nonneg smod_nonneg)

section \<open>Go maps\<close>

type_synonym ('k, 'v) gomap = "('k \<times> 'v) list"

abbreviation mget :: "('k, 'v) gomap \<Rightarrow> 'k \<Rightarrow> 'v option" where
  "mget m k \<equiv> map_of m k"

abbreviation mput :: "'k \<Rightarrow> 'v \<Rightarrow> ('k, 'v) gomap \<Rightarrow> ('k, 'v) gomap" where
  "mput k v m \<equiv> AList.update k v m"

abbreviation mdel :: "'k \<Rightarrow> ('k, 'v) gomap \<Rightarrow> ('k, 'v) gomap" where
  "mdel k m \<equiv> AList.delete k m"

text \<open>A read of an absent key yields the zero value of the element type.\<close>

definition mgetd :: "'v \<Rightarrow> ('k, 'v) gomap \<Rightarrow> 'k \<Rightarrow> 'v" where
  "mgetd z m k = (case mget m k of None \<Rightarrow> z | Some v \<Rightarrow> v)"

definition mwf :: "('k, 'v) gomap \<Rightarrow> bool" where
  "mwf m \<longleftrightarrow> distinct (map fst m)"

lemma mget_mput [simp]: "mget (mput k v m) k' = (if k' = k then Some v else mget m k')"
  by (simp add: update_conv')

lemma mget_mdel [simp]: "mget (mdel k m) k' = (if k' = k then None else mget m k')"
  by (simp add: delete_conv')

lemma mwf_empty [simp, wf_intros]: "mwf []"
  by (simp add: mwf_def)

lemma mwf_mput [simp, wf_intros]: "mwf m \<Longrightarrow> mwf (mput k v m)"
  by (simp add: mwf_def distinct_update)

lemma mwf_mdel [simp, wf_intros]: "mwf m \<Longrightarrow> mwf (mdel k m)"
  by (simp add: mwf_def distinct_delete)

lemma mwf_filter [simp, wf_intros]: "mwf m \<Longrightarrow> mwf (filter P m)"
  by (simp add: mwf_def distinct_map_filter)

lemma mget_filter:
  "mwf m \<Longrightarrow> mget (filter (\<lambda>(k, v). P k v) m) k =
     (case mget m k of None \<Rightarrow> None | Some v \<Rightarrow> if P k v then Some v else None)"
proof (induction m)
  case Nil
  then show ?case by simp
next
  case (Cons a m)
  obtain k' v' where a: "a = (k', v')" by (cases a)
  from Cons.prems a have "mwf m" and n: "k' \<notin> fst ` set m"
    by (auto simp: mwf_def)
  moreover from n have "mget m k' = None" by (simp add: map_of_eq_None_iff)
  ultimately show ?case using Cons.IH a by (auto split: option.splits)
qed

lemma mgetd_mput [simp]: "mgetd z (mput k v m) k' = (if k' = k then v else mgetd z m k')"
  by (simp add: mgetd_def)

lemma mgetd_Nil [simp]: "mgetd z [] k = z"
  by (simp add: mgetd_def)

text \<open>Sums over the values of a map, and how an update changes them.\<close>

definition msum :: "('v \<Rightarrow> int) \<Rightarrow> ('k, 'v) gomap \<Rightarrow> int" where
  "msum f m = sum_list (map (f \<circ> snd) m)"

definition osum :: "('v \<Rightarrow> int) \<Rightarrow> 'v option \<Rightarrow> int" where
  "osum f w = (case w of None \<Rightarrow> 0 | Some v \<Rightarrow> f v)"

lemma osum_simps [simp]: "osum f None = 0" "osum f (Some v) = f v"
  by (simp_all add: osum_def)

lemma msum_Nil [simp]: "msum f [] = 0"
  by (simp add: msum_def)

lemma msum_Cons [simp]: "msum f ((k, v) # m) = f v + msum f m"
  by (simp add: msum_def)

lemma msum_mput: "mwf m \<Longrightarrow> msum f (mput k v m) = msum f m - osum f (mget m k) + f v"
proof (induction m)
  case Nil
  then show ?case by simp
next
  case (Cons a m)
  obtain k' v' where a: "a = (k', v')" by (cases a)
  from Cons.prems a have "mwf m" by (simp add: mwf_def)
  with Cons.IH a show ?case by auto
qed

lemma msum_nonneg: "(\<And>v. v \<in> snd ` set m \<Longrightarrow> 0 \<le> f v) \<Longrightarrow> 0 \<le> msum f m"
  by (induction m) auto

lemma msum_zero: "(\<And>k v. (k, v) \<in> set m \<Longrightarrow> f v = 0) \<Longrightarrow> msum f m = 0"
  by (induction m) force+

lemma msum_filter_le:
  "(\<And>v. v \<in> snd ` set m \<Longrightarrow> 0 \<le> f v) \<Longrightarrow> msum f (filter P m) \<le> msum f m"
  by (induction m) (auto simp: add_increasing)

lemma msum_member_le:
  assumes "mget m k = Some v" and "\<And>v. v \<in> snd ` set m \<Longrightarrow> 0 \<le> f v"
  shows "f v \<le> msum f m"
  using assms
proof (induction m)
  case Nil
  then show ?case by simp
next
  case (Cons a m)
  obtain k' v' where a: "a = (k', v')" by (cases a)
  have "0 \<le> msum f m" using Cons.prems(2) by (intro msum_nonneg) auto
  moreover have "0 \<le> f v'" using Cons.prems(2) a by auto
  moreover have "f v \<le> msum f m" if "mget m k = Some v"
    using Cons.IH Cons.prems(2) that by auto
  ultimately show ?case
    using Cons.prems(1) a by (auto split: if_splits)
qed

lemma filter_key_unique:
  "distinct (map f xs) \<Longrightarrow> x \<in> set xs \<Longrightarrow> filter (\<lambda>y. f y = f x) xs = [x]"
proof (induction xs)
  case Nil
  then show ?case by simp
next
  case (Cons y ys)
  show ?case
  proof (cases "y = x")
    case True
    then have "\<forall>z \<in> set ys. f z \<noteq> f x" using Cons.prems(1) by (auto simp: image_iff)
    then show ?thesis using True by (simp add: filter_empty_conv)
  next
    case False
    then have x: "x \<in> set ys" using Cons.prems(2) by simp
    then have "f y \<noteq> f x" using Cons.prems(1) by (auto simp: image_iff)
    then show ?thesis using Cons.IH x Cons.prems(1) by simp
  qed
qed

lemma filter_shrinks: "x \<in> set xs \<Longrightarrow> P x \<Longrightarrow> length (filter (\<lambda>y. y \<noteq> x \<and> P y) xs) < length (filter P xs)"
proof -
  assume "x \<in> set xs" "P x"
  then have "x \<in> set (filter P xs)" by simp
  then have "length (filter (\<lambda>y. y \<noteq> x) (filter P xs)) < length (filter P xs)" by (rule length_filter_less) simp
  then show ?thesis by (simp add: conj_commute)
qed

section \<open>Slices\<close>

text \<open>
  A slice whose nilness is observable (its JSON is \<^verbatim>\<open>null\<close> or \<^verbatim>\<open>[]\<close>) is an
  optional list. \<open>append_nil\<close> is \<^verbatim>\<open>append([]T(nil), s...)\<close>: it copies the
  elements and yields nil when there are none.
\<close>

type_synonym 'a slice = "'a list option"

definition elems :: "'a slice \<Rightarrow> 'a list" where
  "elems s = (case s of None \<Rightarrow> [] | Some xs \<Rightarrow> xs)"

definition append_nil :: "'a slice \<Rightarrow> 'a slice" where
  "append_nil s = (if elems s = [] then None else Some (elems s))"

lemma elems_simps [simp]: "elems None = []" "elems (Some xs) = xs"
  by (simp_all add: elems_def)

lemma elems_append_nil [simp]: "elems (append_nil s) = elems s"
  by (simp add: append_nil_def)

end
