(* ===== verification/GoStrings.thy ===== *)
theory GoStrings
  imports Prelude
begin

text \<open>
  The parts of Go's standard library that the modelled packages use on strings
  and times. A Go string is its list of bytes. \<open>TrimSpace\<close> strips the UTF-8
  encodings of the code points for which \<^verbatim>\<open>unicode.IsSpace\<close> holds;
  \<open>ParseInt64\<close> is \<^verbatim>\<open>strconv.ParseInt(s, 10, 64)\<close>; \<open>int_dec\<close> is the decimal
  rendering of an integer. A \<^verbatim>\<open>time.Time\<close> is its instant in nanoseconds since
  the Unix epoch; the zero time is 1 January of year 1, UTC.
\<close>

section \<open>Strings\<close>

definition NUL :: char where "NUL = CHR 0x00"

definition has_prefix :: "string \<Rightarrow> string \<Rightarrow> bool" where
  "has_prefix p s \<longleftrightarrow> take (length p) s = p"

definition is_digit :: "char \<Rightarrow> bool" where
  "is_digit c \<longleftrightarrow> 48 \<le> (of_char c :: nat) \<and> (of_char c :: nat) \<le> 57"

definition digit_val :: "char \<Rightarrow> int" where
  "digit_val c = of_char c - 48"

definition dec_value :: "string \<Rightarrow> int" where
  "dec_value s = foldl (\<lambda>n c. 10 * n + digit_val c) 0 s"

fun nat_dec :: "nat \<Rightarrow> string" where
  "nat_dec n = (if n < 10 then [char_of (48 + n)] else nat_dec (n div 10) @ [char_of (48 + n mod 10)])"

declare nat_dec.simps [simp del]

definition int_dec :: "int \<Rightarrow> string" where
  "int_dec i = (if i < 0 then CHR ''-'' # nat_dec (nat (- i)) else nat_dec (nat i))"

definition trim_left :: "char \<Rightarrow> string \<Rightarrow> string" where
  "trim_left c s = dropWhile (\<lambda>d. d = c) s"

definition trim_right :: "char \<Rightarrow> string \<Rightarrow> string" where
  "trim_right c s = rev (dropWhile (\<lambda>d. d = c) (rev s))"

definition count_char :: "char \<Rightarrow> string \<Rightarrow> nat" where
  "count_char c s = length (filter (\<lambda>d. d = c) s)"

text \<open>\<^verbatim>\<open>strings.SplitN(s, sep, 2)\<close> for a one-byte separator: the part before the first
  separator and, when there is one, the part after it.\<close>

definition splitn2 :: "char \<Rightarrow> string \<Rightarrow> string \<times> string option" where
  "splitn2 c s =
     (let a = takeWhile (\<lambda>d. d \<noteq> c) s; r = dropWhile (\<lambda>d. d \<noteq> c) s
      in (a, if r = [] then None else Some (tl r)))"

fun join_with :: "string \<Rightarrow> string list \<Rightarrow> string" where
  "join_with sep [] = []"
| "join_with sep [x] = x"
| "join_with sep (x # y # ys) = x @ sep @ join_with sep (y # ys)"

text \<open>\<^verbatim>\<open>strings.Split\<close> for a one-byte separator.\<close>

fun split_on :: "char \<Rightarrow> string \<Rightarrow> string list" where
  "split_on d [] = [[]]"
| "split_on d (c # cs) = (if c = d then [] # split_on d cs else (case split_on d cs of [] \<Rightarrow> [[c]] | w # ws \<Rightarrow> (c # w) # ws))"

definition ParseInt64 :: "string \<Rightarrow> int option" where
  "ParseInt64 s =
     (let neg = (s \<noteq> [] \<and> hd s = CHR ''-'');
          ds = (if s \<noteq> [] \<and> (hd s = CHR ''-'' \<or> hd s = CHR ''+'') then tl s else s);
          v = dec_value ds
      in if ds = [] \<or> \<not> list_all is_digit ds then None
         else if neg then (if v > 2 ^ 63 then None else Some (- v))
         else (if v \<ge> 2 ^ 63 then None else Some v))"

definition space_encodings :: "string list" where
  "space_encodings =
     [[CHR 0x09], [CHR 0x0A], [CHR 0x0B], [CHR 0x0C], [CHR 0x0D], [CHR 0x20],
      [CHR 0xC2, CHR 0x85], [CHR 0xC2, CHR 0xA0], [CHR 0xE1, CHR 0x9A, CHR 0x80],
      [CHR 0xE2, CHR 0x80, CHR 0x80], [CHR 0xE2, CHR 0x80, CHR 0x81], [CHR 0xE2, CHR 0x80, CHR 0x82],
      [CHR 0xE2, CHR 0x80, CHR 0x83], [CHR 0xE2, CHR 0x80, CHR 0x84], [CHR 0xE2, CHR 0x80, CHR 0x85],
      [CHR 0xE2, CHR 0x80, CHR 0x86], [CHR 0xE2, CHR 0x80, CHR 0x87], [CHR 0xE2, CHR 0x80, CHR 0x88],
      [CHR 0xE2, CHR 0x80, CHR 0x89], [CHR 0xE2, CHR 0x80, CHR 0x8A], [CHR 0xE2, CHR 0x80, CHR 0xA8],
      [CHR 0xE2, CHR 0x80, CHR 0xA9], [CHR 0xE2, CHR 0x80, CHR 0xAF], [CHR 0xE2, CHR 0x81, CHR 0x9F],
      [CHR 0xE3, CHR 0x80, CHR 0x80]]"

fun strip_one :: "string list \<Rightarrow> string \<Rightarrow> string option" where
  "strip_one [] s = None"
| "strip_one (w # ws) s =
     (if w \<noteq> [] \<and> has_prefix w s then Some (drop (length w) s) else strip_one ws s)"

lemma strip_one_shorter: "strip_one ws s = Some t \<Longrightarrow> length t < length s"
proof (induction ws)
  case Nil
  then show ?case by simp
next
  case (Cons w ws)
  show ?case
  proof (cases "w \<noteq> [] \<and> has_prefix w s")
    case True
    then have "s \<noteq> []" by (auto simp: has_prefix_def)
    with True Cons.prems show ?thesis by auto
  next
    case False
    with Cons show ?thesis by auto
  qed
qed

function trim_with :: "string list \<Rightarrow> string \<Rightarrow> string" where
  "trim_with ws s = (case strip_one ws s of None \<Rightarrow> s | Some t \<Rightarrow> trim_with ws t)"
  by pat_completeness auto
termination
  by (relation "measure (\<lambda>(ws, s). length s)") (auto simp: strip_one_shorter)

declare trim_with.simps [simp del]

definition TrimSpace :: "string \<Rightarrow> string" where
  "TrimSpace s = rev (trim_with (map rev space_encodings) (rev (trim_with space_encodings s)))"

subsection \<open>Decimal digits\<close>

lemma of_char_digit [simp]: "d < 10 \<Longrightarrow> (of_char (char_of (48 + d) :: char) :: nat) = 48 + d"
  by (simp add: of_char_of)

lemma is_digit_char_of [simp]: "d < 10 \<Longrightarrow> is_digit (char_of (48 + d :: nat))"
  unfolding is_digit_def by simp

lemma digit_val_char_of [simp]: "d < 10 \<Longrightarrow> digit_val (char_of (48 + d :: nat)) = int d"
proof -
  assume d: "d < 10"
  have "(of_char (char_of (48 + d) :: char) :: int) = int (of_char (char_of (48 + d) :: char))"
    by (rule of_nat_of_char [symmetric])
  also have "\<dots> = int (48 + d)" using d by simp
  finally show ?thesis by (simp add: digit_val_def)
qed

lemma dec_value_snoc: "dec_value (s @ [c]) = 10 * dec_value s + digit_val c"
  by (simp add: dec_value_def)

lemma dec_value_Nil [simp]: "dec_value [] = 0"
  by (simp add: dec_value_def)

lemma dec_value_append:
  "dec_value (s @ t) = dec_value s * 10 ^ length t + dec_value t"
proof (induction t rule: rev_induct)
  case Nil
  then show ?case by simp
next
  case (snoc c t)
  have "dec_value (s @ t @ [c]) = 10 * dec_value (s @ t) + digit_val c"
    using dec_value_snoc[of "s @ t" c] by simp
  with snoc show ?case by (simp add: dec_value_snoc algebra_simps)
qed

lemma digit_val_nonneg: "is_digit c \<Longrightarrow> 0 \<le> digit_val c"
proof -
  assume "is_digit c"
  then have "48 \<le> (of_char c :: nat)" by (simp add: is_digit_def)
  then have "48 \<le> int (of_char c)" by linarith
  then show ?thesis by (simp add: digit_val_def of_nat_of_char)
qed

lemma dec_value_nonneg: "list_all is_digit s \<Longrightarrow> 0 \<le> dec_value s"
  by (induction s rule: rev_induct) (auto simp: dec_value_snoc digit_val_nonneg)

lemma digit_val_zero [simp]: "digit_val CHR ''0'' = 0"
  by (simp add: digit_val_def)

lemma dec_value_zeros [simp]: "dec_value (replicate n CHR ''0'' @ s) = dec_value s"
proof (induction n)
  case 0
  then show ?case by simp
next
  case (Suc n)
  have "dec_value ([CHR ''0''] @ (replicate n CHR ''0'' @ s)) = dec_value (replicate n CHR ''0'' @ s)"
    by (subst dec_value_append) (simp add: dec_value_def)
  with Suc show ?case by simp
qed

lemma trim_left_split: "\<exists>n. s = replicate n c @ trim_left c s"
proof (induction s)
  case Nil
  then show ?case by (simp add: trim_left_def)
next
  case (Cons d s)
  then obtain n where "s = replicate n c @ trim_left c s" by blast
  show ?case
  proof (cases "d = c")
    case True
    with \<open>s = _\<close> have "d # s = replicate (Suc n) c @ trim_left c (d # s)"
      by (simp add: trim_left_def)
    then show ?thesis by blast
  next
    case False
    then have "d # s = replicate 0 c @ trim_left c (d # s)" by (simp add: trim_left_def)
    then show ?thesis by blast
  qed
qed

lemma dec_value_trim_left: "dec_value (trim_left CHR ''0'' s) = dec_value s"
  using trim_left_split[of s "CHR ''0''"] by (metis dec_value_zeros)

lemma nat_dec_nonempty [simp]: "nat_dec n \<noteq> []"
  by (subst nat_dec.simps) simp

lemma nat_dec_digits: "list_all is_digit (nat_dec n)"
proof (induction n rule: nat_dec.induct)
  case (1 n)
  then show ?case by (subst nat_dec.simps) simp
qed

lemma dec_value_nat_dec [simp]: "dec_value (nat_dec n) = int n"
proof (induction n rule: nat_dec.induct)
  case (1 n)
  show ?case
  proof (cases "n < 10")
    case True
    then show ?thesis by (subst nat_dec.simps) (simp add: dec_value_def)
  next
    case False
    then have "dec_value (nat_dec n) = 10 * int (n div 10) + int (n mod 10)"
      using 1 by (subst nat_dec.simps) (simp add: dec_value_snoc)
    then show ?thesis by presburger
  qed
qed

lemma nat_dec_inj: "nat_dec m = nat_dec n \<Longrightarrow> m = n"
  by (metis dec_value_nat_dec of_nat_eq_iff)

lemma length_nat_dec: "0 < k \<Longrightarrow> n < 10 ^ k \<Longrightarrow> length (nat_dec n) \<le> k"
proof (induction n arbitrary: k rule: nat_dec.induct)
  case (1 n)
  show ?case
  proof (cases "n < 10")
    case True
    then show ?thesis using 1 by (subst nat_dec.simps) simp
  next
    case False
    with "1.prems" obtain j where k: "k = Suc j" by (cases k) auto
    with "1.prems" False have j: "0 < j" by (cases j) auto
    from k "1.prems" have "n div 10 < 10 ^ j" by auto
    with False j k "1.IH" show ?thesis by (subst nat_dec.simps) auto
  qed
qed

lemma nat_dec_zero [simp]: "nat_dec 0 = ''0''"
  by (subst nat_dec.simps) (simp add: char_of_def bit_Suc_0_iff)

subsection \<open>Space trimming\<close>

lemma strip_one_None:
  "s = [] \<or> (\<forall>w \<in> set ws. w \<noteq> [] \<longrightarrow> hd w \<noteq> hd s) \<Longrightarrow> strip_one ws s = None"
proof (induction ws)
  case Nil
  then show ?case by simp
next
  case (Cons w ws)
  have "\<not> (w \<noteq> [] \<and> has_prefix w s)"
    using Cons.prems by (cases w; cases s) (auto simp: has_prefix_def)
  with Cons show ?case by auto
qed

lemma space_heads: "is_digit c \<Longrightarrow> w \<in> set space_encodings \<Longrightarrow> hd w \<noteq> c"
  by (auto simp: space_encodings_def is_digit_def)

lemma space_lasts: "is_digit c \<Longrightarrow> w \<in> set (map rev space_encodings) \<Longrightarrow> hd w \<noteq> c"
  by (auto simp: space_encodings_def is_digit_def)

lemma TrimSpace_digit_ends:
  assumes "s \<noteq> []" and "is_digit (hd s)" and "is_digit (last s)"
  shows "TrimSpace s = s"
proof -
  have "strip_one space_encodings s = None"
    using space_heads[OF assms(2)] by (intro strip_one_None) blast
  moreover have "is_digit (hd (rev s))" using assms by (simp add: hd_rev)
  then have "strip_one (map rev space_encodings) (rev s) = None"
    using space_lasts by (intro strip_one_None) blast
  ultimately show ?thesis
    by (simp add: TrimSpace_def trim_with.simps)
qed

lemma split_on_free: "d \<notin> set s \<Longrightarrow> split_on d s = [s]"
  by (induction s) auto

lemma split_on_append: "d \<notin> set s \<Longrightarrow> split_on d (s @ d # t) = s # split_on d t"
  by (induction s) auto

section \<open>Times\<close>

type_synonym gotime = int

definition zero_time :: gotime where "zero_time = - 62135596800 * 10 ^ 9"

definition IsZero :: "gotime \<Rightarrow> bool" where "IsZero t \<longleftrightarrow> t = zero_time"

definition UnixNano :: "gotime \<Rightarrow> int" where "UnixNano t = wrap64 t"

definition time_Sub :: "gotime \<Rightarrow> gotime \<Rightarrow> int" where
  "time_Sub t u = max MinInt64 (min MaxInt64 (t - u))"

definition civil_from_days :: "int \<Rightarrow> int \<times> int \<times> int" where
  "civil_from_days days =
     (let z = days + 719468; era = z div 146097; doe = z mod 146097;
          yoe = (doe - doe div 1460 + doe div 36524 - doe div 146096) div 365;
          doy = doe - (365 * yoe + yoe div 4 - yoe div 100);
          mp = (5 * doy + 2) div 153;
          d = doy - (153 * mp + 2) div 5 + 1;
          m = (if mp < 10 then mp + 3 else mp - 9);
          y = yoe + era * 400
      in ((if m \<le> 2 then y + 1 else y), m, d))"

definition pad_int :: "nat \<Rightarrow> int \<Rightarrow> string" where
  "pad_int w i =
     (let ds = nat_dec (nat \<bar>i\<bar>)
      in (if i < 0 then ''-'' else []) @ replicate (w - length ds) CHR ''0'' @ ds)"

text \<open>\<^verbatim>\<open>t.UTC().Format(time.RFC3339Nano)\<close>: trailing zeros of the fraction are dropped, and
  the fraction with its point when it is zero.\<close>

definition rfc3339nano :: "gotime \<Rightarrow> string" where
  "rfc3339nano t =
     (let secs = t div 10 ^ 9; nanos = t mod 10 ^ 9; days = secs div 86400; sod = secs mod 86400;
          (y, m, d) = civil_from_days days;
          frac = trim_right CHR ''0'' (pad_int 9 nanos)
      in pad_int 4 y @ ''-'' @ pad_int 2 m @ ''-'' @ pad_int 2 d @ ''T''
         @ pad_int 2 (sod div 3600) @ '':'' @ pad_int 2 (sod mod 3600 div 60) @ '':''
         @ pad_int 2 (sod mod 60) @ (if frac = [] then [] else ''.'' @ frac) @ ''Z'')"

end
