(* ===== verification/Money.thy ===== *)
theory Money
  imports GoStrings
begin

text \<open>
  Package \<^verbatim>\<open>pricing\<close>: exact money. \<open>usd\<close> is the fixed-scale amount of
  \<^verbatim>\<open>decimal.go\<close> (an integer number of $10^{-18}$ dollars behind a pointer that may
  be nil), \<open>decimal_usd\<close> a catalog price, and MicroUSD and NanoUSD are the
  Redis-safe integers of \<^verbatim>\<open>money.go\<close> and \<^verbatim>\<open>nano_usd.go\<close>. The locale
  \<open>bounded_money\<close> states what all three checked arithmetics promise and proves
  the facts about running totals once; \<open>integer_boundary\<close> does the same for the
  two materializations of a USD amount as an integer.
\<close>

section \<open>Exact USD amounts\<close>

datatype money_error =
    NotDecimalString | InvalidExponent | InvalidDecimal | ExceedsNumeric | NonDigit
  | TooManyFractionDigits | InvalidAmount | NegativeSubtraction | InvalidRatio | InvalidUnits
  | InvalidPrice | MicroAddOverflow | MicroSubNegative | MicroOutOfRange | MicroOverflow
  | MicroExceedsSafe | NanoAddOverflow | NanoSubNegative | NanoOutOfRange | NanoSourceExceeds
  | NanoOverflow | NanoExceedsSafe

datatype usd = USD (raw_units: "int option")

definition USDScale :: nat where "USDScale = 18"

definition usdScaleFactor :: int where "usdScaleFactor = 10 ^ 18"

definition maxUSDUnits :: int where "maxUSDUnits = 10 ^ 38 - 1"

definition usdUnits :: "usd \<Rightarrow> int" where
  "usdUnits u = (case raw_units u of None \<Rightarrow> 0 | Some n \<Rightarrow> n)"

definition USD_valid :: "usd \<Rightarrow> money_error option" where
  "USD_valid u =
     (case raw_units u of
        None \<Rightarrow> None
      | Some n \<Rightarrow> if n < 0 then Some InvalidAmount
                  else if n > 10 ^ 38 - 1 then Some ExceedsNumeric else None)"

text \<open>The text after the first \<^verbatim>\<open>e\<close> or \<^verbatim>\<open>E\<close> is the exponent.\<close>

definition parse_exponent :: "string \<Rightarrow> money_error + (string \<times> int)" where
  "parse_exponent value =
     (let mantissa = takeWhile (\<lambda>c. c \<noteq> CHR ''e'' \<and> c \<noteq> CHR ''E'') value;
          rest = dropWhile (\<lambda>c. c \<noteq> CHR ''e'' \<and> c \<noteq> CHR ''E'') value
      in if rest = [] then Inr (value, 0)
         else if tl rest = [] then Inl InvalidExponent
         else (case ParseInt64 (tl rest) of
                 None \<Rightarrow> Inl InvalidExponent
               | Some e \<Rightarrow> Inr (mantissa, e)))"

definition fixed_units :: "int \<Rightarrow> int \<Rightarrow> int \<Rightarrow> money_error + usd" where
  "fixed_units coefficient offset exponent =
     (if exponent > offset + 1024 then Inl ExceedsNumeric
      else if exponent < offset - 1024 then Inl TooManyFractionDigits
      else let fixedShift = exponent - offset in
        if fixedShift \<ge> 0 then
          (let units = coefficient * 10 ^ nat fixedShift
           in if units > maxUSDUnits then Inl ExceedsNumeric else Inr (USD (Some units)))
        else
          (let divisor = 10 ^ nat (- fixedShift); units = coefficient sdiv divisor
           in if coefficient smod divisor \<noteq> 0 then Inl TooManyFractionDigits
              else if units > maxUSDUnits then Inl ExceedsNumeric else Inr (USD (Some units))))"

definition ParseUSD :: "string \<Rightarrow> money_error + usd" where
  "ParseUSD value =
     (if value = [] \<or> TrimSpace value \<noteq> value \<or> has_prefix ''+'' value \<or> has_prefix ''-'' value
      then Inl NotDecimalString
      else bindE (parse_exponent value) (\<lambda>(mantissa, exponent).
        if count_char CHR ''.'' mantissa > 1 \<or> mantissa = ''.'' then Inl InvalidDecimal
        else let (whole, rest) = splitn2 CHR ''.'' mantissa;
                 fraction = (case rest of None \<Rightarrow> [] | Some f \<Rightarrow> f)
          in if whole = [] \<or> rest = Some [] then Inl InvalidDecimal
             else if length whole > 1024 \<or> length fraction > 1024 then Inl ExceedsNumeric
             else if \<not> list_all is_digit (whole @ fraction) then Inl NonDigit
             else let digits = trim_left CHR ''0'' (whole @ fraction)
               in if digits = [] then Inr (USD None)
                  else fixed_units (dec_value digits) (int (length fraction) - int USDScale) exponent))"

text \<open>\<^verbatim>\<open>MustUSD\<close> panics on a bad literal: \<open>None\<close> is the panic.\<close>

definition MustUSD :: "string \<Rightarrow> usd option" where
  "MustUSD s = (case ParseUSD s of Inl _ \<Rightarrow> None | Inr u \<Rightarrow> Some u)"

definition USD_IsZero :: "usd \<Rightarrow> bool" where
  "USD_IsZero u \<longleftrightarrow> (case raw_units u of None \<Rightarrow> True | Some n \<Rightarrow> n = 0)"

definition USD_Cmp :: "usd \<Rightarrow> usd \<Rightarrow> int" where
  "USD_Cmp u v = sgn (usdUnits u - usdUnits v)"

definition USD_String :: "usd \<Rightarrow> string" where
  "USD_String u =
     (case raw_units u of
        None \<Rightarrow> ''0.000000000000000000''
      | Some n \<Rightarrow>
          (let ds = int_dec n;
               digits = (if length ds \<le> USDScale
                         then replicate (USDScale - length ds + 1) CHR ''0'' @ ds else ds);
               position = length digits - USDScale
           in take position digits @ ''.'' @ drop position digits))"

definition USD_Add :: "usd \<Rightarrow> usd \<Rightarrow> money_error + usd" where
  "USD_Add u v =
     guardE (USD_valid u) (guardE (USD_valid v)
       (let result = USD (Some (usdUnits u + usdUnits v))
        in guardE (USD_valid result) (Inr result)))"

definition USD_Sub :: "usd \<Rightarrow> usd \<Rightarrow> money_error + usd" where
  "USD_Sub u v =
     guardE (USD_valid u) (guardE (USD_valid v)
       (if USD_Cmp u v < 0 then Inl NegativeSubtraction
        else Inr (USD (Some (usdUnits u - usdUnits v)))))"

definition USD_SubOrZero :: "usd \<Rightarrow> usd \<Rightarrow> usd" where
  "USD_SubOrZero u v = (case USD_Sub u v of Inl _ \<Rightarrow> USD None | Inr w \<Rightarrow> w)"

text \<open>The factors are \<^verbatim>\<open>*big.Int\<close>: \<open>None\<close> is a nil pointer.\<close>

definition USD_MulRatio :: "usd \<Rightarrow> int option \<Rightarrow> int option \<Rightarrow> money_error + usd" where
  "USD_MulRatio u num den =
     guardE (USD_valid u)
       (case (num, den) of
          (Some n, Some d) \<Rightarrow>
            if n < 0 \<or> d \<le> 0 then Inl InvalidRatio
            else let result = USD (Some (ceilQuo (usdUnits u * n) d))
                 in guardE (USD_valid result) (Inr result)
        | _ \<Rightarrow> Inl InvalidRatio)"

section \<open>Catalog prices\<close>

record decimal_usd =
  numerator :: int
  scale :: int
  raw :: string

definition DecimalUSD_valid :: "decimal_usd \<Rightarrow> money_error option" where
  "DecimalUSD_valid d =
     (if scale d < 0 \<or> scale d > 18 \<or> numerator d < 0 then Some InvalidPrice
      else let fixedUnits =
             (if scale d < int USDScale then numerator d * 10 ^ nat (int USDScale - scale d)
              else numerator d)
        in if fixedUnits > maxUSDUnits then Some ExceedsNumeric else None)"

definition ParseDecimalUSD :: "string \<Rightarrow> money_error + decimal_usd" where
  "ParseDecimalUSD value =
     (if value = [] \<or> TrimSpace value \<noteq> value \<or> has_prefix ''+'' value \<or> has_prefix ''-'' value
      then Inl NotDecimalString
      else if count_char CHR ''.'' value > 1 \<or> value = ''.'' then Inl InvalidDecimal
      else let (whole, rest) = splitn2 CHR ''.'' value;
               fraction = (case rest of None \<Rightarrow> [] | Some f \<Rightarrow> f)
        in if whole = [] \<or> rest = Some [] then Inl InvalidDecimal
           else if \<not> list_all is_digit (whole @ fraction) then Inl NonDigit
           else let parsed = \<lparr>numerator = dec_value (whole @ fraction),
                              scale = int (length fraction), raw = value\<rparr>
             in guardE (DecimalUSD_valid parsed) (Inr parsed))"

definition CanonicalString :: "decimal_usd \<Rightarrow> string" where
  "CanonicalString d =
     (let ds = int_dec (numerator d) in
      if scale d = 0 then ds
      else let digits = (if int (length ds) \<le> scale d
                         then replicate (nat (scale d) - length ds + 1) CHR ''0'' @ ds else ds);
               position = length digits - nat (scale d);
               result = take position digits @ ''.'' @ drop position digits
        in trim_right CHR ''.'' (trim_right CHR ''0'' result))"

definition DecimalUSD_String :: "decimal_usd \<Rightarrow> string" where
  "DecimalUSD_String d = (if raw d \<noteq> [] then raw d else CanonicalString d)"

definition CeilUSD :: "decimal_usd \<Rightarrow> int \<Rightarrow> int \<Rightarrow> money_error + usd" where
  "CeilUSD price units unitsPerPrice =
     guardE (DecimalUSD_valid price)
       (if units < 0 \<or> unitsPerPrice \<le> 0 then Inl InvalidUnits
        else let num = numerator price * units * usdScaleFactor;
                 den = 10 ^ nat (scale price) * unitsPerPrice;
                 result = USD (Some (ceilQuo num den))
          in guardE (USD_valid result) (Inr result))"

section \<open>Redis-safe integers\<close>

definition RedisSafeLimit :: int where "RedisSafeLimit = 2 ^ 53 - 1"

definition MicroUSD_Valid :: "int \<Rightarrow> bool" where
  "MicroUSD_Valid m \<longleftrightarrow> m \<ge> 0 \<and> m \<le> RedisSafeLimit"

definition MicroUSD_Add :: "int \<Rightarrow> int \<Rightarrow> money_error + int" where
  "MicroUSD_Add m n =
     (if m < 0 \<or> n < 0 \<or> m > RedisSafeLimit \<or> n > RedisSafeLimit \<or> n > wrap64 (RedisSafeLimit - m)
      then Inl MicroAddOverflow else Inr (wrap64 (m + n)))"

definition MicroUSD_Sub :: "int \<Rightarrow> int \<Rightarrow> money_error + int" where
  "MicroUSD_Sub m n =
     (if m < 0 \<or> n < 0 \<or> m > RedisSafeLimit \<or> n > RedisSafeLimit \<or> n > m
      then Inl MicroSubNegative else Inr (wrap64 (m - n)))"

definition USDFromMicro :: "int \<Rightarrow> money_error + usd" where
  "USDFromMicro m =
     (if \<not> MicroUSD_Valid m then Inl MicroOutOfRange
      else Inr (USD (Some ((m * usdScaleFactor) sdiv 1000000))))"

definition micro_of_big :: "int \<Rightarrow> money_error + int" where
  "micro_of_big q =
     (if \<not> int64 q then Inl MicroOverflow
      else if \<not> MicroUSD_Valid q then Inl MicroExceedsSafe else Inr q)"

definition MicroFromUSD :: "usd \<Rightarrow> money_error + int" where
  "MicroFromUSD u = guardE (USD_valid u) (micro_of_big (usdUnits u sdiv 1000000000000))"

definition CeilMicroFromUSD :: "usd \<Rightarrow> money_error + int" where
  "CeilMicroFromUSD u =
     guardE (USD_valid u)
       (let q = usdUnits u sdiv 1000000000000; r = usdUnits u smod 1000000000000
        in micro_of_big (if r > 0 then q + 1 else q))"

definition CeilMicroUSD :: "decimal_usd \<Rightarrow> int \<Rightarrow> int \<Rightarrow> money_error + int" where
  "CeilMicroUSD price units unitsPerPrice =
     guardE (DecimalUSD_valid price)
       (if units < 0 \<or> unitsPerPrice \<le> 0 then Inl InvalidUnits
        else micro_of_big (ceilQuo (numerator price * units * 1000000)
                                   (10 ^ nat (scale price) * unitsPerPrice)))"

definition NanoUSDSafeLimit :: int where "NanoUSDSafeLimit = 2 ^ 53 - 1"

definition nanoUSDScaleFactor :: int where "nanoUSDScaleFactor = 1000000000"

definition NanoUSD_Valid :: "int \<Rightarrow> bool" where
  "NanoUSD_Valid n \<longleftrightarrow> n \<ge> 0 \<and> n \<le> NanoUSDSafeLimit"

definition NanoUSD_Add :: "int \<Rightarrow> int \<Rightarrow> money_error + int" where
  "NanoUSD_Add m n =
     (if \<not> NanoUSD_Valid m \<or> \<not> NanoUSD_Valid n \<or> n > wrap64 (NanoUSDSafeLimit - m)
      then Inl NanoAddOverflow else Inr (wrap64 (m + n)))"

definition NanoUSD_Sub :: "int \<Rightarrow> int \<Rightarrow> money_error + int" where
  "NanoUSD_Sub m n =
     (if \<not> NanoUSD_Valid m \<or> \<not> NanoUSD_Valid n \<or> n > m
      then Inl NanoSubNegative else Inr (wrap64 (m - n)))"

definition USDFromNano :: "int \<Rightarrow> money_error + usd" where
  "USDFromNano n =
     (if \<not> NanoUSD_Valid n then Inl NanoOutOfRange
      else Inr (USD (Some (n * nanoUSDScaleFactor))))"

definition validateNanoSource :: "int \<Rightarrow> money_error option" where
  "validateNanoSource units =
     (if units > NanoUSDSafeLimit * nanoUSDScaleFactor then Some NanoSourceExceeds else None)"

definition nanoFromBig :: "int \<Rightarrow> money_error + int" where
  "nanoFromBig v =
     (if v < 0 \<or> \<not> int64 v then Inl NanoOverflow
      else if \<not> NanoUSD_Valid v then Inl NanoExceedsSafe else Inr v)"

definition FloorNanoUSD :: "usd \<Rightarrow> money_error + int" where
  "FloorNanoUSD u =
     guardE (USD_valid u) (guardE (validateNanoSource (usdUnits u))
       (nanoFromBig (usdUnits u sdiv nanoUSDScaleFactor)))"

definition CeilNanoUSD :: "usd \<Rightarrow> money_error + int" where
  "CeilNanoUSD u =
     guardE (USD_valid u) (guardE (validateNanoSource (usdUnits u))
       (let q = usdUnits u sdiv nanoUSDScaleFactor; r = usdUnits u smod nanoUSDScaleFactor
        in nanoFromBig (if r > 0 then q + 1 else q)))"

section \<open>Checked arithmetic as an interface\<close>

text \<open>
  What the three checked arithmetics have in common: amounts have an integer
  value, valid ones lie between zero and a limit, addition and subtraction are
  exact on valid operands whose result is valid, and fail otherwise.
\<close>

locale bounded_money =
  fixes val :: "'m \<Rightarrow> int" and valid :: "'m \<Rightarrow> bool"
    and add :: "'m \<Rightarrow> 'm \<Rightarrow> 'e + 'm" and sub :: "'m \<Rightarrow> 'm \<Rightarrow> 'e + 'm"
    and limit :: int
  assumes valid_iff: "valid a \<longleftrightarrow> 0 \<le> val a \<and> val a \<le> limit"
    and add_ok: "valid a \<Longrightarrow> valid b \<Longrightarrow> val a + val b \<le> limit \<Longrightarrow>
                   \<exists>c. add a b = Inr c \<and> val c = val a + val b"
    and add_err: "\<not> (valid a \<and> valid b \<and> val a + val b \<le> limit) \<Longrightarrow> \<exists>e. add a b = Inl e"
    and sub_ok: "valid a \<Longrightarrow> valid b \<Longrightarrow> val b \<le> val a \<Longrightarrow>
                   \<exists>c. sub a b = Inr c \<and> val c = val a - val b"
    and sub_err: "\<not> (valid a \<and> valid b \<and> val b \<le> val a) \<Longrightarrow> \<exists>e. sub a b = Inl e"
begin

lemma add_Inr:
  assumes "add a b = Inr c"
  shows "valid a" "valid b" "valid c" "val c = val a + val b"
proof -
  have ok: "valid a \<and> valid b \<and> val a + val b \<le> limit"
    using add_err[of a b] assms by force
  then obtain c' where "add a b = Inr c'" "val c' = val a + val b" using add_ok by blast
  with assms have v: "val c = val a + val b" by simp
  show "valid a" "valid b" "val c = val a + val b" using ok v by simp_all
  show "valid c" using ok v by (simp add: valid_iff)
qed

lemma sub_Inr:
  assumes "sub a b = Inr c"
  shows "valid a" "valid b" "valid c" "val c = val a - val b" "val b \<le> val a"
proof -
  have ok: "valid a \<and> valid b \<and> val b \<le> val a"
    using sub_err[of a b] assms by force
  then obtain c' where "sub a b = Inr c'" "val c' = val a - val b" using sub_ok by blast
  with assms have v: "val c = val a - val b" by simp
  show "valid a" "valid b" "val b \<le> val a" "val c = val a - val b" using ok v by simp_all
  show "valid c" using ok v by (simp add: valid_iff)
qed

lemma add_then_sub: "add a b = Inr c \<Longrightarrow> \<exists>d. sub c b = Inr d \<and> val d = val a"
  using add_Inr[of a b c] sub_ok[of c b] by (auto simp: valid_iff)

text \<open>A running total succeeds exactly when its true sum fits, and is that sum.\<close>

lemma total_Inr:
  assumes "foldE add z xs = Inr t"
  shows "val t = val z + (\<Sum>x\<leftarrow>xs. val x)" and "\<forall>x \<in> set xs. valid x" and "valid z \<Longrightarrow> valid t"
  using assms
proof (induction xs arbitrary: z)
  case Nil
  { case 1 then show ?case by simp }
  { case 2 then show ?case by simp }
  { case 3 then show ?case by simp }
next
  case (Cons x xs)
  { case 1
    then obtain y where y: "add z x = Inr y" "foldE add y xs = Inr t" by (auto split: sum.splits)
    show ?case using Cons.IH(1)[OF y(2)] add_Inr(4)[OF y(1)] by simp }
  { case 2
    then obtain y where y: "add z x = Inr y" "foldE add y xs = Inr t" by (auto split: sum.splits)
    show ?case using Cons.IH(2)[OF y(2)] add_Inr(2)[OF y(1)] by simp }
  { case 3
    then obtain y where y: "add z x = Inr y" "foldE add y xs = Inr t" by (auto split: sum.splits)
    show ?case using Cons.IH(3) add_Inr(3)[OF y(1)] y(2) by blast }
qed

lemma sum_nonneg: "\<forall>x \<in> set xs. valid x \<Longrightarrow> 0 \<le> (\<Sum>x\<leftarrow>xs. val x)"
  by (induction xs) (auto simp: valid_iff)

lemma total_ok:
  assumes "valid z" and "\<forall>x \<in> set xs. valid x" and "val z + (\<Sum>x\<leftarrow>xs. val x) \<le> limit"
  shows "\<exists>t. foldE add z xs = Inr t \<and> val t = val z + (\<Sum>x\<leftarrow>xs. val x)"
  using assms
proof (induction xs arbitrary: z)
  case Nil
  then show ?case by simp
next
  case (Cons x xs)
  have "0 \<le> (\<Sum>x\<leftarrow>xs. val x)" using Cons.prems(2) by (intro sum_nonneg) simp
  with Cons.prems have "valid x" "val z + val x \<le> limit" by auto
  then obtain y where y: "add z x = Inr y" "val y = val z + val x"
    using add_ok[OF Cons.prems(1)] by blast
  moreover have "valid y" using add_Inr(3)[OF y(1)] .
  ultimately show ?case using Cons.IH[of y] Cons.prems by (simp add: add.assoc)
qed

lemma total_iff:
  assumes "valid z"
  shows "(\<exists>t. foldE add z xs = Inr t) \<longleftrightarrow>
         (\<forall>x \<in> set xs. valid x) \<and> val z + (\<Sum>x\<leftarrow>xs. val x) \<le> limit"
proof
  assume "\<exists>t. foldE add z xs = Inr t"
  then obtain t where t: "foldE add z xs = Inr t" by blast
  have "valid t" using total_Inr(3)[OF t assms] .
  then show "(\<forall>x \<in> set xs. valid x) \<and> val z + (\<Sum>x\<leftarrow>xs. val x) \<le> limit"
    using total_Inr(1,2)[OF t] by (simp add: valid_iff)
next
  assume "(\<forall>x \<in> set xs. valid x) \<and> val z + (\<Sum>x\<leftarrow>xs. val x) \<le> limit"
  then show "\<exists>t. foldE add z xs = Inr t" using total_ok[OF assms] by blast
qed

end

lemma USD_valid_None_iff: "USD_valid u = None \<longleftrightarrow> 0 \<le> usdUnits u \<and> usdUnits u \<le> maxUSDUnits"
  by (cases u) (auto simp: USD_valid_def usdUnits_def maxUSDUnits_def split: option.splits)

lemma usdUnits_simps [simp]: "usdUnits (USD None) = 0" "usdUnits (USD (Some n)) = n"
  by (simp_all add: usdUnits_def)

lemma USD_IsZero_iff: "USD_IsZero u \<longleftrightarrow> usdUnits u = 0"
  by (cases u) (auto simp: USD_IsZero_def usdUnits_def split: option.splits)

lemma USD_Cmp_iffs:
  "USD_Cmp u v < 0 \<longleftrightarrow> usdUnits u < usdUnits v"
  "USD_Cmp u v > 0 \<longleftrightarrow> usdUnits u > usdUnits v"
  "USD_Cmp u v = 0 \<longleftrightarrow> usdUnits u = usdUnits v"
  by (auto simp: USD_Cmp_def sgn_if)

lemma micro_add_alt:
  "MicroUSD_Add m n =
     (if MicroUSD_Valid m \<and> MicroUSD_Valid n \<and> m + n \<le> RedisSafeLimit
      then Inr (m + n) else Inl MicroAddOverflow)"
proof (cases "MicroUSD_Valid m \<and> MicroUSD_Valid n")
  case True
  then have "wrap64 (RedisSafeLimit - m) = RedisSafeLimit - m" "wrap64 (m + n) = m + n"
    by (auto intro!: wrap64_id simp: MicroUSD_Valid_def RedisSafeLimit_def int64_defs)
  with True show ?thesis by (auto simp: MicroUSD_Add_def MicroUSD_Valid_def)
next
  case False
  then show ?thesis by (auto simp: MicroUSD_Add_def MicroUSD_Valid_def)
qed

lemma micro_sub_alt:
  "MicroUSD_Sub m n =
     (if MicroUSD_Valid m \<and> MicroUSD_Valid n \<and> n \<le> m then Inr (m - n) else Inl MicroSubNegative)"
proof (cases "MicroUSD_Valid m \<and> MicroUSD_Valid n \<and> n \<le> m")
  case True
  then have "wrap64 (m - n) = m - n"
    by (auto intro!: wrap64_id simp: MicroUSD_Valid_def RedisSafeLimit_def int64_defs)
  with True show ?thesis by (auto simp: MicroUSD_Sub_def MicroUSD_Valid_def)
next
  case False
  then show ?thesis by (auto simp: MicroUSD_Sub_def MicroUSD_Valid_def)
qed

lemma nano_eq_micro:
  "NanoUSD_Valid = MicroUSD_Valid" "NanoUSDSafeLimit = RedisSafeLimit"
  by (auto simp: NanoUSD_Valid_def MicroUSD_Valid_def NanoUSDSafeLimit_def RedisSafeLimit_def)

lemma nano_add_alt:
  "NanoUSD_Add m n =
     (if NanoUSD_Valid m \<and> NanoUSD_Valid n \<and> m + n \<le> NanoUSDSafeLimit
      then Inr (m + n) else Inl NanoAddOverflow)"
  using micro_add_alt[of m n]
  by (auto simp: NanoUSD_Add_def MicroUSD_Add_def nano_eq_micro MicroUSD_Valid_def split: if_splits)

lemma nano_sub_alt:
  "NanoUSD_Sub m n =
     (if NanoUSD_Valid m \<and> NanoUSD_Valid n \<and> n \<le> m then Inr (m - n) else Inl NanoSubNegative)"
  using micro_sub_alt[of m n]
  by (auto simp: NanoUSD_Sub_def MicroUSD_Sub_def nano_eq_micro MicroUSD_Valid_def split: if_splits)

interpretation micro: bounded_money "\<lambda>m. m" MicroUSD_Valid MicroUSD_Add MicroUSD_Sub RedisSafeLimit
  by unfold_locales (auto simp: micro_add_alt micro_sub_alt MicroUSD_Valid_def)

interpretation nano: bounded_money "\<lambda>m. m" NanoUSD_Valid NanoUSD_Add NanoUSD_Sub NanoUSDSafeLimit
  by unfold_locales (auto simp: nano_add_alt nano_sub_alt NanoUSD_Valid_def)

interpretation exact: bounded_money usdUnits "\<lambda>u. USD_valid u = None" USD_Add USD_Sub maxUSDUnits
proof (unfold_locales, goal_cases)
  case (1 a)
  then show ?case by (rule USD_valid_None_iff)
next
  case (2 a b)
  then show ?case by (auto simp: USD_Add_def USD_valid_None_iff Let_def)
next
  case (3 a b)
  then show ?case
    by (simp add: USD_Add_def Let_def del: not_None_eq) (auto simp: USD_valid_None_iff simp del: not_None_eq)
next
  case (4 a b)
  then show ?case by (auto simp: USD_Sub_def USD_Cmp_iffs)
next
  case (5 a b)
  then show ?case
    by (auto simp: USD_Sub_def USD_Cmp_iffs simp del: not_None_eq)
qed

section \<open>The integer boundary\<close>

text \<open>
  A USD amount becomes a Redis integer in two ways: limits are rounded down,
  charges are rounded up. The contract of one such pair of roundings, and what
  a store that only compares the integers may conclude about the exact amounts.
\<close>

locale integer_boundary =
  fixes flr :: "usd \<Rightarrow> 'e + int" and cei :: "usd \<Rightarrow> 'e + int" and inj_int :: "int \<Rightarrow> 'e + usd"
    and quantum :: int and limit :: int
  assumes unit_pos: "0 < quantum"
    and floor_Inr: "flr u = Inr k \<Longrightarrow>
          0 \<le> k \<and> k \<le> limit \<and> k * quantum \<le> usdUnits u \<and> usdUnits u < (k + 1) * quantum"
    and ceil_Inr: "cei u = Inr k \<Longrightarrow>
          0 \<le> k \<and> k \<le> limit \<and> (k - 1) * quantum < usdUnits u \<and> usdUnits u \<le> k * quantum"
    and back_ok: "0 \<le> k \<Longrightarrow> k \<le> limit \<Longrightarrow> \<exists>u. inj_int k = Inr u \<and> usdUnits u = k * quantum"
    and whole_ok: "0 \<le> k \<Longrightarrow> k \<le> limit \<Longrightarrow> usdUnits u = k * quantum \<Longrightarrow> flr u = Inr k \<and> cei u = Inr k"
begin

lemma roundtrip:
  "0 \<le> k \<Longrightarrow> k \<le> limit \<Longrightarrow> \<exists>u. inj_int k = Inr u \<and> usdUnits u = k * quantum \<and> flr u = Inr k \<and> cei u = Inr k"
  using back_ok whole_ok by blast

lemma floor_ceil_gap: "flr u = Inr a \<Longrightarrow> cei u = Inr b \<Longrightarrow> a \<le> b \<and> b \<le> a + 1"
proof -
  assume a: "flr u = Inr a" and b: "cei u = Inr b"
  have "a * quantum \<le> b * quantum" using floor_Inr[OF a] ceil_Inr[OF b] by linarith
  moreover have "(b - 1) * quantum < (a + 1) * quantum" using floor_Inr[OF a] ceil_Inr[OF b] by linarith
  ultimately show ?thesis using unit_pos by (simp add: mult_less_cancel_right_pos)
qed

lemma charges_within_limit:
  assumes "flr l = Inr m" and "list_all2 (\<lambda>c k. cei c = Inr k) cs ks" and "sum_list ks \<le> m"
  shows "(\<Sum>c\<leftarrow>cs. usdUnits c) \<le> usdUnits l"
proof -
  from assms(2) have "(\<Sum>c\<leftarrow>cs. usdUnits c) \<le> sum_list ks * quantum"
  proof (induction rule: list_all2_induct)
    case Nil
    then show ?case by simp
  next
    case (Cons c cs k ks)
    then show ?case using ceil_Inr[of c k] by (simp add: distrib_right add_mono)
  qed
  also have "\<dots> \<le> m * quantum" using assms(3) unit_pos by simp
  also have "\<dots> \<le> usdUnits l" using floor_Inr[OF assms(1)] by simp
  finally show ?thesis .
qed

end

lemma ceil_branch: "0 \<le> u \<Longrightarrow> 0 < d \<Longrightarrow>
  (if u smod d > 0 then u sdiv d + 1 else u sdiv d) = ceilQuo u d"
  using pos_mod_sign[of d u] by (auto simp: ceilQuo_def smod_nonneg not_less simp del: pos_mod_sign)

lemma micro_of_big_Inr: "micro_of_big q = Inr k \<longleftrightarrow> k = q \<and> 0 \<le> q \<and> q \<le> RedisSafeLimit"
  by (auto simp: micro_of_big_def MicroUSD_Valid_def RedisSafeLimit_def int64_defs)

lemma nanoFromBig_Inr: "nanoFromBig q = Inr k \<longleftrightarrow> k = q \<and> 0 \<le> q \<and> q \<le> NanoUSDSafeLimit"
  by (auto simp: nanoFromBig_def NanoUSD_Valid_def NanoUSDSafeLimit_def int64_defs)

lemma MicroFromUSD_Inr:
  "MicroFromUSD u = Inr k \<longleftrightarrow>
     USD_valid u = None \<and> k = usdUnits u div 10 ^ 12 \<and> k \<le> RedisSafeLimit"
  by (auto simp: MicroFromUSD_def micro_of_big_Inr USD_valid_None_iff sdiv_nonneg pos_imp_zdiv_nonneg_iff)

lemma CeilMicroFromUSD_Inr:
  "CeilMicroFromUSD u = Inr k \<longleftrightarrow>
     USD_valid u = None \<and> k = ceilQuo (usdUnits u) (10 ^ 12) \<and> k \<le> RedisSafeLimit"
proof (cases "USD_valid u")
  case None
  then have "0 \<le> usdUnits u" by (simp add: USD_valid_None_iff)
  then have "(if usdUnits u smod 1000000000000 > 0 then usdUnits u sdiv 1000000000000 + 1
              else usdUnits u sdiv 1000000000000) = ceilQuo (usdUnits u) (10 ^ 12)"
    and "0 \<le> ceilQuo (usdUnits u) (10 ^ 12)"
    using ceil_branch[of "usdUnits u" 1000000000000] ceilQuo_bracket(3)[of "usdUnits u" "10 ^ 12"] by simp_all
  with None show ?thesis by (auto simp: CeilMicroFromUSD_def Let_def micro_of_big_Inr)
qed (simp add: CeilMicroFromUSD_def)

lemma validateNanoSource_None:
  "validateNanoSource n = None \<longleftrightarrow> n \<le> NanoUSDSafeLimit * nanoUSDScaleFactor"
  by (simp add: validateNanoSource_def)

lemma FloorNanoUSD_Inr:
  "FloorNanoUSD u = Inr k \<longleftrightarrow>
     USD_valid u = None \<and> usdUnits u \<le> NanoUSDSafeLimit * nanoUSDScaleFactor
     \<and> k = usdUnits u div 10 ^ 9 \<and> k \<le> NanoUSDSafeLimit"
  by (auto simp: FloorNanoUSD_def nanoFromBig_Inr USD_valid_None_iff sdiv_nonneg nanoUSDScaleFactor_def
      pos_imp_zdiv_nonneg_iff validateNanoSource_None)

lemma CeilNanoUSD_Inr:
  "CeilNanoUSD u = Inr k \<longleftrightarrow>
     USD_valid u = None \<and> usdUnits u \<le> NanoUSDSafeLimit * nanoUSDScaleFactor
     \<and> k = ceilQuo (usdUnits u) (10 ^ 9) \<and> k \<le> NanoUSDSafeLimit"
proof (cases "USD_valid u")
  case None
  then have "0 \<le> usdUnits u" by (simp add: USD_valid_None_iff)
  then have "(if usdUnits u smod nanoUSDScaleFactor > 0 then usdUnits u sdiv nanoUSDScaleFactor + 1
              else usdUnits u sdiv nanoUSDScaleFactor) = ceilQuo (usdUnits u) (10 ^ 9)"
    and "0 \<le> ceilQuo (usdUnits u) (10 ^ 9)"
    using ceil_branch[of "usdUnits u" 1000000000] ceilQuo_bracket(3)[of "usdUnits u" "10 ^ 9"]
    by (simp_all add: nanoUSDScaleFactor_def split: if_splits)
  with None show ?thesis
    by (auto simp: CeilNanoUSD_def Let_def nanoFromBig_Inr validateNanoSource_None)
qed (simp add: CeilNanoUSD_def)

lemma floor_bracket:
  assumes "0 < (d::int)"
  shows "u div d * d \<le> u" and "u < (u div d + 1) * d"
proof -
  have u: "u = u div d * d + u mod d" by simp
  have m: "0 \<le> u mod d" "u mod d < d" using assms by simp_all
  show "u div d * d \<le> u" using u m by linarith
  show "u < (u div d + 1) * d" unfolding distrib_right using u m by linarith
qed

lemma safe_units_valid:
  assumes "0 \<le> k" and "k \<le> RedisSafeLimit" and "u \<le> 10 ^ 12" and "0 \<le> u"
  shows "0 \<le> k * u" and "k * u \<le> maxUSDUnits"
proof -
  show "0 \<le> k * u" using assms by simp
  have "k * u \<le> RedisSafeLimit * 10 ^ 12" using assms by (intro mult_mono) auto
  then show "k * u \<le> maxUSDUnits" by (simp add: RedisSafeLimit_def maxUSDUnits_def)
qed

interpretation micro_boundary: integer_boundary MicroFromUSD CeilMicroFromUSD USDFromMicro "10 ^ 12" RedisSafeLimit
proof (unfold_locales, goal_cases)
  case 1
  show ?case by simp
next
  case (2 u k)
  then show ?case
    using floor_bracket[of "10 ^ 12" "usdUnits u"]
    by (auto simp: MicroFromUSD_Inr USD_valid_None_iff pos_imp_zdiv_nonneg_iff)
next
  case (3 u k)
  then show ?case
    using ceilQuo_bracket[of "usdUnits u" "10 ^ 12"]
    by (auto simp: CeilMicroFromUSD_Inr USD_valid_None_iff)
next
  case (4 k)
  then have "(k * usdScaleFactor) sdiv 1000000 = k * 10 ^ 12"
    by (subst sdiv_nonneg) (auto simp: usdScaleFactor_def)
  with 4 show ?case by (simp add: USDFromMicro_def MicroUSD_Valid_def)
next
  case (5 k u)
  then show ?case
    using safe_units_valid[of k "10 ^ 12"] ceilQuo_exact[of k "10 ^ 12"]
    by (simp add: MicroFromUSD_Inr CeilMicroFromUSD_Inr USD_valid_None_iff)
qed

interpretation nano_boundary: integer_boundary FloorNanoUSD CeilNanoUSD USDFromNano "10 ^ 9" NanoUSDSafeLimit
proof (unfold_locales, goal_cases)
  case 1
  show ?case by simp
next
  case (2 u k)
  then show ?case
    using floor_bracket[of "10 ^ 9" "usdUnits u"]
    by (auto simp: FloorNanoUSD_Inr USD_valid_None_iff pos_imp_zdiv_nonneg_iff)
next
  case (3 u k)
  then show ?case
    using ceilQuo_bracket[of "usdUnits u" "10 ^ 9"]
    by (auto simp: CeilNanoUSD_Inr USD_valid_None_iff)
next
  case (4 k)
  then show ?case by (simp add: USDFromNano_def NanoUSD_Valid_def nanoUSDScaleFactor_def)
next
  case (5 k u)
  then show ?case
    using safe_units_valid[of k "10 ^ 9"] ceilQuo_exact[of k "10 ^ 9"]
    by (simp add: FloorNanoUSD_Inr CeilNanoUSD_Inr USD_valid_None_iff nano_eq_micro nanoUSDScaleFactor_def)
qed

section \<open>Prices times units\<close>

lemma DecimalUSD_valid_None:
  "DecimalUSD_valid d = None \<longleftrightarrow>
     0 \<le> scale d \<and> scale d \<le> 18 \<and> 0 \<le> numerator d
     \<and> numerator d * 10 ^ nat (18 - scale d) \<le> maxUSDUnits"
  by (auto simp: DecimalUSD_valid_def USDScale_def Let_def)

lemma CeilUSD_Inr:
  assumes "CeilUSD p n upp = Inr u"
  shows "usdUnits u = ceilQuo (numerator p * n * 10 ^ 18) (10 ^ nat (scale p) * upp)"
    and "DecimalUSD_valid p = None" and "0 \<le> n" and "0 < upp" and "USD_valid u = None"
  using assms by (auto simp: CeilUSD_def Let_def usdScaleFactor_def split: if_splits)

lemma CeilMicroUSD_Inr:
  assumes "CeilMicroUSD p n upp = Inr k"
  shows "k = ceilQuo (numerator p * n * 10 ^ 6) (10 ^ nat (scale p) * upp)"
    and "DecimalUSD_valid p = None" and "0 \<le> n" and "0 < upp" and "MicroUSD_Valid k"
  using assms by (auto simp: CeilMicroUSD_def Let_def micro_of_big_Inr MicroUSD_Valid_def split: if_splits)

text \<open>The microUSD compatibility charge never undercuts the exact one.\<close>

lemma micro_covers_usd:
  assumes "CeilUSD p n upp = Inr u" and "CeilMicroUSD p n upp = Inr k"
  shows "usdUnits u \<le> k * 10 ^ 12"
proof -
  let ?d = "10 ^ nat (scale p) * upp"
  note u = CeilUSD_Inr[OF assms(1)]
  have d: "0 < ?d" using u(4) by simp
  have nn: "0 \<le> numerator p * n" using u(2,3) by (simp add: DecimalUSD_valid_None)
  have k: "k = ceilQuo (numerator p * n * 10 ^ 6) ?d" using CeilMicroUSD_Inr(1)[OF assms(2)] .
  have "numerator p * n * 10 ^ 6 \<le> k * ?d"
    unfolding k using nn d by (intro ceilQuo_bracket) auto
  then have "numerator p * n * 10 ^ 6 * 10 ^ 12 \<le> k * ?d * 10 ^ 12"
    by (rule mult_right_mono) simp
  also have "k * ?d * 10 ^ 12 = (k * 10 ^ 12) * ?d" by (simp add: mult_ac)
  finally have "numerator p * n * 10 ^ 18 \<le> (k * 10 ^ 12) * ?d" by simp
  then show ?thesis
    unfolding u(1) using nn d by (intro ceilQuo_least) auto
qed

end
