(* ===== verification/Money_Text.thy ===== *)
theory Money_Text
  imports Money
begin

text \<open>
  The decimal text of money: what \<^verbatim>\<open>ParseUSD\<close> and \<^verbatim>\<open>ParseDecimalUSD\<close> make of
  the strings that \<^verbatim>\<open>USD.String\<close> and \<^verbatim>\<open>DecimalUSD.CanonicalString\<close> print, and the
  properties of the money component.
\<close>

section \<open>Reading digits around one point\<close>

lemma digit_neq [simp]:
  "is_digit c \<Longrightarrow> c \<noteq> CHR ''.''" "is_digit c \<Longrightarrow> c \<noteq> CHR ''e''" "is_digit c \<Longrightarrow> c \<noteq> CHR ''E''"
  "is_digit c \<Longrightarrow> c \<noteq> CHR ''+''" "is_digit c \<Longrightarrow> c \<noteq> CHR ''-''"
  by (auto simp: is_digit_def)

lemma list_all_hd: "list_all P s \<Longrightarrow> s \<noteq> [] \<Longrightarrow> P (hd s)"
  by (cases s) auto

lemma list_all_last: "list_all P s \<Longrightarrow> s \<noteq> [] \<Longrightarrow> P (last s)"
  by (simp add: list_all_iff)

lemma no_sign_prefix:
  assumes "s \<noteq> []" and "is_digit (hd s)"
  shows "\<not> has_prefix ''+'' s" and "\<not> has_prefix ''-'' s"
  using assms by (cases s; auto simp: has_prefix_def dest: digit_neq)+

lemma parse_exponent_none:
  "\<forall>c \<in> set s. c \<noteq> CHR ''e'' \<and> c \<noteq> CHR ''E'' \<Longrightarrow> parse_exponent s = Inr (s, 0)"
  by (simp add: parse_exponent_def)

lemma count_char_digits: "list_all is_digit s \<Longrightarrow> count_char CHR ''.'' s = 0"
  by (induction s) (auto simp: count_char_def)

lemma splitn2_digits: "list_all is_digit s \<Longrightarrow> splitn2 CHR ''.'' s = (s, None)"
proof -
  assume "list_all is_digit s"
  then have "\<forall>c \<in> set s. c \<noteq> CHR ''.''" by (auto simp: list_all_iff)
  then have "takeWhile (\<lambda>d. d \<noteq> CHR ''.'') s = s" "dropWhile (\<lambda>d. d \<noteq> CHR ''.'') s = []" by auto
  then show ?thesis by (simp add: splitn2_def)
qed

lemma splitn2_point:
  assumes "list_all is_digit w"
  shows "splitn2 CHR ''.'' (w @ CHR ''.'' # f) = (w, Some f)"
proof -
  have "\<forall>c \<in> set w. c \<noteq> CHR ''.''" using assms by (auto simp: list_all_iff)
  then have "takeWhile (\<lambda>d. d \<noteq> CHR ''.'') (w @ CHR ''.'' # f) = w"
    "dropWhile (\<lambda>d. d \<noteq> CHR ''.'') (w @ CHR ''.'' # f) = CHR ''.'' # f"
    by (simp_all add: takeWhile_append2 dropWhile_append2)
  then show ?thesis by (simp add: splitn2_def)
qed

lemma point_text:
  assumes "list_all is_digit w" "list_all is_digit f" "w \<noteq> []" "f \<noteq> []"
  defines "s \<equiv> w @ CHR ''.'' # f"
  shows "TrimSpace s = s" "\<not> has_prefix ''+'' s" "\<not> has_prefix ''-'' s"
    "count_char CHR ''.'' s = 1" "s \<noteq> ''.''" "s \<noteq> []" "parse_exponent s = Inr (s, 0)"
proof -
  have hd: "is_digit (hd s)" and last: "is_digit (last s)" and ne: "s \<noteq> []"
    using assms list_all_hd list_all_last by auto
  show "s \<noteq> []" by (rule ne)
  show "TrimSpace s = s" using ne hd last by (rule TrimSpace_digit_ends)
  show "\<not> has_prefix ''+'' s" "\<not> has_prefix ''-'' s" using no_sign_prefix[OF ne hd] .
  show "count_char CHR ''.'' s = 1"
    using count_char_digits[OF assms(1)] count_char_digits[OF assms(2)]
    by (simp add: s_def count_char_def)
  show "s \<noteq> ''.''" using assms(3,4) by (auto simp: s_def append_eq_Cons_conv)
  show "parse_exponent s = Inr (s, 0)"
    using assms(1,2) digit_neq(2,3)
    by (intro parse_exponent_none) (auto simp: s_def list_all_iff simp del: digit_neq)
qed

lemma whole_text:
  assumes "list_all is_digit s" "s \<noteq> []"
  shows "TrimSpace s = s" "\<not> has_prefix ''+'' s" "\<not> has_prefix ''-'' s"
    "count_char CHR ''.'' s = 0" "s \<noteq> ''.''"
proof -
  have hd: "is_digit (hd s)" and last: "is_digit (last s)"
    using assms list_all_hd list_all_last by auto
  show "TrimSpace s = s" using assms(2) hd last by (rule TrimSpace_digit_ends)
  show "\<not> has_prefix ''+'' s" "\<not> has_prefix ''-'' s" using no_sign_prefix[OF assms(2) hd] .
  show "count_char CHR ''.'' s = 0" using count_char_digits[OF assms(1)] .
  show "s \<noteq> ''.''" using hd by (auto simp: is_digit_def)
qed

text \<open>A number padded on the left and cut before its last \<open>k\<close> digits.\<close>

definition padded :: "nat \<Rightarrow> string \<Rightarrow> string" where
  "padded k ds = (if length ds \<le> k then replicate (k - length ds + 1) CHR ''0'' @ ds else ds)"

lemma padded_facts:
  assumes "list_all is_digit ds"
  shows "list_all is_digit (padded k ds)" "k < length (padded k ds)"
    "dec_value (padded k ds) = dec_value ds" "length (padded k ds) \<le> max (Suc k) (length ds)"
proof -
  show "dec_value (padded k ds) = dec_value ds" 
    by (cases "length ds \<le> k") (simp_all only: padded_def dec_value_zeros if_True if_False)
qed (use assms in \<open>auto simp: padded_def list_all_iff is_digit_def\<close>)

lemma cut_facts:
  assumes "list_all is_digit ds" "k < length ds"
  defines "p \<equiv> length ds - k"
  shows "list_all is_digit (take p ds)" "list_all is_digit (drop p ds)"
    "take p ds \<noteq> []" "length (drop p ds) = k" "take p ds @ drop p ds = ds"
  using assms by (auto simp: list_all_iff dest: in_set_takeD in_set_dropD)

section \<open>Fixed-scale amounts\<close>

lemma trim_left_empty_iff: "trim_left c s = [] \<longleftrightarrow> (\<forall>d \<in> set s. d = c)"
  by (simp add: trim_left_def dropWhile_eq_Nil_conv)

lemma dec_value_all_zero: "\<forall>d \<in> set s. d = CHR ''0'' \<Longrightarrow> dec_value s = 0"
  using dec_value_trim_left[of s] trim_left_empty_iff[of "CHR ''0''" s] by simp

lemma fixed_units_same_scale:
  assumes "0 \<le> n" "n \<le> maxUSDUnits"
  shows "fixed_units n 0 0 = Inr (USD (Some n))"
  using assms by (simp add: fixed_units_def)

lemma ParseUSD_point:
  assumes "list_all is_digit w" "list_all is_digit f" "w \<noteq> []" "length f = 18" "length w \<le> 1024"
    and "dec_value (w @ f) \<le> maxUSDUnits"
  shows "\<exists>u. ParseUSD (w @ CHR ''.'' # f) = Inr u \<and> usdUnits u = dec_value (w @ f)"
proof -
  have f: "f \<noteq> []" using assms(4) by auto
  note t = point_text[OF assms(1,2,3) f]
  have digits: "list_all is_digit (w @ f)" using assms by simp
  have eq: "ParseUSD (w @ CHR ''.'' # f) =
      (let digits = trim_left CHR ''0'' (w @ f)
       in if digits = [] then Inr (USD None) else fixed_units (dec_value digits) 0 0)"
    unfolding ParseUSD_def using t splitn2_point[OF assms(1), of f] assms f digits
    by (simp add: Let_def USDScale_def)
  show ?thesis
  proof (cases "trim_left CHR ''0'' (w @ f) = []")
    case True
    then have "dec_value (w @ f) = 0" using trim_left_empty_iff dec_value_all_zero by blast
    with True eq show ?thesis by (simp add: Let_def)
  next
    case False
    then show ?thesis
      using eq fixed_units_same_scale[OF dec_value_nonneg[OF digits] assms(6)]
      by (simp add: Let_def dec_value_trim_left)
  qed
qed

lemma USD_String_Some:
  assumes "0 \<le> n"
  defines "ds \<equiv> padded 18 (nat_dec (nat n))"
  shows "USD_String (USD (Some n)) = take (length ds - 18) ds @ CHR ''.'' # drop (length ds - 18) ds"
  using assms by (simp add: USD_String_def int_dec_def padded_def USDScale_def Let_def)

lemma padded_zero_18: "padded 18 ''0'' = replicate 19 CHR ''0''"
  by (simp add: padded_def eval_nat_numeral)

lemma USD_String_None: "USD_String (USD None) = USD_String (USD (Some 0))"
  by (simp add: USD_String_Some padded_zero_18) (simp add: USD_String_def eval_nat_numeral)

text \<open>C36: printing a valid USD amount and parsing the text gives back the same amount.\<close>

theorem usd_string_roundtrip:
  assumes "USD_valid u = None"
  shows "\<exists>v. ParseUSD (USD_String u) = Inr v \<and> usdUnits v = usdUnits u"
proof -
  define n where "n = usdUnits u"
  have n: "0 \<le> n" "n \<le> maxUSDUnits" using assms by (simp_all add: USD_valid_None_iff n_def)
  have str: "USD_String u = USD_String (USD (Some n))"
    using USD_String_None by (cases u rule: usd.exhaust; cases "raw_units u") (auto simp: n_def)
  define ds where "ds = padded 18 (nat_dec (nat n))"
  note pf = padded_facts[OF nat_dec_digits, of 18 "nat n", folded ds_def]
  note cf = cut_facts[OF pf(1,2)]
  have "nat n < 10 ^ 38" using n by (simp add: maxUSDUnits_def nat_less_iff)
  then have "length (nat_dec (nat n)) \<le> 38" by (intro length_nat_dec) simp_all
  then have "length ds \<le> 1024" using pf(4) by simp
  then have short: "length (take (length ds - 18) ds) \<le> 1024" by simp
  have dv: "dec_value (take (length ds - 18) ds @ drop (length ds - 18) ds) = n"
    using cf(5) pf(3) n(1) by simp
  show ?thesis
    using ParseUSD_point[OF cf(1,2,3,4) short] dv n(2) USD_String_Some[OF n(1)] str
    by (simp add: ds_def n_def)
qed

theorem usd_string_roundtrip_witness:
  "\<exists>v. ParseUSD (USD_String (USD (Some 1500000000000000000))) = Inr v \<and> usdUnits v = 1500000000000000000"
  using usd_string_roundtrip[of "USD (Some 1500000000000000000)"] by (simp add: USD_valid_def)

lemma fixed_units_valid: "0 \<le> c \<Longrightarrow> fixed_units c off e = Inr u \<Longrightarrow> USD_valid u = None"
  by (auto simp: fixed_units_def Let_def USD_valid_None_iff sdiv_nonneg pos_imp_zdiv_nonneg_iff
      split: if_splits)

lemma trim_left_digits: "list_all is_digit s \<Longrightarrow> list_all is_digit (trim_left c s)"
  by (auto simp: trim_left_def list_all_iff dest: set_dropWhileD)

text \<open>Whatever text \<^verbatim>\<open>ParseUSD\<close> accepts, the amount it returns fits NUMERIC(38,18): it is not
  negative and has at most 38 digits, whatever the exponent of the text.\<close>

theorem parse_usd_valid:
  assumes "ParseUSD s = Inr u"
  shows "USD_valid u = None \<and> 0 \<le> usdUnits u \<and> usdUnits u < 10 ^ 38"
proof -
  have "USD_valid u = None"
    using assms
    by (auto simp: ParseUSD_def Let_def bindE_eq_Inr_iff USD_valid_def
        dest!: fixed_units_valid[rotated] intro!: dec_value_nonneg trim_left_digits
        split: if_splits prod.splits option.splits)
  then show ?thesis by (auto simp: USD_valid_None_iff maxUSDUnits_def)
qed

theorem parse_usd_valid_witness:
  "USD_valid (USD (Some 250)) = None \<and> 0 \<le> usdUnits (USD (Some 250)) \<and> usdUnits (USD (Some 250)) < 10 ^ 38"
proof -
  have "ParseUSD ''2.5E-16'' = Inr (USD (Some 250))" by code_simp
  then show ?thesis by (rule parse_usd_valid)
qed

section \<open>Catalog prices\<close>

lemma ParseDecimalUSD_point:
  assumes "list_all is_digit w" "list_all is_digit f" "w \<noteq> []" "f \<noteq> []"
  shows "ParseDecimalUSD (w @ CHR ''.'' # f) =
    (let p = \<lparr>numerator = dec_value (w @ f), scale = int (length f), raw = w @ CHR ''.'' # f\<rparr>
     in guardE (DecimalUSD_valid p) (Inr p))"
  unfolding ParseDecimalUSD_def using point_text[OF assms] splitn2_point[OF assms(1), of f] assms
  by (simp add: Let_def)

lemma ParseDecimalUSD_whole:
  assumes "list_all is_digit w" "w \<noteq> []"
  shows "ParseDecimalUSD w =
    (let p = \<lparr>numerator = dec_value w, scale = 0, raw = w\<rparr> in guardE (DecimalUSD_valid p) (Inr p))"
  unfolding ParseDecimalUSD_def using whole_text[OF assms] splitn2_digits[OF assms(1)] assms
  by (simp add: Let_def)

lemma trim_right_append:
  "trim_right c (a @ b) = (if trim_right c b = [] then trim_right c a else a @ trim_right c b)"
  by (auto simp: trim_right_def dropWhile_append dropWhile_eq_Nil_conv)

lemma trim_right_split: "\<exists>n. s = trim_right c s @ replicate n c"
proof -
  obtain n where "rev s = replicate n c @ trim_left c (rev s)" using trim_left_split by blast
  then have "rev (rev s) = rev (replicate n c @ trim_left c (rev s))" by simp
  then show ?thesis by (auto simp: trim_right_def trim_left_def)
qed

lemma trim_right_id: "s \<noteq> [] \<Longrightarrow> last s \<noteq> c \<Longrightarrow> trim_right c s = s"
  by (cases s rule: rev_cases) (auto simp: trim_right_def)

lemma trim_point:
  assumes "list_all is_digit w" "w \<noteq> []" "list_all is_digit f"
  defines "g \<equiv> trim_right CHR ''0'' f"
  shows "trim_right CHR ''.'' (trim_right CHR ''0'' (w @ CHR ''.'' # f)) =
           (if g = [] then w else w @ CHR ''.'' # g)"
proof (cases "g = []")
  case True
  have w: "last w \<noteq> CHR ''.''" using list_all_last[OF assms(1,2)] by auto
  have "trim_right CHR ''0'' (w @ CHR ''.'' # f) = w @ [CHR ''.'']"
    using True trim_right_append[of "CHR ''0''" "w @ [CHR ''.'']" f]
    by (simp add: g_def trim_right_id)
  then show ?thesis
    using True w assms(2) by (simp add: trim_right_append trim_right_id) (simp add: trim_right_def)
next
  case False
  have "list_all is_digit g"
    using assms(3) by (auto simp: g_def trim_right_def list_all_iff dest: set_dropWhileD)
  then have "is_digit (last g)" using False by (rule list_all_last)
  then have g: "last g \<noteq> CHR ''.''" by auto
  have "trim_right CHR ''0'' (w @ CHR ''.'' # f) = w @ CHR ''.'' # g"
    using False trim_right_append[of "CHR ''0''" "w @ [CHR ''.'']" f] by (simp add: g_def)
  then show ?thesis using False g trim_right_id[of "w @ CHR ''.'' # g" "CHR ''.''"] by simp
qed

lemma dec_value_trailing: "dec_value (s @ replicate k CHR ''0'') = dec_value s * 10 ^ k"
  using dec_value_append[of s "replicate k CHR ''0''"] dec_value_zeros[of k "[]"] by simp

text \<open>Dropping trailing zeros of the fraction keeps the price and its validity.\<close>

lemma rescaled_valid:
  assumes "DecimalUSD_valid d = None" "numerator d = n * 10 ^ k" "scale d = int m + int k" "0 \<le> n"
  shows "DecimalUSD_valid \<lparr>numerator = n, scale = int m, raw = r\<rparr> = None"
proof -
  have "m + k \<le> 18" using assms(1,3) by (simp add: DecimalUSD_valid_None)
  then have "nat (18 - int m) = k + nat (18 - (int m + int k))" by simp
  then have eq: "n * 10 ^ nat (18 - int m) = numerator d * 10 ^ nat (18 - scale d)"
    by (simp add: assms power_add)
  have "numerator d * 10 ^ nat (18 - scale d) \<le> maxUSDUnits"
    using assms(1) unfolding DecimalUSD_valid_None by blast
  then have "n * 10 ^ nat (18 - int m) \<le> maxUSDUnits" by (simp only: eq)
  with assms(4) \<open>m + k \<le> 18\<close> show ?thesis by (simp add: DecimalUSD_valid_None)
qed

lemma CanonicalString_scaled:
  assumes "0 \<le> numerator d" "scale d = int k" "0 < k"
  defines "ps \<equiv> padded k (nat_dec (nat (numerator d)))"
  shows "CanonicalString d = trim_right CHR ''.'' (trim_right CHR ''0''
           (take (length ps - k) ps @ CHR ''.'' # drop (length ps - k) ps))"
  using assms by (simp add: CanonicalString_def int_dec_def padded_def Let_def)

text \<open>The canonical text of a valid catalog price parses to a price of the same value.\<close>

theorem canonical_string_roundtrip:
  assumes valid: "DecimalUSD_valid d = None"
  shows "\<exists>e. ParseDecimalUSD (CanonicalString d) = Inr e
           \<and> numerator e * 10 ^ nat (scale d) = numerator d * 10 ^ nat (scale e)"
proof -
  have s: "0 \<le> scale d" "0 \<le> numerator d" using valid by (simp_all add: DecimalUSD_valid_None)
  define ds where "ds = nat_dec (nat (numerator d))"
  have ds: "list_all is_digit ds" "ds \<noteq> []" "dec_value ds = numerator d"
    using nat_dec_digits s(2) by (simp_all add: ds_def)
  show ?thesis
  proof (cases "scale d = 0")
    case True
    then have "CanonicalString d = ds" using s(2) by (simp add: CanonicalString_def int_dec_def ds_def)
    moreover have "DecimalUSD_valid \<lparr>numerator = dec_value ds, scale = 0, raw = ds\<rparr> = None"
      using rescaled_valid[OF valid, of "dec_value ds" 0 0] ds True s(2) by simp
    ultimately show ?thesis using ParseDecimalUSD_whole[OF ds(1,2)] ds(3) True by simp
  next
    case False
    define k where "k = nat (scale d)"
    have k: "scale d = int k" "0 < k" using False s(1) by (auto simp: k_def)
    define ps where "ps = padded k ds"
    define w where "w = take (length ps - k) ps"
    define f where "f = drop (length ps - k) ps"
    note pf = padded_facts[OF ds(1), of k, folded ps_def]
    note cf = cut_facts[OF pf(1,2), folded w_def f_def]
    obtain j where j: "f = trim_right CHR ''0'' f @ replicate j CHR ''0''" using trim_right_split by blast
    define g where "g = trim_right CHR ''0'' f"
    have gj: "f = g @ replicate j CHR ''0''" unfolding g_def by (rule j)
    have g: "list_all is_digit g" "f = g @ replicate j CHR ''0''" "length g + j = k"
      using cf(2,4) by (simp_all add: gj)
    have num: "numerator d = dec_value (w @ g) * 10 ^ j"
      using dec_value_trailing[of "w @ g" j] cf(5) pf(3) ds(3) g(2) by simp
    have nn: "0 \<le> dec_value (w @ g)" using cf(1) g(1) by (intro dec_value_nonneg) simp
    have val: "DecimalUSD_valid \<lparr>numerator = dec_value (w @ g), scale = int (length g), raw = r\<rparr> = None" for r
      using rescaled_valid[OF valid num _ nn] k(1) g(3) by simp
    have str: "CanonicalString d = (if g = [] then w else w @ CHR ''.'' # g)"
      using trim_point[OF cf(1,3,2)] CanonicalString_scaled[OF s(2) k] unfolding g_def w_def f_def ps_def ds_def
      by simp
    have "ParseDecimalUSD (CanonicalString d) =
        Inr \<lparr>numerator = dec_value (w @ g), scale = int (length g), raw = CanonicalString d\<rparr>"
      using str ParseDecimalUSD_whole[OF cf(1,3)] ParseDecimalUSD_point[OF cf(1) g(1) cf(3)] val
      by (cases "g = []") (simp_all add: Let_def)
    then show ?thesis using num k(1) g(3) by (auto simp: power_add[symmetric])
  qed
qed

theorem canonical_string_roundtrip_witness:
  "\<exists>e. ParseDecimalUSD (CanonicalString \<lparr>numerator = 2500, scale = 3, raw = []\<rparr>) = Inr e
     \<and> numerator e * 10 ^ 3 = 2500 * 10 ^ nat (scale e)"
  using canonical_string_roundtrip[of "\<lparr>numerator = 2500, scale = 3, raw = []\<rparr>"]
  by (simp add: DecimalUSD_valid_def USDScale_def maxUSDUnits_def)

section \<open>Rounding at the boundaries\<close>

text \<open>\<^verbatim>\<open>CeilUSD\<close> is price times units divided by the units per price, rounded up to $10^{-18}$
  dollars, for every valid price and non-negative count; it fails only when that amount does not fit
  NUMERIC(38,18).\<close>

theorem ceil_usd_exact:
  fixes p :: decimal_usd and units upp :: int
  assumes "DecimalUSD_valid p = None" and "0 \<le> units" and "0 < upp"
  defines "N \<equiv> numerator p * units * 10 ^ 18" and "D \<equiv> 10 ^ nat (scale p) * upp"
  shows "case CeilUSD p units upp of
           Inr u \<Rightarrow> (usdUnits u - 1) * D < N \<and> N \<le> usdUnits u * D
         | Inl err \<Rightarrow> err = ExceedsNumeric \<and> maxUSDUnits * D < N"
proof -
  have D: "0 < D" using assms(3) by (simp add: D_def)
  have N: "0 \<le> N" using assms(1,2) by (simp add: N_def DecimalUSD_valid_None)
  note br = ceilQuo_bracket[OF N D]
  have eq: "CeilUSD p units upp = (if ceilQuo N D > 10 ^ 38 - 1 then Inl ExceedsNumeric else Inr (USD (Some (ceilQuo N D))))"
    using assms br(3) by (simp add: CeilUSD_def Let_def N_def D_def usdScaleFactor_def USD_valid_def)
  show ?thesis
  proof (cases "ceilQuo N D > 10 ^ 38 - 1")
    case True
    then have "maxUSDUnits * D \<le> (ceilQuo N D - 1) * D"
      using D by (intro mult_right_mono) (auto simp: maxUSDUnits_def)
    with br(1) eq True show ?thesis by simp
  next
    case False
    with eq br show ?thesis by simp
  qed
qed

theorem ceil_usd_exact_witness:
  "case CeilUSD \<lparr>numerator = 125, scale = 2, raw = []\<rparr> 7 1000000 of
     Inr u \<Rightarrow> (usdUnits u - 1) * (10 ^ 2 * 1000000) < 125 * 7 * 10 ^ 18
           \<and> 125 * 7 * 10 ^ 18 \<le> usdUnits u * (10 ^ 2 * 1000000)
   | Inl err \<Rightarrow> err = ExceedsNumeric \<and> maxUSDUnits * (10 ^ 2 * 1000000) < 125 * 7 * 10 ^ 18"
proof -
  have "DecimalUSD_valid \<lparr>numerator = 125, scale = 2, raw = []\<rparr> = None"
    by (simp add: DecimalUSD_valid_def USDScale_def maxUSDUnits_def)
  from ceil_usd_exact[OF this, of 7 1000000] show ?thesis by (simp split: sum.splits)
qed

text \<open>Redis compares integers only, but never authorizes more than the exact limit: if charges are
  rounded up and the limit rounded down, and the integers fit, then the exact charges fit the exact limit.\<close>

theorem nano_materialization_sound:
  assumes "FloorNanoUSD l = Inr m" and "list_all2 (\<lambda>c k. CeilNanoUSD c = Inr k) cs ks" and "sum_list ks \<le> m"
  shows "(\<Sum>c\<leftarrow>cs. usdUnits c) \<le> usdUnits l"
  using assms by (rule nano_boundary.charges_within_limit)

theorem nano_materialization_sound_witness:
  "usdUnits (USD (Some 1500000001)) + usdUnits (USD (Some 2000000000)) \<le> usdUnits (USD (Some 4999999999))"
proof -
  have f: "FloorNanoUSD (USD (Some 4999999999)) = Inr 4" by code_simp
  have c: "CeilNanoUSD (USD (Some 1500000001)) = Inr 2" "CeilNanoUSD (USD (Some 2000000000)) = Inr 2"
    by code_simp+
  show ?thesis
    using nano_materialization_sound[OF f, of "[USD (Some 1500000001), USD (Some 2000000000)]" "[2, 2]"] c
    by simp
qed

text \<open>A Redis-safe microUSD amount converted to USD converts back to itself, rounding down or up.\<close>

theorem micro_usd_roundtrip:
  assumes "MicroUSD_Valid m"
  shows "\<exists>u. USDFromMicro m = Inr u \<and> MicroFromUSD u = Inr m \<and> CeilMicroFromUSD u = Inr m"
  using micro_boundary.roundtrip[of m] assms by (auto simp: MicroUSD_Valid_def)

theorem micro_usd_roundtrip_witness:
  "\<exists>u. USDFromMicro 42 = Inr u \<and> MicroFromUSD u = Inr 42 \<and> CeilMicroFromUSD u = Inr 42"
  using micro_usd_roundtrip[of 42] by (simp add: MicroUSD_Valid_def RedisSafeLimit_def)

end
