(* ===== verification/Pricing.thy ===== *)
theory Pricing
  imports Money "HOL-Library.Char_ord" "HOL-Library.List_Lexorder" "HOL-Library.Option_ord"
begin

text \<open>
  Package \<^verbatim>\<open>pricing\<close>: catalog entries (\<^verbatim>\<open>entry.go\<close>), the cost of a usage report
  (\<^verbatim>\<open>cost.go\<close>) and the compiled catalog with its resolver (\<^verbatim>\<open>catalog.go\<close>).

  The digest of a compiled catalog is SHA-256 over its canonical JSON. Both are
  outside this package; the parameter \<open>dg\<close> of the definitions below is their
  composition, \<open>None\<close> when \<^verbatim>\<open>json.Marshal\<close> fails. Errors are modelled by kind,
  without the entry index and the field name of the message.
\<close>

section \<open>Entries\<close>

record unit_prices =
  InputPerMillion :: decimal_usd
  OutputPerMillion :: decimal_usd
  CacheReadPerMillion :: decimal_usd
  CacheWritePerMillion :: decimal_usd
  ReasoningPerMillion :: decimal_usd
  PerRequest :: decimal_usd

type_synonym price_component = string

definition PriceComponentInput :: price_component where "PriceComponentInput = ''input''"
definition PriceComponentOutput :: price_component where "PriceComponentOutput = ''output''"
definition PriceComponentCacheRead :: price_component where "PriceComponentCacheRead = ''cache_read''"
definition PriceComponentCacheWrite :: price_component where "PriceComponentCacheWrite = ''cache_write''"
definition PriceComponentReasoning :: price_component where "PriceComponentReasoning = ''reasoning''"
definition PriceComponentPerRequest :: price_component where "PriceComponentPerRequest = ''per_request''"

lemmas component_defs = PriceComponentInput_def PriceComponentOutput_def PriceComponentCacheRead_def
  PriceComponentCacheWrite_def PriceComponentReasoning_def PriceComponentPerRequest_def

definition PriceComponent_Valid :: "price_component \<Rightarrow> bool" where
  "PriceComponent_Valid c \<longleftrightarrow>
     c \<in> set [PriceComponentInput, PriceComponentOutput, PriceComponentCacheRead,
              PriceComponentCacheWrite, PriceComponentReasoning, PriceComponentPerRequest]"

record long_prompt_prices =
  MinPromptTokens :: int
  lp_Prices :: unit_prices

record entry =
  e_Provider :: string
  e_Family :: string
  e_EndpointID :: string
  e_Region :: string
  e_Model :: string
  e_ProviderTier :: string
  e_Prices :: unit_prices
  e_LongPrompt :: "long_prompt_prices option"
  e_UnknownComponents :: "price_component slice"
  e_EffectiveFrom :: gotime
  e_EffectiveUntil :: gotime
  e_Provenance :: string
  e_Version :: string

definition cloneLongPrompt :: "long_prompt_prices option \<Rightarrow> long_prompt_prices option" where
  "cloneLongPrompt long = (case long of None \<Rightarrow> None | Some l \<Rightarrow> Some l)"

definition PricesFor :: "entry \<Rightarrow> int \<Rightarrow> unit_prices" where
  "PricesFor e promptTokens =
     (case e_LongPrompt e of
        Some l \<Rightarrow> if promptTokens > MinPromptTokens l then lp_Prices l else e_Prices e
      | None \<Rightarrow> e_Prices e)"

definition ComponentUnknown :: "entry \<Rightarrow> price_component \<Rightarrow> bool" where
  "ComponentUnknown e c \<longleftrightarrow> list_ex (\<lambda>u. u = c) (elems (e_UnknownComponents e))"

definition Active :: "entry \<Rightarrow> gotime \<Rightarrow> bool" where
  "Active e now \<longleftrightarrow>
     (IsZero (e_EffectiveFrom e) \<or> \<not> now < e_EffectiveFrom e)
     \<and> (IsZero (e_EffectiveUntil e) \<or> now < e_EffectiveUntil e)"

record usage =
  InputTokens :: int
  OutputTokens :: int
  CacheReadTokens :: int
  CacheWriteTokens :: int
  ReasoningTokens :: int
  MediaUnits :: int

datatype cost_method = CostProviderReported | CostCatalogUsage | CostReconstructedUsage | CostRetainedReservation

record cost =
  c_USD :: usd
  c_MicroUSD :: int
  c_Method :: cost_method
  c_CatalogVersion :: string

datatype pricing_error =
    ThresholdNotPositive | ReasoningPriceNotZero | UsageNegative string | NoKnownPrice string
  | ComponentPrice string money_error | TotalUSD string money_error
  | ComponentMicro string money_error | TotalMicro string money_error
  | VersionRequired | IdentityIncomplete | PriceInvalid | LongPriceInvalid
  | ComponentNotKnown | ComponentRepeated | UnknownWithLongPrice | UnknownWithPrice
  | IntervalEmpty | DuplicateIdentity | OverlappingIntervals | EncodingFailed
  | DigestRequired | DigestMismatch | ResolverNil | ReloadRejected pricing_error | NoActivePrice

definition additive_families :: "string list" where
  "additive_families =
     [''openai_chat'', ''openai_responses'', ''anthropic_messages'', ''bedrock_messages'', ''bedrock_converse'']"

definition ValidateUsagePricing :: "entry \<Rightarrow> pricing_error option" where
  "ValidateUsagePricing e =
     (if (\<exists>l \<in> set_option (e_LongPrompt e). MinPromptTokens l \<le> 0) then Some ThresholdNotPositive
      else if e_Family e \<in> set additive_families
              \<and> (numerator (ReasoningPerMillion (e_Prices e)) \<noteq> 0
                 \<or> (\<exists>l \<in> set_option (e_LongPrompt e). numerator (ReasoningPerMillion (lp_Prices l)) \<noteq> 0))
      then Some ReasoningPriceNotZero else None)"

section \<open>The cost of a usage report\<close>

text \<open>The billed prompt: positive counts added up, saturating at the largest \<^verbatim>\<open>int64\<close>.\<close>

definition billed_prompt :: "usage \<Rightarrow> int" where
  "billed_prompt u =
     foldl (\<lambda>prompt units. if units > 0 then wrap64 (min prompt (wrap64 (MaxInt64 - units)) + units) else prompt)
       0 [InputTokens u, CacheReadTokens u, CacheWriteTokens u]"

text \<open>One priced component: its name, unit price, units and units per price.\<close>

type_synonym priced = "price_component \<times> decimal_usd \<times> int \<times> int"

definition usage_components :: "unit_prices \<Rightarrow> usage \<Rightarrow> priced list" where
  "usage_components prices u =
     [(PriceComponentInput, InputPerMillion prices, InputTokens u, 1000000),
      (PriceComponentOutput, OutputPerMillion prices, OutputTokens u, 1000000),
      (PriceComponentCacheRead, CacheReadPerMillion prices, CacheReadTokens u, 1000000),
      (PriceComponentCacheWrite, CacheWritePerMillion prices, CacheWriteTokens u, 1000000),
      (PriceComponentReasoning, ReasoningPerMillion prices, ReasoningTokens u, 1000000),
      (PriceComponentPerRequest, PerRequest prices, 1, 1)]"

text \<open>One iteration of the loop of \<^verbatim>\<open>CostFromUsage\<close>.\<close>

definition charge_component :: "entry \<Rightarrow> usd \<times> int \<Rightarrow> priced \<Rightarrow> pricing_error + (usd \<times> int)" where
  "charge_component e acc c =
     (case acc of (totalUSD, legacyTotal) \<Rightarrow> case c of (name, price, units, upp) \<Rightarrow>
      if units < 0 then Inl (UsageNegative name)
      else if units > 0 \<and> ComponentUnknown e name then Inl (NoKnownPrice name)
      else case CeilUSD price units upp of
        Inl err \<Rightarrow> Inl (ComponentPrice name err)
      | Inr amount \<Rightarrow> (case USD_Add totalUSD amount of
        Inl err \<Rightarrow> Inl (TotalUSD name err)
      | Inr totalUSD' \<Rightarrow> (case CeilMicroUSD price units upp of
        Inl err \<Rightarrow> Inl (ComponentMicro name err)
      | Inr legacy \<Rightarrow> (case MicroUSD_Add legacyTotal legacy of
        Inl err \<Rightarrow> Inl (TotalMicro name err)
      | Inr legacyTotal' \<Rightarrow> Inr (totalUSD', legacyTotal')))))"

definition CostFromUsage :: "entry \<Rightarrow> usage \<Rightarrow> pricing_error + cost" where
  "CostFromUsage e u =
     guardE (ValidateUsagePricing e)
       (bindE (foldE (charge_component e) (USD None, 0) (usage_components (PricesFor e (billed_prompt u)) u))
         (\<lambda>(totalUSD, legacyTotal).
            Inr \<lparr>c_USD = totalUSD, c_MicroUSD = legacyTotal, c_Method = CostCatalogUsage,
                 c_CatalogVersion = e_Version e\<rparr>))"

section \<open>The compiled catalog\<close>

record catalog =
  cat_Version :: string
  cat_Entries :: "entry list"
  cat_Digest :: string

definition zero_digest :: string where "zero_digest = replicate 32 NUL"

definition empty_catalog :: catalog where
  "empty_catalog = \<lparr>cat_Version = [], cat_Entries = [], cat_Digest = zero_digest\<rparr>"

definition price_list :: "unit_prices \<Rightarrow> decimal_usd list" where
  "price_list p = [InputPerMillion p, OutputPerMillion p, CacheReadPerMillion p,
     CacheWritePerMillion p, ReasoningPerMillion p, PerRequest p]"

definition decimalUSDForComponent :: "unit_prices \<Rightarrow> price_component \<Rightarrow> decimal_usd" where
  "decimalUSDForComponent p c =
     (if c = PriceComponentInput then InputPerMillion p
      else if c = PriceComponentOutput then OutputPerMillion p
      else if c = PriceComponentCacheRead then CacheReadPerMillion p
      else if c = PriceComponentCacheWrite then CacheWritePerMillion p
      else if c = PriceComponentReasoning then ReasoningPerMillion p
      else if c = PriceComponentPerRequest then PerRequest p
      else \<lparr>numerator = 0, scale = 0, raw = []\<rparr>)"

definition entryKey :: "entry \<Rightarrow> string" where
  "entryKey e =
     join_with [NUL] [e_Provider e, e_Family e, e_EndpointID e, e_Region e, e_Model e, e_ProviderTier e,
                      rfc3339nano (e_EffectiveFrom e)]"

definition route_of :: "entry \<Rightarrow> string list" where
  "route_of e = [e_Provider e, e_Family e, e_EndpointID e, e_Region e, e_Model e, e_ProviderTier e]"

text \<open>The loop over the components marked unknown, with those seen so far.\<close>

fun check_unknown :: "entry \<Rightarrow> price_component list \<Rightarrow> price_component list \<Rightarrow> pricing_error option" where
  "check_unknown e seen [] = None"
| "check_unknown e seen (c # cs) =
     (if \<not> PriceComponent_Valid c then Some ComponentNotKnown
      else if c \<in> set seen then Some ComponentRepeated
      else if (\<exists>l \<in> set_option (e_LongPrompt e). numerator (decimalUSDForComponent (lp_Prices l) c) \<noteq> 0)
      then Some UnknownWithLongPrice
      else if numerator (decimalUSDForComponent (e_Prices e) c) \<noteq> 0 then Some UnknownWithPrice
      else check_unknown e (c # seen) cs)"

definition compile_entry :: "entry \<Rightarrow> pricing_error + entry" where
  "compile_entry e0 =
     (let e = e0\<lparr>e_LongPrompt := cloneLongPrompt (e_LongPrompt e0)\<rparr> in
      guardE (ValidateUsagePricing e)
       (if e_Provider e = [] \<or> e_Family e = [] \<or> e_EndpointID e = [] \<or> e_Model e = [] \<or> e_ProviderTier e = []
        then Inl IdentityIncomplete
        else if \<not> list_all (\<lambda>p. DecimalUSD_valid p = None) (price_list (e_Prices e)) then Inl PriceInvalid
        else if (\<exists>l \<in> set_option (e_LongPrompt e).
                   \<not> list_all (\<lambda>p. DecimalUSD_valid p = None) (price_list (lp_Prices l)))
        then Inl LongPriceInvalid
        else guardE (check_unknown e [] (elems (e_UnknownComponents e)))
          (let e' = (if length (elems (e_UnknownComponents e)) > 1
                     then e\<lparr>e_UnknownComponents := Some (sort (elems (e_UnknownComponents e)))\<rparr> else e)
           in if \<not> IsZero (e_EffectiveFrom e) \<and> \<not> IsZero (e_EffectiveUntil e)
                 \<and> \<not> e_EffectiveUntil e > e_EffectiveFrom e
              then Inl IntervalEmpty else Inr e')))"

fun compile_entries :: "string list \<Rightarrow> entry list \<Rightarrow> pricing_error + entry list" where
  "compile_entries seen [] = Inr []"
| "compile_entries seen (e0 # es) =
     (case compile_entry e0 of
        Inl err \<Rightarrow> Inl err
      | Inr e \<Rightarrow>
          if entryKey e \<in> set seen then Inl DuplicateIdentity
          else (case compile_entries (entryKey e # seen) es of
                  Inl err \<Rightarrow> Inl err | Inr rest \<Rightarrow> Inr (e # rest)))"

text \<open>The sort key of an interval: an omitted start comes first.\<close>

definition from_key :: "entry \<Rightarrow> gotime option" where
  "from_key e = (if IsZero (e_EffectiveFrom e) then None else Some (e_EffectiveFrom e))"

fun no_overlap :: "entry list \<Rightarrow> bool" where
  "no_overlap (previous # current # rest) \<longleftrightarrow>
     \<not> (IsZero (e_EffectiveUntil previous) \<or> IsZero (e_EffectiveFrom current)
        \<or> e_EffectiveUntil previous > e_EffectiveFrom current)
     \<and> no_overlap (current # rest)"
| "no_overlap _ \<longleftrightarrow> True"

definition validatePriceIntervals :: "entry list \<Rightarrow> pricing_error option" where
  "validatePriceIntervals entries =
     (if list_all (\<lambda>r. no_overlap (sort_key from_key (filter (\<lambda>e. route_of e = r) entries)))
           (remdups (map route_of entries))
      then None else Some OverlappingIntervals)"

definition CompileUSD ::
  "(string \<Rightarrow> entry list \<Rightarrow> string option) \<Rightarrow> string \<Rightarrow> entry list \<Rightarrow> pricing_error + catalog" where
  "CompileUSD dg version entries =
     (if version = [] then Inl VersionRequired
      else bindE (compile_entries [] entries) (\<lambda>copyEntries.
        guardE (validatePriceIntervals copyEntries)
          (let sorted = sort_key entryKey copyEntries
           in case dg version sorted of
                None \<Rightarrow> Inl EncodingFailed
              | Some digest \<Rightarrow> Inr \<lparr>cat_Version = version, cat_Entries = sorted, cat_Digest = digest\<rparr>)))"

definition Catalog_Validate :: "(string \<Rightarrow> entry list \<Rightarrow> string option) \<Rightarrow> catalog \<Rightarrow> pricing_error option" where
  "Catalog_Validate dg c =
     (case CompileUSD dg (cat_Version c) (cat_Entries c) of
        Inl err \<Rightarrow> Some err
      | Inr compiled \<Rightarrow>
          if cat_Digest c = zero_digest then Some DigestRequired
          else if cat_Digest c \<noteq> cat_Digest compiled then Some DigestMismatch else None)"

record query =
  q_Provider :: string
  q_Family :: string
  q_EndpointID :: string
  q_Region :: string
  q_Model :: string
  q_ProviderTier :: string
  q_At :: gotime

record quote =
  qt_Entry :: entry
  qt_CatalogVersion :: string
  qt_CatalogDigest :: string

definition query_route :: "query \<Rightarrow> string list" where
  "query_route q = [q_Provider q, q_Family q, q_EndpointID q, q_Region q, q_Model q, q_ProviderTier q]"

text \<open>The quote carries the digest itself; \<^verbatim>\<open>DigestHex\<close> only renders it in hexadecimal.
  \<open>wall\<close> is the reading of \<^verbatim>\<open>time.Now\<close> used when the query has no time.\<close>

definition Catalog_Resolve :: "gotime \<Rightarrow> catalog \<Rightarrow> query \<Rightarrow> pricing_error + quote" where
  "Catalog_Resolve wall c q =
     (let at = (if IsZero (q_At q) then wall else q_At q) in
      case find (\<lambda>e. e_Provider e = q_Provider q \<and> e_Family e = q_Family q \<and> e_EndpointID e = q_EndpointID q
                   \<and> e_Region e = q_Region q \<and> e_Model e = q_Model q \<and> e_ProviderTier e = q_ProviderTier q
                   \<and> Active e at) (cat_Entries c) of
        Some e \<Rightarrow> Inr \<lparr>qt_Entry = e\<lparr>e_UnknownComponents := append_nil (e_UnknownComponents e),
                                     e_LongPrompt := cloneLongPrompt (e_LongPrompt e)\<rparr>,
                       qt_CatalogVersion = cat_Version c, qt_CatalogDigest = cat_Digest c\<rparr>
      | None \<Rightarrow> Inl NoActivePrice)"

definition cloneCatalog :: "catalog \<Rightarrow> catalog" where
  "cloneCatalog c =
     c\<lparr>cat_Entries := map (\<lambda>e. e\<lparr>e_UnknownComponents := append_nil (e_UnknownComponents e),
                                 e_LongPrompt := cloneLongPrompt (e_LongPrompt e)\<rparr>) (cat_Entries c)\<rparr>"

text \<open>A resolver is a pointer to an atomically replaced catalog; \<open>None\<close> is a nil resolver.\<close>

type_synonym price_resolver = "catalog option"

definition ReloadValidated ::
  "(string \<Rightarrow> entry list \<Rightarrow> string option) \<Rightarrow> price_resolver \<Rightarrow> catalog \<Rightarrow> price_resolver \<times> pricing_error option" where
  "ReloadValidated dg r c =
     (case r of
        None \<Rightarrow> (None, Some ResolverNil)
      | Some cur \<Rightarrow> (case Catalog_Validate dg c of
          Some err \<Rightarrow> (Some cur, Some (ReloadRejected err))
        | None \<Rightarrow> (Some (cloneCatalog c), None)))"

definition Reload :: "(string \<Rightarrow> entry list \<Rightarrow> string option) \<Rightarrow> price_resolver \<Rightarrow> catalog \<Rightarrow> price_resolver" where
  "Reload dg r c = fst (ReloadValidated dg r c)"

definition NewResolver :: "(string \<Rightarrow> entry list \<Rightarrow> string option) \<Rightarrow> catalog \<Rightarrow> price_resolver" where
  "NewResolver dg c = fst (ReloadValidated dg (Some empty_catalog) c)"

definition Resolver_Resolve :: "gotime \<Rightarrow> price_resolver \<Rightarrow> query \<Rightarrow> pricing_error + quote" where
  "Resolver_Resolve wall r q = (case r of None \<Rightarrow> Inl ResolverNil | Some c \<Rightarrow> Catalog_Resolve wall c q)"

definition Snapshot :: "price_resolver \<Rightarrow> catalog" where
  "Snapshot r = (case r of None \<Rightarrow> empty_catalog | Some c \<Rightarrow> cloneCatalog c)"

end
