(* ===== verification/Pricing_Facts.thy ===== *)
theory Pricing_Facts
  imports Pricing "HOL-Library.Multiset"
begin

text \<open>
  What the pricing package guarantees: the exact and the integer total of a
  charge agree, a compiled catalog quotes at most one price per route and time,
  and what a resolver serves across reloads.
\<close>

section \<open>Charging a list of components\<close>

text \<open>
  Usage settlement and budget estimation both run a loop that adds, for each
  component, the exact charge to a USD total and the rounded-up charge to a
  microUSD total. The contract of one iteration, and what the loop then yields.
\<close>

definition exact_charge :: "priced \<Rightarrow> int" where
  "exact_charge c = (case c of (_, p, n, upp) \<Rightarrow> ceilQuo (numerator p * n * 10 ^ 18) (10 ^ nat (scale p) * upp))"

definition micro_charge :: "priced \<Rightarrow> int" where
  "micro_charge c = (case c of (_, p, n, upp) \<Rightarrow> ceilQuo (numerator p * n * 10 ^ 6) (10 ^ nat (scale p) * upp))"

locale charge_loop =
  fixes step :: "usd \<times> int \<Rightarrow> priced \<Rightarrow> 'e + (usd \<times> int)"
  assumes step_Inr: "step (t, l) (name, p, n, upp) = Inr (t', l') \<Longrightarrow>
      \<exists>a k. CeilUSD p n upp = Inr a \<and> USD_Add t a = Inr t'
          \<and> CeilMicroUSD p n upp = Inr k \<and> MicroUSD_Add l k = Inr l'"
begin

lemma step_effect:
  assumes "step (t, l) c = Inr (t', l')"
  shows "usdUnits t' = usdUnits t + exact_charge c" "l' = l + micro_charge c"
    "USD_valid t' = None" "MicroUSD_Valid l'" "exact_charge c \<le> micro_charge c * 10 ^ 12"
    "0 \<le> exact_charge c" "0 \<le> fst (snd (snd c))"
proof -
  obtain name p n upp where c: "c = (name, p, n, upp)" by (cases c)
  from step_Inr assms obtain a k where s: "CeilUSD p n upp = Inr a" "USD_Add t a = Inr t'"
    "CeilMicroUSD p n upp = Inr k" "MicroUSD_Add l k = Inr l'"
    unfolding c by blast
  have a: "exact_charge c = usdUnits a" using CeilUSD_Inr(1)[OF s(1)] by (simp add: exact_charge_def c)
  have k: "micro_charge c = k" using CeilMicroUSD_Inr(1)[OF s(3)] by (simp add: micro_charge_def c)
  show "usdUnits t' = usdUnits t + exact_charge c" "USD_valid t' = None" "0 \<le> exact_charge c"
    using exact.add_Inr[OF s(2)] a by (simp_all add: USD_valid_None_iff)
  show "l' = l + micro_charge c" "MicroUSD_Valid l'" using micro.add_Inr[OF s(4)] k by simp_all
  show "exact_charge c \<le> micro_charge c * 10 ^ 12" using micro_covers_usd[OF s(1,3)] a k by simp
  show "0 \<le> fst (snd (snd c))" using CeilUSD_Inr(3)[OF s(1)] c by simp
qed

lemma loop_effect:
  assumes "foldE step (t, l) cs = Inr (t', l')"
  shows "usdUnits t' = usdUnits t + (\<Sum>c\<leftarrow>cs. exact_charge c)" "l' = l + (\<Sum>c\<leftarrow>cs. micro_charge c)"
    "\<forall>c \<in> set cs. 0 \<le> fst (snd (snd c))"
  using assms
proof (induction cs arbitrary: t l)
  case Nil
  { case 1 then show ?case by simp }
  { case 2 then show ?case by simp }
  { case 3 then show ?case by simp }
next
  case (Cons c cs)
  have split: "\<exists>u m. step (t, l) c = Inr (u, m) \<and> foldE step (u, m) cs = Inr (t', l')"
    if "foldE step (t, l) (c # cs) = Inr (t', l')" for t l
    using that by (auto split: sum.splits)
  { case 1
    then obtain u m where um: "step (t, l) c = Inr (u, m)" "foldE step (u, m) cs = Inr (t', l')"
      using split by blast
    show ?case using Cons.IH(1)[OF um(2)] step_effect(1)[OF um(1)] by simp }
  { case 2
    then obtain u m where um: "step (t, l) c = Inr (u, m)" "foldE step (u, m) cs = Inr (t', l')"
      using split by blast
    show ?case using Cons.IH(2)[OF um(2)] step_effect(2)[OF um(1)] by simp }
  { case 3
    then obtain u m where um: "step (t, l) c = Inr (u, m)" "foldE step (u, m) cs = Inr (t', l')"
      using split by blast
    show ?case using Cons.IH(3)[OF um(2)] step_effect(7)[OF um(1)] by simp }
qed

lemma loop_prices:
  assumes "foldE step acc cs = Inr acc'"
  shows "\<forall>(name, p, n, upp) \<in> set cs. 0 \<le> numerator p \<and> 0 \<le> n \<and> 0 < upp"
  using assms
proof (induction cs arbitrary: acc)
  case Nil
  then show ?case by simp
next
  case (Cons c cs)
  obtain name p n upp where c: "c = (name, p, n, upp)" by (cases c)
  obtain t l t' l' where s: "step (t, l) c = Inr (t', l')" "foldE step (t', l') cs = Inr acc'"
    using Cons.prems by (cases acc) (auto split: sum.splits)
  obtain a where "CeilUSD p n upp = Inr a" using step_Inr s(1) unfolding c by blast
  note a = CeilUSD_Inr(2,3,4)[OF this]
  then have "0 \<le> numerator p" by (simp add: DecimalUSD_valid_None)
  then show ?case using Cons.IH[OF s(2)] a c by simp
qed

text \<open>The two totals stay valid, and the integer total covers the exact one.\<close>

lemma loop_covers:
  assumes "foldE step (t, l) cs = Inr (t', l')"
    and "usdUnits t \<le> l * 10 ^ 12" and "USD_valid t = None" and "MicroUSD_Valid l"
  shows "usdUnits t' \<le> l' * 10 ^ 12 \<and> USD_valid t' = None \<and> MicroUSD_Valid l'"
proof -
  let ?P = "\<lambda>acc. usdUnits (fst acc) \<le> snd acc * 10 ^ 12 \<and> USD_valid (fst acc) = None
              \<and> MicroUSD_Valid (snd acc)"
  have "?P (t', l')"
  proof (rule foldE_invariant[OF assms(1), where P = ?P])
    show "?P (t, l)" using assms(2,3,4) by simp
  next
    fix u c v
    assume u: "?P u" and st: "step u c = Inr v"
    from st have st': "step (fst u, snd u) c = Inr (fst v, snd v)" by simp
    show "?P v" using u step_effect(1-5)[OF st'] by (simp add: distrib_right)
  qed
  then show ?thesis by simp
qed

end

interpretation usage_charge: charge_loop "charge_component e" for e
  by unfold_locales (auto simp: charge_component_def split: if_splits sum.splits)

lemma covers_ceil:
  assumes "USD_valid t = None" "MicroUSD_Valid l" "usdUnits t \<le> l * 10 ^ 12"
  shows "\<exists>k. CeilMicroFromUSD t = Inr k \<and> k \<le> l"
proof -
  have "ceilQuo (usdUnits t) (10 ^ 12) \<le> l"
    using assms by (intro ceilQuo_least) (auto simp: USD_valid_None_iff)
  with assms(1,2) show ?thesis by (auto simp: CeilMicroFromUSD_Inr MicroUSD_Valid_def)
qed

lemma CostFromUsage_Inr:
  assumes "CostFromUsage e u = Inr c"
  shows "foldE (charge_component e) (USD None, 0) (usage_components (PricesFor e (billed_prompt u)) u)
           = Inr (c_USD c, c_MicroUSD c)"
  using assms by (auto simp: CostFromUsage_def bindE_eq_Inr_iff)


definition sample_price :: "int \<Rightarrow> decimal_usd" where
  "sample_price n = \<lparr>numerator = n, scale = 2, raw = []\<rparr>"

definition sample_entry :: entry where
  "sample_entry =
     \<lparr>e_Provider = ''openai'', e_Family = ''openai_chat'', e_EndpointID = ''ep'', e_Region = [],
      e_Model = ''m'', e_ProviderTier = ''t'',
      e_Prices = \<lparr>InputPerMillion = sample_price 125, OutputPerMillion = sample_price 1000,
                  CacheReadPerMillion = sample_price 12, CacheWritePerMillion = sample_price 0,
                  ReasoningPerMillion = sample_price 0, PerRequest = sample_price 0\<rparr>,
      e_LongPrompt = None, e_UnknownComponents = Some [], e_EffectiveFrom = zero_time,
      e_EffectiveUntil = zero_time, e_Provenance = [], e_Version = ''v1''\<rparr>"

definition sample_usage :: usage where
  "sample_usage = \<lparr>InputTokens = 7, OutputTokens = 3, CacheReadTokens = 1, CacheWriteTokens = 0,
                   ReasoningTokens = 0, MediaUnits = 0\<rparr>"


section \<open>One price per route and time\<close>

definition precedes :: "entry \<Rightarrow> entry \<Rightarrow> bool" where
  "precedes a b \<longleftrightarrow> \<not> IsZero (e_EffectiveUntil a) \<and> \<not> IsZero (e_EffectiveFrom b)
     \<and> e_EffectiveUntil a \<le> e_EffectiveFrom b"

definition proper_interval :: "entry \<Rightarrow> bool" where
  "proper_interval e \<longleftrightarrow> IsZero (e_EffectiveFrom e) \<or> IsZero (e_EffectiveUntil e)
     \<or> e_EffectiveUntil e > e_EffectiveFrom e"

lemma no_overlap_chain:
  "no_overlap xs \<Longrightarrow> \<forall>e \<in> set xs. proper_interval e \<Longrightarrow> sorted_wrt precedes xs"
proof (induction xs rule: no_overlap.induct)
  case (1 a b xs)
  from "1.prems" have ab: "precedes a b" by (auto simp: precedes_def)
  from 1 have chain: "sorted_wrt precedes (b # xs)" by simp
  have "precedes a c" if "precedes b c" for c
    using ab that "1.prems"(2) by (auto simp: precedes_def proper_interval_def)
  with ab chain show ?case by auto
qed auto

lemma precedes_not_both: "precedes a b \<Longrightarrow> Active a t \<Longrightarrow> \<not> Active b t"
  by (auto simp: precedes_def Active_def)

lemma chain_one_active: "sorted_wrt precedes xs \<Longrightarrow> length (filter (\<lambda>e. Active e t) xs) \<le> 1"
proof (induction xs)
  case Nil
  then show ?case by simp
next
  case (Cons x xs)
  have "filter (\<lambda>e. Active e t) xs = []" if "Active x t"
    using Cons.prems that precedes_not_both by (auto simp: filter_empty_conv)
  with Cons show ?case by auto
qed

lemma validated_one_active:
  assumes "validatePriceIntervals es = None" and "\<forall>e \<in> set es. proper_interval e"
  shows "length (filter (\<lambda>e. route_of e = r \<and> Active e t) es) \<le> 1"
proof (cases "r \<in> set (map route_of es)")
  case True
  let ?g = "filter (\<lambda>e. route_of e = r) es"
  have "no_overlap (sort_key from_key ?g)"
    using assms(1) True by (auto simp: validatePriceIntervals_def list_all_iff split: if_splits)
  then have "sorted_wrt precedes (sort_key from_key ?g)"
    using assms(2) by (intro no_overlap_chain) auto
  from chain_one_active[OF this, of t]
  have "length (filter (\<lambda>e. Active e t) ?g) \<le> 1" by (simp add: filter_sort)
  then show ?thesis by (simp add: conj_commute)
next
  case False
  then have "filter (\<lambda>e. route_of e = r \<and> Active e t) es = []" by (auto simp: filter_empty_conv)
  then show ?thesis by simp
qed

text \<open>Compiling an entry may sort its unknown components and changes nothing else.\<close>

lemma cloneLongPrompt_id [simp]: "cloneLongPrompt l = l"
  by (simp add: cloneLongPrompt_def split: option.split)

lemma entry_same_fields [simp]:
  "e\<lparr>e_LongPrompt := e_LongPrompt e\<rparr> = e" "e\<lparr>e_UnknownComponents := e_UnknownComponents e\<rparr> = e"
  for e :: entry
  by simp_all

lemma compile_entry_Inr:
  assumes "compile_entry e0 = Inr e"
  shows "\<exists>cs. e = e0\<lparr>e_UnknownComponents := cs\<rparr>" "proper_interval e"
proof -
  have "e = e0\<lparr>e_UnknownComponents := Some (sort (elems (e_UnknownComponents e0)))\<rparr>
      \<or> e = e0\<lparr>e_UnknownComponents := e_UnknownComponents e0\<rparr>"
    using assms by (auto simp: compile_entry_def Let_def split: if_splits)
  then show "\<exists>cs. e = e0\<lparr>e_UnknownComponents := cs\<rparr>" by blast
  show "proper_interval e"
    using assms by (auto simp: compile_entry_def Let_def proper_interval_def split: if_splits)
qed

lemma compile_entries_Inr:
  "compile_entries seen es = Inr out \<Longrightarrow> list_all2 (\<lambda>e0 e. compile_entry e0 = Inr e) es out"
  by (induction seen es arbitrary: out rule: compile_entries.induct)
     (auto split: sum.splits if_splits)

lemma compile_entries_proper:
  assumes "compile_entries seen es = Inr out"
  shows "\<forall>e \<in> set out. proper_interval e"
proof
  fix e
  assume "e \<in> set out"
  then obtain e0 where "compile_entry e0 = Inr e"
    using compile_entries_Inr[OF assms] by (auto simp: list_all2_conv_all_nth in_set_conv_nth)
  then show "proper_interval e" by (rule compile_entry_Inr(2))
qed

lemma compiled_same_filter:
  assumes "list_all2 (\<lambda>e0 e. compile_entry e0 = Inr e) es out"
  shows "length (filter (\<lambda>e. route_of e = r \<and> Active e t) es) = length (filter (\<lambda>e. route_of e = r \<and> Active e t) out)"
  using assms
proof (induction rule: list_all2_induct)
  case Nil
  then show ?case by simp
next
  case (Cons e0 es e out)
  obtain cs where "e = e0\<lparr>e_UnknownComponents := cs\<rparr>" using compile_entry_Inr(1)[OF Cons(1)] by blast
  with Cons show ?case by (simp add: route_of_def Active_def)
qed

lemma CompileUSD_Inr:
  assumes "CompileUSD dg v es = Inr cat"
  obtains out where "compile_entries [] es = Inr out" "validatePriceIntervals out = None"
    "cat_Entries cat = sort_key entryKey out" "cat_Version cat = v" "v \<noteq> []"
    "dg v (sort_key entryKey out) = Some (cat_Digest cat)"
  using assms by (auto simp: CompileUSD_def bindE_eq_Inr_iff Let_def split: if_splits option.splits)

lemma CompileUSD_one_active:
  assumes "CompileUSD dg v es = Inr cat"
  shows "length (filter (\<lambda>e. route_of e = r \<and> Active e t) (cat_Entries cat)) \<le> 1"
    and "length (filter (\<lambda>e. route_of e = r \<and> Active e t) es) \<le> 1"
proof -
  obtain out where out: "compile_entries [] es = Inr out" "validatePriceIntervals out = None"
    "cat_Entries cat = sort_key entryKey out"
    using CompileUSD_Inr[OF assms] by metis
  have "length (filter (\<lambda>e. route_of e = r \<and> Active e t) out) \<le> 1"
    using validated_one_active[OF out(2) compile_entries_proper[OF out(1)]] .
  then show "length (filter (\<lambda>e. route_of e = r \<and> Active e t) (cat_Entries cat)) \<le> 1"
    and "length (filter (\<lambda>e. route_of e = r \<and> Active e t) es) \<le> 1"
    using out(3) compiled_same_filter[OF compile_entries_Inr[OF out(1)]] by (simp_all add: filter_sort)
qed

lemma find_filter: "find P xs = (case filter P xs of [] \<Rightarrow> None | x # _ \<Rightarrow> Some x)"
  by (induction xs) auto

lemma match_route:
  "(e_Provider e = q_Provider q \<and> e_Family e = q_Family q \<and> e_EndpointID e = q_EndpointID q
     \<and> e_Region e = q_Region q \<and> e_Model e = q_Model q \<and> e_ProviderTier e = q_ProviderTier q \<and> Active e t)
   \<longleftrightarrow> route_of e = query_route q \<and> Active e t"
  by (auto simp: route_of_def query_route_def)

text \<open>In a compiled catalog the entries of the queried route that are active at the queried time
  are none or exactly one; \<^verbatim>\<open>Resolve\<close> quotes that one, and reports no active price when there is none.
  The order in which entries are stored therefore never decides a price.\<close>

theorem resolve_the_active_entry:
  fixes wall :: gotime and q :: query
  assumes "CompileUSD dg v es = Inr cat"
  defines "at \<equiv> if IsZero (q_At q) then wall else q_At q"
  defines "matching \<equiv> filter (\<lambda>e. route_of e = query_route q \<and> Active e at) (cat_Entries cat)"
  shows "(matching = [] \<and> Catalog_Resolve wall cat q = Inl NoActivePrice)
       \<or> (\<exists>e qt. matching = [e] \<and> Catalog_Resolve wall cat q = Inr qt \<and> route_of (qt_Entry qt) = route_of e
             \<and> e_Prices (qt_Entry qt) = e_Prices e \<and> e_LongPrompt (qt_Entry qt) = e_LongPrompt e
             \<and> elems (e_UnknownComponents (qt_Entry qt)) = elems (e_UnknownComponents e)
             \<and> qt_CatalogVersion qt = v)"
proof -
  have le: "length matching \<le> 1" unfolding matching_def using CompileUSD_one_active(1)[OF assms(1)] .
  have v: "cat_Version cat = v" using CompileUSD_Inr[OF assms(1)] by metis
  show ?thesis
  proof (cases matching)
    case Nil
    then show ?thesis
      by (simp add: Catalog_Resolve_def match_route find_filter at_def matching_def Let_def)
  next
    case (Cons e rest)
    with le have m: "matching = [e]" by simp
    then show ?thesis using v
      by (simp add: Catalog_Resolve_def match_route find_filter at_def matching_def Let_def
          cloneLongPrompt_def route_of_def split: option.splits)
  qed
qed

theorem resolve_the_active_entry_witness:
  "\<exists>cat. CompileUSD (\<lambda>_ _. Some ''d'') ''v'' [sample_entry] = Inr cat
     \<and> (\<exists>qt. Catalog_Resolve 0 cat \<lparr>q_Provider = ''openai'', q_Family = ''openai_chat'', q_EndpointID = ''ep'',
           q_Region = [], q_Model = ''m'', q_ProviderTier = ''t'', q_At = 5\<rparr> = Inr qt
           \<and> e_Prices (qt_Entry qt) = e_Prices sample_entry)"
proof -
  let ?cat = "\<lparr>cat_Version = ''v'', cat_Entries = [sample_entry], cat_Digest = ''d''\<rparr>"
  let ?q = "\<lparr>q_Provider = ''openai'', q_Family = ''openai_chat'', q_EndpointID = ''ep'',
           q_Region = [], q_Model = ''m'', q_ProviderTier = ''t'', q_At = 5\<rparr>"
  have c: "CompileUSD (\<lambda>_ _. Some ''d'') ''v'' [sample_entry] = Inr ?cat" by code_simp
  have m: "filter (\<lambda>e. route_of e = query_route ?q \<and> Active e (if IsZero (q_At ?q) then 0 else q_At ?q))
             (cat_Entries ?cat) = [sample_entry]" by code_simp
  from resolve_the_active_entry[OF c, of ?q 0] m c show ?thesis by auto
qed

section \<open>Compiling a compiled catalog again\<close>

text \<open>
  Validation recompiles the entries of a catalog. The lemmas follow a copy of
  a compiled catalog in which only the representation of the unknown
  components changed (\<open>h\<close> keeps their elements).
\<close>

abbreviation recopy :: "(price_component slice \<Rightarrow> price_component slice) \<Rightarrow> entry \<Rightarrow> entry" where
  "recopy h e \<equiv> e\<lparr>e_UnknownComponents := h (e_UnknownComponents e)\<rparr>"

lemma check_unknown_None:
  "check_unknown e seen cs = None \<longleftrightarrow>
     distinct cs \<and> set cs \<inter> set seen = {}
     \<and> (\<forall>c \<in> set cs. PriceComponent_Valid c \<and> numerator (decimalUSDForComponent (e_Prices e) c) = 0
          \<and> (\<forall>l \<in> set_option (e_LongPrompt e). numerator (decimalUSDForComponent (lp_Prices l) c) = 0))"
  by (induction e seen cs rule: check_unknown.induct) auto

lemma check_unknown_same:
  assumes "check_unknown e [] cs = None" "set cs' = set cs" "distinct cs'"
  shows "check_unknown (e\<lparr>e_UnknownComponents := u\<rparr>) [] cs' = None"
  using assms by (simp add: check_unknown_None)

lemma slice_Some: "1 < length (elems s) \<Longrightarrow> s = Some (elems s)"
  by (cases s) auto

lemma compile_entry_again:
  assumes "compile_entry e0 = Inr e" and h: "\<And>s. elems (h s) = elems s"
  shows "compile_entry (recopy h e) = Inr (recopy h e)"
proof -
  let ?u = "elems (e_UnknownComponents e0)"
  have e: "e = (if length ?u > 1 then e0\<lparr>e_UnknownComponents := Some (sort ?u)\<rparr> else e0)"
    and cu: "check_unknown e0 [] ?u = None"
    using assms(1) by (auto simp: compile_entry_def Let_def split: if_splits)
  have cu': "check_unknown (recopy h e) [] (elems (h (e_UnknownComponents e))) = None"
    using cu check_unknown_same[OF cu, of "sort ?u"] check_unknown_same[OF cu, of ?u]
    by (auto simp: e h check_unknown_None)
  have srt: "h (e_UnknownComponents e) = Some (sort (elems (h (e_UnknownComponents e))))"
    if "length (elems (h (e_UnknownComponents e))) > 1"
    using that slice_Some[OF that] by (auto simp: e h sorted_sort_id split: if_splits)
  show ?thesis
    using assms(1) cu' srt
    by (auto simp: compile_entry_def Let_def e ValidateUsagePricing_def h split: if_splits)
qed

lemma entryKey_recopy [simp]: "entryKey (e\<lparr>e_UnknownComponents := u\<rparr>) = entryKey e"
  by (simp add: entryKey_def)

lemma compile_entries_distinct:
  "compile_entries seen es = Inr out \<Longrightarrow> distinct (map entryKey out) \<and> set (map entryKey out) \<inter> set seen = {}"
proof (induction seen es arbitrary: out rule: compile_entries.induct)
  case (1 seen)
  then show ?case by simp
next
  case (2 seen e0 es)
  from "2.prems" obtain e rest where r: "compile_entry e0 = Inr e" "entryKey e \<notin> set seen"
    "compile_entries (entryKey e # seen) es = Inr rest" "out = e # rest"
    by (auto split: sum.splits if_splits)
  have "distinct (map entryKey rest) \<and> set (map entryKey rest) \<inter> set (entryKey e # seen) = {}"
    using "2.IH"[OF r(1,2,3)] .
  with r(2,4) show ?case by auto
qed

lemma compile_entries_again:
  "\<forall>e \<in> set es. compile_entry e = Inr e \<Longrightarrow> distinct (map entryKey es) \<Longrightarrow>
   set (map entryKey es) \<inter> set seen = {} \<Longrightarrow> compile_entries seen es = Inr es"
  by (induction es arbitrary: seen) auto

lemma insort_key_map: "(\<And>x. f (g x) = f x) \<Longrightarrow> insort_key f (g x) (map g xs) = map g (insort_key f x xs)"
  by (induction xs) auto

lemma sort_key_map: "(\<And>x. f (g x) = f x) \<Longrightarrow> sort_key f (map g xs) = map g (sort_key f xs)"
  by (induction xs) (simp_all add: insort_key_map)

lemma no_overlap_map:
  "(\<And>e. e_EffectiveFrom (g e) = e_EffectiveFrom e \<and> e_EffectiveUntil (g e) = e_EffectiveUntil e) \<Longrightarrow>
   no_overlap (map g xs) = no_overlap xs"
  by (induction xs rule: no_overlap.induct) auto

lemma chain_from_key_inj:
  assumes "sorted_wrt precedes xs" and "\<forall>e \<in> set xs. proper_interval e"
  shows "inj_on from_key (set xs)"
proof -
  have strict: "from_key a < from_key b" if "precedes a b" "proper_interval a" "proper_interval b" for a b
    using that by (auto simp: precedes_def proper_interval_def from_key_def)
  have "sorted_wrt (\<lambda>a b. from_key a < from_key b) xs"
    using assms strict by (intro sorted_wrt_mono_rel[OF _ assms(1)]) blast
  then have "distinct (map from_key xs)" by (simp add: sorted_wrt_map[symmetric] strict_sorted_iff)
  then show ?thesis by (simp add: distinct_map)
qed

lemma validatePriceIntervals_resort:
  assumes ok: "validatePriceIntervals es = None" and proper: "\<forall>e \<in> set es. proper_interval e"
  shows "validatePriceIntervals (sort_key entryKey es) = None"
proof -
  have "no_overlap (sort_key from_key (filter (\<lambda>e. route_of e = r) (sort_key entryKey es)))"
    if "r \<in> set (map route_of es)" for r
  proof -
    let ?g = "filter (\<lambda>e. route_of e = r) es"
    have no: "no_overlap (sort_key from_key ?g)"
      using ok that by (auto simp: validatePriceIntervals_def list_all_iff split: if_splits)
    then have "sorted_wrt precedes (sort_key from_key ?g)" using proper by (intro no_overlap_chain) auto
    then have inj: "inj_on from_key (set ?g)" using chain_from_key_inj proper by fastforce
    have "sort_key from_key (sort_key entryKey ?g) = sort_key from_key ?g"
      using inj by (intro sort_key_inj_key_eq) auto
    with no show ?thesis by (simp add: filter_sort)
  qed
  then show ?thesis by (auto simp: validatePriceIntervals_def list_all_iff)
qed

lemma validatePriceIntervals_recopy:
  "validatePriceIntervals (map (recopy h) es) = validatePriceIntervals es"
proof -
  have rt: "route_of (recopy h e) = route_of e" for e by (simp add: route_of_def)
  have "no_overlap (sort_key from_key (filter (\<lambda>e. route_of e = r) (map (recopy h) es)))
      = no_overlap (sort_key from_key (filter (\<lambda>e. route_of e = r) es))" for r
    by (simp add: filter_map o_def rt sort_key_map from_key_def no_overlap_map)
  moreover have "map route_of (map (recopy h) es) = map route_of es" by (simp add: rt)
  ultimately show ?thesis by (simp add: validatePriceIntervals_def del: map_map)
qed

lemma CompileUSD_again:
  assumes "CompileUSD dg v es = Inr cat" and h: "\<And>s. elems (h s) = elems s"
  defines "es' \<equiv> map (recopy h) (cat_Entries cat)"
  shows "CompileUSD dg v es' =
    (case dg v es' of None \<Rightarrow> Inl EncodingFailed
     | Some d \<Rightarrow> Inr \<lparr>cat_Version = v, cat_Entries = es', cat_Digest = d\<rparr>)"
proof -
  obtain out where out: "compile_entries [] es = Inr out" "validatePriceIntervals out = None"
    "cat_Entries cat = sort_key entryKey out" "v \<noteq> []"
    using CompileUSD_Inr[OF assms(1)] by metis
  have fix1: "compile_entry e = Inr e" if mem: "e \<in> set es'" for e
  proof -
    from mem obtain d where "d \<in> set out" and e: "e = recopy h d" by (auto simp: es'_def out(3))
    then obtain d0 where "compile_entry d0 = Inr d"
      using compile_entries_Inr[OF out(1)] by (auto simp: list_all2_conv_all_nth in_set_conv_nth)
    then show ?thesis unfolding e by (rule compile_entry_again[OF _ h])
  qed
  have keys: "map entryKey es' = map entryKey (sort_key entryKey out)" by (simp add: es'_def out(3))
  have "distinct (map entryKey es')"
    using compile_entries_distinct[OF out(1)] unfolding keys by (simp add: distinct_map)
  then have comp: "compile_entries [] es' = Inr es'" using fix1 by (intro compile_entries_again) auto
  have "sort_key entryKey es' = es'"
    unfolding es'_def out(3) by (simp add: sort_key_map sort_key_id_if_sorted)
  moreover have "validatePriceIntervals es' = None"
    using validatePriceIntervals_resort[OF out(2) compile_entries_proper[OF out(1)]]
    unfolding es'_def out(3) validatePriceIntervals_recopy .
  ultimately show ?thesis using comp out(4) by (simp add: CompileUSD_def Let_def split: option.split)
qed

lemma recopy_id: "map (recopy (\<lambda>s. s)) es = es"
  by (induction es) auto

lemma CompileUSD_same:
  assumes "CompileUSD dg v es = Inr cat"
  shows "CompileUSD dg v (cat_Entries cat) = Inr cat"
proof -
  obtain out where "dg v (sort_key entryKey out) = Some (cat_Digest cat)"
    "cat_Entries cat = sort_key entryKey out" "cat_Version cat = v"
    using CompileUSD_Inr[OF assms] by metis
  then show ?thesis
    using CompileUSD_again[OF assms, of "\<lambda>s. s"] by (simp add: recopy_id)
qed

text \<open>Compiling is stable: the catalog that \<^verbatim>\<open>CompileUSD\<close> returns passes \<^verbatim>\<open>Validate\<close> unless its
  digest is the all-zero one, and recompiling its entries gives the same catalog.\<close>

theorem compiled_catalog_validates:
  assumes "CompileUSD dg v es = Inr cat" and "cat_Digest cat \<noteq> zero_digest"
  shows "CompileUSD dg v (cat_Entries cat) = Inr cat \<and> Catalog_Validate dg cat = None"
proof -
  have "cat_Version cat = v" using CompileUSD_Inr[OF assms(1)] by metis
  then show ?thesis
    using CompileUSD_same[OF assms(1)] assms(2) by (simp add: Catalog_Validate_def)
qed

theorem compiled_catalog_validates_witness:
  "Catalog_Validate (\<lambda>_ _. Some ''d'')
     \<lparr>cat_Version = ''v'', cat_Entries = [sample_entry], cat_Digest = ''d''\<rparr> = None"
proof -
  have c: "CompileUSD (\<lambda>_ _. Some ''d'') ''v'' [sample_entry]
             = Inr \<lparr>cat_Version = ''v'', cat_Entries = [sample_entry], cat_Digest = ''d''\<rparr>" by code_simp
  have "''d'' \<noteq> zero_digest" by code_simp
  then show ?thesis using compiled_catalog_validates[OF c] by simp
qed

section \<open>Resolvers across reloads\<close>

lemma cloneCatalog_entries: "cat_Entries (cloneCatalog c) = map (recopy append_nil) (cat_Entries c)"
  by (simp add: cloneCatalog_def)

lemma clone_same_filter:
  "length (filter (\<lambda>e. route_of e = r \<and> Active e t) (cat_Entries (cloneCatalog c)))
     = length (filter (\<lambda>e. route_of e = r \<and> Active e t) (cat_Entries c))"
  unfolding cloneCatalog_entries
  by (simp add: filter_map o_def route_of_def Active_def)

definition unambiguous :: "price_resolver \<Rightarrow> bool" where
  "unambiguous res \<longleftrightarrow>
     (\<forall>c \<in> set_option res. \<forall>r t. length (filter (\<lambda>e. route_of e = r \<and> Active e t) (cat_Entries c)) \<le> 1)"

lemma Validate_one_active:
  assumes "Catalog_Validate dg c = None"
  shows "length (filter (\<lambda>e. route_of e = r \<and> Active e t) (cat_Entries c)) \<le> 1"
proof -
  obtain compiled where "CompileUSD dg (cat_Version c) (cat_Entries c) = Inr compiled"
    using assms by (auto simp: Catalog_Validate_def split: sum.splits)
  then show ?thesis by (rule CompileUSD_one_active(2))
qed

lemma ReloadValidated_unambiguous: "unambiguous res \<Longrightarrow> unambiguous (fst (ReloadValidated dg res c))"
proof (cases "Catalog_Validate dg c")
  case None
  assume "unambiguous res"
  then show ?thesis
    using None Validate_one_active[OF None]
    by (auto simp: unambiguous_def ReloadValidated_def clone_same_filter split: option.splits)
qed (auto simp: ReloadValidated_def split: option.splits)

lemma NewResolver_unambiguous: "unambiguous (NewResolver dg c)"
  unfolding NewResolver_def
  by (rule ReloadValidated_unambiguous) (simp add: unambiguous_def empty_catalog_def)

text \<open>After any sequence of reloads, valid or not, a resolver has at most one active price for a
  route at a time; and a rejected reload leaves the snapshot in force unchanged.\<close>

theorem resolver_reloads:
  "unambiguous (foldl (Reload dg) (NewResolver dg c0) cs)
   \<and> (snd (ReloadValidated dg res c) = None \<or> fst (ReloadValidated dg res c) = res)"
proof -
  have "unambiguous res \<Longrightarrow> unambiguous (foldl (Reload dg) res cs)" for res
    by (induction cs arbitrary: res) (auto simp: Reload_def ReloadValidated_unambiguous)
  moreover have "snd (ReloadValidated dg res c) = None \<or> fst (ReloadValidated dg res c) = res"
    by (auto simp: ReloadValidated_def split: option.splits)
  ultimately show ?thesis using NewResolver_unambiguous by blast
qed



end
