(* ===== verification/Admission.thy ===== *)
theory Admission
  imports Money
begin

text \<open>
  Package \<^verbatim>\<open>admission\<close>: the records an admission store keeps (\<^verbatim>\<open>types.go\<close>), the
  operation life cycle (\<^verbatim>\<open>transition.go\<close>) and the validation of a reservation
  vector (\<^verbatim>\<open>reservation.go\<close>). \<open>OperationState\<close> and \<open>DispatchCertainty\<close> are Go
  strings: the last constructor stands for every string that is not one of the
  package's constants. Errors are kinds, without the formatted detail.
\<close>

section \<open>Records\<close>

datatype operation_state =
    StateReserved | StateDispatching | StateProviderPending | StateCompleted
  | StateDefiniteFailed | StateAmbiguous | StateCanceled | StateOther string

definition Terminal :: "operation_state \<Rightarrow> bool" where
  "Terminal s \<longleftrightarrow> s = StateCompleted \<or> s = StateDefiniteFailed \<or> s = StateAmbiguous \<or> s = StateCanceled"

datatype dispatch_certainty = NotDispatched | Rejected | Accepted | Ambiguous | CertaintyOther string

record window_reservation =
  r_PolicyID :: string
  r_WindowID :: string
  r_Bucket :: int
  r_Amount :: int
  r_Limit :: int
  r_AmountUSD :: usd
  r_LimitUSD :: usd
  r_BucketNanos :: int
  r_DurationNanos :: int

record attempt_facts =
  a_RouteID :: string
  a_EndpointID :: string
  a_Provider :: string
  a_ResolvedModel :: string
  a_ProviderRequestID :: string
  a_ServiceClass :: string
  a_Dispatch :: dispatch_certainty
  a_AttemptNumber :: int

record blob_ref =
  br_Digest :: string
  br_Size :: int
  br_Media :: string

record operation =
  o_ID :: string
  o_ScopeKey :: string
  o_RequestDigest :: string
  o_State :: operation_state
  o_ReservedMicroUSD :: int
  o_IncurredMicroUSD :: int
  o_FinalMicroUSD :: int
  o_ReservedCostUSD :: "usd option"
  o_IncurredCostUSD :: "usd option"
  o_ActualCostUSD :: "usd option"
  o_Reservations :: "window_reservation list"
  o_ConfigVersion :: string
  o_PriceVersion :: string
  o_Attempt :: attempt_facts
  o_ResultRef :: "blob_ref option"
  o_DispatchToken :: string
  o_LeaseUntil :: gotime
  o_CreatedAt :: gotime
  o_UpdatedAt :: gotime
  o_ExpiresAt :: gotime
  o_Retryable :: bool

record begin_request =
  b_ID :: string
  b_ScopeKey :: string
  b_RequestDigest :: string
  b_Reservation :: int
  b_ReservationUSD :: usd
  b_Reservations :: "window_reservation list"
  b_ConfigVersion :: string
  b_PriceVersion :: string
  b_LeaseUntil :: gotime
  b_ExpiresAt :: gotime

record denial =
  d_RetryAfter :: int
  d_PolicyID :: string
  d_WindowID :: string
  d_Limit :: int
  d_Active :: int
  d_Requested :: int
  d_LimitUSD :: usd
  d_ActiveUSD :: usd
  d_RequestedUSD :: usd

record begin_result =
  br_Operation :: "operation option"
  br_Existing :: bool
  br_Denied :: "denial option"

record dispatch_request =
  dr_OperationID :: string
  dr_DispatchToken :: string
  dr_Attempt :: attempt_facts
  dr_LeaseUntil :: gotime

record provider_pending_request =
  pp_OperationID :: string
  pp_DispatchToken :: string
  pp_ProviderOperationID :: string
  pp_EndpointID :: string
  pp_Provider :: string
  pp_PollAfter :: gotime

record attempt_outcome =
  ao_Certainty :: dispatch_certainty
  ao_Incurred :: int
  ao_Attempt :: attempt_facts

record continue_request =
  cq_OperationID :: string
  cq_DispatchToken :: string
  cq_Outcome :: attempt_outcome
  cq_Remaining :: int
  cq_RemainingUSD :: usd
  cq_Reservations :: "window_reservation list"
  cq_LeaseUntil :: gotime
  cq_ExpiresAt :: gotime

record continue_result =
  ct_Operation :: operation
  ct_Denied :: "denial option"

record complete_request =
  cp_OperationID :: string
  cp_DispatchToken :: string
  cp_Actual :: int
  cp_ActualCostUSD :: usd
  cp_ResultRef :: "blob_ref option"
  cp_Attempt :: attempt_facts

record fail_request =
  f_OperationID :: string
  f_DispatchToken :: string
  f_Certainty :: dispatch_certainty
  f_Incurred :: int
  f_IncurredCostUSD :: usd
  f_Attempt :: attempt_facts
  f_Retryable :: bool

datatype admission_error =
    ErrOperationNotFound | ErrOperationConflict | ErrInvalidToken | ErrInvalidTransition | ErrStateUnavailable
  | ContextCanceled | ContextDeadlineExceeded
  | TerminalTransition | BadTransition | BadCertainty | BadIncurred
  | BadScalar | AmountMismatch nat | DuplicateIdentityAt nat
  | BadScalarUSD money_error | ScalarBoundary money_error | ScalarUnderReserves
  | BadAmountUSD nat money_error | BadLimitUSD nat money_error | AmountUSDMismatch nat
  | AmountBoundary nat money_error | AmountUnderReserves nat | AmountUSDWithoutScalar nat
  | LimitBoundary nat money_error | LimitExceedsExact nat
  | BadBeginRequest | BadBeginEnvelope admission_error | BadContinueEnvelope admission_error
  | ProviderOperationRequired | ProviderEnvelopeIncomplete | BadActual | CannotContinue
  | BadReservationAmount | BadReconciliation | Arithmetic money_error

section \<open>Life cycle\<close>

definition ValidateTransition :: "operation_state \<Rightarrow> operation_state \<Rightarrow> admission_error option" where
  "ValidateTransition from to =
     (if Terminal from then (if from = to then None else Some TerminalTransition)
      else if from = StateReserved
              \<and> (to = StateDispatching \<or> to = StateDefiniteFailed \<or> to = StateCanceled \<or> to = StateAmbiguous)
      then None
      else if from = StateDispatching
              \<and> (to = StateCompleted \<or> to = StateDefiniteFailed \<or> to = StateAmbiguous \<or> to = StateCanceled
                 \<or> to = StateReserved)
      then None
      else Some BadTransition)"

definition ValidateOutcome :: "dispatch_certainty \<Rightarrow> int \<Rightarrow> admission_error option" where
  "ValidateOutcome certainty incurred =
     (if certainty \<noteq> NotDispatched \<and> certainty \<noteq> Rejected \<and> certainty \<noteq> Accepted \<and> certainty \<noteq> Ambiguous
      then Some BadCertainty
      else if incurred < 0 \<or> \<not> MicroUSD_Valid incurred then Some BadIncurred else None)"

section \<open>Reservation envelopes\<close>

definition reservation_identity :: "window_reservation \<Rightarrow> string \<times> string \<times> int" where
  "reservation_identity r = (r_PolicyID r, r_WindowID r, r_Bucket r)"

fun check_vector ::
  "int \<Rightarrow> (string \<times> string \<times> int) list \<Rightarrow> nat \<Rightarrow> window_reservation list \<Rightarrow> admission_error option" where
  "check_vector expected seen i [] = None"
| "check_vector expected seen i (r # rs) =
     (if r_Amount r \<noteq> expected then Some (AmountMismatch i)
      else if reservation_identity r \<in> set seen then Some (DuplicateIdentityAt i)
      else check_vector expected (reservation_identity r # seen) (Suc i) rs)"

definition ValidateReservationEnvelope :: "window_reservation list \<Rightarrow> int \<Rightarrow> admission_error option" where
  "ValidateReservationEnvelope reservations expected =
     (if expected < 0 \<or> \<not> MicroUSD_Valid expected then Some BadScalar
      else check_vector expected [] 0 reservations)"

text \<open>One iteration of the second loop of \<^verbatim>\<open>ValidateExactUSDReservationEnvelope\<close>.\<close>

definition check_exact_amount :: "usd \<Rightarrow> nat \<Rightarrow> window_reservation \<Rightarrow> admission_error option" where
  "check_exact_amount expectedUSD i r =
     (if \<not> USD_IsZero expectedUSD then
        (if USD_IsZero (r_AmountUSD r) \<or> USD_Cmp (r_AmountUSD r) expectedUSD \<noteq> 0 then Some (AmountUSDMismatch i)
         else case CeilMicroFromUSD (r_AmountUSD r) of
                Inl e \<Rightarrow> Some (AmountBoundary i e)
              | Inr required \<Rightarrow> if r_Amount r < required then Some (AmountUnderReserves i) else None)
      else if \<not> USD_IsZero (r_AmountUSD r) then Some (AmountUSDWithoutScalar i)
      else None)"

definition check_exact_limit :: "nat \<Rightarrow> window_reservation \<Rightarrow> admission_error option" where
  "check_exact_limit i r =
     (if USD_IsZero (r_LimitUSD r) then None
      else case MicroFromUSD (r_LimitUSD r) of
             Inl e \<Rightarrow> Some (LimitBoundary i e)
           | Inr limit \<Rightarrow> let limit' = (if limit = 0 then 1 else limit)
                         in if r_Limit r > limit' then Some (LimitExceedsExact i) else None)"

definition check_exact :: "usd \<Rightarrow> nat \<times> window_reservation \<Rightarrow> admission_error option" where
  "check_exact expectedUSD ir =
     (case ir of (i, r) \<Rightarrow>
      orElse (map_option (BadAmountUSD i) (USD_valid (r_AmountUSD r)))
       (orElse (map_option (BadLimitUSD i) (USD_valid (r_LimitUSD r)))
         (orElse (check_exact_amount expectedUSD i r) (check_exact_limit i r))))"

definition ValidateExactUSDReservationEnvelope ::
  "window_reservation list \<Rightarrow> int \<Rightarrow> usd \<Rightarrow> admission_error option" where
  "ValidateExactUSDReservationEnvelope reservations expected expectedUSD =
     orElse (ValidateReservationEnvelope reservations expected)
      (orElse (map_option BadScalarUSD (USD_valid expectedUSD))
        (if USD_IsZero expectedUSD
            \<and> \<not> list_ex (\<lambda>r. \<not> USD_IsZero (r_AmountUSD r) \<or> \<not> USD_IsZero (r_LimitUSD r)) reservations
         then None
         else orElse
           (if USD_IsZero expectedUSD then None
            else case CeilMicroFromUSD expectedUSD of
                   Inl e \<Rightarrow> Some (ScalarBoundary e)
                 | Inr required \<Rightarrow> if expected < required then Some ScalarUnderReserves else None)
           (firstErr (check_exact expectedUSD) (enumerate 0 reservations))))"

section \<open>What a valid envelope guarantees\<close>

lemma check_vector_None:
  "check_vector expected seen i rs = None \<longleftrightarrow>
     (\<forall>r \<in> set rs. r_Amount r = expected) \<and> distinct (map reservation_identity rs)
     \<and> set (map reservation_identity rs) \<inter> set seen = {}"
  by (induction expected seen i rs rule: check_vector.induct) auto

lemma envelope_None:
  "ValidateReservationEnvelope rs expected = None \<longleftrightarrow>
     MicroUSD_Valid expected \<and> (\<forall>r \<in> set rs. r_Amount r = expected) \<and> distinct (map reservation_identity rs)"
  by (auto simp: ValidateReservationEnvelope_def check_vector_None MicroUSD_Valid_def)

lemma check_exact_None:
  assumes "check_exact expectedUSD (i, r) = None"
  shows "usdUnits (r_AmountUSD r) = usdUnits expectedUSD"
    and "USD_valid (r_AmountUSD r) = None" and "USD_valid (r_LimitUSD r) = None"
    and "0 < usdUnits expectedUSD \<Longrightarrow> usdUnits (r_AmountUSD r) \<le> r_Amount r * 10 ^ 12"
    and "0 < usdUnits (r_LimitUSD r) \<Longrightarrow> 1 < r_Limit r \<Longrightarrow> r_Limit r * 10 ^ 12 \<le> usdUnits (r_LimitUSD r)"
proof -
  note a = assms[unfolded check_exact_def prod.case orElse_eq_None_iff]
  show "USD_valid (r_AmountUSD r) = None" "USD_valid (r_LimitUSD r) = None" using a by simp_all
  show "usdUnits (r_AmountUSD r) = usdUnits expectedUSD"
    using a by (auto simp: check_exact_amount_def USD_IsZero_iff USD_Cmp_iffs split: if_splits)
  show "usdUnits (r_AmountUSD r) \<le> r_Amount r * 10 ^ 12" if pos: "0 < usdUnits expectedUSD"
  proof -
    obtain k where k: "CeilMicroFromUSD (r_AmountUSD r) = Inr k" "k \<le> r_Amount r"
      using a pos by (auto simp: check_exact_amount_def USD_IsZero_iff split: if_splits sum.splits)
    then show ?thesis using micro_boundary.ceil_Inr[OF k(1)] by simp
  qed
  show "r_Limit r * 10 ^ 12 \<le> usdUnits (r_LimitUSD r)" if pos: "0 < usdUnits (r_LimitUSD r)" "1 < r_Limit r"
  proof -
    obtain k where k: "MicroFromUSD (r_LimitUSD r) = Inr k" "r_Limit r \<le> (if k = 0 then 1 else k)"
      using a pos(1) by (auto simp: check_exact_limit_def USD_IsZero_iff Let_def split: if_splits sum.splits)
    then show ?thesis using micro_boundary.floor_Inr[OF k(1)] pos(2) by (auto split: if_splits)
  qed
qed

lemma exact_envelope_None:
  assumes "ValidateExactUSDReservationEnvelope rs expected expectedUSD = None"
  shows "ValidateReservationEnvelope rs expected = None" and "USD_valid expectedUSD = None"
    and "\<not> USD_IsZero expectedUSD \<Longrightarrow> usdUnits expectedUSD \<le> expected * 10 ^ 12"
    and "r \<in> set rs \<Longrightarrow> \<exists>i. check_exact expectedUSD (i, r) = None"
proof -
  note a = assms[unfolded ValidateExactUSDReservationEnvelope_def orElse_eq_None_iff]
  show "ValidateReservationEnvelope rs expected = None" "USD_valid expectedUSD = None" using a by simp_all
  show "usdUnits expectedUSD \<le> expected * 10 ^ 12" if nz: "\<not> USD_IsZero expectedUSD"
  proof -
    obtain k where k: "CeilMicroFromUSD expectedUSD = Inr k" "k \<le> expected"
      using a nz by (auto split: if_splits sum.splits)
    then show ?thesis using micro_boundary.ceil_Inr[OF k(1)] by simp
  qed
  show "\<exists>i. check_exact expectedUSD (i, r) = None" if r: "r \<in> set rs"
  proof (cases "USD_IsZero expectedUSD \<and> \<not> list_ex (\<lambda>r. \<not> USD_IsZero (r_AmountUSD r) \<or> \<not> USD_IsZero (r_LimitUSD r)) rs")
    case True
    then have "USD_IsZero (r_AmountUSD r)" "USD_IsZero (r_LimitUSD r)" using r by (auto simp: list_ex_iff)
    then show ?thesis
      using True by (auto simp: check_exact_def check_exact_amount_def check_exact_limit_def USD_IsZero_iff
          USD_valid_None_iff maxUSDUnits_def)
  next
    case False
    then have "firstErr (check_exact expectedUSD) (enumerate 0 rs) = None" using a by (auto split: if_splits)
    then have "\<forall>x \<in> set (enumerate 0 rs). check_exact expectedUSD x = None" by (simp add: firstErr_None_iff)
    moreover obtain j where "j < length rs" "rs ! j = r" using r by (auto simp: in_set_conv_nth)
    ultimately have "check_exact expectedUSD (j, r) = None" by (force simp: in_set_enumerate_eq)
    then show ?thesis ..
  qed
qed

text \<open>An accepted reservation envelope never under-reserves: every window reserves the same amount,
  each bucket is named once, the microUSD amount covers the exact amount, and a microUSD limit above the
  one-unit minimum is within the exact limit.\<close>

theorem exact_envelope_sound:
  assumes "ValidateExactUSDReservationEnvelope rs expected expectedUSD = None" and "r \<in> set rs"
  shows "distinct (map reservation_identity rs) \<and> r_Amount r = expected \<and> MicroUSD_Valid (r_Amount r)
       \<and> usdUnits (r_AmountUSD r) = usdUnits expectedUSD
       \<and> usdUnits (r_AmountUSD r) \<le> r_Amount r * 10 ^ 12
       \<and> (usdUnits (r_LimitUSD r) = 0 \<or> r_Limit r \<le> 1 \<or> r_Limit r * 10 ^ 12 \<le> usdUnits (r_LimitUSD r))"
proof -
  note e = exact_envelope_None[OF assms(1)]
  have env: "MicroUSD_Valid expected" "r_Amount r = expected" "distinct (map reservation_identity rs)"
    using e(1) assms(2) by (auto simp: envelope_None)
  obtain i where i: "check_exact expectedUSD (i, r) = None" using e(4)[OF assms(2)] by blast
  note c = check_exact_None[OF i]
  have nn: "0 \<le> usdUnits expectedUSD" "0 \<le> usdUnits (r_LimitUSD r)" using e(2) c(3) by (simp_all add: USD_valid_None_iff)
  have amount: "usdUnits (r_AmountUSD r) \<le> r_Amount r * 10 ^ 12"
  proof (cases "usdUnits expectedUSD = 0")
    case True
    then show ?thesis using c(1) env(1,2) by (simp add: MicroUSD_Valid_def)
  next
    case False
    then show ?thesis using c(4) nn(1) by simp
  qed
  show ?thesis using env c(1) amount c(5) nn(2) by force
qed

definition sample_reservation :: window_reservation where
  "sample_reservation =
     \<lparr>r_PolicyID = ''p'', r_WindowID = ''w'', r_Bucket = 3, r_Amount = 2, r_Limit = 10,
      r_AmountUSD = USD (Some 1500000000000), r_LimitUSD = USD (Some 10000000000000),
      r_BucketNanos = 10, r_DurationNanos = 20\<rparr>"

theorem exact_envelope_sound_witness:
  "usdUnits (r_AmountUSD sample_reservation) \<le> r_Amount sample_reservation * 10 ^ 12"
proof -
  have v: "ValidateExactUSDReservationEnvelope [sample_reservation] 2 (USD (Some 1500000000000)) = None" by code_simp
  show ?thesis using exact_envelope_sound[OF v, of sample_reservation] by simp
qed

end
