(* ===== verification/Admission_Store.thy ===== *)
theory Admission_Store
  imports Admission
begin

text \<open>
  The in-memory admission store, \<^verbatim>\<open>storage/memory/admission.go\<close>: operations with their
  reservations, fenced by dispatch tokens, and the budget buckets they charge. Every method
  runs under the store's mutex, so it is one atomic step \<open>store \<Rightarrow> store \<times> result\<close>; an error
  return keeps what the method had already written, as the Go code does. \<open>ctx\<close> is
  \<^verbatim>\<open>ctx.Err()\<close>, and \<open>clk i\<close> is the \<open>i\<close>-th reading of the store's clock within the call.
\<close>

section \<open>State\<close>

type_synonym budget_key = "string \<times> string"

record bucket_geometry =
  g_bucketNanos :: int
  g_durationNanos :: int
  g_mixed :: bool

record admission_store =
  s_operations :: "(string, operation) gomap"
  s_providerIDs :: "(string, string) gomap"
  s_reopens :: "(string, int) gomap"
  s_pollAfter :: "(string, gotime) gomap"
  s_byScope :: "(string, string) gomap"
  s_buckets :: "(budget_key, (int, int) gomap) gomap"
  s_geometry :: "(budget_key, bucket_geometry) gomap"

definition NewAdmissionStore :: admission_store where
  "NewAdmissionStore = \<lparr>s_operations = [], s_providerIDs = [], s_reopens = [], s_pollAfter = [], s_byScope = [],
     s_buckets = [], s_geometry = []\<rparr>"

definition zero_geometry :: bucket_geometry where
  "zero_geometry = \<lparr>g_bucketNanos = 0, g_durationNanos = 0, g_mixed = False\<rparr>"

definition zero_attempt :: attempt_facts where
  "zero_attempt = \<lparr>a_RouteID = [], a_EndpointID = [], a_Provider = [], a_ResolvedModel = [], a_ProviderRequestID = [],
     a_ServiceClass = [], a_Dispatch = CertaintyOther [], a_AttemptNumber = 0\<rparr>"

definition zero_operation :: operation where
  "zero_operation = \<lparr>o_ID = [], o_ScopeKey = [], o_RequestDigest = [], o_State = StateOther [], o_ReservedMicroUSD = 0,
     o_IncurredMicroUSD = 0, o_FinalMicroUSD = 0, o_ReservedCostUSD = None, o_IncurredCostUSD = None,
     o_ActualCostUSD = None, o_Reservations = [], o_ConfigVersion = [], o_PriceVersion = [], o_Attempt = zero_attempt,
     o_ResultRef = None, o_DispatchToken = [], o_LeaseUntil = zero_time, o_CreatedAt = zero_time,
     o_UpdatedAt = zero_time, o_ExpiresAt = zero_time, o_Retryable = False\<rparr>"

definition reservation_key :: "window_reservation \<Rightarrow> budget_key" where
  "reservation_key r = (r_PolicyID r, r_WindowID r)"

definition bucket_value :: "admission_store \<Rightarrow> string \<times> string \<times> int \<Rightarrow> int" where
  "bucket_value s b = (case b of (policy, window, i) \<Rightarrow> mgetd 0 (mgetd [] (s_buckets s) (policy, window)) i)"

definition put_bucket :: "budget_key \<Rightarrow> int \<Rightarrow> int \<Rightarrow> admission_store \<Rightarrow> admission_store" where
  "put_bucket key i v s = s\<lparr>s_buckets := mput key (mput i v (mgetd [] (s_buckets s) key)) (s_buckets s)\<rparr>"

definition put_operation :: "operation \<Rightarrow> admission_store \<Rightarrow> admission_store" where
  "put_operation oper s = s\<lparr>s_operations := mput (o_ID oper) oper (s_operations s)\<rparr>"

section \<open>Buckets\<close>

text \<open>
  \<^verbatim>\<open>floorDiv\<close> panics on a zero divisor; its callers pass a bucket width that they or
  \<open>store_wf\<close> (below) keep positive.
\<close>

definition floorDiv :: "int \<Rightarrow> int \<Rightarrow> int" where
  "floorDiv v d =
     (let quotient = wrap64 (v sdiv d); remainder = v smod d
      in if remainder \<noteq> 0 \<and> (remainder < 0) \<noteq> (d < 0) then wrap64 (quotient - 1) else quotient)"

definition denial_of :: "window_reservation \<Rightarrow> int \<Rightarrow> denial" where
  "denial_of r active = \<lparr>d_RetryAfter = 0, d_PolicyID = r_PolicyID r, d_WindowID = r_WindowID r, d_Limit = r_Limit r,
     d_Active = active, d_Requested = r_Amount r, d_LimitUSD = USD None, d_ActiveUSD = USD None, d_RequestedUSD = USD None\<rparr>"

definition active_window :: "admission_store \<Rightarrow> window_reservation \<Rightarrow> gotime \<Rightarrow> money_error + int" where
  "active_window s r t =
     (let first = floorDiv (wrap64 (UnixNano t - r_DurationNanos r)) (r_BucketNanos r);
          last = floorDiv (UnixNano t) (r_BucketNanos r);
          buckets = mgetd [] (s_buckets s) (reservation_key r)
      in foldE (\<lambda>active index. MicroUSD_Add active (mgetd 0 buckets index)) 0 [first..last])"

definition check_reservation :: "admission_store \<Rightarrow> gotime \<Rightarrow> window_reservation \<Rightarrow> denial option" where
  "check_reservation s t r =
     (if r_Limit r \<le> 0 \<or> r_BucketNanos r \<le> 0 \<or> r_DurationNanos r \<le> 0 then Some (denial_of r 0)
      else case active_window s r t of
             Inl _ \<Rightarrow> Some (denial_of r 0)
           | Inr active \<Rightarrow>
               if active > r_Limit r \<or> r_Amount r > wrap64 (r_Limit r - active) then Some (denial_of r active) else None)"

definition checkReservations :: "admission_store \<Rightarrow> window_reservation list \<Rightarrow> gotime \<Rightarrow> denial option" where
  "checkReservations s rs t = firstErr (check_reservation s t) rs"

definition record_geometry :: "window_reservation \<Rightarrow> admission_store \<Rightarrow> admission_store" where
  "record_geometry r s =
     (if r_BucketNanos r > 0 \<and> r_DurationNanos r > 0 then
        (let key = reservation_key r;
             geometry = mgetd zero_geometry (s_geometry s) key;
             geometry = (if g_bucketNanos geometry = 0 then geometry\<lparr>g_bucketNanos := r_BucketNanos r\<rparr>
                         else if g_bucketNanos geometry \<noteq> r_BucketNanos r then geometry\<lparr>g_mixed := True\<rparr>
                         else geometry);
             geometry = (if r_DurationNanos r > g_durationNanos geometry
                         then geometry\<lparr>g_durationNanos := r_DurationNanos r\<rparr> else geometry)
         in s\<lparr>s_geometry := mput key geometry (s_geometry s)\<rparr>)
      else s)"

definition ensure_bucket_map :: "budget_key \<Rightarrow> admission_store \<Rightarrow> admission_store" where
  "ensure_bucket_map key s =
     (if mget (s_buckets s) key = None then s\<lparr>s_buckets := mput key [] (s_buckets s)\<rparr> else s)"

definition addReservation ::
  "window_reservation \<Rightarrow> int \<Rightarrow> admission_store \<Rightarrow> admission_store \<times> admission_error option" where
  "addReservation r amount s =
     (if amount < 0 \<or> \<not> MicroUSD_Valid amount then (s, Some BadReservationAmount)
      else let s1 = ensure_bucket_map (reservation_key r) (record_geometry r s)
           in case MicroUSD_Add (bucket_value s1 (reservation_identity r)) amount of
                Inl e \<Rightarrow> (s1, Some (Arithmetic e))
              | Inr v \<Rightarrow> (put_bucket (reservation_key r) (r_Bucket r) v s1, None))"

definition reconcile_reservation ::
  "int \<Rightarrow> admission_store \<Rightarrow> window_reservation \<Rightarrow> admission_store \<times> admission_error option" where
  "reconcile_reservation actual s r =
     (case addReservation r 0 s of
        (s1, Some e) \<Rightarrow> (s1, Some e)
      | (s1, None) \<Rightarrow>
          (let current = bucket_value s1 (reservation_identity r)
           in if current < r_Amount r then (s1, Some ErrStateUnavailable)
              else let current = wrap64 (current - r_Amount r)
                   in case (if actual > 0 then MicroUSD_Add current actual else Inr current) of
                        Inl e \<Rightarrow> (s1, Some (Arithmetic e))
                      | Inr v \<Rightarrow> (put_bucket (reservation_key r) (r_Bucket r) v s1, None)))"

definition reconcile ::
  "window_reservation list \<Rightarrow> int \<Rightarrow> admission_store \<Rightarrow> admission_store \<times> admission_error option" where
  "reconcile rs actual s =
     (if actual < 0 \<or> \<not> MicroUSD_Valid actual then (s, Some BadReconciliation)
      else loopE (reconcile_reservation actual) s rs)"

definition addReservations ::
  "window_reservation list \<Rightarrow> admission_store \<Rightarrow> admission_store \<times> admission_error option" where
  "addReservations rs s = loopE (\<lambda>s r. addReservation r (r_Amount r) s) s rs"

section \<open>Retention\<close>

definition expired :: "gotime \<Rightarrow> operation \<Rightarrow> bool" where
  "expired now oper \<longleftrightarrow> \<not> (\<not> Terminal (o_State oper) \<or> IsZero (o_ExpiresAt oper) \<or> now < o_ExpiresAt oper)"

definition sweep_operation :: "gotime \<Rightarrow> string \<times> operation \<Rightarrow> admission_store \<Rightarrow> admission_store" where
  "sweep_operation now entry s =
     (case entry of (oid, oper) \<Rightarrow>
      if \<not> expired now oper then s
      else s\<lparr>s_operations := mdel oid (s_operations s), s_providerIDs := mdel oid (s_providerIDs s),
             s_pollAfter := mdel oid (s_pollAfter s), s_reopens := mdel oid (s_reopens s),
             s_byScope := (if mgetd [] (s_byScope s) (o_ScopeKey oper) = oid
                           then mdel (o_ScopeKey oper) (s_byScope s) else s_byScope s)\<rparr>)"

definition referenced :: "admission_store \<Rightarrow> (string \<times> string \<times> int) list" where
  "referenced s = concat (map (\<lambda>(oid, oper). map reservation_identity (o_Reservations oper)) (s_operations s))"

definition kept_buckets ::
  "gotime \<Rightarrow> (string \<times> string \<times> int) list \<Rightarrow> budget_key \<Rightarrow> bucket_geometry \<Rightarrow> (int, int) gomap \<Rightarrow> (int, int) gomap" where
  "kept_buckets now used key geometry buckets =
     (let first = floorDiv (wrap64 (UnixNano now - g_durationNanos geometry)) (g_bucketNanos geometry)
      in filter (\<lambda>(index, v). index \<ge> first \<or> (fst key, snd key, index) \<in> set used) buckets)"

definition sweep_key ::
  "gotime \<Rightarrow> (string \<times> string \<times> int) list \<Rightarrow> budget_key \<times> (int, int) gomap \<Rightarrow> admission_store \<Rightarrow> admission_store" where
  "sweep_key now used entry s =
     (case entry of (key, buckets) \<Rightarrow>
      case mget (s_geometry s) key of
        None \<Rightarrow> s
      | Some geometry \<Rightarrow>
          if g_mixed geometry then s
          else let kept = kept_buckets now used key geometry buckets
               in if kept = [] then s\<lparr>s_buckets := mdel key (s_buckets s), s_geometry := mdel key (s_geometry s)\<rparr>
                  else s\<lparr>s_buckets := mput key kept (s_buckets s)\<rparr>)"

definition sweepLocked :: "gotime \<Rightarrow> admission_store \<Rightarrow> admission_store \<times> nat" where
  "sweepLocked now s =
     (let s1 = fold (sweep_operation now) (s_operations s) s;
          s2 = fold (sweep_key now (referenced s1)) (s_buckets s1) s1
      in (s2, length (filter (\<lambda>(oid, oper). expired now oper) (s_operations s))))"

definition Sweep :: "gotime \<Rightarrow> admission_store \<Rightarrow> admission_store \<times> nat" where
  "Sweep now s = sweepLocked now s"

section \<open>Operations\<close>

definition loadToken :: "string \<Rightarrow> string \<Rightarrow> admission_store \<Rightarrow> admission_error + operation" where
  "loadToken oid token s =
     (case mget (s_operations s) oid of
        None \<Rightarrow> Inl ErrOperationNotFound
      | Some oper \<Rightarrow> if o_DispatchToken oper \<noteq> token then Inl ErrInvalidToken else Inr oper)"

definition reopen_operation ::
  "string \<Rightarrow> begin_request \<Rightarrow> operation option \<Rightarrow> operation \<Rightarrow> admission_store \<Rightarrow> operation \<times> admission_store" where
  "reopen_operation token q reopened oper s =
     (case reopened of
        None \<Rightarrow> (oper, s)
      | Some old \<Rightarrow>
          let n = wrap64 (mgetd 0 (s_reopens s) (b_ID q) + 1)
          in (oper\<lparr>o_DispatchToken := token @ ''-reopen-'' @ int_dec n, o_CreatedAt := o_CreatedAt old\<rparr>,
              s\<lparr>s_reopens := mput (b_ID q) n (s_reopens s)\<rparr>))"

definition reserved_operation :: "string \<Rightarrow> gotime \<Rightarrow> begin_request \<Rightarrow> operation" where
  "reserved_operation token now q = zero_operation\<lparr>o_ID := b_ID q, o_ScopeKey := b_ScopeKey q,
     o_RequestDigest := b_RequestDigest q, o_State := StateReserved, o_ReservedMicroUSD := b_Reservation q,
     o_Reservations := b_Reservations q, o_ConfigVersion := b_ConfigVersion q, o_PriceVersion := b_PriceVersion q,
     o_DispatchToken := token, o_LeaseUntil := b_LeaseUntil q, o_CreatedAt := now, o_UpdatedAt := now,
     o_ExpiresAt := b_ExpiresAt q\<rparr>"

text \<open>The part of \<^verbatim>\<open>Begin\<close> after the scope lookup; \<open>hexsha\<close> is the hex SHA-256 of a string.\<close>

definition begin_reserve ::
  "(string \<Rightarrow> string) \<Rightarrow> (nat \<Rightarrow> gotime) \<Rightarrow> begin_request \<Rightarrow> operation option \<Rightarrow> admission_store
     \<Rightarrow> admission_store \<times> (admission_error + begin_result)" where
  "begin_reserve hexsha clk q reopened s =
     (case checkReservations s (b_Reservations q) (clk 1) of
        Some denial \<Rightarrow> (s, Inr \<lparr>br_Operation = None, br_Existing = False, br_Denied = Some denial\<rparr>)
      | None \<Rightarrow>
          case addReservations (b_Reservations q) s of
            (s1, Some e) \<Rightarrow> (s1, Inl e)
          | (s1, None) \<Rightarrow>
              let token = (if b_ID q = [] then hexsha (b_ScopeKey q) else b_ID q);
                  (oper, s2) = reopen_operation token q reopened (reserved_operation token (clk 2) q) s1;
                  oper = (if \<not> USD_IsZero (b_ReservationUSD q) \<or> b_Reservation q = 0
                          then oper\<lparr>o_ReservedCostUSD := Some (b_ReservationUSD q)\<rparr> else oper);
                  s3 = put_operation oper s2
              in (s3\<lparr>s_byScope := mput (o_ScopeKey oper) (o_ID oper) (s_byScope s3)\<rparr>,
                  Inr \<lparr>br_Operation = Some oper, br_Existing = False, br_Denied = None\<rparr>))"

definition Begin ::
  "(string \<Rightarrow> string) \<Rightarrow> admission_error option \<Rightarrow> (nat \<Rightarrow> gotime) \<Rightarrow> begin_request \<Rightarrow> admission_store
     \<Rightarrow> admission_store \<times> (admission_error + begin_result)" where
  "Begin hexsha ctx clk q s =
     (case ctx of Some e \<Rightarrow> (s, Inl e) | None \<Rightarrow>
      if b_ID q = [] \<or> b_ScopeKey q = [] \<or> b_Reservation q < 0 \<or> \<not> MicroUSD_Valid (b_Reservation q)
      then (s, Inl BadBeginRequest)
      else case ValidateExactUSDReservationEnvelope (b_Reservations q) (b_Reservation q) (b_ReservationUSD q) of
             Some e \<Rightarrow> (s, Inl (BadBeginEnvelope e))
           | None \<Rightarrow>
               let s0 = fst (sweepLocked (clk 0) s)
               in case mget (s_byScope s0) (b_ScopeKey q) of
                    None \<Rightarrow> begin_reserve hexsha clk q None s0
                  | Some oid \<Rightarrow>
                      let oper = mgetd zero_operation (s_operations s0) oid
                      in if o_RequestDigest oper \<noteq> b_RequestDigest q then (s0, Inl ErrOperationConflict)
                         else if o_State oper \<noteq> StateDefiniteFailed \<or> \<not> o_Retryable oper \<or> o_ID oper \<noteq> b_ID q
                         then (s0, Inr \<lparr>br_Operation = Some oper, br_Existing = True, br_Denied = None\<rparr>)
                         else begin_reserve hexsha clk q (Some oper) s0)"


type_synonym 'a reply = "admission_store \<times> (admission_error + 'a)"

definition with_token ::
  "admission_error option \<Rightarrow> string \<Rightarrow> string \<Rightarrow> admission_store \<Rightarrow> (operation \<Rightarrow> 'a reply) \<Rightarrow> 'a reply" where
  "with_token ctx oid token s body =
     (case ctx of Some e \<Rightarrow> (s, Inl e) | None \<Rightarrow>
      case loadToken oid token s of Inl e \<Rightarrow> (s, Inl e) | Inr oper \<Rightarrow> body oper)"

definition MarkDispatching ::
  "admission_error option \<Rightarrow> (nat \<Rightarrow> gotime) \<Rightarrow> dispatch_request \<Rightarrow> admission_store \<Rightarrow> unit reply" where
  "MarkDispatching ctx clk q s =
     with_token ctx (dr_OperationID q) (dr_DispatchToken q) s (\<lambda>oper.
       if o_State oper \<noteq> StateReserved
       then (if Terminal (o_State oper) then (s, Inr ()) else (s, Inl ErrInvalidTransition))
       else (put_operation (oper\<lparr>o_State := StateDispatching,
               o_Attempt := (dr_Attempt q)\<lparr>a_AttemptNumber := wrap64 (a_AttemptNumber (dr_Attempt q) + 1)\<rparr>,
               o_LeaseUntil := dr_LeaseUntil q, o_UpdatedAt := clk 0\<rparr>) s, Inr ()))"

definition MarkProviderPending ::
  "admission_error option \<Rightarrow> (nat \<Rightarrow> gotime) \<Rightarrow> provider_pending_request \<Rightarrow> admission_store \<Rightarrow> unit reply" where
  "MarkProviderPending ctx clk q s =
     (case ctx of Some e \<Rightarrow> (s, Inl e) | None \<Rightarrow>
      if pp_ProviderOperationID q = [] \<or> pp_EndpointID q = [] then (s, Inl ProviderOperationRequired)
      else with_token None (pp_OperationID q) (pp_DispatchToken q) s (\<lambda>oper.
        if o_State oper = StateProviderPending
        then (if mgetd [] (s_providerIDs s) (o_ID oper) = pp_ProviderOperationID q then (s, Inr ())
              else (s, Inl ErrOperationConflict))
        else if o_State oper \<noteq> StateDispatching then (s, Inl ErrInvalidTransition)
        else let s1 = put_operation (oper\<lparr>o_State := StateProviderPending,
                        o_Attempt := (o_Attempt oper)\<lparr>a_EndpointID := pp_EndpointID q, a_Provider := pp_Provider q,
                                                       a_Dispatch := Accepted\<rparr>,
                        o_UpdatedAt := clk 0\<rparr>) s
             in (s1\<lparr>s_providerIDs := mput (o_ID oper) (pp_ProviderOperationID q) (s_providerIDs s1),
                    s_pollAfter := mput (o_ID oper) (pp_PollAfter q) (s_pollAfter s1)\<rparr>, Inr ())))"

definition ProviderOperation :: "admission_error option \<Rightarrow> string \<Rightarrow> admission_store \<Rightarrow> admission_error + string" where
  "ProviderOperation ctx oid s =
     guardE ctx
      (if mget (s_operations s) oid = None then Inl ErrOperationNotFound
       else if mgetd [] (s_providerIDs s) oid = [] then Inl ProviderEnvelopeIncomplete
       else Inr (mgetd [] (s_providerIDs s) oid))"

definition ProviderPollAfter :: "admission_error option \<Rightarrow> string \<Rightarrow> admission_store \<Rightarrow> admission_error + gotime" where
  "ProviderPollAfter ctx oid s =
     guardE ctx
      (if mget (s_operations s) oid = None then Inl ErrOperationNotFound
       else if mget (s_providerIDs s) oid = None then Inl ProviderEnvelopeIncomplete
       else Inr (mgetd zero_time (s_pollAfter s) oid))"

definition completed_operation :: "gotime \<Rightarrow> complete_request \<Rightarrow> operation \<Rightarrow> operation" where
  "completed_operation now q oper =
     (let oper = oper\<lparr>o_State := StateCompleted, o_IncurredMicroUSD := cp_Actual q, o_FinalMicroUSD := cp_Actual q\<rparr>;
          oper = (if \<not> USD_IsZero (cp_ActualCostUSD q) \<or> cp_Actual q = 0
                  then oper\<lparr>o_ActualCostUSD := Some (cp_ActualCostUSD q), o_IncurredCostUSD := Some (cp_ActualCostUSD q)\<rparr>
                  else oper)
      in oper\<lparr>o_ReservedMicroUSD := 0, o_ResultRef := cp_ResultRef q,
              o_Attempt := (cp_Attempt q)\<lparr>a_Dispatch := Accepted\<rparr>, o_UpdatedAt := now\<rparr>)"

definition Complete ::
  "admission_error option \<Rightarrow> (nat \<Rightarrow> gotime) \<Rightarrow> complete_request \<Rightarrow> admission_store \<Rightarrow> unit reply" where
  "Complete ctx clk q s =
     with_token ctx (cp_OperationID q) (cp_DispatchToken q) s (\<lambda>oper.
       if o_State oper = StateCompleted then (s, Inr ())
       else if o_State oper \<noteq> StateDispatching \<and> o_State oper \<noteq> StateProviderPending then (s, Inl ErrInvalidTransition)
       else if cp_Actual q < 0 \<or> \<not> MicroUSD_Valid (cp_Actual q) then (s, Inl BadActual)
       else case reconcile (o_Reservations oper) (cp_Actual q) s of
              (s1, Some e) \<Rightarrow> (s1, Inl e)
            | (s1, None) \<Rightarrow> (put_operation (completed_operation (clk 0) q oper) s1, Inr ()))"

definition retained_operation :: "fail_request \<Rightarrow> operation \<Rightarrow> operation" where
  "retained_operation q oper =
     (let oper = oper\<lparr>o_State := StateAmbiguous, o_IncurredMicroUSD := f_Incurred q,
                      o_FinalMicroUSD := o_ReservedMicroUSD oper\<rparr>
      in if \<not> USD_IsZero (f_IncurredCostUSD q) \<or> f_Incurred q = 0
         then oper\<lparr>o_IncurredCostUSD := Some (f_IncurredCostUSD q)\<rparr> else oper)"

definition released_operation :: "fail_request \<Rightarrow> operation \<Rightarrow> operation" where
  "released_operation q oper =
     (let oper = oper\<lparr>o_State := StateDefiniteFailed, o_IncurredMicroUSD := f_Incurred q, o_FinalMicroUSD := f_Incurred q\<rparr>;
          oper = (if \<not> USD_IsZero (f_IncurredCostUSD q) \<or> f_Incurred q = 0
                  then oper\<lparr>o_IncurredCostUSD := Some (f_IncurredCostUSD q), o_ActualCostUSD := Some (f_IncurredCostUSD q)\<rparr>
                  else oper)
      in oper\<lparr>o_ReservedMicroUSD := 0, o_Retryable := f_Retryable q \<and> f_Incurred q = 0\<rparr>)"

definition Fail :: "admission_error option \<Rightarrow> (nat \<Rightarrow> gotime) \<Rightarrow> fail_request \<Rightarrow> admission_store \<Rightarrow> unit reply" where
  "Fail ctx clk q s =
     with_token ctx (f_OperationID q) (f_DispatchToken q) s (\<lambda>oper.
       if Terminal (o_State oper) then (s, Inr ())
       else case ValidateOutcome (f_Certainty q) (f_Incurred q) of
              Some e \<Rightarrow> (s, Inl e)
            | None \<Rightarrow>
                let settle = (\<lambda>oper. oper\<lparr>o_Attempt := (f_Attempt q)\<lparr>a_Dispatch := f_Certainty q\<rparr>, o_UpdatedAt := clk 0\<rparr>)
                in if f_Certainty q = Accepted \<or> f_Certainty q = Ambiguous
                   then (put_operation (settle (retained_operation q oper)) s, Inr ())
                   else case reconcile (o_Reservations oper) (f_Incurred q) s of
                          (s1, Some e) \<Rightarrow> (s1, Inl e)
                        | (s1, None) \<Rightarrow> (put_operation (settle (released_operation q oper)) s1, Inr ()))"

definition denied_operation :: "gotime \<Rightarrow> continue_request \<Rightarrow> operation \<Rightarrow> operation" where
  "denied_operation now q oper = oper\<lparr>o_State := StateDefiniteFailed, o_IncurredMicroUSD := ao_Incurred (cq_Outcome q),
     o_FinalMicroUSD := ao_Incurred (cq_Outcome q), o_ReservedMicroUSD := 0, o_UpdatedAt := now\<rparr>"

definition continued_operation :: "gotime \<Rightarrow> continue_request \<Rightarrow> operation \<Rightarrow> operation" where
  "continued_operation now q oper =
     (let oper = oper\<lparr>o_State := StateReserved, o_Reservations := cq_Reservations q, o_ReservedMicroUSD := cq_Remaining q\<rparr>;
          oper = (if \<not> USD_IsZero (cq_RemainingUSD q) \<or> cq_Remaining q = 0
                  then oper\<lparr>o_ReservedCostUSD := Some (cq_RemainingUSD q)\<rparr> else oper);
          attempt = (ao_Attempt (cq_Outcome q))\<lparr>a_Dispatch := NotDispatched\<rparr>
      in oper\<lparr>o_Attempt := attempt,
              o_DispatchToken := o_DispatchToken oper @ ''-'' @ int_dec (wrap64 (a_AttemptNumber attempt + 1)),
              o_LeaseUntil := cq_LeaseUntil q, o_ExpiresAt := cq_ExpiresAt q, o_UpdatedAt := now\<rparr>)"

definition Continue ::
  "admission_error option \<Rightarrow> (nat \<Rightarrow> gotime) \<Rightarrow> continue_request \<Rightarrow> admission_store \<Rightarrow> continue_result reply" where
  "Continue ctx clk q s =
     (case ctx of Some e \<Rightarrow> (s, Inl e) | None \<Rightarrow>
      case ValidateExactUSDReservationEnvelope (cq_Reservations q) (cq_Remaining q) (cq_RemainingUSD q) of
        Some e \<Rightarrow> (s, Inl (BadContinueEnvelope e))
      | None \<Rightarrow>
        with_token None (cq_OperationID q) (cq_DispatchToken q) s (\<lambda>oper.
          if o_State oper \<noteq> StateDispatching then (s, Inl ErrInvalidTransition)
          else if ao_Certainty (cq_Outcome q) = Accepted \<or> ao_Certainty (cq_Outcome q) = Ambiguous
          then (s, Inl CannotContinue)
          else case reconcile (o_Reservations oper) (ao_Incurred (cq_Outcome q)) s of
                 (s1, Some e) \<Rightarrow> (s1, Inl e)
               | (s1, None) \<Rightarrow>
                   case checkReservations s1 (cq_Reservations q) (clk 0) of
                     Some denial \<Rightarrow>
                       (let oper' = denied_operation (clk 1) q oper
                        in (put_operation oper' s1, Inr \<lparr>ct_Operation = oper', ct_Denied = Some denial\<rparr>))
                   | None \<Rightarrow>
                       case addReservations (cq_Reservations q) s1 of
                         (s2, Some e) \<Rightarrow> (s2, Inl e)
                       | (s2, None) \<Rightarrow>
                           let oper' = continued_operation (clk 1) q oper
                           in (put_operation oper' s2, Inr \<lparr>ct_Operation = oper', ct_Denied = None\<rparr>)))"

definition Get :: "admission_error option \<Rightarrow> string \<Rightarrow> admission_store \<Rightarrow> admission_error + operation" where
  "Get ctx oid s =
     guardE ctx (case mget (s_operations s) oid of None \<Rightarrow> Inl ErrOperationNotFound | Some oper \<Rightarrow> Inr oper)"

end
