(* ===== verification/Admission_Ledger.thy ===== *)
theory Admission_Ledger
  imports Admission_Store
begin

text \<open>
  The budget side of the memory admission store. The locale \<open>ledger\<close> is what the operations
  rely on when they book or settle a vector of reservations; it is interpreted on
  \<open>addReservation\<close> and on \<open>reconcile_reservation\<close>. \<open>store_inv\<close> is the invariant of the
  store: every bucket holds at least what the retained operations charge to it. It holds in
  every reachable state, error returns included.
\<close>

section \<open>Ledgers\<close>

locale ledger =
  fixes balance :: "'s \<Rightarrow> 'b \<Rightarrow> int"
    and ident :: "'r \<Rightarrow> 'b"
    and good :: "'r \<Rightarrow> bool"
    and book :: "'s \<Rightarrow> 'r \<Rightarrow> 's \<times> 'e option"
    and delta :: "'r \<Rightarrow> int"
  assumes book_ok: "good r \<Longrightarrow> book s r = (s', None) \<Longrightarrow> balance s' b = balance s b + (if ident r = b then delta r else 0)"
    and book_err: "book s r = (s', Some e) \<Longrightarrow> balance s' b = balance s b"
begin

lemma vector_ok:
  assumes "loopE book s rs = (s', None)" and "\<forall>r \<in> set rs. good r"
  shows "balance s' b = balance s b + sum_list (map delta (filter (\<lambda>r. ident r = b) rs))"
  using assms
proof (induction rs arbitrary: s)
  case Nil
  then show ?case by simp
next
  case (Cons r rs)
  obtain u where u: "book s r = (u, None)" "loopE book u rs = (s', None)"
    using Cons.prems(1) by (auto split: prod.splits option.splits)
  show ?case
    using Cons.IH[OF u(2)] Cons.prems(2) book_ok[OF _ u(1)] by simp
qed

lemma vector_mono:
  assumes "\<forall>r \<in> set rs. good r \<and> 0 \<le> delta r"
  shows "balance s b \<le> balance (fst (loopE book s rs)) b"
  using assms
proof (induction rs arbitrary: s)
  case Nil
  then show ?case by simp
next
  case (Cons r rs)
  obtain u e where u: "book s r = (u, e)" by (cases "book s r")
  show ?case
  proof (cases e)
    case None
    have "balance u b \<le> balance (fst (loopE book u rs)) b" using Cons.prems by (intro Cons.IH) simp
    moreover have "balance s b \<le> balance u b" using book_ok[of r s u b] Cons.prems u None by simp
    ultimately show ?thesis using u None by simp
  next
    case (Some x)
    then show ?thesis using u book_err[of s r u x b] by simp
  qed
qed

end

section \<open>Bucket updates\<close>

lemma bucket_value_put_bucket [simp]:
  "bucket_value (put_bucket key i v s) b = (if b = (fst key, snd key, i) then v else bucket_value s b)"
  by (cases b; cases key) (auto simp: bucket_value_def put_bucket_def)

lemma bucket_value_frame [simp]:
  "bucket_value (record_geometry r s) b = bucket_value s b"
  "bucket_value (ensure_bucket_map key s) b = bucket_value s b"
  by (auto simp: bucket_value_def record_geometry_def ensure_bucket_map_def mgetd_def Let_def
      split: prod.splits option.splits)

lemma bucket_value_put_operation [simp]: "bucket_value (put_operation oper s) b = bucket_value s b"
  by (simp add: bucket_value_def put_operation_def)

lemma identity_key [simp]:
  "(fst (reservation_key r), snd (reservation_key r), r_Bucket r) = reservation_identity r"
  by (simp add: reservation_key_def reservation_identity_def)

text \<open>The part of the store that booking and settling leave alone.\<close>

definition same_operations :: "admission_store \<Rightarrow> admission_store \<Rightarrow> bool" where
  "same_operations s s' \<longleftrightarrow> s_operations s' = s_operations s \<and> s_providerIDs s' = s_providerIDs s
     \<and> s_reopens s' = s_reopens s \<and> s_pollAfter s' = s_pollAfter s \<and> s_byScope s' = s_byScope s"

lemma same_operations_refl [simp]: "same_operations s s"
  by (simp add: same_operations_def)

lemma same_operations_trans: "same_operations s t \<Longrightarrow> same_operations t u \<Longrightarrow> same_operations s u"
  by (simp add: same_operations_def)

lemma same_operations_parts [simp]:
  "same_operations s (record_geometry r t) = same_operations s t"
  "same_operations s (ensure_bucket_map key t) = same_operations s t"
  "same_operations s (put_bucket key i v t) = same_operations s t"
  by (simp_all add: same_operations_def record_geometry_def ensure_bucket_map_def put_bucket_def Let_def)

lemma addReservation_frame: "same_operations s (fst (addReservation r a s))"
  by (simp add: addReservation_def Let_def split: sum.split)

lemma reconcile_reservation_frame: "same_operations s (fst (reconcile_reservation a s r))"
proof -
  obtain t e where t: "addReservation r 0 s = (t, e)" by (cases "addReservation r 0 s")
  then have "same_operations s t" using addReservation_frame[of s r 0] by simp
  then show ?thesis using t
    by (simp add: reconcile_reservation_def Let_def split: option.split sum.split)
qed

lemma vector_frames:
  "same_operations s (fst (addReservations rs s))" "same_operations s (fst (reconcile rs a s))"
proof -
  show "same_operations s (fst (addReservations rs s))"
    unfolding addReservations_def
    by (rule loopE_invariant[where P = "same_operations s"])
      (simp, rule same_operations_trans[OF _ addReservation_frame])
  have "same_operations s (fst (loopE (reconcile_reservation a) s rs))"
    by (rule loopE_invariant[where P = "same_operations s"])
      (simp, rule same_operations_trans[OF _ reconcile_reservation_frame])
  then show "same_operations s (fst (reconcile rs a s))" by (simp add: reconcile_def)
qed

lemma addReservation_ok:
  "addReservation r a s = (s', None) \<Longrightarrow>
     bucket_value s' b = bucket_value s b + (if reservation_identity r = b then a else 0)"
  by (auto simp: addReservation_def Let_def micro_add_alt split: if_splits sum.splits)

lemma addReservation_err: "addReservation r a s = (s', Some e) \<Longrightarrow> bucket_value s' b = bucket_value s b"
  by (auto simp: addReservation_def Let_def split: if_splits sum.splits)

lemma addReservation_error_kind:
  "addReservation r a s = (s', Some e) \<Longrightarrow> MicroUSD_Valid a \<Longrightarrow> e = Arithmetic MicroAddOverflow"
  by (auto simp: addReservation_def Let_def micro_add_alt MicroUSD_Valid_def split: if_splits sum.splits)

interpretation booking: ledger bucket_value reservation_identity "\<lambda>r. True"
  "\<lambda>s r. addReservation r (r_Amount r) s" r_Amount
  by unfold_locales (simp_all add: addReservation_ok addReservation_err)

text \<open>
  Settling one reservation: the bucket trades the reserved amount for the actual cost. The
  step fails without touching a balance, and overflow is only possible when the actual cost
  exceeds the reserved amount.
\<close>

lemma reconcile_reservation_cases:
  assumes r: "MicroUSD_Valid (r_Amount r)" and a: "MicroUSD_Valid actual"
    and res: "reconcile_reservation actual s r = (s', e)"
  obtains
    (settled) "e = None" "\<And>b. bucket_value s' b = bucket_value s b + (if reservation_identity r = b then actual - r_Amount r else 0)"
      "r_Amount r \<le> bucket_value s (reservation_identity r)"
  | (invalid) "\<And>b. bucket_value s' b = bucket_value s b" "\<not> MicroUSD_Valid (bucket_value s (reservation_identity r))"
      "e = Some (Arithmetic MicroAddOverflow)"
  | (missing) "\<And>b. bucket_value s' b = bucket_value s b" "bucket_value s (reservation_identity r) < r_Amount r"
      "e = Some ErrStateUnavailable"
  | (overflow) "\<And>b. bucket_value s' b = bucket_value s b" "r_Amount r < actual" "e = Some (Arithmetic MicroAddOverflow)"
proof -
  let ?v = "bucket_value s (reservation_identity r)"
  obtain t f where t: "addReservation r 0 s = (t, f)" by (cases "addReservation r 0 s")
  show thesis
  proof (cases f)
    case (Some x)
    have "\<not> MicroUSD_Valid ?v" using t Some by (auto simp: addReservation_def Let_def micro_add_alt MicroUSD_Valid_def split: if_splits sum.splits)
    moreover have "x = Arithmetic MicroAddOverflow"
      using addReservation_error_kind t Some by (simp add: MicroUSD_Valid_def RedisSafeLimit_def)
    moreover have "s' = t" "e = Some x" using res t Some by (simp_all add: reconcile_reservation_def)
    ultimately show thesis using addReservation_err[of r 0 s t x] t Some by (intro invalid) auto
  next
    case None
    have tv: "bucket_value t b = bucket_value s b" for b using addReservation_ok[of r 0 s t b] t None by simp
    have valid: "MicroUSD_Valid ?v"
      using t None by (auto simp: addReservation_def Let_def micro_add_alt MicroUSD_Valid_def split: if_splits sum.splits)
    show thesis
    proof (cases "?v < r_Amount r")
      case True
      then show thesis using res t None tv by (intro missing) (auto simp: reconcile_reservation_def)
    next
      case False
      then have w: "wrap64 (?v - r_Amount r) = ?v - r_Amount r"
        using valid r by (intro wrap64_id) (auto simp: MicroUSD_Valid_def RedisSafeLimit_def int64_defs)
      let ?d = "?v - r_Amount r"
      have d: "MicroUSD_Valid ?d" using False valid r by (simp add: MicroUSD_Valid_def)
      have eq: "(s', e) = (case (if actual > 0 then MicroUSD_Add ?d actual else Inr ?d) of
          Inl x \<Rightarrow> (t, Some (Arithmetic x)) | Inr v \<Rightarrow> (put_bucket (reservation_key r) (r_Bucket r) v t, None))"
        using res t None False tv w by (simp add: reconcile_reservation_def Let_def)
      show thesis
      proof (cases "?d + actual \<le> RedisSafeLimit")
        case True
        then have "(if actual > 0 then MicroUSD_Add ?d actual else Inr ?d) = Inr (?d + actual)"
          using a d by (auto simp: micro_add_alt MicroUSD_Valid_def)
        then have e: "e = None" "s' = put_bucket (reservation_key r) (r_Bucket r) (?d + actual) t" using eq by simp_all
        show thesis by (rule settled) (use e tv False in auto)
      next
        case over: False
        then have less: "r_Amount r < actual" using valid by (simp add: MicroUSD_Valid_def)
        then have "(if actual > 0 then MicroUSD_Add ?d actual else Inr ?d) = Inl MicroAddOverflow"
          using over r by (simp add: micro_add_alt MicroUSD_Valid_def)
        then have e: "e = Some (Arithmetic MicroAddOverflow)" "s' = t" using eq by simp_all
        show thesis by (rule overflow) (use e tv less in auto)
      qed
    qed
  qed
qed

interpretation settlement: ledger bucket_value reservation_identity
  "\<lambda>r. MicroUSD_Valid (r_Amount r) \<and> MicroUSD_Valid actual"
  "reconcile_reservation actual" "\<lambda>r. actual - r_Amount r" for actual
proof unfold_locales
  fix r s s' b
  assume v: "MicroUSD_Valid (r_Amount r) \<and> MicroUSD_Valid actual" and ok: "reconcile_reservation actual s r = (s', None)"
  show "bucket_value s' b = bucket_value s b + (if reservation_identity r = b then actual - r_Amount r else 0)"
    by (rule reconcile_reservation_cases[OF conjunct1[OF v] conjunct2[OF v] ok]) simp_all
next
  fix s r s' e b
  assume e: "reconcile_reservation actual s r = (s', Some e)"
  obtain t f where t: "addReservation r 0 s = (t, f)" by (cases "addReservation r 0 s")
  have "s' = t" using e t
    by (auto simp: reconcile_reservation_def Let_def split: option.splits sum.splits if_splits)
  moreover have "bucket_value t b = bucket_value s b"
    using t addReservation_ok[of r 0 s t b] addReservation_err[of r 0 s t _ b] by (cases f) auto
  ultimately show "bucket_value s' b = bucket_value s b" by simp
qed

section \<open>What an operation charges\<close>

definition settled :: "operation \<Rightarrow> bool" where
  "settled oper \<longleftrightarrow> o_State oper = StateCompleted \<or> o_State oper = StateDefiniteFailed"

definition held :: "operation \<Rightarrow> window_reservation \<Rightarrow> int" where
  "held oper r = (if settled oper then o_FinalMicroUSD oper else r_Amount r)"

definition charge :: "string \<times> string \<times> int \<Rightarrow> operation \<Rightarrow> int" where
  "charge b oper = sum_list (map (held oper) (filter (\<lambda>r. reservation_identity r = b) (o_Reservations oper)))"

definition charges :: "admission_store \<Rightarrow> string \<times> string \<times> int \<Rightarrow> int" where
  "charges s b = msum (charge b) (s_operations s)"

definition operation_wf :: "operation \<Rightarrow> bool" where
  "operation_wf oper \<longleftrightarrow> distinct (map reservation_identity (o_Reservations oper))
     \<and> (\<exists>a. MicroUSD_Valid a \<and> (\<forall>r \<in> set (o_Reservations oper). r_Amount r = a))
     \<and> (\<forall>r \<in> set (o_Reservations oper). 0 < r_BucketNanos r \<and> 0 < r_DurationNanos r)
     \<and> MicroUSD_Valid (o_ReservedMicroUSD oper) \<and> MicroUSD_Valid (o_FinalMicroUSD oper)
     \<and> o_State oper \<in> {StateReserved, StateDispatching, StateProviderPending, StateCompleted, StateDefiniteFailed, StateAmbiguous}"

definition store_wf :: "admission_store \<Rightarrow> bool" where
  "store_wf s \<longleftrightarrow> mwf (s_operations s) \<and> mwf (s_buckets s) \<and> mwf (s_geometry s)
     \<and> (\<forall>(key, buckets) \<in> set (s_buckets s). mwf buckets)
     \<and> (\<forall>(key, geometry) \<in> set (s_geometry s). 0 < g_bucketNanos geometry \<and> 0 < g_durationNanos geometry)
     \<and> (\<forall>(oid, oper) \<in> set (s_operations s). o_ID oper = oid \<and> operation_wf oper)"

definition store_inv :: "admission_store \<Rightarrow> bool" where
  "store_inv s \<longleftrightarrow> store_wf s \<and> (\<forall>b. MicroUSD_Valid (bucket_value s b) \<and> charges s b \<le> bucket_value s b)"

lemma held_nonneg: "operation_wf oper \<Longrightarrow> r \<in> set (o_Reservations oper) \<Longrightarrow> 0 \<le> held oper r"
  by (auto simp: operation_wf_def held_def MicroUSD_Valid_def)

lemma charge_nonneg: "operation_wf oper \<Longrightarrow> 0 \<le> charge b oper"
  by (auto simp: charge_def intro!: sum_list_nonneg held_nonneg)

lemma charge_unsettled:
  "\<not> settled oper \<Longrightarrow>
     charge b oper = sum_list (map r_Amount (filter (\<lambda>r. reservation_identity r = b) (o_Reservations oper)))"
  by (simp add: charge_def held_def[abs_def])

lemma charge_settled:
  "settled oper \<Longrightarrow> charge b oper =
     sum_list (map (\<lambda>r. o_FinalMicroUSD oper) (filter (\<lambda>r. reservation_identity r = b) (o_Reservations oper)))"
  by (simp add: charge_def held_def[abs_def])

lemma store_wf_operation:
  "store_wf s \<Longrightarrow> mget (s_operations s) oid = Some oper \<Longrightarrow> o_ID oper = oid \<and> operation_wf oper"
  by (auto simp: store_wf_def dest!: map_of_SomeD)

lemma store_inv_empty: "store_inv NewAdmissionStore"
  by (auto simp: store_inv_def store_wf_def NewAdmissionStore_def bucket_value_def charges_def MicroUSD_Valid_def RedisSafeLimit_def)

text \<open>A retained operation finds its own reservation in the bucket.\<close>

lemma charge_own:
  assumes "operation_wf oper" and "r \<in> set (o_Reservations oper)"
  shows "charge (reservation_identity r) oper = held oper r"
  using assms filter_key_unique[of reservation_identity "o_Reservations oper" r]
  by (simp add: charge_def operation_wf_def)

lemma store_invD:
  assumes "store_inv s"
  shows "store_wf s" and "MicroUSD_Valid (bucket_value s b)" and "charges s b \<le> bucket_value s b"
  using assms by (simp_all add: store_inv_def del: split_paired_All)

lemma store_invI [wf_intros]:
  assumes "store_wf s" and "\<And>b. MicroUSD_Valid (bucket_value s b)" and "\<And>b. charges s b \<le> bucket_value s b"
  shows "store_inv s"
  using assms by (simp add: store_inv_def del: split_paired_All)

lemma store_wf_charge_nonneg: "store_wf s \<Longrightarrow> oper \<in> snd ` set (s_operations s) \<Longrightarrow> 0 \<le> charge b oper"
  by (auto 0 3 simp: store_wf_def intro: charge_nonneg)

lemma charge_le_bucket:
  assumes "store_inv s" and "mget (s_operations s) oid = Some oper"
  shows "charge b oper \<le> bucket_value s b"
proof -
  have "charge b oper \<le> charges s b"
    unfolding charges_def by (rule msum_member_le[OF assms(2)]) (rule store_wf_charge_nonneg[OF store_invD(1)[OF assms(1)]])
  with store_invD(3)[OF assms(1), of b] show ?thesis by simp
qed

section \<open>Booking and settling keep the invariant\<close>

text \<open>Everything of \<open>store_inv\<close> that does not depend on the charges.\<close>

definition ledger_wf :: "admission_store \<Rightarrow> bool" where
  "ledger_wf s \<longleftrightarrow> store_wf s \<and> (\<forall>b. MicroUSD_Valid (bucket_value s b))"

lemma store_inv_ledger: "store_inv s \<Longrightarrow> ledger_wf s"
  by (simp add: ledger_wf_def store_inv_def del: split_paired_All)

lemma ledger_wfD: "ledger_wf s \<Longrightarrow> store_wf s" "ledger_wf s \<Longrightarrow> MicroUSD_Valid (bucket_value s b)"
  by (simp_all add: ledger_wf_def del: split_paired_All)

lemma set_mput: "x \<in> set (mput k v m) \<Longrightarrow> x = (k, v) \<or> x \<in> set m"
  by (induction m) (auto split: if_splits)

lemma mwf_mgetd: "\<forall>(k, b) \<in> set m. mwf b \<Longrightarrow> mwf (mgetd [] m k)"
  by (auto simp: mgetd_def split: option.splits dest: map_of_SomeD)

lemma store_wf_record_geometry:
  assumes "store_wf s"
  shows "store_wf (record_geometry r s)"
proof -
  let ?g = "mgetd zero_geometry (s_geometry s) (reservation_key r)"
  have "?g = zero_geometry \<or> (0 < g_bucketNanos ?g \<and> 0 < g_durationNanos ?g)"
    using assms by (auto simp: store_wf_def mgetd_def split: option.splits dest!: map_of_SomeD)
  then show ?thesis
    using assms by (auto simp: store_wf_def record_geometry_def Let_def zero_geometry_def dest!: set_mput)
qed

lemma store_wf_buckets:
  assumes "store_wf s" and "mwf buckets"
  shows "store_wf (s\<lparr>s_buckets := mput key buckets (s_buckets s)\<rparr>)"
  using assms by (auto simp: store_wf_def dest!: set_mput)

lemma store_wf_bucket_updates:
  assumes "store_wf s"
  shows "store_wf (ensure_bucket_map key s)" and "store_wf (put_bucket key i v s)"
proof -
  show "store_wf (ensure_bucket_map key s)"
    using store_wf_buckets[OF assms, of "[]"] assms by (simp add: ensure_bucket_map_def)
  have "mwf (mgetd [] (s_buckets s) key)" using assms by (intro mwf_mgetd) (simp add: store_wf_def)
  then show "store_wf (put_bucket key i v s)"
    unfolding put_bucket_def by (intro store_wf_buckets[OF assms] mwf_mput)
qed

lemma ledger_wf_addReservation:
  assumes "ledger_wf s"
  shows "ledger_wf (fst (addReservation r a s))"
proof -
  let ?t = "ensure_bucket_map (reservation_key r) (record_geometry r s)"
  have w: "store_wf ?t"
    using ledger_wfD(1)[OF assms] by (intro store_wf_bucket_updates store_wf_record_geometry)
  have v: "MicroUSD_Valid (bucket_value s b)" for b by (rule ledger_wfD(2)[OF assms])
  show ?thesis
  proof (cases "a < 0 \<or> \<not> MicroUSD_Valid a")
    case True
    then show ?thesis using assms by (simp add: addReservation_def)
  next
    case False
    let ?n = "MicroUSD_Add (bucket_value s (reservation_identity r)) a"
    show ?thesis
    proof (cases ?n)
      case (Inl e)
      then show ?thesis using False w v by (simp add: addReservation_def Let_def ledger_wf_def del: split_paired_All)
    next
      case (Inr n)
      then have "MicroUSD_Valid n" by (auto simp: micro_add_alt MicroUSD_Valid_def split: if_splits)
      moreover have "store_wf (put_bucket (reservation_key r) (r_Bucket r) n ?t)" by (rule store_wf_bucket_updates(2)[OF w])
      ultimately show ?thesis using Inr False v by (simp add: addReservation_def Let_def ledger_wf_def del: split_paired_All)
    qed
  qed
qed

lemma ledger_wf_reconcile_reservation:
  assumes "ledger_wf s" and "MicroUSD_Valid (r_Amount r)" and "MicroUSD_Valid actual"
  shows "ledger_wf (fst (reconcile_reservation actual s r))"
proof -
  obtain t e where t: "addReservation r 0 s = (t, e)" by (cases "addReservation r 0 s")
  have lt: "ledger_wf t" using ledger_wf_addReservation[OF assms(1), of r 0] t by simp
  let ?c = "bucket_value t (reservation_identity r)"
  have c: "wrap64 (?c - r_Amount r) = ?c - r_Amount r"
    using ledger_wfD(2)[OF lt, of "reservation_identity r"] assms(2)
    by (intro wrap64_id) (auto simp: MicroUSD_Valid_def RedisSafeLimit_def int64_defs)
  have put: "ledger_wf (put_bucket (reservation_key r) (r_Bucket r) n t)" if "MicroUSD_Valid n" for n
    using that store_wf_bucket_updates(2)[OF ledger_wfD(1)[OF lt]] ledger_wfD(2)[OF lt]
    by (simp add: ledger_wf_def del: split_paired_All)
  have ok: "MicroUSD_Valid n"
    if "(if actual > 0 then MicroUSD_Add (?c - r_Amount r) actual else Inr (?c - r_Amount r)) = Inr n" "r_Amount r \<le> ?c" for n
    using that ledger_wfD(2)[OF lt, of "reservation_identity r"] assms(2)
    by (auto simp: micro_add_alt MicroUSD_Valid_def split: if_splits)
  show ?thesis
    using t lt put ok c by (simp add: reconcile_reservation_def Let_def del: if_split split: option.split sum.split if_split_asm)
qed

lemma ledger_wf_addReservations: "ledger_wf s \<Longrightarrow> ledger_wf (fst (addReservations rs s))"
  unfolding addReservations_def
  by (rule loopE_invariant[where P = ledger_wf]) (simp_all add: ledger_wf_addReservation)

lemma ledger_wf_reconcile:
  assumes "ledger_wf s" and "\<forall>r \<in> set rs. MicroUSD_Valid (r_Amount r)"
  shows "ledger_wf (fst (reconcile rs actual s))"
proof (cases "MicroUSD_Valid actual")
  case True
  then have "ledger_wf (fst (loopE (reconcile_reservation actual) s rs))"
    using assms by (intro loopE_invariant[where P = ledger_wf]) (simp_all add: ledger_wf_reconcile_reservation)
  then show ?thesis using assms(1) by (simp add: reconcile_def)
next
  case False
  then show ?thesis using assms(1) by (simp add: reconcile_def)
qed

text \<open>
  The balances that booking a vector leaves behind: on success every named bucket grows by
  the amount, on an error no bucket has shrunk.
\<close>

lemma addReservations_ok:
  "addReservations rs s = (s', None) \<Longrightarrow>
     bucket_value s' b = bucket_value s b + sum_list (map r_Amount (filter (\<lambda>r. reservation_identity r = b) rs))"
  unfolding addReservations_def by (rule booking.vector_ok) simp_all

lemma addReservations_mono:
  "\<forall>r \<in> set rs. MicroUSD_Valid (r_Amount r) \<Longrightarrow> bucket_value s b \<le> bucket_value (fst (addReservations rs s)) b"
  unfolding addReservations_def by (rule booking.vector_mono) (simp add: MicroUSD_Valid_def)

lemma addReservations_error:
  assumes "addReservations rs s = (s', Some e)" and "\<forall>r \<in> set rs. MicroUSD_Valid (r_Amount r)"
  shows "e = Arithmetic MicroAddOverflow"
  using assms unfolding addReservations_def
proof (induction rs arbitrary: s)
  case Nil
  then show ?case by simp
next
  case (Cons r rs)
  obtain u f where u: "addReservation r (r_Amount r) s = (u, f)" by (cases "addReservation r (r_Amount r) s")
  show ?case
  proof (cases f)
    case None
    then show ?thesis using Cons.IH[of u] Cons.prems u by simp
  next
    case (Some x)
    then show ?thesis using addReservation_error_kind[of r "r_Amount r" s u x] Cons.prems u by simp
  qed
qed

lemma reconcile_loop_error:
  assumes "loopE (reconcile_reservation actual) s rs = (s', Some e)"
    and "MicroUSD_Valid actual" and "MicroUSD_Valid a" and "ledger_wf s"
    and "distinct (map reservation_identity rs)"
    and "\<forall>r \<in> set rs. r_Amount r = a \<and> a \<le> bucket_value s (reservation_identity r)"
  shows "e = Arithmetic MicroAddOverflow \<and> a < actual"
  using assms
proof (induction rs arbitrary: s)
  case Nil
  then show ?case by simp
next
  case (Cons r rs)
  obtain u f where u: "reconcile_reservation actual s r = (u, f)" by (cases "reconcile_reservation actual s r")
  have ra: "r_Amount r = a" "a \<le> bucket_value s (reservation_identity r)" using Cons.prems(6) by simp_all
  have va: "MicroUSD_Valid (r_Amount r)" using ra Cons.prems(3) by simp
  show ?case
  proof (rule reconcile_reservation_cases[OF va Cons.prems(2) u])
    assume f: "f = None"
      and v: "\<And>b. bucket_value u b = bucket_value s b + (if reservation_identity r = b then actual - r_Amount r else 0)"
    have "ledger_wf u" using ledger_wf_reconcile_reservation[OF Cons.prems(4) va Cons.prems(2)] u by simp
    moreover have "\<forall>r' \<in> set rs. r_Amount r' = a \<and> a \<le> bucket_value u (reservation_identity r')"
    proof
      fix r' assume r': "r' \<in> set rs"
      then have "reservation_identity r \<noteq> reservation_identity r'" using Cons.prems(5) by (auto simp: image_iff)
      then show "r_Amount r' = a \<and> a \<le> bucket_value u (reservation_identity r')"
        using v[of "reservation_identity r'"] Cons.prems(6) r' by simp
    qed
    ultimately show ?thesis
      using Cons.IH[of u] Cons.prems(1,2,3,5) u f by simp
  qed (use Cons.prems(1) ra u ledger_wfD(2)[OF Cons.prems(4), of "reservation_identity r"] in auto)
qed

lemma reconcile_reservation_succeeds:
  assumes "ledger_wf u" and "MicroUSD_Valid (r_Amount r)" and "r_Amount r \<le> bucket_value u (reservation_identity r)"
    and "bucket_value u (reservation_identity r) - r_Amount r + actual \<le> RedisSafeLimit" and "MicroUSD_Valid actual"
  shows "snd (reconcile_reservation actual u r) = None"
proof -
  let ?c = "bucket_value u (reservation_identity r)"
  have c: "MicroUSD_Valid ?c" by (rule ledger_wfD(2)[OF assms(1)])
  obtain t e where t: "addReservation r 0 u = (t, e)" by (cases "addReservation r 0 u")
  have e: "e = None" using t c by (auto simp: addReservation_def Let_def micro_add_alt MicroUSD_Valid_def split: if_splits)
  have tc: "bucket_value t (reservation_identity r) = ?c" using addReservation_ok[of r 0 u t] t e by simp
  have w: "wrap64 (?c - r_Amount r) = ?c - r_Amount r"
    using c assms(2) by (intro wrap64_id) (auto simp: MicroUSD_Valid_def RedisSafeLimit_def int64_defs)
  have add: "(if actual > 0 then MicroUSD_Add (?c - r_Amount r) actual else Inr (?c - r_Amount r)) = Inr (?c - r_Amount r + actual)"
    using assms c by (auto simp: micro_add_alt MicroUSD_Valid_def)
  show ?thesis using t e tc w add assms(3) by (simp add: reconcile_reservation_def Let_def)
qed

lemma unsettled_amount:
  assumes "operation_wf oper"
  obtains a where "MicroUSD_Valid a" "\<forall>r \<in> set (o_Reservations oper). r_Amount r = a"
  using assms unfolding operation_wf_def by blast

text \<open>
  Settling an operation that is not settled yet: it finds its reservations in the buckets,
  so the only failure is the overflow of a bucket, and then no bucket has shrunk.
\<close>

lemma reconcile_unsettled:
  assumes inv: "store_inv s" and oper: "mget (s_operations s) oid = Some oper" and live: "\<not> settled oper"
    and rec: "reconcile (o_Reservations oper) actual s = (s', e)"
  shows "e = None \<Longrightarrow> MicroUSD_Valid actual \<and> (\<forall>b. bucket_value s' b = bucket_value s b - charge b oper
            + sum_list (map (\<lambda>r. actual) (filter (\<lambda>r. reservation_identity r = b) (o_Reservations oper))))"
    and "e \<noteq> None \<Longrightarrow> bucket_value s b \<le> bucket_value s' b"
    and "e \<noteq> None \<Longrightarrow> e = Some BadReconciliation \<and> \<not> MicroUSD_Valid actual
            \<or> e = Some (Arithmetic MicroAddOverflow) \<and> MicroUSD_Valid actual"
proof -
  have wf: "operation_wf oper" using store_wf_operation[OF store_invD(1)[OF inv] oper] by simp
  obtain a where a: "MicroUSD_Valid a" "\<forall>r \<in> set (o_Reservations oper). r_Amount r = a"
    using unsettled_amount[OF wf] by blast
  have "a \<le> bucket_value s (reservation_identity r)" if "r \<in> set (o_Reservations oper)" for r
    using charge_le_bucket[OF inv oper, of "reservation_identity r"] charge_own[OF wf that] live a(2) that
    by (simp add: held_def)
  then have own: "\<forall>r \<in> set (o_Reservations oper). r_Amount r = a \<and> a \<le> bucket_value s (reservation_identity r)"
    using a(2) by blast
  have dist: "distinct (map reservation_identity (o_Reservations oper))" using wf by (simp add: operation_wf_def)
  have loop: "loopE (reconcile_reservation actual) s (o_Reservations oper) = (s', e)" if "MicroUSD_Valid actual"
    using rec that by (simp add: reconcile_def MicroUSD_Valid_def)
  have good: "\<forall>r \<in> set (o_Reservations oper). MicroUSD_Valid (r_Amount r) \<and> MicroUSD_Valid actual" if "MicroUSD_Valid actual"
    using a that by simp
  have bad: "s' = s \<and> e = Some BadReconciliation" if "\<not> MicroUSD_Valid actual" using rec that by (simp add: reconcile_def)
  show "MicroUSD_Valid actual \<and> (\<forall>b. bucket_value s' b = bucket_value s b - charge b oper
            + sum_list (map (\<lambda>r. actual) (filter (\<lambda>r. reservation_identity r = b) (o_Reservations oper))))" if "e = None"
  proof -
    have v: "MicroUSD_Valid actual" using bad that by auto
    have "bucket_value s' b = bucket_value s b
        + sum_list (map (\<lambda>r. actual - r_Amount r) (filter (\<lambda>r. reservation_identity r = b) (o_Reservations oper)))" for b
      using settlement.vector_ok[OF loop[OF v, unfolded that] good[OF v]] .
    then show ?thesis using v live by (simp add: charge_unsettled sum_list_subtractf del: split_paired_All)
  qed
  have err: "e = Some (Arithmetic MicroAddOverflow) \<and> a < actual" if "e \<noteq> None" "MicroUSD_Valid actual"
    using that reconcile_loop_error[OF _ that(2) a(1) store_inv_ledger[OF inv] dist own] loop by (cases e) auto
  show "bucket_value s b \<le> bucket_value s' b" if "e \<noteq> None"
  proof (cases "MicroUSD_Valid actual")
    case True
    have "\<forall>r \<in> set (o_Reservations oper). (MicroUSD_Valid (r_Amount r) \<and> MicroUSD_Valid actual) \<and> 0 \<le> actual - r_Amount r"
      using err[OF that True] good[OF True] a(2) by simp
    then show ?thesis using settlement.vector_mono loop[OF True] by (metis fst_conv)
  next
    case False
    then show ?thesis using bad by simp
  qed
  show "e = Some BadReconciliation \<and> \<not> MicroUSD_Valid actual
      \<or> e = Some (Arithmetic MicroAddOverflow) \<and> MicroUSD_Valid actual" if "e \<noteq> None"
    using err[OF that] bad by blast
qed

end
