(* ===== verification/Admission_Steps.thy ===== *)
theory Admission_Steps
  imports Admission_Ledger
begin

text \<open>
  The methods of the memory admission store as steps: each keeps \<open>store_inv\<close>, so it holds in
  every reachable state.
\<close>

section \<open>Storing an operation\<close>

lemma store_wf_put_operation:
  "store_wf s \<Longrightarrow> operation_wf oper \<Longrightarrow> store_wf (put_operation oper s)"
  by (auto simp: store_wf_def put_operation_def dest!: set_mput)

lemma charges_put_operation:
  "store_wf s \<Longrightarrow> charges (put_operation oper s) b =
     charges s b - osum (charge b) (mget (s_operations s) (o_ID oper)) + charge b oper"
  by (simp add: charges_def put_operation_def msum_mput store_wf_def)

lemma put_operation_inv_ops:
  assumes inv: "store_inv s" and same: "s_operations t = s_operations s" and led: "ledger_wf t" and wf: "operation_wf oper"
    and grow: "\<And>b. bucket_value s b - osum (charge b) (mget (s_operations s) (o_ID oper)) + charge b oper \<le> bucket_value t b"
  shows "store_inv (put_operation oper t)"
proof (rule store_invI)
  show "store_wf (put_operation oper t)" using store_wf_put_operation ledger_wfD(1)[OF led] wf by blast
  fix b
  show "MicroUSD_Valid (bucket_value (put_operation oper t) b)" using ledger_wfD(2)[OF led] by simp
  have "charges t b = charges s b" using same by (simp add: charges_def)
  then show "charges (put_operation oper t) b \<le> bucket_value (put_operation oper t) b"
    using charges_put_operation[OF ledger_wfD(1)[OF led]] same store_invD(3)[OF inv, of b] grow[of b] by simp
qed

lemma put_operation_inv:
  assumes "store_inv s" and "same_operations s t" and "ledger_wf t" and "operation_wf oper"
    and "\<And>b. bucket_value s b - osum (charge b) (mget (s_operations s) (o_ID oper)) + charge b oper \<le> bucket_value t b"
  shows "store_inv (put_operation oper t)"
  using assms by (intro put_operation_inv_ops[of s t oper]) (simp_all add: same_operations_def)

lemma inv_grow:
  assumes inv: "store_inv s" and same: "same_operations s t" and led: "ledger_wf t"
    and grow: "\<And>b. bucket_value s b \<le> bucket_value t b"
  shows "store_inv t"
proof (rule store_invI)
  show "store_wf t" by (rule ledger_wfD(1)[OF led])
  fix b
  show "MicroUSD_Valid (bucket_value t b)" by (rule ledger_wfD(2)[OF led])
  have "charges t b = charges s b" using same by (simp add: charges_def same_operations_def)
  then show "charges t b \<le> bucket_value t b" using store_invD(3)[OF inv, of b] grow[of b] by simp
qed

text \<open>An operation that keeps its reservations and what it holds keeps its charge.\<close>

lemma charge_cong:
  "o_Reservations oper' = o_Reservations oper \<Longrightarrow> settled oper' = settled oper \<Longrightarrow>
     (settled oper \<Longrightarrow> o_FinalMicroUSD oper' = o_FinalMicroUSD oper) \<Longrightarrow> charge b oper' = charge b oper"
  by (cases "settled oper") (simp_all add: charge_settled charge_unsettled)

lemma put_same_charge:
  assumes inv: "store_inv s" and oper: "mget (s_operations s) oid = Some oper" and live: "\<not> settled oper"
    and same: "o_ID oper' = o_ID oper" "o_Reservations oper' = o_Reservations oper" "\<not> settled oper'"
    and wf: "operation_wf oper'"
  shows "store_inv (put_operation oper' s)"
proof (rule put_operation_inv[OF inv _ _ wf])
  have "o_ID oper = oid" using store_wf_operation[OF store_invD(1)[OF inv] oper] by simp
  then show "bucket_value s b - osum (charge b) (mget (s_operations s) (o_ID oper')) + charge b oper' \<le> bucket_value s b" for b
    using oper same live by (simp add: charge_unsettled)
qed (use store_inv_ledger[OF inv] in simp_all)

text \<open>Settling: the operation's charge becomes the settled cost in every window it reserved.\<close>

lemma settle_inv:
  assumes inv: "store_inv s" and oper: "mget (s_operations s) oid = Some oper" and live: "\<not> settled oper"
    and rec: "reconcile (o_Reservations oper) actual s = (t, None)"
    and same: "o_ID oper' = o_ID oper" "o_Reservations oper' = o_Reservations oper"
    and settled: "settled oper'" "o_FinalMicroUSD oper' = actual"
    and wf: "operation_wf oper'"
  shows "store_inv (put_operation oper' t)"
proof (rule put_operation_inv[OF inv _ _ wf])
  have valid: "\<forall>r \<in> set (o_Reservations oper). MicroUSD_Valid (r_Amount r)"
    using store_wf_operation[OF store_invD(1)[OF inv] oper] by (auto simp: operation_wf_def)
  show "same_operations s t" using vector_frames(2)[of s "o_Reservations oper" actual] rec by simp
  show "ledger_wf t" using ledger_wf_reconcile[OF store_inv_ledger[OF inv] valid, of actual] rec by simp
  fix b
  have "o_ID oper = oid" using store_wf_operation[OF store_invD(1)[OF inv] oper] by simp
  then show "bucket_value s b - osum (charge b) (mget (s_operations s) (o_ID oper')) + charge b oper' \<le> bucket_value t b"
    using reconcile_unsettled(1)[OF inv oper live rec] oper same settled by (simp add: charge_settled del: split_paired_All)
qed

lemma reconcile_error_inv:
  assumes inv: "store_inv s" and oper: "mget (s_operations s) oid = Some oper" and live: "\<not> settled oper"
    and rec: "reconcile (o_Reservations oper) actual s = (t, Some e)"
  shows "store_inv t"
proof (rule inv_grow[OF inv])
  have valid: "\<forall>r \<in> set (o_Reservations oper). MicroUSD_Valid (r_Amount r)"
    using store_wf_operation[OF store_invD(1)[OF inv] oper] by (auto simp: operation_wf_def)
  show "same_operations s t" using vector_frames(2)[of s "o_Reservations oper" actual] rec by simp
  show "ledger_wf t" using ledger_wf_reconcile[OF store_inv_ledger[OF inv] valid, of actual] rec by simp
  show "bucket_value s b \<le> bucket_value t b" for b using reconcile_unsettled(2)[OF inv oper live rec] by simp
qed

section \<open>Methods that hold a token\<close>

lemma with_token_inv:
  assumes "store_inv s"
    and "\<And>oper. mget (s_operations s) oid = Some oper \<Longrightarrow> o_DispatchToken oper = token \<Longrightarrow> o_ID oper = oid \<Longrightarrow>
           operation_wf oper \<Longrightarrow> store_inv (fst (body oper))"
  shows "store_inv (fst (with_token ctx oid token s body))"
  using assms store_wf_operation[OF store_invD(1)[OF assms(1)]]
  by (auto simp: with_token_def loadToken_def split: option.splits if_splits)

lemma store_inv_frame [simp]:
  "store_inv (s\<lparr>s_providerIDs := p, s_pollAfter := q\<rparr>) = store_inv s"
  "store_inv (s\<lparr>s_byScope := sc\<rparr>) = store_inv s"
  "store_inv (s\<lparr>s_reopens := n\<rparr>) = store_inv s"
  by (simp_all add: store_inv_def store_wf_def charges_def bucket_value_def)

lemma MarkDispatching_inv:
  assumes "store_inv s"
  shows "store_inv (fst (MarkDispatching ctx clk q s))"
  unfolding MarkDispatching_def
proof (rule with_token_inv[OF assms])
  fix oper assume o: "mget (s_operations s) (dr_OperationID q) = Some oper" "operation_wf oper"
  show "store_inv (fst (if o_State oper \<noteq> StateReserved
       then (if Terminal (o_State oper) then (s, Inr ()) else (s, Inl ErrInvalidTransition))
       else (put_operation (oper\<lparr>o_State := StateDispatching,
               o_Attempt := (dr_Attempt q)\<lparr>a_AttemptNumber := wrap64 (a_AttemptNumber (dr_Attempt q) + 1)\<rparr>,
               o_LeaseUntil := dr_LeaseUntil q, o_UpdatedAt := clk 0\<rparr>) s, Inr ())))"
    using put_same_charge[OF assms o(1)] o(2) assms by (simp add: settled_def operation_wf_def)
qed

lemma MarkProviderPending_inv:
  assumes "store_inv s"
  shows "store_inv (fst (MarkProviderPending ctx clk q s))"
proof -
  have "store_inv (put_operation (oper\<lparr>o_State := StateProviderPending, o_Attempt := a, o_UpdatedAt := u\<rparr>) s)"
    if "mget (s_operations s) (pp_OperationID q) = Some oper" "operation_wf oper" "o_State oper = StateDispatching" for oper a u
    using put_same_charge[OF assms that(1)] that(2,3) by (simp add: settled_def operation_wf_def)
  then show ?thesis
    unfolding MarkProviderPending_def using assms
    by (auto intro!: with_token_inv simp: Let_def split: option.split)
qed

lemma Complete_inv:
  assumes "store_inv s"
  shows "store_inv (fst (Complete ctx clk q s))"
  unfolding Complete_def
proof (rule with_token_inv[OF assms])
  fix oper assume o: "mget (s_operations s) (cp_OperationID q) = Some oper" "operation_wf oper"
  obtain t e where t: "reconcile (o_Reservations oper) (cp_Actual q) s = (t, e)"
    by (cases "reconcile (o_Reservations oper) (cp_Actual q) s")
  let ?c = "completed_operation (clk 0) q oper"
  have "store_inv (put_operation ?c t)" if "e = None" "\<not> settled oper" "MicroUSD_Valid (cp_Actual q)"
    by (rule settle_inv[OF assms o(1) that(2) t[unfolded that(1)]])
      (use o(2) that(3) in \<open>simp_all add: completed_operation_def Let_def settled_def operation_wf_def MicroUSD_Valid_def RedisSafeLimit_def\<close>)
  moreover have "store_inv t" if "e = Some x" "\<not> settled oper" for x
    using reconcile_error_inv[OF assms o(1) that(2)] t that(1) by simp
  ultimately show "store_inv (fst (if o_State oper = StateCompleted then (s, Inr ())
       else if o_State oper \<noteq> StateDispatching \<and> o_State oper \<noteq> StateProviderPending then (s, Inl ErrInvalidTransition)
       else if cp_Actual q < 0 \<or> \<not> MicroUSD_Valid (cp_Actual q) then (s, Inl BadActual)
       else case reconcile (o_Reservations oper) (cp_Actual q) s of
              (s1, Some e) \<Rightarrow> (s1, Inl e)
            | (s1, None) \<Rightarrow> (put_operation (completed_operation (clk 0) q oper) s1, Inr ())))"
    using assms t by (auto simp: settled_def split: option.split)
qed

lemma ValidateOutcome_None: "ValidateOutcome c i = None \<Longrightarrow> MicroUSD_Valid i"
  by (auto simp: ValidateOutcome_def split: if_splits)

lemma Fail_inv:
  assumes "store_inv s"
  shows "store_inv (fst (Fail ctx clk q s))"
proof -
  have "store_inv (fst (if Terminal (o_State oper) then (s, Inr ())
       else case ValidateOutcome (f_Certainty q) (f_Incurred q) of
              Some e \<Rightarrow> (s, Inl e)
            | None \<Rightarrow>
                let settle = (\<lambda>oper. oper\<lparr>o_Attempt := (f_Attempt q)\<lparr>a_Dispatch := f_Certainty q\<rparr>, o_UpdatedAt := clk 0\<rparr>)
                in if f_Certainty q = Accepted \<or> f_Certainty q = Ambiguous
                   then (put_operation (settle (retained_operation q oper)) s, Inr ())
                   else case reconcile (o_Reservations oper) (f_Incurred q) s of
                          (s1, Some e) \<Rightarrow> (s1, Inl e)
                        | (s1, None) \<Rightarrow> (put_operation (settle (released_operation q oper)) s1, Inr ())))"
    if o: "mget (s_operations s) (f_OperationID q) = Some oper" "operation_wf oper" for oper
  proof (cases "Terminal (o_State oper) \<or> ValidateOutcome (f_Certainty q) (f_Incurred q) \<noteq> None")
    case True
    then show ?thesis using assms by (auto split: option.split)
  next
    case False
    let ?settle = "\<lambda>oper. oper\<lparr>o_Attempt := (f_Attempt q)\<lparr>a_Dispatch := f_Certainty q\<rparr>, o_UpdatedAt := clk 0\<rparr>"
    have live: "\<not> settled oper" and valid: "MicroUSD_Valid (f_Incurred q)"
      using False ValidateOutcome_None by (auto simp: settled_def Terminal_def)
    obtain t e where t: "reconcile (o_Reservations oper) (f_Incurred q) s = (t, e)"
      by (cases "reconcile (o_Reservations oper) (f_Incurred q) s")
    have retain: "store_inv (put_operation (?settle (retained_operation q oper)) s)"
      by (rule put_same_charge[OF assms o(1) live])
        (use o(2) in \<open>simp_all add: retained_operation_def Let_def settled_def operation_wf_def\<close>)
    have release: "store_inv (put_operation (?settle (released_operation q oper)) t)" if "e = None"
      by (rule settle_inv[OF assms o(1) live t[unfolded that]])
        (use o(2) valid in \<open>simp_all add: released_operation_def Let_def settled_def operation_wf_def MicroUSD_Valid_def RedisSafeLimit_def\<close>)
    have err: "store_inv t" if "e = Some x" for x using reconcile_error_inv[OF assms o(1) live] t that by simp
    show ?thesis using False retain release err t by (auto simp: Let_def split: option.split)
  qed
  then show ?thesis unfolding Fail_def by (intro with_token_inv[OF assms]) simp
qed

section \<open>Fresh reservations\<close>

lemma checked_reservation:
  "check_reservation s t r = None \<Longrightarrow> 0 < r_BucketNanos r \<and> 0 < r_DurationNanos r \<and> 0 < r_Limit r"
  by (auto simp: check_reservation_def split: if_splits)

definition vector_wf :: "window_reservation list \<Rightarrow> bool" where
  "vector_wf rs \<longleftrightarrow> distinct (map reservation_identity rs)
     \<and> (\<exists>a. MicroUSD_Valid a \<and> (\<forall>r \<in> set rs. r_Amount r = a))
     \<and> (\<forall>r \<in> set rs. 0 < r_BucketNanos r \<and> 0 < r_DurationNanos r)"

lemma vector_wf_amounts: "vector_wf rs \<Longrightarrow> \<forall>r \<in> set rs. MicroUSD_Valid (r_Amount r)"
  by (auto simp: vector_wf_def)

lemma operation_wf_vector: "operation_wf oper \<Longrightarrow> vector_wf (o_Reservations oper)"
  by (simp add: operation_wf_def vector_wf_def)

lemma admitted_vector:
  assumes "ValidateExactUSDReservationEnvelope rs expected expectedUSD = None" and "checkReservations s rs t = None"
  shows "vector_wf rs" and "MicroUSD_Valid expected"
proof -
  note e = exact_envelope_None(1)[OF assms(1), unfolded envelope_None]
  show "MicroUSD_Valid expected" using e by simp
  have "\<forall>r \<in> set rs. check_reservation s t r = None" using assms(2) by (simp add: checkReservations_def firstErr_None_iff)
  then show "vector_wf rs" using e checked_reservation by (auto simp: vector_wf_def)
qed

text \<open>Continuing trades the settled attempt's reservations for fresh ones.\<close>

lemma continue_inv:
  assumes inv: "store_inv s" and oper: "mget (s_operations s) oid = Some oper" and live: "\<not> settled oper"
    and rec: "reconcile (o_Reservations oper) actual s = (t, None)"
    and vec: "vector_wf rs" and add: "addReservations rs t = (u, None)"
    and same: "o_ID oper' = o_ID oper" "o_Reservations oper' = rs" "\<not> settled oper'" and wf: "operation_wf oper'"
  shows "store_inv (put_operation oper' u)"
proof (rule put_operation_inv[OF inv _ _ wf])
  have valid: "\<forall>r \<in> set (o_Reservations oper). MicroUSD_Valid (r_Amount r)"
    using store_wf_operation[OF store_invD(1)[OF inv] oper] by (auto simp: operation_wf_def)
  have st: "same_operations s t" using vector_frames(2)[of s "o_Reservations oper" actual] rec by simp
  have tu: "same_operations t u" using vector_frames(1)[of t rs] add by simp
  show "same_operations s u" by (rule same_operations_trans[OF st tu])
  have "ledger_wf t" using ledger_wf_reconcile[OF store_inv_ledger[OF inv] valid, of actual] rec by simp
  then show "ledger_wf u" using ledger_wf_addReservations[of t rs] add by simp
  fix b
  have "o_ID oper = oid" using store_wf_operation[OF store_invD(1)[OF inv] oper] by simp
  moreover have "bucket_value t b = bucket_value s b - charge b oper
      + sum_list (map (\<lambda>r. actual) (filter (\<lambda>r. reservation_identity r = b) (o_Reservations oper)))" "0 \<le> actual"
    using reconcile_unsettled(1)[OF inv oper live rec] by (simp_all add: MicroUSD_Valid_def del: split_paired_All)
  moreover have "bucket_value u b = bucket_value t b + charge b oper'"
    using addReservations_ok[OF add, of b] same by (simp add: charge_unsettled)
  moreover have "0 \<le> sum_list (map (\<lambda>r. actual) (filter (\<lambda>r. reservation_identity r = b) (o_Reservations oper)))"
    using calculation(3) by (auto intro!: sum_list_nonneg)
  ultimately show "bucket_value s b - osum (charge b) (mget (s_operations s) (o_ID oper')) + charge b oper' \<le> bucket_value u b"
    using oper same by simp
qed

text \<open>
  \<^verbatim>\<open>Continue\<close> settles the old reservations before it books the new ones; when a booking
  overflows it returns with the operation unchanged, so that case is excluded here.
\<close>

lemma Continue_inv:
  assumes inv: "store_inv s" and ok: "snd (Continue ctx clk q s) \<noteq> Inl (Arithmetic MicroAddOverflow)"
  shows "store_inv (fst (Continue ctx clk q s))"
proof (cases "ctx = None \<and> ValidateExactUSDReservationEnvelope (cq_Reservations q) (cq_Remaining q) (cq_RemainingUSD q) = None")
  case False
  then show ?thesis using inv by (auto simp: Continue_def split: option.split)
next
  case env: True
  let ?i = "ao_Incurred (cq_Outcome q)"
  show ?thesis
  proof (cases "loadToken (cq_OperationID q) (cq_DispatchToken q) s")
    case (Inl e)
    then show ?thesis using env inv by (simp add: Continue_def with_token_def)
  next
    case (Inr oper)
    have o: "mget (s_operations s) (cq_OperationID q) = Some oper"
      using Inr by (auto simp: loadToken_def split: option.splits if_splits)
    have wf: "operation_wf oper" using store_wf_operation[OF store_invD(1)[OF inv] o] by simp
    note C = Continue_def with_token_def Let_def Inr env[THEN conjunct1] env[THEN conjunct2]
    show ?thesis
    proof (cases "o_State oper = StateDispatching \<and> \<not> (ao_Certainty (cq_Outcome q) = Accepted \<or> ao_Certainty (cq_Outcome q) = Ambiguous)")
      case False
      then show ?thesis using inv by (auto simp: C)
    next
      case st: True
      then have live: "\<not> settled oper" by (simp add: settled_def)
      obtain t e where t: "reconcile (o_Reservations oper) ?i s = (t, e)" by (cases "reconcile (o_Reservations oper) ?i s")
      show ?thesis
      proof (cases e)
        case (Some x)
        then show ?thesis using reconcile_error_inv[OF inv o live] t st by (simp add: C)
      next
        case None
        have vi: "MicroUSD_Valid ?i" using reconcile_unsettled(1)[OF inv o live t None] by simp
        have denied: "store_inv (put_operation (denied_operation (clk 1) q oper) t)"
          by (rule settle_inv[OF inv o live t[unfolded None]])
            (use wf vi in \<open>simp_all add: denied_operation_def settled_def operation_wf_def MicroUSD_Valid_def RedisSafeLimit_def\<close>)
        show ?thesis
        proof (cases "checkReservations t (cq_Reservations q) (clk 0)")
          case (Some d)
          then show ?thesis using denied t None st by (simp add: C)
        next
          case chk: None
          obtain u f where u: "addReservations (cq_Reservations q) t = (u, f)" by (cases "addReservations (cq_Reservations q) t")
          note vec = admitted_vector[OF env[THEN conjunct2] chk]
          have "f = None"
            using ok u t None chk st addReservations_error[OF _ vector_wf_amounts[OF vec(1)], of t] by (cases f) (simp_all add: C)
          moreover have "store_inv (put_operation (continued_operation (clk 1) q oper) u)" if "f = None"
            by (rule continue_inv[OF inv o live t[unfolded None] vec(1) u[unfolded that]])
              (use wf vec in \<open>simp_all add: continued_operation_def Let_def settled_def operation_wf_def vector_wf_def\<close>)
          ultimately show ?thesis using u t None chk st by (simp add: C)
        qed
      qed
    qed
  qed
qed

end
