(* ===== verification/Admission_Sweep.thy ===== *)
theory Admission_Sweep
  imports Admission_Steps
begin

text \<open>
  \<^verbatim>\<open>sweepLocked\<close>: the two passes of the retention sweep act entry by entry, the sweep keeps
  \<open>store_inv\<close>, never drops an operation that still owns a reservation, and is invisible to
  later admission checks.
\<close>

section \<open>The operation pass\<close>

definition swept_ids :: "gotime \<Rightarrow> (string \<times> operation) list \<Rightarrow> string set" where
  "swept_ids now es = {oid. \<exists>oper. (oid, oper) \<in> set es \<and> expired now oper}"

lemma mdel_filter: "mdel k m = filter (\<lambda>(k', v). k' \<noteq> k) m"
  by (induction m) auto

lemma fold_sweep_operation:
  "s_operations (fold (sweep_operation now) es s) = filter (\<lambda>(oid, oper). oid \<notin> swept_ids now es) (s_operations s)
   \<and> s_buckets (fold (sweep_operation now) es s) = s_buckets s
   \<and> s_geometry (fold (sweep_operation now) es s) = s_geometry s"
proof (induction es arbitrary: s)
  case Nil
  show ?case by (simp add: swept_ids_def case_prod_beta')
next
  case (Cons e es)
  obtain oid oper where e: "e = (oid, oper)" by (cases e)
  have ids: "swept_ids now (e # es) = (if expired now oper then insert oid (swept_ids now es) else swept_ids now es)"
    by (auto simp: swept_ids_def e)
  show ?case
    using Cons.IH[of "sweep_operation now e s"] ids
    by (auto simp: sweep_operation_def e mdel_filter intro!: filter_cong)
qed

lemma swept_operations:
  assumes "mwf (s_operations s)"
  shows "s_operations (fold (sweep_operation now) (s_operations s) s)
           = filter (\<lambda>(oid, oper). \<not> expired now oper) (s_operations s)"
proof -
  have "oid \<in> swept_ids now (s_operations s) \<longleftrightarrow> expired now oper" if "(oid, oper) \<in> set (s_operations s)" for oid oper
  proof -
    have "oper' = oper" if "(oid, oper') \<in> set (s_operations s)" for oper'
      using assms that \<open>(oid, oper) \<in> set (s_operations s)\<close> unfolding mwf_def by (rule eq_key_imp_eq_value)
    then show ?thesis using that unfolding swept_ids_def by blast
  qed
  then show ?thesis using fold_sweep_operation[of now "s_operations s" s] by (auto intro!: filter_cong)
qed

section \<open>The bucket pass\<close>

definition at_key :: "admission_store \<Rightarrow> budget_key \<Rightarrow> (int, int) gomap option \<times> bucket_geometry option" where
  "at_key s k = (mget (s_buckets s) k, mget (s_geometry s) k)"

definition sweep_at ::
  "gotime \<Rightarrow> (string \<times> string \<times> int) list \<Rightarrow> budget_key \<Rightarrow> (int, int) gomap option \<times> bucket_geometry option
     \<Rightarrow> (int, int) gomap option \<times> bucket_geometry option" where
  "sweep_at now used k bg = (case bg of
     (Some m, Some g) \<Rightarrow> if g_mixed g then bg
       else let kept = kept_buckets now used k g m in if kept = [] then (None, None) else (Some kept, Some g)
   | _ \<Rightarrow> bg)"

lemma sweep_key_at:
  "mget (s_buckets s) k = Some m \<Longrightarrow>
     at_key (sweep_key now used (k, m) s) k' = (if k' = k then sweep_at now used k (at_key s k) else at_key s k')"
  by (auto simp: at_key_def sweep_key_def sweep_at_def Let_def split: option.splits)

lemma fold_sweep_key:
  assumes "distinct (map fst es)" and "\<forall>(k, m) \<in> set es. mget (s_buckets s) k = Some m"
  shows "at_key (fold (sweep_key now used) es s) k
           = (if k \<in> fst ` set es then sweep_at now used k (at_key s k) else at_key s k)"
  using assms
proof (induction es arbitrary: s)
  case Nil
  then show ?case by simp
next
  case (Cons e es)
  obtain k0 m0 where e: "e = (k0, m0)" by (cases e)
  have m0: "mget (s_buckets s) k0 = Some m0" and new: "k0 \<notin> fst ` set es" using Cons.prems e by auto
  let ?t = "sweep_key now used (k0, m0) s"
  have t: "at_key ?t k' = (if k' = k0 then sweep_at now used k0 (at_key s k0) else at_key s k')" for k'
    by (rule sweep_key_at[OF m0])
  have "\<forall>(k, m) \<in> set es. mget (s_buckets ?t) k = Some m"
  proof (clarify)
    fix k m assume km: "(k, m) \<in> set es"
    then have "k \<noteq> k0" using new by force
    then have "mget (s_buckets ?t) k = mget (s_buckets s) k" using t[of k] by (simp add: at_key_def)
    then show "mget (s_buckets ?t) k = Some m" using Cons.prems(2) km by auto
  qed
  then have "at_key (fold (sweep_key now used) es ?t) k
      = (if k \<in> fst ` set es then sweep_at now used k (at_key ?t k) else at_key ?t k)"
    using Cons.IH[of ?t] Cons.prems(1) by simp
  then show ?case using t e new by auto
qed

lemma swept_at:
  assumes "store_wf s"
  shows "at_key (fold (sweep_key now used) (s_buckets s) s) k = sweep_at now used k (at_key s k)"
proof -
  have "distinct (map fst (s_buckets s))" using assms by (simp add: store_wf_def mwf_def)
  moreover from this have "\<forall>(k, m) \<in> set (s_buckets s). mget (s_buckets s) k = Some m" by auto
  moreover have "mget (s_buckets s) k = None" if "k \<notin> fst ` set (s_buckets s)"
    using that by (simp add: map_of_eq_None_iff)
  ultimately show ?thesis
    using fold_sweep_key[of "s_buckets s" s now used k] by (auto simp: sweep_at_def at_key_def)
qed

text \<open>A bucket survives unless it is unreferenced and left every window recorded for its key.\<close>

definition outdated :: "gotime \<Rightarrow> admission_store \<Rightarrow> string \<times> string \<times> int \<Rightarrow> bool" where
  "outdated now s b = (case b of (policy, window, i) \<Rightarrow>
     case mget (s_geometry s) (policy, window) of
       None \<Rightarrow> False
     | Some g \<Rightarrow> \<not> g_mixed g
         \<and> i < floorDiv (wrap64 (UnixNano now - g_durationNanos g)) (g_bucketNanos g))"

lemma bucket_value_at: "bucket_value s (p, w, i) = mgetd 0 (case fst (at_key s (p, w)) of None \<Rightarrow> [] | Some m \<Rightarrow> m) i"
  by (simp add: bucket_value_def at_key_def mgetd_def split: option.split)

lemma mget_kept:
  assumes "mwf m"
  shows "mget (kept_buckets now used k g m) i =
     (if i \<ge> floorDiv (wrap64 (UnixNano now - g_durationNanos g)) (g_bucketNanos g) \<or> (fst k, snd k, i) \<in> set used
      then mget m i else None)"
  using mget_filter[OF assms, of "\<lambda>i v. i \<ge> floorDiv (wrap64 (UnixNano now - g_durationNanos g)) (g_bucketNanos g)
      \<or> (fst k, snd k, i) \<in> set used" i]
  by (auto simp: kept_buckets_def Let_def split: option.split)

lemma swept_bucket_value:
  assumes "store_wf s"
  shows "bucket_value (fold (sweep_key now used) (s_buckets s) s) b
           = (if outdated now s b \<and> b \<notin> set used then 0 else bucket_value s b)"
proof -
  obtain p w i where b: "b = (p, w, i)" by (cases b)
  show ?thesis
  proof (cases "at_key s (p, w)")
    case (Pair mm gg)
    show ?thesis
    proof (cases mm)
      case None
      then show ?thesis using Pair swept_at[OF assms, of now used "(p, w)"]
        by (simp add: b bucket_value_at sweep_at_def)
    next
      case (Some m)
      then have "(((p, w), m)) \<in> set (s_buckets s)" using Pair by (auto simp: at_key_def dest: map_of_SomeD)
      then have "mwf m" using assms by (auto simp: store_wf_def)
      then have kept: "mgetd 0 (kept_buckets now used (p, w) g m) i =
          (if i \<ge> floorDiv (wrap64 (UnixNano now - g_durationNanos g)) (g_bucketNanos g) \<or> (p, w, i) \<in> set used
           then mgetd 0 m i else 0)" for g
        by (simp add: mgetd_def mget_kept)
      have gg: "mget (s_geometry s) (p, w) = gg" using Pair by (simp add: at_key_def)
      show ?thesis
      proof (cases gg)
        case None
        then show ?thesis using Pair Some gg swept_at[OF assms, of now used "(p, w)"]
          by (simp add: b bucket_value_at sweep_at_def outdated_def)
      next
        case (Some g)
        then show ?thesis using Pair \<open>mm = Some m\<close> gg swept_at[OF assms, of now used "(p, w)"] kept[of g]
          by (auto simp: b bucket_value_at sweep_at_def outdated_def Let_def)
      qed
    qed
  qed
qed

section \<open>The sweep keeps the invariant\<close>

lemma sweep_key_operations: "s_operations (sweep_key now used e s) = s_operations s"
  by (auto simp: sweep_key_def Let_def split: prod.splits option.splits)

lemma fold_sweep_key_operations: "s_operations (fold (sweep_key now used) es s) = s_operations s"
  by (induction es arbitrary: s) (simp_all add: sweep_key_operations)

lemma set_mdel: "x \<in> set (mdel k m) \<Longrightarrow> x \<in> set m"
  by (simp add: mdel_filter)

lemma store_wf_sweep_key:
  assumes "store_wf s" and "mwf (snd e)"
  shows "store_wf (sweep_key now used e s)"
proof -
  have "mwf (kept_buckets now used k g (snd e))" for k g using assms(2) by (simp add: kept_buckets_def Let_def)
  then show ?thesis using assms(1)
    by (auto simp: sweep_key_def store_wf_def Let_def split: prod.splits option.splits dest!: set_mdel set_mput)
qed

lemma store_wf_fold_sweep_key:
  assumes "store_wf s" and "\<forall>e \<in> set es. mwf (snd e)"
  shows "store_wf (fold (sweep_key now used) es s)"
  using assms by (induction es arbitrary: s) (simp_all add: store_wf_sweep_key)

lemma store_wf_sweep_operations:
  assumes "store_wf s"
  shows "store_wf (fold (sweep_operation now) (s_operations s) s)"
proof -
  have "mwf (s_operations s)" using assms by (simp add: store_wf_def)
  from swept_operations[OF this, of now] fold_sweep_operation[of now "s_operations s" s] show ?thesis
    using assms by (auto simp: store_wf_def)
qed

lemma referenced_iff:
  "b \<in> set (referenced s) \<longleftrightarrow>
     (\<exists>oid oper r. (oid, oper) \<in> set (s_operations s) \<and> r \<in> set (o_Reservations oper) \<and> reservation_identity r = b)"
  by (force simp: referenced_def)

lemma unreferenced_charges:
  assumes "b \<notin> set (referenced s)"
  shows "charges s b = 0"
proof -
  have "charge b oper = 0" if "(oid, oper) \<in> set (s_operations s)" for oid oper
  proof -
    have "filter (\<lambda>r. reservation_identity r = b) (o_Reservations oper) = []"
      using assms that by (auto simp: referenced_iff filter_empty_conv)
    then show ?thesis by (simp add: charge_def)
  qed
  then show ?thesis unfolding charges_def by (rule msum_zero)
qed

text \<open>The state between the two passes.\<close>

abbreviation pass1 :: "gotime \<Rightarrow> admission_store \<Rightarrow> admission_store" where
  "pass1 now s \<equiv> fold (sweep_operation now) (s_operations s) s"

lemma pass1_frame: "s_buckets (pass1 now s) = s_buckets s" "s_geometry (pass1 now s) = s_geometry s"
  "bucket_value (pass1 now s) b = bucket_value s b" "outdated now (pass1 now s) b = outdated now s b"
  using fold_sweep_operation[of now "s_operations s" s] by (simp_all add: bucket_value_def outdated_def)

lemma sweepLocked_operations:
  assumes "store_wf s"
  shows "s_operations (fst (sweepLocked now s)) = filter (\<lambda>(oid, oper). \<not> expired now oper) (s_operations s)"
  using swept_operations[of s now] assms by (simp add: sweepLocked_def Let_def fold_sweep_key_operations store_wf_def)

lemma sweepLocked_bucket_value:
  assumes "store_wf s"
  shows "bucket_value (fst (sweepLocked now s)) b
           = (if outdated now s b \<and> b \<notin> set (referenced (fst (sweepLocked now s))) then 0 else bucket_value s b)"
proof -
  have "referenced (fst (sweepLocked now s)) = referenced (pass1 now s)"
    by (simp add: sweepLocked_def Let_def referenced_def fold_sweep_key_operations)
  then show ?thesis
    using swept_bucket_value[OF store_wf_sweep_operations[OF assms, of now], of now "referenced (pass1 now s)" b]
    by (simp add: sweepLocked_def Let_def pass1_frame)
qed

lemma sweepLocked_inv:
  assumes "store_inv s"
  shows "store_inv (fst (sweepLocked now s))"
proof (rule store_invI)
  let ?s = "fst (sweepLocked now s)"
  note wf = store_invD(1)[OF assms]
  have w1: "store_wf (pass1 now s)" by (rule store_wf_sweep_operations[OF wf])
  then have "\<forall>e \<in> set (s_buckets (pass1 now s)). mwf (snd e)" by (auto simp: store_wf_def)
  then show "store_wf ?s" using store_wf_fold_sweep_key[OF w1] by (simp add: sweepLocked_def Let_def)
  fix b
  show "MicroUSD_Valid (bucket_value ?s b)"
    using sweepLocked_bucket_value[OF wf, of now b] store_invD(2)[OF assms, of b]
    by (simp add: MicroUSD_Valid_def RedisSafeLimit_def)
  show "charges ?s b \<le> bucket_value ?s b"
  proof (cases "b \<in> set (referenced ?s)")
    case True
    have "charges ?s b \<le> charges s b"
      unfolding charges_def sweepLocked_operations[OF wf]
      by (rule msum_filter_le) (rule store_wf_charge_nonneg[OF wf])
    then show ?thesis using sweepLocked_bucket_value[OF wf, of now b] True store_invD(3)[OF assms, of b] by simp
  next
    case False
    then show ?thesis using unreferenced_charges[OF False] \<open>MicroUSD_Valid (bucket_value ?s b)\<close> by (simp add: MicroUSD_Valid_def)
  qed
qed

section \<open>Begin\<close>

lemma reopen_operation_fields:
  assumes "reopen_operation token q reopened oper s = (oper', s')"
  shows "o_ID oper' = o_ID oper" "o_Reservations oper' = o_Reservations oper" "o_State oper' = o_State oper"
    "operation_wf oper' = operation_wf oper"
    "s_operations s' = s_operations s" "bucket_value s' = bucket_value s" "ledger_wf s' = ledger_wf s"
proof -
  have frame: "bucket_value (s\<lparr>s_reopens := n\<rparr>) = bucket_value s" "ledger_wf (s\<lparr>s_reopens := n\<rparr>) = ledger_wf s" for n
    by (simp_all add: bucket_value_def[abs_def] ledger_wf_def store_wf_def)
  have "operation_wf (oper\<lparr>o_DispatchToken := d, o_CreatedAt := c\<rparr>) = operation_wf oper" for d c
    by (simp add: operation_wf_def)
  then show "o_ID oper' = o_ID oper" "o_Reservations oper' = o_Reservations oper" "o_State oper' = o_State oper"
    "operation_wf oper' = operation_wf oper"
    "s_operations s' = s_operations s" "bucket_value s' = bucket_value s" "ledger_wf s' = ledger_wf s"
    using assms frame by (auto simp: reopen_operation_def Let_def split: option.splits)
qed

lemma begin_reserve_inv:
  assumes inv: "store_inv s"
    and env: "ValidateExactUSDReservationEnvelope (b_Reservations q) (b_Reservation q) (b_ReservationUSD q) = None"
  shows "store_inv (fst (begin_reserve hexsha clk q reopened s))"
proof (cases "checkReservations s (b_Reservations q) (clk 1)")
  case (Some d)
  then show ?thesis using inv by (simp add: begin_reserve_def)
next
  case None
  note vec = admitted_vector[OF env None]
  obtain t e where t: "addReservations (b_Reservations q) s = (t, e)" by (cases "addReservations (b_Reservations q) s")
  have frame: "same_operations s t" "ledger_wf t"
    using vector_frames(1)[of s "b_Reservations q"] ledger_wf_addReservations[OF store_inv_ledger[OF inv], of "b_Reservations q"] t
    by simp_all
  show ?thesis
  proof (cases e)
    case (Some x)
    have "store_inv t"
      using inv_grow[OF inv frame] addReservations_mono[OF vector_wf_amounts[OF vec(1)], of s] t by simp
    then show ?thesis using t Some None by (simp add: begin_reserve_def)
  next
    case added: None
    let ?token = "if b_ID q = [] then hexsha (b_ScopeKey q) else b_ID q"
    obtain oper u where u: "reopen_operation ?token q reopened (reserved_operation ?token (clk 2) q) t = (oper, u)"
      by (cases "reopen_operation ?token q reopened (reserved_operation ?token (clk 2) q) t")
    note f = reopen_operation_fields[OF u]
    let ?oper = "if \<not> USD_IsZero (b_ReservationUSD q) \<or> b_Reservation q = 0
                 then oper\<lparr>o_ReservedCostUSD := Some (b_ReservationUSD q)\<rparr> else oper"
    have wf: "operation_wf ?oper"
      using f(1-4) vec by (auto simp: operation_wf_def reserved_operation_def zero_operation_def vector_wf_def
          MicroUSD_Valid_def RedisSafeLimit_def)
    have live: "\<not> settled ?oper" "o_Reservations ?oper = b_Reservations q"
      using f(1-3) by (auto simp: settled_def reserved_operation_def)
    have old: "0 \<le> osum (charge b) (mget (s_operations s) k)" for b k
      using store_wf_operation[OF store_invD(1)[OF inv]] by (cases "mget (s_operations s) k") (auto intro: charge_nonneg)
    have "store_inv (put_operation ?oper u)"
    proof (rule put_operation_inv_ops[OF inv _ _ wf])
      show "s_operations u = s_operations s" using f(5) frame(1) by (simp add: same_operations_def)
      show "ledger_wf u" using f(7) frame(2) by simp
      fix b
      have "bucket_value u b = bucket_value s b + charge b ?oper"
        using addReservations_ok[of "b_Reservations q" s t b] t added f(6) live by (simp add: charge_unsettled)
      then show "bucket_value s b - osum (charge b) (mget (s_operations s) (o_ID ?oper)) + charge b ?oper \<le> bucket_value u b"
        using old by simp
    qed
    then show ?thesis using t added None u by (simp add: begin_reserve_def Let_def)
  qed
qed

lemma Begin_inv:
  assumes "store_inv s"
  shows "store_inv (fst (Begin hexsha ctx clk q s))"
  using assms sweepLocked_inv[OF assms, of "clk 0"] begin_reserve_inv
  by (simp add: Begin_def Let_def split: option.split)

end
