(* ===== verification/Admission_Tokens.thy ===== *)
theory Admission_Tokens
  imports Admission_Properties
begin

text \<open>
  Dispatch tokens of the memory admission store: their shape, and that reopening a failed
  operation or continuing an attempt fences every holder of the previous token.
\<close>

section \<open>Token shapes\<close>

definition suffix_ok :: "string \<Rightarrow> bool" where
  "suffix_ok sfx \<longleftrightarrow> sfx = [] \<or> (\<exists>c cs. sfx = CHR ''-'' # c # cs \<and> (c = CHR ''-'' \<or> is_digit c))"

definition token_shape :: "int \<Rightarrow> string \<Rightarrow> string \<Rightarrow> bool" where
  "token_shape n oid tok \<longleftrightarrow>
     (\<exists>sfx. suffix_ok sfx \<and> (tok = oid @ sfx \<or> tok = oid @ ''-reopen-'' @ int_dec n @ sfx))"

definition token_inv :: "admission_store \<Rightarrow> bool" where
  "token_inv s \<longleftrightarrow> (\<forall>oid oper. mget (s_operations s) oid = Some oper \<longrightarrow>
     token_shape (mgetd 0 (s_reopens s) oid) oid (o_DispatchToken oper))"

lemma dash_not_digit [simp]: "\<not> is_digit CHR ''-''"
  by (simp add: is_digit_def)

lemma int_dec_cases:
  obtains (nonneg) m where "0 \<le> n" "n = int m" "int_dec n = nat_dec m"
  | (neg) m where "n < 0" "n = - int m" "int_dec n = CHR ''-'' # nat_dec m"
proof (cases "0 \<le> n")
  case True
  then show thesis using nonneg[of "nat n"] by (simp add: int_dec_def)
next
  case False
  then show thesis using neg[of "nat (- n)"] by (simp add: int_dec_def)
qed

lemma nat_dec_hd: "is_digit (hd (nat_dec m))"
  using nat_dec_digits[of m] nat_dec_nonempty[of m] by (cases "nat_dec m") (simp_all del: nat_dec_nonempty)

lemma int_dec_inj: "int_dec m = int_dec n \<Longrightarrow> m = n"
  by (rule int_dec_cases[of m]; rule int_dec_cases[of n])
    (auto dest: nat_dec_inj simp del: nat_dec.simps, (metis dash_not_digit list.sel(1) nat_dec_hd)+)

lemma int_dec_tl: "list_all is_digit (tl (int_dec n))"
  by (rule int_dec_cases[of n]) (use nat_dec_digits in \<open>auto simp: list.pred_set dest: list.set_sel(2)[rotated]\<close>)

lemma int_dec_suffix: "suffix_ok (''-'' @ int_dec n)"
  by (rule int_dec_cases[of n])
    (use nat_dec_hd nat_dec_nonempty in \<open>auto simp: suffix_ok_def neq_Nil_conv, (metis list.sel(1) neq_Nil_conv)+\<close>)

lemma suffix_ok_append: "suffix_ok a \<Longrightarrow> suffix_ok b \<Longrightarrow> suffix_ok (a @ b)"
  by (auto simp: suffix_ok_def)

lemma int_dec_nonempty [simp]: "int_dec n \<noteq> []"
  by (rule int_dec_cases[of n]) auto

lemma int_dec_append:
  assumes "int_dec m @ sfx = int_dec n" and "suffix_ok sfx"
  shows "m = n"
proof (cases "sfx = []")
  case True
  then show ?thesis using assms(1) int_dec_inj by simp
next
  case False
  then have "CHR ''-'' \<in> set sfx" using assms(2) by (auto simp: suffix_ok_def)
  then have "CHR ''-'' \<in> set (tl (int_dec n))" using assms(1) by (metis Un_iff int_dec_nonempty set_append tl_append2)
  then show ?thesis using int_dec_tl[of n] by (auto simp: list.pred_set)
qed

lemma token_fresh:
  assumes "token_shape n oid tok" and "n' \<noteq> n"
  shows "tok \<noteq> oid @ ''-reopen-'' @ int_dec n'"
proof
  assume tok: "tok = oid @ ''-reopen-'' @ int_dec n'"
  obtain sfx where sfx: "suffix_ok sfx" "sfx = ''-reopen-'' @ int_dec n' \<or> int_dec n' = int_dec n @ sfx"
    using assms(1) tok by (auto simp: token_shape_def)
  have "\<not> suffix_ok (''-reopen-'' @ int_dec n')" by (simp add: suffix_ok_def is_digit_def)
  then have "int_dec n @ sfx = int_dec n'" using sfx by auto
  then show False using int_dec_append sfx(1) assms(2) by metis
qed

lemma token_shape_id: "token_shape n oid oid"
  unfolding token_shape_def suffix_ok_def by auto

lemma token_shape_reopen: "token_shape n oid (oid @ ''-reopen-'' @ int_dec n)"
proof -
  have "suffix_ok []" by (simp add: suffix_ok_def)
  then show ?thesis unfolding token_shape_def by (metis append_Nil2)
qed

lemma token_shape_continue: "token_shape n oid tok \<Longrightarrow> token_shape n oid (tok @ ''-'' @ int_dec k)"
  unfolding token_shape_def using suffix_ok_append[OF _ int_dec_suffix[of k]]
  by (metis append.assoc)

lemma wrap64_succ: "wrap64 (n + 1) \<noteq> n"
proof
  assume "wrap64 (n + 1) = n"
  then have "(n + 1 + 2 ^ 63) mod 2 ^ 64 = n + 2 ^ 63" by (simp add: wrap64_def)
  moreover have "n + 1 + 2 ^ 63 = 2 ^ 64 * ((n + 1 + 2 ^ 63) div 2 ^ 64) + (n + 1 + 2 ^ 63) mod 2 ^ 64" by simp
  ultimately have "1 = 2 ^ 64 * ((n + 1 + 2 ^ 63) div 2 ^ 64)" by linarith
  then have "(2::int) ^ 64 dvd 1" by (rule dvdI)
  then show False by simp
qed

section \<open>Every step keeps the shape\<close>

lemma token_invD: "token_inv s \<Longrightarrow> mget (s_operations s) oid = Some oper \<Longrightarrow>
    token_shape (mgetd 0 (s_reopens s) oid) oid (o_DispatchToken oper)"
  by (simp add: token_inv_def)

lemma token_inv_frame:
  "same_operations s t \<Longrightarrow> token_inv t = token_inv s"
  "token_inv (s\<lparr>s_providerIDs := p, s_pollAfter := q\<rparr>) = token_inv s"
  "token_inv (s\<lparr>s_byScope := sc\<rparr>) = token_inv s"
  by (simp_all add: token_inv_def same_operations_def)

lemma token_inv_put:
  "token_inv s \<Longrightarrow> token_shape (mgetd 0 (s_reopens s) (o_ID oper)) (o_ID oper) (o_DispatchToken oper) \<Longrightarrow>
     token_inv (put_operation oper s)"
  by (simp add: token_inv_def put_operation_def)

lemma token_inv_put_same:
  assumes "store_inv s" and "token_inv s" and "mget (s_operations s) oid = Some oper"
    and "same_operations s t" and "o_ID oper' = o_ID oper" and "o_DispatchToken oper' = o_DispatchToken oper"
  shows "token_inv (put_operation oper' t)"
proof (rule token_inv_put)
  show "token_inv t" using assms(2,4) token_inv_frame(1) by simp
  have "o_ID oper = oid" using store_wf_operation[OF store_invD(1)[OF assms(1)] assms(3)] by simp
  then show "token_shape (mgetd 0 (s_reopens t) (o_ID oper')) (o_ID oper') (o_DispatchToken oper')"
    using token_invD[OF assms(2,3)] assms(4-6) by (simp add: same_operations_def)
qed

lemma with_token_tokens:
  assumes "token_inv s"
    and "\<And>oper. mget (s_operations s) oid = Some oper \<Longrightarrow> token_inv (fst (body oper))"
  shows "token_inv (fst (with_token ctx oid token s body))"
  using assms by (auto simp: with_token_def loadToken_def split: option.splits)

lemma reconcile_tokens:
  "token_inv s \<Longrightarrow> reconcile rs a s = (t, e) \<Longrightarrow> same_operations s t \<and> token_inv t"
  using vector_frames(2)[of s rs a] token_inv_frame(1) by simp

lemma addReservations_tokens:
  "token_inv s \<Longrightarrow> addReservations rs s = (t, e) \<Longrightarrow> same_operations s t \<and> token_inv t"
  using vector_frames(1)[of s rs] token_inv_frame(1) by simp

lemma MarkDispatching_tokens:
  "store_inv s \<Longrightarrow> token_inv s \<Longrightarrow> token_inv (fst (MarkDispatching ctx clk q s))"
  unfolding MarkDispatching_def
  by (rule with_token_tokens) (auto intro!: token_inv_put_same[of s])

lemma MarkProviderPending_tokens:
  assumes "store_inv s" and "token_inv s"
  shows "token_inv (fst (MarkProviderPending ctx clk q s))"
proof -
  have "token_inv (put_operation (oper\<lparr>o_State := StateProviderPending, o_Attempt := a, o_UpdatedAt := u\<rparr>) s)"
    if "mget (s_operations s) (pp_OperationID q) = Some oper" for oper a u
    by (rule token_inv_put_same[OF assms that]) simp_all
  then show ?thesis
    unfolding MarkProviderPending_def using assms
    by (auto intro!: with_token_tokens simp: Let_def token_inv_frame(2) split: option.split)
qed

lemma Complete_tokens:
  assumes "store_inv s" and "token_inv s"
  shows "token_inv (fst (Complete ctx clk q s))"
proof -
  have "token_inv (put_operation (completed_operation (clk 0) q oper) t)"
    if "mget (s_operations s) (cp_OperationID q) = Some oper" "reconcile (o_Reservations oper) (cp_Actual q) s = (t, e)" for oper t e
    using reconcile_tokens[OF assms(2) that(2)]
    by (intro token_inv_put_same[OF assms that(1)]) (simp_all add: completed_operation_def Let_def)
  then show ?thesis
    unfolding Complete_def using assms reconcile_tokens[OF assms(2)]
    by (auto intro!: with_token_tokens split: prod.splits option.splits)
qed

lemma Fail_tokens:
  assumes "store_inv s" and "token_inv s"
  shows "token_inv (fst (Fail ctx clk q s))"
proof -
  let ?settle = "\<lambda>oper. oper\<lparr>o_Attempt := (f_Attempt q)\<lparr>a_Dispatch := f_Certainty q\<rparr>, o_UpdatedAt := clk 0\<rparr>"
  have "token_inv (put_operation (?settle (released_operation q oper)) t)"
    if "mget (s_operations s) (f_OperationID q) = Some oper" "reconcile (o_Reservations oper) (f_Incurred q) s = (t, e)" for oper t e
    using reconcile_tokens[OF assms(2) that(2)]
    by (intro token_inv_put_same[OF assms that(1)]) (simp_all add: released_operation_def Let_def)
  moreover have "token_inv (put_operation (?settle (retained_operation q oper)) s)"
    if "mget (s_operations s) (f_OperationID q) = Some oper" for oper
    by (rule token_inv_put_same[OF assms that]) (simp_all add: retained_operation_def Let_def)
  ultimately show ?thesis
    unfolding Fail_def using assms reconcile_tokens[OF assms(2)]
    by (auto intro!: with_token_tokens simp: Let_def split: prod.splits option.splits)
qed

lemma Continue_tokens:
  assumes "store_inv s" and "token_inv s"
  shows "token_inv (fst (Continue ctx clk q s))"
proof -
  have step: "token_inv (fst (case reconcile (o_Reservations oper) i s of
                 (s1, Some e) \<Rightarrow> (s1, Inl e)
               | (s1, None) \<Rightarrow>
                   case checkReservations s1 (cq_Reservations q) (clk 0) of
                     Some denial \<Rightarrow>
                       (let oper' = denied_operation (clk 1) q oper
                        in (put_operation oper' s1, Inr \<lparr>ct_Operation = oper', ct_Denied = Some denial\<rparr>))
                   | None \<Rightarrow>
                       case addReservations (cq_Reservations q) s1 of
                         (s2, Some e) \<Rightarrow> (s2, Inl e)
                       | (s2, None) \<Rightarrow>
                           let oper' = continued_operation (clk 1) q oper
                           in (put_operation oper' s2, Inr \<lparr>ct_Operation = oper', ct_Denied = None\<rparr>)))"
    if o: "mget (s_operations s) (cq_OperationID q) = Some oper" for oper i
  proof -
    obtain t e where t: "reconcile (o_Reservations oper) i s = (t, e)" by (cases "reconcile (o_Reservations oper) i s")
    obtain u f where u: "addReservations (cq_Reservations q) t = (u, f)" by (cases "addReservations (cq_Reservations q) t")
    note tt = reconcile_tokens[OF assms(2) t]
    note uu = addReservations_tokens[OF tt[THEN conjunct2] u]
    have su: "same_operations s u" using same_operations_trans tt uu by blast
    have oid: "o_ID oper = cq_OperationID q" using store_wf_operation[OF store_invD(1)[OF assms(1)] o] by simp
    have denied: "token_inv (put_operation (denied_operation (clk 1) q oper) t)"
      using tt by (intro token_inv_put_same[OF assms o]) (simp_all add: denied_operation_def)
    have cont: "token_inv (put_operation (continued_operation (clk 1) q oper) u)"
    proof (rule token_inv_put)
      show "token_inv u" using uu by simp
      have "mgetd 0 (s_reopens u) = mgetd 0 (s_reopens s)" using su by (simp add: same_operations_def)
      then show "token_shape (mgetd 0 (s_reopens u) (o_ID (continued_operation (clk 1) q oper)))
          (o_ID (continued_operation (clk 1) q oper)) (o_DispatchToken (continued_operation (clk 1) q oper))"
        using token_shape_continue[OF token_invD[OF assms(2) o]] oid by (simp add: continued_operation_def Let_def)
    qed
    show ?thesis using t u tt uu denied cont by (auto simp: Let_def split: option.split)
  qed
  show ?thesis
    unfolding Continue_def using assms(2) step
    by (auto intro!: with_token_tokens split: option.split)
qed

lemma fold_sweep_reopens:
  "oid \<notin> swept_ids now es \<Longrightarrow> mget (s_reopens (fold (sweep_operation now) es s)) oid = mget (s_reopens s) oid"
proof (induction es arbitrary: s)
  case Nil
  then show ?case by simp
next
  case (Cons e es)
  have "mget (s_reopens (sweep_operation now e s)) oid = mget (s_reopens s) oid"
    using Cons.prems by (auto simp: sweep_operation_def swept_ids_def split: prod.splits)
  moreover have "oid \<notin> swept_ids now es" using Cons.prems by (auto simp: swept_ids_def)
  ultimately show ?case using Cons.IH[of "sweep_operation now e s"] by simp
qed

lemma fold_sweep_byScope:
  "mget (s_byScope s) sc = Some oid \<Longrightarrow> oid \<notin> swept_ids now es \<Longrightarrow>
     mget (s_byScope (fold (sweep_operation now) es s)) sc = Some oid"
proof (induction es arbitrary: s)
  case Nil
  then show ?case by simp
next
  case (Cons e es)
  have "mget (s_byScope (sweep_operation now e s)) sc = Some oid"
    using Cons.prems by (auto simp: sweep_operation_def swept_ids_def mgetd_def split: prod.splits)
  moreover have "oid \<notin> swept_ids now es" using Cons.prems(2) by (auto simp: swept_ids_def)
  ultimately show ?case using Cons.IH[of "sweep_operation now e s"] by simp
qed

lemma sweep_key_frame:
  "s_reopens (fold (sweep_key now used) es s) = s_reopens s" "s_byScope (fold (sweep_key now used) es s) = s_byScope s"
proof -
  have "s_reopens (sweep_key now used e s) = s_reopens s \<and> s_byScope (sweep_key now used e s) = s_byScope s" for e s
    by (auto simp: sweep_key_def Let_def split: prod.splits option.splits)
  then show "s_reopens (fold (sweep_key now used) es s) = s_reopens s" "s_byScope (fold (sweep_key now used) es s) = s_byScope s"
    by (induction es arbitrary: s) simp_all
qed

lemma mget_sweepLocked:
  assumes "store_wf s"
  shows "mget (s_operations (fst (sweepLocked now s))) oid =
     (case mget (s_operations s) oid of None \<Rightarrow> None | Some oper \<Rightarrow> if expired now oper then None else Some oper)"
  using mget_filter[of "s_operations s" "\<lambda>oid oper. \<not> expired now oper" oid] assms
  by (auto simp: sweepLocked_operations[OF assms] store_wf_def split: option.split)

lemma retained_not_swept:
  assumes "store_wf s" and "mget (s_operations s) oid = Some oper" and "\<not> expired now oper"
  shows "oid \<notin> swept_ids now (s_operations s)"
proof
  assume "oid \<in> swept_ids now (s_operations s)"
  then obtain oper' where o: "(oid, oper') \<in> set (s_operations s)" "expired now oper'" by (auto simp: swept_ids_def)
  have "mget (s_operations s) oid = Some oper'" using assms(1) o(1) by (simp add: store_wf_def mwf_def)
  then show False using assms(2,3) o(2) by simp
qed

lemma sweepLocked_tokens:
  assumes "store_inv s" and "token_inv s"
  shows "token_inv (fst (sweepLocked now s))"
  unfolding token_inv_def
proof (intro allI impI)
  fix oid oper assume "mget (s_operations (fst (sweepLocked now s))) oid = Some oper"
  then have o: "mget (s_operations s) oid = Some oper" "\<not> expired now oper"
    using mget_sweepLocked[OF store_invD(1)[OF assms(1)], of now oid] by (auto split: option.splits if_splits)
  have "mgetd 0 (s_reopens (fst (sweepLocked now s))) oid = mgetd 0 (s_reopens s) oid"
    using fold_sweep_reopens[OF retained_not_swept[OF store_invD(1)[OF assms(1)] o], of s]
    by (simp add: sweepLocked_def Let_def sweep_key_frame mgetd_def)
  then show "token_shape (mgetd 0 (s_reopens (fst (sweepLocked now s))) oid) oid (o_DispatchToken oper)"
    using token_invD[OF assms(2) o(1)] by simp
qed

text \<open>What \<^verbatim>\<open>Begin\<close> does to tokens, and the token of the operation it stores.\<close>

lemma begin_reserve_tokens:
  assumes "token_inv s" and "b_ID q \<noteq> []"
  shows "token_inv (fst (begin_reserve hexsha clk q reopened s))"
    and "begin_reserve hexsha clk q reopened s = (s', Inr res) \<Longrightarrow> br_Operation res = Some oper \<Longrightarrow>
          o_DispatchToken oper = (if reopened = None then b_ID q
             else b_ID q @ ''-reopen-'' @ int_dec (wrap64 (mgetd 0 (s_reopens s) (b_ID q) + 1)))"
proof -
  obtain t e where t: "addReservations (b_Reservations q) s = (t, e)" by (cases "addReservations (b_Reservations q) s")
  note tt = addReservations_tokens[OF assms(1) t]
  obtain op1 u where u: "reopen_operation (b_ID q) q reopened (reserved_operation (b_ID q) (clk 2) q) t = (op1, u)"
    by (cases "reopen_operation (b_ID q) q reopened (reserved_operation (b_ID q) (clk 2) q) t")
  let ?n = "wrap64 (mgetd 0 (s_reopens s) (b_ID q) + 1)"
  have re: "s_reopens t = s_reopens s" using tt by (simp add: same_operations_def)
  have op1: "o_ID op1 = b_ID q" "o_DispatchToken op1 = (if reopened = None then b_ID q else b_ID q @ ''-reopen-'' @ int_dec ?n)"
    "u = (if reopened = None then t else t\<lparr>s_reopens := mput (b_ID q) ?n (s_reopens s)\<rparr>)"
    using u re by (auto simp: reopen_operation_def reserved_operation_def Let_def split: option.splits)
  let ?oper = "if \<not> USD_IsZero (b_ReservationUSD q) \<or> b_Reservation q = 0
               then op1\<lparr>o_ReservedCostUSD := Some (b_ReservationUSD q)\<rparr> else op1"
  have fields: "o_ID ?oper = b_ID q" "o_DispatchToken ?oper = o_DispatchToken op1" using op1(1) by simp_all
  have "token_shape (mgetd 0 (s_reopens u) (b_ID q)) (b_ID q) (o_DispatchToken op1)"
    using op1 token_shape_id token_shape_reopen by (simp add: mgetd_def)
  moreover have "token_shape (mgetd 0 (s_reopens u) k) k (o_DispatchToken v)"
    if "mget (s_operations u) k = Some v" "k \<noteq> b_ID q" for k v
    using token_invD[OF tt[THEN conjunct2], of k v] that op1(3) re by (auto simp: mgetd_def split: if_splits)
  ultimately have "token_inv (put_operation ?oper u)"
    using fields unfolding token_inv_def by (auto simp: put_operation_def split: if_splits)
  then show "token_inv (fst (begin_reserve hexsha clk q reopened s))"
    using assms t tt u by (auto simp: begin_reserve_def Let_def token_inv_frame(3) split: option.splits)
  show "o_DispatchToken oper = (if reopened = None then b_ID q
             else b_ID q @ ''-reopen-'' @ int_dec (wrap64 (mgetd 0 (s_reopens s) (b_ID q) + 1)))"
    if "begin_reserve hexsha clk q reopened s = (s', Inr res)" "br_Operation res = Some oper"
    using that assms(2) t u fields op1 by (auto simp: begin_reserve_def Let_def split: option.splits if_splits)
qed

lemma Begin_tokens:
  assumes "store_inv s" and "token_inv s"
  shows "token_inv (fst (Begin hexsha ctx clk q s))"
  using assms sweepLocked_tokens[OF assms, of "clk 0"] begin_reserve_tokens(1)
  by (simp add: Begin_def Let_def split: option.split)

lemma reachable_tokens: "reachable s \<Longrightarrow> token_inv s"
proof (induction rule: reachable.induct)
  case reachable_new
  then show ?case by (simp add: token_inv_def NewAdmissionStore_def)
next
  case (reachable_step s s')
  note i = reachable_inv[OF reachable_step.hyps(1)] reachable_step.IH
  from reachable_step.hyps(2) show ?case
    by cases (simp_all add: i Begin_tokens MarkDispatching_tokens MarkProviderPending_tokens Complete_tokens Fail_tokens
        Continue_tokens Sweep_def sweepLocked_tokens)
qed

section \<open>Fencing\<close>

lemma stale_token:
  assumes "mget (s_operations s) oid = Some oper" and "o_DispatchToken oper \<noteq> token"
  shows "with_token None oid token s body = (s, Inl ErrInvalidToken)"
  using assms by (simp add: with_token_def loadToken_def)


definition demo_fail :: fail_request where
  "demo_fail = \<lparr>f_OperationID = ''op'', f_DispatchToken = ''op'', f_Certainty = Rejected, f_Incurred = 0,
     f_IncurredCostUSD = USD None, f_Attempt = demo_attempt, f_Retryable = True\<rparr>"

definition demo_failed :: admission_store where
  "demo_failed = fst (Fail None demo_clock demo_fail demo_dispatched)"

lemma demo_failed_reachable: "reachable demo_failed"
  unfolding demo_failed_def by (rule reachable_step[OF demo_dispatched_reachable fail_step])


section \<open>Repeated requests\<close>

text \<open>C6: \<^verbatim>\<open>Begin\<close> is idempotent: repeating a request that was admitted returns the stored operation, reserves nothing
  more and, apart from the retention sweep, leaves the store as it was.\<close>

theorem begin_idempotent:
  assumes "reachable s" and "Begin hexsha ctx clk q s = (s', Inr res)" and "br_Operation res = Some oper" and "\<not> br_Existing res"
  shows "Begin hexsha None clk' q s'
           = (fst (Sweep (clk' 0) s'), Inr \<lparr>br_Operation = Some oper, br_Existing = True, br_Denied = None\<rparr>)
       \<and> bucket_value (fst (Sweep (clk' 0) s')) b \<le> bucket_value s' b"
proof -
  have "reachable s'" using reachable_step[OF assms(1) begin_step, of hexsha ctx clk q] assms(2) by simp
  note inv = reachable_inv[OF this]
  note v = Begin_valid[OF assms(2)]
  obtain reopened where b: "begin_reserve hexsha clk q reopened (fst (Sweep (clk 0) s)) = (s', Inr res)"
    using v(5)[OF assms(4)] by blast
  have st: "mget (s_operations s') (b_ID q) = Some oper" "mget (s_byScope s') (b_ScopeKey q) = Some (b_ID q)"
    "o_ID oper = b_ID q" "o_State oper = StateReserved" "o_RequestDigest oper = b_RequestDigest q"
    by (cases rule: begin_reserve_new[OF b]; use assms(3) in auto)+
  let ?t = "fst (sweepLocked (clk' 0) s')"
  have live: "\<not> expired (clk' 0) oper" using st(4) by (simp add: expired_def Terminal_def)
  have "mget (s_operations ?t) (b_ID q) = Some oper"
    using mget_sweepLocked[OF store_invD(1)[OF inv], of "clk' 0" "b_ID q"] st(1) live by simp
  moreover have "mget (s_byScope ?t) (b_ScopeKey q) = Some (b_ID q)"
    using fold_sweep_byScope[OF st(2) retained_not_swept[OF store_invD(1)[OF inv] st(1) live]]
    by (simp add: sweepLocked_def Let_def sweep_key_frame)
  moreover have "b_ScopeKey q \<noteq> []" "\<not> b_Reservation q < 0" "MicroUSD_Valid (b_Reservation q)"
    using assms(2) by (auto simp: Begin_def split: option.splits if_splits)
  ultimately have "Begin hexsha None clk' q s' = (?t, Inr \<lparr>br_Operation = Some oper, br_Existing = True, br_Denied = None\<rparr>)"
    using v(2,3) st(4,5) by (simp add: Begin_def mgetd_def)
  moreover have "bucket_value ?t b \<le> bucket_value s' b"
    using sweepLocked_bucket_value[OF store_invD(1)[OF inv], of "clk' 0" b] store_invD(2)[OF inv, of b]
    by (simp add: MicroUSD_Valid_def)
  ultimately show ?thesis by (simp add: Sweep_def)
qed

theorem begin_idempotent_witness:
  "bucket_value (fst (Sweep 150 demo_store)) (''p'', ''w'', 10) \<le> 5"
proof -
  let ?B = "Begin (\<lambda>s. s) None demo_clock demo_begin NewAdmissionStore"
  have run: "(case snd ?B of Inr res \<Rightarrow> br_Operation res \<noteq> None \<and> \<not> br_Existing res | Inl _ \<Rightarrow> False) = True" by code_simp
  then obtain res oper where res: "snd ?B = Inr res" "br_Operation res = Some oper" "\<not> br_Existing res"
    by (auto split: sum.splits)
  then have B: "?B = (demo_store, Inr res)" unfolding demo_store_def by (metis prod.collapse)
  have "bucket_value demo_store (''p'', ''w'', 10) = 5" by code_simp
  then show ?thesis
    using begin_idempotent[OF reachable_new B res(2,3), of "\<lambda>i. 150" "(''p'', ''w'', 10)"] by simp
qed

end
