(* ===== verification/Admission_Retention.thy ===== *)
theory Admission_Retention
  imports Admission_Tokens
begin

text \<open>
  Retention and outcomes: the sweep is invisible to admission, a definite failure releases
  what an ambiguous one retains, and the one call that is not atomic on an error.
\<close>

section \<open>The sweep is invisible\<close>

lemma floorDiv_div:
  assumes "0 < d" and "int64 v"
  shows "floorDiv v d = v div d"
proof (cases "0 \<le> v")
  case True
  then have "v sdiv d = v div d" "v smod d = v mod d" using assms(1) by (simp_all add: sdiv_nonneg smod_nonneg)
  moreover have "0 \<le> v div d" "v div d \<le> v" using True assms(1) zdiv_mono2[of v 1 d] by (simp_all add: pos_imp_zdiv_nonneg_iff)
  then have "wrap64 (v div d) = v div d" using assms(2) by (intro wrap64_id) (simp add: int64_defs)
  ultimately show ?thesis using assms(1) by (simp add: floorDiv_def Let_def not_less)
next
  case False
  define m where "m = - v"
  have m: "v = - m" "0 < m" using False by (simp_all add: m_def)
  have q: "v sdiv d = - (m div d)" "v smod d = - (m mod d)"
    using m assms(1) by (simp_all add: signed_divide_int_def signed_modulo_int_def minus_div_mult_eq_mod)
  have dv: "v div d = (if m mod d = 0 then - (m div d) else - (m div d) - 1)"
    using m(1) assms(1) by (simp add: zdiv_zminus1_eq_if)
  have le: "m div d \<le> m" "0 \<le> m div d" and md: "0 \<le> m mod d"
    using assms(1) m(2) zdiv_mono2[of m 1 d] by (simp_all add: pos_imp_zdiv_nonneg_iff)
  have lt: "m div d < m" if "m mod d \<noteq> 0"
  proof -
    have "d \<noteq> 1" using that by auto
    then show ?thesis using assms(1) m(2) by (intro int_div_less_self) simp_all
  qed
  have w: "wrap64 (- (m div d)) = - (m div d)" "m mod d \<noteq> 0 \<Longrightarrow> wrap64 (- (m div d) - 1) = - (m div d) - 1"
    using le lt m assms(2) by (auto intro!: wrap64_id simp: int64_defs)
  show ?thesis
  proof (cases "m mod d = 0")
    case True
    then show ?thesis using q dv w by (simp add: floorDiv_def Let_def)
  next
    case False
    then have "- (m mod d) < 0" using md by linarith
    then show ?thesis using False q dv w assms(1) by (simp add: floorDiv_def Let_def)
  qed
qed

lemma foldE_cong: "(\<And>a x. x \<in> set xs \<Longrightarrow> f a x = g a x) \<Longrightarrow> foldE f a xs = foldE g a xs"
  by (induction xs arbitrary: a) (auto split: sum.split)

lemma check_reservation_cong:
  assumes "\<And>i. floorDiv (wrap64 (UnixNano t - r_DurationNanos r)) (r_BucketNanos r) \<le> i \<Longrightarrow>
             bucket_value s' (r_PolicyID r, r_WindowID r, i) = bucket_value s (r_PolicyID r, r_WindowID r, i)"
  shows "check_reservation s' t r = check_reservation s t r"
proof -
  have "active_window s' r t = active_window s r t"
    unfolding active_window_def Let_def
    by (rule foldE_cong) (use assms in \<open>simp add: bucket_value_def reservation_key_def\<close>)
  then show ?thesis by (simp add: check_reservation_def)
qed



section \<open>Failed attempts\<close>

text \<open>C8: the outcome of a failed attempt decides its reservation. An accepted or ambiguous attempt keeps every bucket as it
  is and the operation becomes ambiguous, still charging its full reservation. A rejected or never dispatched attempt gives each
  reserved window back all but the incurred cost, and may be retried only when the caller allows it and nothing was incurred.\<close>

theorem fail_retains_or_releases:
  assumes "reachable s" and "mget (s_operations s) (f_OperationID q) = Some oper"
    and "o_DispatchToken oper = f_DispatchToken q" and "\<not> Terminal (o_State oper)"
    and "Fail None clk q s = (s', Inr ())"
  obtains (retained) oper' where "f_Certainty q = Accepted \<or> f_Certainty q = Ambiguous"
      "mget (s_operations s') (f_OperationID q) = Some oper'" "o_State oper' = StateAmbiguous"
      "o_FinalMicroUSD oper' = o_ReservedMicroUSD oper" "\<And>b. bucket_value s' b = bucket_value s b" "\<And>b. charge b oper' = charge b oper"
  | (released) oper' where "f_Certainty q = Rejected \<or> f_Certainty q = NotDispatched"
      "mget (s_operations s') (f_OperationID q) = Some oper'" "o_State oper' = StateDefiniteFailed"
      "o_FinalMicroUSD oper' = f_Incurred q" "o_Retryable oper' = (f_Retryable q \<and> f_Incurred q = 0)"
      "\<And>b. bucket_value s' b = bucket_value s b - charge b oper + charge b oper'"
proof -
  note inv = reachable_inv[OF assms(1)]
  have live: "\<not> settled oper" using assms(4) by (auto simp: settled_def Terminal_def)
  have oid: "o_ID oper = f_OperationID q" using store_wf_operation[OF store_invD(1)[OF inv] assms(2)] by simp
  let ?settle = "\<lambda>oper. oper\<lparr>o_Attempt := (f_Attempt q)\<lparr>a_Dispatch := f_Certainty q\<rparr>, o_UpdatedAt := clk 0\<rparr>"
  have val: "ValidateOutcome (f_Certainty q) (f_Incurred q) = None"
    using assms(2-5) by (auto simp: Fail_def with_token_def loadToken_def split: option.splits)
  show thesis
  proof (cases "f_Certainty q = Accepted \<or> f_Certainty q = Ambiguous")
    case True
    let ?o = "?settle (retained_operation q oper)"
    have s': "s' = put_operation ?o s" using assms(2-5) val True by (auto simp: Fail_def with_token_def loadToken_def Let_def)
    have "o_ID ?o = f_OperationID q" "\<not> settled ?o" "o_Reservations ?o = o_Reservations oper"
      using oid by (simp_all add: retained_operation_def Let_def settled_def)
    then show thesis using s' live
      by (intro retained[OF True, of ?o]) (simp_all add: put_operation_def charge_unsettled, simp_all add: retained_operation_def Let_def bucket_value_def)
  next
    case False
    then have c: "f_Certainty q = Rejected \<or> f_Certainty q = NotDispatched"
      using val by (auto simp: ValidateOutcome_def split: if_splits)
    obtain t e where t: "reconcile (o_Reservations oper) (f_Incurred q) s = (t, e)"
      by (cases "reconcile (o_Reservations oper) (f_Incurred q) s")
    have e: "e = None" using assms(2-5) val False t by (cases e) (auto simp: Fail_def with_token_def loadToken_def Let_def)
    let ?o = "?settle (released_operation q oper)"
    have s': "s' = put_operation ?o t"
      using assms(2-5) val False t e by (auto simp: Fail_def with_token_def loadToken_def Let_def)
    have o: "o_ID ?o = f_OperationID q" "settled ?o" "o_Reservations ?o = o_Reservations oper" "o_FinalMicroUSD ?o = f_Incurred q"
      using oid by (simp_all add: released_operation_def Let_def settled_def)
    show thesis
    proof (rule released[OF c, of ?o])
      show "mget (s_operations s') (f_OperationID q) = Some ?o" using s' o(1) by (simp add: put_operation_def)
      show "bucket_value s' b = bucket_value s b - charge b oper + charge b ?o" for b
        using reconcile_unsettled(1)[OF inv assms(2) live t e] s' o by (simp add: charge_settled del: split_paired_All)
    qed (simp_all add: released_operation_def Let_def)
  qed
qed

theorem fail_retains_or_releases_witness:
  "bucket_value demo_failed (''p'', ''w'', 10) = 0 \<and> bucket_value demo_dispatched (''p'', ''w'', 10) = 5"
proof -
  have "map_option (\<lambda>oper. (o_DispatchToken oper, o_State oper, o_Reservations oper))
      (mget (s_operations demo_dispatched) ''op'') = Some (''op'', StateDispatching, [demo_reservation])" by code_simp
  then obtain oper where o: "mget (s_operations demo_dispatched) ''op'' = Some oper" "o_DispatchToken oper = ''op''"
    "o_State oper = StateDispatching" "o_Reservations oper = [demo_reservation]" by auto
  have b: "bucket_value demo_dispatched (''p'', ''w'', 10) = 5" by code_simp
  have q: "f_OperationID demo_fail = ''op''" "f_DispatchToken demo_fail = ''op''" "f_Certainty demo_fail = Rejected"
    "f_Incurred demo_fail = 0" by (simp_all add: demo_fail_def)
  have res: "snd (Fail None demo_clock demo_fail demo_dispatched) = Inr ()" by code_simp
  then have run: "Fail None demo_clock demo_fail demo_dispatched = (demo_failed, Inr ())"
    unfolding demo_failed_def by (metis prod.collapse)
  have id: "reservation_identity demo_reservation = (''p'', ''w'', 10)" "r_Amount demo_reservation = 5" by code_simp+
  show ?thesis
  proof (rule fail_retains_or_releases[OF demo_dispatched_reachable _ _ _ run, of oper])
    fix oper' assume a: "mget (s_operations demo_failed) (f_OperationID demo_fail) = Some oper'" "o_State oper' = StateDefiniteFailed"
      "o_FinalMicroUSD oper' = f_Incurred demo_fail"
      "\<And>b. bucket_value demo_failed b = bucket_value demo_dispatched b - charge b oper + charge b oper'"
    have "charge (''p'', ''w'', 10) oper = 5" using o(3,4) id by (simp add: charge_def held_def settled_def)
    moreover have "charge (''p'', ''w'', 10) oper' = 0"
      using a(2,3) q by (simp add: charge_settled settled_def)
    ultimately show ?thesis using a(4)[of "(''p'', ''w'', 10)"] b by simp
  qed (use o q in \<open>auto simp: Terminal_def\<close>)
qed

section \<open>A failed Continue\<close>

text \<open>
  \<^verbatim>\<open>Continue\<close> is not atomic on an error: \<open>big_store\<close> holds an operation \<^verbatim>\<open>a\<close> that fills one bucket to the
  arithmetic limit and a dispatched operation \<^verbatim>\<open>b\<close> with a reservation in another bucket.
\<close>

definition big_reservation :: "string \<Rightarrow> int \<Rightarrow> window_reservation" where
  "big_reservation w amount = demo_reservation\<lparr>r_WindowID := w, r_Amount := amount, r_Limit := MaxInt64\<rparr>"

definition big_begin :: "string \<Rightarrow> string \<Rightarrow> int \<Rightarrow> begin_request" where
  "big_begin oid w amount = demo_begin\<lparr>b_ID := oid, b_ScopeKey := oid, b_Reservation := amount,
     b_Reservations := [big_reservation w amount]\<rparr>"

definition big_store :: admission_store where
  "big_store =
     fst (MarkDispatching None demo_clock
       \<lparr>dr_OperationID = ''b'', dr_DispatchToken = ''b'', dr_Attempt = demo_attempt, dr_LeaseUntil = 250\<rparr>
       (fst (Begin (\<lambda>s. s) None demo_clock (big_begin ''b'' ''v'' 5)
         (fst (Begin (\<lambda>s. s) None demo_clock (big_begin ''a'' ''w'' RedisSafeLimit) NewAdmissionStore)))))"

definition big_continue :: continue_request where
  "big_continue = \<lparr>cq_OperationID = ''b'', cq_DispatchToken = ''b'',
     cq_Outcome = \<lparr>ao_Certainty = Rejected, ao_Incurred = 0, ao_Attempt = demo_attempt\<rparr>,
     cq_Remaining = 1, cq_RemainingUSD = USD None, cq_Reservations = [big_reservation ''w'' 1],
     cq_LeaseUntil = 260, cq_ExpiresAt = 300\<rparr>"


end
