(* ===== verification/Llm_Types.thy ===== *)
theory Llm_Types
  imports Pricing
begin

text \<open>
  The part of package \<^verbatim>\<open>llm\<close> that routing, budgeting and compaction read: the request (\<^verbatim>\<open>request.go\<close>,
  \<^verbatim>\<open>item.go\<close>), service classes (\<^verbatim>\<open>service_class.go\<close>) and hosted tools (\<^verbatim>\<open>hosted_tools.go\<close>,
  \<^verbatim>\<open>web_search.go\<close>). Go's closed string types stay strings. An item or part given by pointer
  behaves as its value, a nil one as \<open>NilItem\<close>; \<open>OtherPart\<close> is a part kind no modelled code reads.
  Tool arguments and schemas and extensions are their JSON text, a \<^verbatim>\<open>float64\<close> the text it prints as:
  nothing modelled computes with them.
\<close>

section \<open>Service classes\<close>

type_synonym service_class = string

definition ServiceClassEconomy :: service_class where "ServiceClassEconomy = ''economy''"
definition ServiceClassStandard :: service_class where "ServiceClassStandard = ''standard''"
definition ServiceClassPriority :: service_class where "ServiceClassPriority = ''priority''"

definition ServiceClass_Valid :: "service_class \<Rightarrow> bool" where
  "ServiceClass_Valid c \<longleftrightarrow> c = ServiceClassEconomy \<or> c = ServiceClassStandard \<or> c = ServiceClassPriority"

datatype llm_error = BadServiceClass | BadFallback nat | FallbackRepeatsRequested nat | FallbackRepeats nat
  | HostedExecutionUnreported | HostedSearchUnknown | HostedSearchUnreported | HostedMoney money_error

definition NormalizeServiceClass :: "service_class \<Rightarrow> llm_error + service_class" where
  "NormalizeServiceClass c =
     (if c = [] then Inr ServiceClassStandard else if \<not> ServiceClass_Valid c then Inl BadServiceClass else Inr c)"

fun check_fallbacks :: "service_class \<Rightarrow> service_class list \<Rightarrow> nat \<Rightarrow> service_class list \<Rightarrow> llm_error option" where
  "check_fallbacks normalized seen i [] = None"
| "check_fallbacks normalized seen i (c # cs) =
     (if \<not> ServiceClass_Valid c then Some (BadFallback i)
      else if c = normalized then Some (FallbackRepeatsRequested i)
      else if c \<in> set seen then Some (FallbackRepeats i)
      else check_fallbacks normalized (c # seen) (Suc i) cs)"

definition ValidateServiceClassFallbacks :: "service_class \<Rightarrow> service_class list \<Rightarrow> llm_error option" where
  "ValidateServiceClassFallbacks requested fallbacks =
     (case NormalizeServiceClass requested of
        Inl e \<Rightarrow> Some e
      | Inr normalized \<Rightarrow> check_fallbacks normalized [] 0 fallbacks)"

definition class_rank :: "service_class \<Rightarrow> int" where
  "class_rank c = (if c = ServiceClassEconomy then 0 else if c = ServiceClassStandard then 1
     else if c = ServiceClassPriority then 2 else - 1)"

record service_facts =
  sf_Requested :: service_class
  sf_Attempted :: service_class
  sf_Actual :: "service_class option"
  sf_ProviderValue :: string
  sf_FallbackIndex :: int

text \<open>Whether the downgrade diagnostic is due, with its \<^verbatim>\<open>attempted\<close> and \<^verbatim>\<open>actual\<close> details.\<close>

definition ProviderDowngradeDiagnostic :: "service_facts \<Rightarrow> (service_class \<times> service_class) option" where
  "ProviderDowngradeDiagnostic service =
     (case NormalizeServiceClass (sf_Attempted service) of
        Inl _ \<Rightarrow> None
      | Inr attempted \<Rightarrow>
          case sf_Actual service of
            None \<Rightarrow> None
          | Some actual \<Rightarrow> if \<not> ServiceClass_Valid actual \<or> class_rank actual \<ge> class_rank attempted then None
                           else Some (attempted, actual))"

section \<open>Requests\<close>

record request_context =
  rc_Tenant :: string
  rc_Project :: string
  rc_Actor :: string
  rc_Tags :: "(string, string) gomap"

type_synonym float64 = string

record blob_ref =
  bl_Digest :: string
  bl_ByteLength :: int
  bl_MediaType :: string
  bl_Locator :: string

record media_source =
  ms_URL :: string
  ms_Bytes :: "string option"
  ms_Blob :: "blob_ref option"
  ms_MediaType :: string
  ms_Label :: string

datatype part = TextPart string | JSONPart string | RefusalPart string | ImagePart media_source | DocumentPart media_source
  | ProviderStatePart string | OtherPart string

definition ActorHuman :: string where "ActorHuman = ''human''"
definition ActorModel :: string where "ActorModel = ''model''"

text \<open>
  \<open>Message actor content\<close>, \<open>ToolCall id name arguments\<close>, \<open>ToolResult callID name content isError\<close>,
  \<open>ProviderState provider family mediaType opaque\<close> and \<open>Reference uri metadata\<close>.
\<close>

datatype item = Message string "part list" | ToolCall string string string | ToolResult string string "part list" bool
  | ProviderState string string string string | Reference string "(string, string) gomap" | NilItem

record instruction =
  ins_Kind :: string
  ins_Level :: string
  ins_Text :: string
  ins_Content :: "part list"

record tool_policy =
  tp_Mode :: string
  tp_Name :: string
  tp_Parallel :: bool

record sampling_spec =
  sp_Temperature :: "float64 option"
  sp_TopP :: "float64 option"
  sp_TopK :: "int option"
  sp_Seed :: "int option"
  sp_PresencePenalty :: "float64 option"
  sp_FrequencyPenalty :: "float64 option"
  sp_StopSequences :: "string list"

text \<open>\<^verbatim>\<open>OutputSpec\<close> with the fields of its \<^verbatim>\<open>Format\<close>.\<close>

record output_spec =
  os_MaxTokens :: "int option"
  os_Kind :: string
  os_Name :: string
  os_Description :: string
  os_Strict :: bool
  os_Schema :: string

definition text_output :: "int option \<Rightarrow> output_spec" where
  "text_output n = \<lparr>os_MaxTokens = n, os_Kind = ''text'', os_Name = [], os_Description = [], os_Strict = False, os_Schema = []\<rparr>"

record tool =
  tl_Kind :: string
  tl_Name :: string
  tl_Description :: string
  tl_InputSchema :: string
  tl_OutputSchema :: string

record reasoning_spec =
  rs_Mode :: string
  rs_Effort :: string
  rs_TokenBudget :: "int option"
  rs_Summary :: string

record llm_continuation =
  lc_Handle :: string
  lc_EndpointID :: string
  lc_Model :: string
  lc_ExpiresAt :: "gotime option"
  lc_Pinned :: bool
  lc_ProviderStates :: "item list"

record request =
  rq_WebSearch :: bool
  rq_WebFetch :: bool
  rq_CodeExecution :: bool
  rq_APIVersion :: string
  rq_OperationKey :: string
  rq_Context :: request_context
  rq_Model :: string
  rq_ServiceClass :: service_class
  rq_ServiceClassFallbacks :: "service_class list"
  rq_Portability :: string
  rq_Instructions :: "instruction list"
  rq_Input :: "item list"
  rq_Tools :: "tool list"
  rq_ToolPolicy :: tool_policy
  rq_Output :: "output_spec option"
  rq_Sampling :: "sampling_spec option"
  rq_Reasoning :: "reasoning_spec option"
  rq_Continuation :: "llm_continuation option"
  rq_Extensions :: "(string, string) gomap"

definition PortabilityBestEffort :: string where "PortabilityBestEffort = ''best_effort''"
definition OutputKindText :: string where "OutputKindText = ''text''"
definition OutputKindJSON :: string where "OutputKindJSON = ''json''"
definition OutputKindJSONSchema :: string where "OutputKindJSONSchema = ''json_schema''"
definition ReasoningModeProviderDefault :: string where "ReasoningModeProviderDefault = ''provider_default''"

text \<open>
  The JSON codec, a parameter of the definitions that use it: \<^verbatim>\<open>llm.NormalizeRequest\<close>,
  \<^verbatim>\<open>llm.CanonicalJSONWithLimits\<close> of the marshalled request (\<open>None\<close> when it fails), \<^verbatim>\<open>json.Compact\<close>,
  \<^verbatim>\<open>json.Marshal\<close> of a string, the hexadecimal SHA-256 of bytes, and that of the canonical JSON
  of a candidate's identity fields.
\<close>

record codec =
  NormalizeRequest :: "request \<Rightarrow> string + request"
  CanonicalJSONWithLimits :: "int \<Rightarrow> int \<Rightarrow> request \<Rightarrow> string option"
  CompactJSON :: "string \<Rightarrow> string option"
  MarshalString :: "string \<Rightarrow> string"
  Sha256Hex :: "string \<Rightarrow> string"
  Candidate_Digest :: "string list \<times> nat \<times> nat \<Rightarrow> string option"

text \<open>\<^verbatim>\<open>llm.CanonicalJSON\<close> of the marshalled request.\<close>

definition CanonicalRequest :: "codec \<Rightarrow> request \<Rightarrow> string option" where
  "CanonicalRequest cd q = CanonicalJSONWithLimits cd (8 * 2 ^ 20) 128 q"

section \<open>Hosted tools\<close>

definition MaxWebSearchCalls :: int where "MaxWebSearchCalls = 3"

definition SupportsWebSearch :: "string \<Rightarrow> string \<Rightarrow> bool" where
  "SupportsWebSearch provider family =
     (if family = ''openai_responses'' then provider = ''openai''
      else if family = ''anthropic_messages'' then provider = ''anthropic''
      else if family = ''openai_chat'' then provider = ''openrouter''
      else False)"

definition SupportsHostedExecution :: "string \<Rightarrow> string \<Rightarrow> bool" where
  "SupportsHostedExecution provider family \<longleftrightarrow>
     (provider = ''openai'' \<and> family = ''openai_responses'') \<or> (provider = ''anthropic'' \<and> family = ''anthropic_messages'')"

text \<open>\<open>of_sum z r\<close> is Go's \<^verbatim>\<open>x, _ := f()\<close>: the value, or the zero value \<open>z\<close> that comes with an error.\<close>

definition of_sum :: "'a \<Rightarrow> 'e + 'a \<Rightarrow> 'a" where
  "of_sum z r = (case r of Inl _ \<Rightarrow> z | Inr x \<Rightarrow> x)"

definition HostedToolReservation :: "request \<Rightarrow> string \<Rightarrow> usd" where
  "HostedToolReservation q family =
     (let amount = (if rq_WebSearch q then of_sum (USD None) (ParseUSD ''0.03'') else of_sum (USD None) (ParseUSD ''0''))
      in if rq_CodeExecution q
         then let fee = (if family = ''anthropic_messages'' then of_sum (USD None) (ParseUSD ''0.05'')
                         else of_sum (USD None) (ParseUSD ''0.09''))
              in of_sum (USD None) (USD_Add amount fee)
         else amount)"

definition ToolResultErrorTextPrefix :: string where
  "ToolResultErrorTextPrefix = ''[is_error=true] The tool call failed; its output follows.'' @ [CHR 0x0A]"

definition SearchOutputInstruction :: "codec \<Rightarrow> request \<Rightarrow> string option" where
  "SearchOutputInstruction cd q =
     (if \<not> rq_WebSearch q then None
      else case rq_Output q of
             None \<Rightarrow> None
           | Some out \<Rightarrow>
               let prefix = ''Reply with only '';
                   suffix = '', with no other text, Markdown or citations before or after it.''
               in if os_Kind out = OutputKindJSON then Some (prefix @ ''a single JSON object'' @ suffix)
                  else if os_Kind out = OutputKindJSONSchema
                  then (case CompactJSON cd (os_Schema out) of
                          None \<Rightarrow> None
                        | Some schema \<Rightarrow> Some (prefix @ ''a JSON value that conforms to this JSON Schema'' @ suffix @ '' Schema: '' @ schema))
                  else None)"

section \<open>Facts\<close>

lemma class_valid_simps [simp]:
  "ServiceClass_Valid ServiceClassEconomy" "ServiceClass_Valid ServiceClassStandard" "ServiceClass_Valid ServiceClassPriority"
  by (simp_all add: ServiceClass_Valid_def)

lemma class_nonempty: "ServiceClass_Valid c \<Longrightarrow> c \<noteq> []"
  by (auto simp: ServiceClass_Valid_def ServiceClassEconomy_def ServiceClassStandard_def ServiceClassPriority_def)

lemma NormalizeServiceClass_Inr:
  "NormalizeServiceClass c = Inr n \<Longrightarrow> ServiceClass_Valid n \<and> (n = c \<or> c = [] \<and> n = ServiceClassStandard)"
  by (auto simp: NormalizeServiceClass_def split: if_splits)

lemma check_fallbacks_None:
  "check_fallbacks n seen i cs = None \<longleftrightarrow>
     (\<forall>c \<in> set cs. ServiceClass_Valid c \<and> c \<noteq> n \<and> c \<notin> set seen) \<and> distinct cs"
  by (induction n seen i cs rule: check_fallbacks.induct) auto

text \<open>The allowances are the documented rates: 3, 9 and 5 cents.\<close>

lemma HostedToolReservation_units:
  "usdUnits (HostedToolReservation q family) =
     (if rq_WebSearch q then 30000000000000000 else 0)
   + (if rq_CodeExecution q then (if family = ''anthropic_messages'' then 50000000000000000 else 90000000000000000) else 0)"
proof -
  have "ParseUSD ''0.03'' = Inr (USD (Some 30000000000000000))" "ParseUSD ''0.05'' = Inr (USD (Some 50000000000000000))"
    "ParseUSD ''0.09'' = Inr (USD (Some 90000000000000000))" "ParseUSD ''0'' = Inr (USD None)" by code_simp+
  moreover have "USD_Add (USD (Some 30000000000000000)) (USD (Some 50000000000000000)) = Inr (USD (Some 80000000000000000))"
    "USD_Add (USD (Some 30000000000000000)) (USD (Some 90000000000000000)) = Inr (USD (Some 120000000000000000))"
    "USD_Add (USD None) (USD (Some 50000000000000000)) = Inr (USD (Some 50000000000000000))"
    "USD_Add (USD None) (USD (Some 90000000000000000)) = Inr (USD (Some 90000000000000000))" by code_simp+
  ultimately show ?thesis by (simp add: HostedToolReservation_def of_sum_def Let_def usdUnits_def)
qed

end
