(* ===== verification/Continuation.thy ===== *)
theory Continuation
  imports Llm_Types Admission
begin

text \<open>
  Continuations and what binds them to a provider: \<^verbatim>\<open>state/continuation.go\<close>, \<^verbatim>\<open>state/pinning.go\<close>
  and \<^verbatim>\<open>state/provider_affinity.go\<close>. A 32-byte digest is a byte string, \<open>zero32\<close> the array of
  zeros. \<open>td\<close> is the digest of \<^verbatim>\<open>CanonicalTranscript\<close>, \<open>None\<close> when a transcript item does not
  encode.
\<close>

section \<open>Provider cache affinity\<close>

definition zero32 :: string where "zero32 = replicate 32 NUL"

datatype state_error = AffinityNegativeRank | AffinityFieldRequired nat | AffinityAccountRequired | AffinityKeyEmpty
  | AffinityNegativeUsage | AffinityNoSuccess | AffinityBadExpiry | AffinityDuplicateRank
  | ContinuationIdentity | ContinuationDepth | ErrExpired | TranscriptEncoding | TranscriptMismatch
  | PinningIncomplete | ProviderStateIncomplete nat | ProviderStateEmpty nat | ProviderStateMismatch nat

record affinity =
  af_Rank :: int
  af_Provider :: string
  af_RouteID :: string
  af_EndpointID :: string
  af_EndpointAccountHMAC :: string
  af_Region :: string
  af_EndpointFamily :: string
  af_ModelLineage :: string
  af_RouteModelRevision :: string
  af_ProviderCacheKeyHMAC :: string
  af_HasProviderCacheKey :: bool
  af_CacheEpoch :: string
  af_HardPinned :: bool
  af_ObservedCacheReadTokens :: int
  af_ObservedCacheWriteTokens :: int
  af_LastSuccessAt :: gotime
  af_ExpiresAt :: "gotime option"

definition affinity_fields :: "affinity \<Rightarrow> string list" where
  "affinity_fields a = [af_Provider a, af_RouteID a, af_EndpointID a, af_Region a, af_EndpointFamily a, af_ModelLineage a,
     af_RouteModelRevision a, af_CacheEpoch a]"

definition Affinity_Validate :: "affinity \<Rightarrow> state_error option" where
  "Affinity_Validate a =
     (if af_Rank a < 0 then Some AffinityNegativeRank
      else orElse (firstErr (\<lambda>(i, v). if v = [] then Some (AffinityFieldRequired i) else None) (enumerate 0 (affinity_fields a)))
        (if af_EndpointAccountHMAC a = zero32 then Some AffinityAccountRequired
         else if af_HasProviderCacheKey a \<and> af_ProviderCacheKeyHMAC a = zero32 then Some AffinityKeyEmpty
         else if af_ObservedCacheReadTokens a < 0 \<or> af_ObservedCacheWriteTokens a < 0 then Some AffinityNegativeUsage
         else if IsZero (af_LastSuccessAt a) then Some AffinityNoSuccess
         else case af_ExpiresAt a of
                None \<Rightarrow> None
              | Some x \<Rightarrow> if IsZero x \<or> \<not> x > af_LastSuccessAt a then Some AffinityBadExpiry else None))"

definition Affinity_Active :: "affinity \<Rightarrow> gotime \<Rightarrow> bool" where
  "Affinity_Active a now \<longleftrightarrow> Affinity_Validate a = None \<and> (case af_ExpiresAt a of None \<Rightarrow> True | Some x \<Rightarrow> now < x)"

fun check_affinities :: "int list \<Rightarrow> affinity list \<Rightarrow> state_error option" where
  "check_affinities seen [] = None"
| "check_affinities seen (a # as) =
     (case Affinity_Validate a of
        Some e \<Rightarrow> Some e
      | None \<Rightarrow> if af_Rank a \<in> set seen then Some AffinityDuplicateRank else check_affinities (af_Rank a # seen) as)"

definition AffinitySet_Validate :: "affinity list \<Rightarrow> state_error option" where
  "AffinitySet_Validate as = check_affinities [] as"

section \<open>Pinning\<close>

record pinning =
  pn_Provider :: string
  pn_EndpointID :: string
  pn_AccountRegion :: string
  pn_Family :: string
  pn_ModelLineage :: string

definition Pinning_Empty :: "pinning \<Rightarrow> bool" where
  "Pinning_Empty p \<longleftrightarrow> pn_Provider p = [] \<and> pn_EndpointID p = [] \<and> pn_AccountRegion p = [] \<and> pn_Family p = [] \<and> pn_ModelLineage p = []"

definition ValidatePinning :: "pinning \<Rightarrow> state_error option" where
  "ValidatePinning p =
     (if pn_Provider p = [] \<or> pn_EndpointID p = [] \<or> pn_Family p = [] \<or> pn_ModelLineage p = [] then Some PinningIncomplete else None)"

record constraints =
  cs_Present :: bool
  cs_Tenant :: string
  cs_Provider :: string
  cs_EndpointID :: string
  cs_AccountRegion :: string
  cs_Family :: string
  cs_ModelLineage :: string
  cs_RequiresOpaqueState :: bool
  cs_TranscriptComplete :: bool
  cs_Portability :: string
  cs_Affinities :: "affinity list"

datatype compatibility = CompatibilityCompatible | CompatibilityPortable | CompatibilityOptionalDrop | CompatibilityRejected

definition equalNonEmpty :: "string \<Rightarrow> string \<Rightarrow> bool" where
  "equalNonEmpty a b \<longleftrightarrow> a = [] \<or> b = [] \<or> a = b"

text \<open>The decision and the message of the first diagnostic.\<close>

definition CheckPinning :: "constraints \<Rightarrow> pinning \<Rightarrow> compatibility \<times> string option" where
  "CheckPinning c p =
     (if \<not> cs_Present c then (CompatibilityCompatible, None)
      else
        let sameLineage = equalNonEmpty (cs_Provider c) (pn_Provider p) \<and> equalNonEmpty (cs_EndpointID c) (pn_EndpointID p)
              \<and> equalNonEmpty (cs_AccountRegion c) (pn_AccountRegion p) \<and> equalNonEmpty (cs_Family c) (pn_Family p)
              \<and> equalNonEmpty (cs_ModelLineage c) (pn_ModelLineage p)
        in if cs_RequiresOpaqueState c then
             (if cs_Provider c = [] \<or> cs_EndpointID c = [] \<or> cs_Family c = [] \<or> cs_ModelLineage c = []
                 \<or> cs_Provider c \<noteq> pn_Provider p \<or> cs_EndpointID c \<noteq> pn_EndpointID p
                 \<or> cs_AccountRegion c \<noteq> pn_AccountRegion p \<or> cs_Family c \<noteq> pn_Family p \<or> cs_ModelLineage c \<noteq> pn_ModelLineage p
              then (CompatibilityRejected, Some ''required provider continuation state has no matching route pin'')
              else (CompatibilityCompatible, None))
           else if sameLineage then (CompatibilityCompatible, None)
           else if cs_TranscriptComplete c \<and> cs_Portability c = PortabilityBestEffort
           then (CompatibilityPortable, Some ''optional provider state was not replayed on this lineage'')
           else (CompatibilityRejected, Some ''continuation requires its original provider lineage''))"

section \<open>Continuations\<close>

record opaque_state_ref =
  op_Provider :: string
  op_EndpointID :: string
  op_AccountRegion :: string
  op_Family :: string
  op_ModelLineage :: string
  op_Media :: string
  op_Data :: string
  op_Required :: bool

record continuation =
  cn_ID :: string
  cn_Tenant :: string
  cn_ParentID :: string
  cn_Transcript :: "item list"
  cn_TranscriptDigest :: string
  cn_TranscriptComplete :: bool
  cn_ProviderState :: "opaque_state_ref list"
  cn_Affinities :: "affinity list"
  cn_Pinning :: pinning
  cn_LastOperationID :: string
  cn_CapabilityVersion :: string
  cn_PriceVersion :: string
  cn_CreatedAt :: gotime
  cn_ExpiresAt :: gotime
  cn_Depth :: int

definition BlobRef_Valid :: "blob_ref \<Rightarrow> bool" where
  "BlobRef_Valid r \<longleftrightarrow> br_Size r \<ge> 0 \<and> br_Media r \<noteq> [] \<and> br_Digest r \<noteq> zero32"

definition providerStateMatchesPinning :: "opaque_state_ref \<Rightarrow> pinning \<Rightarrow> bool" where
  "providerStateMatchesPinning st p \<longleftrightarrow> op_Provider st = pn_Provider p \<and> op_EndpointID st = pn_EndpointID p
     \<and> op_AccountRegion st = pn_AccountRegion p \<and> op_Family st = pn_Family p \<and> op_ModelLineage st = pn_ModelLineage p"

definition check_provider_state :: "pinning \<Rightarrow> nat \<times> opaque_state_ref \<Rightarrow> state_error option" where
  "check_provider_state p ist =
     (case ist of (i, st) \<Rightarrow>
      if op_Provider st = [] \<or> op_EndpointID st = [] \<or> op_Family st = [] \<or> op_Media st = [] then Some (ProviderStateIncomplete i)
      else if op_Data st = [] then Some (ProviderStateEmpty i)
      else if \<not> providerStateMatchesPinning st p then Some (ProviderStateMismatch i)
      else if op_Required st then ValidatePinning p else None)"

definition Continuation_Validate :: "(item list \<Rightarrow> string option) \<Rightarrow> gotime \<Rightarrow> continuation \<Rightarrow> state_error option" where
  "Continuation_Validate td now c =
     (if cn_ID c = [] \<or> cn_Tenant c = [] then Some ContinuationIdentity
      else if cn_Depth c < 0 then Some ContinuationDepth
      else if IsZero (cn_ExpiresAt c) \<or> \<not> now < cn_ExpiresAt c then Some ErrExpired
      else case td (cn_Transcript c) of
             None \<Rightarrow> Some TranscriptEncoding
           | Some digest \<Rightarrow>
               if digest \<noteq> cn_TranscriptDigest c then Some TranscriptMismatch
               else orElse (if cn_ProviderState c \<noteq> [] then ValidatePinning (cn_Pinning c) else None)
                 (orElse (firstErr (check_provider_state (cn_Pinning c)) (enumerate 0 (cn_ProviderState c)))
                   (AffinitySet_Validate (cn_Affinities c))))"

definition Constraints :: "string \<Rightarrow> continuation \<Rightarrow> constraints" where
  "Constraints mode c =
     \<lparr>cs_Present = (cn_ID c \<noteq> []), cs_Tenant = cn_Tenant c, cs_Provider = pn_Provider (cn_Pinning c),
      cs_EndpointID = pn_EndpointID (cn_Pinning c), cs_AccountRegion = pn_AccountRegion (cn_Pinning c),
      cs_Family = pn_Family (cn_Pinning c), cs_ModelLineage = pn_ModelLineage (cn_Pinning c),
      cs_RequiresOpaqueState = fold (\<lambda>st requires. requires \<or> op_Required st) (cn_ProviderState c) False,
      cs_TranscriptComplete = cn_TranscriptComplete c, cs_Portability = mode, cs_Affinities = cn_Affinities c\<rparr>"

section \<open>Provider state never leaves its lineage\<close>

lemma fold_required: "fold (\<lambda>st requires. requires \<or> op_Required st) sts b \<longleftrightarrow> b \<or> (\<exists>st \<in> set sts. op_Required st)"
  by (induction sts arbitrary: b) auto

lemma CheckPinning_required:
  assumes "cs_Present c" and "cs_RequiresOpaqueState c" and "fst (CheckPinning c p) \<noteq> CompatibilityRejected"
  shows "p = \<lparr>pn_Provider = cs_Provider c, pn_EndpointID = cs_EndpointID c, pn_AccountRegion = cs_AccountRegion c,
             pn_Family = cs_Family c, pn_ModelLineage = cs_ModelLineage c\<rparr>"
    and "cs_Provider c \<noteq> []" and "cs_EndpointID c \<noteq> []" and "cs_Family c \<noteq> []" and "cs_ModelLineage c \<noteq> []"
  using assms by (cases p; auto simp: CheckPinning_def Let_def split: if_splits)+

text \<open>C23: state a provider requires to be replayed never leaves its lineage: when a continuation passed validation and holds a
  required opaque state, a route is only compatible when its pin is exactly the provider, endpoint, account region, family and model
  lineage recorded with every provider state of the continuation, whatever the portability mode.\<close>

theorem required_state_pins_route:
  assumes "Continuation_Validate td now c = None" and "st \<in> set (cn_ProviderState c)" and "op_Required st"
    and "fst (CheckPinning (Constraints mode c) p) \<noteq> CompatibilityRejected"
  shows "p = cn_Pinning c \<and> (\<forall>s \<in> set (cn_ProviderState c). providerStateMatchesPinning s p) \<and> op_Provider st \<noteq> [] \<and> op_EndpointID st \<noteq> []"
proof -
  have ne: "cn_ID c \<noteq> []" using assms(1) by (auto simp: Continuation_Validate_def split: if_splits)
  have pres: "cs_Present (Constraints mode c)" "cs_RequiresOpaqueState (Constraints mode c)"
    using ne assms(2,3) by (auto simp: Constraints_def fold_required)
  have p: "p = cn_Pinning c" using CheckPinning_required(1)[OF pres assms(4)] by (cases "cn_Pinning c") (simp add: Constraints_def)
  have err: "firstErr (check_provider_state (cn_Pinning c)) (enumerate 0 (cn_ProviderState c)) = None"
    using assms(1) by (auto simp: Continuation_Validate_def split: if_splits option.splits)
  have each: "check_provider_state (cn_Pinning c) (i, s) = None" if "(i, s) \<in> set (enumerate 0 (cn_ProviderState c))" for i s
    using err that by (auto simp: firstErr_None_iff)
  have "providerStateMatchesPinning s (cn_Pinning c) \<and> op_Provider s \<noteq> [] \<and> op_EndpointID s \<noteq> []"
    if s: "s \<in> set (cn_ProviderState c)" for s
  proof -
    obtain i where "i < length (cn_ProviderState c)" "cn_ProviderState c ! i = s" using s by (auto simp: in_set_conv_nth)
    then have "(i, s) \<in> set (enumerate 0 (cn_ProviderState c))" by (auto simp: in_set_enumerate_eq)
    from each[OF this] show ?thesis by (auto simp: check_provider_state_def split: if_splits)
  qed
  then show ?thesis using p assms(2) by blast
qed

definition demo_pinning :: pinning where
  "demo_pinning = \<lparr>pn_Provider = ''openai'', pn_EndpointID = ''e'', pn_AccountRegion = '''', pn_Family = ''openai_responses'', pn_ModelLineage = ''m''\<rparr>"

definition demo_state :: opaque_state_ref where
  "demo_state = \<lparr>op_Provider = ''openai'', op_EndpointID = ''e'', op_AccountRegion = '''', op_Family = ''openai_responses'',
     op_ModelLineage = ''m'', op_Media = ''x'', op_Data = ''data'', op_Required = True\<rparr>"

definition demo_continuation :: continuation where
  "demo_continuation = \<lparr>cn_ID = ''c'', cn_Tenant = ''t'', cn_ParentID = [], cn_Transcript = [], cn_TranscriptDigest = ''d'',
     cn_TranscriptComplete = True, cn_ProviderState = [demo_state], cn_Affinities = [], cn_Pinning = demo_pinning, cn_LastOperationID = [],
     cn_CapabilityVersion = [], cn_PriceVersion = [], cn_CreatedAt = 0, cn_ExpiresAt = 100, cn_Depth = 0\<rparr>"

theorem required_state_pins_route_witness:
  "providerStateMatchesPinning demo_state demo_pinning
   \<and> fst (CheckPinning (Constraints PortabilityBestEffort demo_continuation) (demo_pinning\<lparr>pn_AccountRegion := ''eu''\<rparr>)) = CompatibilityRejected"
proof -
  have v: "Continuation_Validate (\<lambda>t. Some ''d'') 50 demo_continuation = None" by code_simp
  have s: "demo_state \<in> set (cn_ProviderState demo_continuation)" by (simp add: demo_continuation_def)
  have r: "op_Required demo_state" by (simp add: demo_state_def)
  have ok: "fst (CheckPinning (Constraints PortabilityBestEffort demo_continuation) demo_pinning) \<noteq> CompatibilityRejected" by code_simp
  have no: "fst (CheckPinning (Constraints PortabilityBestEffort demo_continuation) (demo_pinning\<lparr>pn_AccountRegion := ''eu''\<rparr>)) = CompatibilityRejected"
    by code_simp
  show ?thesis using required_state_pins_route[OF v s r ok] s no by blast
qed

end
