(* ===== verification/Routing.thy ===== *)
theory Routing
  imports Continuation "HOL-Library.Product_Lexorder"
begin

text \<open>
  Package \<^verbatim>\<open>routing\<close>: route catalogs and class policies, passive health, eligibility, the
  deterministic planner, provider cache affinity and the executor's next decision. The JSON
  codec and SHA-256 are the parameter \<open>cd\<close>; a candidate ID is \<open>Candidate_Digest\<close> of exactly
  the fields \<^verbatim>\<open>digestCandidate\<close> hashes.
\<close>

section \<open>Capabilities\<close>

record capability =
  ca_State :: string
  ca_Transform :: string
  ca_Reason :: string

record capability_set =
  cas_Version :: string
  cas_Features :: "(string, capability) gomap"

definition CapabilityNative :: string where "CapabilityNative = ''native''"
definition CapabilityEmulated :: string where "CapabilityEmulated = ''emulated''"
definition CapabilityUnsupported :: string where "CapabilityUnsupported = ''unsupported''"
definition CapabilityUnknown :: string where "CapabilityUnknown = ''unknown''"

definition CapabilityState_Valid :: "string \<Rightarrow> bool" where
  "CapabilityState_Valid s \<longleftrightarrow> s = CapabilityNative \<or> s = CapabilityEmulated \<or> s = CapabilityUnsupported \<or> s = CapabilityUnknown"

text \<open>The resolved capability, and whether \<^verbatim>\<open>Resolve\<close> returns an error with it.\<close>

definition CapabilitySet_Resolve :: "capability_set \<Rightarrow> string \<Rightarrow> bool \<Rightarrow> capability \<times> bool" where
  "CapabilitySet_Resolve caps feature strict =
     (let capability = (case mget (cas_Features caps) feature of
            None \<Rightarrow> \<lparr>ca_State = CapabilityUnknown, ca_Transform = [], ca_Reason = ''no verified capability''\<rparr>
          | Some c \<Rightarrow> c)
      in if \<not> CapabilityState_Valid (ca_State capability) then (capability, True)
         else if strict \<and> (ca_State capability = CapabilityUnsupported \<or> ca_State capability = CapabilityUnknown) then (capability, True)
         else (capability, False))"

section \<open>Routes and candidates\<close>

record price_window =
  pw_From :: gotime
  pw_Until :: gotime

record route =
  rt_ID :: string
  rt_EndpointID :: string
  rt_Provider :: string
  rt_Family :: string
  rt_Region :: string
  rt_AccountRegion :: string
  rt_EndpointAccountHMAC :: string
  rt_EndpointAccountDigest :: string
  rt_EndpointDigest :: string
  rt_LegacyEndpointDigest :: string
  rt_Model :: string
  rt_ModelLineage :: string
  rt_ModelRevision :: string
  rt_Classes :: "service_class list"
  rt_ProviderTiers :: "(service_class, string) gomap"
  rt_AllowedTenants :: "string list"
  rt_AllowedRegions :: "string list"
  rt_Capabilities :: capability_set
  rt_ProviderFeatures :: "(string, capability) gomap"
  rt_PriceVersion :: string
  rt_PriceAvailable :: bool
  rt_PricedWindows :: "price_window list option"
  rt_ExtensionNames :: "string list"
  rt_ContextBytes :: int
  rt_OutputTokens :: int
  rt_ContextTokens :: int
  rt_Pinning :: pinning

record candidate =
  c_ID :: string
  c_RouteID :: string
  c_EndpointID :: string
  c_Provider :: string
  c_Family :: string
  c_Region :: string
  c_EndpointAccountHMAC :: string
  c_EndpointDigest :: string
  c_LegacyEndpointDigest :: string
  c_Model :: string
  c_ModelLineage :: string
  c_ModelRevision :: string
  c_PriceAvailable :: bool
  c_RequestedClass :: service_class
  c_AttemptedClass :: service_class
  c_FallbackIndex :: nat
  c_RouteIndex :: nat
  c_ContextTokens :: int
  c_ProviderTier :: string
  c_CapabilityVersion :: string
  c_PriceVersion :: string
  c_ExtensionDigest :: string
  c_Pinning :: pinning
  c_EndpointAccountDigest :: string

record rejection =
  rj_Code :: string
  rj_RouteID :: string
  rj_Path :: string
  rj_Detail :: string

record plan =
  pl_Version :: string
  pl_Model :: string
  pl_Candidates :: "candidate list"
  pl_Rejections :: "rejection list"
  pl_DigestHex :: string

definition empty_plan :: plan where
  "empty_plan = \<lparr>pl_Version = [], pl_Model = [], pl_Candidates = [], pl_Rejections = [], pl_DigestHex = []\<rparr>"

record model =
  md_Name :: string
  md_Routes :: "route list"

record class_policy =
  cp_ID :: string
  cp_Tenant :: string
  cp_Project :: string
  cp_Classes :: "service_class list"
  cp_DefaultClass :: service_class

record route_catalog =
  rcat_Version :: string
  rcat_Models :: "(string, model) gomap"
  rcat_ClassPolicies :: "class_policy list"

datatype routing_error = RoutingContext | NormalizeFailed string | RequestClass llm_error | ModelRequired | AffinityTimeRequired
  | NoConfiguredRoutes | NoEligibleCandidates | NegativeOutputLimit | NegativeContextLimit | RouteIncomplete | RouteNoClasses
  | RouteUnknownClass | RouteUnknownTierClass | CatalogVersionRequired | ModelHasNoRoutes string | DuplicateRoute string
  | PolicyIDRequired | PolicyUnknownClass | PolicyRepeatsClass | PolicyNoStandard | PolicyBadDefault | DuplicatePolicy string | ConflictingDefaults
  | HardPinNotMarked | HardPinInvalid state_error | SoftInvalid state_error | SoftMarkedHard nat | SoftRanks | DuplicateAffinity
  | HardPinExpired | HardPinIneligible | EmptyRoutePlan | DigestFailed

definition validateRouteShape :: "route \<Rightarrow> routing_error option" where
  "validateRouteShape r =
     (if rt_OutputTokens r < 0 then Some NegativeOutputLimit
      else if rt_ContextTokens r < 0 then Some NegativeContextLimit
      else if rt_ID r = [] \<or> rt_EndpointID r = [] \<or> rt_Provider r = [] \<or> rt_Model r = [] \<or> rt_Family r = [] then Some RouteIncomplete
      else if rt_Classes r = [] then Some RouteNoClasses
      else if \<not> list_all ServiceClass_Valid (rt_Classes r) then Some RouteUnknownClass
      else if \<not> list_all (\<lambda>(c, tier). ServiceClass_Valid c) (rt_ProviderTiers r) then Some RouteUnknownTierClass
      else None)"

definition SupportsOutputLimit :: "route \<Rightarrow> request \<Rightarrow> bool" where
  "SupportsOutputLimit r q \<longleftrightarrow>
     (if rt_OutputTokens r = 0 then True
      else rt_OutputTokens r > 0 \<and>
        (case rq_Output q of None \<Rightarrow> False
         | Some out \<Rightarrow> case os_MaxTokens out of None \<Rightarrow> False | Some m \<Rightarrow> m > 0 \<and> m \<le> rt_OutputTokens r))"

definition PriceWindow_Contains :: "price_window \<Rightarrow> gotime \<Rightarrow> bool" where
  "PriceWindow_Contains w now \<longleftrightarrow> (IsZero (pw_From w) \<or> \<not> now < pw_From w) \<and> (IsZero (pw_Until w) \<or> now < pw_Until w)"

definition PriceAvailableAt :: "route \<Rightarrow> gotime \<Rightarrow> bool" where
  "PriceAvailableAt r now =
     (case rt_PricedWindows r of
        None \<Rightarrow> rt_PriceAvailable r
      | Some ws \<Rightarrow> if IsZero now then rt_PriceAvailable r else list_ex (\<lambda>w. PriceWindow_Contains w now) ws)"

definition candidate_identity ::
  "route \<Rightarrow> service_class \<Rightarrow> service_class \<Rightarrow> nat \<Rightarrow> nat \<Rightarrow> string \<Rightarrow> string list \<times> nat \<times> nat" where
  "candidate_identity r requested attempted fallback routeIndex ext =
     ([rt_ID r, rt_EndpointID r, rt_Provider r, rt_Family r, rt_Model r, rt_ModelLineage r, rt_ModelRevision r,
       requested, attempted, mgetd [] (rt_ProviderTiers r) attempted, cas_Version (rt_Capabilities r), rt_PriceVersion r, ext,
       rt_AccountRegion r, rt_Region r, rt_EndpointAccountHMAC r], fallback, routeIndex)"

definition digestCandidate ::
  "codec \<Rightarrow> route \<Rightarrow> service_class \<Rightarrow> service_class \<Rightarrow> nat \<Rightarrow> nat \<Rightarrow> string \<Rightarrow> string option" where
  "digestCandidate cd r requested attempted fallback routeIndex ext =
     Candidate_Digest cd (candidate_identity r requested attempted fallback routeIndex ext)"

definition PinnedPriceID :: "codec \<Rightarrow> candidate \<Rightarrow> route \<Rightarrow> string \<Rightarrow> string option" where
  "PinnedPriceID cd c r priceVersion =
     (if priceVersion = [] \<or> rt_ID r \<noteq> c_RouteID c \<or> rt_EndpointID r \<noteq> c_EndpointID c then None
      else digestCandidate cd (r\<lparr>rt_ModelLineage := c_ModelLineage c, rt_PriceVersion := priceVersion\<rparr>)
             (c_RequestedClass c) (c_AttemptedClass c) (c_FallbackIndex c) (c_RouteIndex c) (c_ExtensionDigest c))"

section \<open>Class policies\<close>

fun check_policy_classes :: "service_class list \<Rightarrow> service_class list \<Rightarrow> routing_error option" where
  "check_policy_classes seen [] = (if ServiceClassStandard \<in> set seen then None else Some PolicyNoStandard)"
| "check_policy_classes seen (c # cs) =
     (if \<not> ServiceClass_Valid c then Some PolicyUnknownClass
      else if c \<in> set seen then Some PolicyRepeatsClass
      else check_policy_classes (c # seen) cs)"

definition ClassPolicy_Validate :: "class_policy \<Rightarrow> routing_error option" where
  "ClassPolicy_Validate p =
     (if cp_ID p = [] then Some PolicyIDRequired
      else orElse (check_policy_classes [] (cp_Classes p))
        (if cp_DefaultClass p \<noteq> [] \<and> (\<not> ServiceClass_Valid (cp_DefaultClass p) \<or> cp_DefaultClass p \<notin> set (cp_Classes p))
         then Some PolicyBadDefault else None))"

definition policy_matches :: "class_policy \<Rightarrow> request_context \<Rightarrow> bool" where
  "policy_matches p ctx \<longleftrightarrow> (cp_Tenant p = [] \<or> cp_Tenant p = rc_Tenant ctx) \<and> (cp_Project p = [] \<or> cp_Project p = rc_Project ctx)"

definition specificity :: "class_policy \<Rightarrow> int" where
  "specificity p = (if cp_Tenant p \<noteq> [] then 1 else 0) + (if cp_Project p \<noteq> [] then 2 else 0)"

fun select_default :: "request_context \<Rightarrow> service_class \<Rightarrow> int \<Rightarrow> class_policy list \<Rightarrow> service_class" where
  "select_default caller selected best [] = selected"
| "select_default caller selected best (p # ps) =
     (if cp_DefaultClass p = [] \<or> \<not> policy_matches p caller then select_default caller selected best ps
      else if specificity p > best then select_default caller (cp_DefaultClass p) (specificity p) ps
      else select_default caller selected best ps)"

definition DefaultServiceClass :: "route_catalog \<Rightarrow> request_context \<Rightarrow> service_class" where
  "DefaultServiceClass cat caller = select_default caller [] (- 1) (rcat_ClassPolicies cat)"

definition classEnabled :: "route_catalog \<Rightarrow> request_context \<Rightarrow> service_class \<Rightarrow> bool" where
  "classEnabled cat ctx c \<longleftrightarrow>
     c = ServiceClassStandard \<or> \<not> list_ex (\<lambda>p. policy_matches p ctx \<and> c \<notin> set (cp_Classes p)) (rcat_ClassPolicies cat)"

definition offers :: "model \<Rightarrow> service_class \<Rightarrow> bool" where
  "offers m c \<longleftrightarrow> list_ex (\<lambda>r. c \<in> set (rt_Classes r) \<and> mgetd [] (rt_ProviderTiers r) c \<noteq> []) (md_Routes m)"

definition add_class :: "route_catalog \<Rightarrow> request \<Rightarrow> service_class \<Rightarrow> service_class list \<Rightarrow> service_class list" where
  "add_class cat q c classes =
     (let known = mget (rcat_Models cat) (rq_Model q);
          c = (if \<not> classEnabled cat (rq_Context q) c \<or> (case known of None \<Rightarrow> False | Some m \<Rightarrow> \<not> offers m c)
               then ServiceClassStandard else c)
      in if c \<in> set classes then classes else classes @ [c])"

definition ServiceClasses :: "route_catalog \<Rightarrow> request \<Rightarrow> llm_error + service_class list" where
  "ServiceClasses cat q =
     (case NormalizeServiceClass (rq_ServiceClass q) of
        Inl e \<Rightarrow> Inl e
      | Inr requested \<Rightarrow> Inr (fold (add_class cat q) (requested # rq_ServiceClassFallbacks q) []))"

section \<open>Passive health\<close>

datatype failure_kind = FailureDefiniteTransient | FailureAuthentication | FailureConfiguration | FailureAmbiguous
  | FailureSuccess | FailureOther string

record route_health =
  rh_Open :: bool
  rh_AuthOpen :: bool
  rh_Enabled :: bool
  rh_Reason :: string
  rh_SnapshotID :: string

record health_entry =
  he_RouteID :: string
  he_Failures :: int
  he_OpenUntil :: gotime
  he_Authentication :: bool
  he_SnapshotID :: string

record passive_health =
  ph_Threshold :: int
  ph_Cooldown :: int
  ph_entries :: "(string, health_entry) gomap"

definition NewPassiveHealth :: "int \<Rightarrow> int \<Rightarrow> passive_health" where
  "NewPassiveHealth threshold cooldown =
     \<lparr>ph_Threshold = (if threshold \<le> 0 then 3 else threshold), ph_Cooldown = (if cooldown \<le> 0 then 30 * 10 ^ 9 else cooldown), ph_entries = []\<rparr>"

definition zero_health_entry :: health_entry where
  "zero_health_entry = \<lparr>he_RouteID = [], he_Failures = 0, he_OpenUntil = zero_time, he_Authentication = False, he_SnapshotID = []\<rparr>"

definition record_kind :: "passive_health \<Rightarrow> gotime \<Rightarrow> failure_kind \<Rightarrow> health_entry \<Rightarrow> health_entry" where
  "record_kind h now kind e =
     (case kind of
        FailureSuccess \<Rightarrow> e\<lparr>he_Failures := 0, he_OpenUntil := zero_time, he_Authentication := False\<rparr>
      | FailureDefiniteTransient \<Rightarrow>
          let e = e\<lparr>he_Failures := wrap64 (he_Failures e + 1)\<rparr>
          in if he_Failures e \<ge> ph_Threshold h then e\<lparr>he_OpenUntil := now + ph_Cooldown h\<rparr> else e
      | FailureAuthentication \<Rightarrow> e\<lparr>he_Authentication := True, he_OpenUntil := zero_time\<rparr>
      | FailureConfiguration \<Rightarrow> e\<lparr>he_Authentication := True, he_OpenUntil := zero_time\<rparr>
      | FailureAmbiguous \<Rightarrow> e
      | FailureOther _ \<Rightarrow> e)"

definition Health_Record :: "gotime \<Rightarrow> string \<Rightarrow> string \<Rightarrow> failure_kind \<Rightarrow> passive_health \<Rightarrow> passive_health" where
  "Health_Record now routeID snapshotID kind h =
     (if routeID = [] then h
      else let e = (mgetd zero_health_entry (ph_entries h) routeID)\<lparr>he_RouteID := routeID\<rparr>;
               e = (if he_SnapshotID e \<noteq> snapshotID \<and> snapshotID \<noteq> []
                    then zero_health_entry\<lparr>he_RouteID := routeID, he_SnapshotID := snapshotID\<rparr> else e)
           in h\<lparr>ph_entries := mput routeID (record_kind h now kind e) (ph_entries h)\<rparr>)"

definition healthReason :: "health_entry \<Rightarrow> string" where
  "healthReason e = (if he_Authentication e then ''authentication or configuration failure''
     else if he_Failures e > 0 then ''definite transient failures'' else '''')"

definition view_entry :: "gotime \<Rightarrow> string \<Rightarrow> health_entry \<Rightarrow> route_health option" where
  "view_entry now snapshotID e =
     (if snapshotID \<noteq> [] \<and> he_SnapshotID e \<noteq> [] \<and> he_SnapshotID e \<noteq> snapshotID then None
      else let opened = he_Authentication e \<or> (\<not> IsZero (he_OpenUntil e) \<and> now < he_OpenUntil e);
               opened = (if \<not> IsZero (he_OpenUntil e) \<and> \<not> now < he_OpenUntil e \<and> \<not> he_Authentication e then False else opened)
           in Some \<lparr>rh_Open = opened, rh_AuthOpen = he_Authentication e, rh_Enabled = True, rh_Reason = healthReason e,
                    rh_SnapshotID = snapshotID\<rparr>)"

definition Health_View :: "gotime \<Rightarrow> string \<Rightarrow> passive_health \<Rightarrow> (string, route_health) gomap" where
  "Health_View now snapshotID h =
     List.map_filter (\<lambda>(rid, e). map_option (\<lambda>v. (rid, v)) (view_entry now snapshotID e)) (ph_entries h)"

definition forRoute :: "(string, route_health) gomap \<Rightarrow> string \<Rightarrow> route_health" where
  "forRoute view rid = (case mget view rid of
     None \<Rightarrow> \<lparr>rh_Open = False, rh_AuthOpen = False, rh_Enabled = True, rh_Reason = [], rh_SnapshotID = []\<rparr>
   | Some h \<Rightarrow> h)"

end
