(* ===== verification/Planner.thy ===== *)
theory Planner
  imports Routing
begin

text \<open>
  The deterministic planner (\<^verbatim>\<open>planner.go\<close>), provider cache affinity (\<^verbatim>\<open>affinity.go\<close>), the
  executor's next decision (\<^verbatim>\<open>executor_policy.go\<close>, \<^verbatim>\<open>attempt.go\<close>) and catalog compilation.
  The detail of a rejection that carries the text of a Go error is a fixed word.
\<close>

section \<open>Eligibility\<close>

definition RejectTenant :: string where "RejectTenant = ''route_tenant_not_allowed''"
definition RejectRegion :: string where "RejectRegion = ''route_region_not_allowed''"
definition RejectModel :: string where "RejectModel = ''route_model_mismatch''"
definition RejectHealth :: string where "RejectHealth = ''route_health_open''"
definition RejectCapability :: string where "RejectCapability = ''route_capability_unavailable''"
definition RejectExtension :: string where "RejectExtension = ''route_extension_unsupported''"
definition RejectContext :: string where "RejectContext = ''route_context_limit''"
definition RejectContinuation :: string where "RejectContinuation = ''continuation_pinned''"
definition RejectClass :: string where "RejectClass = ''route_service_class_unavailable''"
definition RejectInvalid :: string where "RejectInvalid = ''route_invalid''"

definition reject :: "route \<Rightarrow> string \<Rightarrow> string \<Rightarrow> string \<Rightarrow> rejection" where
  "reject r code path detail = \<lparr>rj_Code = code, rj_RouteID = rt_ID r, rj_Path = path, rj_Detail = detail\<rparr>"

definition requiredFeatures :: "request \<Rightarrow> constraints \<Rightarrow> string list" where
  "requiredFeatures q cont =
     [''text''] @ (if rq_Tools q \<noteq> [] then [''tool_call''] else [])
     @ (case rq_Output q of None \<Rightarrow> [] | Some out \<Rightarrow> if os_Kind out \<noteq> OutputKindText then [''structured_output''] else [])
     @ (case rq_Reasoning q of None \<Rightarrow> [] | Some rs \<Rightarrow> if rs_Mode rs \<noteq> ReasoningModeProviderDefault then [''reasoning''] else [])
     @ (if cs_Present cont then [''continuation''] else [])"

definition extensionDigest :: "codec \<Rightarrow> request \<Rightarrow> string" where
  "extensionDigest cd q =
     (if rq_Extensions q = [] then [] else Sha256Hex cd (case CanonicalRequest cd q of None \<Rightarrow> [] | Some j \<Rightarrow> j))"

definition toolResultErrorOverheadBytes :: "request \<Rightarrow> string \<Rightarrow> nat" where
  "toolResultErrorOverheadBytes q family =
     (if family \<noteq> ''openai_responses'' \<and> family \<noteq> ''openai_chat'' then 0
      else length (filter (\<lambda>i. case i of ToolResult _ _ _ isError \<Rightarrow> isError | _ \<Rightarrow> False) (rq_Input q))
           * (length ToolResultErrorTextPrefix + 1))"

definition system_message_json :: string where
  "system_message_json = ''{'' @ [CHR 0x22] @ ''role'' @ [CHR 0x22] @ '':'' @ [CHR 0x22] @ ''system'' @ [CHR 0x22] @ '','' @ [CHR 0x22]
     @ ''content'' @ [CHR 0x22] @ '':[{'' @ [CHR 0x22] @ ''type'' @ [CHR 0x22] @ '':'' @ [CHR 0x22] @ ''text'' @ [CHR 0x22] @ '',''
     @ [CHR 0x22] @ ''text'' @ [CHR 0x22] @ '':}]},''"

definition AdapterTextOverheadBytes :: "codec \<Rightarrow> request \<Rightarrow> string \<Rightarrow> nat" where
  "AdapterTextOverheadBytes cd q family =
     toolResultErrorOverheadBytes q family +
     (if family = ''openai_chat''
      then (case SearchOutputInstruction cd q of
              None \<Rightarrow> 0
            | Some instruction \<Rightarrow> length (MarshalString cd instruction) + length system_message_json)
      else 0)"

definition route_lineage :: "route \<Rightarrow> string" where
  "route_lineage r = (if rt_ModelLineage r = [] then rt_Model r else rt_ModelLineage r)"

definition route_revision :: "route \<Rightarrow> string" where
  "route_revision r = (if rt_ModelRevision r = [] then rt_Model r else rt_ModelRevision r)"

definition route_pin :: "route \<Rightarrow> pinning" where
  "route_pin r = (if pn_Provider (rt_Pinning r) = []
     then \<lparr>pn_Provider = rt_Provider r, pn_EndpointID = rt_EndpointID r, pn_AccountRegion = rt_AccountRegion r,
           pn_Family = rt_Family r, pn_ModelLineage = route_lineage r\<rparr>
     else rt_Pinning r)"

text \<open>The first half of \<^verbatim>\<open>evaluate\<close>: access, class, health, features, extensions and hosted tools.\<close>

definition check_access :: "request \<Rightarrow> route \<Rightarrow> rejection option" where
  "check_access q r =
     (if rt_AllowedTenants r \<noteq> [] \<and> rc_Tenant (rq_Context q) = []
      then Some (reject r RejectTenant ''context.tenant'' ''route requires a request tenant'')
      else if rt_AllowedTenants r \<noteq> [] \<and> rc_Tenant (rq_Context q) \<notin> set (rt_AllowedTenants r)
      then Some (reject r RejectTenant ''context.tenant'' ''route does not permit the request tenant'')
      else let region = mgetd [] (rc_Tags (rq_Context q)) ''region''
           in if region \<noteq> [] \<and> rt_AllowedRegions r \<noteq> [] \<and> region \<notin> set (rt_AllowedRegions r)
              then Some (reject r RejectRegion ''context.tags.region'' ''route does not permit the requested region'')
              else if rt_Model r = [] then Some (reject r RejectModel ''route.model'' ''route model is empty'')
              else None)"

definition check_class :: "service_class \<Rightarrow> (string, route_health) gomap \<Rightarrow> route \<Rightarrow> rejection option" where
  "check_class attempted health r =
     (if attempted \<notin> set (rt_Classes r)
      then Some (reject r RejectClass ''route.classes'' (''route is not authorized for service class '' @ attempted))
      else let status = forRoute health (rt_ID r)
           in if \<not> rh_Enabled status \<or> rh_Open status \<or> rh_AuthOpen status
              then Some (reject r RejectHealth ''health'' ''route is disabled or health-open'')
              else if list_ex (\<lambda>(f, cap). \<not> CapabilityState_Valid (ca_State cap)) (cas_Features (rt_Capabilities r))
              then Some (reject r RejectCapability ''capabilities'' ''route contains an invalid capability state'')
              else None)"

definition check_feature :: "request \<Rightarrow> route \<Rightarrow> string \<Rightarrow> rejection option" where
  "check_feature q r feature =
     (case CapabilitySet_Resolve (rt_Capabilities r) feature (rq_Portability q \<noteq> PortabilityBestEffort) of
        (cap, err) \<Rightarrow>
          if err \<or> ca_State cap = CapabilityUnsupported \<or> ca_State cap = CapabilityUnknown
          then Some (reject r RejectCapability (''capabilities.'' @ feature) (''route cannot satisfy '' @ feature)) else None)"

definition check_extensions :: "request \<Rightarrow> route \<Rightarrow> rejection option" where
  "check_extensions q r =
     (if rq_Portability q \<noteq> PortabilityBestEffort \<and> rq_Extensions q \<noteq> []
      then firstErr (\<lambda>(extension, v). if extension \<notin> set (rt_ExtensionNames r)
             then Some (reject r RejectExtension (''extensions.'' @ extension) ''route does not advertise this extension'') else None)
           (rq_Extensions q)
      else None)"

definition check_tools :: "request \<Rightarrow> route \<Rightarrow> rejection option" where
  "check_tools q r =
     (if rq_WebFetch q \<and> \<not> (rt_Provider r = ''anthropic'' \<and> rt_Family r = ''anthropic_messages'')
      then Some (reject r RejectCapability ''web_fetch'' ''route does not support hosted web fetch'')
      else if rq_CodeExecution q \<and> \<not> SupportsHostedExecution (rt_Provider r) (rt_Family r)
      then Some (reject r RejectCapability ''code_execution'' ''route does not support hosted code execution'')
      else if rq_WebSearch q \<and> \<not> SupportsWebSearch (rt_Provider r) (rt_Family r)
      then Some (reject r RejectCapability ''web_search'' ''route does not support provider-hosted web search'')
      else if \<not> SupportsOutputLimit r q
      then Some (reject r RejectCapability ''output.max_tokens'' ''request output limit is missing or exceeds the route output ceiling'')
      else None)"

definition check_context :: "codec \<Rightarrow> request \<Rightarrow> route \<Rightarrow> rejection option" where
  "check_context cd q r =
     (if rt_ContextBytes r > 0
         \<and> int (length (case CanonicalRequest cd q of None \<Rightarrow> [] | Some j \<Rightarrow> j) + AdapterTextOverheadBytes cd q (rt_Family r)) > rt_ContextBytes r
      then Some (reject r RejectContext ''request'' ''request exceeds route context limit'') else None)"

definition check_continuation :: "constraints \<Rightarrow> route \<Rightarrow> rejection option" where
  "check_continuation cont r =
     (case CheckPinning cont (route_pin r) of
        (decision, message) \<Rightarrow>
          if decision = CompatibilityRejected
          then Some (reject r RejectContinuation ''continuation''
                 (case message of Some m \<Rightarrow> m | None \<Rightarrow> ''continuation is incompatible with route lineage''))
          else None)"

definition check_tier :: "service_class \<Rightarrow> route \<Rightarrow> rejection option" where
  "check_tier attempted r =
     (if mgetd [] (rt_ProviderTiers r) attempted = []
      then Some (reject r RejectClass ''route.provider_tiers'' ''route has no provider tier mapping for the attempted class'') else None)"

definition candidate_of ::
  "route \<Rightarrow> service_class \<Rightarrow> service_class \<Rightarrow> nat \<Rightarrow> nat \<Rightarrow> string \<Rightarrow> string \<Rightarrow> candidate" where
  "candidate_of r requested attempted fallback routeIndex ext cid =
     \<lparr>c_ID = cid, c_RouteID = rt_ID r, c_EndpointID = rt_EndpointID r, c_Provider = rt_Provider r, c_Family = rt_Family r,
      c_Region = rt_Region r, c_EndpointAccountHMAC = rt_EndpointAccountHMAC r, c_EndpointDigest = rt_EndpointDigest r,
      c_LegacyEndpointDigest = rt_LegacyEndpointDigest r, c_Model = rt_Model r, c_ModelLineage = route_lineage r,
      c_ModelRevision = route_revision r, c_PriceAvailable = rt_PriceAvailable r, c_RequestedClass = requested,
      c_AttemptedClass = attempted, c_FallbackIndex = fallback, c_RouteIndex = routeIndex, c_ContextTokens = rt_ContextTokens r,
      c_ProviderTier = mgetd [] (rt_ProviderTiers r) attempted, c_CapabilityVersion = cas_Version (rt_Capabilities r),
      c_PriceVersion = rt_PriceVersion r, c_ExtensionDigest = ext, c_Pinning = route_pin r, c_EndpointAccountDigest = rt_EndpointAccountDigest r\<rparr>"

definition evaluate ::
  "codec \<Rightarrow> request \<Rightarrow> constraints \<Rightarrow> (string, route_health) gomap \<Rightarrow> route \<Rightarrow> service_class \<Rightarrow> service_class
     \<Rightarrow> nat \<Rightarrow> nat \<Rightarrow> string \<Rightarrow> rejection + candidate" where
  "evaluate cd q cont health r requested attempted fallback routeIndex ext =
     guardE (check_access q r)
      (guardE (check_class attempted health r)
       (guardE (firstErr (check_feature q r) (requiredFeatures q cont))
        (guardE (check_extensions q r)
         (guardE (check_tools q r)
          (guardE (check_context cd q r)
           (guardE (check_continuation cont r)
            (guardE (check_tier attempted r)
             (case digestCandidate cd (r\<lparr>rt_ModelLineage := route_lineage r\<rparr>) requested attempted fallback routeIndex ext of
                None \<Rightarrow> Inl (reject r RejectInvalid ''candidate'' ''digest'')
              | Some cid \<Rightarrow> Inr (candidate_of r requested attempted fallback routeIndex ext cid)))))))))"

section \<open>Planning\<close>

definition planner_limit :: "int \<Rightarrow> int" where
  "planner_limit maxRejections = (if maxRejections \<le> 0 then 256 else maxRejections)"

definition add_rejection :: "int \<Rightarrow> rejection \<Rightarrow> plan \<Rightarrow> plan" where
  "add_rejection limit rej p =
     (if int (length (pl_Rejections p)) < limit then p\<lparr>pl_Rejections := pl_Rejections p @ [rej]\<rparr> else p)"

definition plan_route ::
  "codec \<Rightarrow> int \<Rightarrow> request \<Rightarrow> constraints \<Rightarrow> (string, route_health) gomap \<Rightarrow> gotime \<Rightarrow> service_class \<Rightarrow> string
     \<Rightarrow> nat \<times> service_class \<Rightarrow> nat \<times> route \<Rightarrow> plan \<Rightarrow> plan" where
  "plan_route cd limit q cont health now requested ext cls rt p =
     (case cls of (fallbackIndex, class) \<Rightarrow> case rt of (routeIndex, r) \<Rightarrow>
      case validateRouteShape r of
        Some e \<Rightarrow> add_rejection limit (reject r RejectInvalid [] ''shape'') p
      | None \<Rightarrow>
          case evaluate cd q cont health r requested class fallbackIndex routeIndex ext of
            Inl rej \<Rightarrow> add_rejection limit rej p
          | Inr c \<Rightarrow> p\<lparr>pl_Candidates := pl_Candidates p @ [c\<lparr>c_PriceAvailable := PriceAvailableAt r now\<rparr>]\<rparr>)"

definition sortedRejections :: "rejection list \<Rightarrow> rejection list" where
  "sortedRejections rs = sort_key (\<lambda>r. (rj_RouteID r, rj_Code r, rj_Path r)) rs"

definition digestPlan :: "codec \<Rightarrow> plan \<Rightarrow> string" where
  "digestPlan cd p = Sha256Hex cd (concat (map (\<lambda>c. c_ID c @ [NUL]) (pl_Candidates p)))"

definition with_digest :: "codec \<Rightarrow> plan \<Rightarrow> plan" where
  "with_digest cd p = p\<lparr>pl_DigestHex := digestPlan cd p\<rparr>"

section \<open>Affinity\<close>

record affinity_preferences =
  ap_HardPin :: "affinity option"
  ap_Soft :: "affinity list"

definition affinityIdentity :: "affinity \<Rightarrow> string" where
  "affinityIdentity a = af_Provider a @ [NUL] @ af_RouteID a @ [NUL] @ af_EndpointID a @ [NUL] @ af_ModelLineage a"

fun check_soft :: "nat \<Rightarrow> int \<Rightarrow> string list \<Rightarrow> affinity list \<Rightarrow> routing_error option" where
  "check_soft i previousRank seen [] = None"
| "check_soft i previousRank seen (a # as) =
     (if af_HardPinned a then Some (SoftMarkedHard i)
      else if i > 0 \<and> af_Rank a \<le> previousRank then Some SoftRanks
      else if affinityIdentity a \<in> set seen then Some DuplicateAffinity
      else check_soft (Suc i) (af_Rank a) (affinityIdentity a # seen) as)"

definition Preferences_Validate :: "affinity_preferences \<Rightarrow> routing_error option" where
  "Preferences_Validate p =
     orElse (case ap_HardPin p of
               None \<Rightarrow> None
             | Some pin \<Rightarrow> if \<not> af_HardPinned pin then Some HardPinNotMarked else map_option HardPinInvalid (Affinity_Validate pin))
       (orElse (map_option SoftInvalid (AffinitySet_Validate (ap_Soft p)))
         (check_soft 0 (- 1) (case ap_HardPin p of None \<Rightarrow> [] | Some pin \<Rightarrow> [affinityIdentity pin]) (ap_Soft p)))"

definition sameClassGroup :: "candidate \<Rightarrow> candidate \<Rightarrow> bool" where
  "sameClassGroup l r \<longleftrightarrow> c_FallbackIndex l = c_FallbackIndex r \<and> c_AttemptedClass l = c_AttemptedClass r"

definition affinityMatchesCandidate :: "affinity \<Rightarrow> candidate \<Rightarrow> bool" where
  "affinityMatchesCandidate a c \<longleftrightarrow> c_PriceAvailable c
     \<and> af_Provider a = c_Provider c \<and> af_RouteID a = c_RouteID c \<and> af_EndpointID a = c_EndpointID c
     \<and> af_Region a = c_Region c \<and> af_EndpointFamily a = c_Family c \<and> af_ModelLineage a = c_ModelLineage c
     \<and> af_RouteModelRevision a = c_ModelRevision c
     \<and> (af_EndpointAccountHMAC a = zero32 \<or> af_EndpointAccountHMAC a = c_EndpointAccountHMAC c)"

text \<open>
  Within one class group, the first active affinity with a match moves its first matching
  candidate to the front; the others keep their order.
\<close>

fun reorder_group :: "gotime \<Rightarrow> affinity list \<Rightarrow> candidate list \<Rightarrow> candidate list" where
  "reorder_group now [] grp = grp"
| "reorder_group now (a # as) grp =
     (if \<not> Affinity_Active a now then reorder_group now as grp
      else case List.extract (affinityMatchesCandidate a) grp of
             None \<Rightarrow> reorder_group now as grp
           | Some (before, c, rest) \<Rightarrow> c # before @ rest)"

function reorder_groups :: "gotime \<Rightarrow> affinity list \<Rightarrow> candidate list \<Rightarrow> candidate list" where
  "reorder_groups now as [] = []"
| "reorder_groups now as (c # cs) =
     reorder_group now as (c # takeWhile (sameClassGroup c) cs) @ reorder_groups now as (dropWhile (sameClassGroup c) cs)"
  by pat_completeness auto
termination by (relation "measure (\<lambda>(now, as, cs). length cs)") (auto simp: less_Suc_eq_le length_dropWhile_le)

definition PreferProviderCacheAffinity ::
  "codec \<Rightarrow> plan \<Rightarrow> affinity_preferences option \<Rightarrow> gotime \<Rightarrow> routing_error + plan" where
  "PreferProviderCacheAffinity cd p preferences now =
     (case preferences of
        None \<Rightarrow> Inr p
      | Some prefs \<Rightarrow>
          guardE (Preferences_Validate prefs)
           (case ap_HardPin prefs of
              Some pin \<Rightarrow>
                if \<not> Affinity_Active pin now then Inl HardPinExpired
                else (case List.extract (affinityMatchesCandidate pin) (pl_Candidates p) of
                        None \<Rightarrow> Inl HardPinIneligible
                      | Some (before, c, rest) \<Rightarrow> Inr (with_digest cd (p\<lparr>pl_Candidates := [c]\<rparr>)))
            | None \<Rightarrow>
                if length (pl_Candidates p) < 2 then Inr p
                else Inr (with_digest cd (p\<lparr>pl_Candidates := reorder_groups now (ap_Soft prefs) (pl_Candidates p)\<rparr>))))"

section \<open>The planner\<close>

record plan_input =
  in_Request :: request
  in_Catalog :: route_catalog
  in_Continuation :: constraints
  in_Health :: "(string, route_health) gomap"
  in_Affinity :: "affinity_preferences option"
  in_Now :: gotime

definition eligible_plan :: "codec \<Rightarrow> int \<Rightarrow> plan_input \<Rightarrow> request \<Rightarrow> service_class \<Rightarrow> service_class list \<Rightarrow> model \<Rightarrow> plan" where
  "eligible_plan cd maxRejections inp q requested classes m =
     (let ext = extensionDigest cd q;
          p0 = empty_plan\<lparr>pl_Version := rcat_Version (in_Catalog inp), pl_Model := rq_Model q\<rparr>;
          p1 = fold (\<lambda>cls p. fold (\<lambda>rt p. plan_route cd (planner_limit maxRejections) q (in_Continuation inp) (in_Health inp) (in_Now inp)
                                            requested ext cls rt p) (enumerate 0 (md_Routes m)) p) (enumerate 0 classes) p0
      in p1\<lparr>pl_Rejections := sortedRejections (pl_Rejections p1)\<rparr>)"

definition Plan :: "codec \<Rightarrow> int \<Rightarrow> routing_error option \<Rightarrow> plan_input \<Rightarrow> plan \<times> routing_error option" where
  "Plan cd maxRejections ctx inp =
     (case ctx of Some e \<Rightarrow> (empty_plan, Some e) | None \<Rightarrow>
      case NormalizeRequest cd (in_Request inp) of Inl e \<Rightarrow> (empty_plan, Some (NormalizeFailed e)) | Inr q \<Rightarrow>
      case NormalizeServiceClass (rq_ServiceClass q) of Inl e \<Rightarrow> (empty_plan, Some (RequestClass e)) | Inr requested \<Rightarrow>
      case ValidateServiceClassFallbacks requested (rq_ServiceClassFallbacks q) of Some e \<Rightarrow> (empty_plan, Some (RequestClass e)) | None \<Rightarrow>
      if rq_Model q = [] then (empty_plan, Some ModelRequired)
      else if in_Affinity inp \<noteq> None \<and> IsZero (in_Now inp) then (empty_plan, Some AffinityTimeRequired)
      else case mget (rcat_Models (in_Catalog inp)) (rq_Model q) of
             None \<Rightarrow> (empty_plan\<lparr>pl_Model := rq_Model q, pl_Version := rcat_Version (in_Catalog inp)\<rparr>, Some NoConfiguredRoutes)
           | Some m \<Rightarrow>
               case ServiceClasses (in_Catalog inp) q of Inl e \<Rightarrow> (empty_plan, Some (RequestClass e)) | Inr classes \<Rightarrow>
               case PreferProviderCacheAffinity cd (eligible_plan cd maxRejections inp q requested classes m) (in_Affinity inp) (in_Now inp) of
                 Inl e \<Rightarrow> (empty_plan, Some e)
               | Inr p \<Rightarrow>
                   let p = with_digest cd p
                   in if pl_Candidates p = [] then (p, Some NoEligibleCandidates) else (p, None))"

section \<open>Executor\<close>

record attempt_view =
  av_Attempts :: "(string \<times> failure_kind) list"
  av_Max :: int

definition Exhausted :: "attempt_view \<Rightarrow> bool" where
  "Exhausted v \<longleftrightarrow> av_Max v > 0 \<and> int (length (av_Attempts v)) \<ge> av_Max v"

datatype movement = MovementStop | MovementNext | MovementWait | MovementRetrieve

record decision =
  dc_Movement :: movement
  dc_CandidateID :: string
  dc_RetryAfter :: int
  dc_Reason :: string

definition stop :: "string \<Rightarrow> decision" where
  "stop reason = \<lparr>dc_Movement = MovementStop, dc_CandidateID = [], dc_RetryAfter = 0, dc_Reason = reason\<rparr>"

definition NextDecision :: "plan \<Rightarrow> attempt_view \<Rightarrow> failure_kind \<Rightarrow> gotime \<Rightarrow> gotime \<Rightarrow> decision \<times> routing_error option" where
  "NextDecision p attempts outcome now deadline =
     (if pl_Candidates p = [] then (stop ''empty plan'', Some EmptyRoutePlan)
      else if Exhausted attempts then (stop ''attempt limit exhausted'', None)
      else case outcome of
             FailureSuccess \<Rightarrow> (stop ''completed'', None)
           | FailureAmbiguous \<Rightarrow> (stop ''ambiguous dispatch cannot be resubmitted'', None)
           | FailureAuthentication \<Rightarrow> (stop ''route requires configuration change'', None)
           | FailureConfiguration \<Rightarrow> (stop ''route requires configuration change'', None)
           | FailureDefiniteTransient \<Rightarrow>
               if length (av_Attempts attempts) \<ge> length (pl_Candidates p) then (stop ''all candidates exhausted'', None)
               else let c = pl_Candidates p ! length (av_Attempts attempts)
                    in if \<not> IsZero deadline \<and> \<not> now < deadline then (stop ''deadline exhausted'', None)
                       else (\<lparr>dc_Movement = MovementNext, dc_CandidateID = c_ID c, dc_RetryAfter = 0,
                              dc_Reason = ''definite transient failure''\<rparr>, None)
           | FailureOther _ \<Rightarrow> (stop ''unclassified failure'', None))"

section \<open>Catalog compilation\<close>

definition compile_route :: "route \<Rightarrow> route" where
  "compile_route r = r\<lparr>rt_ModelLineage := route_lineage r, rt_ModelRevision := route_revision r\<rparr>"

fun compile_routes :: "string \<Rightarrow> string list \<Rightarrow> route list \<Rightarrow> routing_error + route list" where
  "compile_routes name seen [] = Inr []"
| "compile_routes name seen (r # rs) =
     guardE (validateRouteShape r)
      (if rt_ID r \<in> set seen then Inl (DuplicateRoute (rt_ID r))
       else bindE (compile_routes name (rt_ID r # seen) rs) (\<lambda>out. Inr (compile_route r # out)))"

definition compile_model :: "string \<times> model \<Rightarrow> routing_error + (string \<times> model)" where
  "compile_model nm =
     (case nm of (name, m) \<Rightarrow>
      if name = [] \<or> md_Routes m = [] then Inl (ModelHasNoRoutes name)
      else bindE (compile_routes name [] (md_Routes m)) (\<lambda>routes. Inr (name, m\<lparr>md_Routes := routes\<rparr>)))"

fun compile_models :: "(string, model) gomap \<Rightarrow> routing_error + (string, model) gomap" where
  "compile_models [] = Inr []"
| "compile_models (nm # nms) = bindE (compile_model nm) (\<lambda>out. bindE (compile_models nms) (\<lambda>outs. Inr (out # outs)))"

definition CompileCatalog :: "string \<Rightarrow> (string, model) gomap \<Rightarrow> routing_error + route_catalog" where
  "CompileCatalog version models =
     (if version = [] then Inl CatalogVersionRequired
      else bindE (compile_models models) (\<lambda>ms. Inr \<lparr>rcat_Version = version, rcat_Models = ms, rcat_ClassPolicies = []\<rparr>))"

fun check_policies ::
  "string list \<Rightarrow> (string \<times> string, service_class) gomap \<Rightarrow> class_policy list \<Rightarrow> routing_error option" where
  "check_policies seen defaults [] = None"
| "check_policies seen defaults (p # ps) =
     (case ClassPolicy_Validate p of
        Some e \<Rightarrow> Some e
      | None \<Rightarrow>
          if cp_ID p \<in> set seen then Some (DuplicatePolicy (cp_ID p))
          else if cp_DefaultClass p \<noteq> [] then
            (let scope = (cp_Tenant p, cp_Project p); previous = mgetd [] defaults scope
             in if previous \<noteq> [] \<and> previous \<noteq> cp_DefaultClass p then Some ConflictingDefaults
                else check_policies (cp_ID p # seen) (mput scope (cp_DefaultClass p) defaults) ps)
          else check_policies (cp_ID p # seen) defaults ps)"

definition WithClassPolicies :: "route_catalog \<Rightarrow> class_policy list \<Rightarrow> routing_error + route_catalog" where
  "WithClassPolicies cat policies = guardE (check_policies [] [] policies) (Inr (cat\<lparr>rcat_ClassPolicies := policies\<rparr>))"

end
