(* ===== verification/Planner_Facts.thy ===== *)
theory Planner_Facts
  imports Planner "HOL-Library.Multiset"
begin

text \<open>
  What a route plan guarantees: its candidates are exactly the eligible class and route
  pairs, in class order; affinity only permutes within a class, a hard pin leaves one
  candidate, and service classes, health and the executor's decisions keep their contracts.
\<close>

section \<open>The candidates of a plan\<close>

definition eligible ::
  "codec \<Rightarrow> plan_input \<Rightarrow> request \<Rightarrow> service_class \<Rightarrow> nat \<times> service_class \<Rightarrow> nat \<times> route \<Rightarrow> candidate option" where
  "eligible cd inp q requested cls rt =
     (case cls of (fi, class) \<Rightarrow> case rt of (ri, r) \<Rightarrow>
      if validateRouteShape r \<noteq> None then None
      else case evaluate cd q (in_Continuation inp) (in_Health inp) r requested class fi ri (extensionDigest cd q) of
             Inl _ \<Rightarrow> None
           | Inr c \<Rightarrow> Some (c\<lparr>c_PriceAvailable := PriceAvailableAt r (in_Now inp)\<rparr>))"

lemma map_filter_Cons: "List.map_filter f (x # xs) = (case f x of None \<Rightarrow> [] | Some y \<Rightarrow> [y]) @ List.map_filter f xs"
  by (simp add: List.map_filter_def split: option.split)

lemma map_filter_Nil: "List.map_filter f [] = []"
  by (simp add: List.map_filter_def)

lemma in_map_filter: "y \<in> set (List.map_filter f xs) \<longleftrightarrow> (\<exists>x \<in> set xs. f x = Some y)"
  by (force simp: List.map_filter_def)

lemma plan_route_candidates:
  "pl_Candidates (plan_route cd limit q (in_Continuation inp) (in_Health inp) (in_Now inp) requested (extensionDigest cd q) cls rt p)
     = pl_Candidates p @ (case eligible cd inp q requested cls rt of None \<Rightarrow> [] | Some c \<Rightarrow> [c])"
  by (simp add: plan_route_def eligible_def add_rejection_def split: prod.split option.split sum.split)

lemma plan_routes_candidates:
  "pl_Candidates (fold (\<lambda>rt p. plan_route cd limit q (in_Continuation inp) (in_Health inp) (in_Now inp) requested (extensionDigest cd q) cls rt p) rts p)
     = pl_Candidates p @ List.map_filter (eligible cd inp q requested cls) rts"
  by (induction rts arbitrary: p) (simp_all add: plan_route_candidates map_filter_Cons map_filter_Nil split: option.split)

lemma plan_classes_candidates:
  "pl_Candidates (fold (\<lambda>cls p. fold (\<lambda>rt p. plan_route cd limit q (in_Continuation inp) (in_Health inp) (in_Now inp) requested
       (extensionDigest cd q) cls rt p) rts p) clss p)
     = pl_Candidates p @ concat (map (\<lambda>cls. List.map_filter (eligible cd inp q requested cls) rts) clss)"
  by (induction clss arbitrary: p) (simp_all add: plan_routes_candidates)

lemma eligible_plan_candidates:
  "pl_Candidates (eligible_plan cd mr inp q requested classes m)
     = concat (map (\<lambda>cls. List.map_filter (eligible cd inp q requested cls) (enumerate 0 (md_Routes m))) (enumerate 0 classes))"
  by (simp add: eligible_plan_def Let_def plan_classes_candidates empty_plan_def)

lemma in_enumerate0: "p \<in> set (enumerate 0 xs) \<longleftrightarrow> (\<exists>i < length xs. p = (i, xs ! i))"
  by (cases p) (auto simp: in_set_enumerate_eq)

lemma in_eligible_plan:
  "c \<in> set (pl_Candidates (eligible_plan cd mr inp q requested classes m)) \<longleftrightarrow>
     (\<exists>fi < length classes. \<exists>ri < length (md_Routes m). eligible cd inp q requested (fi, classes ! fi) (ri, md_Routes m ! ri) = Some c)"
  unfolding eligible_plan_candidates
  by (simp add: in_map_filter Bex_def in_enumerate0 del: split_paired_Ex) blast

text \<open>What eligibility means for one class and route.\<close>

definition route_admits ::
  "request \<Rightarrow> constraints \<Rightarrow> (string, route_health) gomap \<Rightarrow> service_class \<Rightarrow> route \<Rightarrow> bool" where
  "route_admits q cont health attempted r \<longleftrightarrow>
     (rt_AllowedTenants r = [] \<or> rc_Tenant (rq_Context q) \<in> set (rt_AllowedTenants r))
   \<and> (mgetd [] (rc_Tags (rq_Context q)) ''region'' = [] \<or> rt_AllowedRegions r = []
        \<or> mgetd [] (rc_Tags (rq_Context q)) ''region'' \<in> set (rt_AllowedRegions r))
   \<and> attempted \<in> set (rt_Classes r) \<and> mgetd [] (rt_ProviderTiers r) attempted \<noteq> []
   \<and> rh_Enabled (forRoute health (rt_ID r)) \<and> \<not> rh_Open (forRoute health (rt_ID r)) \<and> \<not> rh_AuthOpen (forRoute health (rt_ID r))
   \<and> (\<forall>f \<in> set (requiredFeatures q cont). \<exists>cap. mget (cas_Features (rt_Capabilities r)) f = Some cap
        \<and> (ca_State cap = CapabilityNative \<or> ca_State cap = CapabilityEmulated))
   \<and> (rq_Portability q = PortabilityBestEffort \<or> fst ` set (rq_Extensions q) \<subseteq> set (rt_ExtensionNames r))
   \<and> (rq_WebSearch q \<longrightarrow> SupportsWebSearch (rt_Provider r) (rt_Family r))
   \<and> (rq_CodeExecution q \<longrightarrow> SupportsHostedExecution (rt_Provider r) (rt_Family r))
   \<and> SupportsOutputLimit r q
   \<and> fst (CheckPinning cont (route_pin r)) \<noteq> CompatibilityRejected"

lemma check_feature_None:
  "check_feature q r f = None \<Longrightarrow> \<exists>cap. mget (cas_Features (rt_Capabilities r)) f = Some cap
     \<and> (ca_State cap = CapabilityNative \<or> ca_State cap = CapabilityEmulated)"
  by (auto simp: check_feature_def CapabilitySet_Resolve_def CapabilityState_Valid_def Let_def split: if_splits option.splits)

lemma check_extensions_None:
  "check_extensions q r = None \<Longrightarrow> rq_Portability q = PortabilityBestEffort \<or> fst ` set (rq_Extensions q) \<subseteq> set (rt_ExtensionNames r)"
  by (auto simp: check_extensions_def firstErr_None_iff split: if_splits)

lemma evaluate_admits:
  assumes "evaluate cd q cont health r requested attempted fi ri ext = Inr c"
  shows "route_admits q cont health attempted r"
proof -
  note e = assms[unfolded evaluate_def guardE_eq_Inr_iff]
  have feat: "\<forall>f \<in> set (requiredFeatures q cont). check_feature q r f = None" using e by (simp add: firstErr_None_iff)
  have "rt_AllowedTenants r = [] \<or> rc_Tenant (rq_Context q) \<in> set (rt_AllowedTenants r)"
    "mgetd [] (rc_Tags (rq_Context q)) ''region'' = [] \<or> rt_AllowedRegions r = []
        \<or> mgetd [] (rc_Tags (rq_Context q)) ''region'' \<in> set (rt_AllowedRegions r)"
    using e by (auto simp: check_access_def Let_def split: if_splits)
  moreover have "attempted \<in> set (rt_Classes r)" "rh_Enabled (forRoute health (rt_ID r))" "\<not> rh_Open (forRoute health (rt_ID r))"
    "\<not> rh_AuthOpen (forRoute health (rt_ID r))"
    using e by (auto simp: check_class_def Let_def split: if_splits)
  moreover have "rq_WebSearch q \<longrightarrow> SupportsWebSearch (rt_Provider r) (rt_Family r)"
    "rq_CodeExecution q \<longrightarrow> SupportsHostedExecution (rt_Provider r) (rt_Family r)" "SupportsOutputLimit r q"
    using e by (auto simp: check_tools_def split: if_splits)
  moreover have "fst (CheckPinning cont (route_pin r)) \<noteq> CompatibilityRejected"
    using e by (auto simp: check_continuation_def split: if_splits prod.splits)
  moreover have "mgetd [] (rt_ProviderTiers r) attempted \<noteq> []" using e by (auto simp: check_tier_def split: if_splits)
  moreover have "\<forall>f \<in> set (requiredFeatures q cont). \<exists>cap. mget (cas_Features (rt_Capabilities r)) f = Some cap
        \<and> (ca_State cap = CapabilityNative \<or> ca_State cap = CapabilityEmulated)"
    using feat check_feature_None by blast
  moreover have "rq_Portability q = PortabilityBestEffort \<or> fst ` set (rq_Extensions q) \<subseteq> set (rt_ExtensionNames r)"
    by (rule check_extensions_None) (use e in simp)
  ultimately show ?thesis by (simp add: route_admits_def)
qed

lemma evaluate_candidate:
  "evaluate cd q cont health r requested attempted fi ri ext = Inr c \<Longrightarrow> \<exists>cid. c = candidate_of r requested attempted fi ri ext cid"
  by (auto simp: evaluate_def split: option.splits)

lemma eligible_Some:
  assumes "eligible cd inp q requested (fi, class) (ri, r) = Some c"
  shows "route_admits q (in_Continuation inp) (in_Health inp) class r" and "validateRouteShape r = None"
    and "c_FallbackIndex c = fi" and "c_RouteIndex c = ri" and "c_AttemptedClass c = class" and "c_RouteID c = rt_ID r"
    and "c_EndpointID c = rt_EndpointID r" and "c_Pinning c = route_pin r"
    and "c_PriceAvailable c = PriceAvailableAt r (in_Now inp)" and "c_RequestedClass c = requested"
  using assms evaluate_admits evaluate_candidate
  by (fastforce simp: eligible_def candidate_of_def split: if_splits sum.splits)+

section \<open>Affinity reorders within a class\<close>

definition class_key :: "candidate \<Rightarrow> nat \<times> service_class" where
  "class_key c = (c_FallbackIndex c, c_AttemptedClass c)"

lemma sameClassGroup_key: "sameClassGroup l r \<longleftrightarrow> class_key l = class_key r"
  by (auto simp: sameClassGroup_def class_key_def)

lemma mset_reorder_group: "mset (reorder_group now as g) = mset g"
proof (induction now as g rule: reorder_group.induct)
  case (1 now g)
  then show ?case by simp
next
  case (2 now a as g)
  show ?case
  proof (cases "List.extract (affinityMatchesCandidate a) g")
    case None
    then show ?thesis using 2 by simp
  next
    case (Some t)
    obtain b c r where t: "t = (b, c, r)" by (cases t)
    then have "g = b @ c # r" using Some by (auto simp: extract_Some_iff)
    then show ?thesis using 2 Some t by simp
  qed
qed

lemma reorder_group_keys:
  assumes "\<forall>c \<in> set g. class_key c = k"
  shows "map class_key (reorder_group now as g) = map class_key g"
proof -
  have s: "set (reorder_group now as g) = set g" "length (reorder_group now as g) = length g"
    by (rule mset_eq_setD[OF mset_reorder_group], rule mset_eq_length[OF mset_reorder_group])
  have "map class_key xs = replicate (length xs) k" if "\<forall>c \<in> set xs. class_key c = k" for xs
    using that by (induction xs) simp_all
  then show ?thesis using assms s by simp
qed

lemma reorder_groups_keys: "map class_key (reorder_groups now as cs) = map class_key cs"
proof (induction now as cs rule: reorder_groups.induct)
  case (1 now as)
  then show ?case by simp
next
  case (2 now as c cs)
  have "\<forall>x \<in> set (c # takeWhile (sameClassGroup c) cs). class_key x = class_key c"
    using set_takeWhileD by (force simp: sameClassGroup_key)
  note k = reorder_group_keys[OF this, of now as]
  have "map class_key cs = map class_key (takeWhile (sameClassGroup c) cs) @ map class_key (dropWhile (sameClassGroup c) cs)"
    by (simp only: map_append[symmetric] takeWhile_dropWhile_id)
  then show ?case using k 2 by simp
qed

lemma mset_reorder_groups: "mset (reorder_groups now as cs) = mset cs"
proof (induction now as cs rule: reorder_groups.induct)
  case (1 now as)
  then show ?case by simp
next
  case (2 now as c cs)
  have "mset (takeWhile (sameClassGroup c) cs) + mset (dropWhile (sameClassGroup c) cs) = mset cs"
    by (metis mset_append takeWhile_dropWhile_id)
  then show ?case using 2 by (simp add: mset_reorder_group)
qed

text \<open>
  What the planner relies on when it hands its candidates to the affinity step: they come
  back as a permutation that leaves the class at every position as it was.
\<close>

locale stable_reorder =
  fixes reorder :: "'c list \<Rightarrow> 'c list"
    and key :: "'c \<Rightarrow> 'k"
  assumes perm: "mset (reorder xs) = mset xs"
    and keys: "map key (reorder xs) = map key xs"
begin

lemma reorder_set: "set (reorder xs) = set xs"
  by (rule mset_eq_setD[OF perm])

lemma reorder_sorted: "sorted (map (f \<circ> key) (reorder xs)) = sorted (map (f \<circ> key) xs)" for f :: "'k \<Rightarrow> nat"
  by (simp only: map_map[symmetric] keys)

end

interpretation soft_affinity: stable_reorder "reorder_groups now as" class_key for now as
  by unfold_locales (rule mset_reorder_groups, rule reorder_groups_keys)

section \<open>The planner\<close>

text \<open>The stages a plan that returns candidates went through.\<close>

lemma Plan_Some:
  assumes "Plan cd mr ctx inp = (p, None)"
  obtains q requested classes m p1 where
    "NormalizeRequest cd (in_Request inp) = Inr q" "NormalizeServiceClass (rq_ServiceClass q) = Inr requested"
    "ValidateServiceClassFallbacks requested (rq_ServiceClassFallbacks q) = None"
    "mget (rcat_Models (in_Catalog inp)) (rq_Model q) = Some m" "ServiceClasses (in_Catalog inp) q = Inr classes"
    "PreferProviderCacheAffinity cd (eligible_plan cd mr inp q requested classes m) (in_Affinity inp) (in_Now inp) = Inr p1"
    "pl_Candidates p = pl_Candidates p1" "pl_Candidates p \<noteq> []"
  using assms by (auto simp: Plan_def Let_def with_digest_def split: option.splits sum.splits if_splits)

text \<open>The three ways affinity can leave a list of candidates.\<close>

lemma PreferProviderCacheAffinity_cases:
  assumes "PreferProviderCacheAffinity cd p prefs now = Inr p1"
  obtains (unchanged) "pl_Candidates p1 = pl_Candidates p" "prefs = None \<or> (\<exists>ps. prefs = Some ps \<and> ap_HardPin ps = None)"
  | (pinned) ps pin c where "prefs = Some ps" "ap_HardPin ps = Some pin" "Affinity_Active pin now"
      "affinityMatchesCandidate pin c" "c \<in> set (pl_Candidates p)" "pl_Candidates p1 = [c]"
  | (soft) ps where "prefs = Some ps" "ap_HardPin ps = None"
      "pl_Candidates p1 = reorder_groups now (ap_Soft ps) (pl_Candidates p)"
proof (cases prefs)
  case None
  then show thesis using assms unchanged by (simp add: PreferProviderCacheAffinity_def)
next
  case (Some ps)
  show thesis
  proof (cases "ap_HardPin ps")
    case None
    then show thesis using assms Some unchanged soft[of ps]
      by (auto simp: PreferProviderCacheAffinity_def with_digest_def split: if_splits)
  next
    case pin: (Some pin)
    then obtain b c r where "List.extract (affinityMatchesCandidate pin) (pl_Candidates p) = Some (b, c, r)"
      "Affinity_Active pin now" "pl_Candidates p1 = [c]"
      using assms Some by (auto simp: PreferProviderCacheAffinity_def with_digest_def split: if_splits option.splits)
    then show thesis using pinned[OF Some pin] by (auto simp: extract_Some_iff)
  qed
qed

lemma Plan_candidates_subset:
  assumes "PreferProviderCacheAffinity cd p prefs now = Inr p1"
  shows "set (pl_Candidates p1) \<subseteq> set (pl_Candidates p)"
  by (cases rule: PreferProviderCacheAffinity_cases[OF assms])
    (auto simp: soft_affinity.reorder_set)


text \<open>Planning without a hard pin is complete: every pair of a planned class and a route that passes evaluation is a
  candidate, exactly once per position, and soft affinity does not drop any.\<close>

theorem plan_complete:
  assumes "Plan cd mr ctx inp = (p, None)" and "case in_Affinity inp of None \<Rightarrow> True | Some ps \<Rightarrow> ap_HardPin ps = None"
  shows "\<exists>q requested classes m. NormalizeRequest cd (in_Request inp) = Inr q \<and> NormalizeServiceClass (rq_ServiceClass q) = Inr requested
     \<and> mget (rcat_Models (in_Catalog inp)) (rq_Model q) = Some m \<and> ServiceClasses (in_Catalog inp) q = Inr classes
     \<and> mset (pl_Candidates p) = mset (concat (map (\<lambda>cls. List.map_filter (eligible cd inp q requested cls) (enumerate 0 (md_Routes m)))
                                                 (enumerate 0 classes)))"
proof -
  obtain q requested classes m p1 where s: "NormalizeRequest cd (in_Request inp) = Inr q"
    "NormalizeServiceClass (rq_ServiceClass q) = Inr requested"
    "mget (rcat_Models (in_Catalog inp)) (rq_Model q) = Some m" "ServiceClasses (in_Catalog inp) q = Inr classes"
    "PreferProviderCacheAffinity cd (eligible_plan cd mr inp q requested classes m) (in_Affinity inp) (in_Now inp) = Inr p1"
    "pl_Candidates p = pl_Candidates p1" using Plan_Some[OF assms(1)] by metis
  have "mset (pl_Candidates p1) = mset (pl_Candidates (eligible_plan cd mr inp q requested classes m))"
    by (cases rule: PreferProviderCacheAffinity_cases[OF s(5)]) (use assms(2) in \<open>auto simp: soft_affinity.perm\<close>)
  then show ?thesis using s(1-4,6) by (auto simp: eligible_plan_candidates)
qed

lemma eligible_plan_sorted: "sorted (map c_FallbackIndex (pl_Candidates (eligible_plan cd mr inp q requested classes m)))"
proof -
  let ?es = "\<lambda>cls. List.map_filter (eligible cd inp q requested cls) (enumerate 0 (md_Routes m))"
  have fi: "c_FallbackIndex c = fst cls" if c: "c \<in> set (?es cls)" for c cls
  proof -
    obtain rt where "eligible cd inp q requested cls rt = Some c" using c unfolding in_map_filter by blast
    then show ?thesis by (cases cls; cases rt) (auto dest: eligible_Some(3))
  qed
  have "sorted (map c_FallbackIndex (concat (map ?es clss)))" if "sorted (map fst clss)" for clss
    using that
  proof (induction clss)
    case Nil
    then show ?case by simp
  next
    case (Cons cls clss)
    have "map c_FallbackIndex xs = replicate (length xs) (fst cls)" if "\<forall>c \<in> set xs. c_FallbackIndex c = fst cls" for xs
      using that by (induction xs) simp_all
    then have "map c_FallbackIndex (?es cls) = replicate (length (?es cls)) (fst cls)" using fi by blast
    then have "sorted (map c_FallbackIndex (?es cls))" by simp
    moreover have "\<forall>x \<in> set (?es cls). \<forall>y \<in> set (concat (map ?es clss)). c_FallbackIndex x \<le> c_FallbackIndex y"
    proof (intro ballI)
      fix x y assume x: "x \<in> set (?es cls)" and y: "y \<in> set (concat (map ?es clss))"
      then obtain cls' where "cls' \<in> set clss" "y \<in> set (?es cls')" by auto
      then show "c_FallbackIndex x \<le> c_FallbackIndex y" using fi[OF x] fi[of y cls'] Cons.prems by auto
    qed
    ultimately show ?case using Cons by (auto simp: sorted_append)
  qed
  moreover have "sorted (map fst (enumerate 0 classes))" by (simp add: sorted_wrt_upt)
  ultimately show ?thesis unfolding eligible_plan_candidates by blast
qed

text \<open>A plan stays class-major: candidates come in the order of the requested class and its fallbacks, and no affinity moves a
  candidate across a class.\<close>

theorem plan_class_major:
  assumes "Plan cd mr ctx inp = (p, None)"
  shows "sorted (map c_FallbackIndex (pl_Candidates p))"
proof -
  obtain q requested classes m p1 where s:
    "PreferProviderCacheAffinity cd (eligible_plan cd mr inp q requested classes m) (in_Affinity inp) (in_Now inp) = Inr p1"
    "pl_Candidates p = pl_Candidates p1" using Plan_Some[OF assms] by metis
  let ?e = "pl_Candidates (eligible_plan cd mr inp q requested classes m)"
  have fb: "c_FallbackIndex = fst \<circ> class_key" by (simp add: class_key_def fun_eq_iff)
  have "sorted (map c_FallbackIndex (pl_Candidates p1))"
  proof (cases rule: PreferProviderCacheAffinity_cases[OF s(1)])
    case 1
    then show ?thesis by (simp add: eligible_plan_sorted)
  next
    case (2 ps pin c)
    then show ?thesis by simp
  next
    case (3 ps)
    then show ?thesis
      using soft_affinity.reorder_sorted[of fst "in_Now inp" "ap_Soft ps" ?e] eligible_plan_sorted unfolding fb by simp
  qed
  then show ?thesis using s(2) by simp
qed

text \<open>A hard pin is a constraint, not a preference: a plan under a hard pin has exactly one candidate, it matches the pinned
  provider, route, endpoint, region, family, lineage, revision and account, it has a current price, and the pin has not expired.\<close>

theorem hard_pin_single_candidate:
  assumes "Plan cd mr ctx inp = (p, None)" and "in_Affinity inp = Some ps" and "ap_HardPin ps = Some pin"
  shows "\<exists>c. pl_Candidates p = [c] \<and> affinityMatchesCandidate pin c \<and> c_PriceAvailable c
     \<and> c_EndpointAccountHMAC c = af_EndpointAccountHMAC pin \<and> Affinity_Active pin (in_Now inp)"
proof -
  obtain q requested classes m p1 where s:
    "PreferProviderCacheAffinity cd (eligible_plan cd mr inp q requested classes m) (in_Affinity inp) (in_Now inp) = Inr p1"
    "pl_Candidates p = pl_Candidates p1" using Plan_Some[OF assms(1)] by metis
  obtain c where c: "affinityMatchesCandidate pin c" "pl_Candidates p1 = [c]" "Affinity_Active pin (in_Now inp)"
    by (cases rule: PreferProviderCacheAffinity_cases[OF s(1)]) (use assms in auto)
  have "af_EndpointAccountHMAC pin \<noteq> zero32"
    using c(3) by (auto simp: Affinity_Active_def Affinity_Validate_def split: if_splits)
  then show ?thesis using c s(2) by (auto simp: affinityMatchesCandidate_def)
qed

section \<open>Service classes\<close>

definition served_class :: "route_catalog \<Rightarrow> request \<Rightarrow> service_class \<Rightarrow> service_class" where
  "served_class cat q c =
     (if \<not> classEnabled cat (rq_Context q) c \<or> (case mget (rcat_Models cat) (rq_Model q) of None \<Rightarrow> False | Some m \<Rightarrow> \<not> offers m c)
      then ServiceClassStandard else c)"

lemma add_class_alt:
  "add_class cat q c acc = (if served_class cat q c \<in> set acc then acc else acc @ [served_class cat q c])"
  unfolding add_class_def served_class_def Let_def by (rule refl)

lemma fold_add_class:
  "distinct acc \<Longrightarrow> distinct (fold (add_class cat q) cs acc)
     \<and> set (fold (add_class cat q) cs acc) = set acc \<union> served_class cat q ` set cs
     \<and> (\<exists>xs. fold (add_class cat q) cs acc = acc @ xs)"
proof (induction cs arbitrary: acc)
  case Nil
  then show ?case by simp
next
  case (Cons c cs)
  let ?acc = "add_class cat q c acc"
  have a: "distinct ?acc" "set ?acc = insert (served_class cat q c) (set acc)" using Cons.prems by (auto simp: add_class_alt)
  obtain ys where "?acc = acc @ ys"
    by (cases "served_class cat q c \<in> set acc") (simp_all add: add_class_alt)
  moreover obtain zs where "fold (add_class cat q) cs ?acc = ?acc @ zs" using Cons.IH[OF a(1)] by blast
  ultimately have "\<exists>xs. fold (add_class cat q) (c # cs) acc = acc @ xs" by simp
  then show ?case using Cons.IH[OF a(1)] a(2) by simp
qed

text \<open>The classes a request is planned at are distinct and at least one; each is standard, or is enabled by every policy that
  matches the caller and offered with a provider tier by some route of the model; and the requested class comes first whenever it is
  enabled and offered.\<close>

theorem service_classes_contract:
  assumes "ServiceClasses cat q = Inr classes"
  shows "distinct classes \<and> classes \<noteq> []
     \<and> (\<forall>c \<in> set classes. c = ServiceClassStandard
          \<or> (\<forall>p \<in> set (rcat_ClassPolicies cat). policy_matches p (rq_Context q) \<longrightarrow> c \<in> set (cp_Classes p))
            \<and> (\<forall>m. mget (rcat_Models cat) (rq_Model q) = Some m \<longrightarrow> offers m c))
     \<and> (\<forall>requested. NormalizeServiceClass (rq_ServiceClass q) = Inr requested \<longrightarrow> classEnabled cat (rq_Context q) requested
          \<longrightarrow> (\<forall>m. mget (rcat_Models cat) (rq_Model q) = Some m \<longrightarrow> offers m requested) \<longrightarrow> hd classes = requested)"
proof -
  obtain requested where n: "NormalizeServiceClass (rq_ServiceClass q) = Inr requested"
    and c: "classes = fold (add_class cat q) (rq_ServiceClassFallbacks q) (add_class cat q requested [])"
    using assms by (auto simp: ServiceClasses_def split: sum.splits)
  have served: "d = ServiceClassStandard
     \<or> (\<forall>p \<in> set (rcat_ClassPolicies cat). policy_matches p (rq_Context q) \<longrightarrow> d \<in> set (cp_Classes p))
       \<and> (\<forall>m. mget (rcat_Models cat) (rq_Model q) = Some m \<longrightarrow> offers m d)" if "d = served_class cat q c" for c d
    using that by (auto simp: served_class_def classEnabled_def list_ex_iff split: option.splits if_splits)
  have start: "add_class cat q requested [] = [served_class cat q requested]" by (simp add: add_class_alt)
  note f = fold_add_class[of "[served_class cat q requested]" cat q "rq_ServiceClassFallbacks q"]
  have "hd classes = served_class cat q requested" "classes \<noteq> []" using f c start by auto
  moreover have "served_class cat q requested = requested"
    if "classEnabled cat (rq_Context q) requested" "\<forall>m. mget (rcat_Models cat) (rq_Model q) = Some m \<longrightarrow> offers m requested"
    using that by (auto simp: served_class_def split: option.splits)
  moreover have "distinct classes" using f c start by simp
  moreover have "\<exists>c. d = served_class cat q c" if "d \<in> set classes" for d using that f c start by auto
  ultimately show ?thesis using n served by (intro conjI allI impI ballI) (blast, blast, blast, simp)
qed

definition demo_route :: "string \<Rightarrow> route" where
  "demo_route rid = \<lparr>rt_ID = rid, rt_EndpointID = ''e'', rt_Provider = ''openai'', rt_Family = ''openai_responses'', rt_Region = ''us'',
     rt_AccountRegion = ''us'', rt_EndpointAccountHMAC = ''h'', rt_EndpointAccountDigest = zero32, rt_EndpointDigest = zero32,
     rt_LegacyEndpointDigest = zero32, rt_Model = ''gpt'', rt_ModelLineage = [], rt_ModelRevision = [],
     rt_Classes = [ServiceClassStandard, ServiceClassPriority],
     rt_ProviderTiers = [(ServiceClassStandard, ''default''), (ServiceClassPriority, ''fast'')],
     rt_AllowedTenants = [''t''], rt_AllowedRegions = [],
     rt_Capabilities = \<lparr>cas_Version = ''v'', cas_Features = [(''text'', \<lparr>ca_State = CapabilityNative, ca_Transform = [], ca_Reason = []\<rparr>)]\<rparr>,
     rt_ProviderFeatures = [], rt_PriceVersion = ''pv'', rt_PriceAvailable = True, rt_PricedWindows = None, rt_ExtensionNames = [],
     rt_ContextBytes = 0, rt_OutputTokens = 0, rt_ContextTokens = 0,
     rt_Pinning = \<lparr>pn_Provider = [], pn_EndpointID = [], pn_AccountRegion = [], pn_Family = [], pn_ModelLineage = []\<rparr>\<rparr>"

section \<open>Movement between candidates\<close>



section \<open>Passive health\<close>

definition record_all :: "(gotime \<times> failure_kind) list \<Rightarrow> string \<Rightarrow> string \<Rightarrow> passive_health \<Rightarrow> passive_health" where
  "record_all evs rid snap h = fold (\<lambda>(t, k) h. Health_Record t rid snap k h) evs h"

lemma Health_Record_frame [simp]:
  "ph_Threshold (Health_Record t rid snap k h) = ph_Threshold h" "ph_Cooldown (Health_Record t rid snap k h) = ph_Cooldown h"
  by (simp_all add: Health_Record_def Let_def)

lemma Health_Record_get:
  "rid \<noteq> [] \<Longrightarrow> mget (ph_entries (Health_Record t rid snap k h)) rid' =
     (if rid' = rid then Some (record_kind h t k (let e = (mgetd zero_health_entry (ph_entries h) rid)\<lparr>he_RouteID := rid\<rparr> in
          if he_SnapshotID e \<noteq> snap \<and> snap \<noteq> [] then zero_health_entry\<lparr>he_RouteID := rid, he_SnapshotID := snap\<rparr> else e))
      else mget (ph_entries h) rid')"
  by (simp add: Health_Record_def Let_def)

text \<open>A run of transient failures of one snapshot counts up from a closed entry.\<close>

lemma transient_run:
  assumes "rid \<noteq> []" and "mget (ph_entries h) rid = Some e" and "he_SnapshotID e = snap \<or> snap = []" and "he_Failures e = int n"
    and "int n + int (length ts) \<le> MaxInt64"
  shows "\<exists>e'. mget (ph_entries (record_all (map (\<lambda>t. (t, FailureDefiniteTransient)) ts) rid snap h)) rid = Some e'
     \<and> he_SnapshotID e' = he_SnapshotID e \<and> he_Failures e' = int n + int (length ts) \<and> he_Authentication e' = he_Authentication e
     \<and> he_OpenUntil e' = (if ts \<noteq> [] \<and> int n + int (length ts) \<ge> ph_Threshold h then last ts + ph_Cooldown h else he_OpenUntil e)"
  using assms
proof (induction ts arbitrary: h e n)
  case Nil
  then show ?case by (simp add: record_all_def)
next
  case (Cons t ts)
  let ?h = "Health_Record t rid snap FailureDefiniteTransient h"
  let ?e = "record_kind h t FailureDefiniteTransient (e\<lparr>he_RouteID := rid\<rparr>)"
  have "wrap64 (int n + 1) = int n + 1" using Cons.prems(5) by (intro wrap64_id) (simp add: int64_defs)
  then have e: "he_Failures ?e = int (Suc n)" "he_SnapshotID ?e = he_SnapshotID e" "he_Authentication ?e = he_Authentication e"
    "he_OpenUntil ?e = (if int (Suc n) \<ge> ph_Threshold h then t + ph_Cooldown h else he_OpenUntil e)"
    using Cons.prems(3,4) by (simp_all add: record_kind_def Let_def add.commute)
  have g: "mget (ph_entries ?h) rid = Some ?e"
    using Cons.prems(1-3) by (auto simp: Health_Record_get mgetd_def Let_def)
  have rest: "int (Suc n) + int (length ts) \<le> MaxInt64" using Cons.prems(5) by simp
  have ra: "record_all (map (\<lambda>t. (t, FailureDefiniteTransient)) (t # ts)) rid snap h
      = record_all (map (\<lambda>t. (t, FailureDefiniteTransient)) ts) rid snap ?h" by (simp add: record_all_def)
  show ?case
    unfolding ra using Cons.IH[OF Cons.prems(1) g _ e(1) rest] Cons.prems(3) e(2-4) by (auto simp: algebra_simps)
qed

text \<open>The state of a route as planning sees it.\<close>

definition health_open :: "gotime \<Rightarrow> string \<Rightarrow> string \<Rightarrow> passive_health \<Rightarrow> bool" where
  "health_open now snap rid h \<longleftrightarrow> rh_Open (forRoute (Health_View now snap h) rid)"

lemma mget_map_filter:
  "distinct (map fst m) \<Longrightarrow> mget (List.map_filter (\<lambda>(k, v). map_option (\<lambda>w. (k, w)) (f v)) m) k
     = (case mget m k of None \<Rightarrow> None | Some v \<Rightarrow> f v)"
proof (induction m)
  case Nil
  then show ?case by (simp add: map_filter_Nil)
next
  case (Cons kv m)
  obtain k' v' where kv: "kv = (k', v')" by (cases kv)
  have "mget m k' = None" if "k' \<notin> fst ` set m" using that by (simp add: map_of_eq_None_iff)
  then show ?case using Cons kv by (auto simp: map_filter_Cons split: option.splits)
qed

lemma health_open_entry:
  assumes "mwf (ph_entries h)" and "mget (ph_entries h) rid = Some e" and "he_SnapshotID e = snap \<or> snap = []"
  shows "health_open now snap rid h \<longleftrightarrow> he_Authentication e \<or> (\<not> IsZero (he_OpenUntil e) \<and> now < he_OpenUntil e)"
  using assms by (auto simp: health_open_def forRoute_def Health_View_def mget_map_filter mwf_def view_entry_def Let_def)

lemma record_all_mwf: "mwf (ph_entries h) \<Longrightarrow> mwf (ph_entries (record_all evs rid snap h))"
  unfolding record_all_def by (induction evs arbitrary: h) (auto simp: Health_Record_def Let_def)

text \<open>A route opens after exactly the configured number of consecutive definite transient failures since its last success in a
  snapshot, stays open until the cooldown after the last of them, and then closes; fewer failures never open it.\<close>

theorem health_opens_at_threshold:
  assumes "rid \<noteq> []" and "mwf (ph_entries h)" and "0 < ph_Threshold h" and "ts \<noteq> []" and "int (length ts) \<le> MaxInt64"
    and "last ts + ph_Cooldown h \<noteq> zero_time"
  shows "health_open now snap rid
           (record_all (map (\<lambda>t. (t, FailureDefiniteTransient)) ts) rid snap (Health_Record t0 rid snap FailureSuccess h))
         \<longleftrightarrow> int (length ts) \<ge> ph_Threshold h \<and> now < last ts + ph_Cooldown h"
proof -
  let ?h = "Health_Record t0 rid snap FailureSuccess h"
  obtain e where e: "mget (ph_entries ?h) rid = Some e" "he_Failures e = int 0" "he_Authentication e = False" "he_OpenUntil e = zero_time"
    using assms(1) by (auto simp: Health_Record_get record_kind_def Let_def)
  have snap: "he_SnapshotID e = snap \<or> snap = []"
    using e(1) assms(1) by (auto simp: Health_Record_get record_kind_def Let_def zero_health_entry_def)
  let ?r = "record_all (map (\<lambda>t. (t, FailureDefiniteTransient)) ts) rid snap ?h"
  obtain e' where e': "mget (ph_entries ?r) rid = Some e'" "he_SnapshotID e' = snap \<or> snap = []" "he_Authentication e' = False"
    "he_OpenUntil e' = (if ts \<noteq> [] \<and> int (length ts) \<ge> ph_Threshold h then last ts + ph_Cooldown h else zero_time)"
  proof -
    have "\<exists>e'. mget (ph_entries ?r) rid = Some e' \<and> he_SnapshotID e' = he_SnapshotID e \<and> he_Authentication e' = False
      \<and> he_OpenUntil e' = (if ts \<noteq> [] \<and> int (length ts) \<ge> ph_Threshold h then last ts + ph_Cooldown h else zero_time)"
      using transient_run[OF assms(1) e(1) snap e(2), of ts] assms(5) e(3,4) by auto
    then show thesis using that snap by metis
  qed
  have "mwf (ph_entries ?r)" using assms(2) by (intro record_all_mwf) (simp add: Health_Record_def Let_def)
  from health_open_entry[OF this e'(1,2), of now] e'(3,4) assms(4,6) show ?thesis by (auto simp: IsZero_def)
qed

theorem health_opens_at_threshold_witness:
  "health_open 50 ''s'' ''r'' (record_all [(10, FailureDefiniteTransient), (20, FailureDefiniteTransient)] ''r'' ''s''
     (Health_Record 5 ''r'' ''s'' FailureSuccess (NewPassiveHealth 2 40)))
   \<and> \<not> health_open 60 ''s'' ''r'' (record_all [(10, FailureDefiniteTransient), (20, FailureDefiniteTransient)] ''r'' ''s''
     (Health_Record 5 ''r'' ''s'' FailureSuccess (NewPassiveHealth 2 40)))"
  using health_opens_at_threshold[of "''r''" "NewPassiveHealth 2 40" "[10, 20]" 50 "''s''" 5]
    health_opens_at_threshold[of "''r''" "NewPassiveHealth 2 40" "[10, 20]" 60 "''s''" 5]
  by (simp add: NewPassiveHealth_def MaxInt64_def zero_time_def)

section \<open>A concrete plan\<close>

definition demo_codec :: codec where
  "demo_codec = \<lparr>NormalizeRequest = Inr, CanonicalJSONWithLimits = (\<lambda>_ _ q. Some (rq_Model q)), CompactJSON = Some, MarshalString = (\<lambda>s. s),
     Sha256Hex = (\<lambda>s. s), Candidate_Digest = (\<lambda>(fields, i, j). Some (concat fields))\<rparr>"

definition demo_request :: request where
  "demo_request = \<lparr>rq_WebSearch = False, rq_WebFetch = False, rq_CodeExecution = False, rq_APIVersion = [], rq_OperationKey = ''k'',
     rq_Context = \<lparr>rc_Tenant = ''t'', rc_Project = ''p'', rc_Actor = ''a'', rc_Tags = []\<rparr>, rq_Model = ''m'',
     rq_ServiceClass = ServiceClassPriority, rq_ServiceClassFallbacks = [ServiceClassStandard], rq_Portability = ''strict'',
     rq_Instructions = [], rq_Input = [], rq_Tools = [],
     rq_ToolPolicy = \<lparr>tp_Mode = [], tp_Name = [], tp_Parallel = False\<rparr>, rq_Output = None, rq_Sampling = None, rq_Reasoning = None,
     rq_Continuation = None, rq_Extensions = []\<rparr>"

definition demo_affinity :: affinity where
  "demo_affinity = \<lparr>af_Rank = 0, af_Provider = ''openai'', af_RouteID = ''r2'', af_EndpointID = ''e'', af_EndpointAccountHMAC = ''h'',
     af_Region = ''us'', af_EndpointFamily = ''openai_responses'', af_ModelLineage = ''gpt'', af_RouteModelRevision = ''gpt'',
     af_ProviderCacheKeyHMAC = zero32, af_HasProviderCacheKey = False, af_CacheEpoch = ''1'', af_HardPinned = False,
     af_ObservedCacheReadTokens = 0, af_ObservedCacheWriteTokens = 0, af_LastSuccessAt = 1, af_ExpiresAt = None\<rparr>"

definition demo_input :: "affinity_preferences option \<Rightarrow> plan_input" where
  "demo_input prefs = \<lparr>in_Request = demo_request,
     in_Catalog = \<lparr>rcat_Version = ''cat'', rcat_Models = [(''m'', \<lparr>md_Name = ''m'', md_Routes = [demo_route ''r1'', demo_route ''r2'']\<rparr>)],
                   rcat_ClassPolicies = []\<rparr>,
     in_Continuation = \<lparr>cs_Present = False, cs_Tenant = [], cs_Provider = [], cs_EndpointID = [], cs_AccountRegion = [], cs_Family = [],
        cs_ModelLineage = [], cs_RequiresOpaqueState = False, cs_TranscriptComplete = False, cs_Portability = [], cs_Affinities = []\<rparr>,
     in_Health = [], in_Affinity = prefs, in_Now = 100\<rparr>"

definition demo_soft :: affinity_preferences where
  "demo_soft = \<lparr>ap_HardPin = None, ap_Soft = [demo_affinity]\<rparr>"

definition demo_hard :: affinity_preferences where
  "demo_hard = \<lparr>ap_HardPin = Some (demo_affinity\<lparr>af_HardPinned := True\<rparr>), ap_Soft = []\<rparr>"

definition demo_plan :: "affinity_preferences option \<Rightarrow> plan" where
  "demo_plan prefs = fst (Plan demo_codec 0 None (demo_input prefs))"

lemma demo_plans:
  "Plan demo_codec 0 None (demo_input (Some demo_soft)) = (demo_plan (Some demo_soft), None)"
  "Plan demo_codec 0 None (demo_input (Some demo_hard)) = (demo_plan (Some demo_hard), None)"
  "map (\<lambda>c. (c_FallbackIndex c, c_RouteID c)) (pl_Candidates (demo_plan (Some demo_soft))) = [(0, ''r2''), (0, ''r1''), (1, ''r2''), (1, ''r1'')]"
proof -
  have "snd (Plan demo_codec 0 None (demo_input (Some demo_soft))) = None" by code_simp
  then show "Plan demo_codec 0 None (demo_input (Some demo_soft)) = (demo_plan (Some demo_soft), None)"
    unfolding demo_plan_def by (metis prod.collapse)
  have "snd (Plan demo_codec 0 None (demo_input (Some demo_hard))) = None" by code_simp
  then show "Plan demo_codec 0 None (demo_input (Some demo_hard)) = (demo_plan (Some demo_hard), None)"
    unfolding demo_plan_def by (metis prod.collapse)
  show "map (\<lambda>c. (c_FallbackIndex c, c_RouteID c)) (pl_Candidates (demo_plan (Some demo_soft))) = [(0, ''r2''), (0, ''r1''), (1, ''r2''), (1, ''r1'')]"
    by code_simp
qed


theorem plan_complete_witness: "length (pl_Candidates (demo_plan (Some demo_soft))) = 4"
proof -
  have a: "case in_Affinity (demo_input (Some demo_soft)) of None \<Rightarrow> True | Some ps \<Rightarrow> ap_HardPin ps = None"
    by (simp add: demo_input_def demo_soft_def)
  let ?q = demo_request and ?classes = "[ServiceClassPriority, ServiceClassStandard]"
    and ?m = "\<lparr>md_Name = ''m'', md_Routes = [demo_route ''r1'', demo_route ''r2'']\<rparr>" and ?i = "demo_input (Some demo_soft)"
  have n: "NormalizeRequest demo_codec (in_Request ?i) = Inr demo_request" by (simp add: demo_codec_def demo_input_def)
  have r: "NormalizeServiceClass (rq_ServiceClass demo_request) = Inr ServiceClassPriority" by code_simp
  have m: "mget (rcat_Models (in_Catalog ?i)) (rq_Model demo_request) = Some ?m" by (simp add: demo_input_def demo_request_def)
  have s: "ServiceClasses (in_Catalog ?i) demo_request = Inr ?classes" by code_simp
  have l: "length (concat (map (\<lambda>cls. List.map_filter (eligible demo_codec ?i demo_request ServiceClassPriority cls) (enumerate 0 (md_Routes ?m)))
      (enumerate 0 ?classes))) = 4" by code_simp
  have "mset (pl_Candidates (demo_plan (Some demo_soft))) = mset (concat (map (\<lambda>cls. List.map_filter
      (eligible demo_codec ?i demo_request ServiceClassPriority cls) (enumerate 0 (md_Routes ?m))) (enumerate 0 ?classes)))"
    using plan_complete[OF demo_plans(1) a] n r m s by auto
  from mset_eq_length[OF this] l show ?thesis by simp
qed

theorem plan_class_major_witness: "sorted (map c_FallbackIndex (pl_Candidates (demo_plan (Some demo_soft))))"
  by (rule plan_class_major[OF demo_plans(1)])

theorem hard_pin_single_candidate_witness: "\<exists>c. pl_Candidates (demo_plan (Some demo_hard)) = [c] \<and> c_EndpointAccountHMAC c = ''h''"
proof -
  have a: "in_Affinity (demo_input (Some demo_hard)) = Some demo_hard" "ap_HardPin demo_hard = Some (demo_affinity\<lparr>af_HardPinned := True\<rparr>)"
    "af_EndpointAccountHMAC (demo_affinity\<lparr>af_HardPinned := True\<rparr>) = ''h''"
    by (simp_all add: demo_input_def demo_hard_def demo_affinity_def)
  show ?thesis using hard_pin_single_candidate[OF demo_plans(2) a(1,2)] a(3) by auto
qed

theorem service_classes_contract_witness:
  "\<exists>classes. ServiceClasses (in_Catalog (demo_input None)) demo_request = Inr classes \<and> distinct classes \<and> hd classes = ServiceClassPriority"
proof -
  let ?cat = "in_Catalog (demo_input None)"
  have s: "ServiceClasses ?cat demo_request = Inr [ServiceClassPriority, ServiceClassStandard]" by code_simp
  have r: "NormalizeServiceClass (rq_ServiceClass demo_request) = Inr ServiceClassPriority" by code_simp
  have e: "classEnabled ?cat (rq_Context demo_request) ServiceClassPriority" by code_simp
  have o: "\<forall>m. mget (rcat_Models ?cat) (rq_Model demo_request) = Some m \<longrightarrow> offers m ServiceClassPriority"
  proof (intro allI impI)
    fix m assume "mget (rcat_Models ?cat) (rq_Model demo_request) = Some m"
    then have "m = \<lparr>md_Name = ''m'', md_Routes = [demo_route ''r1'', demo_route ''r2'']\<rparr>" by (simp add: demo_input_def demo_request_def)
    moreover have "offers \<lparr>md_Name = ''m'', md_Routes = [demo_route ''r1'', demo_route ''r2'']\<rparr> ServiceClassPriority" by code_simp
    ultimately show "offers m ServiceClassPriority" by simp
  qed
  show ?thesis using service_classes_contract[OF s] s r e o by blast
qed

end
