(* ===== verification/Budget.thy ===== *)
theory Budget
  imports Planner
begin

text \<open>
  Package \<^verbatim>\<open>budget\<close>: budget windows over buckets (\<^verbatim>\<open>window.go\<close>), policies and their matching
  (\<^verbatim>\<open>policy.go\<close>, \<^verbatim>\<open>match.go\<close>) and the accounting events (\<^verbatim>\<open>journal.go\<close>). A \<^verbatim>\<open>time.Duration\<close> is an
  \<open>int\<close> of nanoseconds. Buckets are a map from index to amount.
\<close>

section \<open>Windows\<close>

record window =
  w_ID :: string
  w_Duration :: int
  w_Bucket :: int
  w_LimitUSD :: usd
  w_Limit :: int

datatype budget_error = WindowNotPositive | WindowUnbounded | TooManyBuckets int | LimitInvalid money_error | LimitUnsafe
  | SumFailed money_error | ReservationUnsafe | AmountInvalid money_error
  | PolicyIncomplete | MatcherUnrestricted | MatcherClass | PolicyWindow nat budget_error
  | IdentityUnsafe nat | TimestampsRequired | NegativeRevision | AmountNotPositive | DeltaInvalid money_error | ActualInvalid money_error
  | BadCostStatus | BadReasonCode | ReasonWithoutUnknown | ExactCostRequired | FinalizeExactDeltas | UnknownCostRequired
  | FinalizeUnknownDeltas | RetainUnknownRequired | RetainChanges | ResolveExactRequired | ResolveDeltas | ReleaseNotZero | BadKind

definition window_buckets :: "window \<Rightarrow> int" where
  "window_buckets w = wrap64 (w_Duration w sdiv w_Bucket w + 2)"

definition Window_Validate :: "window \<Rightarrow> int \<Rightarrow> budget_error option" where
  "Window_Validate w maxBuckets =
     (if w_Duration w \<le> 0 \<or> w_Bucket w \<le> 0 \<or> (USD_IsZero (w_LimitUSD w) \<and> w_Limit w \<le> 0) then Some WindowNotPositive
      else if w_Bucket w > w_Duration w \<or> maxBuckets \<le> 0 then Some WindowUnbounded
      else if window_buckets w > maxBuckets then Some (TooManyBuckets (window_buckets w))
      else if \<not> USD_IsZero (w_LimitUSD w) then map_option LimitInvalid (USD_valid (w_LimitUSD w))
      else if w_Limit w > RedisSafeLimit then Some LimitUnsafe
      else None)"

definition Window_ValidateUSD :: "window \<Rightarrow> int \<Rightarrow> budget_error option" where
  "Window_ValidateUSD w maxBuckets =
     (if w_Duration w \<le> 0 \<or> w_Bucket w \<le> 0 \<or> USD_IsZero (w_LimitUSD w) then Some WindowNotPositive
      else orElse (map_option LimitInvalid (USD_valid (w_LimitUSD w)))
        (if w_Bucket w > w_Duration w \<or> maxBuckets \<le> 0 then Some WindowUnbounded
         else if window_buckets w > maxBuckets then Some (TooManyBuckets (window_buckets w))
         else None))"

text \<open>\<^verbatim>\<open>FloorDiv\<close> panics (\<open>None\<close>) unless the divisor is positive.\<close>

definition FloorDiv :: "int \<Rightarrow> int \<Rightarrow> int option" where
  "FloorDiv v d =
     (if d \<le> 0 then None
      else let quotient = v sdiv d; remainder = v smod d
           in Some (if remainder \<noteq> 0 \<and> (remainder < 0) \<noteq> (d < 0) then wrap64 (quotient - 1) else quotient))"

definition Window_Range :: "window \<Rightarrow> gotime \<Rightarrow> (int \<times> int) option" where
  "Window_Range w t =
     (case FloorDiv (UnixNano t) (w_Bucket w) of
        None \<Rightarrow> None
      | Some current \<Rightarrow> map_option (\<lambda>first. (first, current)) (FloorDiv (UnixNano (t + wrap64 (- w_Duration w))) (w_Bucket w)))"

text \<open>
  The sums run over \<open>[first..last]\<close>; the sorting of the indices in \<^verbatim>\<open>ActiveSum\<close> leaves that
  list as it is. \<open>None\<close> is the panic of a window without a positive bucket.
\<close>

definition ActiveSum :: "window \<Rightarrow> (int, int) gomap \<Rightarrow> gotime \<Rightarrow> (budget_error + int) option" where
  "ActiveSum w buckets t =
     map_option (\<lambda>(first, last). case foldE (\<lambda>total i. MicroUSD_Add total (mgetd 0 buckets i)) 0 (sort [first..last]) of
                   Inl e \<Rightarrow> Inl (SumFailed e) | Inr n \<Rightarrow> Inr n) (Window_Range w t)"

definition CanReserve :: "window \<Rightarrow> (int, int) gomap \<Rightarrow> int \<Rightarrow> gotime \<Rightarrow> (budget_error + bool \<times> int) option" where
  "CanReserve w buckets amount t =
     map_option (\<lambda>r. case r of
         Inl e \<Rightarrow> Inl e
       | Inr active \<Rightarrow>
           if amount < 0 \<or> amount > RedisSafeLimit then Inl ReservationUnsafe
           else if active > w_Limit w \<or> amount > wrap64 (w_Limit w - active) then Inr (False, active)
           else Inr (True, active)) (ActiveSum w buckets t)"

fun retry_loop :: "window \<Rightarrow> (int, int) gomap \<Rightarrow> int \<Rightarrow> gotime \<Rightarrow> int \<Rightarrow> int list \<Rightarrow> budget_error + int" where
  "retry_loop w buckets amount t active [] = Inr MaxInt64"
| "retry_loop w buckets amount t active (i # is) =
     (let v = mgetd 0 buckets i
      in if v = 0 then retry_loop w buckets amount t active is
         else case MicroUSD_Sub active v of
                Inl e \<Rightarrow> Inl (SumFailed e)
              | Inr active' \<Rightarrow>
                  if active' > w_Limit w \<or> amount > wrap64 (w_Limit w - active') then retry_loop w buckets amount t active' is
                  else let expires = wrap64 (wrap64 (wrap64 (i + 1) * w_Bucket w) + w_Duration w);
                           candidate = time_Sub expires t
                       in Inr (if candidate < 0 then 0 else candidate))"

definition RetryAfter :: "window \<Rightarrow> (int, int) gomap \<Rightarrow> int \<Rightarrow> gotime \<Rightarrow> (budget_error + int) option" where
  "RetryAfter w buckets amount t =
     (case CanReserve w buckets amount t of
        None \<Rightarrow> None
      | Some (Inl e) \<Rightarrow> Some (Inl e)
      | Some (Inr (ok, active)) \<Rightarrow>
          if ok then Some (Inr 0)
          else map_option (\<lambda>(first, last). retry_loop w buckets amount t active [first..last]) (Window_Range w t))"

definition ActiveSumUSD :: "window \<Rightarrow> (int, usd) gomap \<Rightarrow> gotime \<Rightarrow> (budget_error + usd) option" where
  "ActiveSumUSD w buckets t =
     map_option (\<lambda>(first, last). case foldE (\<lambda>total i. USD_Add total (mgetd (USD None) buckets i)) (of_sum (USD None) (ParseUSD ''0'')) [first..last] of
                   Inl e \<Rightarrow> Inl (SumFailed e) | Inr n \<Rightarrow> Inr n) (Window_Range w t)"

definition CanReserveUSD :: "window \<Rightarrow> (int, usd) gomap \<Rightarrow> usd \<Rightarrow> gotime \<Rightarrow> (budget_error + bool \<times> usd) option" where
  "CanReserveUSD w buckets amount t =
     (case Window_ValidateUSD w 1048576 of
        Some e \<Rightarrow> Some (Inl e)
      | None \<Rightarrow>
          case USD_valid amount of
            Some e \<Rightarrow> Some (Inl (AmountInvalid e))
          | None \<Rightarrow>
              map_option (\<lambda>r. case r of
                  Inl e \<Rightarrow> Inl e
                | Inr active \<Rightarrow>
                    case USD_Sub (w_LimitUSD w) active of
                      Inl _ \<Rightarrow> Inr (False, active)
                    | Inr remaining \<Rightarrow> Inr (\<not> USD_Cmp amount remaining > 0, active)) (ActiveSumUSD w buckets t))"

section \<open>Policies\<close>

record match_context =
  mc_Tenant :: string
  mc_Project :: string
  mc_Actor :: string
  mc_Environment :: string
  mc_LogicalModel :: string
  mc_EndpointID :: string
  mc_ServiceClass :: service_class

record matcher =
  m_Tenant :: string
  m_Project :: string
  m_ActorPrefix :: string
  m_Environment :: string
  m_LogicalModel :: string
  m_EndpointID :: string
  m_ServiceClass :: service_class

record policy =
  po_ID :: string
  po_Match :: matcher
  po_Windows :: "window list"

definition matchExactRestriction :: "string \<Rightarrow> bool" where
  "matchExactRestriction v \<longleftrightarrow> v \<noteq> [] \<and> v \<noteq> ''*''"

definition HasRestriction :: "matcher \<Rightarrow> bool" where
  "HasRestriction m \<longleftrightarrow> matchExactRestriction (m_Tenant m) \<or> matchExactRestriction (m_Project m)
     \<or> (m_ActorPrefix m \<noteq> [] \<and> m_ActorPrefix m \<noteq> ''*'') \<or> matchExactRestriction (m_Environment m)
     \<or> matchExactRestriction (m_LogicalModel m) \<or> matchExactRestriction (m_EndpointID m) \<or> m_ServiceClass m \<noteq> []"

definition Matcher_Validate :: "matcher \<Rightarrow> budget_error option" where
  "Matcher_Validate m =
     (if \<not> HasRestriction m then Some MatcherUnrestricted
      else if m_ServiceClass m \<noteq> [] \<and> \<not> ServiceClass_Valid (m_ServiceClass m) then Some MatcherClass else None)"

definition matchExact :: "string \<Rightarrow> string \<Rightarrow> bool" where
  "matchExact rule v \<longleftrightarrow> (if rule = [] \<or> rule = ''*'' then True else v \<noteq> [] \<and> rule = v)"

definition Matches :: "matcher \<Rightarrow> match_context \<Rightarrow> bool" where
  "Matches m v \<longleftrightarrow>
     (if \<not> matchExact (m_Tenant m) (mc_Tenant v) \<or> \<not> matchExact (m_Project m) (mc_Project v)
         \<or> \<not> matchExact (m_Environment m) (mc_Environment v) \<or> \<not> matchExact (m_LogicalModel m) (mc_LogicalModel v)
         \<or> \<not> matchExact (m_EndpointID m) (mc_EndpointID v) then False
      else if m_ActorPrefix m \<noteq> [] \<and> m_ActorPrefix m \<noteq> ''*'' \<and> \<not> has_prefix (m_ActorPrefix m) (mc_Actor v) then False
      else if m_ServiceClass m \<noteq> [] \<and> m_ServiceClass m \<noteq> mc_ServiceClass v then False
      else True)"

definition Policy_Validate :: "policy \<Rightarrow> int \<Rightarrow> budget_error option" where
  "Policy_Validate p maxBuckets =
     (if po_ID p = [] \<or> po_Windows p = [] then Some PolicyIncomplete
      else orElse (Matcher_Validate (po_Match p))
        (firstErr (\<lambda>(i, w). map_option (PolicyWindow i) (Window_Validate w maxBuckets)) (enumerate 0 (po_Windows p))))"

definition ContextFor :: "request \<Rightarrow> candidate \<Rightarrow> string \<Rightarrow> match_context" where
  "ContextFor q c environment =
     (let class = (if c_AttemptedClass c = [] then rq_ServiceClass q else c_AttemptedClass c)
      in \<lparr>mc_Tenant = rc_Tenant (rq_Context q), mc_Project = rc_Project (rq_Context q), mc_Actor = rc_Actor (rq_Context q),
          mc_Environment = environment, mc_LogicalModel = rq_Model q, mc_EndpointID = c_EndpointID c, mc_ServiceClass = class\<rparr>)"

record matched_window =
  mw_PolicyID :: string
  mw_Window :: window
  mw_Context :: match_context

definition MatchPolicies :: "policy list \<Rightarrow> match_context \<Rightarrow> matched_window list" where
  "MatchPolicies policies ctx =
     concat (map (\<lambda>p. if \<not> Matches (po_Match p) ctx then []
                      else map (\<lambda>w. \<lparr>mw_PolicyID = po_ID p, mw_Window = w, mw_Context = ctx\<rparr>) (po_Windows p)) policies)"

definition MatchPlan :: "policy list \<Rightarrow> request \<Rightarrow> plan \<Rightarrow> string \<Rightarrow> (string, matched_window list) gomap" where
  "MatchPlan policies q p environment =
     fold (\<lambda>c m. mput (c_ID c) (MatchPolicies policies (ContextFor q c environment)) m) (pl_Candidates p) []"

section \<open>Accounting events\<close>

datatype journal_event_kind = JournalReserve | JournalFinalizeExact | JournalFinalizeUnknown | JournalRetainAmbiguous
  | JournalResolveUnknownExact | JournalRelease | JournalOther string

datatype actual_cost_status = CostPending | CostExact | CostUnknown | CostOther string

record reservation_event =
  re_EventID :: string
  re_GenerationID :: string
  re_OperationID :: string
  re_WindowID :: string
  re_BucketStart :: gotime
  re_ReservationRevision :: int
  re_AmountUSD :: usd
  re_OccurredAt :: gotime

record completion_event =
  ce_EventID :: string
  ce_GenerationID :: string
  ce_OperationID :: string
  ce_WindowID :: string
  ce_BucketStart :: gotime
  ce_ReservationRevision :: int
  ce_Kind :: journal_event_kind
  ce_ReservedDecreaseUSD :: usd
  ce_AccountedIncreaseUSD :: usd
  ce_AccountedDecreaseUSD :: usd
  ce_ActualCostUSD :: "usd option"
  ce_CostStatus :: actual_cost_status
  ce_UnknownReasonCode :: string
  ce_OccurredAt :: gotime

definition identity_ok :: "string \<Rightarrow> bool" where
  "identity_ok v \<longleftrightarrow> \<not> (v = [] \<or> length v > 128 \<or> TrimSpace v \<noteq> v \<or> list_ex (\<lambda>c. c = NUL \<or> c = CHR 0x0D \<or> c = CHR 0x0A) v)"

definition validateIdentity :: "nat \<times> string \<Rightarrow> budget_error option" where
  "validateIdentity iv = (case iv of (i, v) \<Rightarrow> if identity_ok v then None else Some (IdentityUnsafe i))"

definition ReservationEvent_Validate :: "reservation_event \<Rightarrow> budget_error option" where
  "ReservationEvent_Validate e =
     orElse (firstErr validateIdentity (enumerate 0 [re_EventID e, re_GenerationID e, re_OperationID e, re_WindowID e]))
       (if IsZero (re_BucketStart e) \<or> IsZero (re_OccurredAt e) then Some TimestampsRequired
        else if re_ReservationRevision e < 0 then Some NegativeRevision
        else orElse (map_option AmountInvalid (USD_valid (re_AmountUSD e)))
          (if USD_IsZero (re_AmountUSD e) then Some AmountNotPositive else None))"

definition safeReasonCode :: "string \<Rightarrow> bool" where
  "safeReasonCode v \<longleftrightarrow> \<not> (length v = 0 \<or> length v > 64)
     \<and> list_all (\<lambda>c. (CHR ''a'' \<le> c \<and> c \<le> CHR ''z'') \<or> (CHR ''0'' \<le> c \<and> c \<le> CHR ''9'') \<or> c = CHR ''_'') v"

definition validateKindDeltas :: "completion_event \<Rightarrow> budget_error option" where
  "validateKindDeltas e =
     (case ce_Kind e of
        JournalFinalizeExact \<Rightarrow>
          (case ce_ActualCostUSD e of
             None \<Rightarrow> Some ExactCostRequired
           | Some actual \<Rightarrow>
               if ce_CostStatus e \<noteq> CostExact \<or> USD_IsZero actual \<and> \<not> USD_IsZero (ce_AccountedIncreaseUSD e) then Some ExactCostRequired
               else if USD_IsZero (ce_ReservedDecreaseUSD e) \<or> USD_Cmp (ce_AccountedIncreaseUSD e) actual \<noteq> 0
                       \<or> \<not> USD_IsZero (ce_AccountedDecreaseUSD e) then Some FinalizeExactDeltas
               else None)
      | JournalFinalizeUnknown \<Rightarrow>
          if ce_CostStatus e \<noteq> CostUnknown \<or> ce_ActualCostUSD e \<noteq> None \<or> ce_UnknownReasonCode e = [] then Some UnknownCostRequired
          else if USD_IsZero (ce_ReservedDecreaseUSD e) \<or> USD_Cmp (ce_AccountedIncreaseUSD e) (ce_ReservedDecreaseUSD e) \<noteq> 0
                  \<or> \<not> USD_IsZero (ce_AccountedDecreaseUSD e) then Some FinalizeUnknownDeltas
          else None
      | JournalRetainAmbiguous \<Rightarrow>
          if ce_CostStatus e \<noteq> CostUnknown \<or> ce_ActualCostUSD e \<noteq> None \<or> ce_UnknownReasonCode e = [] then Some RetainUnknownRequired
          else if \<not> USD_IsZero (ce_ReservedDecreaseUSD e) \<or> \<not> USD_IsZero (ce_AccountedIncreaseUSD e)
                  \<or> \<not> USD_IsZero (ce_AccountedDecreaseUSD e) then Some RetainChanges
          else None
      | JournalResolveUnknownExact \<Rightarrow>
          (case ce_ActualCostUSD e of
             None \<Rightarrow> Some ResolveExactRequired
           | Some actual \<Rightarrow>
               if ce_CostStatus e \<noteq> CostExact then Some ResolveExactRequired
               else if USD_IsZero (ce_ReservedDecreaseUSD e) = USD_IsZero (ce_AccountedDecreaseUSD e)
                       \<or> USD_Cmp (ce_AccountedIncreaseUSD e) actual \<noteq> 0 then Some ResolveDeltas
               else None)
      | JournalRelease \<Rightarrow>
          (case ce_ActualCostUSD e of
             None \<Rightarrow> Some ReleaseNotZero
           | Some actual \<Rightarrow>
               if ce_CostStatus e \<noteq> CostExact \<or> \<not> USD_IsZero actual \<or> USD_IsZero (ce_ReservedDecreaseUSD e)
                  \<or> \<not> USD_IsZero (ce_AccountedIncreaseUSD e) \<or> \<not> USD_IsZero (ce_AccountedDecreaseUSD e) then Some ReleaseNotZero
               else None)
      | _ \<Rightarrow> Some BadKind)"

definition CompletionEvent_Validate :: "completion_event \<Rightarrow> budget_error option" where
  "CompletionEvent_Validate e =
     orElse (firstErr validateIdentity (enumerate 0 [ce_EventID e, ce_GenerationID e, ce_OperationID e, ce_WindowID e]))
       (if IsZero (ce_BucketStart e) \<or> IsZero (ce_OccurredAt e) then Some TimestampsRequired
        else if ce_ReservationRevision e < 0 then Some NegativeRevision
        else orElse (firstErr (\<lambda>v. map_option DeltaInvalid (USD_valid v))
                       [ce_ReservedDecreaseUSD e, ce_AccountedIncreaseUSD e, ce_AccountedDecreaseUSD e])
          (orElse (case ce_ActualCostUSD e of None \<Rightarrow> None | Some a \<Rightarrow> map_option ActualInvalid (USD_valid a))
            (if ce_CostStatus e \<noteq> CostPending \<and> ce_CostStatus e \<noteq> CostExact \<and> ce_CostStatus e \<noteq> CostUnknown then Some BadCostStatus
             else if ce_UnknownReasonCode e \<noteq> [] \<and> \<not> safeReasonCode (ce_UnknownReasonCode e) then Some BadReasonCode
             else if ce_CostStatus e \<noteq> CostUnknown \<and> ce_UnknownReasonCode e \<noteq> [] then Some ReasonWithoutUnknown
             else validateKindDeltas e)))"

end
