(* ===== verification/Budget_Facts.thy ===== *)
theory Budget_Facts
  imports Budget Admission_Retention
begin

text \<open>
  What the budget windows promise: admission against the exact sum of a window, a retry delay
  that is both sufficient and minimal, policies that always exclude something, and accounting
  events that neither create nor lose money.
\<close>

section \<open>Window sums\<close>

lemma FloorDiv_div: "0 < d \<Longrightarrow> int64 v \<Longrightarrow> FloorDiv v d = Some (v div d)"
proof -
  assume d: "0 < d" and v: "int64 v"
  have "FloorDiv v d = Some (floorDiv v d)" if "wrap64 (v sdiv d) = v sdiv d"
    using d that by (simp add: FloorDiv_def floorDiv_def Let_def)
  moreover have "int64 (v sdiv d)"
  proof -
    have "\<bar>v\<bar> div d \<le> \<bar>v\<bar>" "0 \<le> \<bar>v\<bar> div d" using zdiv_mono2[of "\<bar>v\<bar>" 1 d] d by (simp_all add: pos_imp_zdiv_nonneg_iff)
    moreover have "v sdiv d = sgn v * (\<bar>v\<bar> div d)" using d by (simp add: signed_divide_int_def sgn_mult)
    moreover have "v < 0 \<or> 0 \<le> v" by linarith
    ultimately have "\<bar>v sdiv d\<bar> \<le> \<bar>v\<bar>" "0 \<le> v \<longrightarrow> 0 \<le> v sdiv d" "v < 0 \<longrightarrow> v sdiv d \<le> 0" by (auto simp: abs_mult sgn_if)
    then show ?thesis using v by (auto simp: int64_defs)
  qed
  ultimately show ?thesis using floorDiv_div[OF d v] by (simp add: wrap64_id)
qed

definition sane_window :: "window \<Rightarrow> gotime \<Rightarrow> bool" where
  "sane_window w t \<longleftrightarrow> 0 < w_Bucket w \<and> 0 < w_Duration w \<and> w_Duration w \<le> MaxInt64 \<and> 0 \<le> t \<and> t \<le> MaxInt64"

lemma Window_Range_div:
  assumes "sane_window w t"
  shows "Window_Range w t = Some ((t - w_Duration w) div w_Bucket w, t div w_Bucket w)"
proof -
  have "UnixNano t = t" "wrap64 (- w_Duration w) = - w_Duration w" "UnixNano (t - w_Duration w) = t - w_Duration w"
    "int64 t" "int64 (t - w_Duration w)"
    using assms by (auto simp: sane_window_def UnixNano_def int64_defs intro!: wrap64_id)
  then show ?thesis using assms by (simp add: Window_Range_def FloorDiv_div sane_window_def)
qed

definition bsum :: "(int, int) gomap \<Rightarrow> int \<Rightarrow> int \<Rightarrow> int" where
  "bsum buckets a b = sum_list (map (mgetd 0 buckets) [a..b])"

definition fits :: "window \<Rightarrow> int \<Rightarrow> int \<Rightarrow> bool" where
  "fits w amount active \<longleftrightarrow> active \<le> w_Limit w \<and> amount + active \<le> w_Limit w"

lemma bsum_Nil: "b < a \<Longrightarrow> bsum m a b = 0"
  by (simp add: bsum_def)

lemma bsum_Cons: "a \<le> b \<Longrightarrow> bsum m a b = mgetd 0 m a + bsum m (a + 1) b"
  by (simp add: bsum_def upto_rec1)

definition buckets_ok :: "(int, int) gomap \<Rightarrow> bool" where
  "buckets_ok m \<longleftrightarrow> (\<forall>i. 0 \<le> mgetd 0 m i)"

lemma bsum_nonneg: "buckets_ok m \<Longrightarrow> 0 \<le> bsum m a b"
  by (auto simp: bsum_def buckets_ok_def intro!: sum_list_nonneg)

lemma bsum_split: "a \<le> k \<Longrightarrow> bsum m a b = bsum m a (min b (k - 1)) + bsum m k b"
proof (cases "k \<le> b")
  case True
  assume "a \<le> k"
  then have "[a..b] = [a..k - 1] @ [k..b]" using True upto_split1[of a k b] by simp
  then show ?thesis using True by (simp add: bsum_def min_def)
next
  case False
  then show ?thesis by (simp add: bsum_Nil min_def)
qed

lemma bsum_mono: "buckets_ok m \<Longrightarrow> a \<le> k \<Longrightarrow> bsum m k b \<le> bsum m a b"
  using bsum_split[of a k m b] bsum_nonneg[of m a "min b (k - 1)"] by simp

lemma zero_sum: "\<forall>x \<in> set xs. f x = 0 \<Longrightarrow> sum_list (map f xs) = (0::int)"
  by (induction xs) simp_all

text \<open>Buckets after the current one are empty, so a later window ends where this one does.\<close>

lemma bsum_extend:
  assumes "\<forall>i > b. mgetd 0 m i = 0" and "b \<le> c"
  shows "bsum m a c = bsum m a b"
proof (cases "a \<le> b + 1")
  case True
  have "bsum m (b + 1) c = 0" unfolding bsum_def using assms(1) by (intro zero_sum) simp
  moreover have "min c b = b" using assms(2) by simp
  ultimately show ?thesis using bsum_split[OF True, of m c] by simp
next
  case False
  have "bsum m a c = 0" unfolding bsum_def using assms(1) False by (intro zero_sum) simp
  then show ?thesis using False by (simp add: bsum_Nil)
qed

lemma foldE_sum_total:
  assumes "buckets_ok m" and "sum_list (map (mgetd 0 m) xs) \<le> RedisSafeLimit"
  shows "foldE (\<lambda>total i. MicroUSD_Add total (mgetd 0 m i)) 0 xs = Inr (sum_list (map (mgetd 0 m) xs))"
proof -
  have nn: "0 \<le> mgetd 0 m i" for i using assms(1) by (simp add: buckets_ok_def)
  have "mgetd 0 m x \<le> sum_list (map (mgetd 0 m) xs)" if "x \<in> set xs" for x
    using that nn by (intro member_le_sum_list) auto
  then have "\<forall>y \<in> set (map (mgetd 0 m) xs). MicroUSD_Valid y" using assms(2) nn by (auto simp: MicroUSD_Valid_def intro: order_trans)
  from micro.total_ok[OF _ this, of 0] show ?thesis
    using assms(2) foldE_map[of MicroUSD_Add "mgetd 0 m" 0 xs] by (auto simp: MicroUSD_Valid_def RedisSafeLimit_def comp_def)
qed

lemma ActiveSum_total:
  assumes "sane_window w t" and "buckets_ok m"
    and "bsum m ((t - w_Duration w) div w_Bucket w) (t div w_Bucket w) \<le> RedisSafeLimit"
  shows "ActiveSum w m t = Some (Inr (bsum m ((t - w_Duration w) div w_Bucket w) (t div w_Bucket w)))"
proof -
  have "sort [a..b] = [a..b]" for a b :: int by (rule sort_key_id_if_sorted) (simp add: sorted_upto)
  then show ?thesis
    using foldE_sum_total[OF assms(2)] assms(3) by (simp add: ActiveSum_def Window_Range_div[OF assms(1)] bsum_def)
qed

lemma CanReserve_total:
  assumes "sane_window w t" and "buckets_ok m" and "0 \<le> amount" and "amount \<le> RedisSafeLimit" and "int64 (w_Limit w)"
    and "bsum m ((t - w_Duration w) div w_Bucket w) (t div w_Bucket w) \<le> RedisSafeLimit"
  shows "CanReserve w m amount t = Some (Inr (fits w amount (bsum m ((t - w_Duration w) div w_Bucket w) (t div w_Bucket w)),
           bsum m ((t - w_Duration w) div w_Bucket w) (t div w_Bucket w)))"
proof -
  let ?s = "bsum m ((t - w_Duration w) div w_Bucket w) (t div w_Bucket w)"
  have "wrap64 (w_Limit w - ?s) = w_Limit w - ?s" if "?s \<le> w_Limit w"
    using that bsum_nonneg[OF assms(2), of "(t - w_Duration w) div w_Bucket w" "t div w_Bucket w"] assms(5)
    by (intro wrap64_id) (simp add: int64_defs)
  then show ?thesis using assms(3,4) by (auto simp: CanReserve_def ActiveSum_total[OF assms(1,2,6)] fits_def)
qed

section \<open>Retry delays\<close>

text \<open>
  The bucket at which enough room is left: the loop returns the first non-empty index after
  which the rest of the window fits, and the window up to and including it does not.
\<close>

lemma retry_loop_stops:
  assumes "buckets_ok m" and "bsum m k b \<le> RedisSafeLimit" and "int64 (w_Limit w)" and "\<not> fits w amount (bsum m k b)"
    and "amount \<le> w_Limit w" and "0 \<le> amount" and "0 \<le> w_Limit w"
  shows "\<exists>i. k \<le> i \<and> i \<le> b \<and> \<not> fits w amount (bsum m i b) \<and> fits w amount (bsum m (i + 1) b)
     \<and> retry_loop w m amount t (bsum m k b) [k..b] =
         Inr (let candidate = time_Sub (wrap64 (wrap64 (wrap64 (i + 1) * w_Bucket w) + w_Duration w)) t
              in if candidate < 0 then 0 else candidate)"
  using assms(2,4)
proof (induction "nat (b + 1 - k)" arbitrary: k)
  case 0
  then have "bsum m k b = 0" by (intro bsum_Nil) simp
  then show ?case using 0 assms(5-7) by (simp add: fits_def)
next
  case (Suc n)
  have kb: "k \<le> b" using Suc.hyps(2) by simp
  have n: "n = nat (b + 1 - (k + 1))" using Suc.hyps(2) by simp
  let ?v = "mgetd 0 m k" and ?r = "bsum m (k + 1) b"
  have v: "0 \<le> ?v" "0 \<le> ?r" "bsum m k b = ?v + ?r"
    using assms(1) bsum_Cons[OF kb] by (simp_all add: buckets_ok_def bsum_nonneg)
  have rsafe: "?r \<le> RedisSafeLimit" using v Suc.prems(1) by simp
  have up: "[k..b] = k # [k + 1..b]" using kb by (simp add: upto_rec1)
  have w: "wrap64 (w_Limit w - ?r) = w_Limit w - ?r" if "?r \<le> w_Limit w"
    using that v(2) assms(3) by (intro wrap64_id) (simp add: int64_defs)
  have step: "retry_loop w m amount t (bsum m k b) [k..b] =
      (if fits w amount ?r \<and> ?v \<noteq> 0
       then Inr (let candidate = time_Sub (wrap64 (wrap64 (wrap64 (k + 1) * w_Bucket w) + w_Duration w)) t
                 in if candidate < 0 then 0 else candidate)
       else retry_loop w m amount t ?r [k + 1..b])"
  proof (cases "?v = 0")
    case True
    then show ?thesis using up v(3) by simp
  next
    case False
    have "MicroUSD_Sub (bsum m k b) ?v = Inr ?r"
      using v Suc.prems(1) by (simp add: micro_sub_alt MicroUSD_Valid_def)
    then show ?thesis using False up w v(2) by (auto simp: fits_def Let_def)
  qed
  show ?case
  proof (cases "fits w amount ?r")
    case True
    then have "?v \<noteq> 0" using Suc.prems(2) v(3) by auto
    then show ?thesis using step True Suc.prems(2) kb by (intro exI[of _ k]) simp
  next
    case False
    obtain i where "k + 1 \<le> i" "i \<le> b" "\<not> fits w amount (bsum m i b)" "fits w amount (bsum m (i + 1) b)"
      "retry_loop w m amount t ?r [k + 1..b] = Inr (let candidate = time_Sub (wrap64 (wrap64 (wrap64 (i + 1) * w_Bucket w) + w_Duration w)) t
         in if candidate < 0 then 0 else candidate)"
      using Suc.hyps(1)[OF n rsafe False] by blast
    then show ?thesis using step False by (intro exI[of _ i]) simp
  qed
qed

text \<open>The bucket index the loop stops at, and the moment its bucket leaves the window, fit an \<^verbatim>\<open>int64\<close>.\<close>

lemma retry_index_range:
  assumes "sane_window w t" and "(t - w_Duration w) div w_Bucket w \<le> i" and "i \<le> t div w_Bucket w"
    and "t + w_Duration w + w_Bucket w \<le> MaxInt64"
  shows "int64 (i + 1)" and "int64 ((i + 1) * w_Bucket w)" and "int64 ((i + 1) * w_Bucket w + w_Duration w)"
    and "t < (i + 1) * w_Bucket w + w_Duration w"
proof -
  let ?u = "w_Bucket w" and ?D = "w_Duration w"
  define x where "x = (i + 1) * ?u"
  have u: "0 < ?u" "0 < ?D" "0 \<le> t" using assms(1) by (simp_all add: sane_window_def)
  have "(t - ?D) div ?u < i + 1" using assms(2) by simp
  then have lo: "t - ?D < x" unfolding x_def using div_less_int[OF u(1)] by blast
  have "i * ?u \<le> t div ?u * ?u" using assms(3) u(1) by simp
  also have "\<dots> \<le> t" using u(1) by (simp add: minus_mod_eq_div_mult[symmetric])
  finally have hi: "x \<le> t + ?u" by (simp add: x_def distrib_right)
  have x: "MinInt64 \<le> x" "x \<le> MaxInt64" "MinInt64 \<le> x + ?D" "x + ?D \<le> MaxInt64"
    using lo hi u assms(4) by (auto simp: MinInt64_def MaxInt64_def)
  then show "int64 ((i + 1) * ?u)" "int64 ((i + 1) * ?u + ?D)" "t < (i + 1) * ?u + ?D"
    using lo by (simp_all add: x_def int64_def)
  show "int64 (i + 1)"
  proof (cases "0 \<le> i + 1")
    case True
    then have "(i + 1) * 1 \<le> x" unfolding x_def using u(1) by (intro mult_left_mono) simp_all
    then show ?thesis using True x by (simp add: int64_defs)
  next
    case False
    then have "x \<le> (i + 1) * 1" unfolding x_def using u(1) by (intro mult_left_mono_neg) simp_all
    then show ?thesis using False x by (simp add: int64_defs)
  qed
qed

text \<open>What a later reservation sees when nothing is booked in between.\<close>

lemma CanReserve_later:
  assumes "sane_window w t" and "buckets_ok m" and "0 \<le> amount" and "amount \<le> RedisSafeLimit" and "int64 (w_Limit w)"
    and "bsum m ((t - w_Duration w) div w_Bucket w) (t div w_Bucket w) \<le> RedisSafeLimit"
    and "\<forall>i > t div w_Bucket w. mgetd 0 m i = 0" and "0 \<le> e" and "t + e \<le> MaxInt64"
  defines "s \<equiv> bsum m ((t + e - w_Duration w) div w_Bucket w) (t div w_Bucket w)"
  shows "CanReserve w m amount (t + e) = Some (Inr (fits w amount s, s))"
proof -
  have u: "0 < w_Bucket w" using assms(1) by (simp add: sane_window_def)
  have sane: "sane_window w (t + e)" using assms(1,8,9) by (simp add: sane_window_def)
  have "t div w_Bucket w \<le> (t + e) div w_Bucket w" using assms(8) u by (simp add: zdiv_mono1)
  from bsum_extend[OF assms(7) this]
  have ext: "bsum m ((t + e - w_Duration w) div w_Bucket w) ((t + e) div w_Bucket w) = s" by (simp add: s_def)
  have "(t - w_Duration w) div w_Bucket w \<le> (t + e - w_Duration w) div w_Bucket w"
    using assms(8) u by (intro zdiv_mono1) simp_all
  from bsum_mono[OF assms(2) this, of "t div w_Bucket w"] assms(6) have "s \<le> RedisSafeLimit" by (simp add: s_def)
  then show ?thesis using CanReserve_total[OF sane assms(2-5)] ext by simp
qed

text \<open>C28: the retry delay of a full window is exact: after the delay the amount can be reserved, and at no earlier time, as long
  as nothing is booked in the meantime. An amount within the limit always gets such a delay.\<close>

theorem retry_after_exact:
  assumes "sane_window w t" and "buckets_ok m" and "0 \<le> amount" and "amount \<le> w_Limit w" and "w_Limit w \<le> RedisSafeLimit"
    and "bsum m ((t - w_Duration w) div w_Bucket w) (t div w_Bucket w) \<le> RedisSafeLimit"
    and "\<forall>i > t div w_Bucket w. mgetd 0 m i = 0"
    and "t + w_Duration w + w_Bucket w \<le> MaxInt64"
    and "CanReserve w m amount t = Some (Inr (False, active))"
  shows "\<exists>d > 0. RetryAfter w m amount t = Some (Inr d)
     \<and> (\<exists>a. CanReserve w m amount (t + d) = Some (Inr (True, a)))
     \<and> (\<forall>d'. 0 \<le> d' \<and> d' < d \<longrightarrow> (\<exists>a. CanReserve w m amount (t + d') = Some (Inr (False, a))))"
proof -
  let ?u = "w_Bucket w" and ?D = "w_Duration w"
  let ?first = "(t - ?D) div ?u" and ?last = "t div ?u"
  have u: "0 < ?u" "0 \<le> t" using assms(1) by (simp_all add: sane_window_def)
  have lim: "int64 (w_Limit w)" "0 \<le> w_Limit w" "amount \<le> RedisSafeLimit"
    using assms(3,4,5) by (auto simp: int64_defs RedisSafeLimit_def)
  note can = CanReserve_total[OF assms(1,2,3) lim(3,1) assms(6)]
  have nf: "\<not> fits w amount (bsum m ?first ?last)" using can assms(9) by auto
  obtain i where i: "?first \<le> i" "i \<le> ?last" "\<not> fits w amount (bsum m i ?last)" "fits w amount (bsum m (i + 1) ?last)"
    "retry_loop w m amount t (bsum m ?first ?last) [?first..?last] =
      Inr (let candidate = time_Sub (wrap64 (wrap64 (wrap64 (i + 1) * ?u) + ?D)) t in if candidate < 0 then 0 else candidate)"
    using retry_loop_stops[OF assms(2,6) lim(1) nf assms(4,3) lim(2)] by blast
  let ?d = "(i + 1) * ?u + ?D - t"
  note rng = retry_index_range[OF assms(1) i(1,2) assms(8)]
  have top: "t + ?d \<le> MaxInt64" "0 < ?d" "?d \<le> MaxInt64" using rng(3,4) u(2) by (simp_all add: int64_def)
  have "time_Sub ((i + 1) * ?u + ?D) t = ?d" using top by (simp add: time_Sub_def MinInt64_def)
  then have d: "RetryAfter w m amount t = Some (Inr ?d)"
    using can nf i(5) top(2) rng(1-3) by (simp add: RetryAfter_def Window_Range_div[OF assms(1)] wrap64_id)
  note later = CanReserve_later[OF assms(1,2,3) lim(3,1) assms(6,7)]
  have "(t + ?d - ?D) div ?u = i + 1" using u(1) by simp
  then have "CanReserve w m amount (t + ?d) = Some (Inr (True, bsum m (i + 1) ?last))"
    using later[of ?d] top i(4) by simp
  moreover have "\<exists>a. CanReserve w m amount (t + e) = Some (Inr (False, a))" if e: "0 \<le> e" "e < ?d" for e
  proof -
    have "(t + e - ?D) div ?u < i + 1"
      using e(2) unfolding div_less_int[OF u(1)] by simp
    then have "bsum m i ?last \<le> bsum m ((t + e - ?D) div ?u) ?last" by (intro bsum_mono[OF assms(2)]) simp
    then have "\<not> fits w amount (bsum m ((t + e - ?D) div ?u) ?last)" using i(3) by (auto simp: fits_def)
    then show ?thesis using later[of e] e top by simp
  qed
  ultimately show ?thesis using d top(2) by (intro exI[of _ ?d]) auto
qed

definition demo_window :: window where
  "demo_window = \<lparr>w_ID = ''w'', w_Duration = 30, w_Bucket = 10, w_LimitUSD = USD (Some 8), w_Limit = 8\<rparr>"

definition demo_spend :: "(int, int) gomap" where
  "demo_spend = [(8, 3), (10, 4)]"

lemma demo_spend_get: "mgetd 0 demo_spend i = (if i = 8 then 3 else if i = 10 then 4 else 0)"
  by (auto simp: mgetd_def demo_spend_def)

theorem retry_after_exact_witness:
  "\<exists>d > 0. RetryAfter demo_window demo_spend 4 105 = Some (Inr d)
     \<and> (\<exists>a. CanReserve demo_window demo_spend 4 (105 + d) = Some (Inr (True, a)))"
proof -
  have c: "CanReserve demo_window demo_spend 4 105 = Some (Inr (False, 7))" by code_simp
  have s: "sane_window demo_window 105" by code_simp
  have b: "buckets_ok demo_spend" by (simp add: buckets_ok_def demo_spend_get)
  have t: "bsum demo_spend ((105 - w_Duration demo_window) div w_Bucket demo_window) (105 div w_Bucket demo_window) \<le> RedisSafeLimit"
    by code_simp
  have l: "\<forall>i > 105 div w_Bucket demo_window. mgetd 0 demo_spend i = 0" by (auto simp: demo_spend_get demo_window_def)
  have m: "(0::int) \<le> 4" "4 \<le> w_Limit demo_window" "w_Limit demo_window \<le> RedisSafeLimit"
    "105 + w_Duration demo_window + w_Bucket demo_window \<le> MaxInt64"
    by (simp_all add: demo_window_def RedisSafeLimit_def MaxInt64_def)
  show ?thesis using retry_after_exact[OF s b m(1,2,3) t l m(4) c] by blast
qed

section \<open>Exact limits\<close>

text \<open>The exact check admits an amount precisely when the window's recorded spend plus the amount is within the limit, with
  no rounding. When it admits, the reported spend is the exact sum of the window's buckets.\<close>

theorem can_reserve_usd_exact:
  assumes "sane_window w t" and "CanReserveUSD w m amount t = Some (Inr (ok, active))"
  shows "(ok \<longleftrightarrow> usdUnits active + usdUnits amount \<le> usdUnits (w_LimitUSD w))
    \<and> usdUnits active = (\<Sum>i\<leftarrow>[(t - w_Duration w) div w_Bucket w..t div w_Bucket w]. usdUnits (mgetd (USD None) m i))"
proof -
  let ?is = "[(t - w_Duration w) div w_Bucket w..t div w_Bucket w]"
  have zero: "of_sum (USD None) (ParseUSD ''0'') = USD None" by code_simp
  have lim: "USD_valid (w_LimitUSD w) = None" and amt: "USD_valid amount = None"
    using assms(2) by (auto simp: CanReserveUSD_def Window_ValidateUSD_def orElse_def split: option.splits if_splits)
  obtain a where a: "foldE USD_Add (USD None) (map (mgetd (USD None) m) ?is) = Inr a" "a = active"
    and ok: "ok = (case USD_Sub (w_LimitUSD w) a of Inl _ \<Rightarrow> False | Inr remaining \<Rightarrow> \<not> USD_Cmp amount remaining > 0)"
    using assms(2) foldE_map[of USD_Add "mgetd (USD None) m" "USD None" ?is]
    by (auto simp: CanReserveUSD_def ActiveSumUSD_def Window_Range_div[OF assms(1)] zero split: option.splits sum.splits)
  note total = exact.total_Inr[OF a(1)]
  have av: "USD_valid a = None" using total(3) by (simp add: USD_valid_None_iff maxUSDUnits_def)
  have "usdUnits active = (\<Sum>i\<leftarrow>?is. usdUnits (mgetd (USD None) m i))" using total(1) a(2) by (simp add: comp_def)
  moreover have "ok \<longleftrightarrow> usdUnits active + usdUnits amount \<le> usdUnits (w_LimitUSD w)"
  proof (cases "usdUnits a \<le> usdUnits (w_LimitUSD w)")
    case True
    then obtain r where "USD_Sub (w_LimitUSD w) a = Inr r" "usdUnits r = usdUnits (w_LimitUSD w) - usdUnits a"
      using exact.sub_ok[OF lim av] by blast
    then show ?thesis using ok a(2) by (auto simp: USD_Cmp_iffs)
  next
    case False
    then have "\<exists>e. USD_Sub (w_LimitUSD w) a = Inl e" by (intro exact.sub_err) simp
    moreover have "0 \<le> usdUnits amount" using amt by (simp add: USD_valid_None_iff)
    ultimately show ?thesis using ok a(2) False by auto
  qed
  ultimately show ?thesis by blast
qed

theorem can_reserve_usd_exact_witness:
  "\<exists>active. CanReserveUSD demo_window [(8, USD (Some 3)), (10, USD (Some 4))] (USD (Some 1)) 105 = Some (Inr (True, active))
     \<and> usdUnits active + 1 \<le> 8"
proof -
  have s: "sane_window demo_window 105" by code_simp
  have c: "CanReserveUSD demo_window [(8, USD (Some 3)), (10, USD (Some 4))] (USD (Some 1)) 105 = Some (Inr (True, USD (Some 7)))"
    by code_simp
  show ?thesis using can_reserve_usd_exact[OF s c] c by (simp add: demo_window_def)
qed

section \<open>Policies\<close>

text \<open>A policy that passes validation never applies to every request: some request context is outside its matcher, so a policy
  meant for one tenant cannot silently cap all of them.\<close>

theorem validated_policy_excludes:
  assumes "Policy_Validate p maxBuckets = None"
  shows "\<exists>ctx. MatchPolicies [p] ctx = [] \<and> \<not> Matches (po_Match p) ctx"
proof -
  let ?m = "po_Match p"
  let ?ctx = "\<lparr>mc_Tenant = [], mc_Project = [], mc_Actor = [], mc_Environment = [], mc_LogicalModel = [], mc_EndpointID = [],
     mc_ServiceClass = []\<rparr>"
  have "HasRestriction ?m" using assms by (auto simp: Policy_Validate_def Matcher_Validate_def orElse_def split: if_splits)
  then have "\<not> Matches ?m ?ctx"
    by (auto simp: HasRestriction_def matchExactRestriction_def Matches_def matchExact_def has_prefix_def)
  then show ?thesis by (intro exI[of _ ?ctx]) (simp add: MatchPolicies_def)
qed

definition demo_policy :: policy where
  "demo_policy = \<lparr>po_ID = ''p'', po_Match = \<lparr>m_Tenant = ''acme'', m_Project = ''*'', m_ActorPrefix = [], m_Environment = [],
     m_LogicalModel = [], m_EndpointID = [], m_ServiceClass = []\<rparr>, po_Windows = [demo_window]\<rparr>"

theorem validated_policy_excludes_witness: "\<exists>ctx. \<not> Matches (po_Match demo_policy) ctx"
proof -
  have "Policy_Validate demo_policy 100 = None" by code_simp
  from validated_policy_excludes[OF this] show ?thesis by blast
qed

section \<open>Accounting events\<close>

text \<open>What an event does to the reserved and accounted columns of a window.\<close>

definition reserved_delta :: "completion_event \<Rightarrow> int" where
  "reserved_delta e = - usdUnits (ce_ReservedDecreaseUSD e)"

definition accounted_delta :: "completion_event \<Rightarrow> int" where
  "accounted_delta e = usdUnits (ce_AccountedIncreaseUSD e) - usdUnits (ce_AccountedDecreaseUSD e)"

lemma CompletionEvent_Validate_None:
  assumes "CompletionEvent_Validate e = None"
  shows "USD_valid (ce_ReservedDecreaseUSD e) = None" "USD_valid (ce_AccountedIncreaseUSD e) = None"
    "USD_valid (ce_AccountedDecreaseUSD e) = None" "validateKindDeltas e = None"
  using assms by (auto simp: CompletionEvent_Validate_def split: if_splits option.splits)

text \<open>A completion event that validates conserves money by its kind: an exact finalization accounts precisely the actual cost,
  an unknown one moves the whole reservation into the account, an ambiguous one moves nothing, a release frees the reservation at
  no cost, and no valid completion event has the kind of a reservation.\<close>

theorem completion_event_conserves:
  assumes "CompletionEvent_Validate e = None"
  shows "case ce_Kind e of
      JournalFinalizeExact \<Rightarrow> reserved_delta e < 0 \<and> (\<exists>c. ce_ActualCostUSD e = Some c \<and> accounted_delta e = usdUnits c)
    | JournalFinalizeUnknown \<Rightarrow> reserved_delta e < 0 \<and> accounted_delta e + reserved_delta e = 0 \<and> ce_ActualCostUSD e = None
    | JournalRetainAmbiguous \<Rightarrow> reserved_delta e = 0 \<and> accounted_delta e = 0
    | JournalResolveUnknownExact \<Rightarrow>
        (\<exists>c. ce_ActualCostUSD e = Some c \<and> (reserved_delta e < 0 \<and> accounted_delta e = usdUnits c
           \<or> reserved_delta e = 0 \<and> accounted_delta e < usdUnits c))
    | JournalRelease \<Rightarrow> reserved_delta e < 0 \<and> accounted_delta e = 0
    | _ \<Rightarrow> False"
proof -
  note c = CompletionEvent_Validate_None[OF assms]
  have "0 \<le> usdUnits (ce_ReservedDecreaseUSD e)" "0 \<le> usdUnits (ce_AccountedIncreaseUSD e)" "0 \<le> usdUnits (ce_AccountedDecreaseUSD e)"
    using c(1-3) by (simp_all add: USD_valid_None_iff)
  then show ?thesis using c(4)
    by (auto simp: validateKindDeltas_def reserved_delta_def accounted_delta_def USD_IsZero_iff USD_Cmp_iffs
        split: journal_event_kind.splits option.splits if_splits)
qed

definition demo_completion :: completion_event where
  "demo_completion = \<lparr>ce_EventID = ''e'', ce_GenerationID = ''g'', ce_OperationID = ''o'', ce_WindowID = ''w'', ce_BucketStart = 10,
     ce_ReservationRevision = 1, ce_Kind = JournalFinalizeUnknown, ce_ReservedDecreaseUSD = USD (Some 5),
     ce_AccountedIncreaseUSD = USD (Some 5), ce_AccountedDecreaseUSD = USD None, ce_ActualCostUSD = None, ce_CostStatus = CostUnknown,
     ce_UnknownReasonCode = ''no_usage'', ce_OccurredAt = 20\<rparr>"

theorem completion_event_conserves_witness:
  "accounted_delta demo_completion + reserved_delta demo_completion = 0 \<and> reserved_delta demo_completion < 0"
proof -
  have v: "CompletionEvent_Validate demo_completion = None" by code_simp
  show ?thesis using completion_event_conserves[OF v] by (simp add: demo_completion_def reserved_delta_def accounted_delta_def)
qed

end
