(* ===== verification/Estimate.thy ===== *)
theory Estimate
  imports Budget Complex_Main
begin

text \<open>
  Package \<^verbatim>\<open>budget\<close>, \<^verbatim>\<open>estimate.go\<close> and \<^verbatim>\<open>context.go\<close>: the reservation estimate of a request on a
  candidate, its media allowance, and the context check. A \<^verbatim>\<open>*big.Rat\<close> is a \<open>rat option\<close> with
  \<^verbatim>\<open>Num\<close> and \<^verbatim>\<open>Denom\<close> by \<open>quotient_of\<close>. The provider tokenizer is a function the estimator
  carries. Lengths of byte slices are those of values in memory. Part pointers are not nil:
  the estimator receives requests decoded or normalized into values.
\<close>

record estimator =
  es_SafetyRatio :: "rat option"
  es_MaxOutput :: int
  es_MaxReasoning :: int
  es_Tokenizer :: "(request \<Rightarrow> candidate \<Rightarrow> string + int) option"

record estimate =
  et_CandidateID :: string
  et_InputTokens :: int
  et_OutputTokens :: int
  et_ReasoningTokens :: int
  et_CacheWriteTokens :: int
  et_MicroUSD :: int
  et_CostUSD :: usd
  et_CatalogVersion :: string

definition zero_estimate :: estimate where
  "zero_estimate = \<lparr>et_CandidateID = [], et_InputTokens = 0, et_OutputTokens = 0, et_ReasoningTokens = 0, et_CacheWriteTokens = 0,
     et_MicroUSD = 0, et_CostUSD = USD None, et_CatalogVersion = []\<rparr>"

datatype estimate_error =
    UnusableEntry pricing_error | NormalizeError string | TokenizerFailed string | TokenizerNegative | CanonicalFailed | RequestTooLarge
  | OutputLimitInvalid | ContextNegative | ContextLimit | UnusableContext | AllowanceOverflow
  | UnusableUnknown price_component | ComponentUSD price_component money_error | TotalFailed money_error
  | UnusableMicro price_component money_error | UnusableMicroTotal price_component money_error
  | ToolAllowance money_error | RatioNotPositive | RatioMissing | RatioUSD money_error | MultiplierOverflow | EstimateUnsafe
  | UnusableMultiplier estimate_error | EmptyPlan | PriceMissing string

text \<open>\<^verbatim>\<open>errors.Is(err, ErrUnusablePrice)\<close>: the caller may go on to the next candidate.\<close>

fun ErrUnusablePrice :: "estimate_error \<Rightarrow> bool" where
  "ErrUnusablePrice (UnusableEntry _) = True"
| "ErrUnusablePrice UnusableContext = True"
| "ErrUnusablePrice (UnusableUnknown _) = True"
| "ErrUnusablePrice (UnusableMicro _ _) = True"
| "ErrUnusablePrice (UnusableMicroTotal _ _) = True"
| "ErrUnusablePrice (UnusableMultiplier _) = True"
| "ErrUnusablePrice _ = False"

section \<open>Saturating arithmetic\<close>

definition saturatingAdd :: "int \<Rightarrow> int \<Rightarrow> int" where
  "saturatingAdd left right =
     (if right > 0 \<and> left > wrap64 (MaxInt64 - right) then MaxInt64 else wrap64 (left + right))"

definition saturatingMul :: "int \<Rightarrow> int \<Rightarrow> int \<Rightarrow> int" where
  "saturatingMul left right limit =
     (if left \<le> 0 \<or> right \<le> 0 then 0
      else if left > limit sdiv right then limit
      else let product = wrap64 (left * right) in if product < limit then product else limit)"

definition multiplyCeil :: "int \<Rightarrow> rat option \<Rightarrow> estimate_error + int" where
  "multiplyCeil v ratio =
     (case ratio of
        None \<Rightarrow> Inl RatioMissing
      | Some r \<Rightarrow>
          if v < 0 then Inl RatioMissing
          else let quotient = ceilQuo (v * fst (quotient_of r)) (snd (quotient_of r))
               in if \<not> int64 quotient then Inl MultiplierOverflow
                  else if \<not> MicroUSD_Valid quotient then Inl EstimateUnsafe
                  else Inr quotient)"

definition multiplyUSD :: "usd \<Rightarrow> rat option \<Rightarrow> estimate_error + usd" where
  "multiplyUSD v ratio =
     (case ratio of
        None \<Rightarrow> Inl RatioMissing
      | Some r \<Rightarrow> (case USD_MulRatio v (Some (fst (quotient_of r))) (Some (snd (quotient_of r))) of
                     Inl e \<Rightarrow> Inl (RatioUSD e) | Inr u \<Rightarrow> Inr u))"

section \<open>Output limit and context\<close>

definition MaxInt32 :: int where "MaxInt32 = 2 ^ 31 - 1"

definition outputLimit :: "estimator \<Rightarrow> request \<Rightarrow> estimate_error + int" where
  "outputLimit es q =
     (let limit = (if es_MaxOutput es \<le> 0 then 1000 else es_MaxOutput es);
          limit = (case rq_Output q of
                     None \<Rightarrow> limit
                   | Some out \<Rightarrow> (case os_MaxTokens out of None \<Rightarrow> limit | Some n \<Rightarrow> n))
      in if limit \<le> 0 \<or> limit > MaxInt32 then Inl OutputLimitInvalid else Inr limit)"

definition PrepareRequest :: "codec \<Rightarrow> estimator \<Rightarrow> request \<Rightarrow> estimate_error + request" where
  "PrepareRequest cd es q =
     (case NormalizeRequest cd q of
        Inl e \<Rightarrow> Inl (NormalizeError e)
      | Inr normalized \<Rightarrow>
          case outputLimit es normalized of
            Inl e \<Rightarrow> Inl e
          | Inr limit \<Rightarrow>
              let out = (case rq_Output normalized of
                           None \<Rightarrow> text_output None
                         | Some o' \<Rightarrow> o')
              in Inr (normalized\<lparr>rq_Output := Some (out\<lparr>os_MaxTokens := Some limit\<rparr>)\<rparr>))"

fun fit_counts :: "int \<Rightarrow> int list \<Rightarrow> estimate_error option" where
  "fit_counts remaining [] = None"
| "fit_counts remaining (n # ns) = (if n > remaining then Some ContextLimit else fit_counts (wrap64 (remaining - n)) ns)"

definition validateContextCounts :: "int \<Rightarrow> int \<Rightarrow> int \<Rightarrow> estimate_error option" where
  "validateContextCounts limit input output =
     (if limit < 0 \<or> input < 0 \<or> output < 0 then Some ContextNegative
      else if limit = 0 then None
      else fit_counts limit [input, output])"

section \<open>PDF page bound\<close>

definition pdfSpace :: "char \<Rightarrow> bool" where
  "pdfSpace c \<longleftrightarrow> c \<in> set [CHR 0x00, CHR 0x09, CHR 0x0A, CHR 0x0C, CHR 0x0D, CHR '' '']"

definition pdfDelimiterOrSpace :: "char \<Rightarrow> bool" where
  "pdfDelimiterOrSpace c \<longleftrightarrow> pdfSpace c \<or> c \<in> set ''()<>[]{}/%''"

text \<open>The rest of the data from the position the scan stops at.\<close>

function skipPDFSpaceAndComments :: "string \<Rightarrow> string" where
  "skipPDFSpaceAndComments [] = []"
| "skipPDFSpaceAndComments (c # cs) =
     (if pdfSpace c then skipPDFSpaceAndComments cs
      else if c = CHR ''%'' then skipPDFSpaceAndComments (dropWhile (\<lambda>d. d \<noteq> CHR 0x0A \<and> d \<noteq> CHR 0x0D) (c # cs))
      else c # cs)"
  by pat_completeness auto
termination
  by (relation "measure length") (auto simp: less_Suc_eq_le length_dropWhile_le)

text \<open>\<^verbatim>\<open>bytes.Index\<close>: what follows the first occurrence of a needle.\<close>

fun after_first :: "string \<Rightarrow> string \<Rightarrow> string option" where
  "after_first p [] = (if p = [] then Some [] else None)"
| "after_first p (c # cs) = (if has_prefix p (c # cs) then Some (drop (length p) (c # cs)) else after_first p cs)"

lemma after_first_shorter: "after_first p s = Some r \<Longrightarrow> p \<noteq> [] \<Longrightarrow> length r < length s"
  by (induction p s rule: after_first.induct) (auto split: if_splits)

text \<open>Whether the \<^verbatim>\<open>/Type\<close> key just read has the value \<^verbatim>\<open>/Page\<close>.\<close>

definition type_is_page :: "string \<Rightarrow> bool" where
  "type_is_page r \<longleftrightarrow>
     (if r \<noteq> [] \<and> \<not> pdfDelimiterOrSpace (hd r) then False
      else let v = skipPDFSpaceAndComments r
           in if v = [] \<or> hd v \<noteq> CHR ''/'' then False
              else takeWhile (\<lambda>c. \<not> pdfDelimiterOrSpace c) (tl v) = ''Page'')"

function pdf_pages :: "string \<Rightarrow> int" where
  "pdf_pages s = (case after_first ''/Type'' s of
                    None \<Rightarrow> 0
                  | Some r \<Rightarrow> (if type_is_page r then 1 else 0) + pdf_pages r)"
  by pat_completeness auto
termination
  by (relation "measure length") (auto dest: after_first_shorter)

declare pdf_pages.simps [simp del]

fun pdfHasEscapedName :: "string \<Rightarrow> bool" where
  "pdfHasEscapedName [] = False"
| "pdfHasEscapedName (c # cs) =
     (c = CHR ''/'' \<and> CHR ''#'' \<in> set (takeWhile (\<lambda>d. \<not> pdfDelimiterOrSpace d) cs) \<or> pdfHasEscapedName cs)"

text \<open>
  \<^verbatim>\<open>strings.ToLower\<close> and \<^verbatim>\<open>strings.EqualFold\<close> against ASCII patterns without \<^verbatim>\<open>k\<close> and \<^verbatim>\<open>s\<close>: no
  other code point folds to one of their letters.
\<close>

definition lower_char :: "char \<Rightarrow> char" where
  "lower_char c = (if 65 \<le> (of_char c :: nat) \<and> (of_char c :: nat) \<le> 90 then char_of ((of_char c :: nat) + 32) else c)"

definition media_type :: "media_source \<Rightarrow> string" where
  "media_type p = TrimSpace (fst (splitn2 CHR '';'' (ms_MediaType p)))"

definition inlinePDFPageBound :: "media_source \<Rightarrow> int option" where
  "inlinePDFPageBound p =
     (case ms_Bytes p of
        None \<Rightarrow> None
      | Some bytes \<Rightarrow>
          if ms_URL p \<noteq> [] \<or> ms_Blob p \<noteq> None then None
          else if map lower_char (media_type p) \<noteq> ''application/pdf'' then None
          else if \<not> has_prefix ''%PDF-'' bytes \<or> after_first ''/ObjStm'' bytes \<noteq> None \<or> pdfHasEscapedName bytes then None
          else let pages = pdf_pages bytes in if pages = 0 then None else Some pages)"

section \<open>Media allowance\<close>

definition MediaImageInputTokenFloor :: int where "MediaImageInputTokenFloor = 6000"
definition MediaDocumentPageAssumption :: int where "MediaDocumentPageAssumption = 600"
definition MediaDocumentTextTokensPerPage :: int where "MediaDocumentTextTokensPerPage = 3000"
definition MediaDocumentTokensPerPage :: int where
  "MediaDocumentTokensPerPage = MediaDocumentTextTokensPerPage + MediaImageInputTokenFloor"
definition MediaDocumentInputTokenFloor :: int where
  "MediaDocumentInputTokenFloor = MediaDocumentPageAssumption * MediaDocumentTokensPerPage"

definition inlineTextDocument :: "media_source \<Rightarrow> bool" where
  "inlineTextDocument p \<longleftrightarrow>
     (if ms_Bytes p = None \<or> ms_URL p \<noteq> [] \<or> ms_Blob p \<noteq> None then False
      else has_prefix ''text/'' (map lower_char (media_type p)))"

definition textBaselineTokens :: "int \<Rightarrow> int" where
  "textBaselineTokens n = wrap64 (n sdiv 4 + wrap64 (n smod 4 + 3) sdiv 4)"

definition media_len :: "media_source \<Rightarrow> int" where
  "media_len p = (case ms_Bytes p of None \<Rightarrow> 0 | Some bytes \<Rightarrow> int (length bytes))"

definition documentInputAllowance :: "media_source \<Rightarrow> int" where
  "documentInputAllowance p =
     (case inlinePDFPageBound p of
        Some pages \<Rightarrow> saturatingMul pages MediaDocumentTokensPerPage MediaDocumentInputTokenFloor
      | None \<Rightarrow>
          if \<not> inlineTextDocument p then MediaDocumentInputTokenFloor
          else wrap64 (media_len p - textBaselineTokens (media_len p)))"

fun part_allowance :: "int \<Rightarrow> part \<Rightarrow> int" where
  "part_allowance acc (ImagePart p) = saturatingAdd acc MediaImageInputTokenFloor"
| "part_allowance acc (DocumentPart p) = saturatingAdd acc (documentInputAllowance p)"
| "part_allowance acc _ = acc"

fun item_parts :: "item \<Rightarrow> part list" where
  "item_parts (Message actor ps) = ps"
| "item_parts (ToolResult callID name ps isError) = ps"
| "item_parts _ = []"

definition mediaInputAllowance :: "request \<Rightarrow> int" where
  "mediaInputAllowance q =
     (let acc = foldl (\<lambda>acc i. foldl part_allowance acc (ins_Content i)) 0 (rq_Instructions q)
      in foldl (\<lambda>acc i. foldl part_allowance acc (item_parts i)) acc (rq_Input q))"

definition mediaBytesPlaceholder :: string where "mediaBytesPlaceholder = [CHR 0x00]"

text \<open>A left-to-right map that threads a counter, as the closures of the code do.\<close>

fun thread :: "('s \<Rightarrow> 'a \<Rightarrow> 'b \<times> 's) \<Rightarrow> 's \<Rightarrow> 'a list \<Rightarrow> 'b list \<times> 's" where
  "thread f s [] = ([], s)"
| "thread f s (x # xs) = (case f s x of (y, s') \<Rightarrow> case thread f s' xs of (ys, s'') \<Rightarrow> (y # ys, s''))"

fun strip_part :: "int \<Rightarrow> part \<Rightarrow> part \<times> int" where
  "strip_part textBytes (ImagePart p) =
     (if media_len p > 0 then (ImagePart (p\<lparr>ms_Bytes := Some mediaBytesPlaceholder\<rparr>), textBytes) else (ImagePart p, textBytes))"
| "strip_part textBytes (DocumentPart p) =
     (if media_len p > 0
      then (DocumentPart (p\<lparr>ms_Bytes := Some mediaBytesPlaceholder\<rparr>),
            if inlineTextDocument p then saturatingAdd textBytes (media_len p) else textBytes)
      else (DocumentPart p, textBytes))"
| "strip_part textBytes p = (p, textBytes)"

fun strip_instruction :: "int \<Rightarrow> instruction \<Rightarrow> instruction \<times> int" where
  "strip_instruction textBytes i = (case thread strip_part textBytes (ins_Content i) of (ps, n) \<Rightarrow> (i\<lparr>ins_Content := ps\<rparr>, n))"

fun strip_item :: "int \<Rightarrow> item \<Rightarrow> item \<times> int" where
  "strip_item textBytes (Message actor ps) = (case thread strip_part textBytes ps of (ps', n) \<Rightarrow> (Message actor ps', n))"
| "strip_item textBytes (ToolResult callID name ps isError) =
     (case thread strip_part textBytes ps of (ps', n) \<Rightarrow> (ToolResult callID name ps' isError, n))"
| "strip_item textBytes i = (i, textBytes)"

definition withoutInlineMediaBytes :: "request \<Rightarrow> request \<times> int" where
  "withoutInlineMediaBytes q =
     (case thread strip_instruction 0 (rq_Instructions q) of
        (instructions, n) \<Rightarrow> (case thread strip_item n (rq_Input q) of
           (input, textBytes) \<Rightarrow> (q\<lparr>rq_Instructions := instructions, rq_Input := input\<rparr>, textBytes)))"

fun media_room :: "int \<Rightarrow> int list \<Rightarrow> int option" where
  "media_room room [] = Some room"
| "media_room room (used # us) = (if used \<ge> room then None else media_room (wrap64 (room - used)) us)"

definition addMediaAllowance :: "int \<Rightarrow> int \<Rightarrow> int \<Rightarrow> int \<Rightarrow> int" where
  "addMediaAllowance input allowance contextTokens output =
     (if allowance \<le> 0 then input
      else if contextTokens > 0
      then (case media_room contextTokens [input, output] of
              None \<Rightarrow> input
            | Some room \<Rightarrow> saturatingAdd input (if allowance > room then room else allowance))
      else saturatingAdd input allowance)"

section \<open>Input estimate\<close>

definition estimateInput :: "codec \<Rightarrow> estimator \<Rightarrow> request \<Rightarrow> candidate \<Rightarrow> estimate_error + int" where
  "estimateInput cd es q c =
     (case es_Tokenizer es of
        Some tokenizer \<Rightarrow>
          (case tokenizer q c of
             Inl e \<Rightarrow> Inl (TokenizerFailed e)
           | Inr inputTokens \<Rightarrow> if inputTokens < 0 then Inl TokenizerNegative else Inr inputTokens)
      | None \<Rightarrow>
          (case withoutInlineMediaBytes q of (textRequest, inlineTextBytes) \<Rightarrow>
             case CanonicalJSONWithLimits cd (16 * 2 ^ 20) 128 textRequest of
               None \<Rightarrow> Inl CanonicalFailed
             | Some json \<Rightarrow>
                 let input = saturatingAdd (wrap64 (int (length json) + int (AdapterTextOverheadBytes cd q (c_Family c)) + 3) sdiv 4)
                               (textBaselineTokens inlineTextBytes);
                     input = (if input < 1 then 1 else input)
                 in if int (length json) > MaxInt64 then Inl RequestTooLarge else Inr input))"

definition CountInputTokens :: "codec \<Rightarrow> estimator \<Rightarrow> request \<Rightarrow> candidate \<Rightarrow> estimate_error + int" where
  "CountInputTokens cd es q c = estimateInput cd es q c"

definition ValidateContext :: "codec \<Rightarrow> estimator \<Rightarrow> request \<Rightarrow> candidate \<Rightarrow> estimate_error option" where
  "ValidateContext cd es q c =
     (if c_ContextTokens c = 0 then None
      else case NormalizeRequest cd q of
        Inl e \<Rightarrow> Some (NormalizeError e)
      | Inr n \<Rightarrow>
          let resolved = n\<lparr>rq_Model := c_Model c, rq_ServiceClass := c_AttemptedClass c, rq_ServiceClassFallbacks := []\<rparr>
          in case CountInputTokens cd es resolved c of
               Inl e \<Rightarrow> Some e
             | Inr input \<Rightarrow>
                 case outputLimit es resolved of
                   Inl e \<Rightarrow> Some e
                 | Inr output \<Rightarrow> validateContextCounts (c_ContextTokens c) input output)"

text \<open>The loop over the possible tool continuations.\<close>

definition research_step :: "int \<Rightarrow> int \<Rightarrow> int \<Rightarrow> int \<Rightarrow> int \<Rightarrow> int \<Rightarrow> int" where
  "research_step resultTokens context input output acc step =
     (let continuation = saturatingAdd input (saturatingAdd (wrap64 (step * resultTokens)) output);
          continuation = min continuation (wrap64 (context - output))
      in saturatingAdd acc continuation)"

definition hostedResearchInput :: "request \<Rightarrow> candidate \<Rightarrow> int \<Rightarrow> int \<Rightarrow> int" where
  "hostedResearchInput q c input output =
     (let calls = (if rq_WebSearch q then MaxWebSearchCalls else 0);
          resultTokens = (if rq_WebSearch q then 8192 else 0);
          calls = (if rq_WebFetch q then calls + MaxWebSearchCalls else calls);
          resultTokens = (if rq_WebFetch q then 10000 else resultTokens);
          calls = (if c_Family c \<noteq> ''anthropic_messages'' then min calls MaxWebSearchCalls else calls)
      in foldl (research_step resultTokens (c_ContextTokens c) input output) input [1..calls])"

section \<open>Candidate and plan estimates\<close>

record token_bounds =
  tb_Input :: int
  tb_Output :: int
  tb_Reasoning :: int
  tb_Prompt :: int

definition reasoning_bound :: "estimator \<Rightarrow> request \<Rightarrow> int" where
  "reasoning_bound es q =
     (let n = (case rq_Reasoning q of None \<Rightarrow> 0 | Some rs \<Rightarrow> (case rs_TokenBudget rs of None \<Rightarrow> 0 | Some b \<Rightarrow> b))
      in if es_MaxReasoning es > n then es_MaxReasoning es else n)"

definition hosted_bounds :: "request \<Rightarrow> candidate \<Rightarrow> int \<Rightarrow> int \<Rightarrow> estimate_error + int \<times> int" where
  "hosted_bounds q c input output =
     (if rq_WebSearch q \<or> rq_WebFetch q \<or> rq_CodeExecution q
      then if c_ContextTokens c \<le> 0 then Inl UnusableContext
           else if rq_CodeExecution q
           then let rounds = (if c_Family c = ''anthropic_messages'' then 20 else 4)
                in if c_ContextTokens c > MaxInt64 sdiv rounds \<or> output > MaxInt64 sdiv rounds then Inl AllowanceOverflow
                   else Inr (wrap64 (c_ContextTokens c * rounds), wrap64 (output * rounds))
           else Inr (hostedResearchInput q c input output, output)
      else Inr (input, output))"

text \<open>The token counts of a reservation, in the order the code computes and checks them.\<close>

definition candidate_tokens :: "codec \<Rightarrow> estimator \<Rightarrow> request \<Rightarrow> candidate \<Rightarrow> estimate_error + token_bounds" where
  "candidate_tokens cd es q c =
     (case estimateInput cd es q c of
        Inl e \<Rightarrow> Inl e
      | Inr inputTokens \<Rightarrow>
          case outputLimit es q of
            Inl e \<Rightarrow> Inl e
          | Inr outputTokens \<Rightarrow>
              let allowance = mediaInputAllowance q;
                  promptBound = (if es_Tokenizer es = None then saturatingAdd inputTokens allowance else inputTokens);
                  input = (if es_Tokenizer es = None then addMediaAllowance inputTokens allowance (c_ContextTokens c) outputTokens
                           else inputTokens)
              in case validateContextCounts (c_ContextTokens c) input outputTokens of
                   Some e \<Rightarrow> Inl e
                 | None \<Rightarrow>
                     case hosted_bounds q c input outputTokens of
                       Inl e \<Rightarrow> Inl e
                     | Inr (i, n) \<Rightarrow> Inr \<lparr>tb_Input = i, tb_Output = n, tb_Reasoning = reasoning_bound es q, tb_Prompt = max promptBound i\<rparr>)"

definition estimate_components :: "unit_prices \<Rightarrow> token_bounds \<Rightarrow> priced list" where
  "estimate_components prices b =
     [(PriceComponentInput, InputPerMillion prices, tb_Input b, 1000000),
      (PriceComponentOutput, OutputPerMillion prices, tb_Output b, 1000000),
      (PriceComponentReasoning, ReasoningPerMillion prices, tb_Reasoning b, 1000000),
      (PriceComponentCacheWrite, CacheWritePerMillion prices, tb_Input b, 1000000),
      (PriceComponentPerRequest, PerRequest prices, 1, 1)]"

definition estimate_component :: "entry \<Rightarrow> usd \<times> int \<Rightarrow> priced \<Rightarrow> estimate_error + (usd \<times> int)" where
  "estimate_component e acc x =
     (case acc of (totalUSD, legacyTotal) \<Rightarrow> case x of (name, price, units, upp) \<Rightarrow>
      if units > 0 \<and> ComponentUnknown e name then Inl (UnusableUnknown name)
      else case CeilUSD price units upp of
        Inl err \<Rightarrow> Inl (ComponentUSD name err)
      | Inr amount \<Rightarrow> (case USD_Add totalUSD amount of
        Inl err \<Rightarrow> Inl (TotalFailed err)
      | Inr totalUSD' \<Rightarrow> (case CeilMicroUSD price units upp of
        Inl err \<Rightarrow> Inl (UnusableMicro name err)
      | Inr legacy \<Rightarrow> (case MicroUSD_Add legacyTotal legacy of
        Inl err \<Rightarrow> Inl (UnusableMicroTotal name err)
      | Inr legacyTotal' \<Rightarrow> Inr (totalUSD', legacyTotal')))))"

definition add_tools :: "request \<Rightarrow> candidate \<Rightarrow> usd \<times> int \<Rightarrow> estimate_error + (usd \<times> int)" where
  "add_tools q c acc =
     (let toolAllowance = HostedToolReservation q (c_Family c)
      in case USD_Add (fst acc) toolAllowance of
           Inl e \<Rightarrow> Inl (TotalFailed e)
         | Inr totalUSD \<Rightarrow> (case CeilMicroFromUSD toolAllowance of
             Inl e \<Rightarrow> Inl (ToolAllowance e)
           | Inr allowanceMicro \<Rightarrow> (case MicroUSD_Add (snd acc) allowanceMicro of
               Inl e \<Rightarrow> Inl (ToolAllowance e)
             | Inr legacyTotal \<Rightarrow> Inr (totalUSD, legacyTotal))))"

definition apply_ratio :: "estimator \<Rightarrow> usd \<times> int \<Rightarrow> estimate_error + (usd \<times> int)" where
  "apply_ratio es acc =
     (case es_SafetyRatio es of
        None \<Rightarrow> Inr acc
      | Some r \<Rightarrow>
          if r \<le> 0 then Inl RatioNotPositive
          else case multiplyUSD (fst acc) (Some r) of
                 Inl e \<Rightarrow> Inl e
               | Inr totalUSD \<Rightarrow> (case multiplyCeil (snd acc) (Some r) of
                   Inl e \<Rightarrow> Inl (UnusableMultiplier e)
                 | Inr legacyTotal \<Rightarrow> Inr (totalUSD, legacyTotal)))"

definition EstimateCandidate :: "codec \<Rightarrow> estimator \<Rightarrow> request \<Rightarrow> candidate \<Rightarrow> entry \<Rightarrow> estimate_error + estimate" where
  "EstimateCandidate cd es q c e =
     (case ValidateUsagePricing e of
        Some err \<Rightarrow> Inl (UnusableEntry err)
      | None \<Rightarrow>
          bindE (candidate_tokens cd es q c) (\<lambda>b.
          bindE (foldE (estimate_component e) (of_sum (USD None) (ParseUSD ''0''), 0) (estimate_components (PricesFor e (tb_Prompt b)) b)) (\<lambda>totals.
          bindE (add_tools q c totals) (\<lambda>totals.
          bindE (apply_ratio es totals) (\<lambda>totals.
            Inr \<lparr>et_CandidateID = c_ID c, et_InputTokens = tb_Input b, et_OutputTokens = tb_Output b,
                 et_ReasoningTokens = tb_Reasoning b, et_CacheWriteTokens = tb_Input b, et_MicroUSD = snd totals,
                 et_CostUSD = fst totals, et_CatalogVersion = e_Version e\<rparr>)))))"

definition plan_step :: "codec \<Rightarrow> estimator \<Rightarrow> request \<Rightarrow> (string, entry) gomap \<Rightarrow> nat \<times> estimate \<Rightarrow> candidate
    \<Rightarrow> estimate_error + nat \<times> estimate" where
  "plan_step cd es q entries acc c =
     (case mget entries (c_ID c) of
        None \<Rightarrow> Inl (PriceMissing (c_ID c))
      | Some e \<Rightarrow>
          case EstimateCandidate cd es q c e of
            Inl err \<Rightarrow> Inl err
          | Inr est \<Rightarrow> Inr (Suc (fst acc), if fst acc = 0 \<or> USD_Cmp (et_CostUSD est) (et_CostUSD (snd acc)) > 0 then est else snd acc))"

definition EstimatePlan :: "codec \<Rightarrow> estimator \<Rightarrow> request \<Rightarrow> plan \<Rightarrow> (string, entry) gomap \<Rightarrow> estimate_error + estimate" where
  "EstimatePlan cd es q p entries =
     (if pl_Candidates p = [] then Inl EmptyPlan
      else case foldE (plan_step cd es q entries) (0, zero_estimate) (pl_Candidates p) of
             Inl e \<Rightarrow> Inl e
           | Inr acc \<Rightarrow> Inr (snd acc))"

end
