(* ===== verification/Estimate_Facts.thy ===== *)
theory Estimate_Facts
  imports Estimate Pricing_Facts Planner_Facts
begin

text \<open>
  What the estimator promises: saturating arithmetic that never wraps, a media allowance that
  never decides the context check, an exact count of the pages an inline PDF shows, and
  reservations that cover the cost they stand for.
\<close>

section \<open>Saturating arithmetic\<close>

lemma saturatingAdd_min:
  assumes "0 \<le> a" "a \<le> MaxInt64" "0 \<le> b" "b \<le> MaxInt64"
  shows "saturatingAdd a b = min MaxInt64 (a + b)"
proof -
  have "wrap64 (MaxInt64 - b) = MaxInt64 - b" using assms by (intro wrap64_id) (simp add: int64_defs)
  moreover have "wrap64 (a + b) = a + b" if "a + b \<le> MaxInt64" using assms that by (intro wrap64_id) (simp add: int64_defs)
  ultimately show ?thesis using assms by (auto simp: saturatingAdd_def)
qed

lemma saturatingMul_min:
  assumes "0 \<le> a" "0 \<le> b" "0 \<le> limit" "limit \<le> MaxInt64"
  shows "saturatingMul a b limit = min limit (a * b)"
proof (cases "a = 0 \<or> b = 0")
  case True
  then show ?thesis using assms by (auto simp: saturatingMul_def)
next
  case False
  then have b: "0 < b" "0 < a" using assms by auto
  have q: "limit sdiv b = limit div b" using assms b by (simp add: sdiv_nonneg)
  have iff: "a > limit div b \<longleftrightarrow> limit < a * b" using div_less_int[OF b(1)] by blast
  have "wrap64 x = x" if "0 \<le> x" "\<not> limit < x" for x using assms that by (intro wrap64_id) (simp add: int64_defs)
  from this[of "a * b"] have "wrap64 (a * b) = a * b" if "\<not> limit < a * b" using assms that by simp
  then show ?thesis using b iff by (auto simp: saturatingMul_def q Let_def)
qed

text \<open>The saturating operations are the true sum and product cut off at their limits: for non-negative operands no result
  wraps, whatever the operands.\<close>

theorem saturating_arithmetic:
  assumes "0 \<le> a" "a \<le> MaxInt64" "0 \<le> b" "b \<le> MaxInt64" "0 \<le> limit" "limit \<le> MaxInt64"
  shows "saturatingAdd a b = min MaxInt64 (a + b) \<and> saturatingMul a b limit = min limit (a * b)"
  using saturatingAdd_min[OF assms(1-4)] saturatingMul_min[OF assms(1,3,5,6)] by blast

theorem saturating_arithmetic_witness:
  "saturatingAdd MaxInt64 7 = MaxInt64 \<and> saturatingMul MaxInt64 7 5400000 = 5400000"
  using saturating_arithmetic[of MaxInt64 7 5400000] by (simp add: MaxInt64_def)

section \<open>The media allowance\<close>

text \<open>The allowance is cut to the room the text and the output leave.\<close>

lemma addMediaAllowance_alt:
  assumes "0 \<le> input" "0 \<le> output" "0 < limit" "limit \<le> MaxInt64"
  shows "addMediaAllowance input a limit output =
    (if a \<le> 0 \<or> limit \<le> input + output then input else min (limit - output) (input + a))"
proof -
  have w: "wrap64 (limit - input) = limit - input" if "input < limit" using assms that by (intro wrap64_id) (simp add: int64_defs)
  have w': "wrap64 (limit - input - output) = limit - input - output" if "input + output < limit"
    using assms that by (intro wrap64_id) (simp add: int64_defs)
  have room: "media_room limit [input, output] = (if limit \<le> input + output then None else Some (limit - input - output))"
    using assms w w' by auto
  have sat: "saturatingAdd input x = input + x" if "0 \<le> x" "input + x \<le> limit" for x
    using that assms by (subst saturatingAdd_min) auto
  show ?thesis
  proof (cases "0 < a \<and> input + output < limit")
    case True
    then show ?thesis using assms sat[of "limit - input - output"] sat[of a]
      by (auto simp: addMediaAllowance_def room min_def simp del: media_room.simps)
  next
    case False
    then show ?thesis using assms by (auto simp: addMediaAllowance_def room simp del: media_room.simps)
  qed
qed

lemma validateContextCounts_alt:
  assumes "0 \<le> input" "0 \<le> output" "0 < limit" "limit \<le> MaxInt64"
  shows "validateContextCounts limit input output = (if limit < input + output then Some ContextLimit else None)"
proof -
  have w: "wrap64 (limit - input) = limit - input" if "\<not> input > limit" using assms that by (intro wrap64_id) (simp add: int64_defs)
  show ?thesis using assms w by (cases "input > limit") (auto simp: validateContextCounts_def)
qed

text \<open>The media allowance never decides the context check: with or without it a candidate passes or is excluded alike, whatever
  the number and size of the media parts, so checking the context before pricing and checking it during pricing agree.\<close>

theorem media_allowance_keeps_context:
  assumes "0 \<le> input" "input \<le> MaxInt64" "0 \<le> output" "limit \<le> MaxInt64" "allowance \<le> MaxInt64"
  shows "validateContextCounts limit (addMediaAllowance input allowance limit output) output = validateContextCounts limit input output
     \<and> input \<le> addMediaAllowance input allowance limit output"
proof (cases "0 < limit")
  case True
  have le: "input \<le> addMediaAllowance input allowance limit output" and nn: "0 \<le> addMediaAllowance input allowance limit output"
    using assms by (simp_all add: addMediaAllowance_alt[OF assms(1,3) True assms(4)])
  then show ?thesis using assms validateContextCounts_alt[OF _ assms(3) True assms(4)] addMediaAllowance_alt[OF assms(1,3) True assms(4), of allowance]
    by (auto simp: min_def)
next
  case False
  have "addMediaAllowance input allowance limit output = (if allowance \<le> 0 then input else min MaxInt64 (input + allowance))"
    using False assms by (simp add: addMediaAllowance_def saturatingAdd_min)
  then show ?thesis using False assms by (auto simp: validateContextCounts_def)
qed

theorem media_allowance_keeps_context_witness:
  "validateContextCounts 1000 (addMediaAllowance 200 5400000 1000 300) 300 = None \<and> addMediaAllowance 200 5400000 1000 300 = 700"
proof -
  have "validateContextCounts 1000 200 300 = None" "addMediaAllowance 200 5400000 1000 300 = 700" by code_simp+
  then show ?thesis using media_allowance_keeps_context[of 200 300 1000 5400000] by (simp add: MaxInt64_def)
qed

text \<open>One continuation of the research loop, and the loop.\<close>

definition research_tokens :: "int \<Rightarrow> bool" where
  "research_tokens r \<longleftrightarrow> r = 0 \<or> r = 8192 \<or> r = 10000"

lemma research_step_bounds:
  assumes "0 \<le> input" "0 \<le> output" "context \<le> MaxInt64" "input + output \<le> context"
    and "0 \<le> acc" "acc \<le> MaxInt64" "research_tokens r" "1 \<le> k" "k \<le> 6"
  shows "acc \<le> research_step r context input output acc k" "research_step r context input output acc k \<le> MaxInt64"
    "research_step r context input output acc k \<le> acc + (context - output)"
proof -
  have kr: "0 \<le> k * r" using assms by (auto simp: research_tokens_def)
  have "k * r \<le> 6 * 10000" using assms by (intro mult_mono) (auto simp: research_tokens_def)
  then have kr': "k * r \<le> 60000" by simp
  have w: "wrap64 (k * r) = k * r" "wrap64 (context - output) = context - output"
    using kr kr' assms by (auto intro!: wrap64_id simp: int64_defs)
  have "saturatingAdd (k * r) output = min MaxInt64 (k * r + output)" using kr kr' assms by (intro saturatingAdd_min) (auto simp: MaxInt64_def)
  moreover have "0 \<le> min MaxInt64 (k * r + output)" "min MaxInt64 (k * r + output) \<le> MaxInt64" using kr assms by (auto simp: MaxInt64_def)
  ultimately have "0 \<le> saturatingAdd input (saturatingAdd (k * r) output)"
    using assms saturatingAdd_min[of input "min MaxInt64 (k * r + output)"] by (auto simp: MaxInt64_def)
  then show "acc \<le> research_step r context input output acc k" "research_step r context input output acc k \<le> MaxInt64"
    "research_step r context input output acc k \<le> acc + (context - output)"
    using assms by (simp_all add: research_step_def w Let_def saturatingAdd_min)
qed

lemma research_loop_bounds:
  assumes "0 \<le> input" "0 \<le> output" "context \<le> MaxInt64" "input + output \<le> context"
    and "0 \<le> acc" "acc \<le> MaxInt64" "research_tokens r" "\<forall>k \<in> set ks. 1 \<le> k \<and> k \<le> 6"
  defines "n \<equiv> foldl (research_step r context input output) acc ks"
  shows "acc \<le> n \<and> n \<le> MaxInt64 \<and> n \<le> acc + int (length ks) * (context - output)"
  unfolding n_def using assms(5,6,8)
proof (induction ks arbitrary: acc)
  case Nil
  then show ?case by simp
next
  case (Cons k ks)
  let ?n = "research_step r context input output acc k"
  have "1 \<le> k" "k \<le> 6" using Cons.prems(3) by simp_all
  note n = research_step_bounds[OF assms(1-4) Cons.prems(1,2) assms(7) this]
  show ?case using Cons.IH[of ?n] n Cons.prems by (simp add: distrib_right)
qed

text \<open>The research allowance starts from the input, never falls below it, and each of its at most six continuations adds no
  more than the room the output leaves in the context; it saturates instead of wrapping.\<close>

theorem hosted_research_bounds:
  assumes "0 \<le> input" "0 \<le> output" "c_ContextTokens c \<le> MaxInt64" "input + output \<le> c_ContextTokens c"
  shows "input \<le> hostedResearchInput q c input output \<and> hostedResearchInput q c input output \<le> MaxInt64
     \<and> hostedResearchInput q c input output \<le> input + 6 * (c_ContextTokens c - output)"
proof -
  obtain r n where rn: "hostedResearchInput q c input output = foldl (research_step r (c_ContextTokens c) input output) input [1..n]"
    "research_tokens r" "0 \<le> n" "n \<le> 6"
    by (auto simp: hostedResearchInput_def Let_def MaxWebSearchCalls_def research_tokens_def split: if_splits)
  have "n * (c_ContextTokens c - output) \<le> 6 * (c_ContextTokens c - output)" using rn(4) assms by (intro mult_right_mono) auto
  then show ?thesis using research_loop_bounds[OF assms assms(1) _ rn(2), of "[1..n]"] rn assms by auto
qed

definition demo_candidate :: candidate where
  "demo_candidate = hd (pl_Candidates (demo_plan None))"

theorem hosted_research_bounds_witness:
  "hostedResearchInput (demo_request\<lparr>rq_WebSearch := True\<rparr>) (demo_candidate\<lparr>c_ContextTokens := 100000\<rparr>) 500 1000 \<le> 500 + 6 * 99000
   \<and> hostedResearchInput (demo_request\<lparr>rq_WebSearch := True\<rparr>) (demo_candidate\<lparr>c_ContextTokens := 100000\<rparr>) 500 1000 = 54152"
proof -
  have "hostedResearchInput (demo_request\<lparr>rq_WebSearch := True\<rparr>) (demo_candidate\<lparr>c_ContextTokens := 100000\<rparr>) 500 1000 = 54152" by code_simp
  then show ?thesis
    using hosted_research_bounds[of 500 1000 "demo_candidate\<lparr>c_ContextTokens := 100000\<rparr>" "demo_request\<lparr>rq_WebSearch := True\<rparr>"]
    by (simp add: MaxInt64_def)
qed

section \<open>Prepared requests\<close>

lemma outputLimit_Inr: "outputLimit es q = Inr n \<Longrightarrow> 1 \<le> n \<and> n \<le> MaxInt32"
  by (auto simp: outputLimit_def Let_def split: option.splits if_splits)

text \<open>A prepared request carries the output limit its reservation is priced at: the limit lies between 1 and the largest 32-bit
  integer, every estimator reads the same limit back from it whatever its own default, and nothing else of the normalized request
  changes.\<close>

theorem prepare_request_limit:
  assumes "PrepareRequest cd es q = Inr p"
  shows "\<exists>n normalized out. NormalizeRequest cd q = Inr normalized \<and> p = normalized\<lparr>rq_Output := Some out\<rparr>
     \<and> os_MaxTokens out = Some n \<and> 1 \<le> n \<and> n \<le> MaxInt32 \<and> outputLimit es normalized = Inr n
     \<and> (\<forall>es'. outputLimit es' p = Inr n)"
proof -
  obtain normalized n where n: "NormalizeRequest cd q = Inr normalized" "outputLimit es normalized = Inr n"
    using assms by (auto simp: PrepareRequest_def split: sum.splits)
  let ?out = "(case rq_Output normalized of None \<Rightarrow> text_output None | Some o' \<Rightarrow> o')
      \<lparr>os_MaxTokens := Some n\<rparr>"
  have p: "p = normalized\<lparr>rq_Output := Some ?out\<rparr>" using assms n by (simp add: PrepareRequest_def)
  note r = outputLimit_Inr[OF n(2)]
  have "outputLimit es' p = Inr n" for es' using r by (simp add: outputLimit_def p Let_def)
  then show ?thesis using n p r by (intro exI[of _ n] exI[of _ normalized] exI[of _ ?out]) simp
qed

definition demo_estimator :: estimator where
  "demo_estimator = \<lparr>es_SafetyRatio = Some (3 / 2), es_MaxOutput = 2000, es_MaxReasoning = 0, es_Tokenizer = None\<rparr>"

theorem prepare_request_limit_witness:
  "\<exists>p. PrepareRequest demo_codec demo_estimator demo_request = Inr p \<and> (\<forall>es'. outputLimit es' p = Inr 2000)"
proof -
  have n: "NormalizeRequest demo_codec demo_request = Inr demo_request" "outputLimit demo_estimator demo_request = Inr 2000"
    by (simp add: demo_codec_def) code_simp
  then obtain p where p: "PrepareRequest demo_codec demo_estimator demo_request = Inr p" by (simp add: PrepareRequest_def)
  show ?thesis using prepare_request_limit[OF p] p n by auto
qed

section \<open>Pages of an inline PDF\<close>

text \<open>
  The reference: the positions of the data at which a \<^verbatim>\<open>/Type\<close> key with the value \<^verbatim>\<open>/Page\<close> starts.
  The scan of the code jumps behind each key it finds; it misses none, because two keys cannot
  overlap.
\<close>

definition page_at :: "string \<Rightarrow> bool" where
  "page_at s \<longleftrightarrow> has_prefix ''/Type'' s \<and> type_is_page (drop 5 s)"

fun page_count :: "string \<Rightarrow> int" where
  "page_count [] = 0"
| "page_count (c # cs) = (if page_at (c # cs) then 1 else 0) + page_count cs"

lemma page_count_append_free:
  assumes "CHR ''/'' \<notin> set xs"
  shows "page_count (xs @ ys) = page_count ys"
  using assms by (induction xs) (auto simp: page_at_def has_prefix_def)

lemma has_prefix_decomp: "has_prefix p s \<Longrightarrow> s = p @ drop (length p) s"
  by (metis append_take_drop_id has_prefix_def)

lemma page_count_step:
  "page_count s = (case after_first ''/Type'' s of None \<Rightarrow> 0 | Some r \<Rightarrow> (if type_is_page r then 1 else 0) + page_count r)"
proof (induction s)
  case Nil
  then show ?case by simp
next
  case (Cons c cs)
  show ?case
  proof (cases "has_prefix ''/Type'' (c # cs)")
    case True
    have d: "c # cs = CHR ''/'' # ''Type'' @ drop 5 (c # cs)" using has_prefix_decomp[OF True] by (simp add: numeral_eq_Suc)
    then have cs: "cs = ''Type'' @ drop 5 (c # cs)" by simp
    have "page_count cs = page_count (drop 5 (c # cs))" by (subst cs) (rule page_count_append_free, simp)
    then show ?thesis using True by (simp add: page_at_def numeral_eq_Suc)
  next
    case False
    then show ?thesis using Cons.IH by (simp add: page_at_def)
  qed
qed

lemma pdf_pages_count: "pdf_pages s = page_count s"
proof (induction s rule: pdf_pages.induct)
  case (1 s)
  show ?case
  proof (cases "after_first ''/Type'' s")
    case None
    then show ?thesis by (subst pdf_pages.simps, subst page_count_step) simp
  next
    case (Some r)
    then show ?thesis using 1 by (subst pdf_pages.simps, subst page_count_step) simp
  qed
qed

lemma page_count_positions: "page_count s = int (card {i. i < length s \<and> page_at (drop i s)})"
proof (induction s)
  case Nil
  then show ?case by simp
next
  case (Cons c cs)
  let ?A = "{i. i < length cs \<and> page_at (drop i cs)}"
  have "{i. i < length (c # cs) \<and> page_at (drop i (c # cs))} = (if page_at (c # cs) then {0} else {}) \<union> Suc ` ?A"
    by (auto simp: image_iff less_Suc_eq_0_disj split: if_splits)
  moreover have "card (Suc ` ?A) = card ?A" by (simp add: card_image)
  ultimately show ?case using Cons.IH by (auto simp: card_insert_if)
qed

text \<open>The page bound of an inline PDF is exact on what the file shows: it is the number of positions at which a \<^verbatim>\<open>/Type\<close> key
  with value \<^verbatim>\<open>/Page\<close> starts, it is positive, and it is given only for a file without object streams and without an escaped name.\<close>

theorem pdf_page_bound_exact:
  assumes "inlinePDFPageBound p = Some n"
  shows "\<exists>bytes. ms_Bytes p = Some bytes \<and> n = int (card {i. i < length bytes \<and> page_at (drop i bytes)}) \<and> 0 < n
     \<and> after_first ''/ObjStm'' bytes = None \<and> \<not> pdfHasEscapedName bytes"
proof -
  obtain bytes where b: "ms_Bytes p = Some bytes" "n = pdf_pages bytes" "n \<noteq> 0" "after_first ''/ObjStm'' bytes = None" "\<not> pdfHasEscapedName bytes"
    using assms by (auto simp: inlinePDFPageBound_def Let_def split: option.splits if_splits)
  have n: "n = int (card {i. i < length bytes \<and> page_at (drop i bytes)})" using b(2) by (simp only: pdf_pages_count page_count_positions)
  then have "0 < n" using b(3) by linarith
  then show ?thesis using b n by blast
qed

definition demo_pdf :: media_source where
  "demo_pdf = \<lparr>ms_URL = [], ms_Bytes = Some ''%PDF-1 <</Type /Page>> <</Type /Pages>> <</Type/Page/X 1>>'', ms_Blob = None,
     ms_MediaType = ''Application/PDF; q=1'', ms_Label = []\<rparr>"

theorem pdf_page_bound_exact_witness:
  "inlinePDFPageBound demo_pdf = Some 2
   \<and> 2 = int (card {i. i < length (the (ms_Bytes demo_pdf)) \<and> page_at (drop i (the (ms_Bytes demo_pdf)))})"
proof -
  have b: "inlinePDFPageBound demo_pdf = Some 2" by code_simp
  from pdf_page_bound_exact[OF b] b show ?thesis by auto
qed

section \<open>The estimate of a candidate\<close>

interpretation estimate_charge: charge_loop "estimate_component e" for e
  by unfold_locales (auto simp: estimate_component_def split: if_splits sum.splits)

lemma ceilQuo_ceiling:
  assumes "0 \<le> n" "0 < d"
  shows "ceilQuo n d = \<lceil>of_int n / of_int d :: rat\<rceil>"
proof (rule ceiling_unique[symmetric])
  note b = ceilQuo_bracket[OF assms]
  have d: "(0::rat) < of_int d" using assms by simp
  have "of_int ((ceilQuo n d - 1) * d) < (of_int n :: rat)" using b(1) by (simp only: of_int_less_iff)
  then show "of_int (ceilQuo n d) - 1 < (of_int n / of_int d :: rat)" using d by (simp add: pos_less_divide_eq)
  have "(of_int n :: rat) \<le> of_int (ceilQuo n d * d)" using b(2) by (simp only: of_int_le_iff)
  then show "of_int n / of_int d \<le> (of_int (ceilQuo n d) :: rat)" using d by (simp add: pos_divide_le_eq)
qed

lemma ceilQuo_rat:
  assumes "0 \<le> n" "0 < r"
  shows "ceilQuo (n * fst (quotient_of r)) (snd (quotient_of r)) = \<lceil>of_int n * r\<rceil>"
proof -
  obtain a b where ab: "quotient_of r = (a, b)" by (cases "quotient_of r")
  have b: "0 < b" using quotient_of_denom_pos[OF ab] .
  have r: "r = of_int a / of_int b" using quotient_of_div[OF ab] .
  then have a: "0 < a" using assms(2) b by (simp add: zero_less_divide_iff)
  have "ceilQuo (n * a) b = \<lceil>of_int (n * a) / of_int b :: rat\<rceil>" using assms(1) a b by (intro ceilQuo_ceiling) auto
  then show ?thesis using ab r by simp
qed

text \<open>What the safety ratio makes of an amount.\<close>

definition with_ratio :: "estimator \<Rightarrow> int \<Rightarrow> int" where
  "with_ratio es n = (case es_SafetyRatio es of None \<Rightarrow> n | Some r \<Rightarrow> \<lceil>of_int n * r\<rceil>)"

definition covered :: "usd \<times> int \<Rightarrow> bool" where
  "covered acc \<longleftrightarrow> USD_valid (fst acc) = None \<and> MicroUSD_Valid (snd acc) \<and> usdUnits (fst acc) \<le> snd acc * 10 ^ 12"

lemma add_tools_covered:
  assumes "add_tools q c acc = Inr acc'" and "covered acc"
  shows "covered acc' \<and> usdUnits (fst acc') = usdUnits (fst acc) + usdUnits (HostedToolReservation q (c_Family c))"
proof -
  let ?t = "HostedToolReservation q (c_Family c)"
  obtain u k l where s: "USD_Add (fst acc) ?t = Inr u" "CeilMicroFromUSD ?t = Inr k" "MicroUSD_Add (snd acc) k = Inr l" "acc' = (u, l)"
    using assms(1) by (auto simp: add_tools_def Let_def split: sum.splits)
  note a = exact.add_Inr[OF s(1)] and m = micro.add_Inr[OF s(3)]
  have "usdUnits ?t \<le> k * 10 ^ 12"
    using s(2) a(2) ceilQuo_bracket(2)[of "usdUnits ?t" "10 ^ 12"] by (auto simp: CeilMicroFromUSD_Inr USD_valid_None_iff)
  then show ?thesis using assms(2) a m s(4) by (simp add: covered_def distrib_right)
qed

lemma apply_ratio_covered:
  assumes "apply_ratio es acc = Inr acc'" and "covered acc"
  shows "covered acc' \<and> usdUnits (fst acc') = with_ratio es (usdUnits (fst acc))"
proof (cases "es_SafetyRatio es")
  case None
  then show ?thesis using assms by (simp add: apply_ratio_def with_ratio_def)
next
  case (Some r)
  let ?u = "usdUnits (fst acc)" and ?m = "snd acc"
  have r: "0 < r" using assms(1) Some by (auto simp: apply_ratio_def split: if_splits)
  have nn: "0 \<le> ?u" "0 \<le> ?m" "?u \<le> ?m * 10 ^ 12" using assms(2) by (simp_all add: covered_def USD_valid_None_iff MicroUSD_Valid_def)
  obtain u where u: "multiplyUSD (fst acc) (Some r) = Inr u" "fst acc' = u"
    using assms(1) Some r by (auto simp: apply_ratio_def split: sum.splits)
  obtain l where l: "multiplyCeil ?m (Some r) = Inr l" "snd acc' = l"
    using assms(1) Some r by (auto simp: apply_ratio_def split: sum.splits)
  have uu: "usdUnits u = \<lceil>of_int ?u * r\<rceil>" "USD_valid u = None"
    using u(1) ceilQuo_rat[OF nn(1) r] by (auto simp: multiplyUSD_def USD_MulRatio_def Let_def split: sum.splits if_splits option.splits)
  have ll: "l = \<lceil>of_int ?m * r\<rceil>" "MicroUSD_Valid l"
    using l(1) ceilQuo_rat[OF nn(2) r] by (auto simp: multiplyCeil_def Let_def split: if_splits)
  have "of_int ?u \<le> (of_int (?m * 10 ^ 12) :: rat)" using nn(3) by (simp only: of_int_le_iff)
  then have "of_int ?u * r \<le> of_int (?m * 10 ^ 12) * r" using r by (intro mult_right_mono) simp_all
  also have "\<dots> = (of_int ?m * r) * 10 ^ 12" by simp
  also have "\<dots> \<le> of_int \<lceil>of_int ?m * r\<rceil> * 10 ^ 12" by (intro mult_right_mono le_of_int_ceiling) simp
  also have "\<dots> = of_int (l * 10 ^ 12)" using ll(1) by simp
  finally have "usdUnits u \<le> l * 10 ^ 12" unfolding uu(1) by (rule ceiling_le)
  then show ?thesis using uu ll u(2) l(2) Some by (simp add: covered_def with_ratio_def)
qed

lemma EstimateCandidate_Inr:
  assumes "EstimateCandidate cd es q c e = Inr est"
  shows "\<exists>b acc acc' acc''. candidate_tokens cd es q c = Inr b
     \<and> foldE (estimate_component e) (USD None, 0) (estimate_components (PricesFor e (tb_Prompt b)) b) = Inr acc
     \<and> add_tools q c acc = Inr acc' \<and> apply_ratio es acc' = Inr acc''
     \<and> est = \<lparr>et_CandidateID = c_ID c, et_InputTokens = tb_Input b, et_OutputTokens = tb_Output b,
                 et_ReasoningTokens = tb_Reasoning b, et_CacheWriteTokens = tb_Input b, et_MicroUSD = snd acc'',
                 et_CostUSD = fst acc'', et_CatalogVersion = e_Version e\<rparr>"
proof -
  have "of_sum (USD None) (ParseUSD ''0'') = USD None" by code_simp
  then show ?thesis using assms by (auto simp: EstimateCandidate_def bindE_eq_Inr_iff split: option.splits)
qed

lemma estimate_exact:
  assumes "EstimateCandidate cd es q c e = Inr est" and "candidate_tokens cd es q c = Inr b"
  shows "usdUnits (et_CostUSD est) = with_ratio es ((\<Sum>x\<leftarrow>estimate_components (PricesFor e (tb_Prompt b)) b. exact_charge x)
           + usdUnits (HostedToolReservation q (c_Family c)))"
    and "usdUnits (et_CostUSD est) \<le> et_MicroUSD est * 10 ^ 12"
proof -
  obtain acc acc' acc'' where s:
    "foldE (estimate_component e) (USD None, 0) (estimate_components (PricesFor e (tb_Prompt b)) b) = Inr acc"
    "add_tools q c acc = Inr acc'" "apply_ratio es acc' = Inr acc''" "et_CostUSD est = fst acc''" "et_MicroUSD est = snd acc''"
    using EstimateCandidate_Inr[OF assms(1)] assms(2) by auto
  obtain t l where tl: "acc = (t, l)" by (cases acc)
  note f = s(1)[unfolded tl]
  have "covered acc" using estimate_charge.loop_covers[OF f] tl
    by (simp add: covered_def USD_valid_def MicroUSD_Valid_def RedisSafeLimit_def)
  note a = add_tools_covered[OF s(2) this]
  note r = apply_ratio_covered[OF s(3)]
  show "usdUnits (et_CostUSD est) = with_ratio es ((\<Sum>x\<leftarrow>estimate_components (PricesFor e (tb_Prompt b)) b. exact_charge x)
           + usdUnits (HostedToolReservation q (c_Family c)))"
    "usdUnits (et_CostUSD est) \<le> et_MicroUSD est * 10 ^ 12"
    using s(4,5) a r estimate_charge.loop_effect(1)[OF f] tl by (auto simp: covered_def)
qed

text \<open>The estimate of a candidate is exact: the sum of its five priced components at the tier its prompt bound selects and the
  hosted tool allowance, times the safety ratio, rounded up to $10^{-18}$ dollars; and the microUSD reservation never falls below it.\<close>

theorem estimate_candidate_exact:
  assumes "EstimateCandidate cd es q c e = Inr est"
  shows "\<exists>b. candidate_tokens cd es q c = Inr b
     \<and> usdUnits (et_CostUSD est) = with_ratio es ((\<Sum>x\<leftarrow>estimate_components (PricesFor e (tb_Prompt b)) b. exact_charge x)
           + usdUnits (HostedToolReservation q (c_Family c)))
     \<and> usdUnits (et_CostUSD est) \<le> et_MicroUSD est * 10 ^ 12"
  using EstimateCandidate_Inr[OF assms] estimate_exact[OF assms] by blast

definition demo_entry :: entry where
  "demo_entry = sample_entry"

definition demo_estimate :: estimate where
  "demo_estimate = of_sum zero_estimate (EstimateCandidate demo_codec demo_estimator demo_request demo_candidate demo_entry)"

lemma demo_estimate: "EstimateCandidate demo_codec demo_estimator demo_request demo_candidate demo_entry = Inr demo_estimate"
proof -
  have "\<not> isl (EstimateCandidate demo_codec demo_estimator demo_request demo_candidate demo_entry)" by code_simp
  then show ?thesis unfolding demo_estimate_def of_sum_def by (auto split: sum.splits)
qed

theorem estimate_candidate_exact_witness:
  "\<exists>b. candidate_tokens demo_codec demo_estimator demo_request demo_candidate = Inr b
     \<and> usdUnits (et_CostUSD demo_estimate) \<le> et_MicroUSD demo_estimate * 10 ^ 12"
  using estimate_candidate_exact[OF demo_estimate] by blast

section \<open>The estimate of a plan\<close>

definition estimates_to :: "codec \<Rightarrow> estimator \<Rightarrow> request \<Rightarrow> (string, entry) gomap \<Rightarrow> candidate \<Rightarrow> estimate \<Rightarrow> bool" where
  "estimates_to cd es q entries c est \<longleftrightarrow> (\<exists>e. mget entries (c_ID c) = Some e \<and> EstimateCandidate cd es q c e = Inr est)"

lemma plan_step_Inr:
  assumes "plan_step cd es q entries (k, m) c = Inr (k', m')"
  shows "\<exists>est. estimates_to cd es q entries c est \<and> k' = Suc k
     \<and> m' = (if k = 0 \<or> usdUnits (et_CostUSD est) > usdUnits (et_CostUSD m) then est else m)"
  using assms by (auto simp: plan_step_def estimates_to_def USD_Cmp_iffs split: option.splits sum.splits)

lemma plan_loop_max:
  assumes "foldE (plan_step cd es q entries) (k, m) cs = Inr (k', m')" and "0 < k"
  shows "(\<forall>c \<in> set cs. \<exists>est. estimates_to cd es q entries c est \<and> usdUnits (et_CostUSD est) \<le> usdUnits (et_CostUSD m'))
     \<and> usdUnits (et_CostUSD m) \<le> usdUnits (et_CostUSD m') \<and> (m' = m \<or> (\<exists>c \<in> set cs. estimates_to cd es q entries c m'))"
  using assms
proof (induction cs arbitrary: k m)
  case Nil
  then show ?case by simp
next
  case (Cons c cs)
  obtain k1 m1 where s: "plan_step cd es q entries (k, m) c = Inr (k1, m1)" "foldE (plan_step cd es q entries) (k1, m1) cs = Inr (k', m')"
    using Cons.prems(1) by (auto split: sum.splits)
  obtain est where e: "estimates_to cd es q entries c est" "k1 = Suc k"
    "m1 = (if usdUnits (et_CostUSD est) > usdUnits (et_CostUSD m) then est else m)"
    using plan_step_Inr[OF s(1)] Cons.prems(2) by auto
  have m1: "usdUnits (et_CostUSD est) \<le> usdUnits (et_CostUSD m1)" "usdUnits (et_CostUSD m) \<le> usdUnits (et_CostUSD m1)"
    using e(3) by auto
  have k1: "0 < k1" using e(2) by simp
  note ih = Cons.IH[OF s(2) k1]
  have "\<exists>x. estimates_to cd es q entries c x \<and> usdUnits (et_CostUSD x) \<le> usdUnits (et_CostUSD m')" using e(1) m1(1) ih by (meson order_trans)
  moreover have "m1 = m \<or> estimates_to cd es q entries c m1" using e by auto
  ultimately show ?case using ih m1(2) by auto
qed

text \<open>The estimate of a plan is the dearest of its candidates' estimates, so whichever candidate serves the request, the exact
  amount reserved covers that candidate's estimate; and it is the estimate of one of the candidates.\<close>

theorem plan_estimate_is_maximum:
  assumes "EstimatePlan cd es q p entries = Inr m"
  shows "(\<exists>c \<in> set (pl_Candidates p). estimates_to cd es q entries c m)
    \<and> (\<forall>c \<in> set (pl_Candidates p). \<exists>est. estimates_to cd es q entries c est \<and> usdUnits (et_CostUSD est) \<le> usdUnits (et_CostUSD m))"
proof -
  obtain c cs where cs: "pl_Candidates p = c # cs" using assms by (cases "pl_Candidates p") (auto simp: EstimatePlan_def)
  obtain k where "foldE (plan_step cd es q entries) (0, zero_estimate) (c # cs) = Inr (k, m)"
    using assms cs by (auto simp: EstimatePlan_def split: sum.splits)
  then obtain k1 m1 where s: "plan_step cd es q entries (0, zero_estimate) c = Inr (k1, m1)"
    "foldE (plan_step cd es q entries) (k1, m1) cs = Inr (k, m)" by (auto split: sum.splits)
  have e: "estimates_to cd es q entries c m1" "0 < k1" using plan_step_Inr[OF s(1)] by auto
  note l = plan_loop_max[OF s(2) e(2)]
  show ?thesis unfolding cs using e(1) l by auto
qed

definition demo_entries :: "(string, entry) gomap" where
  "demo_entries = map (\<lambda>c. (c_ID c, demo_entry)) (pl_Candidates (demo_plan None))"

theorem plan_estimate_is_maximum_witness:
  "\<exists>m. EstimatePlan demo_codec demo_estimator demo_request (demo_plan None) demo_entries = Inr m
     \<and> (\<exists>c \<in> set (pl_Candidates (demo_plan None)). estimates_to demo_codec demo_estimator demo_request demo_entries c m)"
proof -
  have "\<not> isl (EstimatePlan demo_codec demo_estimator demo_request (demo_plan None) demo_entries)" by code_simp
  then obtain m where m: "EstimatePlan demo_codec demo_estimator demo_request (demo_plan None) demo_entries = Inr m"
    by (cases "EstimatePlan demo_codec demo_estimator demo_request (demo_plan None) demo_entries") auto
  from plan_estimate_is_maximum[OF m] m show ?thesis by blast
qed

section \<open>Settlement stays within the reservation\<close>

definition whole_units :: "decimal_usd \<Rightarrow> bool" where
  "whole_units p \<longleftrightarrow> 0 \<le> scale p \<and> scale p \<le> 12"

lemma exact_charge_whole:
  assumes "whole_units p" "0 \<le> numerator p" "0 \<le> n"
  shows "exact_charge (c, p, n, 1000000) = numerator p * 10 ^ nat (12 - scale p) * n"
proof -
  have k: "18 = nat (12 - scale p) + (nat (scale p) + 6)" using assms(1) by (simp add: whole_units_def flip: nat_add_distrib)
  have "(10::int) ^ 18 = 10 ^ nat (12 - scale p) * (10 ^ nat (scale p) * 10 ^ 6)" by (subst k) (simp only: power_add)
  then have eq: "numerator p * n * 10 ^ 18 = (numerator p * 10 ^ nat (12 - scale p) * n) * (10 ^ nat (scale p) * 1000000)" by simp
  show ?thesis unfolding exact_charge_def prod.case eq by (rule ceilQuo_exact) (simp_all add: assms)
qed

lemma exact_charge_nonneg: "0 \<le> numerator p \<Longrightarrow> 0 \<le> n \<Longrightarrow> 0 < upp \<Longrightarrow> 0 \<le> exact_charge (c, p, n, upp)"
  by (simp add: exact_charge_def ceilQuo_bracket(3))

lemma exact_charge_mono:
  assumes "0 \<le> numerator p" "0 \<le> n" "n \<le> m" "0 < upp"
  shows "exact_charge (c, p, n, upp) \<le> exact_charge (c', p, m, upp)"
  using assms by (auto simp: exact_charge_def intro!: ceilQuo_mono mult_right_mono mult_left_mono)

text \<open>A price no higher than another, both in whole $10^{-18}$ dollars per token.\<close>

definition no_dearer :: "decimal_usd \<Rightarrow> decimal_usd \<Rightarrow> bool" where
  "no_dearer p q \<longleftrightarrow> whole_units p \<and> whole_units q \<and> numerator p * 10 ^ nat (12 - scale p) \<le> numerator q * 10 ^ nat (12 - scale q)"

lemma exact_charge_split:
  assumes "no_dearer p q" "0 \<le> numerator p" "0 \<le> numerator q" "0 \<le> n" "0 \<le> m" "n + m \<le> k"
  shows "exact_charge (a, q, n, 1000000) + exact_charge (b, p, m, 1000000) \<le> exact_charge (c, q, k, 1000000)"
proof -
  let ?q = "numerator q * 10 ^ nat (12 - scale q)" and ?p = "numerator p * 10 ^ nat (12 - scale p)"
  have "?q * n + ?p * m \<le> ?q * n + ?q * m" using assms by (auto simp: no_dearer_def intro!: mult_right_mono)
  also have "\<dots> = ?q * (n + m)" by (simp add: distrib_left)
  also have "\<dots> \<le> ?q * k" using assms by (intro mult_left_mono) auto
  finally show ?thesis using assms by (simp add: no_dearer_def exact_charge_whole)
qed

end
