(* ===== verification/Transcript.thy ===== *)
theory Transcript
  imports Llm_Types "HOL-Library.Multiset"
begin

text \<open>
  Package \<^verbatim>\<open>state\<close>, \<^verbatim>\<open>materialize.go\<close>: the tool-call frontier of a transcript. \<open>enc\<close> is the JSON
  encoding of an item (\<^verbatim>\<open>MarshalJSON\<close>), \<open>None\<close> when it fails. A Go set is the list of its members.
\<close>

datatype transcript_error = ItemNil nat | ItemEncoding nat | NewTurn nat | NewToolTurn nat | EmptyCallID nat
  | ReusedCallID nat string | UnmatchedResult nat string

record frontier =
  fr_Pending :: "string list"
  fr_Seen :: "string list"
  fr_ResultsStarted :: bool

definition empty_frontier :: frontier where
  "empty_frontier = \<lparr>fr_Pending = [], fr_Seen = [], fr_ResultsStarted = False\<rparr>"

text \<open>Whether an item may follow while calls are pending.\<close>

definition check_pending :: "nat \<Rightarrow> frontier \<Rightarrow> item \<Rightarrow> transcript_error option" where
  "check_pending i fr it =
     (case it of
        ToolResult _ _ _ _ \<Rightarrow> None
      | Message actor _ \<Rightarrow> if actor \<noteq> ActorModel \<or> fr_ResultsStarted fr then Some (NewTurn i) else None
      | ToolCall _ _ _ \<Rightarrow> if fr_ResultsStarted fr then Some (NewToolTurn i) else None
      | ProviderState _ _ _ _ \<Rightarrow> if fr_ResultsStarted fr then Some (NewTurn i) else None
      | Reference _ _ \<Rightarrow> if fr_ResultsStarted fr then Some (NewTurn i) else None
      | NilItem \<Rightarrow> Some (NewTurn i))"

definition advance :: "nat \<Rightarrow> frontier \<Rightarrow> item \<Rightarrow> transcript_error + frontier" where
  "advance i fr it =
     (case it of
        ToolCall callID _ _ \<Rightarrow>
          if callID = [] then Inl (EmptyCallID i)
          else if callID \<in> set (fr_Seen fr) then Inl (ReusedCallID i callID)
          else Inr (fr\<lparr>fr_Seen := callID # fr_Seen fr, fr_Pending := callID # fr_Pending fr\<rparr>)
      | ToolResult callID _ _ _ \<Rightarrow>
          if callID \<notin> set (fr_Pending fr) then Inl (UnmatchedResult i callID)
          else Inr (fr\<lparr>fr_ResultsStarted := True, fr_Pending := remove1 callID (fr_Pending fr)\<rparr>)
      | _ \<Rightarrow> Inr fr)"

definition validate_item :: "(item \<Rightarrow> string option) \<Rightarrow> frontier \<Rightarrow> nat \<times> item \<Rightarrow> transcript_error + frontier" where
  "validate_item enc fr x =
     (case x of (i, it) \<Rightarrow>
      if it = NilItem then Inl (ItemNil i)
      else if enc it = None then Inl (ItemEncoding i)
      else let fr = (if fr_Pending fr = [] then fr\<lparr>fr_ResultsStarted := False\<rparr> else fr)
           in guardE (if fr_Pending fr \<noteq> [] then check_pending i fr it else None) (advance i fr it))"

text \<open>The nested loop at the end of \<^verbatim>\<open>validateItems\<close> is insertion sort, which \<open>sort\<close> is.\<close>

definition validateItems :: "(item \<Rightarrow> string option) \<Rightarrow> item list \<Rightarrow> transcript_error + string list" where
  "validateItems enc items =
     (case foldE (validate_item enc) empty_frontier (enumerate 0 items) of
        Inl e \<Rightarrow> Inl e | Inr fr \<Rightarrow> Inr (sort (fr_Pending fr)))"

definition ValidateTranscript :: "(item \<Rightarrow> string option) \<Rightarrow> item list \<Rightarrow> transcript_error + string list" where
  "ValidateTranscript enc items = validateItems enc items"

definition validateItemEncoding :: "(item \<Rightarrow> string option) \<Rightarrow> item list \<Rightarrow> transcript_error option" where
  "validateItemEncoding enc items =
     firstErr (\<lambda>(i, it). if it = NilItem then Some (ItemNil i) else if enc it = None then Some (ItemEncoding i) else None)
       (enumerate 0 items)"

section \<open>Facts\<close>

text \<open>
  The index only enters errors, so acceptance is a fold without it. \<open>accepts\<close> is that fold,
  and the frontier after a prefix determines the rest.
\<close>

definition step_ok :: "(item \<Rightarrow> string option) \<Rightarrow> frontier \<Rightarrow> item \<Rightarrow> frontier option" where
  "step_ok enc fr it = (case validate_item enc fr (0, it) of Inl _ \<Rightarrow> None | Inr fr' \<Rightarrow> Some fr')"

fun accepts :: "(item \<Rightarrow> string option) \<Rightarrow> frontier \<Rightarrow> item list \<Rightarrow> frontier option" where
  "accepts enc fr [] = Some fr"
| "accepts enc fr (it # its) = (case step_ok enc fr it of None \<Rightarrow> None | Some fr' \<Rightarrow> accepts enc fr' its)"

lemma validate_item_index:
  "(\<exists>e. validate_item enc fr (i, it) = Inl e) \<longleftrightarrow> (\<exists>e. validate_item enc fr (j, it) = Inl e)"
  "validate_item enc fr (i, it) = Inr fr' \<longleftrightarrow> validate_item enc fr (j, it) = Inr fr'"
  by (auto simp: validate_item_def check_pending_def advance_def guardE_def Let_def split: item.splits if_splits option.splits)

lemma accepts_fold: "(case foldE (validate_item enc) fr (enumerate i items) of Inl _ \<Rightarrow> None | Inr fr' \<Rightarrow> Some fr') = accepts enc fr items"
proof (induction items arbitrary: fr i)
  case Nil
  then show ?case by simp
next
  case (Cons it its)
  show ?case
  proof (cases "validate_item enc fr (i, it)")
    case (Inl e)
    then have "step_ok enc fr it = None" using validate_item_index(1)[of enc fr i it 0] by (auto simp: step_ok_def)
    then show ?thesis using Inl by simp
  next
    case (Inr fr')
    then have "step_ok enc fr it = Some fr'" using validate_item_index(2)[of enc fr i it fr' 0] by (simp add: step_ok_def)
    then show ?thesis using Inr Cons.IH by simp
  qed
qed

lemma validateItems_accepts:
  "validateItems enc items = Inr pending \<longleftrightarrow> (\<exists>fr. accepts enc empty_frontier items = Some fr \<and> pending = sort (fr_Pending fr))"
  unfolding accepts_fold[of enc empty_frontier 0 items, symmetric] by (auto simp: validateItems_def split: sum.splits)

lemma accepts_append: "accepts enc fr (xs @ ys) = (case accepts enc fr xs of None \<Rightarrow> None | Some fr' \<Rightarrow> accepts enc fr' ys)"
  by (induction xs arbitrary: fr) (auto split: option.splits)

subsection \<open>Calls and results\<close>

definition call_ids :: "item list \<Rightarrow> string list" where
  "call_ids items = concat (map (\<lambda>it. case it of ToolCall callID _ _ \<Rightarrow> [callID] | _ \<Rightarrow> []) items)"

definition result_ids :: "item list \<Rightarrow> string list" where
  "result_ids items = concat (map (\<lambda>it. case it of ToolResult callID _ _ _ \<Rightarrow> [callID] | _ \<Rightarrow> []) items)"

lemma ids_append [simp]:
  "call_ids (xs @ ys) = call_ids xs @ call_ids ys" "result_ids (xs @ ys) = result_ids xs @ result_ids ys"
  by (simp_all add: call_ids_def result_ids_def)

lemma ids_single:
  "call_ids [ToolCall c n a] = [c]" "result_ids [ToolCall c n a] = []"
  "call_ids [ToolResult c n ps e] = []" "result_ids [ToolResult c n ps e] = [c]"
  "call_ids [Message ac ps] = []" "result_ids [Message ac ps] = []" "call_ids [ProviderState p f m b] = []"
  "result_ids [ProviderState p f m b] = []" "call_ids [Reference u md] = []" "result_ids [Reference u md] = []"
  by (simp_all add: call_ids_def result_ids_def)

lemma step_ok_Some:
  assumes "step_ok enc fr it = Some fr'"
  shows "it \<noteq> NilItem" "enc it \<noteq> None"
    "fr_Seen fr' = rev (call_ids [it]) @ fr_Seen fr"
    "\<And>c. call_ids [it] = [c] \<Longrightarrow> c \<noteq> [] \<and> c \<notin> set (fr_Seen fr) \<and> fr_Pending fr' = c # fr_Pending fr"
    "\<And>c. result_ids [it] = [c] \<Longrightarrow> c \<in> set (fr_Pending fr) \<and> fr_Pending fr' = remove1 c (fr_Pending fr)"
    "call_ids [it] = [] \<Longrightarrow> result_ids [it] = [] \<Longrightarrow> fr_Pending fr' = fr_Pending fr"
  using assms
  by (auto simp: step_ok_def validate_item_def advance_def guardE_def Let_def ids_single
      split: item.splits if_splits option.splits sum.splits)

text \<open>What a frontier knows of the items read so far.\<close>

definition tracks :: "item list \<Rightarrow> frontier \<Rightarrow> bool" where
  "tracks items fr \<longleftrightarrow> fr_Seen fr = rev (call_ids items) \<and> distinct (call_ids items) \<and> [] \<notin> set (call_ids items)
     \<and> distinct (result_ids items) \<and> set (result_ids items) \<subseteq> set (call_ids items)
     \<and> distinct (fr_Pending fr) \<and> set (fr_Pending fr) = set (call_ids items) - set (result_ids items)"

lemma tracks_step:
  assumes "tracks items fr" and "step_ok enc fr it = Some fr'"
  shows "tracks (items @ [it]) fr'"
proof -
  note s = step_ok_Some[OF assms(2)]
  consider (call) c where "call_ids [it] = [c]" "result_ids [it] = []" | (result) c where "call_ids [it] = []" "result_ids [it] = [c]"
    | (other) "call_ids [it] = []" "result_ids [it] = []"
    by (cases it) (auto simp: call_ids_def result_ids_def)
  then show ?thesis
  proof cases
    case (call c)
    then show ?thesis using assms(1) s(3) s(4)[OF call(1)] by (auto simp: tracks_def)
  next
    case (result c)
    then show ?thesis using assms(1) s(3) s(5)[OF result(2)] by (auto simp: tracks_def)
  next
    case other
    then show ?thesis using assms(1) s(3) s(6)[OF other] by (simp add: tracks_def)
  qed
qed

lemma accepts_tracks: "accepts enc empty_frontier items = Some fr \<Longrightarrow> tracks items fr"
proof (induction items arbitrary: fr rule: rev_induct)
  case Nil
  then have "fr = empty_frontier" by simp
  then show ?case by (simp add: tracks_def empty_frontier_def call_ids_def result_ids_def)
next
  case (snoc it items)
  then obtain fr0 where fr0: "accepts enc empty_frontier items = Some fr0" "step_ok enc fr0 it = Some fr"
    by (auto simp: accepts_append split: option.splits)
  show ?case using tracks_step[OF snoc.IH[OF fr0(1)] fr0(2)] .
qed

lemma accepts_prefix: "accepts enc fr items = Some fr' \<Longrightarrow> \<exists>fr0. accepts enc fr (take k items) = Some fr0"
  by (metis accepts_append append_take_drop_id option.case_eq_if not_None_eq)


definition demo_items :: "item list" where
  "demo_items = [Message ActorHuman [TextPart ''hi''], ToolCall ''c1'' ''f'' ''{}'', ToolCall ''c2'' ''g'' ''{}'',
     ToolResult ''c2'' ''g'' [] False]"


subsection \<open>Cutting at an empty frontier\<close>

text \<open>
  Two frontiers agree when nothing that validation reads differs: the pending calls are the same,
  one has seen no more than the other, and the results flag counts only while calls are pending.
\<close>

definition agrees :: "frontier \<Rightarrow> frontier \<Rightarrow> bool" where
  "agrees a b \<longleftrightarrow> fr_Pending a = fr_Pending b \<and> set (fr_Seen b) \<subseteq> set (fr_Seen a)
     \<and> (fr_Pending a \<noteq> [] \<longrightarrow> fr_ResultsStarted a = fr_ResultsStarted b)"

lemma agrees_step:
  assumes "agrees a b" and "step_ok enc a it = Some a'"
  shows "\<exists>b'. step_ok enc b it = Some b' \<and> agrees a' b'"
  using assms
  by (auto simp: agrees_def step_ok_def validate_item_def check_pending_def advance_def guardE_def Let_def
      split: item.splits if_splits option.splits sum.splits)

lemma agrees_accepts:
  assumes "agrees a b" and "accepts enc a items = Some a'"
  shows "\<exists>b'. accepts enc b items = Some b' \<and> agrees a' b'"
  using assms
proof (induction items arbitrary: a b)
  case Nil
  then show ?case by simp
next
  case (Cons it its)
  obtain a1 where a1: "step_ok enc a it = Some a1" "accepts enc a1 its = Some a'" using Cons.prems(2) by (auto split: option.splits)
  obtain b1 where "step_ok enc b it = Some b1" "agrees a1 b1" using agrees_step[OF Cons.prems(1) a1(1)] by blast
  then show ?case using Cons.IH[OF _ a1(2)] by simp
qed

definition is_reference :: "item \<Rightarrow> bool" where
  "is_reference it \<longleftrightarrow> (case it of Reference _ _ \<Rightarrow> True | _ \<Rightarrow> False)"

lemma reference_step:
  assumes "is_reference it" and "step_ok enc a it = Some a'"
  shows "agrees a a'" "agrees a' a"
  using assms by (auto simp: is_reference_def agrees_def step_ok_def validate_item_def advance_def guardE_def Let_def
      split: item.splits if_splits option.splits sum.splits)

lemma agrees_trans: "agrees a b \<Longrightarrow> agrees b c \<Longrightarrow> agrees a c"
  by (auto simp: agrees_def)

text \<open>References may be left out, and may be put in front.\<close>

lemma accepts_drop_references:
  assumes "accepts enc a items = Some a'" and "agrees a b"
  shows "\<exists>b'. accepts enc b (filter (\<lambda>it. \<not> is_reference it) items) = Some b' \<and> agrees a' b'"
  using assms
proof (induction items arbitrary: a b)
  case Nil
  then show ?case by simp
next
  case (Cons it its)
  obtain a1 where a1: "step_ok enc a it = Some a1" "accepts enc a1 its = Some a'" using Cons.prems(1) by (auto split: option.splits)
  show ?case
  proof (cases "is_reference it")
    case True
    then have "agrees a1 b" using reference_step(2)[OF _ a1(1)] agrees_trans Cons.prems(2) by blast
    then show ?thesis using Cons.IH[OF a1(2)] True by simp
  next
    case False
    obtain b1 where b1: "step_ok enc b it = Some b1" "agrees a1 b1" using agrees_step[OF Cons.prems(2) a1(1)] by blast
    then show ?thesis using Cons.IH[OF a1(2) b1(2)] False by simp
  qed
qed

lemma accepts_references:
  assumes "\<forall>it \<in> set refs. is_reference it \<and> enc it \<noteq> None"
  shows "accepts enc empty_frontier refs = Some empty_frontier"
  using assms
proof (induction refs)
  case Nil
  then show ?case by simp
next
  case (Cons it its)
  then have "step_ok enc empty_frontier it = Some empty_frontier"
    by (auto simp: is_reference_def step_ok_def validate_item_def advance_def guardE_def Let_def empty_frontier_def split: item.splits)
  then show ?case using Cons by simp
qed

lemma accepts_encodes: "accepts enc fr items = Some fr' \<Longrightarrow> \<forall>it \<in> set items. it \<noteq> NilItem \<and> enc it \<noteq> None"
proof (induction items arbitrary: fr)
  case Nil
  then show ?case by simp
next
  case (Cons it its)
  obtain fr1 where "step_ok enc fr it = Some fr1" "accepts enc fr1 its = Some fr'" using Cons.prems by (auto split: option.splits)
  then show ?case using step_ok_Some(1,2)[of enc fr it fr1] Cons.IH by auto
qed

end
