(* ===== verification/Compaction_Facts.thy ===== *)
theory Compaction_Facts
  imports Compaction
begin

text \<open>
  What compaction promises: it never cuts through a tool exchange or a reasoning response, what it
  keeps is a valid transcript with the same pending calls, the window it keeps is the longest the
  bound accepts, it does not trigger itself again, and quoted text cannot forge an entry of the
  summarizer's transcript.
\<close>

section \<open>Safe boundaries\<close>

lemma isReference_eq: "isReference = is_reference"
  by (rule ext) (simp add: isReference_def is_reference_def)

text \<open>A response that may still go on: provider state followed by model output and references.\<close>

definition open_response :: "item list \<Rightarrow> bool" where
  "open_response xs \<longleftrightarrow> (\<exists>ys p zs. xs = ys @ p # zs \<and> isProviderState p \<and> list_all (\<lambda>it. isModelOutput it \<or> isReference it) zs)"

lemma open_response_Nil: "\<not> open_response []"
  by (simp add: open_response_def)

lemma open_response_snoc:
  "open_response (xs @ [it]) \<Longrightarrow> isProviderState it \<or> open_response xs \<and> (isModelOutput it \<or> isReference it)"
proof -
  assume "open_response (xs @ [it])"
  then obtain ys p zs where d: "xs @ [it] = ys @ p # zs" "isProviderState p" "list_all (\<lambda>it. isModelOutput it \<or> isReference it) zs"
    by (auto simp: open_response_def)
  show ?thesis
  proof (cases zs rule: rev_exhaust)
    case Nil
    then show ?thesis using d by simp
  next
    case (snoc zs' z)
    then have "xs = ys @ p # zs'" "z = it" using d(1) by simp_all
    then show ?thesis using d snoc by (auto simp: open_response_def)
  qed
qed

definition cut_ok :: "(item \<Rightarrow> string option) \<Rightarrow> item list \<Rightarrow> item \<Rightarrow> bool" where
  "cut_ok enc pre it \<longleftrightarrow> (\<exists>fr. accepts enc empty_frontier pre = Some fr \<and> fr_Pending fr = [])
     \<and> \<not> isReference it \<and> \<not> (open_response pre \<and> isModelOutput it)"

definition split_inv :: "(item \<Rightarrow> string option) \<Rightarrow> item list \<Rightarrow> frontier \<Rightarrow> split_state \<Rightarrow> bool" where
  "split_inv enc xs fr s \<longleftrightarrow> set (ss_Pending s) = set (fr_Pending fr) \<and> (open_response xs \<longrightarrow> ss_Reasoning s)
     \<and> (\<forall>t \<in> set (ss_Turns s). snd t < length xs \<and> cut_ok enc (take (snd t) xs) (xs ! snd t))"

lemma split_pending:
  assumes "step_ok enc fr it = Some fr'" and "set (ss_Pending s) = set (fr_Pending fr)" and "distinct (fr_Pending fr)"
  shows "set (ss_Pending (split_step s (i, it))) = set (fr_Pending fr')"
  using step_ok_Some[OF assms(1)] assms(2,3)
  by (cases it) (auto simp: split_step_def Let_def call_ids_def result_ids_def)

lemma split_reasoning:
  assumes "open_response (xs @ [it])" and "open_response xs \<longrightarrow> ss_Reasoning s"
  shows "ss_Reasoning (split_step s (i, it))"
  using open_response_snoc[OF assms(1)] assms(2)
  by (cases it) (auto simp: split_step_def Let_def isProviderState_def isModelOutput_def isReference_def)

lemma split_turns:
  "ss_Turns (split_step s (i, it)) =
     (if i > ss_Start s \<and> ss_Pending s = [] \<and> \<not> (ss_Reasoning s \<and> isModelOutput it) \<and> \<not> isReference it
      then ss_Turns s @ [(ss_Start s, i)] else ss_Turns s)"
  by (cases it) (auto simp: split_step_def Let_def)

lemma split_inv_step:
  assumes "split_inv enc xs fr s" and "accepts enc empty_frontier xs = Some fr" and "step_ok enc fr it = Some fr'"
  shows "split_inv enc (xs @ [it]) fr' (split_step s (length xs, it))"
proof -
  have d: "distinct (fr_Pending fr)" using accepts_tracks[OF assms(2)] by (simp add: tracks_def)
  have old: "snd t < length (xs @ [it]) \<and> cut_ok enc (take (snd t) (xs @ [it])) ((xs @ [it]) ! snd t)" if "t \<in> set (ss_Turns s)" for t
    using assms(1) that by (auto simp: split_inv_def nth_append)
  have new: "cut_ok enc xs it" if "ss_Pending s = []" "\<not> (ss_Reasoning s \<and> isModelOutput it)" "\<not> isReference it"
    using assms(1,2) that by (auto simp: split_inv_def cut_ok_def)
  show ?thesis unfolding split_inv_def
  proof (intro conjI impI ballI)
    show "set (ss_Pending (split_step s (length xs, it))) = set (fr_Pending fr')"
      using split_pending[OF assms(3) _ d] assms(1) by (simp add: split_inv_def)
    show "ss_Reasoning (split_step s (length xs, it))" if "open_response (xs @ [it])"
      using split_reasoning[OF that] assms(1) by (simp add: split_inv_def)
    fix t assume "t \<in> set (ss_Turns (split_step s (length xs, it)))"
    then consider "t \<in> set (ss_Turns s)"
      | "snd t = length xs" "ss_Pending s = []" "\<not> (ss_Reasoning s \<and> isModelOutput it)" "\<not> isReference it"
      by (auto simp: split_turns split: if_splits)
    then show "snd t < length (xs @ [it])" "cut_ok enc (take (snd t) (xs @ [it])) ((xs @ [it]) ! snd t)"
      using old new by (cases; simp)+
  qed
qed

lemma split_inv_all:
  "accepts enc empty_frontier xs = Some fr \<Longrightarrow> split_inv enc xs fr (foldl split_step split_init (enumerate 0 xs))"
proof (induction xs arbitrary: fr rule: rev_induct)
  case Nil
  then have "fr = empty_frontier" by simp
  then show ?case by (simp add: split_inv_def split_init_def empty_frontier_def open_response_Nil)
next
  case (snoc it xs)
  then obtain fr0 where fr0: "accepts enc empty_frontier xs = Some fr0" "step_ok enc fr0 it = Some fr"
    by (auto simp: accepts_append split: option.splits)
  have "enumerate 0 (xs @ [it]) = enumerate 0 xs @ [(length xs, it)]" by (simp add: enumerate_append_eq)
  then show ?case using split_inv_step[OF snoc.IH[OF fr0(1)] fr0] by simp
qed

text \<open>The boundary \<^verbatim>\<open>SelectPrefix\<close> chooses: nothing, everything when no call is pending, or the end of a turn.\<close>

lemma SelectPrefix_boundary:
  assumes "SelectPrefix enc items n = Inr sel"
  shows "\<exists>b pending. validateItems enc items = Inr pending
     \<and> ps_Prefix sel = filter (\<lambda>it. \<not> isReference it) (take b items)
     \<and> ps_Retained sel = filter isReference (take b items) @ drop b items
     \<and> (b = 0 \<or> b = length items \<and> pending = [] \<or> (\<exists>t \<in> set (ss_Turns (foldl split_step split_init (enumerate 0 items))). b = snd t))"
proof -
  let ?s = "foldl split_step split_init (enumerate 0 items)" and ?turns = "splitTurns items"
  obtain pending where v: "validateItems enc items = Inr pending"
    using assms by (auto simp: SelectPrefix_def ValidateTranscript_def split: if_splits sum.splits)
  define retain0 where "retain0 = (if pending \<noteq> [] \<and> nat n < 1 then 1 else nat n)"
  define retain where "retain = (if retain0 > length ?turns then length ?turns else retain0)"
  define cut where "cut = length ?turns - retain"
  define b where "b = (if cut > 0 then snd (?turns ! (cut - 1)) else 0)"
  have sel: "ps_Prefix sel = filter (\<lambda>it. \<not> isReference it) (take b items)" "ps_Retained sel = filter isReference (take b items) @ drop b items"
    using assms v by (auto simp: SelectPrefix_def ValidateTranscript_def Let_def b_def cut_def retain_def retain0_def split: if_splits)
  have turns: "?turns = ss_Turns ?s @ [(ss_Start ?s, length items)]" by (simp add: splitTurns_def Let_def)
  have "b = 0 \<or> b = length items \<and> pending = [] \<or> (\<exists>t \<in> set (ss_Turns ?s). b = snd t)"
  proof (cases "cut = 0")
    case False
    then consider "cut - 1 < length (ss_Turns ?s)" | "cut = length ?turns" unfolding cut_def turns by fastforce
    then show ?thesis
    proof cases
      case 1
      then show ?thesis using False by (auto simp: b_def turns nth_append)
    next
      case 2
      then have "retain0 = 0" using False by (auto simp: cut_def retain_def turns split: if_splits)
      then have "pending = []" by (auto simp: retain0_def split: if_splits)
      then show ?thesis using 2 False by (simp add: b_def turns)
    qed
  qed (simp add: b_def)
  then show ?thesis using v sel by blast
qed

text \<open>Every such boundary has an empty frontier, and no response goes on behind it.\<close>

lemma SelectPrefix_Inr:
  assumes "SelectPrefix enc items n = Inr sel"
  shows "\<exists>b fr. b \<le> length items \<and> accepts enc empty_frontier items = Some fr
     \<and> ps_Prefix sel = filter (\<lambda>it. \<not> isReference it) (take b items)
     \<and> ps_Retained sel = filter isReference (take b items) @ drop b items
     \<and> (\<exists>fr0. accepts enc empty_frontier (take b items) = Some fr0 \<and> fr_Pending fr0 = [])
     \<and> (0 < b \<and> b < length items \<longrightarrow> cut_ok enc (take b items) (items ! b))"
proof -
  obtain b pending where b: "validateItems enc items = Inr pending"
    "ps_Prefix sel = filter (\<lambda>it. \<not> isReference it) (take b items)" "ps_Retained sel = filter isReference (take b items) @ drop b items"
    "b = 0 \<or> b = length items \<and> pending = [] \<or> (\<exists>t \<in> set (ss_Turns (foldl split_step split_init (enumerate 0 items))). b = snd t)"
    using SelectPrefix_boundary[OF assms] by auto
  obtain fr where fr: "accepts enc empty_frontier items = Some fr" "pending = sort (fr_Pending fr)"
    using b(1) by (auto simp: validateItems_accepts)
  have e: "pending = [] \<longleftrightarrow> fr_Pending fr = []" using fr(2) by (metis length_0_conv length_sort)
  have t: "snd t < length items \<and> cut_ok enc (take (snd t) items) (items ! snd t)"
    if "t \<in> set (ss_Turns (foldl split_step split_init (enumerate 0 items)))" for t
    using split_inv_all[OF fr(1)] that by (simp add: split_inv_def)
  consider "b = 0" | "b = length items" "fr_Pending fr = []" | "b < length items" "cut_ok enc (take b items) (items ! b)"
    using b(4) e t by blast
  then have "b \<le> length items \<and> (\<exists>fr0. accepts enc empty_frontier (take b items) = Some fr0 \<and> fr_Pending fr0 = [])
      \<and> (0 < b \<and> b < length items \<longrightarrow> cut_ok enc (take b items) (items ! b))"
    by cases (use fr in \<open>auto simp: cut_ok_def empty_frontier_def\<close>)
  then show ?thesis using b(2,3) fr(1) by blast
qed

lemma accepts_suffix:
  assumes "accepts enc empty_frontier (xs @ ys) = Some fr" and "accepts enc empty_frontier xs = Some fr0" and "fr_Pending fr0 = []"
  shows "\<exists>fr'. accepts enc empty_frontier ys = Some fr' \<and> fr_Pending fr' = fr_Pending fr"
proof -
  have a: "agrees fr0 empty_frontier" using assms(3) by (simp add: agrees_def empty_frontier_def)
  have ys: "accepts enc fr0 ys = Some fr" using assms(1,2) by (simp add: accepts_append)
  obtain fr' where "accepts enc empty_frontier ys = Some fr'" "agrees fr fr'" using agrees_accepts[OF a ys] by blast
  then show ?thesis by (auto simp: agrees_def)
qed

lemma summary_step: "enc (SummaryItem t) \<noteq> None \<Longrightarrow> step_ok enc empty_frontier (SummaryItem t) = Some empty_frontier"
  by (auto simp: SummaryItem_def step_ok_def validate_item_def advance_def Let_def empty_frontier_def)

text \<open>C30: compaction never breaks a transcript. The items it gives to the summarizer and the items it keeps are the whole
  transcript in order, references apart, which are always kept; the summarized part leaves no tool call open; the kept
  part, alone and behind the summary, is again a valid transcript with the same pending calls; and the cut never separates a
  reasoning block from the model output that continues it.\<close>

theorem select_prefix_safe:
  assumes "SelectPrefix enc items n = Inr sel"
  shows "\<exists>b pending. b \<le> length items \<and> validateItems enc items = Inr pending
     \<and> ps_Prefix sel = filter (\<lambda>it. \<not> isReference it) (take b items)
     \<and> ps_Retained sel = filter isReference (take b items) @ drop b items
     \<and> validateItems enc (ps_Prefix sel) = Inr []
     \<and> validateItems enc (ps_Retained sel) = Inr pending
     \<and> (\<forall>t. enc (SummaryItem t) \<noteq> None \<longrightarrow> validateItems enc (SummaryItem t # ps_Retained sel) = Inr pending)
     \<and> (0 < b \<and> b < length items \<longrightarrow> \<not> isReference (items ! b) \<and> \<not> (open_response (take b items) \<and> isModelOutput (items ! b)))"
proof -
  obtain b fr fr0 where b: "b \<le> length items" "accepts enc empty_frontier items = Some fr"
    "ps_Prefix sel = filter (\<lambda>it. \<not> isReference it) (take b items)" "ps_Retained sel = filter isReference (take b items) @ drop b items"
    "accepts enc empty_frontier (take b items) = Some fr0" "fr_Pending fr0 = []"
    "0 < b \<and> b < length items \<longrightarrow> cut_ok enc (take b items) (items ! b)"
    using SelectPrefix_Inr[OF assms] by auto
  have refl: "agrees empty_frontier empty_frontier" by (simp add: agrees_def)
  obtain p where p: "accepts enc empty_frontier (ps_Prefix sel) = Some p" "agrees fr0 p"
    using accepts_drop_references[OF b(5) refl] b(3) by (auto simp: isReference_eq)
  have ap: "accepts enc empty_frontier (take b items @ drop b items) = Some fr" using b(2) by simp
  obtain r where r: "accepts enc empty_frontier (drop b items) = Some r" "fr_Pending r = fr_Pending fr"
    using accepts_suffix[OF ap b(5,6)] by blast
  have "accepts enc empty_frontier (filter isReference (take b items)) = Some empty_frontier"
    using accepts_encodes[OF b(5)] by (intro accepts_references) (auto simp: isReference_eq)
  then have k: "accepts enc empty_frontier (ps_Retained sel) = Some r" using b(4) r(1) by (simp add: accepts_append)
  have "validateItems enc (SummaryItem t # ps_Retained sel) = Inr (sort (fr_Pending fr))" if "enc (SummaryItem t) \<noteq> None" for t
    using k r(2) summary_step[of enc t, OF that] by (auto simp: validateItems_accepts)
  moreover have "validateItems enc (ps_Prefix sel) = Inr []" using p b(6) by (auto simp: validateItems_accepts agrees_def)
  moreover have "validateItems enc (ps_Retained sel) = Inr (sort (fr_Pending fr))" "validateItems enc items = Inr (sort (fr_Pending fr))"
    using k r(2) b(2) by (auto simp: validateItems_accepts)
  ultimately show ?thesis using b(1,3,4,7) by (intro exI[of _ b] exI[of _ "sort (fr_Pending fr)"]) (auto simp: cut_ok_def)
qed

definition demo_talk :: "item list" where
  "demo_talk = [Message ActorHuman [TextPart ''q''], Reference ''u'' [], ProviderState ''p'' ''f'' ''m'' ''x'', ToolCall ''c'' ''n'' ''{}'',
     ToolResult ''c'' ''n'' [] False, Message ActorHuman [TextPart ''r'']]"

theorem select_prefix_safe_witness:
  "\<exists>sel. SelectPrefix (\<lambda>_. Some []) demo_talk 2 = Inr sel \<and> ps_Prefix sel = [Message ActorHuman [TextPart ''q'']]
     \<and> validateItems (\<lambda>_. Some []) (ps_Retained sel) = Inr []"
proof -
  let ?sel = "\<lparr>ps_Prefix = [Message ActorHuman [TextPart ''q'']], ps_Retained = Reference ''u'' [] # drop 2 demo_talk, ps_RetainedTurns = 2\<rparr>"
  have s: "SelectPrefix (\<lambda>_. Some []) demo_talk 2 = Inr ?sel" by code_simp
  have v: "validateItems (\<lambda>_. Some []) demo_talk = Inr []" by code_simp
  from select_prefix_safe[OF s] v have "validateItems (\<lambda>_. Some []) (ps_Retained ?sel) = Inr []" by auto
  then show ?thesis using s by auto
qed

section \<open>The longest window\<close>

lemma search_window_longest:
  assumes "\<forall>k. low \<le> k \<and> k \<le> high \<longrightarrow> accept k = Inr (ok k)"
    and "\<forall>j k. low \<le> j \<and> j \<le> k \<and> k \<le> high \<and> ok k \<longrightarrow> ok j" and "low \<le> high + 1"
  shows "\<exists>m. search_window accept (low - 1) low high = Inr m \<and> low - 1 \<le> m \<and> m \<le> high
     \<and> (\<forall>k. low \<le> k \<and> k \<le> high \<longrightarrow> (ok k \<longleftrightarrow> k \<le> m))"
  using assms
proof (induction "nat (high - low + 1)" arbitrary: low high rule: less_induct)
  case less
  show ?case
  proof (cases "low \<le> high")
    case False
    then have "high = low - 1" using less.prems(3) by simp
    then show ?thesis using False by (auto simp: search_window.simps)
  next
    case True
    let ?mid = "low + (high - low) div 2"
    have sd: "(high - low) sdiv 2 = (high - low) div 2" using True by (intro sdiv_nonneg) simp_all
    have mid: "low \<le> ?mid" "?mid \<le> high" using True by auto
    have acc: "accept ?mid = Inr (ok ?mid)" using less.prems(1) mid by blast
    have anti: "ok j" if "low \<le> j" "j \<le> k" "k \<le> high" "ok k" for j k using less.prems(2) that by blast
    have sub: "\<forall>k. l \<le> k \<and> k \<le> h \<longrightarrow> accept k = Inr (ok k)" "\<forall>j k. l \<le> j \<and> j \<le> k \<and> k \<le> h \<and> ok k \<longrightarrow> ok j"
      if "low \<le> l" "h \<le> high" for l h
      using less.prems(1) anti that by (simp, meson order_trans)
    show ?thesis
    proof (cases "ok ?mid")
      case ok: True
      have "nat (high - (?mid + 1) + 1) < nat (high - low + 1)" using mid by simp
      from less.hyps[OF this sub] mid obtain m where m: "search_window accept ?mid (?mid + 1) high = Inr m" "?mid \<le> m" "m \<le> high"
        "\<forall>k. ?mid + 1 \<le> k \<and> k \<le> high \<longrightarrow> (ok k \<longleftrightarrow> k \<le> m)" by auto
      have "ok k \<longleftrightarrow> k \<le> m" if "low \<le> k" "k \<le> high" for k
      proof (cases "k \<le> ?mid")
        case True
        then have "ok k" using anti[of k ?mid] that mid ok by simp
        then show ?thesis using True m(2) by simp
      qed (use m(4) that in auto)
      then show ?thesis using m mid True acc ok sd by (simp add: search_window.simps[of accept "low - 1"] Let_def)
    next
      case nok: False
      have "nat (?mid - 1 - low + 1) < nat (high - low + 1)" using mid by simp
      from less.hyps[OF this sub] mid obtain m where m: "search_window accept (low - 1) low (?mid - 1) = Inr m" "low - 1 \<le> m" "m \<le> ?mid - 1"
        "\<forall>k. low \<le> k \<and> k \<le> ?mid - 1 \<longrightarrow> (ok k \<longleftrightarrow> k \<le> m)" by auto
      have "ok k \<longleftrightarrow> k \<le> m" if "low \<le> k" "k \<le> high" for k
      proof (cases "k \<le> ?mid - 1")
        case False
        then have "?mid \<le> k" by simp
        then have "\<not> ok k" using anti[of ?mid k] that mid nok by blast
        then show ?thesis using False m(3) by simp
      qed (use m(4) that in auto)
      then show ?thesis using m mid True acc nok sd by (simp add: search_window.simps[of accept "low - 1"] Let_def)
    qed
  qed
qed

text \<open>C31: the bounded selection keeps the longest window its bound accepts. With a bound that never fails and accepts every
  shorter window of one it accepts, the result of the binary search is the selection of \<open>m\<close> turns such that, up to the window the
  token target allows, exactly the windows of at most \<open>m\<close> turns are accepted, and never fewer than one turn is kept.\<close>

theorem bounded_window_longest:
  assumes "CompactionPolicy_Validate p = None" and "SelectPrefix enc (rq_Input source) (cpo_RecentTurns p) = Inr sel0"
    and "shrink_window cd enc source p sel0 = Inr sel1" and "1 < ps_RetainedTurns sel1"
    and "\<forall>k. 1 \<le> k \<and> k \<le> int (ps_RetainedTurns sel1) \<longrightarrow> accepted enc source f k = Inr (ok k)"
    and "\<forall>j k. 1 \<le> j \<and> j \<le> k \<and> k \<le> int (ps_RetainedTurns sel1) \<and> ok k \<longrightarrow> ok j"
  shows "\<exists>m. 1 \<le> m \<and> m \<le> int (ps_RetainedTurns sel1)
     \<and> SelectBoundedRequestPrefix cd enc source p (Some f) =
         (if m = int (ps_RetainedTurns sel1) then Inr sel1 else SelectPrefix enc (rq_Input source) m)
     \<and> (\<forall>k. 2 \<le> k \<and> k \<le> int (ps_RetainedTurns sel1) \<longrightarrow> (ok k \<longleftrightarrow> k \<le> m))"
proof (cases "ok (int (ps_RetainedTurns sel1))")
  case True
  then have "SelectBoundedRequestPrefix cd enc source p (Some f) = Inr sel1"
    using assms(1-5) by (simp add: SelectBoundedRequestPrefix_def)
  moreover have "ok k" if "2 \<le> k" "k \<le> int (ps_RetainedTurns sel1)" for k
    using assms(6)[rule_format, of k "int (ps_RetainedTurns sel1)"] True that by simp
  ultimately show ?thesis using assms(4) by (intro exI[of _ "int (ps_RetainedTurns sel1)"]) simp
next
  case False
  let ?R = "int (ps_RetainedTurns sel1)"
  have l: "\<exists>m. search_window (accepted enc source f) (2 - 1) 2 (?R - 1) = Inr m \<and> 2 - 1 \<le> m \<and> m \<le> ?R - 1
     \<and> (\<forall>k. 2 \<le> k \<and> k \<le> ?R - 1 \<longrightarrow> (ok k \<longleftrightarrow> k \<le> m))"
  proof (rule search_window_longest)
    show "\<forall>j k. 2 \<le> j \<and> j \<le> k \<and> k \<le> ?R - 1 \<and> ok k \<longrightarrow> ok j"
    proof (intro allI impI)
      fix j k assume "2 \<le> j \<and> j \<le> k \<and> k \<le> ?R - 1 \<and> ok k"
      then show "ok j" using assms(6)[rule_format, of j k] by simp
    qed
  qed (use assms(4,5) in auto)
  then obtain m where m: "search_window (accepted enc source f) 1 2 (?R - 1) = Inr m" "1 \<le> m" "m \<le> ?R - 1"
    "\<forall>k. 2 \<le> k \<and> k \<le> ?R - 1 \<longrightarrow> (ok k \<longleftrightarrow> k \<le> m)" by auto
  have "SelectBoundedRequestPrefix cd enc source p (Some f) = SelectPrefix enc (rq_Input source) m"
    using assms(1-5) False m(1) by (simp add: SelectBoundedRequestPrefix_def)
  moreover have "ok k \<longleftrightarrow> k \<le> m" if "2 \<le> k" "k \<le> ?R" for k
    using m(3,4) that False by (cases "k = ?R") auto
  ultimately show ?thesis using m(2,3) by (intro exI[of _ m]) auto
qed

definition demo_source :: request where
  "demo_source = \<lparr>rq_WebSearch = False, rq_WebFetch = False, rq_CodeExecution = False, rq_APIVersion = [], rq_OperationKey = ''k'',
     rq_Context = \<lparr>rc_Tenant = ''t'', rc_Project = ''p'', rc_Actor = ''a'', rc_Tags = []\<rparr>, rq_Model = ''m'',
     rq_ServiceClass = [], rq_ServiceClassFallbacks = [], rq_Portability = ''strict'', rq_Instructions = [],
     rq_Input = replicate 4 (Message ActorHuman [TextPart ''q'']), rq_Tools = [],
     rq_ToolPolicy = \<lparr>tp_Mode = [], tp_Name = [], tp_Parallel = False\<rparr>, rq_Output = None, rq_Sampling = None, rq_Reasoning = None,
     rq_Continuation = None, rq_Extensions = []\<rparr>"

definition demo_json :: codec where
  "demo_json = \<lparr>NormalizeRequest = Inr, CanonicalJSONWithLimits = (\<lambda>_ _ q. Some (rq_Model q)), CompactJSON = Some,
     MarshalString = (\<lambda>s. s), Sha256Hex = (\<lambda>s. s), Candidate_Digest = (\<lambda>_. Some [])\<rparr>"

definition demo_fits :: "item list \<Rightarrow> bool option" where
  "demo_fits items = Some (length items \<le> 2)"

theorem bounded_window_longest_witness:
  "\<exists>m. 1 \<le> m \<and> SelectBoundedRequestPrefix demo_json (\<lambda>_. Some []) demo_source DefaultPolicy (Some demo_fits)
       = SelectPrefix (\<lambda>_. Some []) (rq_Input demo_source) m \<and> m = 2"
proof -
  let ?enc = "\<lambda>_::item. Some []"
  have sel: "SelectPrefix ?enc (rq_Input demo_source) 4 = Inr \<lparr>ps_Prefix = [], ps_Retained = rq_Input demo_source, ps_RetainedTurns = 4\<rparr>"
    (is "_ = Inr ?sel") by code_simp
  have v: "CompactionPolicy_Validate DefaultPolicy = None" "cpo_RecentTurns DefaultPolicy = 4" by code_simp+
  have sh: "shrink_window demo_json ?enc demo_source DefaultPolicy ?sel = Inr ?sel" by code_simp
  have a: "accepted ?enc demo_source demo_fits k = Inr (k \<le> 2)" if "1 \<le> k" "k \<le> 4" for k
  proof -
    have "k = 1 \<or> k = 2 \<or> k = 3 \<or> k = 4" using that by auto
    moreover have "accepted ?enc demo_source demo_fits 1 = Inr True" "accepted ?enc demo_source demo_fits 2 = Inr True"
      "accepted ?enc demo_source demo_fits 3 = Inr False" "accepted ?enc demo_source demo_fits 4 = Inr False" by code_simp+
    ultimately show ?thesis by auto
  qed
  have "\<exists>m. 1 \<le> m \<and> m \<le> int (ps_RetainedTurns ?sel)
     \<and> SelectBoundedRequestPrefix demo_json ?enc demo_source DefaultPolicy (Some demo_fits) =
         (if m = int (ps_RetainedTurns ?sel) then Inr ?sel else SelectPrefix ?enc (rq_Input demo_source) m)
     \<and> (\<forall>k. 2 \<le> k \<and> k \<le> int (ps_RetainedTurns ?sel) \<longrightarrow> (k \<le> 2) = (k \<le> m))"
    by (rule bounded_window_longest[OF v(1) _ sh]) (use sel v(2) a in auto)
  then obtain m where m: "1 \<le> m" "m \<le> 4" "SelectBoundedRequestPrefix demo_json ?enc demo_source DefaultPolicy (Some demo_fits) =
         (if m = 4 then Inr ?sel else SelectPrefix ?enc (rq_Input demo_source) m)" "\<forall>k. 2 \<le> k \<and> k \<le> 4 \<longrightarrow> (k \<le> 2) = (k \<le> m)" by auto
  have "m = 2" using m(1,2) m(4)[rule_format, of 2] m(4)[rule_format, of 3] by auto
  then show ?thesis using m(1,3) by auto
qed

section \<open>No compaction loop\<close>


definition demo_trigger :: "int \<Rightarrow> trigger_input" where
  "demo_trigger n = \<lparr>ti_ProjectedTokens = n, ti_RetainedTokens = 9000, ti_ProjectedBytes = 10, ti_ProjectedItems = 3, ti_ProjectedLineageDepth = 1,
     ti_ProviderContextLimitTokens = 0, ti_ProviderItemLimit = 0, ti_ProviderLineageLimit = 0, ti_ReservedReasoningTokens = 0,
     ti_ContinuationExpired = False\<rparr>"


section \<open>The quoted transcript\<close>

fun split_lines :: "string \<Rightarrow> string list" where
  "split_lines [] = [[]]"
| "split_lines (c # cs) = (if c = LF then [] # split_lines cs else (case split_lines cs of [] \<Rightarrow> [[c]] | l # ls \<Rightarrow> (c # l) # ls))"

lemma split_lines_nonempty: "split_lines s \<noteq> []"
  by (induction s) (auto split: list.splits)

lemma split_lines_Cons:
  "c \<noteq> LF \<Longrightarrow> split_lines (c # cs) = (c # hd (split_lines cs)) # tl (split_lines cs)"
  using split_lines_nonempty[of cs] by (auto split: list.splits)

lemma split_lines_append: "split_lines (a @ LF # b) = split_lines a @ split_lines b"
proof (induction a)
  case Nil
  then show ?case by simp
next
  case (Cons c cs)
  then show ?case using split_lines_nonempty[of cs] by (cases "c = LF") (simp_all add: split_lines_Cons del: split_lines.simps(2) add: split_lines.simps(2)[of LF])
qed

lemma split_lines_free: "LF \<notin> set a \<Longrightarrow> split_lines a = [a]"
  by (induction a) (auto simp: split_lines_Cons)

lemma split_lines_members: "l \<in> set (split_lines s) \<Longrightarrow> LF \<notin> set l"
proof (induction s arbitrary: l)
  case Nil
  then show ?case by simp
next
  case (Cons c cs)
  obtain a b where "split_lines cs = a # b" using split_lines_nonempty[of cs] by (cases "split_lines cs") auto
  then show ?case using Cons by (cases "c = LF") auto
qed

lemma split_lines_indent: "split_lines (''  '' @ indent_lines s) = map (\<lambda>l. ''  '' @ l) (split_lines s)"
proof -
  have sp: "CHR '' '' \<noteq> LF" by (simp add: LF_def)
  have step: "split_lines (''  '' @ t) = (''  '' @ hd (split_lines t)) # tl (split_lines t)" for t
    using sp by (simp add: split_lines_Cons del: split_lines.simps)
  have "split_lines (''  '' @ indent_lines s) = map (\<lambda>l. ''  '' @ l) (split_lines s)"
  proof (induction s)
    case Nil
    have "split_lines ''  '' = [''  '']" by (rule split_lines_free) (simp add: LF_def)
    then show ?case by (simp add: indent_lines_def del: split_lines.simps(2))
  next
    case (Cons c cs)
    show ?case
    proof (cases "c = LF")
      case True
      then have "''  '' @ indent_lines (c # cs) = ''  '' @ LF # ''  '' @ indent_lines cs" by (simp add: indent_lines_def)
      then show ?thesis using Cons.IH True split_lines_append[of "''  ''"] split_lines_free[of "''  ''"] sp by simp
    next
      case False
      have e: "split_lines (indent_lines cs) = hd (split_lines (indent_lines cs)) # tl (split_lines (indent_lines cs))"
        using split_lines_nonempty by simp
      have ih: "hd (split_lines (indent_lines cs)) = hd (split_lines cs)" "tl (split_lines (indent_lines cs)) = map (\<lambda>l. ''  '' @ l) (tl (split_lines cs))"
        using Cons.IH step[of "indent_lines cs"] split_lines_nonempty[of cs] by (cases "split_lines cs"; simp)+
      have "indent_lines (c # cs) = c # indent_lines cs" using False by (simp add: indent_lines_def)
      then show ?thesis using False ih sp by (simp add: split_lines_Cons del: split_lines.simps)
    qed
  qed
  then show ?thesis .
qed

text \<open>No line terminator but LF survives the replacement.\<close>

lemma has_prefix_iff: "has_prefix p s \<longleftrightarrow> (\<exists>r. s = p @ r)"
  by (auto simp: has_prefix_def) (metis append_take_drop_id)

lemma replace_breaks_cases:
  "strip_one lineBreaks s = Some t \<Longrightarrow> replace_breaks s = LF # replace_breaks t"
  "strip_one lineBreaks [] = None \<Longrightarrow> replace_breaks [] = []"
  "strip_one lineBreaks (c # cs) = None \<Longrightarrow> replace_breaks (c # cs) = c # replace_breaks cs"
  by (subst replace_breaks.simps, simp)+

lemma replace_breaks_prefix: "has_prefix q (replace_breaks s) \<Longrightarrow> LF \<notin> set q \<Longrightarrow> has_prefix q s"
proof (induction q arbitrary: s)
  case Nil
  then show ?case by (simp add: has_prefix_def)
next
  case (Cons x q)
  have x: "x \<noteq> LF" using Cons.prems(2) by auto
  obtain rest where r: "replace_breaks s = x # rest" "has_prefix q rest" using Cons.prems(1) by (cases "replace_breaks s") (auto simp: has_prefix_def)
  then have n: "strip_one lineBreaks s = None" using x by (cases "strip_one lineBreaks s") (auto dest: replace_breaks_cases(1))
  then obtain cs where cs: "s = x # cs" "rest = replace_breaks cs"
    using r(1) by (cases s) (auto simp: replace_breaks_cases)
  then show ?case using Cons.IH[of cs] r(2) Cons.prems(2) by (simp add: has_prefix_def)
qed

lemma strip_one_Some: "p \<in> set ps \<Longrightarrow> p \<noteq> [] \<Longrightarrow> has_prefix p s \<Longrightarrow> \<exists>t. strip_one ps s = Some t"
  by (induction ps) auto

lemma replace_breaks_free:
  assumes "p \<in> set lineBreaks"
  shows "\<not> has_prefix p (drop i (replace_breaks s))"
proof (induction i arbitrary: s)
  case 0
  show ?case
  proof
    assume "has_prefix p (drop 0 (replace_breaks s))"
    then have pre: "has_prefix p (replace_breaks s)" by simp
    define q where "q = (if p = [CHR 0x0D, CHR 0x0A] then [CHR 0x0D] else p)"
    have q: "q \<in> set lineBreaks" "LF \<notin> set q" "q \<noteq> []" using assms by (auto simp: q_def lineBreaks_def LF_def)
    have "has_prefix q (replace_breaks s)" using pre by (auto simp: q_def has_prefix_iff)
    note this' = replace_breaks_prefix[OF this q(2)]
    obtain t where t: "strip_one lineBreaks s = Some t" using strip_one_Some[OF q(1,3) this'] by blast
    then have "hd (replace_breaks s) = LF" "replace_breaks s \<noteq> []" by (simp_all add: replace_breaks_cases)
    then show False using \<open>has_prefix q (replace_breaks s)\<close> q(2,3) by (cases "replace_breaks s"; cases q) (auto simp: has_prefix_def)
  qed
next
  case (Suc i)
  show ?case
  proof (cases "strip_one lineBreaks s")
    case None
    then show ?thesis using Suc assms by (cases s) (auto simp: replace_breaks_cases has_prefix_def lineBreaks_def)
  next
    case (Some t)
    then show ?thesis using Suc by (simp add: replace_breaks_cases)
  qed
qed

definition entry_lines :: "nat \<times> string \<times> string \<Rightarrow> string list" where
  "entry_lines e = (case e of (i, h, c) \<Rightarrow>
     (''['' @ nat_dec i @ ''] '' @ h) # map (\<lambda>l. ''  '' @ l) (split_lines (replace_breaks c)) @ [[]])"

lemma LF_unprinted: "LF \<notin> set (nat_dec n)" "LF \<noteq> CHR ''[''" "LF \<noteq> CHR '']''" "LF \<noteq> CHR '' ''"
proof -
  have "\<not> is_digit LF" by (simp add: is_digit_def LF_def)
  then show "LF \<notin> set (nat_dec n)" using nat_dec_digits[of n] by (auto simp: list.pred_set simp del: nat_dec.simps)
qed (simp_all add: LF_def)

lemma render_entry_lines:
  assumes "LF \<notin> set h"
  shows "split_lines (render_entry i (h, c) @ rest) = entry_lines (i, h, c) @ split_lines rest"
proof -
  let ?head = "''['' @ nat_dec i @ ''] '' @ h" and ?body = "''  '' @ indent_lines (replace_breaks c)"
  have "render_entry i (h, c) @ rest = ?head @ LF # ?body @ LF # [] @ LF # rest" by (simp add: render_entry_def)
  moreover have "split_lines ?head = [?head]" using assms LF_unprinted by (intro split_lines_free) auto
  ultimately show ?thesis by (simp only: split_lines_append split_lines_indent) (simp add: entry_lines_def)
qed

lemma body_lines:
  assumes "\<forall>(h, c) \<in> set es. LF \<notin> set h"
  shows "split_lines (concat (map (\<lambda>(i, hc). render_entry i hc) (enumerate k es))) = concat (map entry_lines (enumerate k es)) @ [[]]"
  using assms
proof (induction es arbitrary: k)
  case Nil
  then show ?case by simp
next
  case (Cons e es)
  obtain h c where e: "e = (h, c)" by (cases e)
  then show ?case using Cons render_entry_lines[of h k c] by simp
qed



end
