(* ===== verification/Model_State.thy ===== *)
theory Model_State
  imports Llm_Types
begin

text \<open>
  Model settings and the sparse patches that checkpoints store: \<^verbatim>\<open>state/model_state.go\<close>, \<^verbatim>\<open>state/settings_patch.go\<close> and the
  leaf validators of \<^verbatim>\<open>llm/contracts.go\<close>. A \<^verbatim>\<open>float64\<close> is opaque: \<open>floats\<close> holds what the code does with one
  (the finite non-negative check, \<^verbatim>\<open>strconv.FormatFloat\<close> and \<^verbatim>\<open>ParseFloat\<close> with its finiteness check), \<open>marshal\<close> whether
  \<^verbatim>\<open>json.Marshal\<close> of a leaf succeeds, \<open>runes\<close> the number of characters of a valid UTF-8 string. \<^verbatim>\<open>Clone\<close> copies.
\<close>

section \<open>Exact decimals\<close>

definition strip_zeros :: "string \<Rightarrow> string" where
  "strip_zeros s = trim_right CHR ''0'' s"

definition normalizeDecimalV1 :: "string \<Rightarrow> string option" where
  "normalizeDecimalV1 s =
     (if s = [] \<or> has_prefix ''+'' s \<or> has_prefix ''-'' s then None
      else let parts = split_on CHR ''.'' s; whole = parts ! 0
           in if length parts > 2 \<or> whole = [] \<or> length whole > 20 \<or> (length whole > 1 \<and> hd whole = CHR ''0'') then None
              else if \<not> list_all is_digit whole then None
              else if length parts = 2 then
                (let fraction = parts ! 1
                 in if fraction = [] \<or> length fraction > 18 then None
                    else if \<not> list_all is_digit fraction then None
                    else if strip_zeros fraction = [] then Some whole
                    else Some (whole @ ''.'' @ strip_zeros fraction))
              else Some whole)"

definition NewDecimalV1 :: "string \<Rightarrow> string option" where
  "NewDecimalV1 s = normalizeDecimalV1 s"

record floats =
  fl_ok :: "float64 \<Rightarrow> bool"
  fl_format :: "float64 \<Rightarrow> string"
  fl_parse :: "string \<Rightarrow> float64 option"

definition DecimalV1_Float64 :: "floats \<Rightarrow> string \<Rightarrow> float64 option" where
  "DecimalV1_Float64 fl s = Option.bind (normalizeDecimalV1 s) (fl_parse fl)"

definition MaxStopSequencesV1 :: nat where "MaxStopSequencesV1 = 16"
definition MaxStopSequenceLengthV1 :: nat where "MaxStopSequenceLengthV1 = 256"
definition MaxSeedV1 :: int where "MaxSeedV1 = 2 ^ 53 - 1"
definition MaxReasoningTokenBudgetV1 :: int where "MaxReasoningTokenBudgetV1 = 2 ^ 31 - 1"

definition ValidateTopPV1 :: "string \<Rightarrow> bool" where
  "ValidateTopPV1 s = (case NewDecimalV1 s of None \<Rightarrow> False | Some c \<Rightarrow> \<not> (c = ''0'' \<or> (c \<noteq> ''1'' \<and> \<not> has_prefix ''0.'' c)))"

definition ValidateStopSequencesV1 :: "(string \<Rightarrow> nat option) \<Rightarrow> string list \<Rightarrow> bool" where
  "ValidateStopSequencesV1 runes vs \<longleftrightarrow> vs \<noteq> [] \<and> length vs \<le> MaxStopSequencesV1
     \<and> list_all (\<lambda>v. v \<noteq> [] \<and> (case runes v of None \<Rightarrow> False | Some n \<Rightarrow> n \<le> MaxStopSequenceLengthV1)) vs \<and> distinct vs"

definition ValidateSeedV1 :: "int \<Rightarrow> bool" where
  "ValidateSeedV1 n \<longleftrightarrow> 0 \<le> n \<and> n \<le> MaxSeedV1"

definition ValidateReasoningTokenBudgetV1 :: "int \<Rightarrow> bool" where
  "ValidateReasoningTokenBudgetV1 n \<longleftrightarrow> 1 \<le> n \<and> n \<le> MaxReasoningTokenBudgetV1"

definition ValidReasoningModeV1 :: "string \<Rightarrow> bool" where
  "ValidReasoningModeV1 m \<longleftrightarrow> m \<in> set [''provider_default'', ''disabled'', ''adaptive'', ''enabled'']"

definition validReasoningEffort :: "string \<Rightarrow> bool" where
  "validReasoningEffort v \<longleftrightarrow> v \<in> set [''provider_default'', ''minimal'', ''low'', ''medium'', ''high'', ''xhigh'', ''maximum'']"

definition validReasoningSummary :: "string \<Rightarrow> bool" where
  "validReasoningSummary v \<longleftrightarrow> v \<in> set [''provider_default'', ''none'', ''auto'', ''concise'', ''detailed'']"

definition PortabilityStrict :: string where "PortabilityStrict = ''strict''"

definition PortabilityMode_Valid :: "string \<Rightarrow> bool" where
  "PortabilityMode_Valid m \<longleftrightarrow> m = PortabilityStrict \<or> m = PortabilityBestEffort"

section \<open>Settings and patches\<close>

record model_state =
  mo_WebSearch :: bool
  mo_WebFetch :: bool
  mo_CodeExecution :: bool
  mo_Model :: string
  mo_ServiceClass :: service_class
  mo_ServiceClassFallbacks :: "service_class list"
  mo_Portability :: string
  mo_Instructions :: "instruction list"
  mo_Tools :: "tool list"
  mo_ToolPolicy :: tool_policy
  mo_Output :: "output_spec option"
  mo_Temperature :: "float64 option"
  mo_TemperatureDecimal :: "string option"
  mo_TopP :: "string option"
  mo_StopSequences :: "string list"
  mo_Seed :: "int option"
  mo_ReasoningMode :: string
  mo_ReasoningTokenBudget :: "int option"
  mo_ReasoningEffort :: string
  mo_ReasoningSummary :: string
  mo_CompactionPolicy :: string
  mo_Extensions :: "(string, string) gomap"

definition RootModelState :: "string \<Rightarrow> model_state" where
  "RootModelState model = \<lparr>mo_WebSearch = False, mo_WebFetch = False, mo_CodeExecution = False, mo_Model = model,
     mo_ServiceClass = ServiceClassStandard, mo_ServiceClassFallbacks = [], mo_Portability = PortabilityStrict, mo_Instructions = [], mo_Tools = [],
     mo_ToolPolicy = \<lparr>tp_Mode = [], tp_Name = [], tp_Parallel = False\<rparr>, mo_Output = None, mo_Temperature = None, mo_TemperatureDecimal = None,
     mo_TopP = None, mo_StopSequences = [], mo_Seed = None, mo_ReasoningMode = [], mo_ReasoningTokenBudget = None, mo_ReasoningEffort = [],
     mo_ReasoningSummary = [], mo_CompactionPolicy = [], mo_Extensions = []\<rparr>"

record 'a patch =
  pa_Set :: "'a option"
  pa_Clear :: bool

definition Patch_Omitted :: "'a patch \<Rightarrow> bool" where
  "Patch_Omitted p \<longleftrightarrow> pa_Set p = None \<and> \<not> pa_Clear p"

definition Patch_ok :: "'a patch \<Rightarrow> bool" where
  "Patch_ok p \<longleftrightarrow> \<not> (pa_Set p \<noteq> None \<and> pa_Clear p)"

record settings_patch =
  pt_WebSearch :: "bool patch"
  pt_WebFetch :: "bool patch"
  pt_CodeExecution :: "bool patch"
  pt_Model :: "string patch"
  pt_ServiceClass :: "service_class patch"
  pt_ServiceClassFallbacks :: "service_class list patch"
  pt_Portability :: "string patch"
  pt_Instructions :: "instruction list patch"
  pt_Tools :: "tool list patch"
  pt_ToolPolicy :: "tool_policy patch"
  pt_Output :: "output_spec patch"
  pt_Temperature :: "float64 patch"
  pt_TemperatureDecimal :: "string patch"
  pt_TopP :: "string patch"
  pt_StopSequences :: "string list patch"
  pt_Seed :: "int patch"
  pt_ReasoningMode :: "string patch"
  pt_ReasoningTokenBudget :: "int patch"
  pt_ReasoningEffort :: "string patch"
  pt_ReasoningSummary :: "string patch"
  pt_CompactionPolicy :: "string patch"
  pt_Extensions :: "(string, string) gomap patch"

text \<open>The leaves whose JSON encoding a patch validates.\<close>

datatype json_leaf = ToolPolicyLeaf tool_policy | OutputLeaf output_spec | InstructionsLeaf "instruction list" | ToolsLeaf "tool list"

record settings_env =
  se_floats :: floats
  se_marshal :: "json_leaf \<Rightarrow> bool"
  se_runes :: "string \<Rightarrow> nat option"

datatype settings_error = SetAndClear nat | BadTemperature | BadTemperatureDecimal | BadClass llm_error | BadFallbackClass nat | BadPortability
  | BadEffort | BadSummary | BadMode | BadBudget | BadTopP | BadStops | BadSeed | BadLeaf nat | EmptyModel | ModelRequired

definition patch_flags :: "settings_patch \<Rightarrow> bool list" where
  "patch_flags p = [Patch_ok (pt_WebFetch p), Patch_ok (pt_CodeExecution p), Patch_ok (pt_WebSearch p), Patch_ok (pt_Model p), Patch_ok (pt_ServiceClass p),
     Patch_ok (pt_ServiceClassFallbacks p), Patch_ok (pt_Portability p), Patch_ok (pt_Instructions p), Patch_ok (pt_Tools p), Patch_ok (pt_ToolPolicy p),
     Patch_ok (pt_Output p), Patch_ok (pt_Temperature p), Patch_ok (pt_TemperatureDecimal p), Patch_ok (pt_TopP p), Patch_ok (pt_StopSequences p),
     Patch_ok (pt_Seed p), Patch_ok (pt_ReasoningMode p), Patch_ok (pt_ReasoningTokenBudget p), Patch_ok (pt_ReasoningEffort p),
     Patch_ok (pt_ReasoningSummary p), Patch_ok (pt_CompactionPolicy p), Patch_ok (pt_Extensions p)]"

definition checked :: "'a option \<Rightarrow> ('a \<Rightarrow> bool) \<Rightarrow> settings_error \<Rightarrow> settings_error option" where
  "checked x ok e = (case x of None \<Rightarrow> None | Some v \<Rightarrow> if ok v then None else Some e)"

definition fallback_errors :: "service_class list \<Rightarrow> settings_error option" where
  "fallback_errors cs = firstErr (\<lambda>(i, c). case NormalizeServiceClass c of Inl _ \<Rightarrow> Some (BadFallbackClass i) | Inr _ \<Rightarrow> None) (enumerate 0 cs)"

definition SettingsPatch_Validate :: "settings_env \<Rightarrow> settings_patch \<Rightarrow> settings_error option" where
  "SettingsPatch_Validate env p =
     orElse (firstErr (\<lambda>(i, ok). if ok then None else Some (SetAndClear i)) (enumerate 0 (patch_flags p)))
     (orElse (checked (pa_Set (pt_Temperature p)) (fl_ok (se_floats env)) BadTemperature)
     (orElse (checked (pa_Set (pt_TemperatureDecimal p)) (\<lambda>s. case NewDecimalV1 s of None \<Rightarrow> False | Some c \<Rightarrow> DecimalV1_Float64 (se_floats env) c \<noteq> None) BadTemperatureDecimal)
     (orElse (case pa_Set (pt_ServiceClass p) of None \<Rightarrow> None | Some c \<Rightarrow> (case NormalizeServiceClass c of Inl e \<Rightarrow> Some (BadClass e) | Inr _ \<Rightarrow> None))
     (orElse (case pa_Set (pt_ServiceClassFallbacks p) of None \<Rightarrow> None | Some cs \<Rightarrow> fallback_errors cs)
     (orElse (checked (pa_Set (pt_Portability p)) PortabilityMode_Valid BadPortability)
     (orElse (checked (pa_Set (pt_ReasoningEffort p)) validReasoningEffort BadEffort)
     (orElse (checked (pa_Set (pt_ReasoningSummary p)) validReasoningSummary BadSummary)
     (orElse (checked (pa_Set (pt_ReasoningMode p)) ValidReasoningModeV1 BadMode)
     (orElse (checked (pa_Set (pt_ReasoningTokenBudget p)) ValidateReasoningTokenBudgetV1 BadBudget)
     (orElse (checked (pa_Set (pt_TopP p)) ValidateTopPV1 BadTopP)
     (orElse (checked (pa_Set (pt_StopSequences p)) (ValidateStopSequencesV1 (se_runes env)) BadStops)
     (orElse (checked (pa_Set (pt_Seed p)) ValidateSeedV1 BadSeed)
     (orElse (checked (pa_Set (pt_ToolPolicy p)) (\<lambda>v. se_marshal env (ToolPolicyLeaf v)) (BadLeaf 0))
     (orElse (checked (pa_Set (pt_Output p)) (\<lambda>v. se_marshal env (OutputLeaf v)) (BadLeaf 1))
     (orElse (checked (pa_Set (pt_Instructions p)) (\<lambda>v. se_marshal env (InstructionsLeaf v)) (BadLeaf 2))
     (orElse (checked (pa_Set (pt_Tools p)) (\<lambda>v. se_marshal env (ToolsLeaf v)) (BadLeaf 3))
     (checked (pa_Set (pt_Model p)) (\<lambda>m. m \<noteq> []) EmptyModel)))))))))))))))))"

definition ModelState_Validate :: "settings_env \<Rightarrow> model_state \<Rightarrow> settings_error option" where
  "ModelState_Validate env m =
     (if mo_Model m = [] then Some ModelRequired
      else case NormalizeServiceClass (mo_ServiceClass m) of
             Inl e \<Rightarrow> Some (BadClass e)
           | Inr c \<Rightarrow>
               (case ValidateServiceClassFallbacks c (mo_ServiceClassFallbacks m) of
                  Some e \<Rightarrow> Some (BadClass e)
                | None \<Rightarrow>
                    if \<not> PortabilityMode_Valid (mo_Portability m) then Some BadPortability
                    else orElse (checked (mo_Temperature m) (fl_ok (se_floats env)) BadTemperature)
                      (orElse (checked (mo_TemperatureDecimal m) (\<lambda>s. case NewDecimalV1 s of None \<Rightarrow> False | Some c \<Rightarrow> DecimalV1_Float64 (se_floats env) c \<noteq> None) BadTemperatureDecimal)
                      (orElse (checked (mo_TopP m) ValidateTopPV1 BadTopP)
                      (orElse (if mo_StopSequences m = [] \<or> ValidateStopSequencesV1 (se_runes env) (mo_StopSequences m) then None else Some BadStops)
                      (orElse (checked (mo_Seed m) ValidateSeedV1 BadSeed)
                      (orElse (if mo_ReasoningMode m = [] \<or> ValidReasoningModeV1 (mo_ReasoningMode m) then None else Some BadMode)
                      (checked (mo_ReasoningTokenBudget m) ValidateReasoningTokenBudgetV1 BadBudget))))))))"

text \<open>One leaf: set, cleared to its root value, or kept.\<close>

definition leaf :: "'a patch \<Rightarrow> 'a \<Rightarrow> 'a \<Rightarrow> 'a" where
  "leaf p root old = (case pa_Set p of Some v \<Rightarrow> v | None \<Rightarrow> if pa_Clear p then root else old)"

definition opt_leaf :: "'a patch \<Rightarrow> 'a option \<Rightarrow> 'a option" where
  "opt_leaf p old = (case pa_Set p of Some v \<Rightarrow> Some v | None \<Rightarrow> if pa_Clear p then None else old)"

definition temperature_leaf :: "floats \<Rightarrow> settings_patch \<Rightarrow> float64 option \<times> string option \<Rightarrow> settings_error + float64 option \<times> string option" where
  "temperature_leaf fl p old =
     (case pa_Set (pt_TemperatureDecimal p) of
        Some d \<Rightarrow> (case DecimalV1_Float64 fl d of None \<Rightarrow> Inl BadTemperatureDecimal | Some v \<Rightarrow> Inr (Some v, Some d))
      | None \<Rightarrow>
          (case pa_Set (pt_Temperature p) of
             Some v \<Rightarrow> (case NewDecimalV1 (fl_format fl v) of None \<Rightarrow> Inl BadTemperature | Some d \<Rightarrow> Inr (Some v, Some d))
           | None \<Rightarrow> if pa_Clear (pt_Temperature p) \<or> pa_Clear (pt_TemperatureDecimal p) then Inr (None, None) else Inr old))"

definition patched :: "settings_patch \<Rightarrow> float64 option \<times> string option \<Rightarrow> model_state \<Rightarrow> model_state" where
  "patched p temp b =
     (let cls = leaf (pt_ServiceClass p) ServiceClassStandard (mo_ServiceClass b);
          port = leaf (pt_Portability p) PortabilityStrict (mo_Portability b)
      in \<lparr>mo_WebSearch = leaf (pt_WebSearch p) False (mo_WebSearch b), mo_WebFetch = leaf (pt_WebFetch p) False (mo_WebFetch b),
          mo_CodeExecution = leaf (pt_CodeExecution p) False (mo_CodeExecution b), mo_Model = leaf (pt_Model p) [] (mo_Model b),
          mo_ServiceClass = (if cls = [] then ServiceClassStandard else cls),
          mo_ServiceClassFallbacks = leaf (pt_ServiceClassFallbacks p) [] (mo_ServiceClassFallbacks b),
          mo_Portability = (if port = [] then PortabilityStrict else port),
          mo_Instructions = leaf (pt_Instructions p) [] (mo_Instructions b), mo_Tools = leaf (pt_Tools p) [] (mo_Tools b),
          mo_ToolPolicy = leaf (pt_ToolPolicy p) \<lparr>tp_Mode = [], tp_Name = [], tp_Parallel = False\<rparr> (mo_ToolPolicy b),
          mo_Output = opt_leaf (pt_Output p) (mo_Output b), mo_Temperature = fst temp, mo_TemperatureDecimal = snd temp,
          mo_TopP = opt_leaf (pt_TopP p) (mo_TopP b), mo_StopSequences = leaf (pt_StopSequences p) [] (mo_StopSequences b),
          mo_Seed = opt_leaf (pt_Seed p) (mo_Seed b), mo_ReasoningMode = leaf (pt_ReasoningMode p) [] (mo_ReasoningMode b),
          mo_ReasoningTokenBudget = opt_leaf (pt_ReasoningTokenBudget p) (mo_ReasoningTokenBudget b),
          mo_ReasoningEffort = leaf (pt_ReasoningEffort p) [] (mo_ReasoningEffort b),
          mo_ReasoningSummary = leaf (pt_ReasoningSummary p) [] (mo_ReasoningSummary b),
          mo_CompactionPolicy = leaf (pt_CompactionPolicy p) [] (mo_CompactionPolicy b), mo_Extensions = leaf (pt_Extensions p) [] (mo_Extensions b)\<rparr>)"

definition ApplySettingsPatch :: "settings_env \<Rightarrow> model_state \<Rightarrow> settings_patch \<Rightarrow> settings_error + model_state" where
  "ApplySettingsPatch env b p =
     guardE (SettingsPatch_Validate env p)
       (bindE (temperature_leaf (se_floats env) p (mo_Temperature b, mo_TemperatureDecimal b)) (\<lambda>temp.
          let r = patched p temp b in guardE (ModelState_Validate env r) (Inr r)))"

section \<open>Canonical decimals\<close>

text \<open>The number a decimal spelling denotes, scaled to 18 places.\<close>

definition decimal_units :: "string \<Rightarrow> int" where
  "decimal_units s =
     (let parts = split_on CHR ''.'' s; fraction = (if length parts = 2 then parts ! 1 else [])
      in dec_value (parts ! 0 @ fraction @ replicate (18 - length fraction) CHR ''0''))"

lemma digits_no_dot: "list_all is_digit s \<Longrightarrow> CHR ''.'' \<notin> set s"
  by (auto simp: list_all_iff is_digit_def)

lemma split_on_nonempty [simp]: "split_on d s \<noteq> []"
  by (induction s) (auto split: list.splits)

lemma strip_zeros_split:
  obtains n where "s = strip_zeros s @ replicate n CHR ''0''"
proof -
  obtain n where "rev s = replicate n CHR ''0'' @ trim_left CHR ''0'' (rev s)" using trim_left_split by blast
  then have "rev (rev s) = rev (trim_left CHR ''0'' (rev s)) @ replicate n CHR ''0''" by (metis rev_append rev_replicate)
  then show ?thesis using that by (auto simp: strip_zeros_def trim_right_def trim_left_def)
qed

lemma strip_zeros_pad: "f = [] \<or> last f \<noteq> CHR ''0'' \<Longrightarrow> strip_zeros (f @ replicate n CHR ''0'') = f"
proof -
  have "dropWhile (\<lambda>d. d = CHR ''0'') (replicate n CHR ''0'' @ g) = dropWhile (\<lambda>d. d = CHR ''0'') g" for g by (induction n) auto
  then show "f = [] \<or> last f \<noteq> CHR ''0'' \<Longrightarrow> ?thesis"
    by (cases f rule: rev_cases) (auto simp: strip_zeros_def trim_right_def)
qed

lemma strip_zeros_last: "strip_zeros s \<noteq> [] \<Longrightarrow> last (strip_zeros s) \<noteq> CHR ''0''"
  unfolding strip_zeros_def trim_right_def
  by (metis (mono_tags, lifting) hd_dropWhile last_rev rev_is_Nil_conv)

text \<open>A spelling that is accepted: an integer part without leading zeros and an optional fraction.\<close>

definition decimal_parts :: "string \<Rightarrow> string \<Rightarrow> bool" where
  "decimal_parts w f \<longleftrightarrow> w \<noteq> [] \<and> length w \<le> 20 \<and> (length w > 1 \<longrightarrow> hd w \<noteq> CHR ''0'') \<and> list_all is_digit w \<and> length f \<le> 18 \<and> list_all is_digit f"

definition spell :: "string \<Rightarrow> string \<Rightarrow> string" where
  "spell w f = (if f = [] then w else w @ ''.'' @ f)"

lemma split_spell:
  assumes "decimal_parts w f"
  shows "split_on CHR ''.'' (spell w f) = (if f = [] then [w] else [w, f])"
  using assms digits_no_dot[of w] digits_no_dot[of f] by (auto simp: spell_def decimal_parts_def split_on_free split_on_append)

lemma normalize_spell:
  assumes "decimal_parts w f"
  shows "normalizeDecimalV1 (spell w f) = Some (spell w (strip_zeros f))"
proof -
  have "hd w \<noteq> CHR ''+''" "hd w \<noteq> CHR ''-''" using assms by (cases w; auto simp: decimal_parts_def is_digit_def)+
  then have "\<not> has_prefix ''+'' (spell w f)" "\<not> has_prefix ''-'' (spell w f)" "spell w f \<noteq> []"
    using assms by (cases w; auto simp: decimal_parts_def spell_def has_prefix_def)+
  moreover have "strip_zeros [] = []" by code_simp
  ultimately show ?thesis using assms unfolding normalizeDecimalV1_def split_spell[OF assms]
    by (auto simp: decimal_parts_def spell_def Let_def)
qed

lemma join_split: "join_with [d] (split_on d s) = s"
proof (induction s)
  case Nil
  then show ?case by simp
next
  case (Cons c s)
  obtain w ws where "split_on d s = w # ws" using split_on_nonempty[of d s] by (meson list.exhaust)
  then show ?case using Cons by (cases ws) auto
qed

lemma normalize_cases:
  assumes "normalizeDecimalV1 s = Some c"
  obtains w f where "decimal_parts w f" "s = spell w f" "c = spell w (strip_zeros f)"
proof -
  have z: "strip_zeros [] = []" by code_simp
  consider w where "split_on CHR ''.'' s = [w]" | w f where "split_on CHR ''.'' s = [w, f]"
    using assms split_on_nonempty[of "CHR ''.''" s]
    by (cases "split_on CHR ''.'' s"; cases "tl (split_on CHR ''.'' s)"; cases "tl (tl (split_on CHR ''.'' s))")
      (auto simp: normalizeDecimalV1_def Let_def split: if_splits)
  then show ?thesis
  proof cases
    case 1
    have "s = w" using join_split[of "CHR ''.''" s] 1 by simp
    moreover have "decimal_parts w []" "c = w" using assms 1 by (auto simp: normalizeDecimalV1_def decimal_parts_def Let_def split: if_splits)
    ultimately show ?thesis using that[of w "[]"] z by (simp add: spell_def)
  next
    case 2
    have "s = w @ ''.'' @ f" using join_split[of "CHR ''.''" s] 2 by simp
    moreover have "decimal_parts w f" "f \<noteq> []" "c = spell w (strip_zeros f)"
      using assms 2 by (auto simp: normalizeDecimalV1_def decimal_parts_def spell_def Let_def split: if_splits)
    ultimately show ?thesis using that[of w f] by (simp add: spell_def)
  qed
qed

lemma stripped_parts:
  assumes "decimal_parts w f"
  shows "decimal_parts w (strip_zeros f)"
proof -
  obtain n where n: "f = strip_zeros f @ replicate n CHR ''0''" by (rule strip_zeros_split)
  then have "length (strip_zeros f) \<le> length f" by (metis length_append le_add1)
  moreover have "list_all is_digit (strip_zeros f)" using n assms by (metis decimal_parts_def list_all_append)
  ultimately show ?thesis using assms by (auto simp: decimal_parts_def)
qed

lemma digit_val_inj:
  assumes "is_digit c" and "is_digit d" and "digit_val c = digit_val d"
  shows "c = d"
proof -
  have "int (of_char c) = int (of_char d)" using assms(3) by (simp add: digit_val_def of_nat_of_char)
  then show ?thesis by (simp add: of_char_eq_iff)
qed

lemma digit_val_lt: "is_digit c \<Longrightarrow> digit_val c < 10"
proof -
  assume "is_digit c"
  then have "int (of_char c) \<le> 57" by (simp add: is_digit_def)
  then show ?thesis by (simp add: digit_val_def of_nat_of_char)
qed

lemma digits_inj:
  "length s = length t \<Longrightarrow> list_all is_digit s \<Longrightarrow> list_all is_digit t \<Longrightarrow> dec_value s = dec_value t \<Longrightarrow> s = t"
proof (induction s arbitrary: t rule: rev_induct)
  case Nil
  then show ?case by simp
next
  case (snoc c s)
  then obtain d u where t: "t = u @ [d]" by (cases t rule: rev_cases) auto
  have v: "10 * dec_value s + digit_val c = 10 * dec_value u + digit_val d" using snoc.prems(4) t by (simp add: dec_value_snoc)
  have r: "0 \<le> digit_val c" "digit_val c < 10" "0 \<le> digit_val d" "digit_val d < 10"
    using snoc.prems t by (auto intro: digit_val_nonneg digit_val_lt)
  have "digit_val c = digit_val d" "dec_value s = dec_value u" using v r by presburger+
  then show ?case using snoc.IH[of u] snoc.prems t digit_val_inj by auto
qed

definition units_text :: "string \<Rightarrow> string \<Rightarrow> string" where
  "units_text w f = w @ f @ replicate (18 - length f) CHR ''0''"

lemma decimal_units_spell: "decimal_parts w f \<Longrightarrow> decimal_units (spell w f) = dec_value (units_text w f)"
  unfolding decimal_units_def by (simp add: split_spell units_text_def Let_def)

lemma units_strip: "decimal_parts w f \<Longrightarrow> units_text w (strip_zeros f) = units_text w f"
proof -
  assume p: "decimal_parts w f"
  obtain n where n: "f = strip_zeros f @ replicate n CHR ''0''" by (rule strip_zeros_split)
  then have "length f = length (strip_zeros f) + n" by (metis length_append length_replicate)
  then have "replicate (18 - length (strip_zeros f)) CHR ''0'' = replicate n CHR ''0'' @ replicate (18 - length f) CHR ''0''"
    using p by (simp add: replicate_add[symmetric] decimal_parts_def)
  then show ?thesis unfolding units_text_def by (metis append.assoc n)
qed

lemma units_inj:
  assumes "decimal_parts w f" and "decimal_parts w' f'" and "dec_value (units_text w f) = dec_value (units_text w' f')" and "length w \<le> length w'"
  shows "w = w'" and "strip_zeros f = strip_zeros f'"
proof -
  let ?pad = "\<lambda>f. f @ replicate (18 - length f) CHR ''0''" and ?k = "length w' - length w"
  have z: "is_digit CHR ''0''" by (simp add: is_digit_def)
  have len: "length (?pad f) = 18" "length (?pad f') = 18" using assms(1,2) by (simp_all add: decimal_parts_def)
  have "replicate ?k CHR ''0'' @ units_text w f = units_text w' f'"
    by (rule digits_inj) (use assms len z in \<open>auto simp: units_text_def decimal_parts_def list_all_iff\<close>)
  then have eq: "replicate ?k CHR ''0'' @ w = w'" "?pad f = ?pad f'"
    using len append_eq_append_conv[of "replicate ?k CHR ''0'' @ w" w' "?pad f" "?pad f'"] assms(4) by (auto simp: units_text_def)
  have "?k = 0"
  proof (rule ccontr)
    assume "?k \<noteq> 0"
    then have "hd w' = CHR ''0''" "length w' > 1" using eq(1) assms(1) by (cases ?k; auto simp: decimal_parts_def)+
    then show False using assms(2) by (auto simp: decimal_parts_def)
  qed
  then show "w = w'" using eq(1) by simp
  have "strip_zeros (?pad f) = strip_zeros f" for f
  proof -
    obtain n where n: "f = strip_zeros f @ replicate n CHR ''0''" by (rule strip_zeros_split)
    then have "?pad f = strip_zeros f @ replicate (n + (18 - length f)) CHR ''0''" by (metis append.assoc replicate_add)
    then show ?thesis using strip_zeros_pad[of "strip_zeros f"] strip_zeros_last[of f] by metis
  qed
  then show "strip_zeros f = strip_zeros f'" using eq(2) by metis
qed

text \<open>Decimals have one spelling each. The canonical form of an accepted decimal denotes the same number, is accepted and is its own canonical form; two
  accepted decimals have the same canonical form exactly when they denote the same number. So a settings patch or cache
  fingerprint never tells equal decimals apart and never confuses different ones.\<close>

theorem decimal_canonical:
  assumes "NewDecimalV1 s = Some c" and "NewDecimalV1 t = Some d"
  shows "decimal_units c = decimal_units s \<and> NewDecimalV1 c = Some c \<and> (c = d \<longleftrightarrow> decimal_units s = decimal_units t)"
proof -
  obtain w f where s: "decimal_parts w f" "s = spell w f" "c = spell w (strip_zeros f)"
    using normalize_cases[of s c] assms(1) by (auto simp: NewDecimalV1_def)
  obtain w' f' where t: "decimal_parts w' f'" "t = spell w' f'" "d = spell w' (strip_zeros f')"
    using normalize_cases[of t d] assms(2) by (auto simp: NewDecimalV1_def)
  have u: "decimal_units c = decimal_units s" "decimal_units d = decimal_units t"
    using s t stripped_parts by (simp_all add: decimal_units_spell units_strip)
  have "strip_zeros (strip_zeros f) = strip_zeros f" using strip_zeros_pad[of "strip_zeros f" 0] strip_zeros_last[of f] by auto
  then have "NewDecimalV1 c = Some c" using normalize_spell[OF stripped_parts[OF s(1)]] s(3) by (simp add: NewDecimalV1_def)
  moreover have "c = d" if "decimal_units s = decimal_units t"
  proof (cases "length w \<le> length w'")
    case True
    then show ?thesis using units_inj[OF s(1) t(1)] that s t by (simp add: decimal_units_spell)
  next
    case False
    then show ?thesis using units_inj[OF t(1) s(1)] that s t by (simp add: decimal_units_spell)
  qed
  ultimately show ?thesis using u by auto
qed

theorem decimal_canonical_witness:
  "NewDecimalV1 ''0.70'' = Some ''0.7'' \<and> NewDecimalV1 ''0.7'' = Some ''0.7'' \<and> decimal_units ''0.70'' = decimal_units ''0.7''"
proof -
  have "NewDecimalV1 ''0.70'' = Some ''0.7''" "NewDecimalV1 ''0.7'' = Some ''0.7''" by code_simp+
  from this decimal_canonical[OF this] show ?thesis by blast
qed

end
