(* ===== verification/Go_Bytes.thy ===== *)
theory Go_Bytes
  imports GoStrings
begin

text \<open>
  Byte-level functions of Go's standard library that several components use: \<^verbatim>\<open>utf8.Valid\<close> and \<^verbatim>\<open>hex.EncodeToString\<close>, and the two kinds of
  error of the JSON canonicalizer.
\<close>

section \<open>UTF-8\<close>

definition byte_in :: "nat \<Rightarrow> nat \<Rightarrow> char \<Rightarrow> bool" where
  "byte_in lo hi c \<longleftrightarrow> lo \<le> (of_char c :: nat) \<and> (of_char c :: nat) \<le> hi"

text \<open>The well-formed sequences: no overlong form, no surrogate, nothing above U+10FFFF.\<close>

fun utf8_valid :: "string \<Rightarrow> bool" where
  "utf8_valid [] = True"
| "utf8_valid (a # s) =
     (if byte_in 0x00 0x7F a then utf8_valid s
      else case s of
             [] \<Rightarrow> False
           | b # s \<Rightarrow>
               if byte_in 0xC2 0xDF a then byte_in 0x80 0xBF b \<and> utf8_valid s
               else case s of
                      [] \<Rightarrow> False
                    | c # s \<Rightarrow>
                        if byte_in 0xE0 0xEF a then
                          byte_in (if byte_in 0xE0 0xE0 a then 0xA0 else 0x80) (if byte_in 0xED 0xED a then 0x9F else 0xBF) b \<and> byte_in 0x80 0xBF c \<and> utf8_valid s
                        else case s of
                               [] \<Rightarrow> False
                             | d # s \<Rightarrow>
                                 byte_in 0xF0 0xF4 a
                                 \<and> byte_in (if byte_in 0xF0 0xF0 a then 0x90 else 0x80) (if byte_in 0xF4 0xF4 a then 0x8F else 0xBF) b
                                 \<and> byte_in 0x80 0xBF c \<and> byte_in 0x80 0xBF d \<and> utf8_valid s)"

lemma utf8_valid_ascii: "\<forall>c \<in> set s. byte_in 0 0x7F c \<Longrightarrow> utf8_valid s"
  by (induction s) auto

section \<open>Hexadecimal\<close>

definition hex_digit :: "nat \<Rightarrow> char" where
  "hex_digit n = ''0123456789abcdef'' ! n"

definition hex_byte :: "char \<Rightarrow> string" where
  "hex_byte c = [hex_digit (of_char c div 16), hex_digit (of_char c mod 16)]"

definition hex_encode :: "string \<Rightarrow> string" where
  "hex_encode s = concat (map hex_byte s)"

definition is_lower_hex :: "char \<Rightarrow> bool" where
  "is_lower_hex c \<longleftrightarrow> c \<in> set ''0123456789abcdef''"

lemma hex_digit_lower: "n < 16 \<Longrightarrow> is_lower_hex (hex_digit n)"
  unfolding is_lower_hex_def hex_digit_def by (rule nth_mem) simp

lemma hex_digit_inj: "m < 16 \<Longrightarrow> n < 16 \<Longrightarrow> hex_digit m = hex_digit n \<Longrightarrow> m = n"
proof -
  have d: "distinct ''0123456789abcdef''" by simp
  show "m < 16 \<Longrightarrow> n < 16 \<Longrightarrow> hex_digit m = hex_digit n \<Longrightarrow> m = n"
    unfolding hex_digit_def using nth_eq_iff_index_eq[OF d, of m n] by simp
qed

lemma char_div_16 [simp]: "(of_char c :: nat) div 16 < 16" "(of_char c :: nat) mod 16 < 16"
proof -
  have "(of_char c :: nat) < 256" using nat_of_char_less_256[of c] by simp
  then show "(of_char c :: nat) div 16 < 16" by (simp add: div_less_iff_less_mult)
  show "(of_char c :: nat) mod 16 < 16" by simp
qed

lemma hex_byte_inj: "hex_byte c = hex_byte d \<Longrightarrow> c = d"
proof -
  assume "hex_byte c = hex_byte d"
  then have "(of_char c :: nat) div 16 = of_char d div 16" "(of_char c :: nat) mod 16 = of_char d mod 16"
    using hex_digit_inj[OF char_div_16(1)[of c] char_div_16(1)[of d]] hex_digit_inj[OF char_div_16(2)[of c] char_div_16(2)[of d]]
    by (auto simp: hex_byte_def)
  then have "(of_char c :: nat) = of_char d" by (metis div_mult_mod_eq)
  then show "c = d" by (simp add: of_char_eq_iff)
qed

lemma hex_encode_length [simp]: "length (hex_encode s) = 2 * length s"
  by (induction s) (simp_all add: hex_encode_def hex_byte_def)

lemma hex_encode_lower: "list_all is_lower_hex (hex_encode s)"
  by (induction s) (simp_all add: hex_encode_def hex_byte_def hex_digit_lower)

lemma hex_encode_inj: "hex_encode s = hex_encode t \<Longrightarrow> s = t"
proof (induction s arbitrary: t)
  case Nil
  then show ?case by (cases t) (auto simp: hex_encode_def hex_byte_def)
next
  case (Cons c s)
  have "length (hex_encode (c # s)) = length (hex_encode t)" using Cons.prems by simp
  then obtain d u where t: "t = d # u" by (cases t) auto
  have "hex_byte c @ hex_encode s = hex_byte d @ hex_encode u" using Cons.prems t by (simp add: hex_encode_def)
  moreover have "length (hex_byte c) = length (hex_byte d)" by (simp add: hex_byte_def)
  ultimately have "hex_byte c = hex_byte d" "hex_encode s = hex_encode u" by auto
  then show ?case using Cons.IH t hex_byte_inj by blast
qed

section \<open>Canonical JSON errors\<close>

datatype canonical_error = CanonicalLimit | CanonicalBad

section \<open>Evaluation\<close>

text \<open>Code equations on the bits of a character.\<close>

definition ascii :: "char \<Rightarrow> bool" where
  "ascii c \<longleftrightarrow> byte_in 0 0x7F c"

lemma byte_in_ascii [code_unfold]: "byte_in 0 0x7F c \<longleftrightarrow> ascii c"
  by (simp add: ascii_def)

lemma ascii_code [code]: "ascii (Char b0 b1 b2 b3 b4 b5 b6 b7) \<longleftrightarrow> \<not> b7"
  by (cases b7; cases b6; cases b5; cases b4; cases b3; cases b2; cases b1; cases b0) (simp_all add: ascii_def byte_in_def of_char_Char)

definition hex_bits :: "bool \<Rightarrow> bool \<Rightarrow> bool \<Rightarrow> bool \<Rightarrow> char" where
  "hex_bits a b c d =
     (if a then if b then if c then if d then CHR ''f'' else CHR ''e'' else if d then CHR ''d'' else CHR ''c''
                else if c then if d then CHR ''b'' else CHR ''a'' else if d then CHR ''9'' else CHR ''8''
      else if b then if c then if d then CHR ''7'' else CHR ''6'' else if d then CHR ''5'' else CHR ''4''
                else if c then if d then CHR ''3'' else CHR ''2'' else if d then CHR ''1'' else CHR ''0'')"

lemma hex_digit_bits: "hex_digit (of_bool a * 8 + of_bool b * 4 + of_bool c * 2 + of_bool d) = hex_bits a b c d"
  by (cases a; cases b; cases c; cases d) (simp_all add: hex_digit_def hex_bits_def)

lemma hex_byte_code [code]: "hex_byte (Char b0 b1 b2 b3 b4 b5 b6 b7) = [hex_bits b7 b6 b5 b4, hex_bits b3 b2 b1 b0]"
proof -
  define H L :: nat where "H = of_bool b7 * 8 + of_bool b6 * 4 + of_bool b5 * 2 + of_bool b4" and "L = of_bool b3 * 8 + of_bool b2 * 4 + of_bool b1 * 2 + of_bool b0"
  have "(of_char (Char b0 b1 b2 b3 b4 b5 b6 b7) :: nat) = 16 * H + L" by (simp add: of_char_Char H_def L_def)
  moreover have "L < 16" unfolding L_def by (cases b0; cases b1; cases b2; cases b3) simp_all
  ultimately have "hex_byte (Char b0 b1 b2 b3 b4 b5 b6 b7) = [hex_digit H, hex_digit L]" by (simp add: hex_byte_def)
  then show ?thesis unfolding H_def L_def hex_digit_bits .
qed

lemma is_lower_hex_code [code]:
  "is_lower_hex (Char b0 b1 b2 b3 b4 b5 b6 b7) \<longleftrightarrow> \<not> b7 \<and> b5 \<and> (if b6 then \<not> b4 \<and> \<not> b3 \<and> (b0 \<or> b1 \<or> b2) \<and> \<not> (b0 \<and> b1 \<and> b2) else b4 \<and> (b3 \<longrightarrow> \<not> b2 \<and> \<not> b1))"
  by (cases b7; cases b6; cases b5; cases b4; cases b3; cases b2; cases b1; cases b0) (simp_all add: is_lower_hex_def)

end
