(* ===== verification/Checkpoint.thy ===== *)
theory Checkpoint
  imports Model_State Transcript Go_Bytes
begin

text \<open>
  The checkpoint graph, \<^verbatim>\<open>state/checkpoint.go\<close>: immutable nodes that store deltas, snapshots that shorten replay, and the
  materialization of a node's transcript and settings. The environment holds the JSON encoders, the canonicalizer and SHA-256.
  A slice of items keeps its nilness, which its JSON shows. \<open>clk i\<close> is the \<open>i\<close>-th reading of the graph's clock in a call. Calls
  are sequential: a node never changes once published, so that a read section before a write section sees what the write section would.
\<close>

section \<open>Nodes, snapshots, limits\<close>

definition checkpointSchemaVersion :: string where "checkpointSchemaVersion = ''checkpoint/v1''"

record checkpoint_snapshot =
  sn_Items :: "item slice"
  sn_Settings :: model_state
  sn_Depth :: int
  sn_Lineage :: "string list"
  sn_Digest :: string

record checkpoint =
  ck_Handle :: string
  ck_Tenant :: string
  ck_Project :: string
  ck_Parent :: "string option"
  ck_OperationKey :: string
  ck_RequestDigest :: string
  ck_Delta :: "item slice"
  ck_Output :: "item slice"
  ck_SettingsPatch :: settings_patch
  ck_Depth :: int
  ck_ExpiresAt :: gotime
  ck_Snapshot :: "checkpoint_snapshot option"

record materialize_limits =
  ml_MaxDepth :: int
  ml_MaxRows :: int
  ml_MaxItems :: int
  ml_MaxBytes :: int
  ml_SnapshotInterval :: int

definition withDefaults :: "materialize_limits \<Rightarrow> materialize_limits" where
  "withDefaults l = l\<lparr>ml_MaxDepth := (if ml_MaxDepth l \<le> 0 then 256 else ml_MaxDepth l), ml_MaxRows := (if ml_MaxRows l \<le> 0 then 512 else ml_MaxRows l),
     ml_MaxItems := (if ml_MaxItems l \<le> 0 then 4096 else ml_MaxItems l), ml_MaxBytes := (if ml_MaxBytes l \<le> 0 then 16 * 2 ^ 20 else ml_MaxBytes l)\<rparr>"

record materialized_state =
  mt_Handle :: string
  mt_Tenant :: string
  mt_Project :: string
  mt_Depth :: int
  mt_Items :: "item slice"
  mt_Settings :: model_state
  mt_PendingToolCalls :: "string list"
  mt_Lineage :: "string list"

record checkpoint_graph =
  cg_checkpoints :: "(string, checkpoint) gomap"
  cg_operations :: "(string, string) gomap"
  cg_limits :: materialize_limits
  cg_base :: string

record checkpoint_env =
  ce_settings :: settings_env
  ce_encode :: "item \<Rightarrow> string option"
  ce_patch :: "settings_patch \<Rightarrow> string option"
  ce_state :: "model_state \<Rightarrow> string option"
  ce_lineage :: "string list \<Rightarrow> string option"
  ce_canonical :: "int \<Rightarrow> string \<Rightarrow> canonical_error + string"
  ce_sha256 :: "string \<Rightarrow> string"

datatype checkpoint_error = RootHasParent | BaseSnapshotRequired | SnapshotLineage | AlreadyBased | ParentRequired | CheckpointNotFound | CheckpointExpired
  | CheckpointTenant | CheckpointIncomplete | LimitExceeded | SettingsErr settings_error | ItemsErr transcript_error | SnapshotIncomplete
  | SnapshotDigestMismatch | EncodeErr | CanonicalErr | CheckpointConflict | GraphCycle | NoRoot | SnapshotDepthMismatch | RootModelRequired

definition NewCheckpointGraph :: "materialize_limits \<Rightarrow> checkpoint_graph" where
  "NewCheckpointGraph limits = \<lparr>cg_checkpoints = [], cg_operations = [], cg_limits = withDefaults limits, cg_base = []\<rparr>"

section \<open>Digests\<close>

text \<open>\<^verbatim>\<open>writeItemsJSON\<close>: a nil slice is \<^verbatim>\<open>null\<close>.\<close>

fun encode_all :: "(item \<Rightarrow> string option) \<Rightarrow> item list \<Rightarrow> string list option" where
  "encode_all enc [] = Some []"
| "encode_all enc (x # xs) = (case enc x of None \<Rightarrow> None | Some s \<Rightarrow> map_option ((#) s) (encode_all enc xs))"

definition writeItemsJSON :: "(item \<Rightarrow> string option) \<Rightarrow> item slice \<Rightarrow> string option" where
  "writeItemsJSON enc items =
     (case items of
        None \<Rightarrow> Some ''null''
      | Some xs \<Rightarrow> map_option (\<lambda>es. ''['' @ join_with '','' es @ '']'') (encode_all enc xs))"

definition json_field :: "string \<Rightarrow> string \<Rightarrow> string" where
  "json_field name data = CHR 0x22 # name @ [CHR 0x22] @ '':'' @ data"

definition writeDigestJSON :: "checkpoint_env \<Rightarrow> checkpoint_snapshot \<Rightarrow> string option" where
  "writeDigestJSON env s =
     Option.bind (ce_state env (sn_Settings s)) (\<lambda>settings.
     Option.bind (ce_lineage env (sn_Lineage s)) (\<lambda>lineage.
     Option.bind (writeItemsJSON (ce_encode env) (sn_Items s)) (\<lambda>items.
       Some (CHR 0x7B # join_with '','' [json_field ''Schema'' (CHR 0x22 # checkpointSchemaVersion @ [CHR 0x22]), json_field ''Items'' items,
         json_field ''Settings'' settings, json_field ''Depth'' (int_dec (sn_Depth s)), json_field ''Lineage'' lineage] @ [CHR 0x7D]))))"

definition snapshot_digest :: "checkpoint_env \<Rightarrow> checkpoint_snapshot \<Rightarrow> string" where
  "snapshot_digest env s = (case writeDigestJSON env s of None \<Rightarrow> ce_sha256 env [] | Some d \<Rightarrow> ce_sha256 env d)"

definition items_error :: "transcript_error + string list \<Rightarrow> checkpoint_error option" where
  "items_error r = (case r of Inl e \<Rightarrow> Some (ItemsErr e) | Inr _ \<Rightarrow> None)"

definition snapshot_validateContent :: "checkpoint_env \<Rightarrow> checkpoint_snapshot \<Rightarrow> checkpoint_error option" where
  "snapshot_validateContent env s =
     (if sn_Depth s < 0 \<or> mo_Model (sn_Settings s) = [] then Some SnapshotIncomplete
      else orElse (map_option SettingsErr (ModelState_Validate (ce_settings env) (sn_Settings s)))
        (items_error (validateItems (ce_encode env) (elems (sn_Items s)))))"

definition snapshot_validate :: "checkpoint_env \<Rightarrow> checkpoint_snapshot \<Rightarrow> checkpoint_error option" where
  "snapshot_validate env s =
     orElse (snapshot_validateContent env s) (if sn_Digest s \<noteq> snapshot_digest env s then Some SnapshotDigestMismatch else None)"

definition NewCheckpointSnapshot :: "checkpoint_env \<Rightarrow> materialized_state \<Rightarrow> checkpoint_snapshot" where
  "NewCheckpointSnapshot env m =
     (let s = \<lparr>sn_Items = mt_Items m, sn_Settings = mt_Settings m, sn_Depth = mt_Depth m, sn_Lineage = mt_Lineage m, sn_Digest = []\<rparr>
      in s\<lparr>sn_Digest := snapshot_digest env s\<rparr>)"

definition PutUint64 :: "int \<Rightarrow> string" where
  "PutUint64 n = map (\<lambda>i. char_of (n div 256 ^ (7 - i) mod 256)) [0..<8]"

definition writePart :: "string \<Rightarrow> string" where
  "writePart d = PutUint64 (int (length d) mod 2 ^ 64) @ d"

definition canonical_part :: "checkpoint_env \<Rightarrow> int \<Rightarrow> string option \<Rightarrow> checkpoint_error + string" where
  "canonical_part env maxBytes data =
     (case data of
        None \<Rightarrow> Inl EncodeErr
      | Some d \<Rightarrow>
          if int (length d) > maxBytes then Inl LimitExceeded
          else case ce_canonical env maxBytes d of
                 Inl CanonicalLimit \<Rightarrow> Inl LimitExceeded
               | Inl CanonicalBad \<Rightarrow> Inl CanonicalErr
               | Inr c \<Rightarrow> Inr c)"

definition checkpointRequestDigest :: "checkpoint_env \<Rightarrow> int \<Rightarrow> checkpoint \<Rightarrow> checkpoint_error + string" where
  "checkpointRequestDigest env maxBytes c =
     bindE (canonical_part env maxBytes (writeItemsJSON (ce_encode env) (ck_Delta c))) (\<lambda>delta.
     bindE (canonical_part env maxBytes (writeItemsJSON (ce_encode env) (ck_Output c))) (\<lambda>out.
     bindE (canonical_part env maxBytes (ce_patch env (ck_SettingsPatch c))) (\<lambda>settings.
       Inr (ce_sha256 env (concat (map writePart
         [checkpointSchemaVersion, ck_Tenant c, ck_Project c, (case ck_Parent c of None \<Rightarrow> [CHR 0x00] | Some p \<Rightarrow> CHR 0x01 # p),
          ck_OperationKey c, delta, out, settings]))))))"

definition scopedOperationKey :: "string \<Rightarrow> string \<Rightarrow> string \<Rightarrow> string" where
  "scopedOperationKey tenant project operation = concat (map (\<lambda>v. nat_dec (length v) @ '':'' @ v) [tenant, project, operation])"

section \<open>Publishing\<close>

definition expired :: "gotime \<Rightarrow> checkpoint \<Rightarrow> bool" where
  "expired now c \<longleftrightarrow> \<not> IsZero (ck_ExpiresAt c) \<and> \<not> now < ck_ExpiresAt c"

definition wrap32 :: "int \<Rightarrow> int" where
  "wrap32 x = (x + 2 ^ 31) mod 2 ^ 32 - 2 ^ 31"

text \<open>The zero node, which a missing map entry reads as.\<close>

definition zero_patch :: "'a patch" where
  "zero_patch = \<lparr>pa_Set = None, pa_Clear = False\<rparr>"

definition no_patch :: settings_patch where
  "no_patch = \<lparr>pt_WebSearch = zero_patch, pt_WebFetch = zero_patch, pt_CodeExecution = zero_patch, pt_Model = zero_patch, pt_ServiceClass = zero_patch,
     pt_ServiceClassFallbacks = zero_patch, pt_Portability = zero_patch, pt_Instructions = zero_patch, pt_Tools = zero_patch, pt_ToolPolicy = zero_patch,
     pt_Output = zero_patch, pt_Temperature = zero_patch, pt_TemperatureDecimal = zero_patch, pt_TopP = zero_patch, pt_StopSequences = zero_patch,
     pt_Seed = zero_patch, pt_ReasoningMode = zero_patch, pt_ReasoningTokenBudget = zero_patch, pt_ReasoningEffort = zero_patch,
     pt_ReasoningSummary = zero_patch, pt_CompactionPolicy = zero_patch, pt_Extensions = zero_patch\<rparr>"

definition zero_checkpoint :: checkpoint where
  "zero_checkpoint = \<lparr>ck_Handle = [], ck_Tenant = [], ck_Project = [], ck_Parent = None, ck_OperationKey = [], ck_RequestDigest = replicate 32 NUL,
     ck_Delta = None, ck_Output = None, ck_SettingsPatch = no_patch, ck_Depth = 0, ck_ExpiresAt = zero_time, ck_Snapshot = None\<rparr>"

text \<open>What \<open>put\<close> checks before it takes the lock: the node with its digest.\<close>

definition prepared :: "checkpoint_env \<Rightarrow> checkpoint_graph \<Rightarrow> checkpoint \<Rightarrow> checkpoint_error + checkpoint" where
  "prepared env g c =
     (if ck_Handle c = [] \<or> ck_Tenant c = [] \<or> ck_OperationKey c = [] then Inl CheckpointIncomplete
      else if ck_Depth c < 0 \<or> ck_Depth c > ml_MaxDepth (cg_limits g) then Inl LimitExceeded
      else guardE (map_option SettingsErr (SettingsPatch_Validate (ce_settings env) (ck_SettingsPatch c)))
        (guardE (map_option ItemsErr (validateItemEncoding (ce_encode env) (elems (ck_Delta c) @ elems (ck_Output c))))
          (guardE (case ck_Snapshot c of None \<Rightarrow> None | Some s \<Rightarrow> snapshot_validate env s)
            (bindE (checkpointRequestDigest env (ml_MaxBytes (cg_limits g)) c) (\<lambda>d. Inr (c\<lparr>ck_RequestDigest := d\<rparr>))))))"

definition ck_put :: "checkpoint_env \<Rightarrow> (nat \<Rightarrow> gotime) \<Rightarrow> checkpoint \<Rightarrow> checkpoint_graph \<Rightarrow> checkpoint_graph \<times> checkpoint_error option" where
  "ck_put env clk c g =
     (case prepared env g c of
        Inl e \<Rightarrow> (g, Some e)
      | Inr v \<Rightarrow>
          (case mget (cg_checkpoints g) (ck_Handle v) of
             Some existing \<Rightarrow> if ck_RequestDigest existing = ck_RequestDigest v then (g, None) else (g, Some CheckpointConflict)
           | None \<Rightarrow>
               let k = scopedOperationKey (ck_Tenant v) (ck_Project v) (ck_OperationKey v)
               in case mget (cg_operations g) k of
                    Some previous \<Rightarrow>
                      (let existing = mgetd zero_checkpoint (cg_checkpoints g) previous
                       in if expired (clk 1) existing then (g, Some CheckpointExpired)
                          else if previous = ck_Handle v \<and> ck_RequestDigest existing = ck_RequestDigest v then (g, None)
                          else (g, Some CheckpointConflict))
                  | None \<Rightarrow>
                      (g\<lparr>cg_checkpoints := mput (ck_Handle v) v (cg_checkpoints g), cg_operations := mput k (ck_Handle v) (cg_operations g)\<rparr>, None)))"

definition PutRoot :: "checkpoint_env \<Rightarrow> (nat \<Rightarrow> gotime) \<Rightarrow> checkpoint \<Rightarrow> checkpoint_graph \<Rightarrow> checkpoint_graph \<times> checkpoint_error option" where
  "PutRoot env clk c g = (if ck_Parent c \<noteq> None then (g, Some RootHasParent) else ck_put env clk (c\<lparr>ck_Depth := 0\<rparr>) g)"

definition putBase :: "checkpoint_env \<Rightarrow> (nat \<Rightarrow> gotime) \<Rightarrow> checkpoint \<Rightarrow> checkpoint_graph \<Rightarrow> checkpoint_graph \<times> checkpoint_error option" where
  "putBase env clk c g =
     (case ck_Snapshot c of
        None \<Rightarrow> (g, Some BaseSnapshotRequired)
      | Some s \<Rightarrow>
          if ck_Depth c < 0 \<or> sn_Depth s \<noteq> ck_Depth c \<or> int (length (sn_Lineage s)) \<noteq> ck_Depth c + 1 \<or> last (sn_Lineage s) \<noteq> ck_Handle c
          then (g, Some SnapshotLineage)
          else if cg_base g \<noteq> [] \<and> cg_base g \<noteq> ck_Handle c then (g, Some AlreadyBased)
          else ck_put env clk (c\<lparr>ck_Parent := None\<rparr>) (g\<lparr>cg_base := ck_Handle c\<rparr>))"

definition inherit_scope :: "checkpoint \<Rightarrow> checkpoint \<Rightarrow> checkpoint" where
  "inherit_scope c parent =
     c\<lparr>ck_Tenant := (if ck_Tenant c = [] then ck_Tenant parent else ck_Tenant c), ck_Project := (if ck_Project c = [] then ck_Project parent else ck_Project c)\<rparr>"

definition putChild_ck :: "checkpoint_env \<Rightarrow> (nat \<Rightarrow> gotime) \<Rightarrow> checkpoint \<Rightarrow> bool \<Rightarrow> checkpoint_graph \<Rightarrow> checkpoint_graph \<times> checkpoint_error option" where
  "putChild_ck env clk c retained g =
     (case ck_Parent c of
        None \<Rightarrow> (g, Some ParentRequired)
      | Some p \<Rightarrow>
          if p = [] then (g, Some ParentRequired)
          else case mget (cg_checkpoints g) p of
                 None \<Rightarrow> (g, Some CheckpointNotFound)
               | Some parent \<Rightarrow>
                   if \<not> retained \<and> mget (cg_checkpoints g) (ck_Handle c) = None \<and> expired (clk 0) parent then (g, Some CheckpointExpired)
                   else let c' = inherit_scope c parent
                        in if ck_Tenant c' \<noteq> ck_Tenant parent \<or> ck_Project c' \<noteq> ck_Project parent then (g, Some CheckpointTenant)
                           else ck_put env clk (c'\<lparr>ck_Depth := wrap32 (ck_Depth parent + 1)\<rparr>) g)"

definition PutChild_ck :: "checkpoint_env \<Rightarrow> (nat \<Rightarrow> gotime) \<Rightarrow> checkpoint \<Rightarrow> checkpoint_graph \<Rightarrow> checkpoint_graph \<times> checkpoint_error option" where
  "PutChild_ck env clk c g = putChild_ck env clk c False g"

definition putRetainedChild :: "checkpoint_env \<Rightarrow> (nat \<Rightarrow> gotime) \<Rightarrow> checkpoint \<Rightarrow> checkpoint_graph \<Rightarrow> checkpoint_graph \<times> checkpoint_error option" where
  "putRetainedChild env clk c g = putChild_ck env clk c True g"

definition Get_ck :: "string \<Rightarrow> checkpoint_graph \<Rightarrow> checkpoint_error + checkpoint" where
  "Get_ck h g = (case mget (cg_checkpoints g) h of None \<Rightarrow> Inl CheckpointNotFound | Some c \<Rightarrow> Inr c)"

section \<open>Materializing\<close>

text \<open>The walk from the requested node to its root: the path, leaf first, and the handles seen.\<close>

function walk :: "checkpoint_graph \<Rightarrow> string \<Rightarrow> gotime \<Rightarrow> string list \<Rightarrow> checkpoint list \<Rightarrow> string \<Rightarrow> checkpoint_error + checkpoint list \<times> string list" where
  "walk g tenant now seen path current =
     (if current = [] then Inr (path, seen)
      else if current \<in> set seen then Inl GraphCycle
      else case mget (cg_checkpoints g) current of
             None \<Rightarrow> Inl CheckpointNotFound
           | Some c \<Rightarrow>
               if ck_Tenant c \<noteq> tenant then Inl CheckpointTenant
               else if path = [] \<and> expired now c then Inl CheckpointExpired
               else let path' = path @ [c]
                    in if int (length path') - 1 > ml_MaxDepth (cg_limits g) \<or> int (length path') > ml_MaxRows (cg_limits g) then Inl LimitExceeded
                       else case ck_Parent c of
                              None \<Rightarrow> Inr (path', current # seen)
                            | Some p \<Rightarrow> walk g tenant now (current # seen) path' p)"
  by pat_completeness auto
termination
proof (relation "measure (\<lambda>(g, tenant, now, seen, path, current). length (filter (\<lambda>h. h \<notin> set seen) (map fst (cg_checkpoints g))))", goal_cases)
  case 1
  then show ?case by simp
next
  case (2 g tenant now seen path current c path' p)
  have "current \<in> set (map fst (cg_checkpoints g))" using 2(3) by (metis map_of_eq_None_iff option.distinct(1) set_map)
  then show ?case using filter_shrinks[of current "map fst (cg_checkpoints g)" "\<lambda>h. h \<notin> set seen"] 2(2) by simp
qed

declare walk.simps [simp del]

text \<open>The limits of a materialized transcript.\<close>

definition canonicalItemsWithLimit :: "checkpoint_env \<Rightarrow> int \<Rightarrow> item slice \<Rightarrow> checkpoint_error + string" where
  "canonicalItemsWithLimit env maxBytes items =
     (case writeItemsJSON (ce_encode env) items of
        None \<Rightarrow> Inl EncodeErr
      | Some d \<Rightarrow>
          (case ce_canonical env maxBytes d of
             Inl CanonicalLimit \<Rightarrow> Inl LimitExceeded
           | Inl CanonicalBad \<Rightarrow> Inl CanonicalErr
           | Inr c \<Rightarrow> Inr c))"

definition validateMaterializedLimits :: "checkpoint_env \<Rightarrow> materialize_limits \<Rightarrow> item slice \<Rightarrow> checkpoint_error option" where
  "validateMaterializedLimits env l items =
     (if int (length (elems items)) > ml_MaxItems l then Some LimitExceeded
      else case canonicalItemsWithLimit env (ml_MaxBytes l) items of
             Inl e \<Rightarrow> Some e
           | Inr b \<Rightarrow> if int (length b) > ml_MaxBytes l then Some LimitExceeded else None)"

text \<open>The replay state: items, settings and depth so far.\<close>

type_synonym replay = "item slice \<times> model_state \<times> int"

text \<open>The newest snapshot on the path is the replay base; \<open>prefix\<close> is the lineage in front of the path.\<close>

definition snapshot_base :: "checkpoint_env \<Rightarrow> materialize_limits \<Rightarrow> string list \<Rightarrow> checkpoint list \<Rightarrow> checkpoint \<Rightarrow> checkpoint_snapshot \<Rightarrow> checkpoint_error + replay" where
  "snapshot_base env l prefix older c s =
     guardE (snapshot_validate env s)
       (if sn_Depth s \<noteq> ck_Depth c then Inl SnapshotDepthMismatch
        else if sn_Lineage s \<noteq> prefix @ rev (map ck_Handle (c # older)) then Inl SnapshotLineage
        else if sn_Depth s < 0 \<or> sn_Depth s > ml_MaxDepth l then Inl LimitExceeded
        else guardE (validateMaterializedLimits env l (sn_Items s)) (Inr (sn_Items s, sn_Settings s, sn_Depth s)))"

fun find_base :: "checkpoint_env \<Rightarrow> materialize_limits \<Rightarrow> string list \<Rightarrow> checkpoint list \<Rightarrow> checkpoint_error + replay \<times> checkpoint list" where
  "find_base env l prefix [] = Inr ((None, RootModelState [], 0), [])"
| "find_base env l prefix (c # older) =
     (case ck_Snapshot c of
        Some s \<Rightarrow> bindE (snapshot_base env l prefix older c s) (\<lambda>b. Inr (b, []))
      | None \<Rightarrow> bindE (find_base env l prefix older) (\<lambda>(b, todo). Inr (b, todo @ [c])))"

definition capacity_step :: "materialize_limits \<Rightarrow> int \<Rightarrow> checkpoint \<Rightarrow> checkpoint_error + int" where
  "capacity_step l cap c =
     (let n = int (length (elems (ck_Delta c)) + length (elems (ck_Output c)))
      in if n > ml_MaxItems l - cap then Inl LimitExceeded else Inr (cap + n))"

definition append_items :: "item slice \<Rightarrow> item list \<Rightarrow> item slice" where
  "append_items items new = (if new = [] then items else Some (elems items @ new))"

definition replay_step :: "checkpoint_env \<Rightarrow> replay \<Rightarrow> checkpoint \<Rightarrow> checkpoint_error + replay" where
  "replay_step env r c =
     (case r of (items, settings, depth) \<Rightarrow>
      case ApplySettingsPatch (ce_settings env) settings (ck_SettingsPatch c) of
        Inl e \<Rightarrow> Inl (SettingsErr e)
      | Inr settings' \<Rightarrow> Inr (append_items items (elems (ck_Delta c) @ elems (ck_Output c)), settings', ck_Depth c))"

text \<open>What follows the walk: \<open>path\<close> leaf first, \<open>prefix\<close> the handles in front of it.\<close>

definition replay_path :: "checkpoint_env \<Rightarrow> materialize_limits \<Rightarrow> string \<Rightarrow> string \<Rightarrow> string list \<Rightarrow> checkpoint list \<Rightarrow> checkpoint_error + materialized_state" where
  "replay_path env l tenant handle prefix path =
     bindE (find_base env l prefix path) (\<lambda>(base, todo).
     bindE (foldE (capacity_step l) (int (length (elems (fst base)))) todo) (\<lambda>_.
     bindE (foldE (replay_step env) base todo) (\<lambda>(items, settings, depth).
       guardE (validateMaterializedLimits env l items)
         (if mo_Model settings = [] then Inl RootModelRequired
          else case validateItems (ce_encode env) (elems items) of
                 Inl e \<Rightarrow> Inl (ItemsErr e)
               | Inr pending \<Rightarrow>
                   Inr \<lparr>mt_Handle = handle, mt_Tenant = tenant, mt_Project = ck_Project (hd path), mt_Depth = depth, mt_Items = items, mt_Settings = settings,
                        mt_PendingToolCalls = pending, mt_Lineage = prefix @ rev (map ck_Handle path)\<rparr>))))"

text \<open>The handles that a base stands for, which must not be walked again.\<close>

definition base_prefix :: "checkpoint_graph \<Rightarrow> string list \<Rightarrow> checkpoint list \<Rightarrow> checkpoint_error + string list" where
  "base_prefix g seen path =
     (let root = last path
      in case ck_Snapshot root of
           None \<Rightarrow> Inr []
         | Some s \<Rightarrow>
             if cg_base g \<noteq> [] \<and> ck_Handle root = cg_base g \<and> sn_Lineage s \<noteq> [] then
               (let prefix = butlast (sn_Lineage s)
                in if int (length prefix + length path) > ml_MaxRows (cg_limits g) then Inl LimitExceeded
                   else if \<not> distinct prefix \<or> (\<exists>h \<in> set prefix. h \<in> set seen) then Inl GraphCycle
                   else Inr prefix)
             else Inr [])"

definition Materialize :: "checkpoint_env \<Rightarrow> gotime \<Rightarrow> string \<Rightarrow> string \<Rightarrow> checkpoint_graph \<Rightarrow> checkpoint_error + materialized_state" where
  "Materialize env now tenant handle g =
     (if handle = [] then Inl CheckpointNotFound
      else bindE (walk g tenant now [] [] handle) (\<lambda>(path, seen).
        if path = [] \<or> ck_Parent (last path) \<noteq> None then Inl NoRoot
        else bindE (base_prefix g seen path) (\<lambda>prefix. replay_path env (cg_limits g) tenant handle prefix path)))"

end
