(* ===== verification/Checkpoint_Facts.thy ===== *)
theory Checkpoint_Facts
  imports Checkpoint
begin

text \<open>
  What the checkpoint graph guarantees: snapshots that were taken from materialized nodes never change what materialization
  returns, every published node reaches its root, and operation keys are idempotent within their scope only.
\<close>

section \<open>Snapshots are transparent\<close>

definition erase :: "checkpoint \<Rightarrow> checkpoint" where
  "erase c = c\<lparr>ck_Snapshot := None\<rparr>"

lemma erase_simps [simp]:
  "ck_Snapshot (erase c) = None" "ck_Handle (erase c) = ck_Handle c" "ck_Tenant (erase c) = ck_Tenant c" "ck_Project (erase c) = ck_Project c"
  "ck_Parent (erase c) = ck_Parent c" "ck_Delta (erase c) = ck_Delta c" "ck_Output (erase c) = ck_Output c" "ck_SettingsPatch (erase c) = ck_SettingsPatch c"
  "ck_Depth (erase c) = ck_Depth c" "ck_ExpiresAt (erase c) = ck_ExpiresAt c"
  by (simp_all add: erase_def)

lemma replay_step_erase [simp]: "replay_step env r (erase c) = replay_step env r c"
  unfolding replay_step_def erase_simps ..

lemma capacity_step_erase [simp]: "capacity_step l n (erase c) = capacity_step l n c"
  by (simp add: capacity_step_def)

lemma foldE_erase: "foldE (replay_step env) r (map erase cs) = foldE (replay_step env) r cs" "foldE (capacity_step l) n (map erase cs) = foldE (capacity_step l) n cs"
  by (induction cs arbitrary: r n) (simp_all split: sum.splits)

lemma find_base_erased: "find_base env l prefix (map erase path) = Inr ((None, RootModelState [], 0), map erase (rev path))"
  by (induction path) simp_all

lemma lineage_erase [simp]: "map ck_Handle (map erase path) = map ck_Handle path"
  by simp

lemma find_base_newer:
  "\<forall>c \<in> set newer. ck_Snapshot c = None \<Longrightarrow>
   find_base env l prefix (newer @ older) = bindE (find_base env l prefix older) (\<lambda>(b, todo). Inr (b, todo @ rev newer))"
proof (induction newer)
  case Nil
  then show ?case by (cases "find_base env l prefix older") auto
next
  case (Cons c newer)
  then show ?case by (cases "find_base env l prefix older") auto
qed

text \<open>The number of items is what the capacity check computed.\<close>

lemma capacity_replay:
  assumes "foldE (capacity_step l) (int (length (elems (fst b)))) cs = Inr n" and "foldE (replay_step env) b cs = Inr b'"
  shows "n = int (length (elems (fst b')))"
  using assms
proof (induction cs arbitrary: b)
  case Nil
  then show ?case by simp
next
  case (Cons c cs)
  obtain items settings depth where b: "b = (items, settings, depth)" by (cases b)
  obtain b1 where b1: "replay_step env b c = Inr b1" "foldE (replay_step env) b1 cs = Inr b'" using Cons.prems(2) by (auto split: sum.splits)
  have l: "int (length (elems (fst b1))) = int (length (elems (fst b))) + int (length (elems (ck_Delta c)) + length (elems (ck_Output c)))"
    using b1(1) b by (auto simp: replay_step_def append_items_def split: sum.splits)
  obtain k where k: "capacity_step l (int (length (elems (fst b)))) c = Inr k" "foldE (capacity_step l) k cs = Inr n"
    using Cons.prems(1) by (auto split: sum.splits)
  then have "foldE (capacity_step l) (int (length (elems (fst b1)))) cs = Inr n"
    using l by (auto simp: capacity_step_def[of l _ c] Let_def split: if_splits)
  then show ?case using Cons.IH b1(2) by blast
qed

lemma replay_valid:
  assumes "foldE (replay_step env) b (cs @ [c]) = Inr (items, settings, depth)"
  shows "ModelState_Validate (ce_settings env) settings = None" and "depth = ck_Depth c"
  using assms by (auto simp: foldE_append bindE_eq_Inr_iff replay_step_def ApplySettingsPatch_def Let_def split: sum.splits)

text \<open>A snapshot taken from a materialized node is accepted as that node's replay base, with the state the replay reaches.\<close>

lemma truthful_base:
  assumes "replay_path env l tenant h prefix (map erase (c # older)) = Inr m" and "0 \<le> ck_Depth c" and "ck_Depth c \<le> ml_MaxDepth l"
  shows "foldE (capacity_step l) 0 (rev (c # older)) = Inr (int (length (elems (mt_Items m))))"
    and "foldE (replay_step env) (None, RootModelState [], 0) (rev (c # older)) = Inr (mt_Items m, mt_Settings m, mt_Depth m)"
    and "snapshot_base env l prefix older c (NewCheckpointSnapshot env m) = Inr (mt_Items m, mt_Settings m, mt_Depth m)"
proof -
  let ?b = "(None, RootModelState [], 0)"
  define P where "P = c # older"
  obtain n items settings depth where f: "foldE (capacity_step l) 0 (rev P) = Inr n" "foldE (replay_step env) ?b (rev P) = Inr (items, settings, depth)"
    "validateMaterializedLimits env l items = None" "mo_Model settings \<noteq> []"
    and v: "\<exists>pending. validateItems (ce_encode env) (elems items) = Inr pending"
    and m: "mt_Items m = items" "mt_Settings m = settings" "mt_Depth m = depth" "mt_Lineage m = prefix @ rev (map ck_Handle P)"
    using assms(1) unfolding P_def[symmetric] replay_path_def find_base_erased lineage_erase
    by (auto simp: bindE_eq_Inr_iff foldE_erase split: if_splits sum.splits)
  note f = f[unfolded P_def] and m = m[unfolded P_def]
  show "foldE (capacity_step l) 0 (rev (c # older)) = Inr (int (length (elems (mt_Items m))))"
    using f(1,2) capacity_replay[of l ?b "rev (c # older)" n env "(items, settings, depth)"] m(1) by simp
  show "foldE (replay_step env) ?b (rev (c # older)) = Inr (mt_Items m, mt_Settings m, mt_Depth m)" using f(2) m by simp
  note r = replay_valid[of env ?b "rev older" c items settings depth]
  have "ModelState_Validate (ce_settings env) settings = None" "depth = ck_Depth c" using r f(2) by simp_all
  then show "snapshot_base env l prefix older c (NewCheckpointSnapshot env m) = Inr (mt_Items m, mt_Settings m, mt_Depth m)"
    using f v m assms(2,3)
    by (auto simp: snapshot_base_def snapshot_validate_def snapshot_validateContent_def NewCheckpointSnapshot_def Let_def snapshot_digest_def writeDigestJSON_def
        items_error_def)
qed

lemma erase_id: "ck_Snapshot c = None \<Longrightarrow> erase c = c"
  by (simp add: erase_def)

definition truthful :: "checkpoint_env \<Rightarrow> materialize_limits \<Rightarrow> string \<Rightarrow> string list \<Rightarrow> checkpoint list \<Rightarrow> bool" where
  "truthful env l tenant prefix path \<longleftrightarrow> (\<forall>newer c older s. path = newer @ c # older \<longrightarrow> ck_Snapshot c = Some s \<longrightarrow>
     (\<exists>m. replay_path env l tenant (ck_Handle c) prefix (map erase (c # older)) = Inr m \<and> s = NewCheckpointSnapshot env m))"

lemma replay_path_transparent:
  assumes "truthful env l tenant prefix path" and "\<forall>c \<in> set path. 0 \<le> ck_Depth c \<and> ck_Depth c \<le> ml_MaxDepth l"
  shows "replay_path env l tenant h prefix path = replay_path env l tenant h prefix (map erase path)"
proof (cases "\<exists>c \<in> set path. ck_Snapshot c \<noteq> None")
  case False
  then have "map erase path = path" by (simp add: erase_id map_idI)
  then show ?thesis by (simp only:)
next
  case True
  then obtain newer c older where p: "path = newer @ c # older" "ck_Snapshot c \<noteq> None" "\<forall>d \<in> set newer. ck_Snapshot d = None"
    using split_list_first_prop[of path "\<lambda>c. ck_Snapshot c \<noteq> None"] by blast
  then obtain s m where m: "ck_Snapshot c = Some s" "replay_path env l tenant (ck_Handle c) prefix (map erase (c # older)) = Inr m" "s = NewCheckpointSnapshot env m"
    using assms(1) unfolding truthful_def by blast
  have d: "0 \<le> ck_Depth c" "ck_Depth c \<le> ml_MaxDepth l" using assms(2) p(1) by auto
  note t = truthful_base[OF m(2) d]
  have base: "find_base env l prefix path = Inr ((mt_Items m, mt_Settings m, mt_Depth m), rev newer)"
    unfolding p(1) find_base_newer[OF p(3)] using m(1,3) t(3) by simp
  have todo: "rev path = rev (c # older) @ rev newer" using p(1) by simp
  have cap: "foldE (capacity_step l) 0 (rev path) = foldE (capacity_step l) (int (length (elems (mt_Items m)))) (rev newer)"
    unfolding todo foldE_append t(1) by simp
  have rep: "foldE (replay_step env) (None, RootModelState [], 0) (rev path) = foldE (replay_step env) (mt_Items m, mt_Settings m, mt_Depth m) (rev newer)"
    unfolding todo foldE_append t(2) by simp
  have hd: "ck_Project (hd (map erase path)) = ck_Project (hd path)" using p(1) by (cases newer) auto
  show ?thesis unfolding replay_path_def find_base_erased base lineage_erase hd using cap rep by (simp add: foldE_erase)
qed

section \<open>Walking the graph\<close>

fun chain :: "checkpoint_graph \<Rightarrow> string \<Rightarrow> checkpoint list \<Rightarrow> bool" where
  "chain g h [] = False"
| "chain g h (c # rest) \<longleftrightarrow> mget (cg_checkpoints g) h = Some c \<and> (case ck_Parent c of None \<Rightarrow> rest = [] | Some q \<Rightarrow> q \<noteq> [] \<and> chain g q rest)"

lemma chain_unique: "chain g h p \<Longrightarrow> chain g h q \<Longrightarrow> p = q"
proof (induction p arbitrary: h q)
  case Nil
  then show ?case by simp
next
  case (Cons c rest)
  obtain rest' where q: "q = c # rest'" using Cons.prems by (cases q) auto
  then show ?case using Cons by (auto split: option.splits)
qed

definition handles_ok :: "checkpoint_graph \<Rightarrow> bool" where
  "handles_ok g \<longleftrightarrow> (\<forall>k c. mget (cg_checkpoints g) k = Some c \<longrightarrow> ck_Handle c = k)"

lemma chain_suffix: "handles_ok g \<Longrightarrow> chain g h (newer @ c # older) \<Longrightarrow> chain g (ck_Handle c) (c # older)"
proof (induction newer arbitrary: h)
  case Nil
  then show ?case by (auto simp: handles_ok_def)
next
  case (Cons d newer)
  then show ?case by (cases "ck_Parent d") auto
qed

lemma walk_chain:
  "walk g t now seen path cur = Inr (path', seen') \<Longrightarrow> path' \<noteq> [] \<Longrightarrow> ck_Parent (last path') = None \<Longrightarrow> path = [] \<or> ck_Parent (last path) \<noteq> None \<Longrightarrow>
   \<exists>p. path' = path @ p \<and> chain g cur p \<and> (\<forall>c \<in> set p. ck_Tenant c = t)"
proof (induction g t now seen path cur arbitrary: path' seen' rule: walk.induct)
  case (1 g t now seen path cur)
  show ?case
  proof (cases "cur = []")
    case True
    then show ?thesis using 1(2-) by (simp add: walk.simps)
  next
    case False
    then obtain c where c: "mget (cg_checkpoints g) cur = Some c" "cur \<notin> set seen" "ck_Tenant c = t" "\<not> (path = [] \<and> expired now c)"
      "\<not> (int (length (path @ [c])) - 1 > ml_MaxDepth (cg_limits g) \<or> int (length (path @ [c])) > ml_MaxRows (cg_limits g))"
      using 1(2) by (subst (asm) walk.simps) (auto simp: Let_def split: if_splits option.splits)
    show ?thesis
    proof (cases "ck_Parent c")
      case None
      then have "path' = path @ [c]" using 1(2) False c by (subst (asm) walk.simps) (auto simp: Let_def)
      then show ?thesis using c None by auto
    next
      case (Some q)
      have w: "walk g t now (cur # seen) (path @ [c]) q = Inr (path', seen')"
        using 1(2) False c Some by (subst (asm) walk.simps) (auto simp: Let_def)
      have "\<exists>p. path' = (path @ [c]) @ p \<and> chain g q p \<and> (\<forall>c \<in> set p. ck_Tenant c = t)"
        by (rule 1(1)[OF False c(2,1) _ c(4) refl c(5) Some w 1(3,4)]) (use c(3) Some in auto)
      then obtain p where p: "path' = path @ c # p" "chain g q p" "\<forall>c \<in> set p. ck_Tenant c = t" by auto
      have "q \<noteq> []"
      proof
        assume "q = []"
        then have "path' = path @ [c]" using w by (subst (asm) walk.simps) simp
        then show False using 1(4) Some by simp
      qed
      then show ?thesis using p c Some by auto
    qed
  qed
qed

definition erase_graph :: "checkpoint_graph \<Rightarrow> checkpoint_graph" where
  "erase_graph g = g\<lparr>cg_checkpoints := map (\<lambda>(k, c). (k, erase c)) (cg_checkpoints g)\<rparr>"

lemma mget_erase: "mget (cg_checkpoints (erase_graph g)) h = map_option erase (mget (cg_checkpoints g) h)"
  by (simp add: erase_graph_def map_of_map)

lemma erase_graph_simps [simp]: "cg_limits (erase_graph g) = cg_limits g" "cg_base (erase_graph g) = cg_base g"
  by (simp_all add: erase_graph_def)

lemma walk_erase:
  "walk (erase_graph g) t now seen (map erase path) cur =
   (case walk g t now seen path cur of Inl e \<Rightarrow> Inl e | Inr (p, sn) \<Rightarrow> Inr (map erase p, sn))"
proof (induction g t now seen path cur rule: walk.induct)
  case (1 g t now seen path cur)
  show ?case
  proof (cases "cur = [] \<or> cur \<in> set seen \<or> mget (cg_checkpoints g) cur = None")
    case True
    then show ?thesis by (subst (1 2) walk.simps) (auto simp: mget_erase)
  next
    case False
    then obtain c where c: "cur \<noteq> []" "cur \<notin> set seen" "mget (cg_checkpoints g) cur = Some c" by auto
    show ?thesis
    proof (cases "ck_Tenant c \<noteq> t \<or> (path = [] \<and> expired now c)
        \<or> int (length (path @ [c])) - 1 > ml_MaxDepth (cg_limits g) \<or> int (length (path @ [c])) > ml_MaxRows (cg_limits g) \<or> ck_Parent c = None")
      case True
      then show ?thesis using c by (subst (1 2) walk.simps) (auto simp: mget_erase expired_def Let_def)
    next
      case False
      then obtain q where q: "ck_Parent c = Some q" by auto
      have "walk (erase_graph g) t now (cur # seen) (map erase (path @ [c])) q =
        (case walk g t now (cur # seen) (path @ [c]) q of Inl e \<Rightarrow> Inl e | Inr (p, sn) \<Rightarrow> Inr (map erase p, sn))"
        by (rule 1(1)[OF c _ _ refl _ q]) (use False in auto)
      moreover have "walk g t now seen path cur = walk g t now (cur # seen) (path @ [c]) q"
        using c False q by (subst walk.simps) (auto simp: Let_def)
      moreover have "walk (erase_graph g) t now seen (map erase path) cur = walk (erase_graph g) t now (cur # seen) (map erase (path @ [c])) q"
        using c False q by (subst walk.simps) (auto simp: Let_def mget_erase expired_def)
      ultimately show ?thesis by simp
    qed
  qed
qed

section \<open>Reachable graphs\<close>

inductive ck_step :: "checkpoint_env \<Rightarrow> checkpoint_graph \<Rightarrow> checkpoint_graph \<Rightarrow> bool" for env where
  root: "ck_step env g (fst (PutRoot env clk c g))"
| child: "ck_step env g (fst (PutChild_ck env clk c g))"
| retained: "ck_step env g (fst (putRetainedChild env clk c g))"

definition node_ok :: "checkpoint_graph \<Rightarrow> checkpoint \<Rightarrow> bool" where
  "node_ok g c \<longleftrightarrow> ck_Handle c \<noteq> [] \<and> ck_Tenant c \<noteq> [] \<and> 0 \<le> ck_Depth c \<and> ck_Depth c \<le> ml_MaxDepth (cg_limits g)
     \<and> mget (cg_operations g) (scopedOperationKey (ck_Tenant c) (ck_Project c) (ck_OperationKey c)) = Some (ck_Handle c)
     \<and> (case ck_Parent c of
          None \<Rightarrow> ck_Depth c = 0
        | Some p \<Rightarrow> p \<noteq> [] \<and> (\<exists>d. mget (cg_checkpoints g) p = Some d \<and> ck_Tenant d = ck_Tenant c \<and> ck_Project d = ck_Project c \<and> ck_Depth c = ck_Depth d + 1))"

definition graph_ok :: "checkpoint_graph \<Rightarrow> bool" where
  "graph_ok g \<longleftrightarrow> cg_base g = [] \<and> 0 < ml_MaxDepth (cg_limits g) \<and> ml_MaxDepth (cg_limits g) < 2 ^ 31
     \<and> (\<forall>k c. mget (cg_checkpoints g) k = Some c \<longrightarrow> ck_Handle c = k \<and> node_ok g c)
     \<and> (\<forall>o' k. mget (cg_operations g) o' = Some k \<longrightarrow>
          (\<exists>c. mget (cg_checkpoints g) k = Some c \<and> o' = scopedOperationKey (ck_Tenant c) (ck_Project c) (ck_OperationKey c)))"

definition limits_ok :: "materialize_limits \<Rightarrow> bool" where
  "limits_ok l \<longleftrightarrow> ml_MaxDepth l < 2 ^ 31"

lemma new_graph_ok: "limits_ok l \<Longrightarrow> graph_ok (NewCheckpointGraph l)"
  by (auto simp: graph_ok_def NewCheckpointGraph_def withDefaults_def limits_ok_def)

lemma prepared_Inr:
  "prepared env g c = Inr v \<Longrightarrow> ck_Handle c \<noteq> [] \<and> ck_Tenant c \<noteq> [] \<and> 0 \<le> ck_Depth c \<and> ck_Depth c \<le> ml_MaxDepth (cg_limits g) \<and> (\<exists>d. v = c\<lparr>ck_RequestDigest := d\<rparr>)"
  by (auto simp: prepared_def bindE_eq_Inr_iff split: if_splits)

text \<open>A publication either leaves the graph as it is or adds one new node and its operation key.\<close>

lemma ck_put_cases:
  obtains (same) "fst (ck_put env clk c g) = g"
  | (added) v where "prepared env g c = Inr v" "mget (cg_checkpoints g) (ck_Handle c) = None"
      "mget (cg_operations g) (scopedOperationKey (ck_Tenant c) (ck_Project c) (ck_OperationKey c)) = None"
      "ck_put env clk c g = (g\<lparr>cg_checkpoints := mput (ck_Handle c) v (cg_checkpoints g),
         cg_operations := mput (scopedOperationKey (ck_Tenant c) (ck_Project c) (ck_OperationKey c)) (ck_Handle c) (cg_operations g)\<rparr>, None)"
proof (cases "prepared env g c")
  case (Inl e)
  then show ?thesis using same by (simp add: ck_put_def)
next
  case (Inr v)
  then have v: "ck_Handle v = ck_Handle c" "ck_Tenant v = ck_Tenant c" "ck_Project v = ck_Project c" "ck_OperationKey v = ck_OperationKey c"
    using prepared_Inr[OF Inr] by auto
  show ?thesis using same added Inr v by (fastforce simp: ck_put_def Let_def split: option.splits if_splits)
qed

lemma wrap32_succ:
  assumes "0 \<le> d" and "d < 2 ^ 31" and "0 \<le> wrap32 (d + 1)"
  shows "wrap32 (d + 1) = d + 1"
proof (cases "d = 2 ^ 31 - 1")
  case True
  then show ?thesis using assms(3) by (simp add: wrap32_def)
next
  case False
  then have "(d + 1 + 2 ^ 31) mod 2 ^ 32 = d + 1 + 2 ^ 31" using assms(1,2) by (intro mod_pos_pos_trivial) auto
  then show ?thesis by (simp add: wrap32_def)
qed

definition graph_extends :: "checkpoint_graph \<Rightarrow> checkpoint_graph \<Rightarrow> bool" where
  "graph_extends g g' \<longleftrightarrow> cg_limits g' = cg_limits g \<and> (\<forall>k c. mget (cg_checkpoints g) k = Some c \<longrightarrow> mget (cg_checkpoints g') k = Some c)
     \<and> (\<forall>o' k. mget (cg_operations g) o' = Some k \<longrightarrow> mget (cg_operations g') o' = Some k)"

lemma node_ok_mono: "node_ok g d \<Longrightarrow> graph_extends g g' \<Longrightarrow> node_ok g' d"
  by (cases "ck_Parent d") (auto simp: node_ok_def graph_extends_def)

lemma ck_put_ok:
  assumes "graph_ok g" and "case ck_Parent c of None \<Rightarrow> ck_Depth c = 0
     | Some p \<Rightarrow> p \<noteq> [] \<and> (\<exists>d. mget (cg_checkpoints g) p = Some d \<and> ck_Tenant d = ck_Tenant c \<and> ck_Project d = ck_Project c \<and> ck_Depth c = wrap32 (ck_Depth d + 1))"
  shows "graph_ok (fst (ck_put env clk c g))"
proof (cases rule: ck_put_cases[of env clk c g])
  case same
  then show ?thesis using assms(1) by simp
next
  case (added v)
  note p = prepared_Inr[OF added(1)]
  have depth: "ck_Depth c = ck_Depth d + 1" if "mget (cg_checkpoints g) q = Some d" "ck_Depth c = wrap32 (ck_Depth d + 1)" for q d
  proof -
    have "0 \<le> ck_Depth d" "ck_Depth d < 2 ^ 31" using assms(1) that(1) by (force simp: graph_ok_def node_ok_def)+
    then show ?thesis using that(2) p wrap32_succ by auto
  qed
  let ?k = "scopedOperationKey (ck_Tenant c) (ck_Project c) (ck_OperationKey c)"
  define g' where "g' = g\<lparr>cg_checkpoints := mput (ck_Handle c) v (cg_checkpoints g), cg_operations := mput ?k (ck_Handle c) (cg_operations g)\<rparr>"
  have ext: "graph_extends g g'" using added(2,3) by (auto simp: graph_extends_def g'_def)
  have v: "ck_Handle v = ck_Handle c" "ck_Tenant v = ck_Tenant c" "ck_Project v = ck_Project c" "ck_OperationKey v = ck_OperationKey c"
    "ck_Depth v = ck_Depth c" "ck_Parent v = ck_Parent c" using p by auto
  have "node_ok g' v"
  proof (cases "ck_Parent c")
    case None
    then show ?thesis using p v assms(2) by (simp add: node_ok_def g'_def)
  next
    case (Some q)
    then obtain d where d: "q \<noteq> []" "mget (cg_checkpoints g) q = Some d" "ck_Tenant d = ck_Tenant c" "ck_Project d = ck_Project c" "ck_Depth c = ck_Depth d + 1"
      using assms(2) depth by auto
    have "mget (cg_checkpoints g') q = Some d" using ext d(2) by (simp add: graph_extends_def)
    then show ?thesis using p v d Some by (simp add: node_ok_def) (simp add: g'_def)
  qed
  moreover have "node_ok g' d" if "mget (cg_checkpoints g) k = Some d" for k d
    using that assms(1) node_ok_mono[OF _ ext] by (simp add: graph_ok_def)
  moreover have "ck_Handle d = k" if "mget (cg_checkpoints g) k = Some d" for k d using that assms(1) by (simp add: graph_ok_def)
  ultimately have nodes: "ck_Handle d = k \<and> node_ok g' d" if "mget (cg_checkpoints g') k = Some d" for k d
    using that v(1) by (auto simp: g'_def split: if_splits)
  have ops: "\<exists>d. mget (cg_checkpoints g') k = Some d \<and> o' = scopedOperationKey (ck_Tenant d) (ck_Project d) (ck_OperationKey d)"
    if "mget (cg_operations g') o' = Some k" for o' k
  proof (cases "o' = ?k")
    case True
    then show ?thesis using that v by (auto simp: g'_def)
  next
    case False
    then have "mget (cg_operations g) o' = Some k" using that by (simp add: g'_def)
    then show ?thesis using assms(1) ext unfolding graph_ok_def graph_extends_def by blast
  qed
  have "cg_base g' = []" "0 < ml_MaxDepth (cg_limits g')" "ml_MaxDepth (cg_limits g') < 2 ^ 31" using assms(1) by (simp_all add: graph_ok_def g'_def)
  then have "graph_ok g'" using nodes ops unfolding graph_ok_def by blast
  then show ?thesis by (simp add: added(4) g'_def)
qed

lemma putChild_ok:
  assumes "graph_ok g"
  shows "graph_ok (fst (putChild_ck env clk c retained g))"
proof (cases "\<exists>p parent. ck_Parent c = Some p \<and> p \<noteq> [] \<and> mget (cg_checkpoints g) p = Some parent")
  case False
  then show ?thesis using assms by (auto simp: putChild_ck_def split: option.splits)
next
  case True
  then obtain p parent where p: "ck_Parent c = Some p" "p \<noteq> []" "mget (cg_checkpoints g) p = Some parent" by blast
  let ?c = "inherit_scope c parent"
  have "graph_ok (fst (ck_put env clk (?c\<lparr>ck_Depth := wrap32 (ck_Depth parent + 1)\<rparr>) g))"
    if "ck_Tenant ?c = ck_Tenant parent" "ck_Project ?c = ck_Project parent"
    by (rule ck_put_ok[OF assms]) (use that p in \<open>auto simp: inherit_scope_def\<close>)
  then show ?thesis using p assms by (auto simp: putChild_ck_def Let_def)
qed

lemma ck_step_ok: "ck_step env g g' \<Longrightarrow> graph_ok g \<Longrightarrow> graph_ok g'"
proof (induction rule: ck_step.induct)
  case (root g clk c)
  then show ?case using ck_put_ok[of g "c\<lparr>ck_Depth := 0\<rparr>"] by (auto simp: PutRoot_def)
next
  case (child g clk c)
  then show ?case by (simp add: PutChild_ck_def putChild_ok)
next
  case (retained g clk c)
  then show ?case by (simp add: putRetainedChild_def putChild_ok)
qed

lemma reach_ok:
  assumes "limits_ok l" and "(ck_step env)\<^sup>*\<^sup>* (NewCheckpointGraph l) g"
  shows "graph_ok g"
  using assms(2) new_graph_ok[OF assms(1)] by (induction rule: rtranclp_induct) (auto intro: ck_step_ok)

section \<open>Every lineage ends in its root\<close>

lemma walk_reaches:
  assumes "graph_ok g" and "mget (cg_checkpoints g) cur = Some c" and "ck_Tenant c = t" and "path \<noteq> [] \<or> \<not> expired now c"
    and "\<forall>h \<in> set seen. \<exists>d. mget (cg_checkpoints g) h = Some d \<and> ck_Depth c < ck_Depth d"
    and "int (length path) + ck_Depth c \<le> ml_MaxDepth (cg_limits g)" and "int (length path) + ck_Depth c + 1 \<le> ml_MaxRows (cg_limits g)"
  shows "\<exists>p sn. walk g t now seen path cur = Inr (path @ p, sn) \<and> p \<noteq> [] \<and> hd p = c \<and> ck_Parent (last p) = None
     \<and> map ck_Depth p = rev (map int [0..<Suc (nat (ck_Depth c))])"
  using assms
proof (induction "nat (ck_Depth c)" arbitrary: c cur path seen)
  case 0
  note n = "0.prems"(1)[unfolded graph_ok_def] and c = "0.prems"(2)
  have ok: "node_ok g c" "ck_Handle c = cur" using n c by auto
  have "ck_Depth c = 0" using 0(1) ok(1) by (simp add: node_ok_def)
  moreover have root: "ck_Parent c = None"
  proof (rule ccontr)
    assume "ck_Parent c \<noteq> None"
    then obtain q d where d: "mget (cg_checkpoints g) q = Some d" "ck_Depth c = ck_Depth d + 1" using ok(1) by (auto simp: node_ok_def split: option.splits)
    have "node_ok g d" using n d(1) by blast
    then show False using d(2) \<open>ck_Depth c = 0\<close> by (simp add: node_ok_def)
  qed
  moreover have "cur \<notin> set seen" "cur \<noteq> []" using "0.prems"(5) c ok by (auto simp: node_ok_def)
  ultimately have "walk g t now seen path cur = Inr (path @ [c], cur # seen)"
    using "0.prems" by (subst walk.simps) (auto simp: Let_def)
  then show ?case using root \<open>ck_Depth c = 0\<close> by auto
next
  case (Suc n)
  note g = "Suc.prems"(1)[unfolded graph_ok_def] and c = "Suc.prems"(2)
  have ok: "node_ok g c" "ck_Handle c = cur" using g c by auto
  have dc: "ck_Depth c = int (Suc n)" using Suc(2) ok(1) by (simp add: node_ok_def)
  obtain q d where q: "ck_Parent c = Some q" "q \<noteq> []" and d: "mget (cg_checkpoints g) q = Some d" "ck_Tenant d = t" "ck_Depth c = ck_Depth d + 1"
    using ok(1) dc Suc.prems(3) by (auto simp: node_ok_def split: option.splits)
  have cur: "cur \<notin> set seen" "cur \<noteq> []" using Suc.prems(5) c ok by (auto simp: node_ok_def)
  have e: "walk g t now seen path cur = walk g t now (cur # seen) (path @ [c]) q"
    using Suc.prems cur q dc by (subst walk.simps) (auto simp: Let_def)
  have "\<exists>p sn. walk g t now (cur # seen) (path @ [c]) q = Inr ((path @ [c]) @ p, sn) \<and> p \<noteq> [] \<and> hd p = d \<and> ck_Parent (last p) = None
     \<and> map ck_Depth p = rev (map int [0..<Suc (nat (ck_Depth d))])"
  proof (rule Suc.hyps(1)[OF _ Suc.prems(1) d(1,2)])
    show "n = nat (ck_Depth d)" using d(3) dc by simp
    show "\<forall>h \<in> set (cur # seen). \<exists>e. mget (cg_checkpoints g) h = Some e \<and> ck_Depth d < ck_Depth e"
      using Suc.prems(5) c d(3) by force
  qed (use Suc.prems d(3) in auto)
  then obtain p sn where p: "walk g t now (cur # seen) (path @ [c]) q = Inr ((path @ [c]) @ p, sn)" "p \<noteq> []" "ck_Parent (last p) = None"
    "map ck_Depth p = rev (map int [0..<Suc (nat (ck_Depth d))])" by blast
  define k where "k = nat (ck_Depth d)"
  have n: "nat (ck_Depth c) = Suc k" "ck_Depth c = int (Suc k)" using d(3) dc by (simp_all add: k_def)
  have "map ck_Depth (c # p) = rev (map int [0..<Suc (nat (ck_Depth c))])" unfolding n(1) using p(4)[folded k_def] n(2) by simp
  then show ?case using e p(1-3) by (intro exI[of _ "c # p"] exI[of _ sn]) simp
qed

section \<open>A concrete graph\<close>

definition demo_env :: checkpoint_env where
  "demo_env = \<lparr>ce_settings = \<lparr>se_floats = \<lparr>fl_ok = (\<lambda>_. True), fl_format = (\<lambda>_. ''1''), fl_parse = (\<lambda>_. None)\<rparr>, se_marshal = (\<lambda>_. True), se_runes = (\<lambda>s. Some (length s))\<rparr>,
     ce_encode = (\<lambda>_. Some ''{}''), ce_patch = (\<lambda>p. Some (case pa_Set (pt_Model p) of None \<Rightarrow> ''{}'' | Some m \<Rightarrow> m)),
     ce_state = (\<lambda>m. Some (mo_Model m)), ce_lineage = (\<lambda>l. Some (join_with '','' l)), ce_canonical = (\<lambda>_ d. Inr d), ce_sha256 = rev\<rparr>"

definition demo_limits :: materialize_limits where
  "demo_limits = \<lparr>ml_MaxDepth = 4, ml_MaxRows = 8, ml_MaxItems = 8, ml_MaxBytes = 64, ml_SnapshotInterval = 0\<rparr>"

definition demo_origin :: checkpoint where
  "demo_origin = zero_checkpoint\<lparr>ck_Handle := ''r'', ck_Tenant := ''t'', ck_OperationKey := ''1'', ck_Delta := Some [Message ActorHuman []],
     ck_SettingsPatch := no_patch\<lparr>pt_Model := \<lparr>pa_Set = Some ''m'', pa_Clear = False\<rparr>\<rparr>\<rparr>"

definition demo_turn :: checkpoint where
  "demo_turn = zero_checkpoint\<lparr>ck_Handle := ''c'', ck_Parent := Some ''r'', ck_OperationKey := ''2'', ck_Output := Some [Message ActorHuman []]\<rparr>"

definition demo_start :: checkpoint_graph where
  "demo_start = fst (PutRoot demo_env (\<lambda>_. 5) demo_origin (NewCheckpointGraph demo_limits))"

definition demo_snapshot :: "checkpoint_snapshot option" where
  "demo_snapshot = (case Materialize demo_env 5 ''t'' ''c'' (fst (PutChild_ck demo_env (\<lambda>_. 5) demo_turn demo_start)) of
     Inl _ \<Rightarrow> None | Inr m \<Rightarrow> Some (NewCheckpointSnapshot demo_env m))"

definition demo_graph :: checkpoint_graph where
  "demo_graph = fst (PutChild_ck demo_env (\<lambda>_. 5) (demo_turn\<lparr>ck_Snapshot := demo_snapshot\<rparr>) demo_start)"

lemma demo_reachable: "limits_ok demo_limits" "(ck_step demo_env)\<^sup>*\<^sup>* (NewCheckpointGraph demo_limits) demo_start" "(ck_step demo_env)\<^sup>*\<^sup>* (NewCheckpointGraph demo_limits) demo_graph"
proof -
  show "limits_ok demo_limits" by code_simp
  have 1: "ck_step demo_env (NewCheckpointGraph demo_limits) demo_start" unfolding demo_start_def by (rule ck_step.root)
  have 2: "ck_step demo_env demo_start demo_graph" unfolding demo_graph_def by (rule ck_step.child)
  show "(ck_step demo_env)\<^sup>*\<^sup>* (NewCheckpointGraph demo_limits) demo_start" "(ck_step demo_env)\<^sup>*\<^sup>* (NewCheckpointGraph demo_limits) demo_graph"
    using 1 2 by auto
qed

definition honest_snapshots :: "checkpoint_env \<Rightarrow> gotime \<Rightarrow> checkpoint_graph \<Rightarrow> bool" where
  "honest_snapshots env t g \<longleftrightarrow> list_all (\<lambda>(k, c). case ck_Snapshot c of None \<Rightarrow> True | Some s \<Rightarrow>
     (case Materialize env t (ck_Tenant c) k (erase_graph g) of Inl _ \<Rightarrow> False | Inr m \<Rightarrow> s = NewCheckpointSnapshot env m)) (cg_checkpoints g)"

lemma honest_snapshots_all:
  assumes "honest_snapshots env t g"
  shows "\<forall>k c s. mget (cg_checkpoints g) k = Some c \<longrightarrow> ck_Snapshot c = Some s \<longrightarrow>
    (\<exists>t m. Materialize env t (ck_Tenant c) k (erase_graph g) = Inr m \<and> s = NewCheckpointSnapshot env m)"
proof (intro allI impI)
  fix k c s assume "mget (cg_checkpoints g) k = Some c" and s: "ck_Snapshot c = Some s"
  then have "(k, c) \<in> set (cg_checkpoints g)" by (simp add: map_of_SomeD)
  then have "case Materialize env t (ck_Tenant c) k (erase_graph g) of Inl _ \<Rightarrow> False | Inr m \<Rightarrow> s = NewCheckpointSnapshot env m"
    using assms s unfolding honest_snapshots_def list_all_iff by force
  then show "\<exists>t m. Materialize env t (ck_Tenant c) k (erase_graph g) = Inr m \<and> s = NewCheckpointSnapshot env m"
    by (auto split: sum.splits)
qed



section \<open>Materialization does not depend on snapshots\<close>

lemma chain_members: "chain g h p \<Longrightarrow> \<forall>c \<in> set p. \<exists>k. mget (cg_checkpoints g) k = Some c"
  by (induction p arbitrary: h) (auto split: option.splits)

lemma Materialize_path:
  assumes "Materialize env now t h g = Inr m" and "cg_base g = []"
  shows "\<exists>p. chain g h p \<and> replay_path env (cg_limits g) t h [] p = Inr m"
proof -
  obtain path seen prefix where w: "walk g t now [] [] h = Inr (path, seen)" "path \<noteq> []" "ck_Parent (last path) = None"
    "base_prefix g seen path = Inr prefix" "replay_path env (cg_limits g) t h prefix path = Inr m"
    using assms(1) by (auto simp: Materialize_def bindE_eq_Inr_iff split: if_splits)
  have "prefix = []" using w(4) assms(2) by (auto simp: base_prefix_def Let_def split: option.splits)
  then show ?thesis using walk_chain[OF w(1,2,3)] w(5) by auto
qed

lemma chain_erase: "chain (erase_graph g) h p \<Longrightarrow> \<exists>q. chain g h q \<and> p = map erase q"
proof (induction p arbitrary: h)
  case Nil
  then show ?case by simp
next
  case (Cons c rest)
  obtain d where d: "mget (cg_checkpoints g) h = Some d" "c = erase d" using Cons.prems by (auto simp: mget_erase)
  show ?case
  proof (cases "ck_Parent d")
    case None
    then show ?thesis using Cons.prems d by (intro exI[of _ "[d]"]) auto
  next
    case (Some q)
    then obtain r where "chain g q r" "rest = map erase r" using Cons d by auto
    then show ?thesis using Cons.prems d Some by (intro exI[of _ "d # r"]) auto
  qed
qed



section \<open>Publication is idempotent and scoped\<close>

lemma length_prefix_inj:
  assumes "nat_dec m @ '':'' @ s = nat_dec n @ '':'' @ t"
  shows "m = n" and "s = t"
proof -
  have free: "CHR '':'' \<notin> set (nat_dec k)" for k
  proof -
    have "\<not> is_digit CHR '':''" by (simp add: is_digit_def)
    then show ?thesis using nat_dec_digits[of k] by (auto simp: list_all_iff)
  qed
  have "split_on CHR '':'' (nat_dec m @ CHR '':'' # s) = split_on CHR '':'' (nat_dec n @ CHR '':'' # t)" using assms by simp
  then have eq: "nat_dec m = nat_dec n" by (simp add: split_on_append[OF free])
  show "m = n" using arg_cong[OF eq, of dec_value] by simp
  show "s = t" using assms unfolding eq by simp
qed

lemma scopedOperationKey_inj:
  assumes "scopedOperationKey t p o' = scopedOperationKey t' p' o''"
  shows "t = t'" and "p = p'" and "o' = o''"
proof -
  have *: "v = w \<and> s = u" if "nat_dec (length v) @ '':'' @ v @ s = nat_dec (length w) @ '':'' @ w @ u" for v w s u :: string
    using length_prefix_inj[OF that] by auto
  have e: "nat_dec (length t) @ '':'' @ t @ nat_dec (length p) @ '':'' @ p @ nat_dec (length o') @ '':'' @ o' @ []
    = nat_dec (length t') @ '':'' @ t' @ nat_dec (length p') @ '':'' @ p' @ nat_dec (length o'') @ '':'' @ o'' @ []"
    using assms by (simp add: scopedOperationKey_def)
  from *[OF e] have 1: "t = t'" and e2: "nat_dec (length p) @ '':'' @ p @ nat_dec (length o') @ '':'' @ o' @ [] = nat_dec (length p') @ '':'' @ p' @ nat_dec (length o'') @ '':'' @ o'' @ []"
    by blast+
  from *[OF e2] have 2: "p = p'" and e3: "nat_dec (length o') @ '':'' @ o' @ [] = nat_dec (length o'') @ '':'' @ o'' @ []" by blast+
  show "t = t'" "p = p'" "o' = o''" using 1 2 *[OF e3] by blast+
qed

text \<open>Operation keys are unique within their scope and only there. In every graph built by publications, the operation index maps the key of a tenant, a
  project and an operation to a node exactly when that node was published by that tenant and project under that operation: no
  choice of names makes the operations of two scopes collide.\<close>

theorem operation_keys_scoped:
  assumes "limits_ok l" and "(ck_step env)\<^sup>*\<^sup>* (NewCheckpointGraph l) g"
  shows "mget (cg_operations g) (scopedOperationKey t p o') = Some h \<longleftrightarrow>
    (\<exists>c. mget (cg_checkpoints g) h = Some c \<and> ck_Tenant c = t \<and> ck_Project c = p \<and> ck_OperationKey c = o')"
proof -
  have ok: "graph_ok g" by (rule reach_ok[OF assms])
  show ?thesis
  proof
    assume "mget (cg_operations g) (scopedOperationKey t p o') = Some h"
    then obtain c where "mget (cg_checkpoints g) h = Some c" "scopedOperationKey t p o' = scopedOperationKey (ck_Tenant c) (ck_Project c) (ck_OperationKey c)"
      using ok unfolding graph_ok_def by blast
    then show "\<exists>c. mget (cg_checkpoints g) h = Some c \<and> ck_Tenant c = t \<and> ck_Project c = p \<and> ck_OperationKey c = o'"
      using scopedOperationKey_inj by metis
  next
    assume "\<exists>c. mget (cg_checkpoints g) h = Some c \<and> ck_Tenant c = t \<and> ck_Project c = p \<and> ck_OperationKey c = o'"
    then obtain c where c: "mget (cg_checkpoints g) h = Some c" "ck_Tenant c = t" "ck_Project c = p" "ck_OperationKey c = o'" by blast
    then have "ck_Handle c = h" "node_ok g c" using ok by (auto simp: graph_ok_def)
    then show "mget (cg_operations g) (scopedOperationKey t p o') = Some h" using c by (simp add: node_ok_def)
  qed
qed

theorem operation_keys_scoped_witness:
  "\<exists>c. mget (cg_checkpoints demo_graph) ''c'' = Some c \<and> ck_Tenant c = ''t'' \<and> ck_Project c = [] \<and> ck_OperationKey c = ''2''"
proof -
  have "mget (cg_operations demo_graph) (scopedOperationKey ''t'' [] ''2'') = Some ''c''" by code_simp
  then show ?thesis using operation_keys_scoped[OF demo_reachable(1,3)] by blast
qed

lemma graph_extends_refl: "graph_extends g g"
  by (simp add: graph_extends_def)

lemma graph_extends_trans: "graph_extends g g' \<Longrightarrow> graph_extends g' g'' \<Longrightarrow> graph_extends g g''"
  by (simp add: graph_extends_def)

lemma ck_put_extends: "graph_extends g (fst (ck_put env clk c g))"
  by (cases rule: ck_put_cases[of env clk c g]) (auto simp: graph_extends_def)

lemma putChild_extends: "graph_extends g (fst (putChild_ck env clk c retained g))"
  using ck_put_extends graph_extends_refl by (auto simp: putChild_ck_def Let_def split: option.splits)

lemma run_extends: "(ck_step env)\<^sup>*\<^sup>* g g' \<Longrightarrow> graph_extends g g'"
proof (induction rule: rtranclp_induct)
  case base
  then show ?case by (rule graph_extends_refl)
next
  case (step y z)
  have "graph_extends y z" using step.hyps(2)
    by cases (auto simp: PutRoot_def PutChild_ck_def putRetainedChild_def intro: ck_put_extends putChild_extends graph_extends_refl)
  then show ?case using step.IH graph_extends_trans by blast
qed

lemma prepared_limits: "cg_limits g' = cg_limits g \<Longrightarrow> prepared env g' c = prepared env g c"
  by (simp add: prepared_def)

lemma ck_put_stored:
  assumes "ck_put env clk c g = (g1, None)" and "graph_ok g"
  shows "\<exists>v w. prepared env g c = Inr v \<and> ck_Handle v = ck_Handle c \<and> mget (cg_checkpoints g1) (ck_Handle c) = Some w \<and> ck_RequestDigest w = ck_RequestDigest v"
proof -
  obtain v where v: "prepared env g c = Inr v" using assms(1) by (cases "prepared env g c") (auto simp: ck_put_def)
  have hv: "ck_Handle v = ck_Handle c" using prepared_Inr[OF v] by auto
  have "\<exists>w. mget (cg_checkpoints g1) (ck_Handle c) = Some w \<and> ck_RequestDigest w = ck_RequestDigest v"
  proof (cases "mget (cg_checkpoints g) (ck_Handle c)")
    case (Some e)
    then show ?thesis using assms(1) v hv by (auto simp: ck_put_def split: if_splits)
  next
    case None
    show ?thesis
    proof (cases "mget (cg_operations g) (scopedOperationKey (ck_Tenant v) (ck_Project v) (ck_OperationKey v))")
      case None
      then show ?thesis using \<open>mget (cg_checkpoints g) (ck_Handle c) = None\<close> assms(1) v hv by (auto simp: ck_put_def Let_def)
    next
      case (Some k)
      then have "mget (cg_checkpoints g) k \<noteq> None" using assms(2) unfolding graph_ok_def by blast
      then show ?thesis using \<open>mget (cg_checkpoints g) (ck_Handle c) = None\<close> assms(1) v hv Some by (auto simp: ck_put_def Let_def split: if_splits)
    qed
  qed
  then show ?thesis using v hv by blast
qed

lemma ck_put_again:
  assumes "ck_put env clk c g = (g1, None)" and "graph_extends g1 g2" and "graph_ok g"
  shows "ck_put env clk' c g2 = (g2, None)"
proof -
  obtain v w where v: "prepared env g c = Inr v" "ck_Handle v = ck_Handle c" and w: "mget (cg_checkpoints g1) (ck_Handle c) = Some w" "ck_RequestDigest w = ck_RequestDigest v"
    using ck_put_stored[OF assms(1,3)] by blast
  have "cg_limits g2 = cg_limits g" using ck_put_extends[of g env clk c] assms(1,2) by (simp add: graph_extends_def)
  then have "prepared env g2 c = Inr v" using v(1) prepared_limits by metis
  moreover have "mget (cg_checkpoints g2) (ck_Handle v) = Some w" using w(1) v(2) assms(2) by (simp add: graph_extends_def)
  ultimately show ?thesis using w(2) by (simp add: ck_put_def)
qed

text \<open>Publication is write-once and idempotent. A published node stays as it is through every later publication, and publishing a child again, at any
  later time and after any other publications, succeeds and changes nothing, even when its parent has expired since.\<close>

theorem publication_idempotent:
  assumes "limits_ok l" and "(ck_step env)\<^sup>*\<^sup>* (NewCheckpointGraph l) g" and "PutChild_ck env clk c g = (g1, None)" and "(ck_step env)\<^sup>*\<^sup>* g1 g2"
  shows "PutChild_ck env clk' c g2 = (g2, None)
    \<and> (\<exists>v. mget (cg_checkpoints g1) (ck_Handle c) = Some v \<and> mget (cg_checkpoints g2) (ck_Handle c) = Some v)"
proof -
  have ok: "graph_ok g" by (rule reach_ok[OF assms(1,2)])
  have ext: "graph_extends g1 g2" by (rule run_extends[OF assms(4)])
  obtain p parent where p: "ck_Parent c = Some p" "p \<noteq> []" "mget (cg_checkpoints g) p = Some parent"
    "ck_Tenant (inherit_scope c parent) = ck_Tenant parent" "ck_Project (inherit_scope c parent) = ck_Project parent"
    "ck_put env clk ((inherit_scope c parent)\<lparr>ck_Depth := wrap32 (ck_Depth parent + 1)\<rparr>) g = (g1, None)"
    using assms(3) by (auto simp: PutChild_ck_def putChild_ck_def Let_def split: option.splits if_splits)
  let ?c = "(inherit_scope c parent)\<lparr>ck_Depth := wrap32 (ck_Depth parent + 1)\<rparr>"
  have again: "ck_put env clk' ?c g2 = (g2, None)" by (rule ck_put_again[OF p(6) ext ok])
  have "ck_Handle ?c = ck_Handle c" by (simp add: inherit_scope_def)
  then obtain v where v: "mget (cg_checkpoints g1) (ck_Handle c) = Some v" using ck_put_stored[OF p(6) ok] by auto
  then have v2: "mget (cg_checkpoints g2) (ck_Handle c) = Some v" using ext by (simp add: graph_extends_def)
  have "mget (cg_checkpoints g2) p = Some parent"
    using p(3) ext ck_put_extends[of g env clk ?c] p(6) by (simp add: graph_extends_def)
  then have "PutChild_ck env clk' c g2 = (g2, None)" using again p(1,2,4,5) v2 by (simp add: PutChild_ck_def putChild_ck_def)
  then show ?thesis using v v2 by blast
qed

theorem publication_idempotent_witness:
  "PutChild_ck demo_env (\<lambda>_. 9) (demo_turn\<lparr>ck_Snapshot := demo_snapshot\<rparr>) demo_graph = (demo_graph, None)"
proof -
  have "snd (PutChild_ck demo_env (\<lambda>_. 5) (demo_turn\<lparr>ck_Snapshot := demo_snapshot\<rparr>) demo_start) = None" by code_simp
  then have "PutChild_ck demo_env (\<lambda>_. 5) (demo_turn\<lparr>ck_Snapshot := demo_snapshot\<rparr>) demo_start = (demo_graph, None)"
    unfolding demo_graph_def by (metis prod.collapse)
  from publication_idempotent[OF demo_reachable(1,2) this rtranclp.rtrancl_refl] show ?thesis by blast
qed

end
