(* ===== verification/Handle.thy ===== *)
theory Handle
  imports GoStrings
begin

text \<open>
  Opaque handles, \<^verbatim>\<open>state/handle.go\<close>: a keyring signs and verifies continuation handles, checkpoint handles and
  reference capabilities. A byte slice is a \<open>string\<close>. \<open>hm\<close> is HMAC-SHA-256, a function of the secret and the bytes
  written to it; the theorems only use that its value has 32 bytes. \<open>uparse\<close> and \<open>ustring\<close> are \<^verbatim>\<open>uuid.Parse\<close> and
  \<^verbatim>\<open>UUID.String\<close>. Receivers are non-nil.
\<close>

section \<open>Encodings of the standard library\<close>

subsection \<open>\<^verbatim>\<open>base64.RawURLEncoding\<close>\<close>

definition b64_char :: "nat \<Rightarrow> char" where
  "b64_char n =
     (if n < 26 then char_of (65 + n) else if n < 52 then char_of (71 + n) else if n < 62 then char_of (n - 4)
      else if n = 62 then CHR ''-'' else CHR ''_'')"

definition b64_value :: "char \<Rightarrow> nat option" where
  "b64_value c =
     (let n = of_char c :: nat
      in if 65 \<le> n \<and> n \<le> 90 then Some (n - 65) else if 97 \<le> n \<and> n \<le> 122 then Some (n - 71)
         else if 48 \<le> n \<and> n \<le> 57 then Some (n + 4) else if c = CHR ''-'' then Some 62 else if c = CHR ''_'' then Some 63 else None)"

abbreviation byte :: "char \<Rightarrow> nat" where "byte c \<equiv> of_char c"

fun EncodeToString :: "string \<Rightarrow> string" where
  "EncodeToString [] = []"
| "EncodeToString [a] = [b64_char (byte a div 4), b64_char (byte a mod 4 * 16)]"
| "EncodeToString [a, b] = [b64_char (byte a div 4), b64_char (byte a mod 4 * 16 + byte b div 16), b64_char (byte b mod 16 * 4)]"
| "EncodeToString (a # b # c # r) =
     b64_char (byte a div 4) # b64_char (byte a mod 4 * 16 + byte b div 16) # b64_char (byte b mod 16 * 4 + byte c div 64)
     # b64_char (byte c mod 64) # EncodeToString r"

fun decode_groups :: "nat list \<Rightarrow> string option" where
  "decode_groups [] = Some []"
| "decode_groups [v] = None"
| "decode_groups [v, w] = Some [char_of (v * 4 + w div 16)]"
| "decode_groups [v, w, x] = Some [char_of (v * 4 + w div 16), char_of (w mod 16 * 16 + x div 4)]"
| "decode_groups (v # w # x # y # r) =
     map_option (\<lambda>s. char_of (v * 4 + w div 16) # char_of (w mod 16 * 16 + x div 4) # char_of (x mod 4 * 64 + y) # s) (decode_groups r)"

fun b64_values :: "string \<Rightarrow> nat list option" where
  "b64_values [] = Some []"
| "b64_values (c # cs) = (case b64_value c of None \<Rightarrow> None | Some v \<Rightarrow> map_option ((#) v) (b64_values cs))"

text \<open>The decoder skips CR and LF wherever they stand and, not being strict, ignores the unused low bits of a last group.\<close>

definition DecodeString :: "string \<Rightarrow> string option" where
  "DecodeString s = Option.bind (b64_values (filter (\<lambda>c. c \<noteq> CHR 0x0D \<and> c \<noteq> CHR 0x0A) s)) decode_groups"

subsection \<open>\<^verbatim>\<open>binary.BigEndian\<close>\<close>

definition PutUint32 :: "nat \<Rightarrow> string" where
  "PutUint32 n = [char_of (n div 2 ^ 24 mod 256), char_of (n div 2 ^ 16 mod 256), char_of (n div 2 ^ 8 mod 256), char_of (n mod 256)]"

section \<open>The keyring\<close>

definition handleVersion :: string where "handleVersion = ''ctn_v1''"
definition referenceVersion :: string where "referenceVersion = ''ref_v1''"

definition keyIDPattern :: "string \<Rightarrow> bool" where
  "keyIDPattern s \<longleftrightarrow> 1 \<le> length s \<and> length s \<le> 32 \<and> list_all (\<lambda>c. b64_value c \<noteq> None) s"

record key =
  k_ID :: string
  k_Secret :: string
  k_Primary :: bool

record keyring =
  kr_keys :: "(string, string) gomap"
  kr_order :: "string list"

datatype handle_error = ErrInvalidHandle | InvalidKey string | DuplicateKey string | MultiplePrimary | NoPrimary | RandomRead
  | BadCheckpointID | ContextDone

definition add_key :: "keyring \<times> string \<Rightarrow> key \<Rightarrow> handle_error + keyring \<times> string" where
  "add_key acc k =
     (case acc of (kr, primary) \<Rightarrow>
      if \<not> keyIDPattern (k_ID k) \<or> length (k_Secret k) < 32 then Inl (InvalidKey (k_ID k))
      else if mget (kr_keys kr) (k_ID k) \<noteq> None then Inl (DuplicateKey (k_ID k))
      else if k_Primary k \<and> primary \<noteq> [] then Inl MultiplePrimary
      else Inr (\<lparr>kr_keys = mput (k_ID k) (k_Secret k) (kr_keys kr), kr_order = kr_order kr @ [k_ID k]\<rparr>,
                if k_Primary k then k_ID k else primary))"

definition NewKeyring :: "key list \<Rightarrow> handle_error + keyring" where
  "NewKeyring keys =
     bindE (foldE add_key (\<lparr>kr_keys = [], kr_order = []\<rparr>, []) keys) (\<lambda>(kr, primary).
       if primary = [] \<and> length (kr_order kr) \<noteq> 1 then Inl NoPrimary
       else let p = if primary = [] then kr_order kr ! 0 else primary
            in Inr (if p \<noteq> kr_order kr ! 0 then kr\<lparr>kr_order := p # remove1 p (kr_order kr)\<rparr> else kr))"

type_synonym hmac = "string \<Rightarrow> string \<Rightarrow> string"

definition writeField :: "string \<Rightarrow> string" where
  "writeField v = PutUint32 (length v mod 2 ^ 32) @ v"

definition macWith :: "hmac \<Rightarrow> string \<Rightarrow> string \<Rightarrow> string \<Rightarrow> string \<Rightarrow> string" where
  "macWith hm secret keyID randomID tenant =
     hm secret (writeField handleVersion @ writeField keyID @ writeField randomID @ writeField tenant)"

text \<open>A missing key reads as the nil secret.\<close>

definition mac :: "hmac \<Rightarrow> keyring \<Rightarrow> string \<Rightarrow> string \<Rightarrow> string \<Rightarrow> string" where
  "mac hm kr keyID randomID tenant = macWith hm (mgetd [] (kr_keys kr) keyID) keyID randomID tenant"

definition issue_handle :: "hmac \<Rightarrow> keyring \<Rightarrow> string \<Rightarrow> string \<Rightarrow> handle_error + string" where
  "issue_handle hm kr scope randomID =
     (if TrimSpace scope = [] \<or> length randomID \<noteq> 16 then Inl ErrInvalidHandle
      else let keyID = kr_order kr ! 0
           in Inr (join_with ''.'' [handleVersion, keyID, EncodeToString randomID, EncodeToString (mac hm kr keyID randomID scope)]))"

text \<open>\<open>rnd\<close> is what \<^verbatim>\<open>io.ReadFull\<close> reads from the keyring's source: 16 bytes, or \<open>None\<close> when it fails.\<close>

definition Issue :: "hmac \<Rightarrow> keyring \<Rightarrow> string option \<Rightarrow> string \<Rightarrow> handle_error + string" where
  "Issue hm kr rnd tenant =
     (if tenant = [] then Inl ErrInvalidHandle
      else case rnd of None \<Rightarrow> Inl RandomRead | Some randomID \<Rightarrow> issue_handle hm kr tenant randomID)"

definition Verify :: "hmac \<Rightarrow> keyring \<Rightarrow> string \<Rightarrow> string \<Rightarrow> handle_error + string" where
  "Verify hm kr tenant handle =
     (if tenant = [] \<or> length handle > 512 then Inl ErrInvalidHandle
      else let parts = split_on CHR ''.'' handle
           in if length parts \<noteq> 4 \<or> parts ! 0 \<noteq> handleVersion \<or> \<not> keyIDPattern (parts ! 1) then Inl ErrInvalidHandle
              else case mget (kr_keys kr) (parts ! 1) of
                     None \<Rightarrow> Inl ErrInvalidHandle
                   | Some secret \<Rightarrow>
                       (case DecodeString (parts ! 2) of
                          None \<Rightarrow> Inl ErrInvalidHandle
                        | Some randomID \<Rightarrow>
                            if length randomID \<noteq> 16 then Inl ErrInvalidHandle
                            else case DecodeString (parts ! 3) of
                                   None \<Rightarrow> Inl ErrInvalidHandle
                                 | Some provided \<Rightarrow>
                                     if length provided \<noteq> 32 then Inl ErrInvalidHandle
                                     else if provided \<noteq> macWith hm secret (parts ! 1) randomID tenant then Inl ErrInvalidHandle
                                     else Inr randomID))"

definition nilUUID :: string where "nilUUID = replicate 16 NUL"

definition IssueCheckpointHandle :: "hmac \<Rightarrow> (string \<Rightarrow> string option) \<Rightarrow> (string \<Rightarrow> string) \<Rightarrow> keyring \<Rightarrow> string \<Rightarrow> string \<Rightarrow> handle_error + string" where
  "IssueCheckpointHandle hm uparse ustring kr scope checkpointID =
     (case uparse checkpointID of
        None \<Rightarrow> Inl BadCheckpointID
      | Some parsed \<Rightarrow>
          if parsed = nilUUID \<or> ustring parsed \<noteq> checkpointID then Inl BadCheckpointID else issue_handle hm kr scope parsed)"

definition ascii_lower :: "char \<Rightarrow> char" where
  "ascii_lower c = (if 65 \<le> byte c \<and> byte c \<le> 90 then char_of (byte c + 32) else c)"

text \<open>\<open>done0\<close> and \<open>done1\<close> say whether the context has ended before and after verification. \<^verbatim>\<open>uuid.FromBytes\<close>
  fails only on a length other than 16, which \<open>Verify\<close> excludes; a UUID prints in ASCII.\<close>

definition VerifyCheckpointHandle :: "hmac \<Rightarrow> (string \<Rightarrow> string) \<Rightarrow> bool \<Rightarrow> bool \<Rightarrow> keyring \<Rightarrow> string \<Rightarrow> string \<Rightarrow> handle_error + string" where
  "VerifyCheckpointHandle hm ustring done0 done1 kr scope handle =
     (if done0 then Inl ContextDone
      else bindE (Verify hm kr scope handle) (\<lambda>randomID.
        if done1 then Inl ContextDone
        else if length randomID \<noteq> 16 \<or> randomID = nilUUID \<or> ustring randomID \<noteq> map ascii_lower (ustring randomID) then Inl ErrInvalidHandle
        else Inr (ustring randomID)))"

section \<open>Reference capabilities\<close>

definition referenceMAC :: "hmac \<Rightarrow> string \<Rightarrow> string \<Rightarrow> string \<Rightarrow> string \<Rightarrow> string \<Rightarrow> string" where
  "referenceMAC hm secret keyID tenant project requestID =
     hm secret (concat (map writeField [referenceVersion, keyID, tenant, project, requestID]))"

definition IssueReferenceCapability :: "hmac \<Rightarrow> keyring \<Rightarrow> string \<Rightarrow> string \<Rightarrow> string \<Rightarrow> handle_error + string" where
  "IssueReferenceCapability hm kr tenant project requestID =
     (if tenant = [] \<or> project = [] \<or> requestID = [] then Inl ErrInvalidHandle
      else let keyID = kr_order kr ! 0
           in Inr (join_with ''.'' [referenceVersion, keyID,
                EncodeToString (referenceMAC hm (mgetd [] (kr_keys kr) keyID) keyID tenant project requestID)]))"

definition VerifyReferenceCapability :: "hmac \<Rightarrow> keyring \<Rightarrow> string \<Rightarrow> string \<Rightarrow> string \<Rightarrow> string \<Rightarrow> bool" where
  "VerifyReferenceCapability hm kr tenant project requestID capability =
     (if tenant = [] \<or> project = [] \<or> requestID = [] \<or> length capability > 128 then False
      else let parts = split_on CHR ''.'' capability
           in if length parts \<noteq> 3 \<or> parts ! 0 \<noteq> referenceVersion \<or> \<not> keyIDPattern (parts ! 1) then False
              else case mget (kr_keys kr) (parts ! 1) of
                     None \<Rightarrow> False
                   | Some secret \<Rightarrow>
                       (case DecodeString (parts ! 2) of
                          None \<Rightarrow> False
                        | Some provided \<Rightarrow>
                            if length provided \<noteq> 32 then False
                            else provided = referenceMAC hm secret (parts ! 1) tenant project requestID))"

section \<open>Base64 round trip\<close>

lemma byte_lt [simp]: "byte c < 256"
  by (rule nat_of_char_less_256)

lemma b64_value_char [simp]: "n < 64 \<Longrightarrow> b64_value (b64_char n) = Some n"
  by (cases "n = 62"; cases "n = 63") (auto simp: b64_value_def b64_char_def Let_def)

lemma byte_parts [simp]:
  "byte b div 16 div 16 = 0" "byte b div 16 mod 16 = byte b div 16" "byte c div 64 div 4 = 0" "byte c div 64 mod 4 = byte c div 64"
proof -
  have "byte b div 16 < 16" "byte c div 64 < 4" by (auto simp: less_mult_imp_div_less)
  then show "byte b div 16 div 16 = 0" "byte b div 16 mod 16 = byte b div 16" "byte c div 64 div 4 = 0" "byte c div 64 mod 4 = byte c div 64"
    by simp_all
qed

lemma sextets:
  fixes a b c :: nat
  assumes "a < 256" and "b < 256" and "c < 256"
  shows "a div 4 < 64" and "a mod 4 * 16 < 64" and "a mod 4 * 16 + b div 16 < 64" and "b mod 16 * 4 < 64"
    and "b mod 16 * 4 + c div 64 < 64" and "c mod 64 < 64"
proof -
  have d: "a div 4 < 64" "b div 16 < 16" "c div 64 < 4" using assms by (auto simp: less_mult_imp_div_less)
  have m: "a mod 4 < 4" "b mod 16 < 16" "c mod 64 < 64" by simp_all
  show "a div 4 < 64" "a mod 4 * 16 < 64" "a mod 4 * 16 + b div 16 < 64" "b mod 16 * 4 < 64"
    "b mod 16 * 4 + c div 64 < 64" "c mod 64 < 64" using d m by linarith+
qed

lemmas b64_arith = sextets[OF byte_lt byte_lt byte_lt]

lemma encode_values: "\<exists>vs. b64_values (EncodeToString s) = Some vs \<and> decode_groups vs = Some s"
proof (induction s rule: EncodeToString.induct)
  case (4 a b c r)
  then obtain vs where "b64_values (EncodeToString r) = Some vs" "decode_groups vs = Some r" by blast
  then show ?case by (simp add: b64_arith)
qed (simp_all add: b64_arith)

lemma b64_values_chars: "b64_values s = Some vs \<Longrightarrow> c \<in> set s \<Longrightarrow> b64_value c \<noteq> None"
  by (induction s arbitrary: vs) (auto split: option.splits)

lemma encode_chars: "c \<in> set (EncodeToString s) \<Longrightarrow> b64_value c \<noteq> None"
  using encode_values[of s] b64_values_chars by blast

lemma not_b64 [simp]: "b64_value CHR 0x0D = None" "b64_value CHR 0x0A = None" "b64_value CHR ''.'' = None"
  by code_simp+

lemma decode_encode [simp]: "DecodeString (EncodeToString s) = Some s"
proof -
  have "filter (\<lambda>c. c \<noteq> CHR 0x0D \<and> c \<noteq> CHR 0x0A) (EncodeToString s) = EncodeToString s"
    by (rule filter_True) (use encode_chars[of _ s] in force)
  then show ?thesis using encode_values[of s] by (auto simp: DecodeString_def)
qed

lemma length_encode: "length (EncodeToString s) \<le> 2 * length s"
  by (induction s rule: EncodeToString.induct) simp_all

section \<open>Framing\<close>

lemma length_PutUint32 [simp]: "length (PutUint32 n) = 4"
  by (simp add: PutUint32_def)

lemma byte_char [simp]: "n < 256 \<Longrightarrow> byte (char_of n) = n"
  by (simp add: of_char_of)

lemma horner256:
  fixes k :: nat
  assumes "a = d * 256 + k2" and "b = a * 256 + k1" and "k = b * 256 + k0"
  shows "k = d * 2 ^ 24 + k2 * 2 ^ 16 + k1 * 2 ^ 8 + k0"
  unfolding assms by simp

lemma PutUint32_inj:
  assumes "PutUint32 m = PutUint32 n" and "m < 2 ^ 32" and "n < 2 ^ 32"
  shows "m = n"
proof -
  have d: "m div 2 ^ 24 mod 256 = n div 2 ^ 24 mod 256" "m div 2 ^ 16 mod 256 = n div 2 ^ 16 mod 256"
    "m div 2 ^ 8 mod 256 = n div 2 ^ 8 mod 256" "m mod 256 = n mod 256"
    using assms(1) by (simp_all add: PutUint32_def)
  have digits: "k = k div 2 ^ 24 mod 256 * 2 ^ 24 + k div 2 ^ 16 mod 256 * 2 ^ 16 + k div 2 ^ 8 mod 256 * 2 ^ 8 + k mod 256"
    if "k < 2 ^ 32" for k :: nat
  proof -
    have "k div 2 ^ 24 < 256" using that by (simp add: less_mult_imp_div_less)
    then have "k div 2 ^ 16 = k div 2 ^ 24 mod 256 * 256 + k div 2 ^ 16 mod 256"
      using div_mult_mod_eq[of "k div 2 ^ 16" 256] by (simp add: div_mult2_eq[symmetric])
    moreover have "k div 2 ^ 8 = k div 2 ^ 16 * 256 + k div 2 ^ 8 mod 256"
      using div_mult_mod_eq[of "k div 2 ^ 8" 256] by (simp add: div_mult2_eq[symmetric])
    moreover have "k = k div 2 ^ 8 * 256 + k mod 256" using div_mult_mod_eq[of k 256] by simp
    ultimately show ?thesis by (rule horner256)
  qed
  show ?thesis using digits[OF assms(2)] digits[OF assms(3)] d by simp
qed

text \<open>Fields of fewer than $2^{32}$ bytes are recovered from what was written: the framing is prefix free.\<close>

lemma writeField_inj:
  assumes "writeField v @ s = writeField w @ t" and "length v < 2 ^ 32" and "length w < 2 ^ 32"
  shows "v = w" and "s = t"
proof -
  have "PutUint32 (length v) = PutUint32 (length w)" "v @ s = w @ t" using assms by (simp_all add: writeField_def)
  then show "v = w" "s = t" using PutUint32_inj[OF _ assms(2,3)] by auto
qed

section \<open>Keyrings\<close>

definition keyring_ok :: "keyring \<Rightarrow> bool" where
  "keyring_ok kr \<longleftrightarrow> kr_order kr \<noteq> [] \<and> distinct (kr_order kr)
     \<and> (\<forall>i. i \<in> set (kr_order kr) \<longleftrightarrow> mget (kr_keys kr) i \<noteq> None) \<and> (\<forall>i \<in> set (kr_order kr). keyIDPattern i)"

definition loading :: "keyring \<times> string \<Rightarrow> bool" where
  "loading a \<longleftrightarrow> distinct (kr_order (fst a)) \<and> (\<forall>i. i \<in> set (kr_order (fst a)) \<longleftrightarrow> mget (kr_keys (fst a)) i \<noteq> None)
     \<and> (\<forall>i \<in> set (kr_order (fst a)). keyIDPattern i) \<and> (snd a = [] \<or> snd a \<in> set (kr_order (fst a)))"

lemma add_key_loading: "loading a \<Longrightarrow> add_key a k = Inr b \<Longrightarrow> loading b"
  by (cases a) (auto simp: add_key_def loading_def split: if_splits)

lemma NewKeyring_ok:
  assumes "NewKeyring keys = Inr kr"
  shows "keyring_ok kr"
proof -
  obtain k p where k: "foldE add_key (\<lparr>kr_keys = [], kr_order = []\<rparr>, []) keys = Inr (k, p)"
    and kr: "\<not> (p = [] \<and> length (kr_order k) \<noteq> 1)"
    "kr = (let q = if p = [] then kr_order k ! 0 else p in if q \<noteq> kr_order k ! 0 then k\<lparr>kr_order := q # remove1 q (kr_order k)\<rparr> else k)"
    using assms by (auto simp: NewKeyring_def bindE_eq_Inr_iff split: if_splits)
  have l: "loading (k, p)"
    by (rule foldE_invariant[OF k]) (auto simp: loading_def[of "(\<lparr>kr_keys = [], kr_order = []\<rparr>, [])"] intro: add_key_loading)
  then have "kr_order k \<noteq> []" using kr(1) by (auto simp: loading_def)
  then show ?thesis using l kr(2) by (auto simp: loading_def keyring_ok_def Let_def set_remove1_eq)
qed

lemma key_no_dot: "keyIDPattern i \<Longrightarrow> CHR ''.'' \<notin> set i"
  by (force simp: keyIDPattern_def list_all_iff)

lemma encode_no_dot [simp]: "CHR ''.'' \<notin> set (EncodeToString s)"
  using encode_chars[of "CHR ''.''" s] by auto

lemma split_handle:
  assumes "keyIDPattern i"
  shows "split_on CHR ''.'' (join_with ''.'' [handleVersion, i, EncodeToString a, EncodeToString b]) = [handleVersion, i, EncodeToString a, EncodeToString b]"
    and "split_on CHR ''.'' (join_with ''.'' [referenceVersion, i, EncodeToString b]) = [referenceVersion, i, EncodeToString b]"
proof -
  have "CHR ''.'' \<notin> set handleVersion" "CHR ''.'' \<notin> set referenceVersion" by code_simp+
  then show "split_on CHR ''.'' (join_with ''.'' [handleVersion, i, EncodeToString a, EncodeToString b]) = [handleVersion, i, EncodeToString a, EncodeToString b]"
    "split_on CHR ''.'' (join_with ''.'' [referenceVersion, i, EncodeToString b]) = [referenceVersion, i, EncodeToString b]"
    using key_no_dot[OF assms] by (simp_all add: split_on_append split_on_free)
qed

lemma handle_length:
  assumes "keyIDPattern i" and "length a = 16" and "length b = 32"
  shows "length (join_with ''.'' [handleVersion, i, EncodeToString a, EncodeToString b]) \<le> 512"
    and "length (join_with ''.'' [referenceVersion, i, EncodeToString b]) \<le> 128"
  using assms length_encode[of a] length_encode[of b] by (auto simp: keyIDPattern_def handleVersion_def referenceVersion_def)

text \<open>What a keyring makes of a handle it, or another keyring, issued.\<close>

lemma verify_issued:
  assumes "\<forall>k m. length (hm k m) = 32" and "keyIDPattern i" and "length rid = 16" and "scope \<noteq> []"
  shows "Verify hm kr scope (join_with ''.'' [handleVersion, i, EncodeToString rid, EncodeToString (macWith hm secret i rid scope)])
    = (case mget (kr_keys kr) i of None \<Rightarrow> Inl ErrInvalidHandle
       | Some secret' \<Rightarrow> if macWith hm secret i rid scope = macWith hm secret' i rid scope then Inr rid else Inl ErrInvalidHandle)"
proof -
  let ?m = "macWith hm secret i rid scope"
  have m: "length ?m = 32" using assms(1) by (simp add: macWith_def)
  show ?thesis unfolding Verify_def Let_def split_handle(1)[OF assms(2)]
    using assms m handle_length(1)[OF assms(2,3) m] by (simp add: not_less[symmetric] split: option.splits del: join_with.simps)
qed

lemma keyring_ok_first: "keyring_ok kr \<Longrightarrow> \<exists>secret. mget (kr_keys kr) (kr_order kr ! 0) = Some secret \<and> keyIDPattern (kr_order kr ! 0)"
  unfolding keyring_ok_def by (metis length_greater_0_conv nth_mem option.exhaust)

lemma TrimSpace_Nil: "TrimSpace s \<noteq> [] \<Longrightarrow> s \<noteq> []"
proof -
  have "TrimSpace [] = []" by code_simp
  then show "TrimSpace s \<noteq> [] \<Longrightarrow> s \<noteq> []" by auto
qed

lemma issue_verify:
  assumes "keyring_ok kr" and "\<forall>k m. length (hm k m) = 32" and "issue_handle hm kr scope rid = Inr h"
  shows "Verify hm kr' scope h = (case mget (kr_keys kr') (kr_order kr ! 0) of None \<Rightarrow> Inl ErrInvalidHandle
     | Some secret \<Rightarrow> if mac hm kr (kr_order kr ! 0) rid scope = macWith hm secret (kr_order kr ! 0) rid scope then Inr rid else Inl ErrInvalidHandle)"
proof -
  obtain secret where k: "mget (kr_keys kr) (kr_order kr ! 0) = Some secret" "keyIDPattern (kr_order kr ! 0)"
    using keyring_ok_first[OF assms(1)] by blast
  have i: "TrimSpace scope \<noteq> []" "length rid = 16"
    and h: "h = join_with ''.'' [handleVersion, kr_order kr ! 0, EncodeToString rid, EncodeToString (macWith hm secret (kr_order kr ! 0) rid scope)]"
    using assms(3) k(1) by (auto simp: issue_handle_def Let_def mac_def mgetd_def split: if_splits)
  have m: "mac hm kr (kr_order kr ! 0) rid scope = macWith hm secret (kr_order kr ! 0) rid scope" using k(1) by (simp add: mac_def mgetd_def)
  show ?thesis unfolding h m by (rule verify_issued[OF assms(2) k(2) i(2) TrimSpace_Nil[OF i(1)]])
qed

text \<open>
  The contract of handles that a store relies on: what a well-formed signer issues for a scope, it verifies for that scope.
\<close>

locale handle_signer =
  fixes ok :: "'k \<Rightarrow> bool" and sign :: "'k \<Rightarrow> string \<Rightarrow> string \<Rightarrow> handle_error + string"
    and check :: "'k \<Rightarrow> string \<Rightarrow> string \<Rightarrow> handle_error + string"
  assumes accepts_own: "ok k \<Longrightarrow> sign k scope rid = Inr h \<Longrightarrow> check k scope h = Inr rid"
begin

lemma sign_inj: "ok k \<Longrightarrow> sign k scope rid = Inr h \<Longrightarrow> sign k scope rid' = Inr h \<Longrightarrow> rid = rid'"
  using accepts_own by (metis sum.inject(2))

end

definition signer_ok :: "hmac \<times> keyring \<Rightarrow> bool" where
  "signer_ok k \<longleftrightarrow> keyring_ok (snd k) \<and> (\<forall>s m. length (fst k s m) = 32)"

interpretation keyring_signer: handle_signer signer_ok "\<lambda>k. issue_handle (fst k) (snd k)" "\<lambda>k. Verify (fst k) (snd k)"
proof unfold_locales
  fix k :: "hmac \<times> keyring" and scope rid h
  assume a: "signer_ok k" "issue_handle (fst k) (snd k) scope rid = Inr h"
  obtain secret where "mget (kr_keys (snd k)) (kr_order (snd k) ! 0) = Some secret"
    using a(1) keyring_ok_first[of "snd k"] by (auto simp: signer_ok_def)
  then show "Verify (fst k) (snd k) scope h = Inr rid"
    using issue_verify[of "snd k" "fst k" scope rid h "snd k"] a by (simp add: signer_ok_def mac_def mgetd_def)
qed


definition demo_hmac :: hmac where
  "demo_hmac k m = rev (take 32 (rev (replicate 32 NUL @ m)))"

definition demo_keys :: "key list" where
  "demo_keys = [\<lparr>k_ID = ''old'', k_Secret = replicate 32 CHR ''s'', k_Primary = False\<rparr>, \<lparr>k_ID = ''new'', k_Secret = replicate 32 CHR ''t'', k_Primary = True\<rparr>]"

definition demo_keyring :: keyring where
  "demo_keyring = \<lparr>kr_keys = [(''old'', replicate 32 CHR ''s''), (''new'', replicate 32 CHR ''t'')], kr_order = [''new'', ''old'']\<rparr>"


section \<open>A handle is bound to its scope\<close>

lemma Verify_Inr:
  assumes "Verify hm kr scope h = Inr rid"
  shows "keyIDPattern (split_on CHR ''.'' h ! 1) \<and> length rid = 16 \<and> DecodeString (split_on CHR ''.'' h ! 2) = Some rid
    \<and> (\<exists>secret. mget (kr_keys kr) (split_on CHR ''.'' h ! 1) = Some secret
         \<and> DecodeString (split_on CHR ''.'' h ! 3) = Some (macWith hm secret (split_on CHR ''.'' h ! 1) rid scope))"
  using assms by (auto simp: Verify_def Let_def split: if_splits option.splits)

definition collides :: "hmac \<Rightarrow> string \<Rightarrow> bool" where
  "collides hm secret \<longleftrightarrow> (\<exists>m n. m \<noteq> n \<and> hm secret m = hm secret n)"

lemma macWith_collision:
  assumes "macWith hm secret i rid t = macWith hm secret i rid t'" and "t \<noteq> t'" and "length t < 2 ^ 32" and "length t' < 2 ^ 32"
  shows "collides hm secret"
proof -
  have "writeField t \<noteq> writeField t'" using writeField_inj(1)[of t "[]" t' "[]"] assms(2-) by auto
  then show ?thesis using assms(1) unfolding collides_def macWith_def by (metis append_same_eq same_append_eq)
qed

text \<open>A handle belongs to one scope. A handle that verifies for two scopes yields the same identifier for both, and the scopes are
  equal, unless HMAC collides on two different inputs under the secret of one of the keyring's keys: the MAC input frames each field with
  its length, so no choice of scope, key and identifier makes another's input.\<close>

theorem handle_scope_bound:
  assumes "Verify hm kr scope h = Inr rid" and "Verify hm kr scope' h = Inr rid'" and "length scope < 2 ^ 32" and "length scope' < 2 ^ 32"
  shows "rid = rid' \<and> (scope = scope' \<or> (\<exists>i secret. mget (kr_keys kr) i = Some secret \<and> collides hm secret))"
proof -
  let ?i = "split_on CHR ''.'' h ! 1"
  obtain secret where s: "mget (kr_keys kr) ?i = Some secret" "rid = rid'" "macWith hm secret ?i rid scope = macWith hm secret ?i rid scope'"
    using Verify_Inr[OF assms(1)] Verify_Inr[OF assms(2)] by auto
  then show ?thesis using macWith_collision[OF s(3) _ assms(3,4)] by blast
qed

lemma demo_verifies:
  "\<exists>h. Verify demo_hmac demo_keyring ''tenant'' h = Inr (replicate 16 CHR ''r'')"
proof -
  have k: "NewKeyring demo_keys = Inr demo_keyring" and t: "TrimSpace ''tenant'' \<noteq> []" by code_simp+
  have ok: "signer_ok (demo_hmac, demo_keyring)" using NewKeyring_ok[OF k] by (simp add: signer_ok_def demo_hmac_def min_def)
  obtain h where "issue_handle demo_hmac demo_keyring ''tenant'' (replicate 16 CHR ''r'') = Inr h" using t by (auto simp: issue_handle_def Let_def)
  then show ?thesis using keyring_signer.accepts_own[OF ok, of "''tenant''" "replicate 16 CHR ''r''" h] by auto
qed

theorem handle_scope_bound_witness:
  "\<exists>h. Verify demo_hmac demo_keyring ''tenant'' h = Inr (replicate 16 CHR ''r'')
     \<and> (\<forall>rid. Verify demo_hmac demo_keyring ''tenant'' h = Inr rid \<longrightarrow> rid = replicate 16 CHR ''r'')"
proof -
  obtain h where v: "Verify demo_hmac demo_keyring ''tenant'' h = Inr (replicate 16 CHR ''r'')" using demo_verifies by blast
  show ?thesis using handle_scope_bound[OF v, of "''tenant''"] v by (intro exI[of _ h]) auto
qed

section \<open>Checkpoint handles and reference capabilities\<close>

text \<open>A checkpoint identifier survives its handle. Where UUID parsing inverts printing on 16-byte values and printing is lower case,
  a canonical non-nil checkpoint identifier gets a handle that verifies, for its scope, to that identifier.\<close>

theorem checkpoint_handle_roundtrip:
  assumes "NewKeyring keys = Inr kr" and "\<forall>k m. length (hm k m) = 32" and "TrimSpace scope \<noteq> []"
    and "\<forall>u. map ascii_lower (ustring u) = ustring u" and "\<forall>c u. uparse c = Some u \<longrightarrow> length u = 16"
    and "uparse c = Some u" and "ustring u = c" and "u \<noteq> nilUUID"
  shows "\<exists>h. IssueCheckpointHandle hm uparse ustring kr scope c = Inr h \<and> VerifyCheckpointHandle hm ustring False False kr scope h = Inr c"
proof -
  have u: "length u = 16" using assms(5,6) by blast
  obtain h where h: "issue_handle hm kr scope u = Inr h" using assms(3) u by (auto simp: issue_handle_def Let_def)
  have "Verify hm kr scope h = Inr u"
    using keyring_signer.accepts_own[of "(hm, kr)" scope u h] NewKeyring_ok[OF assms(1)] assms(2) h by (simp add: signer_ok_def)
  then show ?thesis using assms(4,6-) h u by (intro exI[of _ h]) (simp add: IssueCheckpointHandle_def VerifyCheckpointHandle_def)
qed

theorem checkpoint_handle_roundtrip_witness:
  "\<exists>h. IssueCheckpointHandle demo_hmac (\<lambda>c. Some (replicate 16 CHR 0x01)) (\<lambda>u. ''0101'') demo_keyring ''tenant'' ''0101'' = Inr h
     \<and> VerifyCheckpointHandle demo_hmac (\<lambda>u. ''0101'') False False demo_keyring ''tenant'' h = Inr ''0101''"
proof -
  have k: "NewKeyring demo_keys = Inr demo_keyring" by code_simp
  have l: "\<forall>k m. length (demo_hmac k m) = 32" by (simp add: demo_hmac_def min_def)
  have t: "TrimSpace ''tenant'' \<noteq> []" by code_simp
  have low: "map ascii_lower ''0101'' = ''0101''" and n: "replicate 16 CHR 0x01 \<noteq> nilUUID" by code_simp+
  show ?thesis by (rule checkpoint_handle_roundtrip[OF k l t, of "\<lambda>u. ''0101''" "\<lambda>c. Some (replicate 16 CHR 0x01)"]) (use low n in auto)
qed

lemma reference_frames_inj:
  assumes "concat (map writeField xs) = concat (map writeField ys)" and "length xs = length ys" and "\<forall>x \<in> set xs \<union> set ys. length x < 2 ^ 32"
  shows "xs = ys"
  using assms
proof (induction xs arbitrary: ys)
  case Nil
  then show ?case by simp
next
  case (Cons x xs)
  then obtain y ys' where ys: "ys = y # ys'" by (cases ys) auto
  have "x = y" "concat (map writeField xs) = concat (map writeField ys')"
    using writeField_inj[of x "concat (map writeField xs)" y "concat (map writeField ys')"] Cons.prems ys by auto
  then show ?case using Cons.IH[of ys'] Cons.prems ys by auto
qed

text \<open>A reference capability authorizes exactly its request. The capability issued for a tenant, project and request verifies
  for them; if it verifies for another triple under the same keyring, HMAC collides under the signing secret.\<close>

theorem reference_capability_exact:
  assumes "NewKeyring keys = Inr kr" and "\<forall>k m. length (hm k m) = 32" and "\<forall>x \<in> {tenant, project, request, tenant', project', request'}. length x < 2 ^ 32"
    and "IssueReferenceCapability hm kr tenant project request = Inr cap"
  shows "VerifyReferenceCapability hm kr tenant project request cap
    \<and> (VerifyReferenceCapability hm kr tenant' project' request' cap \<longrightarrow>
         (tenant', project', request') = (tenant, project, request) \<or> (\<exists>secret. mget (kr_keys kr) (kr_order kr ! 0) = Some secret \<and> collides hm secret))"
proof -
  let ?i = "kr_order kr ! 0"
  obtain secret where k: "mget (kr_keys kr) ?i = Some secret" "keyIDPattern ?i" using keyring_ok_first[OF NewKeyring_ok[OF assms(1)]] by blast
  let ?m = "referenceMAC hm secret ?i tenant project request"
  have c: "cap = join_with ''.'' [referenceVersion, ?i, EncodeToString ?m]" and ne: "tenant \<noteq> []" "project \<noteq> []" "request \<noteq> []"
    using assms(4) k(1) by (auto simp: IssueReferenceCapability_def Let_def mgetd_def split: if_splits)
  have m: "length ?m = 32" using assms(2) by (simp add: referenceMAC_def)
  have parts: "split_on CHR ''.'' cap = [referenceVersion, ?i, EncodeToString ?m]" unfolding c by (rule split_handle(2)[OF k(2)])
  have len: "length cap \<le> 128" unfolding c by (rule handle_length(2)[OF k(2) _ m, of "replicate 16 NUL"]) simp
  have v: "VerifyReferenceCapability hm kr t p r cap \<longleftrightarrow> t \<noteq> [] \<and> p \<noteq> [] \<and> r \<noteq> [] \<and> ?m = referenceMAC hm secret ?i t p r" for t p r
    using k m len by (simp add: VerifyReferenceCapability_def parts)
  have "collides hm secret" if "?m = referenceMAC hm secret ?i tenant' project' request'" "(tenant', project', request') \<noteq> (tenant, project, request)"
  proof -
    let ?xs = "[referenceVersion, ?i, tenant, project, request]" and ?ys = "[referenceVersion, ?i, tenant', project', request']"
    have "length ?i < 2 ^ 32" "length referenceVersion < 2 ^ 32" using k(2) by (simp_all add: keyIDPattern_def referenceVersion_def)
    then have "concat (map writeField ?xs) \<noteq> concat (map writeField ?ys)" using reference_frames_inj[of ?xs ?ys] that(2) assms(3) by auto
    then show ?thesis using that(1) unfolding collides_def referenceMAC_def by blast
  qed
  then show ?thesis using ne k(1) by (auto simp: v)
qed

theorem reference_capability_exact_witness:
  "\<exists>cap. IssueReferenceCapability demo_hmac demo_keyring ''t'' ''p'' ''r'' = Inr cap \<and> VerifyReferenceCapability demo_hmac demo_keyring ''t'' ''p'' ''r'' cap"
proof -
  have k: "NewKeyring demo_keys = Inr demo_keyring" by code_simp
  have l: "\<forall>k m. length (demo_hmac k m) = 32" by (simp add: demo_hmac_def min_def)
  obtain cap where c: "IssueReferenceCapability demo_hmac demo_keyring ''t'' ''p'' ''r'' = Inr cap" by (auto simp: IssueReferenceCapability_def Let_def)
  show ?thesis using reference_capability_exact[OF k l _ c, of "''t''" "''p''" "''r''"] c by auto
qed

end
