(* ===== verification/Memory_Continuation.thy ===== *)
theory Memory_Continuation
  imports Continuation Handle
begin

text \<open>
  The in-process continuation store, \<^verbatim>\<open>storage/memory/continuation.go\<close>. A method is one or two critical sections of
  the store's mutex: \<open>PutChild\<close> reads the parent under the read lock and publishes under the write lock, so the
  step relation below separates the two and lets other calls run in between. \<open>ctx\<close> says that the caller's context has ended, \<open>rnd\<close>
  is what the keyring reads from its random source, \<open>clk i\<close> the \<open>i\<close>-th reading of the store's clock in a call, \<open>td\<close> the
  transcript digest. \<^verbatim>\<open>Clone\<close> only detaches slices, which values of the model share safely.
\<close>

section \<open>The store\<close>

record continuation_record =
  cr_handle :: string
  cr_value :: continuation

type_synonym continuationOperationKey = "string \<times> string \<times> string"

record continuation_store =
  ct_keyring :: keyring
  ct_maxDepth :: int
  ct_records :: "(string, continuation_record) gomap"
  ct_byOp :: "(continuationOperationKey, string) gomap"

record put_child_request =
  pc_Parent :: string
  pc_Child :: continuation
  pc_OperationKey :: string

datatype store_error = CtxErr | KeyringRequired | TenantRequired | IssueErr handle_error | StateErr state_error | ErrNotFound | BadHandle
  | ErrConflict | DepthLimit

definition NewContinuationStore :: "keyring option \<Rightarrow> int \<Rightarrow> store_error + continuation_store" where
  "NewContinuationStore keyring maxDepth =
     (case keyring of
        None \<Rightarrow> Inl KeyringRequired
      | Some kr \<Rightarrow> Inr \<lparr>ct_keyring = kr, ct_maxDepth = (if maxDepth \<le> 0 then 64 else maxDepth), ct_records = [], ct_byOp = []\<rparr>)"

definition cont_sweepLocked :: "gotime \<Rightarrow> continuation_store \<Rightarrow> continuation_store \<times> nat" where
  "cont_sweepLocked now s =
     (let live = filter (\<lambda>(h, r). now < cn_ExpiresAt (cr_value r)) (ct_records s)
      in (s\<lparr>ct_records := live, ct_byOp := filter (\<lambda>(k, h). mget live h \<noteq> None) (ct_byOp s)\<rparr>, length (ct_records s) - length live))"

definition cont_Sweep :: "gotime \<Rightarrow> continuation_store \<Rightarrow> continuation_store \<times> nat" where
  "cont_Sweep now s = cont_sweepLocked now s"

definition cont_putLocked :: "gotime \<Rightarrow> string \<Rightarrow> continuation \<Rightarrow> continuation_store \<Rightarrow> continuation_store \<times> (store_error + string)" where
  "cont_putLocked now handle c s =
     (let s1 = fst (cont_sweepLocked now s)
      in case mget (ct_records s1) handle of
           Some r \<Rightarrow>
             if cn_TranscriptDigest (cr_value r) = cn_TranscriptDigest c \<and> cn_LastOperationID (cr_value r) = cn_LastOperationID c
             then (s1, Inr handle) else (s1, Inl ErrConflict)
         | None \<Rightarrow> (s1\<lparr>ct_records := mput handle \<lparr>cr_handle = handle, cr_value = c\<rparr> (ct_records s1)\<rparr>, Inr handle))"

definition cont_put :: "(item list \<Rightarrow> string option) \<Rightarrow> (nat \<Rightarrow> gotime) \<Rightarrow> string \<Rightarrow> continuation \<Rightarrow> continuation_store
    \<Rightarrow> continuation_store \<times> (store_error + string)" where
  "cont_put td clk handle c s =
     (case Continuation_Validate td (clk 0) c of
        Some e \<Rightarrow> (s, Inl (StateErr e))
      | None \<Rightarrow> cont_putLocked (clk 1) handle (c\<lparr>cn_ID := handle\<rparr>) s)"

definition CreateRoot :: "hmac \<Rightarrow> (item list \<Rightarrow> string option) \<Rightarrow> bool \<Rightarrow> string option \<Rightarrow> (nat \<Rightarrow> gotime) \<Rightarrow> continuation \<Rightarrow> continuation_store
    \<Rightarrow> continuation_store \<times> (store_error + string)" where
  "CreateRoot hm td ctx rnd clk c s =
     (if ctx then (s, Inl CtxErr)
      else if cn_Tenant c = [] then (s, Inl TenantRequired)
      else case Issue hm (ct_keyring s) rnd (cn_Tenant c) of
             Inl e \<Rightarrow> (s, Inl (IssueErr e))
           | Inr handle \<Rightarrow> cont_put td clk handle (c\<lparr>cn_ID := handle, cn_Depth := 0\<rparr>) s)"

definition cont_Get :: "hmac \<Rightarrow> bool \<Rightarrow> gotime \<Rightarrow> string \<Rightarrow> continuation_store \<Rightarrow> store_error + continuation" where
  "cont_Get hm ctx now handle s =
     (if ctx then Inl CtxErr
      else case mget (ct_records s) handle of
             None \<Rightarrow> Inl ErrNotFound
           | Some r \<Rightarrow>
               (case Verify hm (ct_keyring s) (cn_Tenant (cr_value r)) handle of
                  Inl _ \<Rightarrow> Inl BadHandle
                | Inr _ \<Rightarrow> if \<not> now < cn_ExpiresAt (cr_value r) then Inl (StateErr ErrExpired) else Inr (cr_value r)))"

definition GetForTenant :: "hmac \<Rightarrow> bool \<Rightarrow> gotime \<Rightarrow> string \<Rightarrow> string \<Rightarrow> continuation_store \<Rightarrow> store_error + continuation" where
  "GetForTenant hm ctx now tenant handle s =
     (if tenant = [] then Inl BadHandle
      else case Verify hm (ct_keyring s) tenant handle of
             Inl _ \<Rightarrow> Inl BadHandle
           | Inr _ \<Rightarrow>
               bindE (cont_Get hm ctx now handle s) (\<lambda>v. if cn_Tenant v \<noteq> tenant then Inl BadHandle else Inr v))"

definition sameChildFacts :: "continuation \<Rightarrow> continuation \<Rightarrow> bool" where
  "sameChildFacts stored incoming \<longleftrightarrow>
     cn_TranscriptDigest stored = cn_TranscriptDigest incoming \<and> cn_TranscriptComplete stored = cn_TranscriptComplete incoming"

text \<open>The child a request asks for, checked against the parent that was read.\<close>

definition child_of :: "put_child_request \<Rightarrow> continuation \<Rightarrow> int \<Rightarrow> store_error + continuation" where
  "child_of q parent maxDepth =
     (let child = (if cn_Tenant (pc_Child q) = [] then (pc_Child q)\<lparr>cn_Tenant := cn_Tenant parent\<rparr> else pc_Child q)
      in if cn_Tenant child \<noteq> cn_Tenant parent \<or> cn_Depth child \<noteq> wrap64 (cn_Depth parent + 1) \<or> cn_ParentID child \<noteq> pc_Parent q
         then Inl ErrConflict
         else if cn_Depth child > maxDepth then Inl DepthLimit
         else Inr child)"

text \<open>A new child: issued, validated, stored and indexed under its operation key.\<close>

definition publish_child :: "hmac \<Rightarrow> (item list \<Rightarrow> string option) \<Rightarrow> string option \<Rightarrow> (nat \<Rightarrow> gotime) \<Rightarrow> put_child_request \<Rightarrow> continuation
    \<Rightarrow> continuation_store \<Rightarrow> continuation_store \<times> (store_error + string)" where
  "publish_child hm td rnd clk q child s =
     (case Issue hm (ct_keyring s) rnd (cn_Tenant child) of
        Inl e \<Rightarrow> (s, Inl (IssueErr e))
      | Inr handle \<Rightarrow>
          let child' = child\<lparr>cn_ID := handle\<rparr>
          in case Continuation_Validate td (clk 2) child' of
               Some e \<Rightarrow> (s, Inl (StateErr e))
             | None \<Rightarrow>
                 (case cont_putLocked (clk 3) handle child' s of
                    (s1, Inl e) \<Rightarrow> (s1, Inl e)
                  | (s1, Inr _) \<Rightarrow>
                      (if pc_OperationKey q \<noteq> [] then s1\<lparr>ct_byOp := mput (cn_Tenant child', pc_Parent q, pc_OperationKey q) handle (ct_byOp s1)\<rparr> else s1,
                       Inr handle)))"

text \<open>The write section of \<open>PutChild\<close>.\<close>

definition put_child_locked :: "hmac \<Rightarrow> (item list \<Rightarrow> string option) \<Rightarrow> string option \<Rightarrow> (nat \<Rightarrow> gotime) \<Rightarrow> put_child_request \<Rightarrow> continuation
    \<Rightarrow> continuation \<Rightarrow> continuation_store \<Rightarrow> continuation_store \<times> (store_error + string)" where
  "put_child_locked hm td rnd clk q parent child s =
     (let k = (cn_Tenant parent, pc_Parent q, pc_OperationKey q)
      in case (if pc_OperationKey q \<noteq> [] then mget (ct_byOp s) k else None) of
           None \<Rightarrow> publish_child hm td rnd clk q child s
         | Some handle \<Rightarrow>
             (case mget (ct_records s) handle of
                Some r \<Rightarrow>
                  if clk 1 < cn_ExpiresAt (cr_value r)
                  then (if \<not> sameChildFacts (cr_value r) child then (s, Inl ErrConflict) else (s, Inr handle))
                  else publish_child hm td rnd clk q child (s\<lparr>ct_records := mdel handle (ct_records s), ct_byOp := mdel k (ct_byOp s)\<rparr>)
              | None \<Rightarrow> publish_child hm td rnd clk q child (s\<lparr>ct_byOp := mdel k (ct_byOp s)\<rparr>)))"

definition PutChild :: "hmac \<Rightarrow> (item list \<Rightarrow> string option) \<Rightarrow> bool \<Rightarrow> string option \<Rightarrow> (nat \<Rightarrow> gotime) \<Rightarrow> put_child_request \<Rightarrow> continuation_store
    \<Rightarrow> continuation_store \<times> (store_error + string)" where
  "PutChild hm td ctx rnd clk q s =
     (if ctx then (s, Inl CtxErr)
      else case cont_Get hm ctx (clk 0) (pc_Parent q) s of
             Inl e \<Rightarrow> (s, Inl e)
           | Inr parent \<Rightarrow>
               (case child_of q parent (ct_maxDepth s) of
                  Inl e \<Rightarrow> (s, Inl e)
                | Inr child \<Rightarrow> put_child_locked hm td rnd clk q parent child s))"

section \<open>Steps\<close>

text \<open>
  One critical section of a call that changes the store. \<open>reads\<close> holds the parents that calls in flight have read: the write section of
  a \<open>PutChild\<close> runs with the parent that some earlier read section returned, whatever happened in between.
\<close>

inductive cont_step :: "hmac \<Rightarrow> (item list \<Rightarrow> string option) \<Rightarrow> (gotime \<Rightarrow> bool) \<Rightarrow> continuation_store \<times> (string \<times> continuation) set
    \<Rightarrow> continuation_store \<times> (string \<times> continuation) set \<Rightarrow> bool" for hm td within where
  read_parent: "cont_Get hm False now h s = Inr v \<Longrightarrow> within now \<Longrightarrow> cont_step hm td within (s, R) (s, insert (h, v) R)"
| create_root: "within (clk 1) \<Longrightarrow> cont_step hm td within (s, R) (fst (CreateRoot hm td False rnd clk c s), R)"
| put_child: "(pc_Parent q, parent) \<in> R \<Longrightarrow> child_of q parent (ct_maxDepth s) = Inr child \<Longrightarrow> within (clk 1) \<Longrightarrow> within (clk 3)
    \<Longrightarrow> cont_step hm td within (s, R) (fst (put_child_locked hm td rnd clk q parent child s), R)"
| sweep: "within now \<Longrightarrow> cont_step hm td within (s, R) (fst (cont_Sweep now s), R)"

end
