(* ===== verification/Expiring_Store.thy ===== *)
theory Expiring_Store
  imports GoStrings
begin

text \<open>
  What the in-process stores promise, without their representation: a map in which an entry, once published, stays
  as it is until it has expired. \<open>expiry\<close> reads the deadline of an entry, \<open>within\<close> holds of the clock
  readings at which a store may collect, \<open>valid\<close> of what a store may publish under a key, and \<open>renew\<close> says how a live entry may
  change. The locale is the contract of a store that implements this map; it is interpreted on the continuation store and on the
  blob store.
\<close>

inductive expiring_map :: "('v \<Rightarrow> gotime) \<Rightarrow> ('k \<Rightarrow> 'v \<Rightarrow> bool) \<Rightarrow> ('v \<Rightarrow> 'v \<Rightarrow> bool) \<Rightarrow> (gotime \<Rightarrow> bool) \<Rightarrow> ('k \<rightharpoonup> 'v) \<Rightarrow> ('k \<rightharpoonup> 'v) \<Rightarrow> bool"
  for expiry valid renew within where
  expire: "\<forall>k v. k \<in> K \<longrightarrow> A k = Some v \<longrightarrow> (\<exists>t. within t \<and> \<not> t < expiry v) \<Longrightarrow> expiring_map expiry valid renew within A (A |` (- K))"
| publish: "A k = None \<Longrightarrow> valid k v \<Longrightarrow> expiring_map expiry valid renew within A (A(k \<mapsto> v))"
| renewal: "A k = Some v \<Longrightarrow> renew v v' \<Longrightarrow> expiring_map expiry valid renew within A (A(k \<mapsto> v'))"

lemma expiring_map_same: "expiring_map expiry valid renew within A A"
  using expiring_map.expire[of "{}" A within expiry valid renew] by (simp add: restrict_map_def)

abbreviation mabs :: "('r \<Rightarrow> 'v) \<Rightarrow> ('k, 'r) gomap \<Rightarrow> 'k \<rightharpoonup> 'v" where
  "mabs f m \<equiv> \<lambda>k. map_option f (mget m k)"

text \<open>Collecting, deleting and inserting in the representation are steps of the map.\<close>

lemma mabs_filter:
  "mwf m \<Longrightarrow> mabs f (filter (\<lambda>(k, r). P r) m) = mabs f m |` (- {k. \<exists>r. mget m k = Some r \<and> \<not> P r})"
  by (rule ext) (auto simp: mget_filter restrict_map_def split: option.splits)

lemma mabs_mdel: "mabs f (mdel k m) = mabs f m |` (- {k})"
  by (auto simp: restrict_map_def)

lemma mabs_mput: "mabs f (mput k r m) = (mabs f m)(k \<mapsto> f r)"
  by auto

lemma expire_filter:
  assumes "mwf m" and "\<And>r. \<not> P r \<Longrightarrow> \<exists>t. within t \<and> \<not> t < expiry (f r)"
  shows "expiring_map expiry valid renew within (mabs f m) (mabs f (filter (\<lambda>(k, r). P r) m))"
  unfolding mabs_filter[OF assms(1)] by (rule expire) (use assms(2) in auto)

lemma expire_mdel:
  assumes "\<And>r. mget m k = Some r \<Longrightarrow> \<exists>t. within t \<and> \<not> t < expiry (f r)"
  shows "expiring_map expiry valid renew within (mabs f m) (mabs f (mdel k m))"
  unfolding mabs_mdel by (rule expire) (use assms in auto)

lemma publish_mput:
  "mget m k = None \<Longrightarrow> valid k (f r) \<Longrightarrow> expiring_map expiry valid renew within (mabs f m) (mabs f (mput k r m))"
  unfolding mabs_mput by (rule publish) simp_all

locale expiring_store =
  fixes expiry :: "'v \<Rightarrow> gotime" and valid :: "'k \<Rightarrow> 'v \<Rightarrow> bool" and renew :: "'v \<Rightarrow> 'v \<Rightarrow> bool"
    and abs :: "'s \<Rightarrow> 'k \<rightharpoonup> 'v" and step :: "(gotime \<Rightarrow> bool) \<Rightarrow> 's \<Rightarrow> 's \<Rightarrow> bool"
  assumes refines: "step within s s' \<Longrightarrow> (expiring_map expiry valid renew within)\<^sup>*\<^sup>* (abs s) (abs s')"
    and renew_trans: "renew u v \<Longrightarrow> renew v w \<Longrightarrow> renew u w"
    and renew_later: "renew v w \<Longrightarrow> expiry v \<le> expiry w"
    and renew_valid: "valid k v \<Longrightarrow> renew v w \<Longrightarrow> valid k w"
begin

definition all_valid :: "('k \<rightharpoonup> 'v) \<Rightarrow> bool" where
  "all_valid A \<longleftrightarrow> (\<forall>k v. A k = Some v \<longrightarrow> valid k v)"

lemma map_run: "(step within)\<^sup>*\<^sup>* s s' \<Longrightarrow> (expiring_map expiry valid renew within)\<^sup>*\<^sup>* (abs s) (abs s')"
  by (induction rule: rtranclp_induct) (auto dest: refines)

lemma valid_step: "expiring_map expiry valid renew within A B \<Longrightarrow> all_valid A \<Longrightarrow> all_valid B"
  by (induction rule: expiring_map.induct) (auto simp: all_valid_def restrict_map_def intro: renew_valid split: if_splits)

lemma valid_run:
  assumes "(step within)\<^sup>*\<^sup>* s s'" and "all_valid (abs s)"
  shows "all_valid (abs s')"
  using map_run[OF assms(1)] assms(2) by (induction rule: rtranclp_induct) (auto intro: valid_step)

lemma live_step:
  assumes "expiring_map expiry valid renew within A B" and "A k = Some v" and "\<forall>t. within t \<longrightarrow> t < expiry v"
  shows "\<exists>w. B k = Some w \<and> (w = v \<or> renew v w)"
  using assms by (induction rule: expiring_map.induct) (auto simp: restrict_map_def)

text \<open>A live entry is found again: as it was, or renewed.\<close>

lemma live_run:
  assumes "(step within)\<^sup>*\<^sup>* s s'" and "abs s k = Some v" and "\<forall>t. within t \<longrightarrow> t < expiry v"
  shows "\<exists>w. abs s' k = Some w \<and> (w = v \<or> renew v w)"
  using map_run[OF assms(1)] assms(2)
proof (induction rule: rtranclp_induct)
  case base
  then show ?case by blast
next
  case (step B C)
  then obtain w where w: "B k = Some w" "w = v \<or> renew v w" by blast
  then have "\<forall>t. within t \<longrightarrow> t < expiry w" using assms(3) renew_later[of v w] by force
  from live_step[OF step.hyps(2) w(1) this] show ?case using w(2) renew_trans by blast
qed

end

end
