(* ===== verification/Memory_Continuation_Facts.thy ===== *)
theory Memory_Continuation_Facts
  imports Memory_Continuation Expiring_Store
begin

text \<open>
  The continuation store implements an expiring map: every critical section refines \<open>expiring_map\<close>, with no renewal. From the locale
  follow immutability, integrity and tenant isolation; idempotence of child writes is shown on the operation index.
\<close>

section \<open>Refinement\<close>

definition published :: "hmac \<Rightarrow> (item list \<Rightarrow> string option) \<Rightarrow> keyring \<Rightarrow> int \<Rightarrow> string \<Rightarrow> continuation \<Rightarrow> bool" where
  "published hm td kr d h c \<longleftrightarrow> cn_ID c = h \<and> cn_Tenant c \<noteq> [] \<and> 0 \<le> cn_Depth c \<and> cn_Depth c \<le> d
     \<and> td (cn_Transcript c) = Some (cn_TranscriptDigest c) \<and> (\<exists>rid. issue_handle hm kr (cn_Tenant c) rid = Inr h)"

definition cont_shape :: "keyring \<Rightarrow> int \<Rightarrow> continuation_store \<Rightarrow> bool" where
  "cont_shape kr d s \<longleftrightarrow> mwf (ct_records s) \<and> mwf (ct_byOp s) \<and> ct_keyring s = kr \<and> ct_maxDepth s = d \<and> 0 \<le> d"

abbreviation cont_abs :: "continuation_store \<Rightarrow> string \<rightharpoonup> continuation" where
  "cont_abs s \<equiv> mabs cr_value (ct_records s)"

definition never_renewed :: "continuation \<Rightarrow> continuation \<Rightarrow> bool" where
  "never_renewed u v \<longleftrightarrow> False"

abbreviation cont_map :: "hmac \<Rightarrow> (item list \<Rightarrow> string option) \<Rightarrow> keyring \<Rightarrow> int \<Rightarrow> (gotime \<Rightarrow> bool) \<Rightarrow> (string \<rightharpoonup> continuation) \<Rightarrow> (string \<rightharpoonup> continuation) \<Rightarrow> bool" where
  "cont_map hm td kr d within \<equiv> expiring_map cn_ExpiresAt (published hm td kr d) never_renewed within"

lemma sweep_shape: "cont_shape kr d s \<Longrightarrow> cont_shape kr d (fst (cont_sweepLocked now s))"
  by (simp add: cont_sweepLocked_def cont_shape_def Let_def)

lemma sweep_refines: "cont_shape kr d s \<Longrightarrow> within now \<Longrightarrow> cont_map hm td kr d within (cont_abs s) (cont_abs (fst (cont_sweepLocked now s)))"
  unfolding cont_sweepLocked_def Let_def by (simp, rule expire_filter) (auto simp: cont_shape_def)

lemma putLocked_shape: "cont_shape kr d s \<Longrightarrow> cont_shape kr d (fst (cont_putLocked now h c s))"
  using sweep_shape[of kr d s now] by (auto simp: cont_putLocked_def Let_def cont_shape_def split: option.splits)

lemma putLocked_refines:
  assumes "cont_shape kr d s" and "within now" and "published hm td kr d h c"
  shows "(cont_map hm td kr d within)\<^sup>*\<^sup>* (cont_abs s) (cont_abs (fst (cont_putLocked now h c s)))"
proof -
  let ?s = "fst (cont_sweepLocked now s)"
  have sw: "cont_map hm td kr d within (cont_abs s) (cont_abs ?s)" by (rule sweep_refines) (rule assms(1), rule assms(2))
  show ?thesis
  proof (cases "mget (ct_records ?s) h")
    case None
    have "cont_map hm td kr d within (cont_abs ?s) (mabs cr_value (mput h \<lparr>cr_handle = h, cr_value = c\<rparr> (ct_records ?s)))"
      by (rule publish_mput) (use None assms(3) in simp_all)
    then show ?thesis using sw None by (simp add: cont_putLocked_def Let_def rtranclp.rtrancl_into_rtrancl)
  next
    case (Some r)
    then show ?thesis using sw by (auto simp: cont_putLocked_def Let_def)
  qed
qed

lemma Validate_digest: "Continuation_Validate td now c = None \<Longrightarrow> td (cn_Transcript c) = Some (cn_TranscriptDigest c) \<and> now < cn_ExpiresAt c \<and> cn_Tenant c \<noteq> [] \<and> 0 \<le> cn_Depth c"
  by (auto simp: Continuation_Validate_def split: if_splits option.splits)

lemma Issue_Inr: "Issue hm kr rnd t = Inr h \<Longrightarrow> \<exists>rid. rnd = Some rid \<and> issue_handle hm kr t rid = Inr h"
  by (auto simp: Issue_def split: if_splits option.splits)

lemma CreateRoot_refines:
  assumes "cont_shape kr d s" and "within (clk 1)"
  shows "cont_shape kr d (fst (CreateRoot hm td ctx rnd clk c s))"
    and "(cont_map hm td kr d within)\<^sup>*\<^sup>* (cont_abs s) (cont_abs (fst (CreateRoot hm td ctx rnd clk c s)))"
proof -
  have *: "cont_shape kr d (fst (cont_put td clk h (c\<lparr>cn_ID := h, cn_Depth := 0\<rparr>) s))
    \<and> (cont_map hm td kr d within)\<^sup>*\<^sup>* (cont_abs s) (cont_abs (fst (cont_put td clk h (c\<lparr>cn_ID := h, cn_Depth := 0\<rparr>) s)))"
    if "Issue hm kr rnd (cn_Tenant c) = Inr h" for h
  proof (cases "Continuation_Validate td (clk 0) (c\<lparr>cn_ID := h, cn_Depth := 0\<rparr>)")
    case None
    then have "published hm td kr d h (c\<lparr>cn_Depth := 0, cn_ID := h\<rparr>)"
      using Validate_digest[OF None] Issue_Inr[OF that] assms(1) by (auto simp: published_def cont_shape_def)
    then show ?thesis using putLocked_shape[OF assms(1)] putLocked_refines[where within = within and now = "clk 1", OF assms] None by (simp add: cont_put_def)
  next
    case (Some e)
    then show ?thesis using assms(1) by (simp add: cont_put_def)
  qed
  have kr: "ct_keyring s = kr" using assms(1) by (simp add: cont_shape_def)
  show "cont_shape kr d (fst (CreateRoot hm td ctx rnd clk c s))"
    "(cont_map hm td kr d within)\<^sup>*\<^sup>* (cont_abs s) (cont_abs (fst (CreateRoot hm td ctx rnd clk c s)))"
    using * assms(1) by (auto simp: CreateRoot_def kr split: sum.splits)
qed

lemma publish_child_refines:
  assumes "cont_shape kr d s" and "within (clk 3)" and "cn_Depth child \<le> d"
  shows "cont_shape kr d (fst (publish_child hm td rnd clk q child s))"
    and "(cont_map hm td kr d within)\<^sup>*\<^sup>* (cont_abs s) (cont_abs (fst (publish_child hm td rnd clk q child s)))"
proof -
  have kr: "ct_keyring s = kr" using assms(1) by (simp add: cont_shape_def)
  have *: "cont_shape kr d (fst (publish_child hm td rnd clk q child s))
    \<and> (cont_map hm td kr d within)\<^sup>*\<^sup>* (cont_abs s) (cont_abs (fst (publish_child hm td rnd clk q child s)))"
  proof (cases "\<exists>h. Issue hm kr rnd (cn_Tenant child) = Inr h \<and> Continuation_Validate td (clk 2) (child\<lparr>cn_ID := h\<rparr>) = None")
    case False
    then show ?thesis using assms(1) by (auto simp: publish_child_def kr Let_def split: sum.splits option.splits)
  next
    case True
    then obtain h where h: "Issue hm kr rnd (cn_Tenant child) = Inr h" "Continuation_Validate td (clk 2) (child\<lparr>cn_ID := h\<rparr>) = None" by blast
    then have "published hm td kr d h (child\<lparr>cn_ID := h\<rparr>)"
      using Validate_digest[OF h(2)] Issue_Inr[OF h(1)] assms(3) by (auto simp: published_def)
    note p = putLocked_shape[OF assms(1), of "clk 3" h "child\<lparr>cn_ID := h\<rparr>"] putLocked_refines[where within = within and now = "clk 3", OF assms(1,2) this]
    show ?thesis using p h
      by (cases "cont_putLocked (clk 3) h (child\<lparr>cn_ID := h\<rparr>) s") (auto simp: publish_child_def kr cont_shape_def split: sum.splits)
  qed
  then show "cont_shape kr d (fst (publish_child hm td rnd clk q child s))"
    "(cont_map hm td kr d within)\<^sup>*\<^sup>* (cont_abs s) (cont_abs (fst (publish_child hm td rnd clk q child s)))" by simp_all
qed

lemma put_child_refines:
  assumes "cont_shape kr d s" and "within (clk 1)" and "within (clk 3)" and "cn_Depth child \<le> d"
  shows "cont_shape kr d (fst (put_child_locked hm td rnd clk q parent child s))"
    and "(cont_map hm td kr d within)\<^sup>*\<^sup>* (cont_abs s) (cont_abs (fst (put_child_locked hm td rnd clk q parent child s)))"
proof -
  define P where "P t \<longleftrightarrow> cont_shape kr d (fst (t :: continuation_store \<times> (store_error + string)))
    \<and> (cont_map hm td kr d within)\<^sup>*\<^sup>* (cont_abs s) (cont_abs (fst t))" for t
  have pub: "P (publish_child hm td rnd clk q child s1)"
    if "cont_shape kr d s1" "(cont_map hm td kr d within)\<^sup>*\<^sup>* (cont_abs s) (cont_abs s1)" for s1
    unfolding P_def using publish_child_refines[where within = within and clk = clk, OF that(1) assms(3,4)] that(2)
    by (meson rtranclp_trans)
  have here: "P (s, x)" for x using assms(1) by (simp add: P_def)
  have drop_ix: "cont_shape kr d (s\<lparr>ct_byOp := mdel k (ct_byOp s)\<rparr>)" "cont_shape kr d (s\<lparr>ct_records := mdel h (ct_records s), ct_byOp := mdel k (ct_byOp s)\<rparr>)" for k h
    using assms(1) by (simp_all add: cont_shape_def)
  have dead: "P (publish_child hm td rnd clk q child (s\<lparr>ct_records := mdel h (ct_records s), ct_byOp := mdel k (ct_byOp s)\<rparr>))"
    if "mget (ct_records s) h = Some r" "\<not> clk 1 < cn_ExpiresAt (cr_value r)" for h r k
  proof (rule pub[OF drop_ix(2)])
    have "cont_map hm td kr d within (cont_abs s) (mabs cr_value (mdel h (ct_records s)))"
      by (rule expire_mdel) (use that assms(2) in auto)
    then show "(cont_map hm td kr d within)\<^sup>*\<^sup>* (cont_abs s) (cont_abs (s\<lparr>ct_records := mdel h (ct_records s), ct_byOp := mdel k (ct_byOp s)\<rparr>))" by simp
  qed
  have "P (put_child_locked hm td rnd clk q parent child s)"
    unfolding put_child_locked_def Let_def
    using pub[OF assms(1)] pub[OF drop_ix(1)] dead here by (simp split: option.splits if_splits)
  then show "cont_shape kr d (fst (put_child_locked hm td rnd clk q parent child s))"
    "(cont_map hm td kr d within)\<^sup>*\<^sup>* (cont_abs s) (cont_abs (fst (put_child_locked hm td rnd clk q parent child s)))" by (simp_all add: P_def)
qed

lemma child_of_Inr: "child_of q parent d = Inr child \<Longrightarrow> cn_Tenant child = cn_Tenant parent \<and> cn_Depth child \<le> d \<and> cn_ParentID child = pc_Parent q"
  by (auto simp: child_of_def Let_def split: if_splits)

text \<open>A step of a store of the given shape; the shape is kept.\<close>

definition shaped_step :: "hmac \<Rightarrow> (item list \<Rightarrow> string option) \<Rightarrow> keyring \<Rightarrow> int \<Rightarrow> (gotime \<Rightarrow> bool)
    \<Rightarrow> continuation_store \<times> (string \<times> continuation) set \<Rightarrow> continuation_store \<times> (string \<times> continuation) set \<Rightarrow> bool" where
  "shaped_step hm td kr d within c c' \<longleftrightarrow> cont_shape kr d (fst c) \<and> cont_step hm td within c c'"

lemma cont_step_refines:
  assumes "cont_step hm td within c c'" and "cont_shape kr d (fst c)"
  shows "cont_shape kr d (fst c') \<and> (cont_map hm td kr d within)\<^sup>*\<^sup>* (cont_abs (fst c)) (cont_abs (fst c'))"
  using assms
proof (cases rule: cont_step.cases)
  case (create_root clk s R rnd c0)
  then show ?thesis using CreateRoot_refines[where within = within and clk = clk and s = s] assms(2) by simp
next
  case (put_child q parent R s child clk rnd)
  then have "cn_Depth child \<le> d" using child_of_Inr[of q parent "ct_maxDepth s" child] assms(2) by (simp add: cont_shape_def)
  then show ?thesis using put_child put_child_refines[where within = within and clk = clk and s = s and child = child] assms(2) by simp
next
  case (sweep now s R)
  then show ?thesis using sweep_shape[of kr d s now] sweep_refines[where within = within and now = now and s = s and kr = kr and d = d and hm = hm and td = td] assms(2)
    by (simp add: cont_Sweep_def)
qed simp_all

interpretation continuations: expiring_store cn_ExpiresAt "published hm td kr d" never_renewed "\<lambda>c. cont_abs (fst c)" "shaped_step hm td kr d"
  for hm td kr d
  by unfold_locales (use cont_step_refines in \<open>auto simp: shaped_step_def never_renewed_def\<close>)

lemma shaped_run:
  assumes "(cont_step hm td within)\<^sup>*\<^sup>* c c'" and "cont_shape kr d (fst c)"
  shows "(shaped_step hm td kr d within)\<^sup>*\<^sup>* c c' \<and> cont_shape kr d (fst c')"
  using assms
proof (induction rule: rtranclp_induct)
  case base
  then show ?case by simp
next
  case (step y z)
  then show ?case using cont_step_refines[OF step.hyps(2)] by (auto simp: shaped_step_def intro: rtranclp.rtrancl_into_rtrancl)
qed

section \<open>What readers see\<close>

lemma new_store:
  assumes "NewContinuationStore (Some kr) n = Inr s0"
  shows "cont_shape kr (ct_maxDepth s0) s0" and "cont_abs s0 = Map.empty"
  using assms by (auto simp: NewContinuationStore_def cont_shape_def)

lemma reachable_valid:
  assumes "NewContinuationStore (Some kr) n = Inr s0" and "(cont_step hm td within)\<^sup>*\<^sup>* (s0, {}) (s, R)"
  shows "cont_shape kr (ct_maxDepth s0) s" and "continuations.all_valid hm td kr (ct_maxDepth s0) (cont_abs s)"
    and "(cont_map hm td kr (ct_maxDepth s0) within)\<^sup>*\<^sup>* Map.empty (cont_abs s)"
proof -
  note n = new_store[OF assms(1)]
  have run: "(shaped_step hm td kr (ct_maxDepth s0) within)\<^sup>*\<^sup>* (s0, {}) (s, R)" "cont_shape kr (ct_maxDepth s0) s"
    using shaped_run[OF assms(2), of kr "ct_maxDepth s0"] n(1) by simp_all
  show "cont_shape kr (ct_maxDepth s0) s" by (rule run(2))
  show "continuations.all_valid hm td kr (ct_maxDepth s0) (cont_abs s)"
    using continuations.valid_run[OF run(1)] n(2) by (simp add: continuations.all_valid_def)
  show "(cont_map hm td kr (ct_maxDepth s0) within)\<^sup>*\<^sup>* Map.empty (cont_abs s)"
    using continuations.map_run[OF run(1)] n(2) by simp
qed

lemma Get_abs:
  assumes "signer_ok (hm, kr)" and "cont_shape kr d s" and "continuations.all_valid hm td kr d (cont_abs s)"
  shows "cont_Get hm False now h s = (case cont_abs s h of None \<Rightarrow> Inl ErrNotFound
     | Some v \<Rightarrow> if now < cn_ExpiresAt v then Inr v else Inl (StateErr ErrExpired))"
proof (cases "mget (ct_records s) h")
  case None
  then show ?thesis by (simp add: cont_Get_def)
next
  case (Some r)
  then have "published hm td kr d h (cr_value r)" using assms(3) by (auto simp: continuations.all_valid_def)
  then obtain rid where "Verify hm kr (cn_Tenant (cr_value r)) h = Inr rid"
    using keyring_signer.accepts_own[OF assms(1)] by (auto simp: published_def)
  then show ?thesis using Some assms(2) by (simp add: cont_Get_def cont_shape_def)
qed

text \<open>C27: the continuation store implements an expiring map. However the calls of its methods interleave, including a \<open>PutChild\<close> whose parent
  was read earlier, the published continuations form a map that only ever gains entries under absent keys and loses expired ones, each
  stored under a handle issued for its tenant, with a valid digest and a depth within the limit; and a read is a lookup in that map with
  an expiry test, never refused for its signature.\<close>

theorem continuation_store_refines:
  assumes "NewContinuationStore (Some kr) n = Inr s0" and "signer_ok (hm, kr)" and "(cont_step hm td within)\<^sup>*\<^sup>* (s0, {}) (s, R)"
  shows "(expiring_map cn_ExpiresAt (published hm td kr (ct_maxDepth s0)) never_renewed within)\<^sup>*\<^sup>* Map.empty (cont_abs s)
    \<and> (\<forall>now h. cont_Get hm False now h s = (case cont_abs s h of None \<Rightarrow> Inl ErrNotFound
         | Some v \<Rightarrow> if now < cn_ExpiresAt v then Inr v else Inl (StateErr ErrExpired)))"
  using reachable_valid[OF assms(1,3)] Get_abs[OF assms(2)] by blast

text \<open>A published continuation is immutable and readable for its whole life. What a read returned, every later read of its tenant returns
  unchanged until it expires, whatever calls ran in between, as long as the store's clock had not reached the deadline.\<close>

theorem continuation_immutable:
  assumes "NewContinuationStore (Some kr) n = Inr s0" and "signer_ok (hm, kr)" and "(cont_step hm td within)\<^sup>*\<^sup>* (s0, {}) (s, R)"
    and "cont_Get hm False now h s = Inr v" and "(cont_step hm td (\<lambda>t. t < cn_ExpiresAt v))\<^sup>*\<^sup>* (s, R) (s', R')" and "now' < cn_ExpiresAt v"
  shows "GetForTenant hm False now' (cn_Tenant v) h s' = Inr v"
proof -
  let ?d = "ct_maxDepth s0"
  note r = reachable_valid[OF assms(1,3)]
  have v: "cont_abs s h = Some v" using assms(4) Get_abs[OF assms(2) r(1,2)] by (auto split: option.splits if_splits)
  have run: "(shaped_step hm td kr ?d (\<lambda>t. t < cn_ExpiresAt v))\<^sup>*\<^sup>* (s, R) (s', R')" "cont_shape kr ?d s'"
    using shaped_run[OF assms(5), of kr ?d] r(1) by simp_all
  have v': "cont_abs s' h = Some v" using continuations.live_run[OF run(1), of h v] v by (auto simp: never_renewed_def)
  have val: "continuations.all_valid hm td kr ?d (cont_abs s')" using continuations.valid_run[OF run(1)] r(2) by simp
  have g: "cont_Get hm False now' h s' = Inr v" unfolding Get_abs[OF assms(2) run(2) val] v' using assms(6) by simp
  have p: "published hm td kr ?d h v" using r(2) v by (simp add: continuations.all_valid_def)
  then obtain rid where "Verify hm kr (cn_Tenant v) h = Inr rid" using keyring_signer.accepts_own[OF assms(2)] by (auto simp: published_def)
  then show ?thesis using g p run(2) by (simp add: GetForTenant_def cont_shape_def published_def)
qed

text \<open>Tenants are isolated. A tenant's read returns only continuations of that tenant, under the handle asked for, unexpired, within the
  depth limit and with the digest of their transcript; for every other tenant the same handle is an invalid one.\<close>

theorem continuation_tenant_isolation:
  assumes "NewContinuationStore (Some kr) n = Inr s0" and "(cont_step hm td within)\<^sup>*\<^sup>* (s0, {}) (s, R)"
    and "GetForTenant hm ctx now tenant h s = Inr v"
  shows "cn_Tenant v = tenant \<and> cn_ID v = h \<and> now < cn_ExpiresAt v \<and> 0 \<le> cn_Depth v \<and> cn_Depth v \<le> ct_maxDepth s0
    \<and> td (cn_Transcript v) = Some (cn_TranscriptDigest v) \<and> (\<forall>other. other \<noteq> tenant \<longrightarrow> GetForTenant hm ctx now other h s = Inl BadHandle)"
proof -
  note r = reachable_valid[OF assms(1,2)]
  have g: "cont_Get hm ctx now h s = Inr v" "cn_Tenant v = tenant"
    using assms(3) by (auto simp: GetForTenant_def bindE_eq_Inr_iff split: if_splits sum.splits)
  then have v: "cont_abs s h = Some v" "now < cn_ExpiresAt v" by (auto simp: cont_Get_def split: if_splits option.splits sum.splits)
  have "published hm td kr (ct_maxDepth s0) h v" using r(2) v(1) by (simp add: continuations.all_valid_def)
  moreover have "GetForTenant hm ctx now other h s = Inl BadHandle" if "other \<noteq> tenant" for other
    using that g by (auto simp: GetForTenant_def split: sum.splits)
  ultimately show ?thesis using g v by (auto simp: published_def)
qed

section \<open>Idempotent children\<close>

definition indexed :: "continuationOperationKey \<Rightarrow> string \<Rightarrow> continuation \<Rightarrow> continuation_store \<Rightarrow> bool" where
  "indexed k h v s \<longleftrightarrow> mget (ct_byOp s) k = Some h \<and> map_option cr_value (mget (ct_records s) h) = Some v"

lemma indexed_sweep:
  assumes "indexed k h v s" and "now < cn_ExpiresAt v" and "cont_shape kr d s"
  shows "indexed k h v (fst (cont_sweepLocked now s))"
proof -
  have m: "mwf (ct_records s)" "mwf (ct_byOp s)" using assms(3) by (simp_all add: cont_shape_def)
  show ?thesis using assms(1,2) by (auto simp: indexed_def cont_sweepLocked_def Let_def mget_filter[OF m(1)] mget_filter[OF m(2)])
qed

lemma indexed_putLocked:
  assumes "indexed k h v s" and "now < cn_ExpiresAt v" and "cont_shape kr d s"
  shows "indexed k h v (fst (cont_putLocked now h' c s))"
  using indexed_sweep[OF assms] by (auto simp: cont_putLocked_def Let_def indexed_def split: option.splits)

lemma indexed_publish:
  assumes "indexed k h v s" and "clk 3 < cn_ExpiresAt v" and "cont_shape kr d s" and "(cn_Tenant child, pc_Parent q, pc_OperationKey q) \<noteq> k \<or> pc_OperationKey q = []"
  shows "indexed k h v (fst (publish_child hm td rnd clk q child s))"
proof -
  have p: "indexed k h v (fst (cont_putLocked (clk 3) h' c s))" for h' c by (rule indexed_putLocked[OF assms(1-3)])
  have "indexed k h v s1" if "cont_putLocked (clk 3) h' c s = (s1, x)" for h' c s1 x using p[of h' c] that by simp
  then show ?thesis using assms(1,4) by (auto simp: publish_child_def Let_def indexed_def split: sum.splits option.splits prod.splits)
qed

lemma indexed_put_child:
  assumes "indexed k h v s" and "clk 1 < cn_ExpiresAt v" and "clk 3 < cn_ExpiresAt v" and "cont_shape kr d s" and "cn_Tenant child = cn_Tenant parent"
  shows "indexed k h v (fst (put_child_locked hm td rnd clk q parent child s))"
proof -
  let ?k = "(cn_Tenant parent, pc_Parent q, pc_OperationKey q)"
  show ?thesis
  proof (cases "?k = k \<and> pc_OperationKey q \<noteq> []")
    case True
    then show ?thesis using assms(1,2) by (auto simp: put_child_locked_def indexed_def)
  next
    case False
    have pub: "indexed k h v (fst (publish_child hm td rnd clk q child s1))" if "indexed k h v s1" "cont_shape kr d s1" for s1
      by (rule indexed_publish[where clk = clk, OF that(1) assms(3) that(2)]) (use False assms(5) in auto)
    have drop: "indexed k h v (fst (publish_child hm td rnd clk q child (s\<lparr>ct_byOp := mdel ?k (ct_byOp s)\<rparr>)))" if "?k \<noteq> k"
      by (rule pub) (use that assms(1,4) in \<open>auto simp: indexed_def cont_shape_def\<close>)
    have drop2: "indexed k h v (fst (publish_child hm td rnd clk q child (s\<lparr>ct_records := mdel h' (ct_records s), ct_byOp := mdel ?k (ct_byOp s)\<rparr>)))"
      if "?k \<noteq> k" "h' \<noteq> h" for h'
      by (rule pub) (use that assms(1,4) in \<open>auto simp: indexed_def cont_shape_def\<close>)
    have live: "h' \<noteq> h" if "mget (ct_records s) h' = Some r" "\<not> clk 1 < cn_ExpiresAt (cr_value r)" for h' r
      using that assms(1,2) by (auto simp: indexed_def)
    show ?thesis using False pub[OF assms(1,4)] drop drop2 live assms(1)
      by (auto simp: put_child_locked_def Let_def split: option.splits if_splits)
  qed
qed

lemma indexed_run:
  assumes "(cont_step hm td (\<lambda>t. t < cn_ExpiresAt v))\<^sup>*\<^sup>* c c'" and "cont_shape kr d (fst c)" and "indexed k h v (fst c)"
  shows "indexed k h v (fst c')"
  using assms
proof (induction rule: rtranclp_induct)
  case base
  then show ?case by simp
next
  case (step y z)
  then have i: "indexed k h v (fst y)" and sh: "cont_shape kr d (fst y)" using shaped_run[OF step.hyps(1)] by auto
  from step.hyps(2) show ?case
  proof (cases rule: cont_step.cases)
    case (create_root clk s R rnd c0)
    then show ?thesis using i sh indexed_putLocked[of k h v s "clk 1" kr d]
      by (auto simp: CreateRoot_def cont_put_def split: sum.splits option.splits)
  next
    case (put_child q parent R s child clk rnd)
    then show ?thesis using i sh indexed_put_child[of k h v s clk kr d child parent] child_of_Inr[of q parent "ct_maxDepth s" child] by simp
  next
    case (sweep now s R)
    then show ?thesis using i sh indexed_sweep[of k h v s now kr d] by (simp add: cont_Sweep_def)
  qed (use i in simp_all)
qed

lemma putLocked_fresh:
  assumes "cont_putLocked now h c s = (s1, Inr h')" and "mwf (ct_records s)" and "mget (ct_records s) h = None"
  shows "mget (ct_records s1) h = Some \<lparr>cr_handle = h, cr_value = c\<rparr>"
proof -
  have "mget (ct_records (fst (cont_sweepLocked now s))) h = None" using assms(2,3) by (simp add: cont_sweepLocked_def Let_def mget_filter)
  then show ?thesis using assms(1) by (auto simp: cont_putLocked_def Let_def)
qed

lemma publish_fresh:
  assumes "publish_child hm td rnd clk q child s = (s1, Inr h)" and "mwf (ct_records s)" and "mget (ct_records s) h = None" and "pc_OperationKey q \<noteq> []"
  shows "indexed (cn_Tenant child, pc_Parent q, pc_OperationKey q) h (child\<lparr>cn_ID := h\<rparr>) s1"
  using assms(1,4) putLocked_fresh[of "clk 3" h "child\<lparr>cn_ID := h\<rparr>" s _ _, OF _ assms(2,3)]
  by (auto simp: publish_child_def Let_def indexed_def split: sum.splits option.splits prod.splits)

lemma put_child_fresh:
  assumes "put_child_locked hm td rnd clk q parent child s = (s1, Inr h)" and "cont_shape kr d s" and "mget (ct_records s) h = None"
    and "pc_OperationKey q \<noteq> []" and "cn_Tenant child = cn_Tenant parent"
  shows "indexed (cn_Tenant parent, pc_Parent q, pc_OperationKey q) h (child\<lparr>cn_ID := h\<rparr>) s1"
proof -
  have p: "indexed (cn_Tenant parent, pc_Parent q, pc_OperationKey q) h (child\<lparr>cn_ID := h\<rparr>) s1"
    if "publish_child hm td rnd clk q child s' = (s1, Inr h)" "mwf (ct_records s')" "mget (ct_records s') h = None" for s'
    using publish_fresh[OF that assms(4)] assms(5) by simp
  have m: "mwf (ct_records s)" using assms(2) by (simp add: cont_shape_def)
  show ?thesis using assms(1,3,4) m by (auto simp: put_child_locked_def Let_def split: option.splits if_splits intro: p)
qed

text \<open>A child write is idempotent. After \<open>PutChild\<close> with an operation key stored a child under a fresh handle, every later \<open>PutChild\<close> of the
  same parent and key before the child expires changes nothing: it answers the same handle when the transcript facts
  agree and a conflict when they differ, whatever calls ran in between.\<close>

theorem put_child_idempotent:
  assumes "NewContinuationStore (Some kr) n = Inr s0" and "(cont_step hm td within)\<^sup>*\<^sup>* (s0, {}) (s, R)"
    and "PutChild hm td False rnd clk q s = (s1, Inr h)" and "pc_OperationKey q \<noteq> []" and "mget (ct_records s) h = None"
    and "cont_abs s1 h = Some v" and "(cont_step hm td (\<lambda>t. t < cn_ExpiresAt v))\<^sup>*\<^sup>* (s1, R) (s2, R2)"
    and "pc_Parent q' = pc_Parent q" and "pc_OperationKey q' = pc_OperationKey q" and "clk' 1 < cn_ExpiresAt v"
    and "cont_Get hm False (clk' 0) (pc_Parent q') s2 = Inr parent" and "cn_Tenant parent = cn_Tenant v"
    and "child_of q' parent (ct_maxDepth s2) = Inr child"
  shows "PutChild hm td False rnd' clk' q' s2 = (s2, if sameChildFacts v child then Inr h else Inl ErrConflict)"
proof -
  let ?d = "ct_maxDepth s0"
  note r = reachable_valid[OF assms(1,2)]
  obtain parent0 child0 where p: "child_of q parent0 (ct_maxDepth s) = Inr child0" "put_child_locked hm td rnd clk q parent0 child0 s = (s1, Inr h)"
    using assms(3) by (auto simp: PutChild_def split: sum.splits)
  note c0 = child_of_Inr[OF p(1)]
  have "indexed (cn_Tenant parent0, pc_Parent q, pc_OperationKey q) h (child0\<lparr>cn_ID := h\<rparr>) s1"
    by (rule put_child_fresh[OF p(2) r(1) assms(5,4)]) (use c0 in simp)
  then have i: "indexed (cn_Tenant v, pc_Parent q, pc_OperationKey q) h v s1" using assms(6) c0 by (auto simp: indexed_def)
  have sh: "cont_shape kr ?d s1"
  proof -
    have "cn_Depth child0 \<le> ?d" using c0 r(1) by (simp add: cont_shape_def)
    then show ?thesis using put_child_refines(1)[where within = "\<lambda>_. True" and s = s and child = child0] r(1) p(2) by (metis fst_conv)
  qed
  have "indexed (cn_Tenant v, pc_Parent q, pc_OperationKey q) h v s2" using indexed_run[OF assms(7), of kr ?d] sh i by simp
  then show ?thesis using assms(4,8-13) by (auto simp: PutChild_def put_child_locked_def indexed_def)
qed

section \<open>Witnesses\<close>

text \<open>A store with one root that expires at 100, created at time 5, and a child of it under the key \<open>op\<close>. The transcript digest is a
  constant here.\<close>

definition demo_td :: "item list \<Rightarrow> string option" where
  "demo_td items = Some ''d''"

definition demo_root :: continuation where
  "demo_root = demo_continuation\<lparr>cn_ProviderState := []\<rparr>"

definition demo_store0 :: continuation_store where
  "demo_store0 = \<lparr>ct_keyring = demo_keyring, ct_maxDepth = 64, ct_records = [], ct_byOp = []\<rparr>"

definition demo_rnd :: "char \<Rightarrow> string option" where
  "demo_rnd c = Some (replicate 16 c)"

definition demo_issue :: "char \<Rightarrow> string" where
  "demo_issue c = (case Issue demo_hmac demo_keyring (demo_rnd c) ''t'' of Inr h \<Rightarrow> h | Inl _ \<Rightarrow> [])"

definition demo_store1 :: continuation_store where
  "demo_store1 = fst (CreateRoot demo_hmac demo_td False (demo_rnd CHR ''r'') (\<lambda>_. 5) demo_root demo_store0)"

definition demo_child :: put_child_request where
  "demo_child = \<lparr>pc_Parent = demo_issue CHR ''r'', pc_Child = demo_root\<lparr>cn_ParentID := demo_issue CHR ''r'', cn_Depth := 1\<rparr>, pc_OperationKey = ''op''\<rparr>"

lemma demo_signer: "NewKeyring demo_keys = Inr demo_keyring" "signer_ok (demo_hmac, demo_keyring)"
proof -
  show k: "NewKeyring demo_keys = Inr demo_keyring" by code_simp
  show "signer_ok (demo_hmac, demo_keyring)" using NewKeyring_ok[OF k] by (simp add: signer_ok_def demo_hmac_def min_def)
qed

lemma demo_new: "NewContinuationStore (Some demo_keyring) 0 = Inr demo_store0"
  by code_simp

lemma demo_create: "(cont_step demo_hmac demo_td (\<lambda>t. t < 100))\<^sup>*\<^sup>* (demo_store0, {}) (demo_store1, {})"
proof -
  have "cont_step demo_hmac demo_td (\<lambda>t. t < 100) (demo_store0, {}) (demo_store1, {})"
    unfolding demo_store1_def by (rule cont_step.create_root) simp
  then show ?thesis by blast
qed

lemma demo_issued: "Issue demo_hmac demo_keyring (demo_rnd c) ''t'' = Inr (demo_issue c)" "demo_issue c \<noteq> []"
proof -
  have t: "TrimSpace ''t'' \<noteq> []" by code_simp
  then show i: "Issue demo_hmac demo_keyring (demo_rnd c) ''t'' = Inr (demo_issue c)"
    by (simp add: demo_issue_def demo_rnd_def Issue_def issue_handle_def Let_def)
  have "handleVersion \<noteq> []" by code_simp
  then show "demo_issue c \<noteq> []" using i t by (auto simp: demo_rnd_def Issue_def issue_handle_def Let_def)
qed

lemma demo_distinct: "demo_issue CHR ''q'' \<noteq> demo_issue CHR ''r''"
proof
  assume "demo_issue CHR ''q'' = demo_issue CHR ''r''"
  moreover have "issue_handle demo_hmac demo_keyring ''t'' (replicate 16 c) = Inr (demo_issue c)" for c
    using demo_issued(1)[of c] by (simp add: Issue_def demo_rnd_def)
  ultimately have "replicate 16 CHR ''q'' = replicate 16 CHR ''r''"
    using keyring_signer.sign_inj[OF demo_signer(2), of "''t''" "replicate 16 CHR ''q''" "demo_issue CHR ''r''"] by (metis fst_conv snd_conv)
  then show False by simp
qed

lemmas demo_store_simps = demo_store0_def demo_td_def demo_root_def demo_continuation_def cont_put_def cont_putLocked_def cont_sweepLocked_def
  Continuation_Validate_def IsZero_def zero_time_def AffinitySet_Validate_def

abbreviation demo_stored :: "char \<Rightarrow> continuation \<Rightarrow> string \<times> continuation_record" where
  "demo_stored c v \<equiv> (demo_issue c, \<lparr>cr_handle = demo_issue c, cr_value = v\<lparr>cn_ID := demo_issue c\<rparr>\<rparr>)"

lemma demo_store1_eq: "demo_store1 = demo_store0\<lparr>ct_records := [demo_stored CHR ''r'' demo_root]\<rparr>"
  using demo_issued[of "CHR ''r''"] by (simp add: demo_store1_def CreateRoot_def demo_store_simps)

definition demo_store2 :: continuation_store where
  "demo_store2 = \<lparr>ct_keyring = demo_keyring, ct_maxDepth = 64,
     ct_records = [demo_stored CHR ''r'' demo_root, demo_stored CHR ''q'' (demo_root\<lparr>cn_ParentID := demo_issue CHR ''r'', cn_Depth := 1\<rparr>)],
     ct_byOp = [((''t'', demo_issue CHR ''r'', ''op''), demo_issue CHR ''q'')]\<rparr>"

lemma demo_verify: "Verify demo_hmac demo_keyring ''t'' (demo_issue c) = Inr (replicate 16 c)"
proof -
  have i: "issue_handle demo_hmac demo_keyring ''t'' (replicate 16 c) = Inr (demo_issue c)"
    using demo_issued(1)[of c] by (simp add: Issue_def demo_rnd_def)
  then show ?thesis using keyring_signer.accepts_own[OF demo_signer(2), of "''t''"] by (metis fst_conv snd_conv)
qed

lemma demo_get_root:
  assumes "now < 100"
  shows "cont_Get demo_hmac False now (demo_issue CHR ''r'') demo_store1 = Inr (demo_root\<lparr>cn_ID := demo_issue CHR ''r''\<rparr>)"
    and "cont_Get demo_hmac False now (demo_issue CHR ''r'') demo_store2 = Inr (demo_root\<lparr>cn_ID := demo_issue CHR ''r''\<rparr>)"
  using assms demo_verify by (simp_all add: cont_Get_def demo_store1_eq demo_store2_def demo_store0_def demo_root_def demo_continuation_def)

lemma demo_child_of:
  "child_of demo_child (demo_root\<lparr>cn_ID := demo_issue CHR ''r''\<rparr>) 64 = Inr (demo_root\<lparr>cn_ParentID := demo_issue CHR ''r'', cn_Depth := 1\<rparr>)"
proof -
  have "wrap64 1 = 1" by code_simp
  then show ?thesis by (simp add: child_of_def demo_child_def demo_root_def demo_continuation_def)
qed

lemma demo_put_child:
  "PutChild demo_hmac demo_td False (demo_rnd CHR ''q'') (\<lambda>_. 6) demo_child demo_store1 = (demo_store2, Inr (demo_issue CHR ''q''))"
proof -
  have "PutChild demo_hmac demo_td False (demo_rnd CHR ''q'') (\<lambda>_. 6) demo_child demo_store1
     = put_child_locked demo_hmac demo_td (demo_rnd CHR ''q'') (\<lambda>_. 6) demo_child (demo_root\<lparr>cn_ID := demo_issue CHR ''r''\<rparr>)
         (demo_root\<lparr>cn_ParentID := demo_issue CHR ''r'', cn_Depth := 1\<rparr>) demo_store1"
    using demo_get_root(1)[of 6] demo_child_of by (simp add: PutChild_def demo_child_def) (simp add: demo_store1_eq demo_store0_def)
  also have "\<dots> = (demo_store2, Inr (demo_issue CHR ''q''))"
    using demo_issued[of "CHR ''q''"] demo_distinct
    by (simp add: put_child_locked_def publish_child_def demo_child_def demo_store1_eq demo_store2_def demo_store_simps)
  finally show ?thesis .
qed

text \<open>The hypotheses of the store's theorems hold on that history.\<close>

theorem continuation_store_refines_witness:
  "(expiring_map cn_ExpiresAt (published demo_hmac demo_td demo_keyring 64) never_renewed (\<lambda>t. t < 100))\<^sup>*\<^sup>* Map.empty (cont_abs demo_store1)
   \<and> cont_abs demo_store1 (demo_issue CHR ''r'') \<noteq> None"
  using continuation_store_refines[OF demo_new demo_signer(2) demo_create] by (simp add: demo_store1_eq demo_store0_def)

theorem continuation_immutable_witness:
  "GetForTenant demo_hmac False 99 ''t'' (demo_issue CHR ''r'') demo_store1 = Inr (demo_root\<lparr>cn_ID := demo_issue CHR ''r''\<rparr>)"
  using continuation_immutable[OF demo_new demo_signer(2) demo_create demo_get_root(1)[of 6] rtranclp.rtrancl_refl, of 99]
  by (simp add: demo_root_def demo_continuation_def)

theorem continuation_tenant_isolation_witness:
  "GetForTenant demo_hmac False 6 ''u'' (demo_issue CHR ''r'') demo_store1 = Inl BadHandle"
proof -
  have "GetForTenant demo_hmac False 6 ''t'' (demo_issue CHR ''r'') demo_store1 = Inr (demo_root\<lparr>cn_ID := demo_issue CHR ''r''\<rparr>)"
    using demo_verify demo_get_root(1)[of 6] by (simp add: GetForTenant_def demo_store1_eq demo_store0_def demo_root_def demo_continuation_def)
  from continuation_tenant_isolation[OF demo_new demo_create this] show ?thesis by simp
qed

theorem put_child_idempotent_witness:
  "PutChild demo_hmac demo_td False None (\<lambda>_. 7) demo_child demo_store2 = (demo_store2, Inr (demo_issue CHR ''q''))"
proof -
  let ?v = "demo_root\<lparr>cn_ParentID := demo_issue CHR ''r'', cn_Depth := 1, cn_ID := demo_issue CHR ''q''\<rparr>"
  have "PutChild demo_hmac demo_td False None (\<lambda>_. 7) demo_child demo_store2
     = (demo_store2, if sameChildFacts ?v (demo_root\<lparr>cn_ParentID := demo_issue CHR ''r'', cn_Depth := 1\<rparr>) then Inr (demo_issue CHR ''q'') else Inl ErrConflict)"
    by (rule put_child_idempotent[OF demo_new demo_create demo_put_child _ _ _ rtranclp.rtrancl_refl, where parent = "demo_root\<lparr>cn_ID := demo_issue CHR ''r''\<rparr>"])
      (use demo_distinct demo_get_root(2)[of 7] demo_child_of in \<open>auto simp: demo_child_def demo_store1_eq demo_store2_def demo_root_def demo_continuation_def\<close>)
  then show ?thesis by (simp add: sameChildFacts_def demo_root_def demo_continuation_def)
qed

end
