(* ===== verification/Memory_Blob.thy ===== *)
theory Memory_Blob
  imports Expiring_Store
begin

text \<open>
  Content-addressed blobs: the port \<^verbatim>\<open>storage/blob/store.go\<close> and the in-process store \<^verbatim>\<open>storage/memory/blob.go\<close>.
  \<open>hexsha\<close> is the hexadecimal SHA-256 of bytes. Both \<open>Put\<close> and \<open>Get\<close> read the clock once (\<open>now\<close>) and run their
  effect in one critical section; \<open>ctx\<close> says that the caller's context has ended. Receivers are non-nil.
\<close>

section \<open>The port\<close>

record ref =
  rf_Store :: string
  rf_Locator :: string
  rf_Digest :: string
  rf_ByteLength :: int
  rf_MediaType :: string
  rf_ExpiresAt :: gotime

record put_request =
  pr_Tenant :: string
  pr_MediaType :: string
  pr_Data :: string
  pr_ExpiresAt :: gotime

datatype blob_error = BlobCtx | BlobFields | BlobTooLarge | BlobExpired | BlobTenantRequired | BlobLocation | BlobDigestLength | BlobDigestHex
  | BlobNegative | BlobMediaType | BlobConflict | BlobNotFound | BlobTenantMismatch | BlobDigestMismatch | BlobMaxBytes

definition is_hex :: "char \<Rightarrow> bool" where
  "is_hex c \<longleftrightarrow> is_digit c \<or> 65 \<le> (of_char c :: nat) \<and> (of_char c :: nat) \<le> 70 \<or> 97 \<le> (of_char c :: nat) \<and> (of_char c :: nat) \<le> 102"

text \<open>\<^verbatim>\<open>hex.DecodeString\<close> fails on an odd length or a byte that is no hexadecimal digit.\<close>

definition hex_decodes :: "string \<Rightarrow> bool" where
  "hex_decodes s \<longleftrightarrow> even (length s) \<and> list_all is_hex s"

definition Ref_Validate :: "gotime \<Rightarrow> ref \<Rightarrow> blob_error option" where
  "Ref_Validate now r =
     (if TrimSpace (rf_Store r) = [] \<or> TrimSpace (rf_Locator r) = [] then Some BlobLocation
      else if length (rf_Digest r) \<noteq> 64 then Some BlobDigestLength
      else if \<not> hex_decodes (rf_Digest r) then Some BlobDigestHex
      else if rf_ByteLength r < 0 then Some BlobNegative
      else if TrimSpace (rf_MediaType r) = [] then Some BlobMediaType
      else if \<not> IsZero (rf_ExpiresAt r) \<and> \<not> now < rf_ExpiresAt r then Some BlobExpired
      else None)"

definition Blob_Digest :: "(string \<Rightarrow> string) \<Rightarrow> string \<Rightarrow> string" where
  "Blob_Digest hexsha data = hexsha data"

definition TenantPrefix :: "(string \<Rightarrow> string) \<Rightarrow> string \<Rightarrow> blob_error + string" where
  "TenantPrefix hexsha tenant = (if TrimSpace tenant = [] then Inl BlobTenantRequired else Inr (hexsha tenant))"

section \<open>The in-process store\<close>

record blob_record =
  bd_ref :: ref
  bd_data :: string

record blob_store =
  bs_maxBytes :: int
  bs_records :: "(string, blob_record) gomap"

definition NewBlobStore :: "int \<Rightarrow> blob_error + blob_store" where
  "NewBlobStore maxBytes = (if maxBytes \<le> 0 then Inl BlobMaxBytes else Inr \<lparr>bs_maxBytes = maxBytes, bs_records = []\<rparr>)"

definition blob_sweepLocked :: "gotime \<Rightarrow> blob_store \<Rightarrow> blob_store \<times> nat" where
  "blob_sweepLocked now s =
     (let live = filter (\<lambda>(k, r). now < rf_ExpiresAt (bd_ref r)) (bs_records s)
      in (s\<lparr>bs_records := live\<rparr>, length (bs_records s) - length live))"

definition blob_Sweep :: "gotime \<Rightarrow> blob_store \<Rightarrow> blob_store \<times> nat" where
  "blob_Sweep now s = blob_sweepLocked now s"

text \<open>The critical section of \<open>Put\<close>.\<close>

definition put_locked :: "(string \<Rightarrow> string) \<Rightarrow> gotime \<Rightarrow> ref \<Rightarrow> string \<Rightarrow> blob_store \<Rightarrow> blob_store \<times> (blob_error + ref)" where
  "put_locked hexsha now r data s =
     (let s1 = fst (blob_sweepLocked now s)
      in case mget (bs_records s1) (rf_Locator r) of
           Some e \<Rightarrow>
             if rf_ByteLength (bd_ref e) \<noteq> rf_ByteLength r \<or> rf_MediaType (bd_ref e) \<noteq> rf_MediaType r \<or> Blob_Digest hexsha (bd_data e) \<noteq> rf_Digest r
             then (s1, Inl BlobConflict)
             else (if rf_ExpiresAt r > rf_ExpiresAt (bd_ref e)
                   then s1\<lparr>bs_records := mput (rf_Locator r) (e\<lparr>bd_ref := (bd_ref e)\<lparr>rf_ExpiresAt := rf_ExpiresAt r\<rparr>\<rparr>) (bs_records s1)\<rparr>
                   else s1, Inr r)
         | None \<Rightarrow> (s1\<lparr>bs_records := mput (rf_Locator r) \<lparr>bd_ref = r, bd_data = data\<rparr> (bs_records s1)\<rparr>, Inr r))"

definition blob_Put :: "(string \<Rightarrow> string) \<Rightarrow> bool \<Rightarrow> gotime \<Rightarrow> put_request \<Rightarrow> blob_store \<Rightarrow> blob_store \<times> (blob_error + ref)" where
  "blob_Put hexsha ctx now q s =
     (if ctx then (s, Inl BlobCtx)
      else if pr_Tenant q = [] \<or> pr_MediaType q = [] then (s, Inl BlobFields)
      else if int (length (pr_Data q)) > bs_maxBytes s then (s, Inl BlobTooLarge)
      else if IsZero (pr_ExpiresAt q) \<or> \<not> now < pr_ExpiresAt q then (s, Inl BlobExpired)
      else case TenantPrefix hexsha (pr_Tenant q) of
             Inl e \<Rightarrow> (s, Inl e)
           | Inr prefix \<Rightarrow>
               let digest = Blob_Digest hexsha (pr_Data q);
                   r = \<lparr>rf_Store = ''memory'', rf_Locator = prefix @ ''/'' @ digest, rf_Digest = digest, rf_ByteLength = int (length (pr_Data q)),
                        rf_MediaType = pr_MediaType q, rf_ExpiresAt = pr_ExpiresAt q\<rparr>
               in case Ref_Validate now r of
                    Some e \<Rightarrow> (s, Inl e)
                  | None \<Rightarrow> put_locked hexsha now r (pr_Data q) s)"

text \<open>The critical section of \<open>Get\<close>.\<close>

definition get_locked :: "(string \<Rightarrow> string) \<Rightarrow> gotime \<Rightarrow> ref \<Rightarrow> blob_store \<Rightarrow> blob_store \<times> (blob_error + string)" where
  "get_locked hexsha now r s =
     (let s1 = fst (blob_sweepLocked now s)
      in case mget (bs_records s1) (rf_Locator r) of
           None \<Rightarrow> (s1, Inl BlobNotFound)
         | Some e \<Rightarrow>
             if rf_Store (bd_ref e) \<noteq> rf_Store r \<or> rf_Locator (bd_ref e) \<noteq> rf_Locator r \<or> rf_ByteLength (bd_ref e) \<noteq> rf_ByteLength r
                \<or> rf_MediaType (bd_ref e) \<noteq> rf_MediaType r \<or> Blob_Digest hexsha (bd_data e) \<noteq> rf_Digest r
             then (s1, Inl BlobDigestMismatch)
             else (s1, Inr (bd_data e)))"

definition blob_Get :: "(string \<Rightarrow> string) \<Rightarrow> bool \<Rightarrow> gotime \<Rightarrow> string \<Rightarrow> ref \<Rightarrow> blob_store \<Rightarrow> blob_store \<times> (blob_error + string)" where
  "blob_Get hexsha ctx now tenant r s =
     (if ctx then (s, Inl BlobCtx)
      else case Ref_Validate now r of
             Some e \<Rightarrow> (s, Inl e)
           | None \<Rightarrow>
               (case TenantPrefix hexsha tenant of
                  Inl e \<Rightarrow> (s, Inl e)
                | Inr prefix \<Rightarrow>
                    if rf_Store r \<noteq> ''memory'' \<or> rf_Locator r \<noteq> prefix @ ''/'' @ rf_Digest r then (s, Inl BlobTenantMismatch)
                    else get_locked hexsha now r s))"

inductive blob_step :: "(string \<Rightarrow> string) \<Rightarrow> (gotime \<Rightarrow> bool) \<Rightarrow> blob_store \<Rightarrow> blob_store \<Rightarrow> bool" for hexsha within where
  put: "within now \<Longrightarrow> blob_step hexsha within s (fst (blob_Put hexsha ctx now q s))"
| fetch: "within now \<Longrightarrow> blob_step hexsha within s (fst (blob_Get hexsha ctx now tenant r s))"
| collect: "within now \<Longrightarrow> blob_step hexsha within s (fst (blob_Sweep now s))"

section \<open>Refinement of an expiring map\<close>

definition stored_blob :: "(string \<Rightarrow> string) \<Rightarrow> int \<Rightarrow> string \<Rightarrow> blob_record \<Rightarrow> bool" where
  "stored_blob hexsha n k e \<longleftrightarrow> rf_Store (bd_ref e) = ''memory'' \<and> rf_Locator (bd_ref e) = k \<and> rf_Digest (bd_ref e) = hexsha (bd_data e)
     \<and> rf_ByteLength (bd_ref e) = int (length (bd_data e)) \<and> int (length (bd_data e)) \<le> n
     \<and> (\<exists>tenant. TrimSpace tenant \<noteq> [] \<and> k = hexsha tenant @ ''/'' @ hexsha (bd_data e))"

definition longer_kept :: "blob_record \<Rightarrow> blob_record \<Rightarrow> bool" where
  "longer_kept e e' \<longleftrightarrow> (\<exists>x > rf_ExpiresAt (bd_ref e). e' = e\<lparr>bd_ref := (bd_ref e)\<lparr>rf_ExpiresAt := x\<rparr>\<rparr>)"

abbreviation blob_abs :: "blob_store \<Rightarrow> string \<rightharpoonup> blob_record" where
  "blob_abs s \<equiv> map_of (bs_records s)"

abbreviation blob_expiry :: "blob_record \<Rightarrow> gotime" where
  "blob_expiry e \<equiv> rf_ExpiresAt (bd_ref e)"

abbreviation blob_map :: "(string \<Rightarrow> string) \<Rightarrow> int \<Rightarrow> (gotime \<Rightarrow> bool) \<Rightarrow> (string \<rightharpoonup> blob_record) \<Rightarrow> (string \<rightharpoonup> blob_record) \<Rightarrow> bool" where
  "blob_map hexsha n within \<equiv> expiring_map blob_expiry (stored_blob hexsha n) longer_kept within"

definition blob_shape :: "int \<Rightarrow> blob_store \<Rightarrow> bool" where
  "blob_shape n s \<longleftrightarrow> mwf (bs_records s) \<and> bs_maxBytes s = n"

lemma mabs_id: "mabs (\<lambda>e. e) m = map_of m"
  by (simp add: option.map_ident)

lemma blob_sweep_refines:
  assumes "blob_shape n s" and "within now"
  shows "blob_shape n (fst (blob_sweepLocked now s))" and "blob_map hexsha n within (blob_abs s) (blob_abs (fst (blob_sweepLocked now s)))"
proof -
  show "blob_shape n (fst (blob_sweepLocked now s))" using assms(1) by (simp add: blob_shape_def blob_sweepLocked_def Let_def)
  have "blob_map hexsha n within (mabs (\<lambda>e. e) (bs_records s)) (mabs (\<lambda>e. e) (filter (\<lambda>(k, r). now < rf_ExpiresAt (bd_ref r)) (bs_records s)))"
    by (rule expire_filter) (use assms in \<open>auto simp: blob_shape_def\<close>)
  then show "blob_map hexsha n within (blob_abs s) (blob_abs (fst (blob_sweepLocked now s)))"
    by (simp add: mabs_id blob_sweepLocked_def Let_def)
qed

lemma put_locked_refines:
  assumes "blob_shape n s" and "within now" and "stored_blob hexsha n (rf_Locator r) \<lparr>bd_ref = r, bd_data = data\<rparr>"
  shows "blob_shape n (fst (put_locked hexsha now r data s)) \<and> (blob_map hexsha n within)\<^sup>*\<^sup>* (blob_abs s) (blob_abs (fst (put_locked hexsha now r data s)))"
proof -
  let ?s = "fst (blob_sweepLocked now s)"
  have sw: "blob_shape n ?s" "blob_map hexsha n within (blob_abs s) (blob_abs ?s)" by (rule blob_sweep_refines, rule assms(1), rule assms(2))+
  show ?thesis
  proof (cases "mget (bs_records ?s) (rf_Locator r)")
    case None
    have "blob_map hexsha n within (blob_abs ?s) ((blob_abs ?s)(rf_Locator r \<mapsto> \<lparr>bd_ref = r, bd_data = data\<rparr>))"
      by (rule expiring_map.publish) (use None assms(3) in simp_all)
    then have "(blob_map hexsha n within)\<^sup>*\<^sup>* (blob_abs s) ((blob_abs ?s)(rf_Locator r \<mapsto> \<lparr>bd_ref = r, bd_data = data\<rparr>))" using sw(2) by simp
    then show ?thesis using sw(1) None by (simp add: put_locked_def Let_def blob_shape_def update_conv' del: mget_mput)
  next
    case (Some e)
    let ?e = "e\<lparr>bd_ref := (bd_ref e)\<lparr>rf_ExpiresAt := rf_ExpiresAt r\<rparr>\<rparr>"
    have "blob_map hexsha n within (blob_abs ?s) ((blob_abs ?s)(rf_Locator r \<mapsto> ?e))" if "rf_ExpiresAt r > rf_ExpiresAt (bd_ref e)"
      by (rule expiring_map.renewal) (use Some that in \<open>auto simp: longer_kept_def\<close>)
    then have "(blob_map hexsha n within)\<^sup>*\<^sup>* (blob_abs s) ((blob_abs ?s)(rf_Locator r \<mapsto> ?e))" if "rf_ExpiresAt r > rf_ExpiresAt (bd_ref e)"
      using sw(2) that by (meson r_into_rtranclp rtranclp.rtrancl_into_rtrancl)
    then show ?thesis using sw Some by (auto simp: put_locked_def Let_def blob_shape_def update_conv' del: mget_mput)
  qed
qed

lemma put_refines:
  assumes "blob_shape n s" and "within now"
  shows "blob_shape n (fst (blob_Put hexsha ctx now q s)) \<and> (blob_map hexsha n within)\<^sup>*\<^sup>* (blob_abs s) (blob_abs (fst (blob_Put hexsha ctx now q s)))"
proof -
  let ?r = "\<lparr>rf_Store = ''memory'', rf_Locator = hexsha (pr_Tenant q) @ ''/'' @ hexsha (pr_Data q), rf_Digest = hexsha (pr_Data q),
     rf_ByteLength = int (length (pr_Data q)), rf_MediaType = pr_MediaType q, rf_ExpiresAt = pr_ExpiresAt q\<rparr>"
  have "stored_blob hexsha n (rf_Locator ?r) \<lparr>bd_ref = ?r, bd_data = pr_Data q\<rparr>"
    if "int (length (pr_Data q)) \<le> n" "TrimSpace (pr_Tenant q) \<noteq> []" using that by (auto simp: stored_blob_def)
  then have "blob_shape n (fst (put_locked hexsha now ?r (pr_Data q) s)) \<and> (blob_map hexsha n within)\<^sup>*\<^sup>* (blob_abs s) (blob_abs (fst (put_locked hexsha now ?r (pr_Data q) s)))"
    if "int (length (pr_Data q)) \<le> n" "TrimSpace (pr_Tenant q) \<noteq> []"
    using put_locked_refines[where within = within and now = now, OF assms] that by blast
  moreover have "bs_maxBytes s = n" using assms(1) by (simp add: blob_shape_def)
  ultimately show ?thesis using assms(1) by (auto simp: blob_Put_def TenantPrefix_def Blob_Digest_def Let_def split: option.splits)
qed

lemma get_locked_state: "fst (get_locked hexsha now r s) = fst (blob_sweepLocked now s)"
  by (auto simp: get_locked_def Let_def split: option.splits)

lemma blob_step_refines:
  assumes "blob_step hexsha within s s'" and "blob_shape n s"
  shows "blob_shape n s' \<and> (blob_map hexsha n within)\<^sup>*\<^sup>* (blob_abs s) (blob_abs s')"
  using assms
proof (cases rule: blob_step.cases)
  case (put now ctx q)
  then show ?thesis using put_refines[where within = within and now = now, OF assms(2)] by simp
next
  case (fetch now ctx tenant r)
  note sw = blob_sweep_refines(1)[where within = within and now = now, OF assms(2) fetch(2)]
    blob_sweep_refines(2)[where within = within and now = now and hexsha = hexsha, OF assms(2) fetch(2)]
  show ?thesis using fetch(1) sw r_into_rtranclp[of "blob_map hexsha n within", OF sw(2)] assms(2)
    by (auto simp: blob_Get_def get_locked_state split: option.splits sum.splits)
next
  case (collect now)
  note sw = blob_sweep_refines(1)[where within = within and now = now, OF assms(2) collect(2)]
    blob_sweep_refines(2)[where within = within and now = now and hexsha = hexsha, OF assms(2) collect(2)]
  show ?thesis using collect(1) sw r_into_rtranclp[of "blob_map hexsha n within", OF sw(2)] by (simp add: blob_Sweep_def)
qed

definition shaped_blob_step :: "(string \<Rightarrow> string) \<Rightarrow> int \<Rightarrow> (gotime \<Rightarrow> bool) \<Rightarrow> blob_store \<Rightarrow> blob_store \<Rightarrow> bool" where
  "shaped_blob_step hexsha n within s s' \<longleftrightarrow> blob_shape n s \<and> blob_step hexsha within s s'"

interpretation blobs: expiring_store blob_expiry "stored_blob hexsha n" longer_kept blob_abs "shaped_blob_step hexsha n" for hexsha n
proof unfold_locales
  show "longer_kept u v \<Longrightarrow> longer_kept v w \<Longrightarrow> longer_kept u w" for u v w
    unfolding longer_kept_def by (elim exE conjE, rule_tac x = xa in exI) auto
qed (use blob_step_refines in \<open>auto simp: shaped_blob_step_def longer_kept_def stored_blob_def\<close>)

lemma blob_run:
  assumes "(blob_step hexsha within)\<^sup>*\<^sup>* s s'" and "blob_shape n s"
  shows "(shaped_blob_step hexsha n within)\<^sup>*\<^sup>* s s' \<and> blob_shape n s'"
  using assms
proof (induction rule: rtranclp_induct)
  case base
  then show ?case by simp
next
  case (step y z)
  then show ?case using blob_step_refines[OF step.hyps(2)] by (auto simp: shaped_blob_step_def intro: rtranclp.rtrancl_into_rtrancl)
qed

lemma new_blob_store:
  assumes "NewBlobStore n = Inr s0" and "(blob_step hexsha within)\<^sup>*\<^sup>* s0 s"
  shows "blob_shape n s" and "blobs.all_valid hexsha n (blob_abs s)" and "(blob_map hexsha n within)\<^sup>*\<^sup>* Map.empty (blob_abs s)"
proof -
  have s0: "blob_shape n s0" "blob_abs s0 = Map.empty" using assms(1) by (auto simp: NewBlobStore_def blob_shape_def split: if_splits)
  note r = blob_run[OF assms(2) s0(1)]
  show "blob_shape n s" "blobs.all_valid hexsha n (blob_abs s)" "(blob_map hexsha n within)\<^sup>*\<^sup>* Map.empty (blob_abs s)"
    using r blobs.valid_run[OF conjunct1[OF r]] blobs.map_run[OF conjunct1[OF r]] s0(2) by (simp_all add: blobs.all_valid_def)
qed

section \<open>Put and get\<close>

text \<open>What a successful put leaves behind: the reference it returns, and a record under its locator that lives at least as long.\<close>

lemma put_locked_Inr:
  assumes "put_locked hexsha now r data s = (s', Inr r')" and "rf_Digest r = hexsha data"
  shows "r' = r \<and> (\<exists>e. mget (bs_records s') (rf_Locator r) = Some e \<and> rf_ExpiresAt r \<le> blob_expiry e \<and> hexsha (bd_data e) = hexsha data
    \<and> rf_ByteLength (bd_ref e) = rf_ByteLength r \<and> rf_MediaType (bd_ref e) = rf_MediaType r
    \<and> (mget (bs_records (fst (blob_sweepLocked now s))) (rf_Locator r) = None \<longrightarrow> bd_data e = data))"
  using assms by (auto simp: put_locked_def Blob_Digest_def Let_def split: option.splits if_splits)

lemma put_Inr:
  assumes "blob_Put hexsha ctx now q s = (s', Inr r)"
  shows "r = \<lparr>rf_Store = ''memory'', rf_Locator = hexsha (pr_Tenant q) @ ''/'' @ hexsha (pr_Data q), rf_Digest = hexsha (pr_Data q),
       rf_ByteLength = int (length (pr_Data q)), rf_MediaType = pr_MediaType q, rf_ExpiresAt = pr_ExpiresAt q\<rparr>"
    and "Ref_Validate now r = None" and "TrimSpace (pr_Tenant q) \<noteq> []" and "\<not> IsZero (pr_ExpiresAt q)" and "now < pr_ExpiresAt q"
    and "\<exists>e. mget (bs_records s') (rf_Locator r) = Some e \<and> pr_ExpiresAt q \<le> blob_expiry e \<and> hexsha (bd_data e) = hexsha (pr_Data q)
      \<and> rf_ByteLength (bd_ref e) = int (length (pr_Data q)) \<and> rf_MediaType (bd_ref e) = pr_MediaType q
      \<and> (mget (bs_records (fst (blob_sweepLocked now s))) (rf_Locator r) = None \<longrightarrow> bd_data e = pr_Data q)"
proof -
  define r0 where "r0 = \<lparr>rf_Store = ''memory'', rf_Locator = hexsha (pr_Tenant q) @ ''/'' @ hexsha (pr_Data q), rf_Digest = hexsha (pr_Data q),
       rf_ByteLength = int (length (pr_Data q)), rf_MediaType = pr_MediaType q, rf_ExpiresAt = pr_ExpiresAt q\<rparr>"
  have p: "put_locked hexsha now r0 (pr_Data q) s = (s', Inr r)" and g: "Ref_Validate now r0 = None" "TrimSpace (pr_Tenant q) \<noteq> []"
    "\<not> IsZero (pr_ExpiresAt q)" "now < pr_ExpiresAt q"
    using assms by (auto simp: blob_Put_def TenantPrefix_def Blob_Digest_def Let_def r0_def split: if_splits option.splits)
  note l = put_locked_Inr[OF p]
  show "r = \<lparr>rf_Store = ''memory'', rf_Locator = hexsha (pr_Tenant q) @ ''/'' @ hexsha (pr_Data q), rf_Digest = hexsha (pr_Data q),
       rf_ByteLength = int (length (pr_Data q)), rf_MediaType = pr_MediaType q, rf_ExpiresAt = pr_ExpiresAt q\<rparr>"
    "Ref_Validate now r = None" "TrimSpace (pr_Tenant q) \<noteq> []" "\<not> IsZero (pr_ExpiresAt q)" "now < pr_ExpiresAt q"
    "\<exists>e. mget (bs_records s') (rf_Locator r) = Some e \<and> pr_ExpiresAt q \<le> blob_expiry e \<and> hexsha (bd_data e) = hexsha (pr_Data q)
      \<and> rf_ByteLength (bd_ref e) = int (length (pr_Data q)) \<and> rf_MediaType (bd_ref e) = pr_MediaType q
      \<and> (mget (bs_records (fst (blob_sweepLocked now s))) (rf_Locator r) = None \<longrightarrow> bd_data e = pr_Data q)"
    using l g by (auto simp: r0_def)
qed

text \<open>The blob store returns what was put. After a put that returned a reference, however puts, reads and sweeps interleave before the reference
  expires, a read with that tenant and reference succeeds. It returns bytes of the digest and length that were put, and exactly the bytes that
  were put unless that tenant had already stored live bytes with the same digest. Putting the content again never shortens a retention.\<close>

theorem blob_roundtrip:
  assumes "NewBlobStore n = Inr s0" and "(blob_step hexsha within)\<^sup>*\<^sup>* s0 s" and "blob_Put hexsha False now q s = (s1, Inr r)" and "within now"
    and "(blob_step hexsha (\<lambda>t. t < pr_ExpiresAt q))\<^sup>*\<^sup>* s1 s2" and "now' < pr_ExpiresAt q"
  shows "\<exists>data. blob_Get hexsha False now' (pr_Tenant q) r s2 = (fst (blob_Sweep now' s2), Inr data)
    \<and> length data = length (pr_Data q) \<and> hexsha data = hexsha (pr_Data q)
    \<and> (mget (bs_records (fst (blob_Sweep now s))) (rf_Locator r) = None \<longrightarrow> data = pr_Data q)"
proof -
  note p = put_Inr[OF assms(3)]
  obtain e where e: "blob_abs s1 (rf_Locator r) = Some e" "pr_ExpiresAt q \<le> blob_expiry e" "hexsha (bd_data e) = hexsha (pr_Data q)"
    "rf_ByteLength (bd_ref e) = int (length (pr_Data q))" "rf_MediaType (bd_ref e) = pr_MediaType q"
    "mget (bs_records (fst (blob_Sweep now s))) (rf_Locator r) = None \<longrightarrow> bd_data e = pr_Data q" using p(6) by (auto simp: blob_Sweep_def)
  have st: "(blob_step hexsha within)\<^sup>*\<^sup>* s0 s1"
    using assms(2) blob_step.put[where within = within and now = now, OF assms(4), of hexsha s False q] assms(3) by (simp add: rtranclp.rtrancl_into_rtrancl)
  note v = new_blob_store[OF assms(1) st]
  have run: "(shaped_blob_step hexsha n (\<lambda>t. t < pr_ExpiresAt q))\<^sup>*\<^sup>* s1 s2" "blob_shape n s2" using blob_run[OF assms(5) v(1)] by simp_all
  have "\<forall>t. t < pr_ExpiresAt q \<longrightarrow> t < blob_expiry e" using e(2) by auto
  then obtain e' where e': "blob_abs s2 (rf_Locator r) = Some e'" "e' = e \<or> longer_kept e e'" using blobs.live_run[OF run(1) e(1)] by blast
  have k: "stored_blob hexsha n (rf_Locator r) e'"
    using blobs.valid_run[OF run(1) v(2)] e'(1) by (simp add: blobs.all_valid_def)
  have f: "bd_data e' = bd_data e" "rf_ByteLength (bd_ref e') = rf_ByteLength (bd_ref e)" "rf_MediaType (bd_ref e') = rf_MediaType (bd_ref e)"
    "blob_expiry e \<le> blob_expiry e'" using e'(2) by (auto simp: longer_kept_def)
  have live: "now' < blob_expiry e'" using assms(6) e(2) f(4) by linarith
  have rv: "Ref_Validate now' r = None" using p(2) assms(6) unfolding p(1) by (auto simp: Ref_Validate_def split: if_splits)
  have "mget (bs_records (fst (blob_sweepLocked now' s2))) (rf_Locator r) = Some e'"
    using e'(1) live run(2) by (simp add: blob_sweepLocked_def Let_def blob_shape_def mget_filter)
  then have "get_locked hexsha now' r s2 = (fst (blob_sweepLocked now' s2), Inr (bd_data e'))"
    using k e f p(1) by (simp add: get_locked_def Blob_Digest_def stored_blob_def)
  moreover have "rf_Store r = ''memory''" "rf_Locator r = hexsha (pr_Tenant q) @ ''/'' @ rf_Digest r" using p(1) by simp_all
  ultimately have "blob_Get hexsha False now' (pr_Tenant q) r s2 = (fst (blob_Sweep now' s2), Inr (bd_data e'))"
    using rv p(3) by (simp add: blob_Get_def TenantPrefix_def blob_Sweep_def)
  moreover have "length (bd_data e') = length (pr_Data q)" using k e f by (simp add: stored_blob_def)
  ultimately show ?thesis using e f by auto
qed

text \<open>A blob read is authentic. Whatever a read returns has the length and the SHA-256 digest of the reference, within the size limit, and was stored
  under the locator of the reading tenant; a reference made for a tenant is refused to every other tenant whose name hashes differently.\<close>

theorem blob_read_authentic:
  assumes "NewBlobStore n = Inr s0" and "(blob_step hexsha within)\<^sup>*\<^sup>* s0 s" and "blob_Get hexsha ctx now tenant r s = (s', Inr data)"
  shows "hexsha data = rf_Digest r \<and> int (length data) = rf_ByteLength r \<and> int (length data) \<le> n
    \<and> rf_Locator r = hexsha tenant @ ''/'' @ hexsha data
    \<and> (\<forall>other. TrimSpace other \<noteq> [] \<and> hexsha other \<noteq> hexsha tenant \<longrightarrow> blob_Get hexsha ctx now other r s = (s, Inl BlobTenantMismatch))"
proof -
  note v = new_blob_store[OF assms(1,2)]
  have g: "\<not> ctx" "Ref_Validate now r = None" "TrimSpace tenant \<noteq> []" "rf_Store r = ''memory''" "rf_Locator r = hexsha tenant @ ''/'' @ rf_Digest r"
    "get_locked hexsha now r s = (s', Inr data)"
    using assms(3) by (auto simp: blob_Get_def TenantPrefix_def split: if_splits option.splits)
  obtain e where e: "mget (bs_records (fst (blob_sweepLocked now s))) (rf_Locator r) = Some e" "data = bd_data e" "hexsha data = rf_Digest r"
    "rf_ByteLength (bd_ref e) = rf_ByteLength r"
    using g(6) by (auto simp: get_locked_def Blob_Digest_def Let_def split: option.splits if_splits)
  have "blob_abs s (rf_Locator r) = Some e"
    using e(1) v(1) by (auto simp: blob_sweepLocked_def Let_def blob_shape_def mget_filter split: option.splits if_splits)
  then have "stored_blob hexsha n (rf_Locator r) e" using v(2) by (simp add: blobs.all_valid_def)
  then have "int (length data) = rf_ByteLength r" "int (length data) \<le> n" using e by (simp_all add: stored_blob_def)
  moreover have "blob_Get hexsha ctx now other r s = (s, Inl BlobTenantMismatch)" if "TrimSpace other \<noteq> []" "hexsha other \<noteq> hexsha tenant" for other
    using g that by (auto simp: blob_Get_def TenantPrefix_def)
  ultimately show ?thesis using e g by simp
qed

definition demo_sha :: "string \<Rightarrow> string" where
  "demo_sha d = replicate 63 CHR ''0'' @ [if d = ''t'' then CHR ''a'' else CHR ''b'']"

definition demo_put :: put_request where
  "demo_put = \<lparr>pr_Tenant = ''t'', pr_MediaType = ''text/plain'', pr_Data = ''hello'', pr_ExpiresAt = 100\<rparr>"

definition demo_ref :: ref where
  "demo_ref = \<lparr>rf_Store = ''memory'', rf_Locator = demo_sha ''t'' @ ''/'' @ demo_sha ''hello'', rf_Digest = demo_sha ''hello'', rf_ByteLength = 5,
     rf_MediaType = ''text/plain'', rf_ExpiresAt = 100\<rparr>"

definition demo_blobs :: blob_store where
  "demo_blobs = \<lparr>bs_maxBytes = 10, bs_records = [(rf_Locator demo_ref, \<lparr>bd_ref = demo_ref, bd_data = ''hello''\<rparr>)]\<rparr>"

lemma demo_blob_run:
  "NewBlobStore 10 = Inr \<lparr>bs_maxBytes = 10, bs_records = []\<rparr>"
  "blob_Put demo_sha False 5 demo_put \<lparr>bs_maxBytes = 10, bs_records = []\<rparr> = (demo_blobs, Inr demo_ref)"
  by code_simp+

theorem blob_roundtrip_witness: "snd (blob_Get demo_sha False 99 ''t'' demo_ref demo_blobs) = Inr ''hello''"
proof -
  have n: "mget (bs_records (fst (blob_Sweep 5 \<lparr>bs_maxBytes = 10, bs_records = []\<rparr>))) (rf_Locator demo_ref) = None" by code_simp
  show ?thesis using blob_roundtrip[OF demo_blob_run(1) rtranclp.rtrancl_refl demo_blob_run(2), of "\<lambda>t. t < 100" demo_blobs 99] n
    by (auto simp: demo_put_def)
qed

theorem blob_read_authentic_witness:
  "snd (blob_Get demo_sha False 50 ''u'' demo_ref demo_blobs) = Inl BlobTenantMismatch \<and> length ''hello'' = 5"
proof -
  have st: "(blob_step demo_sha (\<lambda>t. t < 100))\<^sup>*\<^sup>* \<lparr>bs_maxBytes = 10, bs_records = []\<rparr> demo_blobs"
    using blob_step.put[where within = "\<lambda>t. t < 100" and now = 5, of demo_sha "\<lparr>bs_maxBytes = 10, bs_records = []\<rparr>" False demo_put] demo_blob_run(2) by auto
  have g: "blob_Get demo_sha False 50 ''t'' demo_ref demo_blobs = (demo_blobs, Inr ''hello'')" by code_simp
  have u: "TrimSpace ''u'' \<noteq> []" "demo_sha ''u'' \<noteq> demo_sha ''t''" by code_simp+
  show ?thesis using blob_read_authentic[OF demo_blob_run(1) st g] u by simp
qed

end
