(* ===== verification/Cloud_Port.thy ===== *)
theory Cloud_Port
  imports GoStrings
begin

text \<open>
  Programs over the cloud storage contracts that \<^verbatim>\<open>storage/cloudstate\<close> is written against: a versioned key-value table, a
  blob store and append-only event streams. A repository method is a program, a tree of storage calls whose continuation receives the answer, so that
  other workers' calls can run between any two of its calls. \<open>storage\<close> is the behaviour of the stores, which are not part
  of the repository: a relation between the world before a call, its answer and the world after it. The locale
  \<open>versioned_table\<close> is what the code relies on, and \<open>wp\<close> a program logic for what a program writes to one row.
\<close>

section \<open>Errors\<close>

text \<open>An error is the list of sentinel errors that \<^verbatim>\<open>errors.Is\<close> finds in it; \<^verbatim>\<open>errors.Join\<close> and wrapping add to it.\<close>

datatype sentinel = ErrNotFound | ErrConflict | ErrAlreadyExists | ErrOutcomeUnknown | ErrUnavailable | ErrInvalidArgument
  | ErrCorrupt | ErrInvalid | ErrRecordTooLarge | ErrPayloadTooLarge | ErrIndexPending | ErrCanceled | ErrOther

type_synonym store_error = "sentinel list"

definition errIs :: "store_error \<Rightarrow> sentinel \<Rightarrow> bool" where
  "errIs e s \<longleftrightarrow> s \<in> set e"

lemma errIs_simps [simp]: "errIs [] s = False" "errIs (t # e) s = (s = t \<or> errIs e s)"
  by (auto simp: errIs_def)

section \<open>Programs\<close>

type_synonym kv_key = "string \<times> string"

record kv_item =
  ki_Key :: kv_key
  ki_Fields :: "(string, string) gomap"

record kv_row =
  kr_Item :: kv_item
  kr_Version :: string

text \<open>A query reads one page of a partition in the order of the sort keys.\<close>

record kv_query =
  kq_PartitionKey :: string
  kq_SortKeyPrefix :: string
  kq_PageSize :: int
  kq_PageToken :: string

record kv_page =
  kg_Records :: "kv_row list"
  kg_NextPageToken :: string

text \<open>An event of a stream, and a page of its history with the revisions of the events.\<close>

record event =
  en_AppendToken :: string
  en_ApplicationVersion :: int
  en_Changes :: "string list"

record event_page =
  eg_Entries :: "(nat \<times> event) list"
  eg_NextPageToken :: string

text \<open>An opened blob: whether it has a body, its declared size, and what reading the body yields before it ends.\<close>

record opened =
  op_Nil :: bool
  op_Size :: int
  op_Body :: string
  op_ReadError :: "store_error option"

datatype 'a prog =
    Ret 'a
  | TGet kv_key "store_error + kv_row \<Rightarrow> 'a prog"
  | TCreate kv_item "store_error + string \<Rightarrow> 'a prog"
  | TReplace kv_item string "store_error + string \<Rightarrow> 'a prog"
  | TQuery kv_query "store_error + kv_page \<Rightarrow> 'a prog"
  | EAppend string nat event "store_error option \<Rightarrow> 'a prog"
  | EState string "store_error + event list \<Rightarrow> 'a prog"
  | EHistory string string "store_error + event_page \<Rightarrow> 'a prog"
  | BCreate string string "store_error option \<Rightarrow> 'a prog"
  | BOpen string "store_error + opened \<Rightarrow> 'a prog"
  | Nonce "store_error + string \<Rightarrow> 'a prog"
  | CtxErr "store_error option \<Rightarrow> 'a prog"

primrec bindP :: "'a prog \<Rightarrow> ('a \<Rightarrow> 'b prog) \<Rightarrow> 'b prog" where
  "bindP (Ret x) g = g x"
| "bindP (TGet k f) g = TGet k (\<lambda>r. bindP (f r) g)"
| "bindP (TCreate it f) g = TCreate it (\<lambda>r. bindP (f r) g)"
| "bindP (TReplace it v f) g = TReplace it v (\<lambda>r. bindP (f r) g)"
| "bindP (TQuery q f) g = TQuery q (\<lambda>r. bindP (f r) g)"
| "bindP (EAppend s n ev f) g = EAppend s n ev (\<lambda>r. bindP (f r) g)"
| "bindP (EState s f) g = EState s (\<lambda>r. bindP (f r) g)"
| "bindP (EHistory s t f) g = EHistory s t (\<lambda>r. bindP (f r) g)"
| "bindP (BCreate k d f) g = BCreate k d (\<lambda>r. bindP (f r) g)"
| "bindP (BOpen k f) g = BOpen k (\<lambda>r. bindP (f r) g)"
| "bindP (Nonce f) g = Nonce (\<lambda>r. bindP (f r) g)"
| "bindP (CtxErr f) g = CtxErr (\<lambda>r. bindP (f r) g)"

text \<open>\<^verbatim>\<open>x, err := p; if err != nil { return err }\<close>, for results and for plain errors.\<close>

definition tryP :: "(store_error + 'a) prog \<Rightarrow> ('a \<Rightarrow> (store_error + 'b) prog) \<Rightarrow> (store_error + 'b) prog" where
  "tryP p g = bindP p (\<lambda>r. case r of Inl e \<Rightarrow> Ret (Inl e) | Inr x \<Rightarrow> g x)"

definition failP :: "store_error \<Rightarrow> (store_error + 'a) prog" where
  "failP e = Ret (Inl e)"

definition tableGet :: "kv_key \<Rightarrow> (store_error + kv_row) prog" where
  "tableGet k = TGet k Ret"

definition tableCreate :: "kv_item \<Rightarrow> (store_error + string) prog" where
  "tableCreate it = TCreate it Ret"

definition tableReplace :: "kv_item \<Rightarrow> string \<Rightarrow> (store_error + string) prog" where
  "tableReplace it v = TReplace it v Ret"

definition tableQuery :: "kv_query \<Rightarrow> (store_error + kv_page) prog" where
  "tableQuery q = TQuery q Ret"

text \<open>
  The event streams: \<^verbatim>\<open>TryAppend\<close> with the expected revision, \<^verbatim>\<open>ReadState\<close>, which answers the events of the stream for the state builder to
  fold, and \<^verbatim>\<open>ReadHistory\<close> with a page token.
\<close>

definition eventAppend :: "string \<Rightarrow> nat \<Rightarrow> event \<Rightarrow> (store_error + unit) prog" where
  "eventAppend s n ev = EAppend s n ev (\<lambda>r. Ret (case r of None \<Rightarrow> Inr () | Some e \<Rightarrow> Inl e))"

definition eventState :: "string \<Rightarrow> (store_error + event list) prog" where
  "eventState s = EState s Ret"

definition eventHistory :: "string \<Rightarrow> string \<Rightarrow> (store_error + event_page) prog" where
  "eventHistory s t = EHistory s t Ret"

text \<open>\<^verbatim>\<open>validContext\<close>: a context that was cancelled reports its error.\<close>

definition validContext :: "(store_error + unit) prog" where
  "validContext = CtxErr (\<lambda>e. Ret (case e of None \<Rightarrow> Inr () | Some err \<Rightarrow> Inl err))"

lemma bindP_assoc: "bindP (bindP p f) g = bindP p (\<lambda>x. bindP (f x) g)"
  by (induction p) simp_all

lemma bindP_Ret [simp]: "bindP p Ret = p"
  by (induction p) simp_all

section \<open>Running programs\<close>

record 'w storage =
  st_get :: "'w \<Rightarrow> kv_key \<Rightarrow> store_error + kv_row \<Rightarrow> 'w \<Rightarrow> bool"
  st_create :: "'w \<Rightarrow> kv_item \<Rightarrow> store_error + string \<Rightarrow> 'w \<Rightarrow> bool"
  st_replace :: "'w \<Rightarrow> kv_item \<Rightarrow> string \<Rightarrow> store_error + string \<Rightarrow> 'w \<Rightarrow> bool"
  st_query :: "'w \<Rightarrow> kv_query \<Rightarrow> store_error + kv_page \<Rightarrow> 'w \<Rightarrow> bool"
  st_append :: "'w \<Rightarrow> string \<Rightarrow> nat \<Rightarrow> event \<Rightarrow> store_error option \<Rightarrow> 'w \<Rightarrow> bool"
  st_state :: "'w \<Rightarrow> string \<Rightarrow> store_error + event list \<Rightarrow> 'w \<Rightarrow> bool"
  st_history :: "'w \<Rightarrow> string \<Rightarrow> string \<Rightarrow> store_error + event_page \<Rightarrow> 'w \<Rightarrow> bool"
  st_blob_create :: "'w \<Rightarrow> string \<Rightarrow> string \<Rightarrow> store_error option \<Rightarrow> 'w \<Rightarrow> bool"
  st_blob_open :: "'w \<Rightarrow> string \<Rightarrow> store_error + opened \<Rightarrow> 'w \<Rightarrow> bool"
  st_nonce :: "'w \<Rightarrow> store_error + string \<Rightarrow> 'w \<Rightarrow> bool"
  st_ctx :: "'w \<Rightarrow> store_error option \<Rightarrow> 'w \<Rightarrow> bool"

text \<open>A client is a program with the writes that were acknowledged to it.\<close>

type_synonym acks = "(kv_item \<times> string) list"

definition acked :: "kv_item \<Rightarrow> store_error + string \<Rightarrow> acks" where
  "acked it r = (case r of Inl _ \<Rightarrow> [] | Inr v \<Rightarrow> [(it, v)])"

lemma acked_simps [simp]: "acked it (Inl e) = []" "acked it (Inr v) = [(it, v)]"
  by (simp_all add: acked_def)

inductive client_step :: "'w storage \<Rightarrow> 'w \<Rightarrow> 'a prog \<times> acks \<Rightarrow> 'w \<Rightarrow> 'a prog \<times> acks \<Rightarrow> bool" for st where
  get: "st_get st w k r w' \<Longrightarrow> client_step st w (TGet k f, A) w' (f r, A)"
| create: "st_create st w it r w' \<Longrightarrow> client_step st w (TCreate it f, A) w' (f r, acked it r @ A)"
| replace: "st_replace st w it v r w' \<Longrightarrow> client_step st w (TReplace it v f, A) w' (f r, acked it r @ A)"
| query: "st_query st w q r w' \<Longrightarrow> client_step st w (TQuery q f, A) w' (f r, A)"
| append: "st_append st w s n ev r w' \<Longrightarrow> client_step st w (EAppend s n ev f, A) w' (f r, A)"
| state: "st_state st w s r w' \<Longrightarrow> client_step st w (EState s f, A) w' (f r, A)"
| history: "st_history st w s t r w' \<Longrightarrow> client_step st w (EHistory s t f, A) w' (f r, A)"
| bcreate: "st_blob_create st w k d r w' \<Longrightarrow> client_step st w (BCreate k d f, A) w' (f r, A)"
| bopen: "st_blob_open st w k r w' \<Longrightarrow> client_step st w (BOpen k f, A) w' (f r, A)"
| nonce: "st_nonce st w r w' \<Longrightarrow> client_step st w (Nonce f, A) w' (f r, A)"
| ctx: "st_ctx st w r w' \<Longrightarrow> client_step st w (CtxErr f, A) w' (f r, A)"

text \<open>Any number of clients, each running one call of \<open>calls\<close>, interleaved at every storage call.\<close>

inductive system_step :: "'w storage \<Rightarrow> 'a prog set \<Rightarrow> 'w \<times> ('a prog \<times> acks) list \<Rightarrow> 'w \<times> ('a prog \<times> acks) list \<Rightarrow> bool" for st calls where
  spawn: "p \<in> calls \<Longrightarrow> system_step st calls (w, cs) (w, cs @ [(p, [])])"
| run: "i < length cs \<Longrightarrow> client_step st w (cs ! i) w' c \<Longrightarrow> system_step st calls (w, cs) (w', cs[i := c])"

section \<open>What a program may write to one row\<close>

type_synonym facts = "(kv_item \<times> string) set"

definition learn :: "kv_key \<Rightarrow> kv_key \<Rightarrow> store_error + kv_row \<Rightarrow> facts" where
  "learn hk k r = (case r of Inl _ \<Rightarrow> {} | Inr row \<Rightarrow> if k = hk then {(kr_Item row, kr_Version row)} else {})"

text \<open>
  \<open>wp hk ok Q p F A\<close>: every write of \<open>p\<close> to the row \<open>hk\<close> is allowed by \<open>ok\<close> after the item it replaces, where \<open>F\<close> are items that
  the row is known to have held, with their versions, and \<open>A\<close> the acknowledged writes; \<open>Q\<close> holds of both and the result in the end.
\<close>

primrec wp :: "kv_key \<Rightarrow> (kv_item option \<Rightarrow> kv_item \<Rightarrow> bool) \<Rightarrow> (facts \<Rightarrow> acks \<Rightarrow> 'a \<Rightarrow> bool) \<Rightarrow> 'a prog \<Rightarrow> facts \<Rightarrow> acks \<Rightarrow> bool" where
  "wp hk ok Q (Ret x) = (\<lambda>F A. Q F A x)"
| "wp hk ok Q (TGet k f) = (\<lambda>F A. \<forall>r. wp hk ok Q (f r) (F \<union> learn hk k r) A)"
| "wp hk ok Q (TCreate it f) = (\<lambda>F A. (ki_Key it = hk \<longrightarrow> ok None it) \<and> (\<forall>r. wp hk ok Q (f r) F (acked it r @ A)))"
| "wp hk ok Q (TReplace it v f) = (\<lambda>F A. (ki_Key it = hk \<longrightarrow> (\<exists>old. (old, v) \<in> F \<and> ok (Some old) it)) \<and> (\<forall>r. wp hk ok Q (f r) F (acked it r @ A)))"
| "wp hk ok Q (TQuery q f) = (\<lambda>F A. \<forall>r. wp hk ok Q (f r) F A)"
| "wp hk ok Q (EAppend s n ev f) = (\<lambda>F A. \<forall>r. wp hk ok Q (f r) F A)"
| "wp hk ok Q (EState s f) = (\<lambda>F A. \<forall>r. wp hk ok Q (f r) F A)"
| "wp hk ok Q (EHistory s t f) = (\<lambda>F A. \<forall>r. wp hk ok Q (f r) F A)"
| "wp hk ok Q (BCreate k d f) = (\<lambda>F A. \<forall>r. wp hk ok Q (f r) F A)"
| "wp hk ok Q (BOpen k f) = (\<lambda>F A. \<forall>r. wp hk ok Q (f r) F A)"
| "wp hk ok Q (Nonce f) = (\<lambda>F A. \<forall>r. wp hk ok Q (f r) F A)"
| "wp hk ok Q (CtxErr f) = (\<lambda>F A. \<forall>r. wp hk ok Q (f r) F A)"

lemma wp_bind: "wp hk ok Q (bindP p g) F A = wp hk ok (\<lambda>F A x. wp hk ok Q (g x) F A) p F A"
  by (induction p arbitrary: F A) simp_all

lemma wp_conseq:
  assumes "wp hk ok Q p F A" and "\<And>F' A' x. F \<subseteq> F' \<Longrightarrow> set A \<subseteq> set A' \<Longrightarrow> Q F' A' x \<Longrightarrow> R F' A' x"
  shows "wp hk ok R p F A"
  using assms
proof (induction p arbitrary: F A)
  case (TGet k f)
  have "wp hk ok R (f r) (F \<union> learn hk k r) A" for r
  proof (rule TGet.IH[OF rangeI])
    show "wp hk ok Q (f r) (F \<union> learn hk k r) A" using TGet.prems(1) by simp
    show "R F' A' x" if "F \<union> learn hk k r \<subseteq> F'" "set A \<subseteq> set A'" "Q F' A' x" for F' A' x using TGet.prems(2) that by auto
  qed
  then show ?case by simp
next
  case (TCreate it f)
  have "wp hk ok R (f r) F (acked it r @ A)" for r
  proof (rule TCreate.IH[OF rangeI])
    show "wp hk ok Q (f r) F (acked it r @ A)" using TCreate.prems(1) by simp
    show "R F' A' x" if "F \<subseteq> F'" "set (acked it r @ A) \<subseteq> set A'" "Q F' A' x" for F' A' x using TCreate.prems(2) that by auto
  qed
  then show ?case using TCreate.prems(1) by simp
next
  case (TReplace it v f)
  have "wp hk ok R (f r) F (acked it r @ A)" for r
  proof (rule TReplace.IH[OF rangeI])
    show "wp hk ok Q (f r) F (acked it r @ A)" using TReplace.prems(1) by simp
    show "R F' A' x" if "F \<subseteq> F'" "set (acked it r @ A) \<subseteq> set A'" "Q F' A' x" for F' A' x using TReplace.prems(2) that by auto
  qed
  then show ?case using TReplace.prems(1) by simp
next
  case (TQuery q f)
  then show ?case by (auto intro!: TQuery.IH[OF rangeI])
next
  case (EAppend s n ev f)
  then show ?case by (auto intro!: EAppend.IH[OF rangeI])
next
  case (EState s f)
  then show ?case by (auto intro!: EState.IH[OF rangeI])
next
  case (EHistory s t f)
  then show ?case by (auto intro!: EHistory.IH[OF rangeI])
next
  case (BCreate k d f)
  then show ?case by (auto intro!: BCreate.IH[OF rangeI])
next
  case (BOpen k f)
  then show ?case by (auto intro!: BOpen.IH[OF rangeI])
next
  case (Nonce f)
  then show ?case by (auto intro!: Nonce.IH[OF rangeI])
next
  case (CtxErr f)
  then show ?case by (auto intro!: CtxErr.IH[OF rangeI])
qed simp

lemma wp_failP [simp]: "wp hk ok Q (failP e) F A = Q F A (Inl e)"
  by (simp add: failP_def)

lemma wp_tryP:
  "wp hk ok Q (tryP p g) F A = wp hk ok (\<lambda>F A r. case r of Inl e \<Rightarrow> Q F A (Inl e) | Inr x \<Rightarrow> wp hk ok Q (g x) F A) p F A"
proof -
  have "(\<lambda>F A r. wp hk ok Q (case r of Inl e \<Rightarrow> Ret (Inl e) | Inr x \<Rightarrow> g x) F A)
    = (\<lambda>F A r. case r of Inl e \<Rightarrow> Q F A (Inl e) | Inr x \<Rightarrow> wp hk ok Q (g x) F A)"
    by (auto simp: fun_eq_iff split: sum.splits)
  then show ?thesis by (simp add: tryP_def wp_bind)
qed

text \<open>A program that does not write to the row at all.\<close>

primrec quiet :: "kv_key \<Rightarrow> 'a prog \<Rightarrow> bool" where
  "quiet hk (Ret x) \<longleftrightarrow> True"
| "quiet hk (TGet k f) \<longleftrightarrow> (\<forall>r. quiet hk (f r))"
| "quiet hk (TCreate it f) \<longleftrightarrow> ki_Key it \<noteq> hk \<and> (\<forall>r. quiet hk (f r))"
| "quiet hk (TReplace it v f) \<longleftrightarrow> ki_Key it \<noteq> hk \<and> (\<forall>r. quiet hk (f r))"
| "quiet hk (TQuery q f) \<longleftrightarrow> (\<forall>r. quiet hk (f r))"
| "quiet hk (EAppend s n ev f) \<longleftrightarrow> (\<forall>r. quiet hk (f r))"
| "quiet hk (EState s f) \<longleftrightarrow> (\<forall>r. quiet hk (f r))"
| "quiet hk (EHistory s t f) \<longleftrightarrow> (\<forall>r. quiet hk (f r))"
| "quiet hk (BCreate k d f) \<longleftrightarrow> (\<forall>r. quiet hk (f r))"
| "quiet hk (BOpen k f) \<longleftrightarrow> (\<forall>r. quiet hk (f r))"
| "quiet hk (Nonce f) \<longleftrightarrow> (\<forall>r. quiet hk (f r))"
| "quiet hk (CtxErr f) \<longleftrightarrow> (\<forall>r. quiet hk (f r))"

named_theorems quiets \<open>programs that do not write to a row\<close>

lemma quiet_bind [quiets]: "quiet hk p \<Longrightarrow> (\<And>x. quiet hk (g x)) \<Longrightarrow> quiet hk (bindP p g)"
  by (induction p) auto

lemma quiet_tryP [quiets]: "quiet hk p \<Longrightarrow> (\<And>x. quiet hk (g x)) \<Longrightarrow> quiet hk (tryP p g)"
  unfolding tryP_def by (rule quiet_bind) (auto split: sum.split)

lemma quiet_failP [simp]: "quiet hk (failP e)"
  by (simp add: failP_def)

lemma quiet_tableGet [quiets]: "quiet hk (tableGet k)"
  by (simp add: tableGet_def)

lemma quiet_tableCreate [quiets]: "ki_Key it \<noteq> hk \<Longrightarrow> quiet hk (tableCreate it)"
  by (simp add: tableCreate_def)

lemma quiet_tableReplace [quiets]: "ki_Key it \<noteq> hk \<Longrightarrow> quiet hk (tableReplace it v)"
  by (simp add: tableReplace_def)

lemma quiet_validContext [quiets]: "quiet hk validContext"
  by (simp add: validContext_def)

lemma wp_quiet:
  assumes "quiet hk p" and "\<And>r F' A'. F \<subseteq> F' \<Longrightarrow> set A \<subseteq> set A' \<Longrightarrow> Q F' A' r"
  shows "wp hk ok Q p F A"
proof -
  have "wp hk ok (\<lambda>F A r. True) p F A" using assms(1) by (induction p arbitrary: F A) auto
  then show ?thesis by (rule wp_conseq) (use assms(2) in auto)
qed

text \<open>What a program may return, whatever the stores answer.\<close>

primrec returns :: "('a \<Rightarrow> bool) \<Rightarrow> 'a prog \<Rightarrow> bool" where
  "returns P (Ret x) \<longleftrightarrow> P x"
| "returns P (TGet k f) \<longleftrightarrow> (\<forall>r. returns P (f r))"
| "returns P (TCreate it f) \<longleftrightarrow> (\<forall>r. returns P (f r))"
| "returns P (TReplace it v f) \<longleftrightarrow> (\<forall>r. returns P (f r))"
| "returns P (TQuery q f) \<longleftrightarrow> (\<forall>r. returns P (f r))"
| "returns P (EAppend s n ev f) \<longleftrightarrow> (\<forall>r. returns P (f r))"
| "returns P (EState s f) \<longleftrightarrow> (\<forall>r. returns P (f r))"
| "returns P (EHistory s t f) \<longleftrightarrow> (\<forall>r. returns P (f r))"
| "returns P (BCreate k d f) \<longleftrightarrow> (\<forall>r. returns P (f r))"
| "returns P (BOpen k f) \<longleftrightarrow> (\<forall>r. returns P (f r))"
| "returns P (Nonce f) \<longleftrightarrow> (\<forall>r. returns P (f r))"
| "returns P (CtxErr f) \<longleftrightarrow> (\<forall>r. returns P (f r))"

lemma returns_bind: "(\<And>x. returns P (g x)) \<Longrightarrow> returns P (bindP p g)"
  by (induction p) auto

lemma returns_tryP: "(\<And>e. P (Inl e)) \<Longrightarrow> (\<And>x. returns P (g x)) \<Longrightarrow> returns P (tryP p g)"
  unfolding tryP_def by (rule returns_bind) (auto split: sum.split)

lemma wp_quiet_returns:
  assumes "quiet hk p" and "returns P p" and "\<And>r F' A'. F \<subseteq> F' \<Longrightarrow> set A \<subseteq> set A' \<Longrightarrow> P r \<Longrightarrow> Q F' A' r"
  shows "wp hk ok Q p F A"
proof -
  have "wp hk ok (\<lambda>F A r. P r) p F A" using assms(1,2) by (induction p arbitrary: F A) auto
  then show ?thesis by (rule wp_conseq) (use assms(3) in auto)
qed

section \<open>The contract of the table\<close>

text \<open>
  \<open>log w k\<close> is the history of the row \<open>k\<close>: the items committed to it with their versions, oldest first. Reads return the last
  entry. A conditional write commits at most once, only against the version it names, with a version the row never had;
  an error says nothing about whether it did. Nothing else changes the table: no row is deleted. \<open>sound\<close> is the store's own
  consistency, which every call keeps.
\<close>

definition committed :: "('w \<Rightarrow> kv_key \<Rightarrow> (kv_item \<times> string) list) \<Rightarrow> 'w \<Rightarrow> kv_item \<Rightarrow> string \<Rightarrow> 'w \<Rightarrow> bool" where
  "committed log w it v w' \<longleftrightarrow> v \<notin> snd ` set (log w (ki_Key it)) \<and> log w' = (log w)(ki_Key it := log w (ki_Key it) @ [(it, v)])"

locale versioned_table =
  fixes st :: "'w storage" and log :: "'w \<Rightarrow> kv_key \<Rightarrow> (kv_item \<times> string) list" and sound :: "'w \<Rightarrow> bool"
  assumes get_last: "sound w \<Longrightarrow> st_get st w k (Inr row) w' \<Longrightarrow> log w k \<noteq> [] \<and> last (log w k) = (kr_Item row, kr_Version row)"
    and get_keeps: "sound w \<Longrightarrow> st_get st w k rg w' \<Longrightarrow> log w' = log w \<and> sound w'"
    and create_commits: "sound w \<Longrightarrow> st_create st w it r w' \<Longrightarrow> sound w' \<and>
      (((\<exists>e. r = Inl e) \<and> log w' = log w) \<or> (\<exists>v. log w (ki_Key it) = [] \<and> committed log w it v w' \<and> (\<forall>u. r = Inr u \<longrightarrow> u = v)))"
    and replace_commits: "sound w \<Longrightarrow> st_replace st w it old r w' \<Longrightarrow> sound w' \<and>
      (((\<exists>e. r = Inl e) \<and> log w' = log w)
       \<or> (\<exists>v. log w (ki_Key it) \<noteq> [] \<and> snd (last (log w (ki_Key it))) = old \<and> committed log w it v w' \<and> (\<forall>u. r = Inr u \<longrightarrow> u = v)))"
    and others_keep: "sound w \<Longrightarrow> st_blob_create st w b d re w' \<Longrightarrow> log w' = log w \<and> sound w'" "sound w \<Longrightarrow> st_blob_open st w b ro w' \<Longrightarrow> log w' = log w \<and> sound w'"
      "sound w \<Longrightarrow> st_nonce st w rn w' \<Longrightarrow> log w' = log w \<and> sound w'" "sound w \<Longrightarrow> st_ctx st w re w' \<Longrightarrow> log w' = log w \<and> sound w'"
      "sound w \<Longrightarrow> st_query st w q rq w' \<Longrightarrow> log w' = log w \<and> sound w'" "sound w \<Longrightarrow> st_append st w s n ev re w' \<Longrightarrow> log w' = log w \<and> sound w'"
      "sound w \<Longrightarrow> st_state st w s rs w' \<Longrightarrow> log w' = log w \<and> sound w'" "sound w \<Longrightarrow> st_history st w s t rh w' \<Longrightarrow> log w' = log w \<and> sound w'"

fun legal_from :: "(kv_item option \<Rightarrow> kv_item \<Rightarrow> bool) \<Rightarrow> kv_item option \<Rightarrow> (kv_item \<times> string) list \<Rightarrow> bool" where
  "legal_from ok prev [] \<longleftrightarrow> True"
| "legal_from ok prev (x # xs) \<longleftrightarrow> ok prev (fst x) \<and> legal_from ok (Some (fst x)) xs"

abbreviation legal :: "(kv_item option \<Rightarrow> kv_item \<Rightarrow> bool) \<Rightarrow> (kv_item \<times> string) list \<Rightarrow> bool" where
  "legal ok xs \<equiv> legal_from ok None xs"

lemma legal_from_snoc:
  "legal_from ok prev (xs @ [x]) \<longleftrightarrow> legal_from ok prev xs \<and> ok (if xs = [] then prev else Some (fst (last xs))) (fst x)"
  by (induction xs arbitrary: prev) auto

text \<open>
  The items of a row stand for values: \<open>names it x\<close>. A row whose writes all follow a step of \<open>nxt\<close> on the values holds a run of \<open>nxt\<close>.
\<close>

definition named_ok :: "(kv_item \<Rightarrow> 'x \<Rightarrow> bool) \<Rightarrow> ('x option \<Rightarrow> 'x \<Rightarrow> bool) \<Rightarrow> kv_item option \<Rightarrow> kv_item \<Rightarrow> bool" where
  "named_ok names nxt old new \<longleftrightarrow> (\<exists>x'. names new x' \<and> (case old of None \<Rightarrow> nxt None x' | Some it \<Rightarrow> \<exists>x. names it x \<and> nxt (Some x) x'))"

fun runs :: "('x option \<Rightarrow> 'x \<Rightarrow> bool) \<Rightarrow> 'x option \<Rightarrow> 'x list \<Rightarrow> bool" where
  "runs nxt prev [] \<longleftrightarrow> True"
| "runs nxt prev (x # xs) \<longleftrightarrow> nxt prev x \<and> runs nxt (Some x) xs"

abbreviation row_values :: "(kv_item \<Rightarrow> 'x \<Rightarrow> bool) \<Rightarrow> (kv_item \<times> string) list \<Rightarrow> 'x list \<Rightarrow> bool" where
  "row_values names l xs \<equiv> list_all2 (\<lambda>(it, v) x. names it x) l xs"

definition one_value :: "(kv_item \<Rightarrow> 'x \<Rightarrow> bool) \<Rightarrow> bool" where
  "one_value names \<longleftrightarrow> (\<forall>it x y. names it x \<longrightarrow> names it y \<longrightarrow> x = y)"

lemma legal_runs:
  assumes unique: "one_value names"
  shows "legal_from (named_ok names nxt) prev l \<Longrightarrow> (case prev of None \<Rightarrow> p = None | Some it \<Rightarrow> \<exists>x. names it x \<and> p = Some x) \<Longrightarrow>
    \<exists>xs. row_values names l xs \<and> runs nxt p xs"
proof (induction l arbitrary: prev p)
  case Nil
  then show ?case by simp
next
  case (Cons y l)
  obtain it v where y: "y = (it, v)" by (cases y)
  obtain x' where x': "names it x'" "case prev of None \<Rightarrow> nxt None x' | Some it \<Rightarrow> \<exists>x. names it x \<and> nxt (Some x) x'"
    using Cons.prems(1) y by (auto simp: named_ok_def)
  have n: "nxt p x'" using x'(2) Cons.prems(2) unique unfolding one_value_def by (cases prev) auto
  obtain xs where "row_values names l xs" "runs nxt (Some x') xs"
    using Cons.IH[of "Some it" "Some x'"] Cons.prems(1) y x'(1) by auto
  then show ?case using n y x'(1) by (intro exI[of _ "x' # xs"]) simp
qed

lemma row_values_unique:
  assumes "one_value names"
  shows "row_values names l xs \<Longrightarrow> row_values names l ys \<Longrightarrow> xs = ys"
proof (induction l arbitrary: xs ys)
  case (Cons a l)
  then show ?case using assms unfolding one_value_def by (auto simp: list_all2_Cons1)
qed simp

text \<open>The acknowledged writes to the row.\<close>

definition row_acks :: "kv_key \<Rightarrow> acks \<Rightarrow> acks" where
  "row_acks hk A = filter (\<lambda>(it, v). ki_Key it = hk) A"

lemma row_acks_simps [simp]:
  "row_acks hk [] = []" "row_acks hk (acked it (Inl e) @ A) = row_acks hk A" "row_acks hk (A @ B) = row_acks hk A @ row_acks hk B"
  "row_acks hk (acked it r) = (if ki_Key it = hk then acked it r else [])"
  "row_acks hk ((it, v) # A) = (if ki_Key it = hk then (it, v) # row_acks hk A else row_acks hk A)"
  by (auto simp: row_acks_def acked_def split: sum.splits)

definition clients_ok :: "kv_key \<Rightarrow> (kv_item option \<Rightarrow> kv_item \<Rightarrow> bool) \<Rightarrow> (facts \<Rightarrow> acks \<Rightarrow> 'a \<Rightarrow> bool) \<Rightarrow> (kv_item \<times> string) list \<Rightarrow> ('a prog \<times> acks) list \<Rightarrow> bool" where
  "clients_ok hk ok Q l cs \<longleftrightarrow> legal ok l \<and> distinct (map snd l)
     \<and> (\<forall>c \<in> set cs. \<exists>F. F \<subseteq> set l \<and> wp hk ok Q (fst c) F (snd c))
     \<and> set (concat (map (row_acks hk \<circ> snd) cs)) \<subseteq> set l \<and> distinct (concat (map (row_acks hk \<circ> snd) cs))"

lemma clients_ok_runs:
  assumes "clients_ok hk (named_ok names nxt) Q l cs" and "one_value names"
  shows "\<exists>xs. row_values names l xs \<and> runs nxt None xs"
proof -
  have "legal (named_ok names nxt) l" using assms(1) unfolding clients_ok_def by blast
  then show ?thesis using legal_runs[OF assms(2), of nxt None l None] by simp
qed

lemma distinct_concat_update:
  assumes "i < length xs" and "distinct (concat xs)" and "y = xs ! i \<or> (\<exists>a. y = a # xs ! i \<and> a \<notin> set (concat xs))"
  shows "distinct (concat (xs[i := y]))" and "set (concat (xs[i := y])) \<subseteq> set (concat xs) \<union> set y"
proof -
  have e: "xs = take i xs @ xs ! i # drop (Suc i) xs" using assms(1) by (rule id_take_nth_drop)
  have u: "xs[i := y] = take i xs @ y # drop (Suc i) xs" using assms(1) by (simp add: upd_conv_take_nth_drop)
  have c: "concat xs = concat (take i xs) @ xs ! i @ concat (drop (Suc i) xs)"
    by (subst e) simp
  have cu: "concat (xs[i := y]) = concat (take i xs) @ y @ concat (drop (Suc i) xs)" unfolding u by simp
  have "distinct (P @ y @ S)" if "distinct (P @ z @ S)" "y = z \<or> (\<exists>a. y = a # z \<and> a \<notin> set (P @ z @ S))" for P z S
    using that by auto
  then show "distinct (concat (xs[i := y]))" using assms(2,3) unfolding cu c by blast
  show "set (concat (xs[i := y])) \<subseteq> set (concat xs) \<union> set y" unfolding cu c by auto
qed

context versioned_table
begin

lemma last_fact:
  assumes "log w k \<noteq> []" and "distinct (map snd (log w k))" and "(old, snd (last (log w k))) \<in> set (log w k)"
  shows "old = fst (last (log w k))"
proof -
  have "last (log w k) \<in> set (log w k)" using assms(1) by simp
  then show ?thesis using assms(2,3) by (metis distinct_map fst_conv inj_on_def snd_conv)
qed

text \<open>What one step of a client does to the row: nothing, or it appends an allowed item with a fresh version.\<close>

lemma client_step_row:
  assumes sd: "sound w" and "client_step st w (p, A) w' (p', A')" and "F \<subseteq> set (log w hk)" and "wp hk ok Q p F A" and "distinct (map snd (log w hk))"
  shows "sound w' \<and> (\<exists>F'. F' \<subseteq> set (log w' hk) \<and> wp hk ok Q p' F' A'
    \<and> ((log w' hk = log w hk \<and> row_acks hk A' = row_acks hk A)
      \<or> (\<exists>it v. log w' hk = log w hk @ [(it, v)] \<and> v \<notin> snd ` set (log w hk) \<and> ok (if log w hk = [] then None else Some (fst (last (log w hk)))) it
          \<and> (row_acks hk A' = row_acks hk A \<or> row_acks hk A' = (it, v) # row_acks hk A))))"
  using assms(2)
proof cases
  case (get k r f)
  have "learn hk k r \<subseteq> set (log w hk)"
  proof (cases r)
    case (Inr row)
    have "log w k \<noteq> []" "last (log w k) = (kr_Item row, kr_Version row)" using get_last[OF sd, of k row w'] get(4) Inr by auto
    then have "(kr_Item row, kr_Version row) \<in> set (log w k)" by (metis last_in_set)
    then show ?thesis using Inr by (auto simp: learn_def)
  qed (simp add: learn_def)
  then show ?thesis using get assms(3,4) get_keeps[OF sd get(4)] by (auto intro!: exI[of _ "F \<union> learn hk k r"])
next
  case (create it r f)
  show ?thesis
  proof (intro exI[of _ F] conjI)
    show "sound w'" using create_commits[OF sd create(4)] by blast
    show "F \<subseteq> set (log w' hk)" using create_commits[OF sd create(4)] assms(3) by (auto simp: committed_def)
    show "wp hk ok Q p' F A'" using create assms(4) by simp
    show "(log w' hk = log w hk \<and> row_acks hk A' = row_acks hk A)
      \<or> (\<exists>it v. log w' hk = log w hk @ [(it, v)] \<and> v \<notin> snd ` set (log w hk) \<and> ok (if log w hk = [] then None else Some (fst (last (log w hk)))) it
          \<and> (row_acks hk A' = row_acks hk A \<or> row_acks hk A' = (it, v) # row_acks hk A))"
      using create_commits[OF sd create(4)] create assms(4) by (cases r; cases "ki_Key it = hk") (auto simp: committed_def)
  qed
next
  case (replace it v r f)
  show ?thesis
  proof (intro exI[of _ F] conjI)
    show "sound w'" using replace_commits[OF sd replace(4)] by blast
    show "F \<subseteq> set (log w' hk)" using replace_commits[OF sd replace(4)] assms(3) by (auto simp: committed_def)
    show "wp hk ok Q p' F A'" using replace assms(4) by simp
    have o: "ok (Some (fst (last (log w hk)))) it" if k: "ki_Key it = hk" "log w hk \<noteq> []" "snd (last (log w hk)) = v"
    proof -
      obtain old where "(old, v) \<in> F" "ok (Some old) it" using assms(4) replace(1) k(1) by auto
      then show ?thesis using last_fact[OF k(2) assms(5)] k(3) assms(3) by blast
    qed
    show "(log w' hk = log w hk \<and> row_acks hk A' = row_acks hk A)
      \<or> (\<exists>it v. log w' hk = log w hk @ [(it, v)] \<and> v \<notin> snd ` set (log w hk) \<and> ok (if log w hk = [] then None else Some (fst (last (log w hk)))) it
          \<and> (row_acks hk A' = row_acks hk A \<or> row_acks hk A' = (it, v) # row_acks hk A))"
      using replace_commits[OF sd replace(4)] replace o by (cases r; cases "ki_Key it = hk") (auto simp: committed_def)
  qed
next
  case (query q r f)
  then show ?thesis using others_keep(5)[OF sd query(4)] assms(3,4) by (intro conjI exI[of _ F]) auto
next
  case (append s n ev r f)
  then show ?thesis using others_keep(6)[OF sd append(4)] assms(3,4) by (intro conjI exI[of _ F]) auto
next
  case (state s r f)
  then show ?thesis using others_keep(7)[OF sd state(4)] assms(3,4) by (intro conjI exI[of _ F]) auto
next
  case (history s t r f)
  then show ?thesis using others_keep(8)[OF sd history(4)] assms(3,4) by (intro conjI exI[of _ F]) auto
next
  case (bcreate k d r f)
  then show ?thesis using others_keep(1)[OF sd bcreate(4)] assms(3,4) by (intro conjI exI[of _ F]) auto
next
  case (bopen k r f)
  then show ?thesis using others_keep(2)[OF sd bopen(4)] assms(3,4) by (intro conjI exI[of _ F]) auto
next
  case (nonce r f)
  then show ?thesis using others_keep(3)[OF sd nonce(4)] assms(3,4) by (intro conjI exI[of _ F]) auto
next
  case (ctx r f)
  then show ?thesis using others_keep(4)[OF sd ctx(4)] assms(3,4) by (intro conjI exI[of _ F]) auto
qed

lemma system_step_ok:
  assumes sd: "sound w" and "system_step st calls (w, cs) (w', cs')" and "clients_ok hk ok Q (log w hk) cs" and "\<forall>p \<in> calls. wp hk ok Q p {} []"
  shows "sound w' \<and> clients_ok hk ok Q (log w' hk) cs'"
  using assms(2)
proof cases
  case (spawn p)
  then show ?thesis using sd assms(3,4) by (auto simp: clients_ok_def)
next
  case (run i c)
  let ?l = "log w hk" and ?xs = "map (row_acks hk \<circ> snd) cs"
  obtain p A p' A' where c: "cs ! i = (p, A)" "c = (p', A')" by fastforce
  have ok: "legal ok ?l" "distinct (map snd ?l)" "set (concat ?xs) \<subseteq> set ?l" "distinct (concat ?xs)"
    and cl: "\<And>d. d \<in> set cs \<Longrightarrow> \<exists>F. F \<subseteq> set ?l \<and> wp hk ok Q (fst d) F (snd d)" using assms(3) by (auto simp: clients_ok_def)
  obtain F where F: "F \<subseteq> set ?l" "wp hk ok Q p F A" using cl[OF nth_mem[OF run(2)]] c(1) by auto
  have step: "client_step st w (p, A) w' (p', A')" using run(3) c by simp
  obtain F' where sd': "sound w'" and F': "F' \<subseteq> set (log w' hk)" "wp hk ok Q p' F' A'"
    and e: "(log w' hk = ?l \<and> row_acks hk A' = row_acks hk A)
      \<or> (\<exists>it v. log w' hk = ?l @ [(it, v)] \<and> v \<notin> snd ` set ?l \<and> ok (if ?l = [] then None else Some (fst (last ?l))) it
          \<and> (row_acks hk A' = row_acks hk A \<or> row_acks hk A' = (it, v) # row_acks hk A))"
    using client_step_row[OF sd step F ok(2)] by blast
  have sub: "set ?l \<subseteq> set (log w' hk)" using e by auto
  have cl': "\<exists>F. F \<subseteq> set (log w' hk) \<and> wp hk ok Q (fst d) F (snd d)" if "d \<in> set cs'" for d
  proof -
    have "d = c \<or> d \<in> set cs" using that run(1) set_update_subset_insert[of cs i c] by auto
    then show ?thesis using cl sub F' c(2) by (metis fst_conv order_trans snd_conv)
  qed
  have xs: "map (row_acks hk \<circ> snd) cs' = ?xs[i := row_acks hk A']" using run(1) c(2) by (simp add: map_update)
  have nth: "?xs ! i = row_acks hk A" using run(2) c(1) by simp
  have new: "row_acks hk A' = ?xs ! i \<or> (\<exists>a. row_acks hk A' = a # ?xs ! i \<and> a \<notin> set (concat ?xs))"
    using e ok(3) unfolding nth by force
  have i: "i < length ?xs" using run(2) by simp
  note dc = distinct_concat_update[OF i ok(4) new]
  have "set (row_acks hk A) \<subseteq> set (concat ?xs)" using nth_mem[OF i] unfolding nth by auto
  then have "set (row_acks hk A) \<subseteq> set ?l" using ok(3) by (rule subset_trans)
  then have "set (row_acks hk A') \<subseteq> set (log w' hk)" using e sub by auto
  then have "set (concat (map (row_acks hk \<circ> snd) cs')) \<subseteq> set (log w' hk)" using dc(2) ok(3) sub unfolding xs by blast
  moreover have "legal ok (log w' hk)" "distinct (map snd (log w' hk))" using e ok(1,2) by (auto simp: legal_from_snoc)
  ultimately show ?thesis using sd' cl' dc(1) unfolding clients_ok_def xs by blast
qed

lemma system_ok:
  assumes "sound w0" and "(system_step st calls)\<^sup>*\<^sup>* (w0, []) (w, cs)" and "log w0 hk = []" and "\<forall>p \<in> calls. wp hk ok Q p {} []"
  shows "clients_ok hk ok Q (log w hk) cs"
proof -
  have "sound w \<and> clients_ok hk ok Q (log w hk) cs" using assms(2)
  proof (induction "(w, cs)" arbitrary: w cs rule: rtranclp_induct)
    case base
    then show ?case using assms(1,3) by (simp add: clients_ok_def)
  next
    case (step y)
    then show ?case using system_step_ok[OF _ _ _ assms(4)] by (metis surj_pair)
  qed
  then show ?thesis by blast
qed

end

end
