(* ===== verification/Cloud_Base.thy ===== *)
theory Cloud_Base
  imports Cloud_Port Go_Bytes
begin

text \<open>
  What every repository of \<^verbatim>\<open>storage/cloudstate\<close> shares: keyed digests and encrypted, content-addressed blobs (\<^verbatim>\<open>crypto.go\<close>) and the
  checks on text, times and JSON objects (\<^verbatim>\<open>model.go\<close>). \<open>cloud_env\<close> holds the namespace and secret of a repository and
  the functions of the standard library it uses: HMAC-SHA-256, AES-GCM and the JSON canonicalizer.
\<close>

record cloud_env =
  cv_namespace :: string
  cv_secret :: string
  cv_hmac :: "string \<Rightarrow> string \<Rightarrow> string"
  cv_seal :: "string \<Rightarrow> string \<Rightarrow> string \<Rightarrow> string"
  cv_open :: "string \<Rightarrow> string \<Rightarrow> string \<Rightarrow> string option"
  cv_nonceSize :: nat
  cv_overhead :: nat
  cv_canonical :: "string \<Rightarrow> canonical_error + string"

definition maxPayloadBytes :: int where "maxPayloadBytes = 8 * 2 ^ 20"

section \<open>Checks\<close>

definition safeText :: "string \<Rightarrow> nat \<Rightarrow> bool" where
  "safeText s mx \<longleftrightarrow> utf8_valid s \<and> length s \<le> mx \<and> TrimSpace s \<noteq> [] \<and> TrimSpace s = s \<and> \<not> list_ex (\<lambda>c. c = CHR 0x00 \<or> c = CHR 0x0D \<or> c = CHR 0x0A) s"

text \<open>Years 1 to 9999; a time is an instant, its year is read in UTC.\<close>

definition validTime :: "gotime \<Rightarrow> bool" where
  "validTime t \<longleftrightarrow> \<not> IsZero t \<and> zero_time \<le> t \<and> t < 253402300800 * 10 ^ 9"

definition objectJSON :: "cloud_env \<Rightarrow> string \<Rightarrow> store_error + string" where
  "objectJSON env v =
     (if int (length v) > maxPayloadBytes then Inl [ErrRecordTooLarge, ErrInvalid]
      else if \<not> utf8_valid v \<or> v = [] then Inl [ErrInvalid]
      else case cv_canonical env v of
             Inl CanonicalLimit \<Rightarrow> Inl [ErrRecordTooLarge, ErrInvalid]
           | Inl CanonicalBad \<Rightarrow> Inl [ErrInvalid]
           | Inr c \<Rightarrow> if c = [] \<or> hd c \<noteq> CHR 0x7B then Inl [ErrInvalid] else Inr c)"

definition hexDigest :: "string \<Rightarrow> bool" where
  "hexDigest s \<longleftrightarrow> length s = 64 \<and> list_all is_lower_hex s"

section \<open>Keyed digests\<close>

definition derive :: "cloud_env \<Rightarrow> string \<Rightarrow> string \<Rightarrow> string" where
  "derive env domain data = cv_hmac env (cv_secret env) (''llmtw/cloudstate/v1/'' @ domain @ [CHR 0x00] @ data)"

definition cloud_digest :: "cloud_env \<Rightarrow> string \<Rightarrow> string \<Rightarrow> string" where
  "cloud_digest env domain data = hex_encode (derive env domain data)"

definition blobKey :: "cloud_env \<Rightarrow> string \<Rightarrow> string \<Rightarrow> string" where
  "blobKey env stream data = cv_namespace env @ ''/payload/'' @ cloud_digest env (''payload/'' @ stream) data"

definition validBlobKey :: "cloud_env \<Rightarrow> string \<Rightarrow> bool" where
  "validBlobKey env key \<longleftrightarrow>
     (let prefix = cv_namespace env @ ''/payload/''
      in length key = length prefix + 64 \<and> take (length prefix) key = prefix \<and> list_all is_lower_hex (drop (length prefix) key))"

section \<open>Encrypted blobs\<close>

text \<open>The read loop fills a buffer of one byte more than the declared size; an error of the reader is returned.\<close>

definition read_body :: "opened \<Rightarrow> store_error + string" where
  "read_body b =
     (if int (length (op_Body b)) > op_Size b then Inr (take (nat (op_Size b + 1)) (op_Body b))
      else case op_ReadError b of Some e \<Rightarrow> Inl e | None \<Rightarrow> Inr (op_Body b))"

definition unseal :: "cloud_env \<Rightarrow> string \<Rightarrow> string \<Rightarrow> opened \<Rightarrow> store_error + string" where
  "unseal env stream key b =
     (let n = cv_nonceSize env
      in if op_Nil b then Inl [ErrCorrupt]
         else if op_Size b < int (n + cv_overhead env) \<or> op_Size b > maxPayloadBytes + int (n + cv_overhead env) then Inl [ErrCorrupt]
         else case read_body b of
                Inl e \<Rightarrow> Inl e
              | Inr data \<Rightarrow>
                  if int (length data) \<noteq> op_Size b then Inl [ErrCorrupt]
                  else case cv_open env (take n data) (drop n data) key of
                         None \<Rightarrow> Inl [ErrCorrupt]
                       | Some plain \<Rightarrow> if blobKey env stream plain \<noteq> key then Inl [ErrCorrupt] else Inr plain)"

definition readBlob :: "cloud_env \<Rightarrow> string \<Rightarrow> string \<Rightarrow> (store_error + string) prog" where
  "readBlob env stream key =
     (if \<not> validBlobKey env key then failP [ErrCorrupt]
      else BOpen key (\<lambda>r. Ret (case r of Inl e \<Rightarrow> Inl e | Inr b \<Rightarrow> unseal env stream key b)))"

text \<open>A referenced blob that is definitely missing is lost payload, never an absent record.\<close>

definition lost_payload :: "store_error \<Rightarrow> store_error" where
  "lost_payload e = (if errIs e ErrNotFound \<and> \<not> errIs e ErrOutcomeUnknown then [ErrCorrupt] else e)"

definition readReferencedBlob :: "cloud_env \<Rightarrow> string \<Rightarrow> string \<Rightarrow> (store_error + string) prog" where
  "readReferencedBlob env stream key =
     bindP (readBlob env stream key) (\<lambda>r. Ret (case r of Inl e \<Rightarrow> Inl (lost_payload e) | Inr d \<Rightarrow> Inr d))"

definition writeBlob :: "cloud_env \<Rightarrow> string \<Rightarrow> string \<Rightarrow> (store_error + string) prog" where
  "writeBlob env stream data =
     (if int (length data) > maxPayloadBytes then failP [ErrPayloadTooLarge, ErrInvalid]
      else let key = blobKey env stream data
           in Nonce (\<lambda>r. case r of
                Inl e \<Rightarrow> failP e
              | Inr nonce \<Rightarrow>
                  BCreate key (nonce @ cv_seal env nonce data key) (\<lambda>r. case r of
                    None \<Rightarrow> Ret (Inr key)
                  | Some e \<Rightarrow>
                      if errIs e ErrOutcomeUnknown \<or> \<not> errIs e ErrAlreadyExists then failP e
                      else tryP (readBlob env stream key) (\<lambda>stored. if stored \<noteq> data then failP [ErrCorrupt] else Ret (Inr key)))))"

section \<open>Facts\<close>

lemma wp_validContext: "wp hk ok Q validContext F A \<longleftrightarrow> Q F A (Inr ()) \<and> (\<forall>e. Q F A (Inl e))"
proof
  assume w: "wp hk ok Q validContext F A"
  have "Q F A (Inr ())" using spec[OF w[unfolded validContext_def wp.simps], of None] by simp
  moreover have "Q F A (Inl e)" for e using spec[OF w[unfolded validContext_def wp.simps], of "Some e"] by simp
  ultimately show "Q F A (Inr ()) \<and> (\<forall>e. Q F A (Inl e))" by blast
qed (auto simp: validContext_def split: option.splits)

text \<open>
  \<open>opens env stream key d\<close>: some ciphertext decrypts under \<open>key\<close> to the content \<open>d\<close> that the key names. Reading a blob writes no row, and
  returns only such content, whatever the store answers.
\<close>

definition opens :: "cloud_env \<Rightarrow> string \<Rightarrow> string \<Rightarrow> string \<Rightarrow> bool" where
  "opens env stream key d \<longleftrightarrow> blobKey env stream d = key \<and> (\<exists>n c. cv_open env n c key = Some d)"

lemma readBlob_wp:
  assumes "\<And>e. Q F A (Inl e)" and "\<And>d. opens env stream key d \<Longrightarrow> Q F A (Inr d)"
  shows "wp hk ok Q (readBlob env stream key) F A"
proof -
  have "Q F A (case r of Inl e \<Rightarrow> Inl e | Inr b \<Rightarrow> unseal env stream key b)" for r
  proof (cases r)
    case (Inr b)
    have "Q F A (unseal env stream key b)"
    proof (cases "unseal env stream key b")
      case (Inr d)
      then have "opens env stream key d" by (auto simp: opens_def unseal_def Let_def split: if_splits sum.splits option.splits)
      then show ?thesis using assms(2) Inr by simp
    qed (use assms(1) in simp)
    then show ?thesis using Inr by simp
  qed (use assms(1) in simp)
  then show ?thesis using assms(1) by (simp add: readBlob_def failP_def)
qed

lemma quiet_readBlob [quiets]: "quiet hk (readBlob env stream key)"
  by (simp add: readBlob_def)

lemma quiet_readReferencedBlob [quiets]: "quiet hk (readReferencedBlob env stream key)"
  unfolding readReferencedBlob_def by (auto intro!: quiets)

lemma quiet_writeBlob [quiets]: "quiet hk (writeBlob env stream data)"
  unfolding writeBlob_def by (auto simp: Let_def intro!: quiets split: sum.split option.split)

lemma readReferencedBlob_wp:
  assumes "\<And>e. Q F A (Inl e)" and "\<And>d. opens env stream key d \<Longrightarrow> Q F A (Inr d)"
  shows "wp hk ok Q (readReferencedBlob env stream key) F A"
  unfolding readReferencedBlob_def wp_bind by (rule readBlob_wp) (use assms in auto)

lemma writeBlob_wp:
  assumes "\<And>e. Q F A (Inl e)" and "Q F A (Inr (blobKey env stream data))"
  shows "wp hk ok Q (writeBlob env stream data) F A"
proof -
  let ?key = "blobKey env stream data"
  have r: "wp hk ok Q (tryP (readBlob env stream ?key) (\<lambda>stored. if stored \<noteq> data then failP [ErrCorrupt] else Ret (Inr ?key))) F A"
    unfolding wp_tryP by (rule readBlob_wp) (use assms in \<open>auto simp: failP_def\<close>)
  have "wp hk ok Q (case r of None \<Rightarrow> Ret (Inr ?key) | Some e \<Rightarrow>
      if errIs e ErrOutcomeUnknown \<or> \<not> errIs e ErrAlreadyExists then failP e
      else tryP (readBlob env stream ?key) (\<lambda>stored. if stored \<noteq> data then failP [ErrCorrupt] else Ret (Inr ?key))) F A" for r
    using assms r by (cases r) (auto simp: failP_def)
  then show ?thesis using assms(1) by (auto simp: writeBlob_def failP_def Let_def split: sum.split)
qed

text \<open>
  Authenticated encryption and the keyed digest, for the contents \<open>D\<close> that the repository itself seals in a stream: nothing else
  decrypts, and no two of them have the same digest.
\<close>

definition authentic :: "cloud_env \<Rightarrow> string \<Rightarrow> string set \<Rightarrow> bool" where
  "authentic env stream D \<longleftrightarrow> inj_on (blobKey env stream) D \<and> (\<forall>key d. opens env stream key d \<longrightarrow> d \<in> D)"

lemma authentic_unique: "authentic env stream D \<Longrightarrow> d \<in> D \<Longrightarrow> opens env stream (blobKey env stream d) d' \<Longrightarrow> d' = d"
  unfolding authentic_def by (metis inj_onD opens_def)

end
