(* ===== verification/Cache.thy ===== *)
theory Cache
  imports Cloud_Base
begin

text \<open>
  Package \<^verbatim>\<open>cache\<close>: the identity of an exact response, cache policies, fill leases and the preparation of a new attempt. The
  repositories \<^verbatim>\<open>cache.Prepare\<close> calls are its arguments. A duration is a number of nanoseconds, a fingerprint a string of 32 bytes.
\<close>

section \<open>Policies\<close>

definition OperationGenerate :: string where "OperationGenerate = ''generate''"
definition OperationCompact :: string where "OperationCompact = ''compact''"

definition second :: int where "second = 10 ^ 9"

definition DefaultMaximumAge :: int where "DefaultMaximumAge = 365 * 24 * 3600 * second"

record cache_policy =
  cp_MaxAge :: int
  cp_Variant :: int

datatype policy_error = NegativeAge | AgeTooLarge | NegativeVariant | UnsupportedOperation | BadMaximum | BadAge | BadTemperatureValue | NotWholeSeconds

definition NewPolicy :: "int \<Rightarrow> int \<Rightarrow> policy_error + cache_policy" where
  "NewPolicy maxAgeSeconds variant =
     (if maxAgeSeconds < 0 then Inl NegativeAge
      else if maxAgeSeconds > DefaultMaximumAge sdiv second then Inl AgeTooLarge
      else if variant < 0 then Inl NegativeVariant
      else Inr \<lparr>cp_MaxAge = wrap64 (maxAgeSeconds * second), cp_Variant = variant\<rparr>)"

text \<open>\<open>fok\<close> is the finite and non-negative check of a \<^verbatim>\<open>float64\<close>.\<close>

definition ValidateWithMaximum :: "('f \<Rightarrow> bool) \<Rightarrow> string \<Rightarrow> 'f option \<Rightarrow> int \<Rightarrow> cache_policy \<Rightarrow> policy_error option" where
  "ValidateWithMaximum fok operation temperature maximumAge p =
     (if operation \<noteq> OperationGenerate \<and> operation \<noteq> OperationCompact then Some UnsupportedOperation
      else if maximumAge \<le> 0 \<or> maximumAge > DefaultMaximumAge then Some BadMaximum
      else if cp_MaxAge p < 0 \<or> cp_MaxAge p > maximumAge then Some BadAge
      else if cp_Variant p < 0 then Some NegativeVariant
      else case temperature of None \<Rightarrow> None | Some t \<Rightarrow> if fok t then None else Some BadTemperatureValue)"

definition Policy_Validate :: "('f \<Rightarrow> bool) \<Rightarrow> string \<Rightarrow> 'f option \<Rightarrow> cache_policy \<Rightarrow> policy_error option" where
  "Policy_Validate fok operation temperature p = ValidateWithMaximum fok operation temperature DefaultMaximumAge p"

definition ValidateOptional :: "('f \<Rightarrow> bool) \<Rightarrow> cache_policy option \<Rightarrow> string \<Rightarrow> 'f option \<Rightarrow> policy_error option" where
  "ValidateOptional fok p operation temperature = (case p of None \<Rightarrow> None | Some q \<Rightarrow> Policy_Validate fok operation temperature q)"

definition MaxAgeSeconds :: "cache_policy \<Rightarrow> policy_error + int" where
  "MaxAgeSeconds p =
     (if cp_MaxAge p < 0 \<or> cp_MaxAge p smod second \<noteq> 0 then Inl NotWholeSeconds
      else if cp_MaxAge p > DefaultMaximumAge then Inl AgeTooLarge
      else Inr (cp_MaxAge p sdiv second))"

section \<open>Identity\<close>

record route_identity =
  ri_Provider :: string
  ri_Endpoint :: string
  ri_Account :: string
  ri_Region :: string
  ri_Model :: string
  ri_Revision :: string
  ri_Compiler :: string

definition RouteIdentity_ok :: "route_identity \<Rightarrow> bool" where
  "RouteIdentity_ok r \<longleftrightarrow> list_all (\<lambda>s. s \<noteq> []) [ri_Provider r, ri_Endpoint r, ri_Model r, ri_Revision r, ri_Compiler r]"

record response_key =
  rk_ScopeID :: string
  rk_Operation :: string
  rk_Route :: route_identity
  rk_Fingerprint :: string
  rk_RequestIndex :: int

record response_entry =
  re_ID :: string
  re_Key :: response_key
  re_OriginOperationID :: string
  re_OriginCheckpointID :: string
  re_CompletedAt :: gotime
  re_Response :: string

definition MaxCompletionSkew :: int where "MaxCompletionSkew = 5 * second"

record response_lookup =
  rl_Key :: response_key
  rl_Now :: gotime
  rl_MaxAge :: "int option"

record response_use =
  ru_ScopeID :: string
  ru_OperationID :: string
  ru_EntryID :: string
  ru_CheckpointID :: string
  ru_CompletedAt :: gotime

section \<open>Fills\<close>

definition MaxFillLease :: int where "MaxFillLease = 15 * 60 * second"
definition StalledFillAfter :: int where "StalledFillAfter = 24 * 3600 * second"

record fill_lease =
  le_Key :: response_key
  le_OperationID :: string
  le_Attempt :: string
  le_AcquiredAt :: gotime
  le_ExpiresAt :: gotime

datatype fill_state = FillHeld | FillStarted | FillReleased | FillFinished

datatype fill_outcome = NoOutcome | FillPublished | FillNotCacheable | FillFailed | FillUnknown

record fill_completion =
  fc_Outcome :: fill_outcome
  fc_EntryID :: string
  fc_CompletedAt :: gotime

definition no_completion :: fill_completion where
  "no_completion = \<lparr>fc_Outcome = NoOutcome, fc_EntryID = [], fc_CompletedAt = zero_time\<rparr>"

record fill_record =
  fr_Lease :: fill_lease
  fr_State :: fill_state
  fr_UpdatedAt :: gotime
  fr_Completion :: fill_completion

datatype fill_disposition = FillOwned | FillWait | FillRecoveryNeeded | FillAttemptFinished | NoDisposition

record fill_decision =
  fd_Disposition :: fill_disposition
  fd_Record :: "fill_record option"

definition StalledFill :: "fill_record \<Rightarrow> fill_lease \<Rightarrow> gotime \<Rightarrow> bool" where
  "StalledFill record lease now \<longleftrightarrow> fr_State record = FillStarted \<and> le_Key (fr_Lease record) = le_Key lease
     \<and> le_Attempt (fr_Lease record) \<noteq> le_Attempt lease \<and> \<not> now < fr_UpdatedAt record + StalledFillAfter"

section \<open>Preparation\<close>

definition zero_decision :: fill_decision where
  "zero_decision = \<lparr>fd_Disposition = NoDisposition, fd_Record = None\<rparr>"

record preparation =
  pp_Entry :: "response_entry option"
  pp_Fill :: fill_decision

text \<open>
  \<^verbatim>\<open>cache.Prepare\<close> over the two repositories: \<open>lookupP\<close>, \<open>acquireP\<close> and \<open>releaseP\<close> are \<^verbatim>\<open>responses.Lookup\<close>, \<^verbatim>\<open>fills.Acquire\<close> and
  \<^verbatim>\<open>fills.Release\<close>. It answers at once: an entry, or what the fill repository decided. As in the code, the answer comes with an error,
  and the fill that was decided is returned even when the second lookup fails.
\<close>

definition no_preparation :: preparation where
  "no_preparation = \<lparr>pp_Entry = None, pp_Fill = zero_decision\<rparr>"

definition Prepare :: "(response_lookup \<Rightarrow> (store_error + response_entry option) prog) \<Rightarrow> (fill_lease \<Rightarrow> gotime \<Rightarrow> (fill_decision \<times> store_error option) prog) \<Rightarrow>
    (fill_lease \<Rightarrow> gotime \<Rightarrow> (store_error + unit) prog) \<Rightarrow> response_lookup \<Rightarrow> fill_lease \<Rightarrow> (preparation \<times> store_error option) prog" where
  "Prepare lookupP acquireP releaseP lookup lease =
     (if rl_Key lookup \<noteq> le_Key lease \<or> rl_Now lookup < le_AcquiredAt lease \<or> \<not> rl_Now lookup < le_ExpiresAt lease then Ret (no_preparation, Some [ErrOther])
      else bindP validContext (\<lambda>c. case c of Inl e \<Rightarrow> Ret (no_preparation, Some e) | Inr _ \<Rightarrow>
        bindP (lookupP lookup) (\<lambda>first. case first of
          Inl e \<Rightarrow> Ret (no_preparation, Some e)
        | Inr (Some entry) \<Rightarrow> Ret (no_preparation\<lparr>pp_Entry := Some entry\<rparr>, None)
        | Inr None \<Rightarrow>
            bindP (acquireP lease (rl_Now lookup)) (\<lambda>(decision, err).
              if err \<noteq> None then Ret (no_preparation, err)
              else let result = no_preparation\<lparr>pp_Fill := decision\<rparr>
                in if fd_Disposition decision \<noteq> FillOwned \<and> fd_Disposition decision \<noteq> FillWait then Ret (result, None)
                   else bindP (lookupP lookup) (\<lambda>again. case again of
                     Inl e \<Rightarrow> Ret (result, Some e)
                   | Inr None \<Rightarrow> Ret (result, None)
                   | Inr (Some entry) \<Rightarrow>
                       if fd_Disposition decision = FillOwned
                       then bindP (releaseP lease (rl_Now lookup)) (\<lambda>r. case r of
                         Inl e \<Rightarrow> Ret (no_preparation, Some e)
                       | Inr _ \<Rightarrow> Ret (no_preparation\<lparr>pp_Entry := Some entry\<rparr>, None))
                       else Ret (no_preparation\<lparr>pp_Entry := Some entry\<rparr>, None))))))"

end
