(* ===== verification/Cloud_Entry.thy ===== *)
theory Cloud_Entry
  imports Cache "HOL-Library.Char_ord" "HOL-Library.List_Lexorder"
begin

text \<open>
  The response cache over cloud storage, part one: row keys, pointers to encrypted documents, immutable bindings and reading an
  entry (\<^verbatim>\<open>storage/cloudstate/response_cache.go\<close>, \<^verbatim>\<open>response_cache_validation.go\<close>). \<open>cache_codec\<close> holds the JSON encodings of the
  documents and what the code reads of a decoded v1 response.
\<close>

record cache_pointer =
  pt_Version :: int
  pt_Blob :: string
  pt_Stream :: string

text \<open>What is read of a decoded \<^verbatim>\<open>GenerateResponseV1\<close> or \<^verbatim>\<open>CompactResponseV1\<close>.\<close>

record response_view =
  rv_Status :: string
  rv_CheckpointKind :: string
  rv_OperationID :: string
  rv_Disposition :: string
  rv_Depth :: int
  rv_HasParent :: bool
  rv_OutputDigest :: "string option"

record cache_codec =
  cc_key :: "response_key \<Rightarrow> string"
  cc_strings :: "string list \<Rightarrow> string"
  cc_attempt :: "response_key \<Rightarrow> string \<Rightarrow> string"
  cc_pointer :: "cache_pointer \<Rightarrow> string"
  cc_readPointer :: "string \<Rightarrow> cache_pointer option"
  cc_fill :: "fill_record \<Rightarrow> string option"
  cc_readFill :: "string \<Rightarrow> (int \<times> fill_record) option"
  cc_entry :: "response_entry \<Rightarrow> string option"
  cc_readEntry :: "string \<Rightarrow> (int \<times> response_entry) option"
  cc_use :: "response_use \<Rightarrow> string"
  cc_readUse :: "string \<Rightarrow> (int \<times> response_use) option"
  cc_response :: "string \<Rightarrow> string \<Rightarrow> response_view option"

section \<open>Keys and pointers\<close>

definition cache_row :: "cloud_env \<Rightarrow> string \<Rightarrow> string \<Rightarrow> kv_key" where
  "cache_row env kind data = (cv_namespace env @ ''/cache/'' @ kind @ ''/'' @ cloud_digest env (''cache/'' @ kind) data, ''v1'')"

definition entryKey :: "cloud_env \<Rightarrow> cache_codec \<Rightarrow> string \<Rightarrow> string \<Rightarrow> kv_key" where
  "entryKey env cc scope entry = cache_row env ''entry'' (cc_strings cc [scope, entry])"

definition cacheItem :: "cache_codec \<Rightarrow> kv_key \<Rightarrow> cache_pointer \<Rightarrow> kv_item" where
  "cacheItem cc key p = \<lparr>ki_Key = key, ki_Fields = [(''cache'', cc_pointer cc p)]\<rparr>"

definition stream_of_kind :: "cloud_env \<Rightarrow> string \<Rightarrow> string \<Rightarrow> bool" where
  "stream_of_kind env stream kind \<longleftrightarrow>
     (let prefix = cv_namespace env @ ''/cache/'' @ kind @ ''/'' in has_prefix prefix stream \<and> hexDigest (drop (length prefix) stream))"

definition validStream :: "cloud_env \<Rightarrow> string \<Rightarrow> bool" where
  "validStream env stream \<longleftrightarrow> list_ex (stream_of_kind env stream) [''entry'', ''use'', ''fill'']"

definition decode_pointer :: "cloud_env \<Rightarrow> cache_codec \<Rightarrow> kv_key \<Rightarrow> kv_row \<Rightarrow> store_error + cache_pointer \<times> string" where
  "decode_pointer env cc key row =
     (case mget (ki_Fields (kr_Item row)) ''cache'' of
        None \<Rightarrow> Inl [ErrCorrupt]
      | Some data \<Rightarrow>
          if length data > 2048 \<or> ki_Key (kr_Item row) \<noteq> key \<or> kr_Version row = [] then Inl [ErrCorrupt]
          else case cc_readPointer cc data of
                 None \<Rightarrow> Inl [ErrCorrupt]
               | Some p \<Rightarrow>
                   if pt_Version p \<noteq> 1 \<or> \<not> validBlobKey env (pt_Blob p) \<or> \<not> validStream env (pt_Stream p) then Inl [ErrCorrupt]
                   else Inr (p, kr_Version row))"

definition readPointer :: "cloud_env \<Rightarrow> cache_codec \<Rightarrow> kv_key \<Rightarrow> (store_error + cache_pointer \<times> string) prog" where
  "readPointer env cc key = tryP (tableGet key) (\<lambda>row. Ret (decode_pointer env cc key row))"

text \<open>An immutable document: the blob first, then the conditional binding; a replay reads first.\<close>

definition immutable :: "cloud_env \<Rightarrow> cache_codec \<Rightarrow> kv_key \<Rightarrow> string \<Rightarrow> string \<Rightarrow> (store_error + cache_pointer) prog" where
  "immutable env cc key stream data =
     (let want = \<lparr>pt_Version = 1, pt_Blob = blobKey env stream data, pt_Stream = stream\<rparr>
      in bindP (readPointer env cc key) (\<lambda>r. case r of
           Inr (existing, _) \<Rightarrow>
             if existing \<noteq> want then failP [ErrConflict]
             else tryP (readReferencedBlob env stream (pt_Blob existing)) (\<lambda>stored. if stored \<noteq> data then failP [ErrCorrupt] else Ret (Inr existing))
         | Inl e \<Rightarrow>
             if \<not> errIs e ErrNotFound then failP e
             else tryP (writeBlob env stream data) (\<lambda>_.
               bindP (tableCreate (cacheItem cc key want)) (\<lambda>r. case r of
                 Inr _ \<Rightarrow> Ret (Inr want)
               | Inl e \<Rightarrow>
                   if errIs e ErrAlreadyExists \<and> \<not> errIs e ErrOutcomeUnknown
                   then tryP (readPointer env cc key) (\<lambda>(existing, _). if existing \<noteq> want then failP [ErrConflict] else Ret (Inr want))
                   else failP e))))"

section \<open>Validation\<close>

definition validCacheKey :: "response_key \<Rightarrow> bool" where
  "validCacheKey k \<longleftrightarrow>
     (let route = rk_Route k
      in safeText (rk_ScopeID k) 512 \<and> (rk_Operation k = OperationGenerate \<or> rk_Operation k = OperationCompact)
         \<and> rk_Fingerprint k \<noteq> replicate 32 NUL \<and> rk_RequestIndex k \<ge> 0
         \<and> safeText (ri_Provider route) 256 \<and> safeText (ri_Endpoint route) 2048
         \<and> safeText (ri_Model route) 512 \<and> safeText (ri_Revision route) 512 \<and> safeText (ri_Compiler route) 512
         \<and> (ri_Account route = [] \<or> safeText (ri_Account route) 512) \<and> (ri_Region route = [] \<or> safeText (ri_Region route) 256))"

definition acceptable_response :: "cache_codec \<Rightarrow> string \<Rightarrow> string \<Rightarrow> response_view option" where
  "acceptable_response cc operation response =
     (case cc_response cc operation response of
        None \<Rightarrow> None
      | Some v \<Rightarrow>
          if operation = OperationGenerate \<and> ((rv_Status v \<noteq> ''completed'' \<and> rv_Status v \<noteq> ''tool_calls'') \<or> rv_CheckpointKind v \<noteq> ''generation'') then None
          else Some v)"

definition normalizeCacheEntry :: "cloud_env \<Rightarrow> cache_codec \<Rightarrow> response_entry \<Rightarrow> store_error + response_entry" where
  "normalizeCacheEntry env cc e =
     (if \<not> validCacheKey (re_Key e) \<or> \<not> safeText (re_ID e) 256 \<or> \<not> safeText (re_OriginOperationID e) 4096
         \<or> \<not> safeText (re_OriginCheckpointID e) 256 \<or> \<not> validTime (re_CompletedAt e) then Inl [ErrInvalid]
      else case objectJSON env (re_Response e) of
             Inl err \<Rightarrow> Inl err
           | Inr response \<Rightarrow>
               (case acceptable_response cc (rk_Operation (re_Key e)) response of
                  None \<Rightarrow> Inl [ErrInvalid]
                | Some v \<Rightarrow>
                    if rv_OperationID v \<noteq> re_OriginOperationID e \<or> rv_Disposition v = ''hit'' then Inl [ErrInvalid]
                    else Inr (e\<lparr>re_Response := response\<rparr>)))"

section \<open>Reading an entry\<close>

definition decode_entry :: "cloud_env \<Rightarrow> cache_codec \<Rightarrow> string \<Rightarrow> cache_pointer \<Rightarrow> string \<Rightarrow> store_error + response_entry" where
  "decode_entry env cc scope p data =
     (case cc_readEntry cc data of
        None \<Rightarrow> Inl [ErrCorrupt]
      | Some (version, e) \<Rightarrow>
          if version \<noteq> 1 \<or> rk_ScopeID (re_Key e) \<noteq> scope \<or> pt_Stream p \<noteq> fst (entryKey env cc scope (re_ID e)) then Inl [ErrCorrupt]
          else case normalizeCacheEntry env cc e of Inl _ \<Rightarrow> Inl [ErrCorrupt] | Inr entry \<Rightarrow> Inr entry)"

definition loadEntry :: "cloud_env \<Rightarrow> cache_codec \<Rightarrow> string \<Rightarrow> cache_pointer \<Rightarrow> (store_error + response_entry) prog" where
  "loadEntry env cc scope p =
     tryP (readReferencedBlob env (pt_Stream p) (pt_Blob p)) (\<lambda>data.
       case decode_entry env cc scope p data of
         Inl e \<Rightarrow> failP e
       | Inr entry \<Rightarrow>
           tryP (readPointer env cc (entryKey env cc scope (re_ID entry))) (\<lambda>(bound, _).
             if bound \<noteq> p then failP [ErrCorrupt] else Ret (Inr entry)))"

text \<open>\<^verbatim>\<open>Lookup\<close>: a miss is \<open>None\<close>; a stored success outside the window of the caller is a miss too.\<close>

definition fresh_entry :: "response_lookup \<Rightarrow> response_entry \<Rightarrow> bool" where
  "fresh_entry l e \<longleftrightarrow> \<not> (re_CompletedAt e > rl_Now l + MaxCompletionSkew \<or> (case rl_MaxAge l of None \<Rightarrow> False | Some age \<Rightarrow> re_CompletedAt e < rl_Now l - age))"

definition Lookup :: "cloud_env \<Rightarrow> cache_codec \<Rightarrow> response_lookup \<Rightarrow> (store_error + response_entry option) prog" where
  "Lookup env cc l =
     tryP validContext (\<lambda>_.
       if \<not> validCacheKey (rl_Key l) \<or> \<not> validTime (rl_Now l) \<or> (case rl_MaxAge l of None \<Rightarrow> False | Some age \<Rightarrow> age \<le> 0) then failP [ErrInvalid]
       else bindP (readPointer env cc (cache_row env ''success'' (cc_key cc (rl_Key l)))) (\<lambda>r. case r of
         Inl e \<Rightarrow> if errIs e ErrNotFound then Ret (Inr None) else failP e
       | Inr (p, _) \<Rightarrow>
           tryP (loadEntry env cc (rk_ScopeID (rl_Key l)) p) (\<lambda>e.
             if re_Key e \<noteq> rl_Key l then failP [ErrCorrupt]
             else Ret (Inr (if fresh_entry l e then Some e else None)))))"

section \<open>Facts\<close>

lemma wp_tableGet: "wp hk ok Q (tableGet k) F A \<longleftrightarrow> (\<forall>r. Q (F \<union> learn hk k r) A r)"
  by (simp add: tableGet_def)

lemma learn_Inl [simp]: "learn hk k (Inl e) = {}"
  by (simp add: learn_def)

lemma learn_other: "k \<noteq> hk \<Longrightarrow> learn hk k r = {}"
  by (simp add: learn_def split: sum.split)

lemma learn_row: "learn hk hk (Inr row) = {(kr_Item row, kr_Version row)}"
  by (simp add: learn_def)

text \<open>A pointer that was read is what the item of that version holds.\<close>

definition holds_pointer :: "cache_codec \<Rightarrow> kv_item \<Rightarrow> cache_pointer \<Rightarrow> bool" where
  "holds_pointer cc it p \<longleftrightarrow> (\<exists>data. mget (ki_Fields it) ''cache'' = Some data \<and> cc_readPointer cc data = Some p)"

lemma readPointer_wp:
  assumes "\<And>e F'. F \<subseteq> F' \<Longrightarrow> Q F' A (Inl e)"
    and "\<And>p v F'. F \<subseteq> F' \<Longrightarrow> (key = hk \<longrightarrow> (\<exists>it. (it, v) \<in> F' \<and> holds_pointer cc it p)) \<Longrightarrow> v \<noteq> [] \<Longrightarrow> pt_Version p = 1 \<Longrightarrow> Q F' A (Inr (p, v))"
  shows "wp hk ok Q (readPointer env cc key) F A"
proof -
  have "Q (F \<union> learn hk key (Inr row)) A (decode_pointer env cc key row)" for row
  proof (cases "decode_pointer env cc key row")
    case (Inr pv)
    obtain p v where pv: "pv = (p, v)" by (cases pv)
    have "holds_pointer cc (kr_Item row) p" "v = kr_Version row" "v \<noteq> []" "pt_Version p = 1"
      using Inr pv by (auto simp: decode_pointer_def holds_pointer_def split: option.splits if_splits)
    moreover have "(kr_Item row, kr_Version row) \<in> F \<union> learn hk key (Inr row)" if "key = hk" using that by (simp add: learn_row)
    ultimately have "Q (F \<union> learn hk key (Inr row)) A (Inr (p, v))" by (intro assms(2)) auto
    then show ?thesis using Inr pv by simp
  qed (use assms(1) in simp)
  moreover have "Q F A (Inl e)" for e using assms(1)[of F e] by simp
  ultimately show ?thesis by (auto simp: readPointer_def wp_tryP wp_tableGet split: sum.split)
qed

lemma quiet_readPointer [quiets]: "quiet hk (readPointer env cc key)"
  unfolding readPointer_def by (auto intro!: quiets)

lemma quiet_loadEntry [quiets]: "quiet hk (loadEntry env cc scope p)"
  unfolding loadEntry_def by (auto intro!: quiets split: sum.split)

lemma quiet_immutable [quiets]: "key \<noteq> hk \<Longrightarrow> quiet hk (immutable env cc key stream data)"
  unfolding immutable_def by (auto simp: Let_def cacheItem_def intro!: quiets split: sum.split)

lemma quiet_Lookup [quiets]: "quiet hk (Lookup env cc l)"
  unfolding Lookup_def by (auto intro!: quiets split: sum.split option.split)

end
