(* ===== verification/Cloud_Fill.thy ===== *)
theory Cloud_Fill
  imports Cloud_Entry
begin

text \<open>
  Durable fill coordination, \<^verbatim>\<open>storage/cloudstate/cache_fill.go\<close>, \<^verbatim>\<open>cache_fill_receipt.go\<close> and \<^verbatim>\<open>cache_fill_validation.go\<close>: each
  method is a program over the stores, its conditional-write loop of sixteen rounds included.
\<close>

section \<open>Validation\<close>

definition normalizeFillLease :: "fill_lease \<Rightarrow> store_error + fill_lease" where
  "normalizeFillLease l =
     (if \<not> validCacheKey (le_Key l) \<or> \<not> safeText (le_OperationID l) 4096 \<or> \<not> safeText (le_Attempt l) 256
         \<or> \<not> validTime (le_AcquiredAt l) \<or> \<not> validTime (le_ExpiresAt l) \<or> \<not> le_ExpiresAt l > le_AcquiredAt l
         \<or> time_Sub (le_ExpiresAt l) (le_AcquiredAt l) > MaxFillLease then Inl [ErrInvalid]
      else Inr l)"

definition validFillCompletion :: "fill_completion \<Rightarrow> bool" where
  "validFillCompletion c \<longleftrightarrow> validTime (fc_CompletedAt c) \<and>
     (case fc_Outcome c of
        FillPublished \<Rightarrow> safeText (fc_EntryID c) 256
      | FillFailed \<Rightarrow> fc_EntryID c = []
      | FillNotCacheable \<Rightarrow> fc_EntryID c = []
      | FillUnknown \<Rightarrow> fc_EntryID c = []
      | NoOutcome \<Rightarrow> False)"

definition validFillRecord :: "fill_record \<Rightarrow> bool" where
  "validFillRecord r \<longleftrightarrow> (\<exists>l. normalizeFillLease (fr_Lease r) = Inr l) \<and> validTime (fr_UpdatedAt r) \<and> \<not> fr_UpdatedAt r < le_AcquiredAt (fr_Lease r) \<and>
     (case fr_State r of
        FillHeld \<Rightarrow> fr_UpdatedAt r = le_AcquiredAt (fr_Lease r) \<and> fr_Completion r = no_completion
      | FillStarted \<Rightarrow> fr_UpdatedAt r < le_ExpiresAt (fr_Lease r) \<and> fr_Completion r = no_completion
      | FillReleased \<Rightarrow> fr_Completion r = no_completion
      | FillFinished \<Rightarrow> validFillCompletion (fr_Completion r) \<and> fc_CompletedAt (fr_Completion r) = fr_UpdatedAt r)"

lemma validFillRecord_code [code]:
  "validFillRecord r \<longleftrightarrow> (case normalizeFillLease (fr_Lease r) of Inl _ \<Rightarrow> False | Inr _ \<Rightarrow> True) \<and> validTime (fr_UpdatedAt r)
     \<and> \<not> fr_UpdatedAt r < le_AcquiredAt (fr_Lease r) \<and>
     (case fr_State r of
        FillHeld \<Rightarrow> fr_UpdatedAt r = le_AcquiredAt (fr_Lease r) \<and> fr_Completion r = no_completion
      | FillStarted \<Rightarrow> fr_UpdatedAt r < le_ExpiresAt (fr_Lease r) \<and> fr_Completion r = no_completion
      | FillReleased \<Rightarrow> fr_Completion r = no_completion
      | FillFinished \<Rightarrow> validFillCompletion (fr_Completion r) \<and> fc_CompletedAt (fr_Completion r) = fr_UpdatedAt r)"
  by (auto simp: validFillRecord_def split: sum.splits)

section \<open>The head of a fill\<close>

definition fill_row :: "cloud_env \<Rightarrow> cache_codec \<Rightarrow> response_key \<Rightarrow> kv_key" where
  "fill_row env cc k = cache_row env ''fill'' (cc_key cc k)"

definition fillBlobError :: "store_error \<Rightarrow> store_error" where
  "fillBlobError e = (if errIs e ErrNotFound then ErrCorrupt # e else e)"

definition fill_read :: "cloud_env \<Rightarrow> cache_codec \<Rightarrow> response_key \<Rightarrow> (store_error + fill_record \<times> string) prog" where
  "fill_read env cc k =
     (let rowKey = fill_row env cc k
      in tryP (readPointer env cc rowKey) (\<lambda>(p, version).
           if pt_Stream p \<noteq> fst rowKey then failP [ErrCorrupt]
           else bindP (readBlob env (pt_Stream p) (pt_Blob p)) (\<lambda>r. case r of
             Inl e \<Rightarrow> failP (fillBlobError e)
           | Inr data \<Rightarrow>
               (case cc_readFill cc data of
                  None \<Rightarrow> failP [ErrCorrupt]
                | Some (v, record) \<Rightarrow>
                    if v \<noteq> 1 \<or> le_Key (fr_Lease record) \<noteq> k \<or> \<not> validFillRecord record then failP [ErrCorrupt]
                    else Ret (Inr (record, version))))))"

definition fill_pointer :: "cloud_env \<Rightarrow> kv_key \<Rightarrow> string \<Rightarrow> cache_pointer" where
  "fill_pointer env key data = \<lparr>pt_Version = 1, pt_Blob = blobKey env (fst key) data, pt_Stream = fst key\<rparr>"

definition fill_write :: "cloud_env \<Rightarrow> cache_codec \<Rightarrow> fill_record \<Rightarrow> string \<Rightarrow> (store_error + string) prog" where
  "fill_write env cc record version =
     (let key = fill_row env cc (le_Key (fr_Lease record))
      in case cc_fill cc record of
           None \<Rightarrow> failP [ErrInvalid]
         | Some data \<Rightarrow>
             tryP (writeBlob env (fst key) data) (\<lambda>blob.
               let item = cacheItem cc key \<lparr>pt_Version = 1, pt_Blob = blob, pt_Stream = fst key\<rparr>
               in if version = [] then tableCreate item else tableReplace item version))"

section \<open>Receipts\<close>

definition terminalKey :: "cloud_env \<Rightarrow> cache_codec \<Rightarrow> fill_lease \<Rightarrow> kv_key" where
  "terminalKey env cc l = cache_row env ''fill-receipt'' (cc_attempt cc (le_Key l) (le_Attempt l))"

definition sealTerminal :: "cloud_env \<Rightarrow> cache_codec \<Rightarrow> fill_record \<Rightarrow> (store_error + unit) prog" where
  "sealTerminal env cc record =
     (let key = terminalKey env cc (fr_Lease record); stream = fst (fill_row env cc (le_Key (fr_Lease record)))
      in case cc_fill cc record of
           None \<Rightarrow> failP [ErrInvalid]
         | Some data \<Rightarrow>
             let want = \<lparr>pt_Version = 1, pt_Blob = blobKey env stream data, pt_Stream = stream\<rparr>
             in bindP (readPointer env cc key) (\<lambda>r. case r of
                  Inr (existing, _) \<Rightarrow> if existing \<noteq> want then failP [ErrConflict] else Ret (Inr ())
                | Inl e \<Rightarrow>
                    if \<not> errIs e ErrNotFound \<or> errIs e ErrOutcomeUnknown then failP e
                    else bindP (tableCreate (cacheItem cc key want)) (\<lambda>r. case r of
                      Inr _ \<Rightarrow> Ret (Inr ())
                    | Inl e \<Rightarrow>
                        if errIs e ErrAlreadyExists \<and> \<not> errIs e ErrOutcomeUnknown
                        then tryP (readPointer env cc key) (\<lambda>(existing, _). if existing \<noteq> want then failP [ErrConflict] else Ret (Inr ()))
                        else failP e)))"

definition decode_terminal :: "cache_codec \<Rightarrow> fill_lease \<Rightarrow> string \<Rightarrow> store_error + fill_record" where
  "decode_terminal cc l data =
     (case cc_readFill cc data of
        None \<Rightarrow> Inl [ErrCorrupt]
      | Some (v, record) \<Rightarrow>
          if v \<noteq> 1 \<or> \<not> validFillRecord record \<or> (fr_State record \<noteq> FillReleased \<and> fr_State record \<noteq> FillFinished)
             \<or> le_Key (fr_Lease record) \<noteq> le_Key l \<or> le_Attempt (fr_Lease record) \<noteq> le_Attempt l then Inl [ErrCorrupt]
          else if fr_Lease record \<noteq> l then Inl [ErrConflict]
          else Inr record)"

definition readTerminal :: "cloud_env \<Rightarrow> cache_codec \<Rightarrow> fill_lease \<Rightarrow> (store_error + fill_record option) prog" where
  "readTerminal env cc l =
     bindP (readPointer env cc (terminalKey env cc l)) (\<lambda>r. case r of
       Inl e \<Rightarrow> if errIs e ErrNotFound \<and> \<not> errIs e ErrOutcomeUnknown then Ret (Inr None) else failP e
     | Inr (p, _) \<Rightarrow>
         if pt_Stream p \<noteq> fst (fill_row env cc (le_Key l)) then failP [ErrCorrupt]
         else bindP (readBlob env (pt_Stream p) (pt_Blob p)) (\<lambda>r. case r of
           Inl e \<Rightarrow> failP (fillBlobError e)
         | Inr data \<Rightarrow> (case decode_terminal cc l data of Inl e \<Rightarrow> failP e | Inr record \<Rightarrow> Ret (Inr (Some record)))))"

definition matchTerminal :: "fill_record \<Rightarrow> fill_state \<Rightarrow> fill_completion \<Rightarrow> gotime \<Rightarrow> store_error + unit" where
  "matchTerminal record state completion now =
     (if fr_State record \<noteq> state \<or> fr_Completion record \<noteq> completion \<or> fr_UpdatedAt record \<noteq> now then Inl [ErrConflict] else Inr ())"

section \<open>Acquire\<close>

definition decideFill :: "fill_record \<Rightarrow> fill_lease \<Rightarrow> gotime \<Rightarrow> fill_decision \<times> bool \<times> store_error option" where
  "decideFill current lease now =
     (let decision = \<lparr>fd_Disposition = NoDisposition, fd_Record = Some current\<rparr>
      in if le_Attempt (fr_Lease current) = le_Attempt lease then
           (if fr_Lease current \<noteq> lease then (decision, False, Some [ErrConflict])
            else (decision\<lparr>fd_Disposition := (case fr_State current of FillHeld \<Rightarrow> FillOwned | FillStarted \<Rightarrow> FillRecoveryNeeded | _ \<Rightarrow> FillAttemptFinished)\<rparr>, False, None))
         else if fr_State current = FillStarted then (decision\<lparr>fd_Disposition := FillRecoveryNeeded\<rparr>, False, None)
         else if fr_State current = FillHeld \<and> now < le_ExpiresAt (fr_Lease current) then (decision\<lparr>fd_Disposition := FillWait\<rparr>, False, None)
         else if fr_State current = FillHeld then
           (if \<not> le_AcquiredAt lease > fr_UpdatedAt current then (decision, False, Some [ErrConflict]) else (decision, True, None))
         else if \<not> le_ExpiresAt lease > fr_UpdatedAt current then (decision, False, Some [ErrConflict])
         else (decision, True, None))"

definition retryFillConflict :: "store_error \<Rightarrow> bool" where
  "retryFillConflict e \<longleftrightarrow> \<not> errIs e ErrOutcomeUnknown \<and> (errIs e ErrConflict \<or> errIs e ErrAlreadyExists)"

definition held :: "fill_lease \<Rightarrow> fill_record" where
  "held l = \<lparr>fr_Lease = l, fr_State = FillHeld, fr_UpdatedAt = le_AcquiredAt l, fr_Completion = no_completion\<rparr>"

text \<open>The end of a round: the conditional write of the held record; \<open>again\<close> is the next round.\<close>

definition acquire_write :: "cloud_env \<Rightarrow> cache_codec \<Rightarrow> fill_lease \<Rightarrow> string \<Rightarrow> (fill_decision \<times> store_error option) prog \<Rightarrow> (fill_decision \<times> store_error option) prog" where
  "acquire_write env cc lease version again =
     bindP (fill_write env cc (held lease) version) (\<lambda>r. case r of
       Inr _ \<Rightarrow> Ret (\<lparr>fd_Disposition = FillOwned, fd_Record = Some (held lease)\<rparr>, None)
     | Inl e \<Rightarrow> if \<not> retryFillConflict e then Ret (zero_decision, Some e) else again)"

fun acquire_loop :: "cloud_env \<Rightarrow> cache_codec \<Rightarrow> fill_lease \<Rightarrow> gotime \<Rightarrow> nat \<Rightarrow> (fill_decision \<times> store_error option) prog" where
  "acquire_loop env cc lease now 0 = Ret (zero_decision, Some [ErrConflict])"
| "acquire_loop env cc lease now (Suc n) =
     bindP (fill_read env cc (le_Key lease)) (\<lambda>r. case r of
       Inl e \<Rightarrow>
         if \<not> errIs e ErrNotFound \<or> errIs e ErrCorrupt \<or> errIs e ErrOutcomeUnknown then Ret (zero_decision, Some e)
         else acquire_write env cc lease [] (acquire_loop env cc lease now n)
     | Inr (current, version) \<Rightarrow>
         (case decideFill current lease now of (decision, replace, err) \<Rightarrow>
            if err \<noteq> None \<or> \<not> replace then Ret (decision, err)
            else if fr_State current = FillReleased \<or> fr_State current = FillFinished
            then bindP (sealTerminal env cc current) (\<lambda>s. case s of
                   Inl e \<Rightarrow> Ret (zero_decision, Some e)
                 | Inr _ \<Rightarrow> acquire_write env cc lease version (acquire_loop env cc lease now n))
            else acquire_write env cc lease version (acquire_loop env cc lease now n)))"

definition Acquire :: "cloud_env \<Rightarrow> cache_codec \<Rightarrow> fill_lease \<Rightarrow> gotime \<Rightarrow> (fill_decision \<times> store_error option) prog" where
  "Acquire env cc lease now =
     bindP validContext (\<lambda>c. case c of
       Inl e \<Rightarrow> Ret (zero_decision, Some e)
     | Inr _ \<Rightarrow>
         (case normalizeFillLease lease of
            Inl e \<Rightarrow> Ret (zero_decision, Some e)
          | Inr lease \<Rightarrow>
              if \<not> validTime now \<or> now < le_AcquiredAt lease then Ret (zero_decision, Some [ErrInvalid])
              else bindP (readTerminal env cc lease) (\<lambda>t. case t of
                Inl e \<Rightarrow> Ret (\<lparr>fd_Disposition = FillAttemptFinished, fd_Record = None\<rparr>, Some e)
              | Inr (Some terminal) \<Rightarrow> Ret (\<lparr>fd_Disposition = FillAttemptFinished, fd_Record = Some terminal\<rparr>, None)
              | Inr None \<Rightarrow> acquire_loop env cc lease now 16)))"

section \<open>Start\<close>

definition readOwner :: "cloud_env \<Rightarrow> cache_codec \<Rightarrow> fill_lease \<Rightarrow> (store_error + fill_record \<times> string) prog" where
  "readOwner env cc lease =
     tryP (fill_read env cc (le_Key lease)) (\<lambda>(record, version). if fr_Lease record \<noteq> lease then failP [ErrConflict] else Ret (Inr (record, version)))"

fun start_loop :: "cloud_env \<Rightarrow> cache_codec \<Rightarrow> fill_lease \<Rightarrow> gotime \<Rightarrow> nat \<Rightarrow> (store_error + bool) prog" where
  "start_loop env cc lease now 0 = failP [ErrConflict]"
| "start_loop env cc lease now (Suc n) =
     tryP (readOwner env cc lease) (\<lambda>(current, version).
       if fr_State current = FillStarted then Ret (Inr False)
       else if fr_State current \<noteq> FillHeld \<or> \<not> now < le_ExpiresAt lease then failP [ErrConflict]
       else bindP (fill_write env cc (current\<lparr>fr_State := FillStarted, fr_UpdatedAt := now\<rparr>) version) (\<lambda>r. case r of
         Inr _ \<Rightarrow> Ret (Inr True)
       | Inl e \<Rightarrow> if \<not> retryFillConflict e then failP e else start_loop env cc lease now n))"

definition Start :: "cloud_env \<Rightarrow> cache_codec \<Rightarrow> fill_lease \<Rightarrow> gotime \<Rightarrow> (store_error + bool) prog" where
  "Start env cc lease now =
     tryP validContext (\<lambda>_.
       case normalizeFillLease lease of
         Inl _ \<Rightarrow> failP [ErrInvalid]
       | Inr lease \<Rightarrow>
           if \<not> validTime now \<or> now < le_AcquiredAt lease then failP [ErrInvalid] else start_loop env cc lease now 16)"

section \<open>Release and Complete\<close>

definition validatePublished :: "cloud_env \<Rightarrow> cache_codec \<Rightarrow> fill_lease \<Rightarrow> gotime \<Rightarrow> fill_completion \<Rightarrow> (store_error + unit) prog" where
  "validatePublished env cc lease startedAt completion =
     (let scope = rk_ScopeID (le_Key lease)
      in tryP (readPointer env cc (entryKey env cc scope (fc_EntryID completion))) (\<lambda>(p, _).
         tryP (loadEntry env cc scope p) (\<lambda>entry.
         if re_ID entry \<noteq> fc_EntryID completion \<or> re_Key entry \<noteq> le_Key lease \<or> re_OriginOperationID entry \<noteq> le_OperationID lease
            \<or> re_CompletedAt entry < startedAt \<or> re_CompletedAt entry > fc_CompletedAt completion then failP [ErrInvalid]
         else bindP (readPointer env cc (cache_row env ''success'' (cc_key cc (le_Key lease)))) (\<lambda>h. case h of
           Inl e \<Rightarrow> if errIs e ErrNotFound \<and> \<not> errIs e ErrOutcomeUnknown then failP [ErrConflict] else failP e
         | Inr (headPointer, _) \<Rightarrow>
             tryP (loadEntry env cc scope headPointer) (\<lambda>head.
               if re_Key head \<noteq> le_Key lease then failP [ErrCorrupt]
               else if re_CompletedAt head < re_CompletedAt entry \<or> (re_CompletedAt head = re_CompletedAt entry \<and> re_ID head < re_ID entry) then failP [ErrConflict]
               else Ret (Inr ()))))))"

fun finish_loop :: "cloud_env \<Rightarrow> cache_codec \<Rightarrow> fill_lease \<Rightarrow> fill_state \<Rightarrow> fill_completion \<Rightarrow> gotime \<Rightarrow> nat \<Rightarrow> (store_error + unit) prog" where
  "finish_loop env cc lease target completion now 0 = failP [ErrConflict]"
| "finish_loop env cc lease target completion now (Suc n) =
     bindP (readOwner env cc lease) (\<lambda>r. case r of
       Inl e \<Rightarrow>
         if errIs e ErrConflict
         then tryP (readTerminal env cc lease) (\<lambda>t. case t of None \<Rightarrow> failP e | Some terminal \<Rightarrow> Ret (matchTerminal terminal target completion now))
         else failP e
     | Inr (current, version) \<Rightarrow>
         if fr_State current = target \<and> fr_UpdatedAt current = now \<and> fr_Completion current = completion then sealTerminal env cc current
         else if now < fr_UpdatedAt current \<or> (target = FillReleased \<and> fr_State current \<noteq> FillHeld) \<or> (target = FillFinished \<and> fr_State current \<noteq> FillStarted) then failP [ErrConflict]
         else tryP (if fc_Outcome completion = FillPublished then validatePublished env cc lease (fr_UpdatedAt current) completion else Ret (Inr ())) (\<lambda>_.
           let next = current\<lparr>fr_State := target, fr_UpdatedAt := now, fr_Completion := completion\<rparr>
           in bindP (fill_write env cc next version) (\<lambda>w. case w of
                Inr _ \<Rightarrow> sealTerminal env cc next
              | Inl e \<Rightarrow> if \<not> retryFillConflict e then failP e else finish_loop env cc lease target completion now n)))"

definition finish :: "cloud_env \<Rightarrow> cache_codec \<Rightarrow> fill_lease \<Rightarrow> fill_state \<Rightarrow> fill_completion \<Rightarrow> gotime \<Rightarrow> (store_error + unit) prog" where
  "finish env cc lease target completion now =
     tryP validContext (\<lambda>_.
       case normalizeFillLease lease of
         Inl _ \<Rightarrow> failP [ErrInvalid]
       | Inr lease \<Rightarrow>
           if \<not> validTime now \<or> now < le_AcquiredAt lease then failP [ErrInvalid]
           else tryP (readTerminal env cc lease) (\<lambda>t. case t of
             Some terminal \<Rightarrow> Ret (matchTerminal terminal target completion now)
           | None \<Rightarrow> finish_loop env cc lease target completion now 16))"

definition Release :: "cloud_env \<Rightarrow> cache_codec \<Rightarrow> fill_lease \<Rightarrow> gotime \<Rightarrow> (store_error + unit) prog" where
  "Release env cc lease now = finish env cc lease FillReleased no_completion now"

definition Complete_fill :: "cloud_env \<Rightarrow> cache_codec \<Rightarrow> fill_lease \<Rightarrow> fill_completion \<Rightarrow> (store_error + unit) prog" where
  "Complete_fill env cc lease completion =
     (if \<not> validFillCompletion completion then failP [ErrInvalid]
      else finish env cc lease FillFinished completion (fc_CompletedAt completion))"

end
