(* ===== verification/Cloud_Log.thy ===== *)
theory Cloud_Log
  imports Cloud_Port
begin

text \<open>
  Event streams beside the table, and a program logic for what programs write to several rows and streams at once. A \<open>fact\<close> is an
  entry that a row or a stream is known to have; facts stay true, since rows keep their history and streams are only extended.
  \<open>rules\<close> say which rows and streams are watched and when a write to them is allowed, given the facts the writer has gathered:
  so a write to one row can rely on what was read from, or written to, another.
\<close>

section \<open>The contract of the event streams\<close>

text \<open>
  \<open>elog w s\<close> are the events of the stream \<open>s\<close>. An append commits only at the end of the stream, with the revision it expects, and answers success
  only when the event after that revision is the one it asked for, now or from an identical earlier append; an error says nothing about
  whether it committed. Reads answer events of the stream, and a query rows of the table.
\<close>

locale event_streams = versioned_table st log sound
  for st :: "'w storage" and log :: "'w \<Rightarrow> kv_key \<Rightarrow> (kv_item \<times> string) list" and sound :: "'w \<Rightarrow> bool" +
  fixes elog :: "'w \<Rightarrow> string \<Rightarrow> event list"
  assumes append_commits: "sound w \<Longrightarrow> st_append st w s n ev r w' \<Longrightarrow>
      (elog w' = elog w \<and> (r = None \<longrightarrow> n < length (elog w s) \<and> elog w s ! n = ev)) \<or> (length (elog w s) = n \<and> elog w' = (elog w)(s := elog w s @ [ev]))"
    and state_reads: "sound w \<Longrightarrow> st_state st w s (Inr es) w' \<Longrightarrow> es = elog w s"
    and history_reads: "sound w \<Longrightarrow> st_history st w s t (Inr page) w' \<Longrightarrow> (i, ev) \<in> set (eg_Entries page) \<Longrightarrow> 0 < i \<and> i \<le> length (elog w s) \<and> elog w s ! (i - 1) = ev"
    and query_reads: "sound w \<Longrightarrow> st_query st w q (Inr rows) w' \<Longrightarrow> row \<in> set (kg_Records rows) \<Longrightarrow> (kr_Item row, kr_Version row) \<in> set (log w (ki_Key (kr_Item row)))"
    and streams_keep: "sound w \<Longrightarrow> st_get st w k rg w' \<Longrightarrow> elog w' = elog w" "sound w \<Longrightarrow> st_create st w it rc w' \<Longrightarrow> elog w' = elog w"
      "sound w \<Longrightarrow> st_replace st w it v rc w' \<Longrightarrow> elog w' = elog w" "sound w \<Longrightarrow> st_query st w q rq w' \<Longrightarrow> elog w' = elog w"
      "sound w \<Longrightarrow> st_state st w s rs w' \<Longrightarrow> elog w' = elog w" "sound w \<Longrightarrow> st_history st w s t rh w' \<Longrightarrow> elog w' = elog w"
      "sound w \<Longrightarrow> st_blob_create st w b d re w' \<Longrightarrow> elog w' = elog w" "sound w \<Longrightarrow> st_blob_open st w b ro w' \<Longrightarrow> elog w' = elog w"
      "sound w \<Longrightarrow> st_nonce st w rn w' \<Longrightarrow> elog w' = elog w" "sound w \<Longrightarrow> st_ctx st w re w' \<Longrightarrow> elog w' = elog w"

section \<open>Facts\<close>

datatype fact = Row kv_key kv_item string | Event string nat event

fun fact_in :: "(kv_key \<Rightarrow> (kv_item \<times> string) list) \<Rightarrow> (string \<Rightarrow> event list) \<Rightarrow> fact \<Rightarrow> bool" where
  "fact_in L E (Row k it v) \<longleftrightarrow> (it, v) \<in> set (L k)"
| "fact_in L E (Event s n ev) \<longleftrightarrow> 0 < n \<and> n \<le> length (E s) \<and> E s ! (n - 1) = ev"

definition row_fact :: "kv_key \<Rightarrow> store_error + kv_row \<Rightarrow> fact set" where
  "row_fact k r = (case r of Inl _ \<Rightarrow> {} | Inr row \<Rightarrow> {Row k (kr_Item row) (kr_Version row)})"

definition written_fact :: "kv_item \<Rightarrow> store_error + string \<Rightarrow> fact set" where
  "written_fact it r = (case r of Inl _ \<Rightarrow> {} | Inr v \<Rightarrow> {Row (ki_Key it) it v})"

definition appended_fact :: "string \<Rightarrow> nat \<Rightarrow> event \<Rightarrow> store_error option \<Rightarrow> fact set" where
  "appended_fact s n ev r = (case r of None \<Rightarrow> {Event s (Suc n) ev} | Some _ \<Rightarrow> {})"

definition event_facts :: "string \<Rightarrow> (nat \<times> event) list \<Rightarrow> fact set" where
  "event_facts s es = (\<lambda>(i, ev). Event s i ev) ` set es"

definition state_facts :: "string \<Rightarrow> store_error + event list \<Rightarrow> fact set" where
  "state_facts s r = (case r of Inl _ \<Rightarrow> {} | Inr es \<Rightarrow> event_facts s (enumerate 1 es))"

definition history_facts :: "string \<Rightarrow> store_error + event_page \<Rightarrow> fact set" where
  "history_facts s r = (case r of Inl _ \<Rightarrow> {} | Inr page \<Rightarrow> event_facts s (eg_Entries page))"

definition query_facts :: "store_error + kv_page \<Rightarrow> fact set" where
  "query_facts r = (case r of Inl _ \<Rightarrow> {} | Inr page \<Rightarrow> (\<lambda>row. Row (ki_Key (kr_Item row)) (kr_Item row) (kr_Version row)) ` set (kg_Records page))"

lemma row_fact_simps [simp]: "row_fact k (Inl e) = {}" "row_fact k (Inr row) = {Row k (kr_Item row) (kr_Version row)}"
  by (simp_all add: row_fact_def)

lemma written_fact_simps [simp]: "written_fact it (Inl e) = {}" "written_fact it (Inr v) = {Row (ki_Key it) it v}"
  by (simp_all add: written_fact_def)

lemma appended_fact_simps [simp]: "appended_fact s n ev None = {Event s (Suc n) ev}" "appended_fact s n ev (Some e) = {}"
  by (simp_all add: appended_fact_def)

lemma history_facts_simps [simp]: "history_facts s (Inl e) = {}" "history_facts s (Inr page) = event_facts s (eg_Entries page)"
  by (simp_all add: history_facts_def)

lemma state_facts_simps [simp]: "state_facts s (Inl e) = {}" "Event s (Suc i) ev \<in> state_facts s (Inr es) \<longleftrightarrow> i < length es \<and> es ! i = ev"
  by (auto simp: state_facts_def event_facts_def in_set_enumerate_eq image_iff Bex_def)

section \<open>The logic\<close>

record rules =
  ru_keys :: "kv_key set"
  ru_streams :: "string set"
  ru_row :: "fact set \<Rightarrow> kv_item option \<Rightarrow> kv_item \<Rightarrow> bool"
  ru_event :: "fact set \<Rightarrow> string \<Rightarrow> nat \<Rightarrow> event \<Rightarrow> bool"
  ru_item :: "kv_item \<Rightarrow> bool"
  ru_entry :: "string \<Rightarrow> nat \<Rightarrow> event \<Rightarrow> bool"

text \<open>\<open>ru_item\<close> and \<open>ru_entry\<close> are what every allowed write gives, so that every read may rely on it.\<close>

fun fact_ok :: "rules \<Rightarrow> fact \<Rightarrow> bool" where
  "fact_ok R (Row k it v) \<longleftrightarrow> (k \<in> ru_keys R \<longrightarrow> ki_Key it = k \<and> ru_item R it)"
| "fact_ok R (Event s n ev) \<longleftrightarrow> (s \<in> ru_streams R \<longrightarrow> ru_entry R s n ev)"

definition coherent :: "rules \<Rightarrow> bool" where
  "coherent R \<longleftrightarrow> (\<forall>F old it. ru_row R F old it \<longrightarrow> ru_item R it) \<and> (\<forall>F s n ev. ru_event R F s n ev \<longrightarrow> ru_entry R s (Suc n) ev)"

primrec wpf :: "rules \<Rightarrow> (fact set \<Rightarrow> 'a \<Rightarrow> bool) \<Rightarrow> 'a prog \<Rightarrow> fact set \<Rightarrow> bool" where
  "wpf R Q (Ret x) = (\<lambda>F. Q F x)"
| "wpf R Q (TGet k f) = (\<lambda>F. \<forall>r. Ball (row_fact k r) (fact_ok R) \<longrightarrow> wpf R Q (f r) (F \<union> row_fact k r))"
| "wpf R Q (TCreate it f) = (\<lambda>F. (ki_Key it \<in> ru_keys R \<longrightarrow> ru_row R F None it) \<and> (\<forall>r. wpf R Q (f r) (F \<union> written_fact it r)))"
| "wpf R Q (TReplace it v f) = (\<lambda>F. (ki_Key it \<in> ru_keys R \<longrightarrow> (\<exists>old. Row (ki_Key it) old v \<in> F \<and> ru_row R F (Some old) it))
     \<and> (\<forall>r. wpf R Q (f r) (F \<union> written_fact it r)))"
| "wpf R Q (TQuery q f) = (\<lambda>F. \<forall>r. Ball (query_facts r) (fact_ok R) \<longrightarrow> wpf R Q (f r) (F \<union> query_facts r))"
| "wpf R Q (EAppend s n ev f) = (\<lambda>F. (s \<in> ru_streams R \<longrightarrow> ru_event R F s n ev) \<and> (\<forall>r. wpf R Q (f r) (F \<union> appended_fact s n ev r)))"
| "wpf R Q (EState s f) = (\<lambda>F. \<forall>r. Ball (state_facts s r) (fact_ok R) \<longrightarrow> wpf R Q (f r) (F \<union> state_facts s r))"
| "wpf R Q (EHistory s t f) = (\<lambda>F. \<forall>r. Ball (history_facts s r) (fact_ok R) \<longrightarrow> wpf R Q (f r) (F \<union> history_facts s r))"
| "wpf R Q (BCreate k d f) = (\<lambda>F. \<forall>r. wpf R Q (f r) F)"
| "wpf R Q (BOpen k f) = (\<lambda>F. \<forall>r. wpf R Q (f r) F)"
| "wpf R Q (Nonce f) = (\<lambda>F. \<forall>r. wpf R Q (f r) F)"
| "wpf R Q (CtxErr f) = (\<lambda>F. \<forall>r. wpf R Q (f r) F)"

lemma wpf_bind: "wpf R Q (bindP p g) F = wpf R (\<lambda>F x. wpf R Q (g x) F) p F"
  by (induction p arbitrary: F) simp_all

lemma wpf_failP [simp]: "wpf R Q (failP e) F = Q F (Inl e)"
  by (simp add: failP_def)

lemma wpf_tryP:
  "wpf R Q (tryP p g) F = wpf R (\<lambda>F r. case r of Inl e \<Rightarrow> Q F (Inl e) | Inr x \<Rightarrow> wpf R Q (g x) F) p F"
proof -
  have "(\<lambda>F r. wpf R Q (case r of Inl e \<Rightarrow> Ret (Inl e) | Inr x \<Rightarrow> g x) F) = (\<lambda>F r. case r of Inl e \<Rightarrow> Q F (Inl e) | Inr x \<Rightarrow> wpf R Q (g x) F)"
    by (auto simp: fun_eq_iff split: sum.splits)
  then show ?thesis by (simp add: tryP_def wpf_bind)
qed

lemma wpf_conseq:
  assumes "wpf R Q p F" and "\<And>F' x. F \<subseteq> F' \<Longrightarrow> Q F' x \<Longrightarrow> Q' F' x"
  shows "wpf R Q' p F"
proof -
  have "wpf R Q p F \<Longrightarrow> G \<subseteq> F \<Longrightarrow> \<forall>F' x. G \<subseteq> F' \<longrightarrow> Q F' x \<longrightarrow> Q' F' x \<Longrightarrow> wpf R Q' p F" for G
  proof (induction p arbitrary: F)
    case (TGet k f)
    then show ?case by (auto intro!: TGet.IH[OF rangeI])
  next
    case (TCreate it f)
    then show ?case by (auto intro!: TCreate.IH[OF rangeI])
  next
    case (TReplace it v f)
    then show ?case by (auto intro!: TReplace.IH[OF rangeI])
  next
    case (TQuery q f)
    then show ?case by (auto intro!: TQuery.IH[OF rangeI])
  next
    case (EAppend s n ev f)
    then show ?case by (auto intro!: EAppend.IH[OF rangeI])
  next
    case (EState s f)
    then show ?case by (auto intro!: EState.IH[OF rangeI])
  next
    case (EHistory s t f)
    then show ?case by (auto intro!: EHistory.IH[OF rangeI])
  next
    case (BCreate k d f)
    then show ?case by (auto intro!: BCreate.IH[OF rangeI])
  next
    case (BOpen k f)
    then show ?case by (auto intro!: BOpen.IH[OF rangeI])
  next
    case (Nonce f)
    then show ?case by (auto intro!: Nonce.IH[OF rangeI])
  next
    case (CtxErr f)
    then show ?case by (auto intro!: CtxErr.IH[OF rangeI])
  qed simp
  then show ?thesis using assms by blast
qed

text \<open>The calls, one by one.\<close>

lemma wpf_validContext: "wpf R Q validContext F \<longleftrightarrow> Q F (Inr ()) \<and> (\<forall>e. Q F (Inl e))"
proof
  assume "wpf R Q validContext F"
  then have *: "\<forall>r. Q F (case r of None \<Rightarrow> Inr () | Some err \<Rightarrow> Inl err)" by (simp add: validContext_def)
  have "Q F (Inl e)" for e using spec[OF *, of "Some e"] by simp
  then show "Q F (Inr ()) \<and> (\<forall>e. Q F (Inl e))" using spec[OF *, of None] by simp
qed (auto simp: validContext_def split: option.splits)

lemma wpf_tableGet:
  assumes "\<And>e. Q F (Inl e)" and "\<And>row. k \<in> ru_keys R \<longrightarrow> ki_Key (kr_Item row) = k \<and> ru_item R (kr_Item row) \<Longrightarrow> Q (insert (Row k (kr_Item row) (kr_Version row)) F) (Inr row)"
  shows "wpf R Q (tableGet k) F"
  unfolding tableGet_def wpf.simps
proof (intro allI impI)
  fix r assume "Ball (row_fact k r) (fact_ok R)"
  then show "Q (F \<union> row_fact k r) r" using assms by (cases r) auto
qed

lemma wpf_tableCreate:
  assumes "ki_Key it \<in> ru_keys R \<longrightarrow> ru_row R F None it" and "\<And>e. Q F (Inl e)" and "\<And>v. Q (insert (Row (ki_Key it) it v) F) (Inr v)"
  shows "wpf R Q (tableCreate it) F"
proof -
  have "Q (F \<union> written_fact it r) r" for r using assms(2,3) by (cases r) auto
  then show ?thesis using assms(1) by (simp add: tableCreate_def)
qed

lemma wpf_tableReplace:
  assumes "ki_Key it \<in> ru_keys R \<longrightarrow> (\<exists>old. Row (ki_Key it) old v \<in> F \<and> ru_row R F (Some old) it)" and "\<And>e. Q F (Inl e)" and "\<And>u. Q (insert (Row (ki_Key it) it u) F) (Inr u)"
  shows "wpf R Q (tableReplace it v) F"
proof -
  have "Q (F \<union> written_fact it r) r" for r using assms(2,3) by (cases r) auto
  then show ?thesis using assms(1) by (simp add: tableReplace_def)
qed

lemma wpf_eventAppend:
  assumes "s \<in> ru_streams R \<longrightarrow> ru_event R F s n ev" and "\<And>e. Q F (Inl e)" and "Q (insert (Event s (Suc n) ev) F) (Inr ())"
  shows "wpf R Q (eventAppend s n ev) F"
proof -
  have "Q (F \<union> appended_fact s n ev r) (case r of None \<Rightarrow> Inr () | Some e \<Rightarrow> Inl e)" for r using assms(2,3) by (cases r) auto
  then show ?thesis using assms(1) by (simp add: eventAppend_def)
qed

lemma wpf_eventState:
  assumes "\<And>e. Q F (Inl e)" and "\<And>es. s \<in> ru_streams R \<longrightarrow> (\<forall>i < length es. ru_entry R s (Suc i) (es ! i)) \<Longrightarrow> Q (F \<union> state_facts s (Inr es)) (Inr es)"
  shows "wpf R Q (eventState s) F"
  unfolding eventState_def wpf.simps
proof (intro allI impI)
  fix r assume ok: "Ball (state_facts s r) (fact_ok R)"
  show "Q (F \<union> state_facts s r) r"
  proof (cases r)
    case (Inr es)
    have "ru_entry R s (Suc i) (es ! i)" if "s \<in> ru_streams R" "i < length es" for i
      using bspec[OF ok, of "Event s (Suc i) (es ! i)"] that unfolding Inr by simp
    then show ?thesis using assms(2) Inr by blast
  qed (use assms(1) in simp)
qed

lemma wpf_eventHistory:
  assumes "\<And>e. Q F (Inl e)"
    and "\<And>page. s \<in> ru_streams R \<longrightarrow> (\<forall>(i, ev) \<in> set (eg_Entries page). ru_entry R s i ev) \<Longrightarrow> Q (F \<union> event_facts s (eg_Entries page)) (Inr page)"
  shows "wpf R Q (eventHistory s t) F"
  unfolding eventHistory_def wpf.simps
proof (intro allI impI)
  fix r assume ok: "Ball (history_facts s r) (fact_ok R)"
  show "Q (F \<union> history_facts s r) r"
  proof (cases r)
    case (Inr page)
    have "ru_entry R s i ev" if "s \<in> ru_streams R" "(i, ev) \<in> set (eg_Entries page)" for i ev
      using bspec[OF ok, of "Event s i ev"] that unfolding Inr by (force simp: event_facts_def)
    then show ?thesis using assms(2)[of page] Inr by auto
  qed (use assms(1) in simp)
qed

text \<open>Programs that only read, or write blobs, gather facts and break no rule.\<close>

primrec gathers :: "'a prog \<Rightarrow> bool" where
  "gathers (Ret x) \<longleftrightarrow> True"
| "gathers (TGet k f) \<longleftrightarrow> (\<forall>r. gathers (f r))"
| "gathers (TCreate it f) \<longleftrightarrow> False"
| "gathers (TReplace it v f) \<longleftrightarrow> False"
| "gathers (TQuery q f) \<longleftrightarrow> (\<forall>r. gathers (f r))"
| "gathers (EAppend s n ev f) \<longleftrightarrow> False"
| "gathers (EState s f) \<longleftrightarrow> (\<forall>r. gathers (f r))"
| "gathers (EHistory s t f) \<longleftrightarrow> (\<forall>r. gathers (f r))"
| "gathers (BCreate k d f) \<longleftrightarrow> (\<forall>r. gathers (f r))"
| "gathers (BOpen k f) \<longleftrightarrow> (\<forall>r. gathers (f r))"
| "gathers (Nonce f) \<longleftrightarrow> (\<forall>r. gathers (f r))"
| "gathers (CtxErr f) \<longleftrightarrow> (\<forall>r. gathers (f r))"

lemma wpf_gathers:
  assumes "gathers p" and "returns P p" and "\<And>F' x. F \<subseteq> F' \<Longrightarrow> P x \<Longrightarrow> Q F' x"
  shows "wpf R Q p F"
proof -
  have "wpf R (\<lambda>F x. P x) p F" using assms(1,2) by (induction p arbitrary: F) auto
  then show ?thesis by (rule wpf_conseq) (use assms(3) in auto)
qed

section \<open>Soundness\<close>

definition rows_ok :: "rules \<Rightarrow> (fact \<Rightarrow> bool) \<Rightarrow> (kv_key \<Rightarrow> (kv_item \<times> string) list) \<Rightarrow> bool" where
  "rows_ok R known L \<longleftrightarrow> (\<forall>k \<in> ru_keys R. distinct (map snd (L k)) \<and>
     (\<forall>i < length (L k). ki_Key (fst (L k ! i)) = k \<and> (\<exists>F. Ball F known \<and> ru_row R F (if i = 0 then None else Some (fst (L k ! (i - 1)))) (fst (L k ! i)))))"

definition events_ok :: "rules \<Rightarrow> (fact \<Rightarrow> bool) \<Rightarrow> (string \<Rightarrow> event list) \<Rightarrow> bool" where
  "events_ok R known E \<longleftrightarrow> (\<forall>s \<in> ru_streams R. \<forall>i < length (E s). \<exists>F. Ball F known \<and> ru_event R F s i (E s ! i))"

definition progs_ok :: "rules \<Rightarrow> (fact \<Rightarrow> bool) \<Rightarrow> (fact set \<Rightarrow> 'a \<Rightarrow> bool) \<Rightarrow> ('a prog \<times> acks) list \<Rightarrow> bool" where
  "progs_ok R known Q cs \<longleftrightarrow> (\<forall>c \<in> set cs. \<exists>F. Ball F known \<and> wpf R Q (fst c) F)"

text \<open>More is known later, so what was allowed stays allowed.\<close>

lemma rows_ok_mono: "rows_ok R known L \<Longrightarrow> (\<And>f. known f \<Longrightarrow> known' f) \<Longrightarrow> rows_ok R known' L"
  unfolding rows_ok_def by (meson)

lemma events_ok_mono: "events_ok R known E \<Longrightarrow> (\<And>f. known f \<Longrightarrow> known' f) \<Longrightarrow> events_ok R known' E"
  unfolding events_ok_def by meson

lemma progs_ok_mono: "progs_ok R known Q cs \<Longrightarrow> (\<And>f. known f \<Longrightarrow> known' f) \<Longrightarrow> progs_ok R known' Q cs"
  unfolding progs_ok_def by meson

lemma known_ok:
  assumes "coherent R" and "rows_ok R (fact_in L E) L" and "events_ok R (fact_in L E) E" and "fact_in L E f"
  shows "fact_ok R f"
proof (cases f)
  case (Row k it v)
  then obtain i where i: "i < length (L k)" "L k ! i = (it, v)" using assms(4) by (auto simp: in_set_conv_nth)
  show ?thesis
  proof (cases "k \<in> ru_keys R")
    case True
    then have "ki_Key (fst (L k ! i)) = k \<and> (\<exists>F. ru_row R F (if i = 0 then None else Some (fst (L k ! (i - 1)))) (fst (L k ! i)))"
      using assms(2) i(1) unfolding rows_ok_def by blast
    then show ?thesis using Row i(2) assms(1) by (auto simp: coherent_def)
  qed (simp add: Row)
next
  case (Event s n ev)
  then have n: "0 < n" "n - 1 < length (E s)" "E s ! (n - 1) = ev" using assms(4) by auto
  show ?thesis
  proof (cases "s \<in> ru_streams R")
    case True
    then obtain F where "ru_event R F s (n - 1) ev" using assms(3) n(2,3) unfolding events_ok_def by blast
    then have "ru_entry R s (Suc (n - 1)) ev" using assms(1) by (auto simp: coherent_def)
    then show ?thesis using n(1) Event by simp
  qed (simp add: Event)
qed

lemma rows_ok_commit:
  assumes "rows_ok R known L" and "v \<notin> snd ` set (L (ki_Key it))"
    and "ki_Key it \<in> ru_keys R \<longrightarrow> (\<exists>F. Ball F known \<and> ru_row R F (if L (ki_Key it) = [] then None else Some (fst (last (L (ki_Key it))))) it)"
  shows "rows_ok R known (L(ki_Key it := L (ki_Key it) @ [(it, v)]))"
  unfolding rows_ok_def
proof (intro ballI conjI allI impI)
  let ?L = "L(ki_Key it := L (ki_Key it) @ [(it, v)])"
  fix k assume k: "k \<in> ru_keys R"
  have d: "distinct (map snd (L k))" using assms(1) k by (simp add: rows_ok_def)
  then show "distinct (map snd (?L k))" using assms(2) by auto
  fix i assume i: "i < length (?L k)"
  show "ki_Key (fst (?L k ! i)) = k" using assms(1) k i by (auto simp: rows_ok_def nth_append less_Suc_eq)
  show "\<exists>F. Ball F known \<and> ru_row R F (if i = 0 then None else Some (fst (?L k ! (i - 1)))) (fst (?L k ! i))"
  proof (cases "k = ki_Key it \<and> i = length (L k)")
    case True
    then show ?thesis using assms(3) k by (cases "L k = []") (auto simp: nth_append last_conv_nth)
  next
    case False
    then have i': "i < length (L k)" "?L k ! i = L k ! i" "i \<noteq> 0 \<Longrightarrow> ?L k ! (i - 1) = L k ! (i - 1)"
      using i by (auto simp: nth_append less_Suc_eq split: if_splits)
    have "\<exists>F. Ball F known \<and> ru_row R F (if i = 0 then None else Some (fst (L k ! (i - 1)))) (fst (L k ! i))"
      using assms(1) k i'(1) unfolding rows_ok_def by blast
    then show ?thesis using i'(2,3) by (cases "i = 0") simp_all
  qed
qed

lemma events_ok_append:
  assumes "events_ok R known E" and "s \<in> ru_streams R \<longrightarrow> (\<exists>F. Ball F known \<and> ru_event R F s (length (E s)) ev)"
  shows "events_ok R known (E(s := E s @ [ev]))"
  using assms unfolding events_ok_def by (auto simp: nth_append less_Suc_eq)

lemma progs_ok_update:
  assumes "progs_ok R known Q cs" and "\<And>f. known f \<Longrightarrow> known' f" and "Ball F known'" and "wpf R Q (fst c) F"
  shows "progs_ok R known' Q (cs[i := c])"
  unfolding progs_ok_def
proof
  fix d assume "d \<in> set (cs[i := c])"
  then consider "d = c" | "d \<in> set cs" using set_update_subset_insert[of cs i c] by auto
  then show "\<exists>F. Ball F known' \<and> wpf R Q (fst d) F"
  proof cases
    case 1
    then show ?thesis using assms(3,4) by blast
  next
    case 2
    then obtain G where "Ball G known" "wpf R Q (fst d) G" using assms(1) unfolding progs_ok_def by blast
    then show ?thesis using assms(2) by blast
  qed
qed

context event_streams
begin

abbreviation known :: "'w \<Rightarrow> fact \<Rightarrow> bool" where
  "known w \<equiv> fact_in (log w) (elog w)"

lemma known_grow:
  assumes "\<And>k. set (log w k) \<subseteq> set (log w' k)" and "\<And>s. \<exists>es. elog w' s = elog w s @ es" and "known w f"
  shows "known w' f"
proof (cases f)
  case (Row k it v)
  then show ?thesis using assms(1)[of k] assms(3) by auto
next
  case (Event s n ev)
  obtain es where "elog w' s = elog w s @ es" using assms(2) by blast
  then show ?thesis using assms(3) Event by (auto simp: nth_append)
qed

text \<open>What a client has learned, and what is allowed of a write, after a step: the heart of soundness.\<close>

definition state_ok :: "rules \<Rightarrow> (fact set \<Rightarrow> 'a \<Rightarrow> bool) \<Rightarrow> 'w \<Rightarrow> ('a prog \<times> acks) list \<Rightarrow> bool" where
  "state_ok R Q w cs \<longleftrightarrow> sound w \<and> rows_ok R (known w) (log w) \<and> events_ok R (known w) (elog w) \<and> progs_ok R (known w) Q cs"

lemma quiet_step_ok:
  assumes "state_ok R Q w cs" and "sound w'" and "log w' = log w" and "elog w' = elog w" and "Ball F (known w)" and "wpf R Q (fst c) F"
  shows "state_ok R Q w' (cs[i := c])"
  using assms progs_ok_update[of R "known w" Q cs "known w'" F c i] unfolding state_ok_def by simp

lemma row_step_ok:
  assumes ok: "state_ok R Q w cs" and F: "Ball F (known w)" and c: "committed log w it v w'" and e: "elog w' = elog w" and sd: "sound w'"
    and rule: "ki_Key it \<in> ru_keys R \<longrightarrow> ru_row R F (if log w (ki_Key it) = [] then None else Some (fst (last (log w (ki_Key it))))) it"
    and r: "\<forall>u. r = Inr u \<longrightarrow> u = v" and p: "wpf R Q (fst d) (F \<union> written_fact it r)"
  shows "state_ok R Q w' (cs[i := d])"
proof -
  have l: "log w' = (log w)(ki_Key it := log w (ki_Key it) @ [(it, v)])" and v: "v \<notin> snd ` set (log w (ki_Key it))" using c by (auto simp: committed_def)
  have g: "known w' f" if "known w f" for f by (rule known_grow[OF _ _ that]) (use l e in auto)
  have "rows_ok R (known w) (log w')" unfolding l
    by (rule rows_ok_commit) (use ok v rule F in \<open>auto simp: state_ok_def\<close>)
  then have rows: "rows_ok R (known w') (log w')" by (rule rows_ok_mono) (rule g)
  have "Ball (written_fact it r) (known w')" using r l by (cases r) auto
  then have b: "Ball (F \<union> written_fact it r) (known w')" using F g by blast
  have "progs_ok R (known w') Q (cs[i := d])" by (rule progs_ok_update[of R "known w", OF _ _ b p]) (use ok g in \<open>simp_all add: state_ok_def\<close>)
  moreover have "events_ok R (known w') (elog w)" by (rule events_ok_mono[of R "known w", OF _ g]) (use ok in \<open>simp_all add: state_ok_def\<close>)
  ultimately show ?thesis using rows sd e unfolding state_ok_def by simp
qed

lemma append_step_ok:
  assumes ok: "state_ok R Q w cs" and F: "Ball F (known w)" and rule: "s \<in> ru_streams R \<longrightarrow> ru_event R F s n ev"
    and step: "st_append st w s n ev r w'" and p: "wpf R Q (fst d) (F \<union> appended_fact s n ev r)"
  shows "state_ok R Q w' (cs[i := d])"
proof -
  have sd: "sound w" using ok by (simp add: state_ok_def)
  have l: "log w' = log w" "sound w'" using others_keep(6)[OF sd step] by auto
  consider (same) "elog w' = elog w" "r = None \<longrightarrow> n < length (elog w s) \<and> elog w s ! n = ev"
    | (new) "length (elog w s) = n" "elog w' = (elog w)(s := elog w s @ [ev])" using append_commits[OF sd step] by blast
  then show ?thesis
  proof cases
    case same
    then have "Ball (F \<union> appended_fact s n ev r) (known w)" using F by (cases r) auto
    then show ?thesis using quiet_step_ok[OF ok l(2,1) same(1) _ p] by blast
  next
    case new
    have g: "known w' f" if "known w f" for f by (rule known_grow[OF _ _ that]) (use l new in auto)
    have "events_ok R (known w) (elog w')" unfolding new(2)
      by (rule events_ok_append) (use ok rule F new(1) in \<open>auto simp: state_ok_def\<close>)
    then have ev: "events_ok R (known w') (elog w')" by (rule events_ok_mono) (rule g)
    have "Ball (appended_fact s n ev r) (known w')" using new by (cases r) auto
    then have b: "Ball (F \<union> appended_fact s n ev r) (known w')" using F g by blast
    have "progs_ok R (known w') Q (cs[i := d])" by (rule progs_ok_update[of R "known w", OF _ _ b p]) (use ok g in \<open>simp_all add: state_ok_def\<close>)
    moreover have "rows_ok R (known w') (log w)" by (rule rows_ok_mono[of R "known w", OF _ g]) (use ok in \<open>simp_all add: state_ok_def\<close>)
    ultimately show ?thesis using ev l unfolding state_ok_def by simp
  qed
qed

lemma replaced_is_last:
  assumes "rows_ok R (known w) (log w)" and "k \<in> ru_keys R" and "known w (Row k old v)" and "log w k \<noteq> []" and "snd (last (log w k)) = v"
  shows "old = fst (last (log w k))"
  using last_fact[of w k old] assms unfolding rows_ok_def by auto

lemma client_step_ok:
  assumes co: "coherent R" and ok: "state_ok R Q w cs" and step: "client_step st w (cs ! i) w' d" and i: "i < length cs"
  shows "state_ok R Q w' (cs[i := d])"
proof -
  have sd: "sound w" and rows: "rows_ok R (known w) (log w)" using ok by (auto simp: state_ok_def)
  obtain F where F: "Ball F (known w)" "wpf R Q (fst (cs ! i)) F" using ok i unfolding state_ok_def progs_ok_def by (meson nth_mem)
  note quiet = quiet_step_ok[OF ok]
  have good: "fact_ok R f" if "known w f" for f by (rule known_ok[OF co _ _ that]) (use ok in \<open>simp_all add: state_ok_def\<close>)
  show ?thesis using step
  proof cases
    case (get k r f A)
    have b: "Ball (row_fact k r) (known w)"
    proof (cases r)
      case (Inr row)
      then show ?thesis using get_last[OF sd, of k row w'] get(3) by (auto intro: last_in_set) (metis last_in_set)
    qed simp
    then have "Ball (F \<union> row_fact k r) (known w)" "Ball (row_fact k r) (fact_ok R)" using F(1) good by blast+
    then show ?thesis using quiet[of w' "F \<union> row_fact k r" d i] get_keeps[OF sd get(3)] streams_keep(1)[OF sd get(3)] F(2) get(1,2) by simp
  next
    case (create it r f A)
    have p: "wpf R Q (fst d) (F \<union> written_fact it r)" and rule: "ki_Key it \<in> ru_keys R \<longrightarrow> ru_row R F None it" using F(2) create(1,2) by simp_all
    consider e where "r = Inl e" "log w' = log w" | v where "log w (ki_Key it) = []" "committed log w it v w'" "\<forall>u. r = Inr u \<longrightarrow> u = v"
      using create_commits[OF sd create(3)] by blast
    then show ?thesis
    proof cases
      case 1
      then show ?thesis using quiet[of w' F d i] create_commits[OF sd create(3)] streams_keep(2)[OF sd create(3)] F(1) p by simp
    next
      case (2 v)
      then show ?thesis using row_step_ok[OF ok F(1) 2(2) streams_keep(2)[OF sd create(3)] _ _ 2(3) p] create_commits[OF sd create(3)] rule by simp
    qed
  next
    case (replace it v r f A)
    have p: "wpf R Q (fst d) (F \<union> written_fact it r)"
      and rule: "ki_Key it \<in> ru_keys R \<longrightarrow> (\<exists>old. Row (ki_Key it) old v \<in> F \<and> ru_row R F (Some old) it)" using F(2) replace(1,2) by simp_all
    consider e where "r = Inl e" "log w' = log w"
      | u where "log w (ki_Key it) \<noteq> []" "snd (last (log w (ki_Key it))) = v" "committed log w it u w'" "\<forall>x. r = Inr x \<longrightarrow> x = u"
      using replace_commits[OF sd replace(3)] by blast
    then show ?thesis
    proof cases
      case 1
      then show ?thesis using quiet[of w' F d i] replace_commits[OF sd replace(3)] streams_keep(3)[OF sd replace(3)] F(1) p by simp
    next
      case (2 u)
      have "ru_row R F (Some (fst (last (log w (ki_Key it))))) it" if "ki_Key it \<in> ru_keys R"
        using rule that replaced_is_last[OF rows that _ 2(1,2)] F(1) by blast
      then show ?thesis using row_step_ok[OF ok F(1) 2(3) streams_keep(3)[OF sd replace(3)] _ _ 2(4) p] replace_commits[OF sd replace(3)] 2(1) by simp
    qed
  next
    case (query q r f A)
    have "Ball (query_facts r) (known w)" using query_reads[OF sd] query(3) by (cases r) (auto simp: query_facts_def)
    then have "Ball (F \<union> query_facts r) (known w)" "Ball (query_facts r) (fact_ok R)" using F(1) good by blast+
    then show ?thesis using quiet[of w' "F \<union> query_facts r" d i] others_keep(5)[OF sd query(3)] streams_keep(4)[OF sd query(3)] F(2) query(1,2) by simp
  next
    case (append s n ev r f A)
    then show ?thesis using append_step_ok[OF ok F(1) _ append(3)] F(2) by simp
  next
    case (state s r f A)
    have "Ball (state_facts s r) (known w)"
      using state_reads[OF sd] state(3) by (cases r) (auto simp: state_facts_def event_facts_def in_set_enumerate_eq)
    then have "Ball (F \<union> state_facts s r) (known w)" "Ball (state_facts s r) (fact_ok R)" using F(1) good by blast+
    then show ?thesis using quiet[of w' "F \<union> state_facts s r" d i] others_keep(7)[OF sd state(3)] streams_keep(5)[OF sd state(3)] F(2) state(1,2) by simp
  next
    case (history s t r f A)
    have "Ball (history_facts s r) (known w)" using history_reads[OF sd] history(3) by (cases r) (auto simp: event_facts_def)
    then have "Ball (F \<union> history_facts s r) (known w)" "Ball (history_facts s r) (fact_ok R)" using F(1) good by blast+
    then show ?thesis using quiet[of w' "F \<union> history_facts s r" d i] others_keep(8)[OF sd history(3)] streams_keep(6)[OF sd history(3)] F(2) history(1,2) by simp
  next
    case (bcreate k d' r f A)
    then show ?thesis using quiet[of w' F d i] others_keep(1)[OF sd bcreate(3)] streams_keep(7)[OF sd bcreate(3)] F by simp
  next
    case (bopen k r f A)
    then show ?thesis using quiet[of w' F d i] others_keep(2)[OF sd bopen(3)] streams_keep(8)[OF sd bopen(3)] F by simp
  next
    case (nonce r f A)
    then show ?thesis using quiet[of w' F d i] others_keep(3)[OF sd nonce(3)] streams_keep(9)[OF sd nonce(3)] F by simp
  next
    case (ctx r f A)
    then show ?thesis using quiet[of w' F d i] others_keep(4)[OF sd ctx(3)] streams_keep(10)[OF sd ctx(3)] F by simp
  qed
qed

text \<open>In every state that programs which obey the rules reach, every entry of the watched rows and streams was allowed.\<close>

lemma rules_kept:
  assumes "sound w0" and "coherent R" and "\<forall>k \<in> ru_keys R. log w0 k = []" and "\<forall>s \<in> ru_streams R. elog w0 s = []"
    and "(system_step st calls)\<^sup>*\<^sup>* (w0, []) (w, cs)" and "\<forall>p \<in> calls. wpf R Q p {}"
  shows "state_ok R Q w cs"
  using assms(5)
proof (induction "(w, cs)" arbitrary: w cs rule: rtranclp_induct)
  case base
  then show ?case using assms(1,3,4) by (simp add: state_ok_def rows_ok_def events_ok_def progs_ok_def)
next
  case (step y w' cs')
  obtain w cs where y: "y = (w, cs)" by (cases y)
  have ok: "state_ok R Q w cs" by (rule step(3)[OF y])
  show ?case using step(2) unfolding y
  proof cases
    case (spawn p)
    have "\<exists>F. Ball F (known w) \<and> wpf R Q p F" using assms(6) spawn by (intro exI[of _ "{}"]) simp
    then show ?thesis using ok spawn unfolding state_ok_def progs_ok_def by auto
  next
    case (run i c)
    then show ?thesis using client_step_ok[OF assms(2) ok run(3,2)] by simp
  qed
qed

end

end
