(* ===== verification/Cloud_Memory.thy ===== *)
theory Cloud_Memory
  imports Cloud_Log "HOL-Library.List_Lexorder" "HOL-Library.Char_ord"
begin

text \<open>
  The in-memory stores of \<^verbatim>\<open>storage/cloudstate/memory_test.go\<close>, which stand for the cloud stores: a linearizable table and
  a blob map, with hooks that inject a failure before or after a mutation. The table is kept with its history; the row of a
  key is the last entry. Event streams are lists of events. The stores satisfy the contracts \<open>versioned_table\<close> and \<open>event_streams\<close>.
\<close>

record memory =
  me_log :: "(kv_key, (kv_item \<times> string) list) gomap"
  me_version :: nat
  me_blobs :: "(string, string) gomap"
  me_streams :: "(string, event list) gomap"

definition empty_memory :: memory where
  "empty_memory = \<lparr>me_log = [], me_version = 0, me_blobs = [], me_streams = []\<rparr>"

definition me_history :: "memory \<Rightarrow> kv_key \<Rightarrow> (kv_item \<times> string) list" where
  "me_history w k = mgetd [] (me_log w) k"

definition me_write :: "memory \<Rightarrow> kv_item \<Rightarrow> memory" where
  "me_write w it = w\<lparr>me_version := Suc (me_version w), me_log := mput (ki_Key it) (me_history w (ki_Key it) @ [(it, nat_dec (Suc (me_version w)))]) (me_log w)\<rparr>"

text \<open>The answers without an injected failure.\<close>

definition me_Get :: "memory \<Rightarrow> kv_key \<Rightarrow> store_error + kv_row" where
  "me_Get w k = (let l = me_history w k in if l = [] then Inl [ErrNotFound] else Inr \<lparr>kr_Item = fst (last l), kr_Version = snd (last l)\<rparr>)"

definition me_Create :: "memory \<Rightarrow> kv_item \<Rightarrow> (store_error + string) \<times> memory" where
  "me_Create w it = (if me_history w (ki_Key it) \<noteq> [] then (Inl [ErrAlreadyExists], w) else (Inr (nat_dec (Suc (me_version w))), me_write w it))"

definition me_Replace :: "memory \<Rightarrow> kv_item \<Rightarrow> string \<Rightarrow> (store_error + string) \<times> memory" where
  "me_Replace w it v =
     (let l = me_history w (ki_Key it)
      in if l = [] \<or> snd (last l) \<noteq> v \<or> v = [] then (Inl [ErrConflict], w) else (Inr (nat_dec (Suc (me_version w))), me_write w it))"

definition me_BlobCreate :: "memory \<Rightarrow> string \<Rightarrow> string \<Rightarrow> store_error option \<times> memory" where
  "me_BlobCreate w k d = (if mget (me_blobs w) k \<noteq> None then (Some [ErrAlreadyExists], w) else (None, w\<lparr>me_blobs := mput k d (me_blobs w)\<rparr>))"

definition me_BlobOpen :: "memory \<Rightarrow> string \<Rightarrow> store_error + opened" where
  "me_BlobOpen w k =
     (case mget (me_blobs w) k of
        None \<Rightarrow> Inl [ErrNotFound]
      | Some d \<Rightarrow> Inr \<lparr>op_Nil = False, op_Size = int (length d), op_Body = d, op_ReadError = None\<rparr>)"

text \<open>A page of a partition; the token of the next page is the last sort key of this one.\<close>

definition me_Query :: "memory \<Rightarrow> kv_query \<Rightarrow> kv_page" where
  "me_Query w q =
     (let ks = sort_key snd (filter (\<lambda>k. me_history w k \<noteq> [] \<and> fst k = kq_PartitionKey q \<and> has_prefix (kq_SortKeyPrefix q) (snd k) \<and> snd k > kq_PageToken q) (remdups (map fst (me_log w))));
          page = take (nat (kq_PageSize q)) ks
      in \<lparr>kg_Records = map (\<lambda>k. \<lparr>kr_Item = fst (last (me_history w k)), kr_Version = snd (last (me_history w k))\<rparr>) page,
          kg_NextPageToken = (if length page < length ks then snd (last page) else [])\<rparr>)"

definition me_events :: "memory \<Rightarrow> string \<Rightarrow> event list" where
  "me_events w s = mgetd [] (me_streams w) s"

text \<open>An append at the expected revision; an identical earlier append is answered again.\<close>

definition me_Append :: "memory \<Rightarrow> string \<Rightarrow> nat \<Rightarrow> event \<Rightarrow> store_error option \<times> memory" where
  "me_Append w s n ev =
     (let l = me_events w s
      in if n = length l then (None, w\<lparr>me_streams := mput s (l @ [ev]) (me_streams w)\<rparr>)
         else if n < length l \<and> l ! n = ev then (None, w)
         else (Some [ErrConflict], w))"

text \<open>The whole history is one page.\<close>

definition me_History :: "memory \<Rightarrow> string \<Rightarrow> event_page" where
  "me_History w s = \<lparr>eg_Entries = enumerate 1 (me_events w s), eg_NextPageToken = []\<rparr>"

text \<open>The hooks: a call may fail before it has any effect, and a mutation may fail after it.\<close>

definition memory_storage :: "nat \<Rightarrow> memory storage" where
  "memory_storage nonceSize =
     \<lparr>st_get = (\<lambda>w k r w'. w' = w \<and> ((\<exists>e. r = Inl e) \<or> r = me_Get w k)),
      st_create = (\<lambda>w it r w'. (\<exists>e. r = Inl e \<and> w' = w) \<or> (w' = snd (me_Create w it) \<and> (r = fst (me_Create w it) \<or> (\<exists>e. r = Inl e)))),
      st_replace = (\<lambda>w it v r w'. (\<exists>e. r = Inl e \<and> w' = w) \<or> (w' = snd (me_Replace w it v) \<and> (r = fst (me_Replace w it v) \<or> (\<exists>e. r = Inl e)))),
      st_query = (\<lambda>w q r w'. w' = w \<and> ((\<exists>e. r = Inl e) \<or> r = Inr (me_Query w q))),
      st_append = (\<lambda>w s n ev r w'. (\<exists>e. r = Some e \<and> w' = w) \<or> (w' = snd (me_Append w s n ev) \<and> (r = fst (me_Append w s n ev) \<or> (\<exists>e. r = Some e)))),
      st_state = (\<lambda>w s r w'. w' = w \<and> ((\<exists>e. r = Inl e) \<or> r = Inr (me_events w s))),
      st_history = (\<lambda>w s t r w'. w' = w \<and> ((\<exists>e. r = Inl e) \<or> r = Inr (me_History w s))),
      st_blob_create = (\<lambda>w k d r w'. (\<exists>e. r = Some e \<and> w' = w) \<or> (w' = snd (me_BlobCreate w k d) \<and> (r = fst (me_BlobCreate w k d) \<or> (\<exists>e. r = Some e)))),
      st_blob_open = (\<lambda>w k r w'. w' = w \<and> ((\<exists>e. r = Inl e) \<or> r = me_BlobOpen w k)),
      st_nonce = (\<lambda>w r w'. w' = w \<and> ((\<exists>e. r = Inl e) \<or> (\<exists>n. r = Inr n \<and> length n = nonceSize))),
      st_ctx = (\<lambda>w r w'. w' = w)\<rparr>"

definition versions_below :: "memory \<Rightarrow> bool" where
  "versions_below w \<longleftrightarrow> (\<forall>k it v. (it, v) \<in> set (me_history w k) \<longrightarrow> ki_Key it = k \<and> (\<exists>n. n \<le> me_version w \<and> v = nat_dec n))"

lemma me_history_write: "me_history (me_write w it) = (me_history w)(ki_Key it := me_history w (ki_Key it) @ [(it, nat_dec (Suc (me_version w)))])"
  by (rule ext) (simp add: me_history_def me_write_def mgetd_def)

lemma me_write_committed:
  assumes "versions_below w"
  shows "committed me_history w it (nat_dec (Suc (me_version w))) (me_write w it)" and "versions_below (me_write w it)"
proof -
  have "nat_dec (Suc (me_version w)) \<notin> snd ` set (me_history w (ki_Key it))"
  proof
    assume "nat_dec (Suc (me_version w)) \<in> snd ` set (me_history w (ki_Key it))"
    then obtain n where "n \<le> me_version w" "nat_dec (Suc (me_version w)) = nat_dec n" using assms unfolding versions_below_def by fastforce
    then show False using nat_dec_inj by fastforce
  qed
  then show "committed me_history w it (nat_dec (Suc (me_version w))) (me_write w it)" by (simp add: committed_def me_history_write)
  have v: "me_version (me_write w it) = Suc (me_version w)" by (simp add: me_write_def)
  show "versions_below (me_write w it)" unfolding versions_below_def v me_history_write
  proof (intro allI impI)
    fix k x u assume "(x, u) \<in> set (((me_history w)(ki_Key it := me_history w (ki_Key it) @ [(it, nat_dec (Suc (me_version w)))])) k)"
    then have "(x, u) \<in> set (me_history w k) \<or> (ki_Key x = k \<and> u = nat_dec (Suc (me_version w)))" by (auto split: if_splits)
    then show "ki_Key x = k \<and> (\<exists>n \<le> Suc (me_version w). u = nat_dec n)" using assms unfolding versions_below_def by (metis le_SucI order_refl)
  qed
qed

lemma me_history_blobs [simp]: "me_history (w\<lparr>me_blobs := b\<rparr>) = me_history w" "versions_below (w\<lparr>me_blobs := b\<rparr>) = versions_below w"
  "me_history (w\<lparr>me_streams := ss\<rparr>) = me_history w" "versions_below (w\<lparr>me_streams := ss\<rparr>) = versions_below w"
  by (simp_all add: fun_eq_iff me_history_def versions_below_def)

interpretation memory_table: versioned_table "memory_storage n" me_history versions_below
proof (unfold_locales, goal_cases)
  case (1 w k row w')
  then show ?case by (auto simp: memory_storage_def me_Get_def Let_def split: if_splits)
next
  case (2 w k rg w')
  then show ?case by (auto simp: memory_storage_def)
next
  case (3 w it r w')
  then show ?case using me_write_committed[OF 3(1), of it]
    by (cases "me_history w (ki_Key it) = []") (force simp: memory_storage_def me_Create_def)+
next
  case (4 w it old r w')
  then show ?case using me_write_committed[OF 4(1), of it]
    by (cases "me_history w (ki_Key it) = [] \<or> snd (last (me_history w (ki_Key it))) \<noteq> old \<or> old = []") (force simp: memory_storage_def me_Replace_def Let_def)+
next
  case (5 w b d re w')
  then show ?case by (auto simp: memory_storage_def me_BlobCreate_def)
next
  case (10 w s n ev re w')
  then show ?case by (auto simp: memory_storage_def me_Append_def Let_def)
qed (auto simp: memory_storage_def)

lemma me_Append_commits:
  "case me_Append w s n ev of (r, w') \<Rightarrow>
     (me_events w' = me_events w \<and> (r = None \<longrightarrow> n < length (me_events w s) \<and> me_events w s ! n = ev))
     \<or> (length (me_events w s) = n \<and> me_events w' = (me_events w)(s := me_events w s @ [ev]))"
  by (auto simp: me_Append_def Let_def me_events_def mgetd_def fun_eq_iff)

lemma me_events_other [simp]: "me_events (me_write w it) = me_events w" "me_events (w\<lparr>me_blobs := b\<rparr>) = me_events w"
  by (simp_all add: fun_eq_iff me_events_def me_write_def)

lemma me_Query_rows:
  assumes "versions_below w" and "row \<in> set (kg_Records (me_Query w q))"
  shows "(kr_Item row, kr_Version row) \<in> set (me_history w (ki_Key (kr_Item row)))"
proof -
  obtain k where k: "me_history w k \<noteq> []" "row = \<lparr>kr_Item = fst (last (me_history w k)), kr_Version = snd (last (me_history w k))\<rparr>"
    using assms(2) by (auto simp: me_Query_def Let_def dest!: in_set_takeD)
  then have l: "(kr_Item row, kr_Version row) \<in> set (me_history w k)" by simp
  then show ?thesis using assms(1) unfolding versions_below_def by metis
qed

interpretation memory_streams: event_streams "memory_storage n" me_history versions_below me_events
proof (unfold_locales, goal_cases)
  case (1 w s m ev r w')
  then show ?case using me_Append_commits[where w = w and s = s and n = m and ev = ev] by (auto simp: memory_storage_def split: prod.splits)
next
  case (4 w q rows w' row)
  then show ?case using me_Query_rows by (auto simp: memory_storage_def)
next
  case (11 w b d re w')
  then show ?case by (auto simp: memory_storage_def me_BlobCreate_def)
qed (auto simp: memory_storage_def me_Create_def me_Replace_def me_History_def Let_def in_set_enumerate_eq)

section \<open>Running a call without failures\<close>

text \<open>\<open>run_calls n\<close> answers the next \<open>n\<close> storage calls of a client; the nonce is all zero.\<close>

fun run_calls :: "nat \<Rightarrow> nat \<Rightarrow> memory \<Rightarrow> 'a prog \<times> acks \<Rightarrow> memory \<times> 'a prog \<times> acks" where
  "run_calls ns 0 w c = (w, c)"
| "run_calls ns (Suc n) w (Ret x, A) = (w, (Ret x, A))"
| "run_calls ns (Suc n) w (TGet k f, A) = run_calls ns n w (f (me_Get w k), A)"
| "run_calls ns (Suc n) w (TCreate it f, A) = (case me_Create w it of (r, w') \<Rightarrow> run_calls ns n w' (f r, acked it r @ A))"
| "run_calls ns (Suc n) w (TReplace it v f, A) = (case me_Replace w it v of (r, w') \<Rightarrow> run_calls ns n w' (f r, acked it r @ A))"
| "run_calls ns (Suc n) w (TQuery q f, A) = run_calls ns n w (f (Inr (me_Query w q)), A)"
| "run_calls ns (Suc n) w (EAppend s m ev f, A) = (case me_Append w s m ev of (r, w') \<Rightarrow> run_calls ns n w' (f r, A))"
| "run_calls ns (Suc n) w (EState s f, A) = run_calls ns n w (f (Inr (me_events w s)), A)"
| "run_calls ns (Suc n) w (EHistory s t f, A) = run_calls ns n w (f (Inr (me_History w s)), A)"
| "run_calls ns (Suc n) w (BCreate k d f, A) = (case me_BlobCreate w k d of (r, w') \<Rightarrow> run_calls ns n w' (f r, A))"
| "run_calls ns (Suc n) w (BOpen k f, A) = run_calls ns n w (f (me_BlobOpen w k), A)"
| "run_calls ns (Suc n) w (Nonce f, A) = run_calls ns n w (f (Inr (replicate ns NUL)), A)"
| "run_calls ns (Suc n) w (CtxErr f, A) = run_calls ns n w (f None, A)"

lemma run_client:
  assumes "client_step st w (cs ! i) w1 c1" and "i < length cs" and "(system_step st calls)\<^sup>*\<^sup>* (w1, cs[i := c1]) z"
  shows "(system_step st calls)\<^sup>*\<^sup>* (w, cs) z"
  by (rule converse_rtranclp_into_rtranclp[of "system_step st calls", OF _ assms(3)]) (rule system_step.run[OF assms(2,1)])

lemma run_calls_system:
  "run_calls ns n w c = (w', c') \<Longrightarrow> i < length cs \<Longrightarrow> cs ! i = c \<Longrightarrow> (system_step (memory_storage ns) calls)\<^sup>*\<^sup>* (w, cs) (w', cs[i := c'])"
proof (induction ns n w c arbitrary: cs rule: run_calls.induct)
  case (1 ns w c)
  then show ?case by auto
next
  case (2 ns n w x A)
  then show ?case by auto
next
  case (3 ns n w k f A)
  have st: "client_step (memory_storage ns) w (cs ! i) w (f (me_Get w k), A)" unfolding 3(4) by (rule client_step.get) (simp add: memory_storage_def)
  show ?case by (rule run_client[OF st 3(3)]) (use 3(1)[of "cs[i := (f (me_Get w k), A)]"] 3(2,3) in \<open>auto\<close>)
next
  case (4 ns n w it f A)
  let ?c = "(f (fst (me_Create w it)), acked it (fst (me_Create w it)) @ A)"
  have st: "client_step (memory_storage ns) w (cs ! i) (snd (me_Create w it)) ?c" unfolding 4(4) by (rule client_step.create) (auto simp: memory_storage_def)
  show ?case by (rule run_client[OF st 4(3)]) (use 4(1)[of "fst (me_Create w it)" "snd (me_Create w it)" "cs[i := ?c]"] 4(2,3) in \<open>auto simp: case_prod_beta\<close>)
next
  case (5 ns n w it v f A)
  let ?c = "(f (fst (me_Replace w it v)), acked it (fst (me_Replace w it v)) @ A)"
  have st: "client_step (memory_storage ns) w (cs ! i) (snd (me_Replace w it v)) ?c" unfolding 5(4) by (rule client_step.replace) (auto simp: memory_storage_def)
  show ?case by (rule run_client[OF st 5(3)]) (use 5(1)[of "fst (me_Replace w it v)" "snd (me_Replace w it v)" "cs[i := ?c]"] 5(2,3) in \<open>auto simp: case_prod_beta\<close>)
next
  case (6 ns n w q f A)
  have st: "client_step (memory_storage ns) w (cs ! i) w (f (Inr (me_Query w q)), A)" unfolding 6(4) by (rule client_step.query) (simp add: memory_storage_def)
  show ?case by (rule run_client[OF st 6(3)]) (use 6(1)[of "cs[i := (f (Inr (me_Query w q)), A)]"] 6(2,3) in \<open>auto\<close>)
next
  case (7 ns n w s m ev f A)
  let ?c = "(f (fst (me_Append w s m ev)), A)"
  have st: "client_step (memory_storage ns) w (cs ! i) (snd (me_Append w s m ev)) ?c" unfolding 7(4) by (rule client_step.append) (auto simp: memory_storage_def)
  show ?case by (rule run_client[OF st 7(3)]) (use 7(1)[of "fst (me_Append w s m ev)" "snd (me_Append w s m ev)" "cs[i := ?c]"] 7(2,3) in \<open>auto simp: case_prod_beta\<close>)
next
  case (8 ns n w s f A)
  have st: "client_step (memory_storage ns) w (cs ! i) w (f (Inr (me_events w s)), A)" unfolding 8(4) by (rule client_step.state) (simp add: memory_storage_def)
  show ?case by (rule run_client[OF st 8(3)]) (use 8(1)[of "cs[i := (f (Inr (me_events w s)), A)]"] 8(2,3) in \<open>auto\<close>)
next
  case (9 ns n w s t f A)
  have st: "client_step (memory_storage ns) w (cs ! i) w (f (Inr (me_History w s)), A)" unfolding 9(4) by (rule client_step.history) (simp add: memory_storage_def)
  show ?case by (rule run_client[OF st 9(3)]) (use 9(1)[of "cs[i := (f (Inr (me_History w s)), A)]"] 9(2,3) in \<open>auto\<close>)
next
  case (10 ns n w k d f A)
  let ?c = "(f (fst (me_BlobCreate w k d)), A)"
  have st: "client_step (memory_storage ns) w (cs ! i) (snd (me_BlobCreate w k d)) ?c" unfolding 10(4) by (rule client_step.bcreate) (auto simp: memory_storage_def)
  show ?case by (rule run_client[OF st 10(3)]) (use 10(1)[of "fst (me_BlobCreate w k d)" "snd (me_BlobCreate w k d)" "cs[i := ?c]"] 10(2,3) in \<open>auto simp: case_prod_beta\<close>)
next
  case (11 ns n w k f A)
  have st: "client_step (memory_storage ns) w (cs ! i) w (f (me_BlobOpen w k), A)" unfolding 11(4) by (rule client_step.bopen) (simp add: memory_storage_def)
  show ?case by (rule run_client[OF st 11(3)]) (use 11(1)[of "cs[i := (f (me_BlobOpen w k), A)]"] 11(2,3) in \<open>auto\<close>)
next
  case (12 ns n w f A)
  have st: "client_step (memory_storage ns) w (cs ! i) w (f (Inr (replicate ns NUL)), A)" unfolding 12(4) by (rule client_step.nonce) (simp add: memory_storage_def)
  show ?case by (rule run_client[OF st 12(3)]) (use 12(1)[of "cs[i := (f (Inr (replicate ns NUL)), A)]"] 12(2,3) in \<open>auto\<close>)
next
  case (13 ns n w f A)
  have st: "client_step (memory_storage ns) w (cs ! i) w (f None, A)" unfolding 13(4) by (rule client_step.ctx) (simp add: memory_storage_def)
  show ?case by (rule run_client[OF st 13(3)]) (use 13(1)[of "cs[i := (f None, A)]"] 13(2,3) in \<open>auto\<close>)
qed

section \<open>Schedules\<close>

text \<open>A schedule starts calls and lets a client make storage calls against the in-memory stores.\<close>

datatype 'a action = Spawn "'a prog" | Run nat nat

fun exec :: "nat \<Rightarrow> 'a action list \<Rightarrow> memory \<times> ('a prog \<times> acks) list \<Rightarrow> memory \<times> ('a prog \<times> acks) list" where
  "exec ns [] s = s"
| "exec ns (Spawn p # as) (w, cs) = exec ns as (w, cs @ [(p, [])])"
| "exec ns (Run i n # as) (w, cs) =
     (if i < length cs then (case run_calls ns n w (cs ! i) of (w', c) \<Rightarrow> exec ns as (w', cs[i := c])) else exec ns as (w, cs))"

fun spawned :: "'a action list \<Rightarrow> 'a prog list" where
  "spawned [] = []"
| "spawned (Spawn p # as) = p # spawned as"
| "spawned (Run i n # as) = spawned as"

lemma exec_system: "set (spawned as) \<subseteq> calls \<Longrightarrow> (system_step (memory_storage ns) calls)\<^sup>*\<^sup>* s (exec ns as s)"
proof (induction ns as s rule: exec.induct)
  case (1 ns s)
  then show ?case by simp
next
  case (2 ns p as w cs)
  then have "system_step (memory_storage ns) calls (w, cs) (w, cs @ [(p, [])])" by (intro system_step.spawn) simp
  then show ?case using 2 by (auto intro: converse_rtranclp_into_rtranclp)
next
  case (3 ns i n as w cs)
  show ?case
  proof (cases "i < length cs")
    case True
    obtain w' c where r: "run_calls ns n w (cs ! i) = (w', c)" by (metis surj_pair)
    have "(system_step (memory_storage ns) calls)\<^sup>*\<^sup>* (w, cs) (w', cs[i := c])" by (rule run_calls_system[OF r True refl])
    moreover have "(system_step (memory_storage ns) calls)\<^sup>*\<^sup>* (w', cs[i := c]) (exec ns as (w', cs[i := c]))"
      using 3(1)[OF True r[symmetric]] 3(3) by simp
    ultimately show ?thesis using True r by (simp add: rtranclp_trans)
  next
    case False
    then show ?thesis using 3(2,3) by simp
  qed
qed

lemma empty_memory_sound: "versions_below empty_memory" "me_history empty_memory k = []" "me_events empty_memory s = []"
  by (simp_all add: versions_below_def me_history_def me_events_def empty_memory_def)

section \<open>A digest for examples\<close>

text \<open>The last 32 characters, so that messages with different short ends have different digests.\<close>

definition tail_digest :: "string \<Rightarrow> string \<Rightarrow> string" where
  "tail_digest secret m = take 32 (rev m @ replicate 32 CHR ''0'')"

lemma tail_digest_length [simp]: "length (tail_digest secret m) = 32"
  by (simp add: tail_digest_def)

lemma tail_digest_end: "length d \<le> 32 \<Longrightarrow> take (length d) (tail_digest secret (m @ d)) = rev d"
  by (simp add: tail_digest_def)

end
