(* ===== verification/Cloud_Fill_Facts.thy ===== *)
theory Cloud_Fill_Facts
  imports Cloud_Fill Cloud_Memory
begin

text \<open>
  What the fill protocol guarantees under arbitrary interleaving, lost acknowledgements and retries: the contents of the row
  of a fill are a run of the fill state machine, and at most one started attempt is unresolved at any time.
\<close>

section \<open>The state machine\<close>

inductive fill_next :: "fill_record option \<Rightarrow> fill_record \<Rightarrow> bool" where
  create: "fill_next None (held l)"
| start: "fr_State r = FillHeld \<Longrightarrow> t < le_ExpiresAt (fr_Lease r) \<Longrightarrow> le_AcquiredAt (fr_Lease r) \<le> t \<Longrightarrow> fill_next (Some r) (r\<lparr>fr_State := FillStarted, fr_UpdatedAt := t\<rparr>)"
| release: "fr_State r = FillHeld \<Longrightarrow> fr_UpdatedAt r \<le> t \<Longrightarrow> fill_next (Some r) (r\<lparr>fr_State := FillReleased, fr_UpdatedAt := t, fr_Completion := no_completion\<rparr>)"
| complete: "fr_State r = FillStarted \<Longrightarrow> fr_UpdatedAt r \<le> t \<Longrightarrow> fill_next (Some r) (r\<lparr>fr_State := FillFinished, fr_UpdatedAt := t, fr_Completion := c\<rparr>)"
| takeover: "fr_State r = FillHeld \<Longrightarrow> le_Attempt l \<noteq> le_Attempt (fr_Lease r) \<Longrightarrow> fr_UpdatedAt r < le_AcquiredAt l \<Longrightarrow> fill_next (Some r) (held l)"
| succeed: "fr_State r = FillReleased \<or> fr_State r = FillFinished \<Longrightarrow> le_Attempt l \<noteq> le_Attempt (fr_Lease r) \<Longrightarrow> fr_UpdatedAt r < le_ExpiresAt l \<Longrightarrow> fill_next (Some r) (held l)"

inductive_cases fill_next_None: "fill_next None r"
inductive_cases fill_next_Some: "fill_next (Some r) r'"

abbreviation fill_run :: "fill_record option \<Rightarrow> fill_record list \<Rightarrow> bool" where
  "fill_run \<equiv> runs fill_next"

section \<open>What the row holds\<close>

text \<open>The records that calls with these leases, times and completions can write.\<close>

definition fill_universe :: "fill_lease set \<Rightarrow> gotime set \<Rightarrow> fill_completion set \<Rightarrow> fill_record set" where
  "fill_universe Ls Ts Cs =
     {r. fr_Lease r \<in> Ls \<and> fr_UpdatedAt r \<in> insert (le_AcquiredAt (fr_Lease r)) Ts \<and> fr_Completion r \<in> insert no_completion Cs}"

definition sealed_fills :: "cache_codec \<Rightarrow> response_key \<Rightarrow> fill_record set \<Rightarrow> string set" where
  "sealed_fills cc k R = {d. \<exists>r \<in> R. le_Key (fr_Lease r) = k \<and> cc_fill cc r = Some d}"

text \<open>The item of the row names a record: its pointer is that of the record's encoding.\<close>

definition names :: "cloud_env \<Rightarrow> cache_codec \<Rightarrow> response_key \<Rightarrow> fill_record set \<Rightarrow> kv_item \<Rightarrow> fill_record \<Rightarrow> bool" where
  "names env cc k R it r \<longleftrightarrow> r \<in> R \<and> le_Key (fr_Lease r) = k \<and> (\<exists>d. cc_fill cc r = Some d \<and> holds_pointer cc it (fill_pointer env (fill_row env cc k) d))"

text \<open>What is relied on of encryption, digests and JSON, for the records \<open>R\<close> of one key.\<close>

definition fill_laws :: "cloud_env \<Rightarrow> cache_codec \<Rightarrow> response_key \<Rightarrow> fill_record set \<Rightarrow> bool" where
  "fill_laws env cc k R \<longleftrightarrow>
     (\<forall>r \<in> R. \<forall>d. cc_fill cc r = Some d \<longrightarrow> cc_readFill cc d = Some (1, r))
     \<and> (\<forall>d \<in> sealed_fills cc k R. let p = fill_pointer env (fill_row env cc k) d in cc_readPointer cc (cc_pointer cc p) = Some p)
     \<and> authentic env (fst (fill_row env cc k)) (sealed_fills cc k R)"

lemma holds_pointer_unique: "holds_pointer cc it p \<Longrightarrow> holds_pointer cc it q \<Longrightarrow> p = q"
  by (auto simp: holds_pointer_def)

lemma names_unique:
  assumes "fill_laws env cc k R" and "names env cc k R it r" and "names env cc k R it r'"
  shows "r = r'"
proof -
  obtain d d' where d: "cc_fill cc r = Some d" "cc_fill cc r' = Some d'" "r \<in> R" "r' \<in> R"
    and p: "fill_pointer env (fill_row env cc k) d = fill_pointer env (fill_row env cc k) d'"
    and s: "d \<in> sealed_fills cc k R" "d' \<in> sealed_fills cc k R"
    using assms(2,3) holds_pointer_unique unfolding names_def sealed_fills_def by blast
  have "d = d'" using p s assms(1) by (auto simp: fill_laws_def authentic_def fill_pointer_def inj_on_def)
  then show ?thesis using d assms(1) unfolding fill_laws_def by (metis option.inject prod.inject)
qed

lemma names_one_value: "fill_laws env cc k R \<Longrightarrow> one_value (names env cc k R)"
  unfolding one_value_def using names_unique by blast

abbreviation fill_ok :: "cloud_env \<Rightarrow> cache_codec \<Rightarrow> response_key \<Rightarrow> fill_record set \<Rightarrow> kv_item option \<Rightarrow> kv_item \<Rightarrow> bool" where
  "fill_ok env cc k R \<equiv> named_ok (names env cc k R) fill_next"

section \<open>Reading and writing the head\<close>

lemma fill_read_wp:
  assumes laws: "fill_laws env cc k R" and hk: "hk = fill_row env cc k"
    and err: "\<And>e F'. F \<subseteq> F' \<Longrightarrow> Q F' A (Inl e)"
    and res: "\<And>r v F'. F \<subseteq> F' \<Longrightarrow> v \<noteq> [] \<Longrightarrow> validFillRecord r \<Longrightarrow> le_Key (fr_Lease r) = j \<Longrightarrow> (j = k \<longrightarrow> (\<exists>it. (it, v) \<in> F' \<and> names env cc k R it r)) \<Longrightarrow> Q F' A (Inr (r, v))"
  shows "wp hk ok Q (fill_read env cc j) F A"
proof -
  let ?row = "fill_row env cc j"
  have blob: "wp hk ok Q (bindP (readBlob env (pt_Stream p) (pt_Blob p)) (\<lambda>r. case r of Inl e \<Rightarrow> failP (fillBlobError e)
      | Inr data \<Rightarrow> (case cc_readFill cc data of None \<Rightarrow> failP [ErrCorrupt] | Some (v, record) \<Rightarrow>
          if v \<noteq> 1 \<or> le_Key (fr_Lease record) \<noteq> j \<or> \<not> validFillRecord record then failP [ErrCorrupt] else Ret (Inr (record, version))))) F' A"
    if F': "F \<subseteq> F'" and p: "?row = hk \<longrightarrow> (\<exists>it. (it, version) \<in> F' \<and> holds_pointer cc it p)" "version \<noteq> []" "pt_Version p = 1" "pt_Stream p = fst ?row" for p version F'
  proof -
    have dec: "j = k \<longrightarrow> (\<exists>it. (it, version) \<in> F' \<and> names env cc k R it rec)"
      if op: "opens env (pt_Stream p) (pt_Blob p) d" and r: "cc_readFill cc d = Some (1, rec)" "le_Key (fr_Lease rec) = j" for d rec
    proof
      assume jk: "j = k"
      then have "d \<in> sealed_fills cc k R" using laws op p(4) by (auto simp: fill_laws_def authentic_def)
      then obtain r0 where r0: "r0 \<in> R" "le_Key (fr_Lease r0) = k" "cc_fill cc r0 = Some d" by (auto simp: sealed_fills_def)
      have "r0 = rec" using laws r0 r(1) by (auto simp: fill_laws_def)
      moreover have "p = fill_pointer env (fill_row env cc k) d" using op p(3,4) jk by (simp add: fill_pointer_def opens_def)
      moreover obtain it where "(it, version) \<in> F'" "holds_pointer cc it p" using p(1) jk hk by auto
      ultimately show "\<exists>it. (it, version) \<in> F' \<and> names env cc k R it rec" using r0 by (auto simp: names_def)
    qed
    show ?thesis unfolding wp_bind
    proof (rule readBlob_wp)
      show "wp hk ok Q (case Inl e of Inl e \<Rightarrow> failP (fillBlobError e)
        | Inr data \<Rightarrow> (case cc_readFill cc data of None \<Rightarrow> failP [ErrCorrupt] | Some (v, record) \<Rightarrow>
          if v \<noteq> 1 \<or> le_Key (fr_Lease record) \<noteq> j \<or> \<not> validFillRecord record then failP [ErrCorrupt] else Ret (Inr (record, version)))) F' A" for e
        using err F' by simp
      show "wp hk ok Q (case Inr d of Inl e \<Rightarrow> failP (fillBlobError e)
        | Inr data \<Rightarrow> (case cc_readFill cc data of None \<Rightarrow> failP [ErrCorrupt] | Some (v, record) \<Rightarrow>
          if v \<noteq> 1 \<or> le_Key (fr_Lease record) \<noteq> j \<or> \<not> validFillRecord record then failP [ErrCorrupt] else Ret (Inr (record, version)))) F' A"
        if "opens env (pt_Stream p) (pt_Blob p) d" for d
        using err[OF F'] res[OF F' p(2)] dec[OF that] by (auto split: option.split)
    qed
  qed
  show ?thesis unfolding fill_read_def Let_def wp_tryP
    by (rule readPointer_wp) (use err blob in auto)
qed

lemma fill_write_wp:
  assumes laws: "fill_laws env cc k R" and hk: "hk = fill_row env cc k" and r: "r \<in> R" and other: "le_Key (fr_Lease r) = k \<or> fill_row env cc (le_Key (fr_Lease r)) \<noteq> hk"
    and err: "\<And>e. Q F A (Inl e)"
    and step: "le_Key (fr_Lease r) = k \<Longrightarrow> (if v = [] then fill_next None r else \<exists>it r0. (it, v) \<in> F \<and> names env cc k R it r0 \<and> fill_next (Some r0) r)"
    and res: "\<And>it u. (le_Key (fr_Lease r) = k \<longrightarrow> ki_Key it = hk \<and> names env cc k R it r) \<Longrightarrow> Q F ((it, u) # A) (Inr u)"
  shows "wp hk (fill_ok env cc k R) Q (fill_write env cc r v) F A"
proof (cases "cc_fill cc r")
  case None
  then show ?thesis using err by (simp add: fill_write_def)
next
  case (Some d)
  let ?row = "fill_row env cc (le_Key (fr_Lease r))"
  let ?it = "cacheItem cc ?row \<lparr>pt_Version = 1, pt_Blob = blobKey env (fst ?row) d, pt_Stream = fst ?row\<rparr>"
  have n: "names env cc k R ?it r" if key: "le_Key (fr_Lease r) = k"
  proof -
    have "d \<in> sealed_fills cc k R" using r key Some by (auto simp: sealed_fills_def)
    then have "holds_pointer cc ?it (fill_pointer env (fill_row env cc k) d)"
      using laws key by (auto simp: fill_laws_def Let_def holds_pointer_def cacheItem_def fill_pointer_def)
    then show ?thesis using r key Some by (auto simp: names_def)
  qed
  have key: "ki_Key ?it = hk \<longleftrightarrow> le_Key (fr_Lease r) = k" using other hk by (auto simp: cacheItem_def)
  have w: "wp hk (fill_ok env cc k R) Q (if v = [] then tableCreate ?it else tableReplace ?it v) F A"
  proof (cases "v = []")
    case True
    have "fill_ok env cc k R None ?it" if "ki_Key ?it = hk" using n step True that key by (auto simp: named_ok_def)
    moreover have "Q F (acked ?it x @ A) x" for x using err res[of ?it] n key by (cases x) auto
    ultimately show ?thesis using True by (simp add: tableCreate_def)
  next
    case False
    have "\<exists>old. (old, v) \<in> F \<and> fill_ok env cc k R (Some old) ?it" if "ki_Key ?it = hk"
      using n step False that key by (auto simp: named_ok_def)
    moreover have "Q F (acked ?it x @ A) x" for x using err res[of ?it] n key by (cases x) auto
    ultimately show ?thesis using False by (simp add: tableReplace_def)
  qed
  show ?thesis unfolding fill_write_def Let_def Some option.case wp_tryP
    by (rule writeBlob_wp) (use err w in \<open>simp_all add: Let_def\<close>)
qed

section \<open>The calls\<close>

text \<open>Receipts live in rows of their own.\<close>

lemma receipt_row: "terminalKey env cc l \<noteq> fill_row env cc k"
  by (simp add: terminalKey_def fill_row_def cache_row_def)

lemma quiet_sealTerminal [quiets]: "quiet (fill_row env cc k) (sealTerminal env cc r)"
  unfolding sealTerminal_def using receipt_row by (auto simp: Let_def cacheItem_def intro!: quiets split: sum.split option.split)

lemma quiet_readTerminal [quiets]: "quiet hk (readTerminal env cc l)"
  unfolding readTerminal_def by (auto intro!: quiets split: sum.split)

lemma quiet_validatePublished [quiets]: "quiet hk (validatePublished env cc l t c)"
  unfolding validatePublished_def by (auto simp: Let_def intro!: quiets split: sum.split)

text \<open>The leases, times and completions of the calls, and a row that only the leases of its key address.\<close>

definition fill_scope :: "cloud_env \<Rightarrow> cache_codec \<Rightarrow> response_key \<Rightarrow> fill_lease set \<Rightarrow> gotime set \<Rightarrow> fill_completion set \<Rightarrow> bool" where
  "fill_scope env cc k Ls Ts Cs \<longleftrightarrow> fill_laws env cc k (fill_universe Ls Ts Cs) \<and> (\<forall>l \<in> Ls. fill_row env cc (le_Key l) = fill_row env cc k \<longrightarrow> le_Key l = k)
     \<and> (\<forall>c \<in> Cs. fc_CompletedAt c \<in> Ts)"

abbreviation any :: "facts \<Rightarrow> acks \<Rightarrow> 'a \<Rightarrow> bool" where
  "any F A x \<equiv> True"

lemma held_universe [simp]: "held l \<in> fill_universe Ls Ts Cs \<longleftrightarrow> l \<in> Ls"
  by (simp add: fill_universe_def held_def)

lemma held_simps [simp]: "fr_Lease (held l) = l" "fr_State (held l) = FillHeld" "fr_UpdatedAt (held l) = le_AcquiredAt l"
  by (simp_all add: held_def)

lemma decideFill_replace:
  assumes "decideFill r l now = (d, True, None)"
  shows "fill_next (Some r) (held l)"
  using assms by (cases "fr_State r") (auto simp: decideFill_def Let_def split: if_splits intro: fill_next.takeover fill_next.succeed)

lemma normalize_id: "normalizeFillLease l = Inr l' \<Longrightarrow> l' = l"
  by (auto simp: normalizeFillLease_def split: if_splits)

lemma acquire_write_wp:
  assumes "fill_scope env cc k Ls Ts Cs" and "l \<in> Ls"
    and "le_Key l = k \<Longrightarrow> (if v = [] then fill_next None (held l) else \<exists>it r0. (it, v) \<in> F \<and> names env cc k (fill_universe Ls Ts Cs) it r0 \<and> fill_next (Some r0) (held l))"
    and "wp (fill_row env cc k) (fill_ok env cc k (fill_universe Ls Ts Cs)) any again F A"
  shows "wp (fill_row env cc k) (fill_ok env cc k (fill_universe Ls Ts Cs)) any (acquire_write env cc l v again) F A"
proof -
  have laws: "fill_laws env cc k (fill_universe Ls Ts Cs)" and oth: "le_Key l = k \<or> fill_row env cc (le_Key l) \<noteq> fill_row env cc k"
    using assms(1,2) by (auto simp: fill_scope_def)
  show ?thesis unfolding acquire_write_def wp_bind
    by (rule fill_write_wp[OF laws refl]) (use assms oth in \<open>auto\<close>)
qed

lemma acquire_loop_wp:
  assumes "fill_scope env cc k Ls Ts Cs" and "l \<in> Ls"
  shows "wp (fill_row env cc k) (fill_ok env cc k (fill_universe Ls Ts Cs)) any (acquire_loop env cc l now n) F A"
proof (induction n arbitrary: F A)
  case 0
  then show ?case by simp
next
  case (Suc n)
  have laws: "fill_laws env cc k (fill_universe Ls Ts Cs)" using assms(1) by (simp add: fill_scope_def)
  have new: "wp (fill_row env cc k) (fill_ok env cc k (fill_universe Ls Ts Cs)) any (acquire_write env cc l [] (acquire_loop env cc l now n)) F' A'" for F' A'
    by (rule acquire_write_wp[OF assms]) (use Suc in \<open>auto intro: fill_next.create\<close>)
  have nxt: "wp (fill_row env cc k) (fill_ok env cc k (fill_universe Ls Ts Cs)) any (acquire_write env cc l v (acquire_loop env cc l now n)) F' A'"
    if "v \<noteq> []" "le_Key l = k \<longrightarrow> (\<exists>it. (it, v) \<in> F' \<and> names env cc k (fill_universe Ls Ts Cs) it r)" "fill_next (Some r) (held l)" for v r F' A'
    by (rule acquire_write_wp[OF assms]) (use Suc that in auto)
  have seal: "wp (fill_row env cc k) (fill_ok env cc k (fill_universe Ls Ts Cs)) any (bindP (sealTerminal env cc r) (\<lambda>s. case s of
        Inl e \<Rightarrow> Ret (zero_decision, Some e) | Inr _ \<Rightarrow> acquire_write env cc l v (acquire_loop env cc l now n))) F' A'"
    if a: "v \<noteq> []" "le_Key l = k \<longrightarrow> (\<exists>it. (it, v) \<in> F' \<and> names env cc k (fill_universe Ls Ts Cs) it r)" and n: "fill_next (Some r) (held l)" for v r F' A'
    unfolding wp_bind
  proof (rule wp_quiet[OF quiet_sealTerminal])
    fix s :: "store_error + unit" and F'' A'' assume "F' \<subseteq> F''"
    then have a': "le_Key l = k \<longrightarrow> (\<exists>it. (it, v) \<in> F'' \<and> names env cc k (fill_universe Ls Ts Cs) it r)" using a(2) by blast
    show "wp (fill_row env cc k) (fill_ok env cc k (fill_universe Ls Ts Cs)) any (case s of
        Inl e \<Rightarrow> Ret (zero_decision, Some e) | Inr _ \<Rightarrow> acquire_write env cc l v (acquire_loop env cc l now n)) F'' A''"
      using nxt[OF a(1) a' n] by (cases s) auto
  qed
  show ?case unfolding acquire_loop.simps wp_bind
  proof (rule fill_read_wp[OF laws refl], goal_cases)
    case (1 e F')
    then show ?case using new by auto
  next
    case (2 r v F')
    obtain d replace err where d: "decideFill r l now = (d, replace, err)" by (cases "decideFill r l now")
    have n: "fill_next (Some r) (held l)" if "err = None" "replace" using decideFill_replace[of r l now d] d that by simp
    show ?case using d seal[OF 2(2,5)] nxt[OF 2(2,5)] n by auto
  qed
qed

lemma Acquire_wp:
  assumes "fill_scope env cc k Ls Ts Cs" and "l \<in> Ls"
  shows "wp (fill_row env cc k) (fill_ok env cc k (fill_universe Ls Ts Cs)) any (Acquire env cc l now) F A"
proof (cases "normalizeFillLease l")
  case (Inl e)
  then show ?thesis unfolding Acquire_def wp_bind by (intro wp_quiet[OF quiet_validContext]) (auto split: sum.split)
next
  case (Inr l')
  have t: "wp (fill_row env cc k) (fill_ok env cc k (fill_universe Ls Ts Cs)) any (bindP (readTerminal env cc l) (\<lambda>t. case t of
                Inl e \<Rightarrow> Ret (\<lparr>fd_Disposition = FillAttemptFinished, fd_Record = None\<rparr>, Some e)
              | Inr (Some terminal) \<Rightarrow> Ret (\<lparr>fd_Disposition = FillAttemptFinished, fd_Record = Some terminal\<rparr>, None)
              | Inr None \<Rightarrow> acquire_loop env cc l now 16)) F' A'" for F' A'
    unfolding wp_bind by (rule wp_quiet[OF quiet_readTerminal]) (use acquire_loop_wp[OF assms] in \<open>auto split: sum.split option.split\<close>)
  show ?thesis unfolding Acquire_def wp_bind[of _ _ _ validContext] using Inr normalize_id[OF Inr] t
    by (intro wp_quiet[OF quiet_validContext]) (auto split: sum.split)
qed

lemma readOwner_wp:
  assumes laws: "fill_laws env cc k R" and hk: "hk = fill_row env cc k"
    and err: "\<And>e F'. F \<subseteq> F' \<Longrightarrow> Q F' A (Inl e)"
    and res: "\<And>r v F'. F \<subseteq> F' \<Longrightarrow> v \<noteq> [] \<Longrightarrow> validFillRecord r \<Longrightarrow> fr_Lease r = l \<Longrightarrow> (le_Key l = k \<longrightarrow> (\<exists>it. (it, v) \<in> F' \<and> names env cc k R it r)) \<Longrightarrow> Q F' A (Inr (r, v))"
  shows "wp hk ok Q (readOwner env cc l) F A"
  unfolding readOwner_def wp_tryP
proof (rule fill_read_wp[OF laws hk], goal_cases)
  case (1 e F')
  then show ?case using err by simp
next
  case (2 r v F')
  then show ?case using err res[of F' v r] by auto
qed

text \<open>A start that answers true has had its own started record acknowledged.\<close>

definition start_post :: "cloud_env \<Rightarrow> cache_codec \<Rightarrow> response_key \<Rightarrow> fill_record set \<Rightarrow> fill_lease \<Rightarrow> facts \<Rightarrow> acks \<Rightarrow> store_error + bool \<Rightarrow> bool" where
  "start_post env cc k R l F A x \<longleftrightarrow> (x = Inr True \<longrightarrow> le_Key l = k \<longrightarrow>
     (\<exists>it u r. (it, u) \<in> set A \<and> ki_Key it = fill_row env cc k \<and> names env cc k R it r \<and> fr_Lease r = l \<and> fr_State r = FillStarted))"

lemma start_post_simps [simp]: "start_post env cc k R l F A (Inl e)" "start_post env cc k R l F A (Inr False)"
  by (simp_all add: start_post_def)

lemma started_universe:
  "fr_Lease r \<in> Ls \<Longrightarrow> fr_Completion r = no_completion \<Longrightarrow> t \<in> Ts \<Longrightarrow> r\<lparr>fr_State := s, fr_UpdatedAt := t\<rparr> \<in> fill_universe Ls Ts Cs"
  by (simp add: fill_universe_def)

lemma valid_no_completion: "validFillRecord r \<Longrightarrow> fr_State r = FillHeld \<or> fr_State r = FillStarted \<Longrightarrow> fr_Completion r = no_completion"
  by (auto simp: validFillRecord_def)

lemma start_loop_wp:
  assumes "fill_scope env cc k Ls Ts Cs" and "l \<in> Ls" and "now \<in> Ts" and "le_AcquiredAt l \<le> now"
  shows "wp (fill_row env cc k) (fill_ok env cc k (fill_universe Ls Ts Cs)) (start_post env cc k (fill_universe Ls Ts Cs) l) (start_loop env cc l now n) F A"
proof (induction n arbitrary: F A)
  case 0
  then show ?case by simp
next
  case (Suc n)
  have laws: "fill_laws env cc k (fill_universe Ls Ts Cs)" and oth: "le_Key l = k \<or> fill_row env cc (le_Key l) \<noteq> fill_row env cc k"
    using assms(1,2) by (auto simp: fill_scope_def)
  have wr: "wp (fill_row env cc k) (fill_ok env cc k (fill_universe Ls Ts Cs)) (start_post env cc k (fill_universe Ls Ts Cs) l)
      (bindP (fill_write env cc (r\<lparr>fr_State := FillStarted, fr_UpdatedAt := now\<rparr>) v) (\<lambda>x. case x of
         Inr _ \<Rightarrow> Ret (Inr True) | Inl e \<Rightarrow> if \<not> retryFillConflict e then failP e else start_loop env cc l now n)) F' A'"
    if r: "v \<noteq> []" "validFillRecord r" "fr_Lease r = l" "le_Key l = k \<longrightarrow> (\<exists>it. (it, v) \<in> F' \<and> names env cc k (fill_universe Ls Ts Cs) it r)"
      "fr_State r = FillHeld" "now < le_ExpiresAt l" for r v F' A'
    unfolding wp_bind
  proof (rule fill_write_wp[OF laws refl], goal_cases)
    case 1
    then show ?case using started_universe[of r Ls now Ts FillStarted Cs] r assms(2,3) valid_no_completion by simp
  next
    case 2
    then show ?case using oth r(3) by simp
  next
    case (3 e)
    then show ?case using Suc by simp
  next
    case 4
    then obtain it where "(it, v) \<in> F'" "names env cc k (fill_universe Ls Ts Cs) it r" using r(3,4) by auto
    then show ?case using r fill_next.start[of r now] assms(4) by auto
  next
    case (5 it u)
    let ?r = "r\<lparr>fr_State := FillStarted, fr_UpdatedAt := now\<rparr>"
    have "start_post env cc k (fill_universe Ls Ts Cs) l F' ((it, u) # A') (Inr True)" unfolding start_post_def
    proof (intro impI, rule exI[of _ it], rule exI[of _ u], rule exI[of _ ?r], intro conjI)
      assume "le_Key l = k"
      then show "ki_Key it = fill_row env cc k" "names env cc k (fill_universe Ls Ts Cs) it ?r" using 5 r(3) by simp_all
    qed (use r(3) in simp_all)
    then show ?case by simp
  qed
  show ?case unfolding start_loop.simps wp_tryP
  proof (rule readOwner_wp[OF laws refl], goal_cases)
    case (1 e F')
    then show ?case by simp
  next
    case (2 r v F')
    then show ?case using wr[OF 2(2,3,4,5)] by auto
  qed
qed

lemma Start_wp:
  assumes "fill_scope env cc k Ls Ts Cs" and "l \<in> Ls" and "now \<in> Ts"
  shows "wp (fill_row env cc k) (fill_ok env cc k (fill_universe Ls Ts Cs)) (start_post env cc k (fill_universe Ls Ts Cs) l) (Start env cc l now) F A"
  unfolding Start_def wp_tryP
proof (rule wp_quiet[OF quiet_validContext], goal_cases)
  case (1 c F' A')
  then show ?case using start_loop_wp[OF assms] normalize_id[of l] by (auto split: sum.split)
qed

definition valid_target :: "fill_completion set \<Rightarrow> fill_state \<Rightarrow> fill_completion \<Rightarrow> bool" where
  "valid_target Cs target c \<longleftrightarrow> (target = FillReleased \<and> c = no_completion) \<or> (target = FillFinished \<and> c \<in> Cs)"

lemma finish_loop_wp:
  assumes "fill_scope env cc k Ls Ts Cs" and "l \<in> Ls" and "now \<in> Ts" and "valid_target Cs target c"
  shows "wp (fill_row env cc k) (fill_ok env cc k (fill_universe Ls Ts Cs)) any (finish_loop env cc l target c now n) F A"
proof (induction n arbitrary: F A)
  case 0
  then show ?case by simp
next
  case (Suc n)
  let ?R = "fill_universe Ls Ts Cs" and ?hk = "fill_row env cc k"
  have laws: "fill_laws env cc k ?R" and oth: "le_Key l = k \<or> fill_row env cc (le_Key l) \<noteq> ?hk"
    using assms(1,2) by (auto simp: fill_scope_def)
  have seal: "wp ?hk (fill_ok env cc k ?R) any (sealTerminal env cc r) F' A'" for r F' A'
    by (rule wp_quiet[OF quiet_sealTerminal]) simp
  have terminal: "wp ?hk (fill_ok env cc k ?R) any (tryP (readTerminal env cc l) (\<lambda>t. case t of None \<Rightarrow> failP e
      | Some terminal \<Rightarrow> Ret (matchTerminal terminal target c now))) F' A'" for e F' A'
    unfolding wp_tryP by (rule wp_quiet[OF quiet_readTerminal]) (auto split: sum.split option.split)
  have wr: "wp ?hk (fill_ok env cc k ?R) any (bindP (fill_write env cc (r\<lparr>fr_State := target, fr_UpdatedAt := now, fr_Completion := c\<rparr>) v) (\<lambda>w. case w of
        Inr _ \<Rightarrow> sealTerminal env cc (r\<lparr>fr_State := target, fr_UpdatedAt := now, fr_Completion := c\<rparr>)
      | Inl e \<Rightarrow> if \<not> retryFillConflict e then failP e else finish_loop env cc l target c now n)) F' A'"
    if r: "v \<noteq> []" "fr_Lease r = l" "le_Key l = k \<longrightarrow> (\<exists>it. (it, v) \<in> F' \<and> names env cc k ?R it r)"
      "\<not> now < fr_UpdatedAt r" "target = FillReleased \<longrightarrow> fr_State r = FillHeld" "target = FillFinished \<longrightarrow> fr_State r = FillStarted" for r v F' A'
    unfolding wp_bind
  proof (rule fill_write_wp[OF laws refl], goal_cases)
    case 1
    then show ?case using r(2) assms(2,3,4) by (auto simp: fill_universe_def valid_target_def)
  next
    case 2
    then show ?case using oth r(2) by simp
  next
    case (3 e)
    then show ?case using Suc by simp
  next
    case 4
    then obtain it where "(it, v) \<in> F'" "names env cc k ?R it r" using r(2,3) by auto
    then show ?case using r assms(4) fill_next.release[of r now] fill_next.complete[of r now c] by (auto simp: valid_target_def)
  next
    case (5 it u)
    then show ?case using seal by simp
  qed
  have pub: "wp ?hk (fill_ok env cc k ?R) any (tryP (if fc_Outcome c = FillPublished then validatePublished env cc l (fr_UpdatedAt r) c else Ret (Inr ())) (\<lambda>_.
      let next = r\<lparr>fr_State := target, fr_UpdatedAt := now, fr_Completion := c\<rparr>
      in bindP (fill_write env cc next v) (\<lambda>w. case w of Inr _ \<Rightarrow> sealTerminal env cc next
        | Inl e \<Rightarrow> if \<not> retryFillConflict e then failP e else finish_loop env cc l target c now n))) F' A'"
    if r: "v \<noteq> []" "fr_Lease r = l" "le_Key l = k \<longrightarrow> (\<exists>it. (it, v) \<in> F' \<and> names env cc k ?R it r)"
      "\<not> now < fr_UpdatedAt r" "target = FillReleased \<longrightarrow> fr_State r = FillHeld" "target = FillFinished \<longrightarrow> fr_State r = FillStarted" for r v F' A'
    unfolding wp_tryP
  proof (rule wp_quiet, goal_cases)
    case 1
    then show ?case by (simp add: quiet_validatePublished)
  next
    case (2 x F'' A'')
    have r': "le_Key l = k \<longrightarrow> (\<exists>it. (it, v) \<in> F'' \<and> names env cc k ?R it r)" using r(3) 2(1) by blast
    show ?case using wr[OF r(1,2) r' r(4-6)] by (cases x) (auto simp: Let_def)
  qed
  show ?case unfolding finish_loop.simps wp_bind
  proof (rule readOwner_wp[OF laws refl], goal_cases)
    case (1 e F')
    then show ?case using terminal by auto
  next
    case (2 r v F')
    then show ?case using pub[OF 2(2,4,5)] seal by auto
  qed
qed

lemma finish_wp:
  assumes "fill_scope env cc k Ls Ts Cs" and "l \<in> Ls" and "now \<in> Ts" and "valid_target Cs target c"
  shows "wp (fill_row env cc k) (fill_ok env cc k (fill_universe Ls Ts Cs)) any (finish env cc l target c now) F A"
proof -
  have t: "wp (fill_row env cc k) (fill_ok env cc k (fill_universe Ls Ts Cs)) any (tryP (readTerminal env cc l) (\<lambda>t. case t of
      Some terminal \<Rightarrow> Ret (matchTerminal terminal target c now) | None \<Rightarrow> finish_loop env cc l target c now 16)) F' A'" for F' A'
    unfolding wp_tryP by (rule wp_quiet[OF quiet_readTerminal]) (use finish_loop_wp[OF assms] in \<open>auto split: sum.split option.split\<close>)
  show ?thesis unfolding finish_def wp_tryP[of _ _ _ validContext]
  proof (rule wp_quiet[OF quiet_validContext], goal_cases)
    case (1 x F' A')
    then show ?case using t normalize_id[of l] by (auto split: sum.split)
  qed
qed

lemma Prepare_wp:
  assumes "fill_scope env cc k Ls Ts Cs" and "l \<in> Ls" and "rl_Now lookup \<in> Ts"
  shows "wp (fill_row env cc k) (fill_ok env cc k (fill_universe Ls Ts Cs)) any (Prepare (Lookup env cc) (Acquire env cc) (Release env cc) lookup l) F A"
proof -
  let ?wp = "\<lambda>p F A. wp (fill_row env cc k) (fill_ok env cc k (fill_universe Ls Ts Cs)) any p F A"
  have release: "?wp (bindP (Release env cc l (rl_Now lookup)) (\<lambda>r. case r of
      Inl e \<Rightarrow> Ret (no_preparation, Some e) | Inr _ \<Rightarrow> Ret (no_preparation\<lparr>pp_Entry := Some entry\<rparr>, None))) F A" for entry F A
    unfolding wp_bind Release_def by (rule wp_conseq[OF finish_wp[OF assms]]) (auto simp: valid_target_def split: sum.split)
  have acquire: "?wp (bindP (Acquire env cc l (rl_Now lookup)) f) F A" if "\<And>x F A. ?wp (f x) F A" for f :: "_ \<Rightarrow> (preparation \<times> store_error option) prog" and F A
    unfolding wp_bind by (rule wp_conseq[OF Acquire_wp[OF assms(1,2)]]) (use that in auto)
  have look: "?wp (bindP (Lookup env cc lookup) f) F A" if "\<And>x F A. ?wp (f x) F A" for f :: "_ \<Rightarrow> (preparation \<times> store_error option) prog" and F A
    unfolding wp_bind by (rule wp_quiet[OF quiet_Lookup]) (rule that)
  have ctx: "?wp (bindP validContext f) F A" if "\<And>x F A. ?wp (f x) F A" for f :: "_ \<Rightarrow> (preparation \<times> store_error option) prog" and F A
    unfolding wp_bind by (rule wp_quiet[OF quiet_validContext]) (rule that)
  show ?thesis unfolding Prepare_def Let_def
    by (auto intro!: ctx look acquire release split: sum.split option.split)
qed

section \<open>Any number of workers\<close>

datatype fill_result = AcquireResult fill_lease "fill_decision \<times> store_error option" | StartResult fill_lease "store_error + bool"
  | ReleaseResult fill_lease "store_error + unit" | CompleteResult fill_lease "store_error + unit" | PrepareResult fill_lease "preparation \<times> store_error option"

definition fill_calls :: "cloud_env \<Rightarrow> cache_codec \<Rightarrow> fill_lease set \<Rightarrow> gotime set \<Rightarrow> fill_completion set \<Rightarrow> fill_result prog set" where
  "fill_calls env cc Ls Ts Cs =
     {bindP (Acquire env cc l now) (\<lambda>x. Ret (AcquireResult l x)) | l now. l \<in> Ls \<and> now \<in> Ts}
     \<union> {bindP (Start env cc l now) (\<lambda>x. Ret (StartResult l x)) | l now. l \<in> Ls \<and> now \<in> Ts}
     \<union> {bindP (Release env cc l now) (\<lambda>x. Ret (ReleaseResult l x)) | l now. l \<in> Ls \<and> now \<in> Ts}
     \<union> {bindP (Complete_fill env cc l c) (\<lambda>x. Ret (CompleteResult l x)) | l c. l \<in> Ls \<and> c \<in> Cs}
     \<union> {bindP (Prepare (Lookup env cc) (Acquire env cc) (Release env cc) lookup l) (\<lambda>x. Ret (PrepareResult l x)) | l lookup. l \<in> Ls \<and> rl_Now lookup \<in> Ts}"

definition fill_post :: "cloud_env \<Rightarrow> cache_codec \<Rightarrow> response_key \<Rightarrow> fill_record set \<Rightarrow> facts \<Rightarrow> acks \<Rightarrow> fill_result \<Rightarrow> bool" where
  "fill_post env cc k R F A res \<longleftrightarrow> (case res of StartResult l x \<Rightarrow> start_post env cc k R l F A x | _ \<Rightarrow> True)"

lemma fill_calls_wp:
  assumes "fill_scope env cc k Ls Ts Cs" and "p \<in> fill_calls env cc Ls Ts Cs"
  shows "wp (fill_row env cc k) (fill_ok env cc k (fill_universe Ls Ts Cs)) (fill_post env cc k (fill_universe Ls Ts Cs)) p {} []"
proof -
  let ?R = "fill_universe Ls Ts Cs" and ?hk = "fill_row env cc k"
  consider l now where "p = bindP (Acquire env cc l now) (\<lambda>x. Ret (AcquireResult l x))" "l \<in> Ls" "now \<in> Ts"
    | l now where "p = bindP (Start env cc l now) (\<lambda>x. Ret (StartResult l x))" "l \<in> Ls" "now \<in> Ts"
    | l now where "p = bindP (Release env cc l now) (\<lambda>x. Ret (ReleaseResult l x))" "l \<in> Ls" "now \<in> Ts"
    | l c where "p = bindP (Complete_fill env cc l c) (\<lambda>x. Ret (CompleteResult l x))" "l \<in> Ls" "c \<in> Cs"
    | l lookup where "p = bindP (Prepare (Lookup env cc) (Acquire env cc) (Release env cc) lookup l) (\<lambda>x. Ret (PrepareResult l x))" "l \<in> Ls" "rl_Now lookup \<in> Ts"
    using assms(2) unfolding fill_calls_def by blast
  then show ?thesis
  proof cases
    case 1
    then show ?thesis using Acquire_wp[OF assms(1), of l] by (simp add: wp_bind fill_post_def)
  next
    case 2
    then show ?thesis using Start_wp[OF assms(1), of l now] by (simp add: wp_bind fill_post_def)
  next
    case 3
    then show ?thesis using finish_wp[OF assms(1), of l now] by (simp add: wp_bind fill_post_def Release_def valid_target_def)
  next
    case 4
    then have "fc_CompletedAt c \<in> Ts" using assms(1) by (simp add: fill_scope_def)
    then show ?thesis using 4 finish_wp[OF assms(1), of l "fc_CompletedAt c"] by (simp add: wp_bind fill_post_def Complete_fill_def valid_target_def)
  next
    case 5
    then show ?thesis using Prepare_wp[OF assms(1), of l lookup] by (simp add: wp_bind fill_post_def)
  qed
qed

text \<open>In a run of the state machine a started record is followed by its completion before the next one.\<close>

definition count_state :: "fill_state \<Rightarrow> fill_record list \<Rightarrow> nat" where
  "count_state s rs = length (filter (\<lambda>r. fr_State r = s) rs)"

lemma fill_run_balance:
  "fill_run prev rs \<Longrightarrow> count_state FillStarted rs + (case prev of Some r \<Rightarrow> if fr_State r = FillStarted then 1 else 0 | None \<Rightarrow> 0)
     \<le> count_state FillFinished rs + 1"
proof (induction rs arbitrary: prev)
  case Nil
  then show ?case by (auto simp: count_state_def split: option.split)
next
  case (Cons r rs)
  have IH: "count_state FillStarted rs + (if fr_State r = FillStarted then 1 else 0) \<le> count_state FillFinished rs + 1"
    using Cons.IH[of "Some r"] Cons.prems by simp
  have "fill_next prev r" using Cons.prems by simp
  then show ?case using IH by cases (auto simp: count_state_def)
qed

definition dispatching :: "response_key \<Rightarrow> fill_result prog \<times> acks \<Rightarrow> bool" where
  "dispatching k c \<longleftrightarrow> (case fst c of Ret (StartResult l (Inr True)) \<Rightarrow> le_Key l = k | _ \<Rightarrow> False)"

definition started_item :: "cloud_env \<Rightarrow> cache_codec \<Rightarrow> response_key \<Rightarrow> fill_record set \<Rightarrow> kv_item \<times> string \<Rightarrow> bool" where
  "started_item env cc k R x \<longleftrightarrow> (\<exists>r. names env cc k R (fst x) r \<and> fr_State r = FillStarted)"

lemma started_items:
  assumes "fill_laws env cc k R" and "list_all2 (\<lambda>(it, v) r. names env cc k R it r) l rs"
  shows "length (filter (started_item env cc k R) l) = count_state FillStarted rs"
  using assms(2)
proof (induction rule: list_all2_induct)
  case Nil
  then show ?case by (simp add: count_state_def)
next
  case (Cons x l r rs)
  have n: "names env cc k R (fst x) r" using Cons.hyps(1) by (cases x) simp
  then have "started_item env cc k R x \<longleftrightarrow> fr_State r = FillStarted"
    unfolding started_item_def using names_unique[OF assms(1) n] by blast
  then show ?case using Cons.IH by (simp add: count_state_def)
qed

lemma length_filter_concat: "(\<And>x. x \<in> set xs \<Longrightarrow> P x \<Longrightarrow> g x \<noteq> []) \<Longrightarrow> length (filter P xs) \<le> length (concat (map g xs))"
proof (induction xs)
  case (Cons x xs)
  have "length (filter P xs) \<le> length (concat (map g xs))" using Cons by simp
  moreover have "P x \<Longrightarrow> 1 \<le> length (g x)" using Cons.prems[of x] by (cases "g x") auto
  ultimately show ?case by auto
qed simp

lemma dispatching_started:
  assumes "fill_laws env cc k R" and "clients_ok (fill_row env cc k) ok (fill_post env cc k R) l cs"
    and "list_all2 (\<lambda>(it, v) r. names env cc k R it r) l rs"
  shows "length (filter (dispatching k) cs) \<le> count_state FillStarted rs"
proof -
  let ?hk = "fill_row env cc k" and ?S = "started_item env cc k R"
  let ?g = "\<lambda>c. filter ?S (row_acks ?hk (snd c))"
  have own: "?g c \<noteq> []" if mem: "c \<in> set cs" and disp: "dispatching k c" for c
  proof -
    obtain t A where c: "c = (Ret (StartResult t (Inr True)), A)" "le_Key t = k"
      using disp by (cases c) (auto simp: dispatching_def split: prog.splits fill_result.splits sum.splits bool.splits)
    have "\<exists>F. wp ?hk ok (fill_post env cc k R) (fst c) F (snd c)" using assms(2) mem unfolding clients_ok_def by blast
    then obtain it u r where "(it, u) \<in> set A" "ki_Key it = ?hk" "names env cc k R it r" "fr_State r = FillStarted"
      using c by (auto simp: fill_post_def start_post_def)
    then have "(it, u) \<in> set (?g c)" using c(1) by (auto simp: row_acks_def started_item_def)
    then show ?thesis by force
  qed
  have "length (filter (dispatching k) cs) \<le> length (concat (map ?g cs))" by (rule length_filter_concat) (rule own)
  also have "concat (map ?g cs) = filter ?S (concat (map (row_acks ?hk \<circ> snd) cs))" by (simp add: filter_concat comp_def)
  also have "length (filter ?S (concat (map (row_acks ?hk \<circ> snd) cs))) \<le> length (filter ?S l)"
  proof -
    let ?xs = "filter ?S (concat (map (row_acks ?hk \<circ> snd) cs))"
    have "distinct ?xs" "set ?xs \<subseteq> set (filter ?S l)" using assms(2) unfolding clients_ok_def by auto
    then have "length ?xs \<le> card (set (filter ?S l))" by (metis card_mono distinct_card finite_set)
    then show ?thesis using card_length[of "filter ?S l"] by linarith
  qed
  also have "\<dots> = count_state FillStarted rs" by (rule started_items[OF assms(1,3)])
  finally show ?thesis .
qed

end
