(* ===== verification/Cloud_Fill_Runs.thy ===== *)
theory Cloud_Fill_Runs
  imports Cloud_Fill_Facts
begin

text \<open>
  Runs of the fill protocol: what every run of any number of workers guarantees, a schedule that dispatches, and one in which a finished
  attempt is started a second time.
\<close>

section \<open>A small instance\<close>

definition fdemo_key :: response_key where
  "fdemo_key = \<lparr>rk_ScopeID = ''s'', rk_Operation = OperationGenerate,
     rk_Route = \<lparr>ri_Provider = ''p'', ri_Endpoint = ''e'', ri_Account = [], ri_Region = [], ri_Model = ''m'', ri_Revision = ''r'', ri_Compiler = ''c''\<rparr>,
     rk_Fingerprint = replicate 32 CHR ''f'', rk_RequestIndex = 0\<rparr>"

definition fdemo_lease :: "string \<Rightarrow> gotime \<Rightarrow> gotime \<Rightarrow> fill_lease" where
  "fdemo_lease attempt acquired expires = \<lparr>le_Key = fdemo_key, le_OperationID = ''o'', le_Attempt = attempt, le_AcquiredAt = acquired, le_ExpiresAt = expires\<rparr>"

definition lease_a :: fill_lease where "lease_a = fdemo_lease ''a'' 1 20"
definition lease_b :: fill_lease where "lease_b = fdemo_lease ''b'' 2 20"

definition fdemo_completion :: fill_completion where
  "fdemo_completion = \<lparr>fc_Outcome = FillFailed, fc_EntryID = [], fc_CompletedAt = 4\<rparr>"

definition fdemo_times :: "gotime list" where "fdemo_times = [3, 4, 6]"

abbreviation fdemo_records :: "fill_record set" where
  "fdemo_records \<equiv> fill_universe {lease_a, lease_b} (set fdemo_times) {fdemo_completion}"

definition fdemo_fill :: "fill_record \<Rightarrow> string" where
  "fdemo_fill r = [(case fr_State r of FillHeld \<Rightarrow> CHR ''h'' | FillStarted \<Rightarrow> CHR ''s'' | FillReleased \<Rightarrow> CHR ''r'' | FillFinished \<Rightarrow> CHR ''f''),
     char_of (fr_UpdatedAt r), hd (le_Attempt (fr_Lease r)), (if fc_Outcome (fr_Completion r) = NoOutcome then CHR ''-'' else CHR ''+'')]"

definition fdemo_record :: "char \<Rightarrow> char \<Rightarrow> char \<Rightarrow> char \<Rightarrow> fill_record" where
  "fdemo_record s t a c =
     \<lparr>fr_Lease = (if a = CHR ''a'' then lease_a else lease_b),
      fr_State = (if s = CHR ''h'' then FillHeld else if s = CHR ''s'' then FillStarted else if s = CHR ''r'' then FillReleased else FillFinished),
      fr_UpdatedAt = of_char t, fr_Completion = (if c = CHR ''-'' then no_completion else fdemo_completion)\<rparr>"

definition fdemo_valid :: "fill_record \<Rightarrow> string \<Rightarrow> bool" where
  "fdemo_valid r d \<longleftrightarrow> fdemo_fill r = d \<and> List.member (le_AcquiredAt (fr_Lease r) # fdemo_times) (fr_UpdatedAt r)"

definition fdemo_parse :: "string \<Rightarrow> fill_record option" where
  "fdemo_parse d = (case d of [s, t, a, c] \<Rightarrow> (let r = fdemo_record s t a c in if fdemo_valid r d then Some r else None) | _ \<Rightarrow> None)"

text \<open>A digest that ends in the data keeps different records apart, and a cipher that opens nothing else than their encodings authenticates.\<close>

definition fdemo_env :: cloud_env where
  "fdemo_env = \<lparr>cv_namespace = ''n'', cv_secret = [], cv_hmac = tail_digest, cv_seal = (\<lambda>n d k. d),
     cv_open = (\<lambda>n c k. if fdemo_parse c \<noteq> None then Some c else None), cv_nonceSize = 1, cv_overhead = 0, cv_canonical = Inr\<rparr>"

definition fdemo_codec :: cache_codec where
  "fdemo_codec = \<lparr>cc_key = rk_ScopeID, cc_strings = concat, cc_attempt = (\<lambda>k a. rk_ScopeID k @ a), cc_pointer = (\<lambda>p. pt_Blob p @ pt_Stream p),
     cc_readPointer = (\<lambda>s. Some \<lparr>pt_Version = 1, pt_Blob = take 74 s, pt_Stream = drop 74 s\<rparr>), cc_fill = (\<lambda>r. Some (fdemo_fill r)),
     cc_readFill = (\<lambda>d. map_option (Pair 1) (fdemo_parse d)), cc_entry = (\<lambda>_. None), cc_readEntry = (\<lambda>_. None),
     cc_use = (\<lambda>_. []), cc_readUse = (\<lambda>_. None), cc_response = (\<lambda>_ _. None)\<rparr>"

lemma fdemo_parse_records:
  assumes "fdemo_parse d = Some r"
  shows "r \<in> fdemo_records \<and> fdemo_fill r = d"
proof -
  obtain s t a c where "r = fdemo_record s t a c" "fdemo_valid r d"
    using assms by (auto simp: fdemo_parse_def Let_def simp del: List.member_iff split: list.splits if_splits)
  then show ?thesis by (simp add: fdemo_valid_def fill_universe_def fdemo_record_def)
qed

lemma fdemo_read: "\<forall>r \<in> fdemo_records. cc_readFill fdemo_codec (fdemo_fill r) = Some (1, r)"
proof
  fix r assume "r \<in> fdemo_records"
  then have r: "fr_Lease r \<in> {lease_a, lease_b}" "fr_UpdatedAt r \<in> set (le_AcquiredAt (fr_Lease r) # fdemo_times)" "fr_Completion r \<in> {no_completion, fdemo_completion}"
    by (auto simp: fill_universe_def)
  obtain s t a c where f: "fdemo_fill r = [s, t, a, c]" and s: "s = (case fr_State r of FillHeld \<Rightarrow> CHR ''h'' | FillStarted \<Rightarrow> CHR ''s'' | FillReleased \<Rightarrow> CHR ''r'' | FillFinished \<Rightarrow> CHR ''f'')"
    and t: "t = char_of (fr_UpdatedAt r)" and a: "a = hd (le_Attempt (fr_Lease r))" and c: "c = (if fc_Outcome (fr_Completion r) = NoOutcome then CHR ''-'' else CHR ''+'')"
    by (simp add: fdemo_fill_def)
  have "(if a = CHR ''a'' then lease_a else lease_b) = fr_Lease r" using r(1) a by (auto simp: lease_a_def lease_b_def fdemo_lease_def)
  moreover have "(if s = CHR ''h'' then FillHeld else if s = CHR ''s'' then FillStarted else if s = CHR ''r'' then FillReleased else FillFinished) = fr_State r"
    using s by (cases "fr_State r") auto
  moreover have "of_char t = fr_UpdatedAt r" using r(1,2) t by (auto simp: lease_a_def lease_b_def fdemo_lease_def fdemo_times_def)
  moreover have "(if c = CHR ''-'' then no_completion else fdemo_completion) = fr_Completion r"
    using r(3) c by (auto simp: fdemo_completion_def no_completion_def)
  ultimately have "fdemo_record s t a c = r" by (simp add: fdemo_record_def)
  then have "fdemo_parse (fdemo_fill r) = Some r" using f r(2) by (simp add: fdemo_parse_def fdemo_valid_def)
  then show "cc_readFill fdemo_codec (fdemo_fill r) = Some (1, r)" by (simp add: fdemo_codec_def)
qed

lemma fdemo_pointers: "length (blobKey fdemo_env stream d) = 74"
  by (simp add: blobKey_def cloud_digest_def derive_def fdemo_env_def)

lemma fdemo_inj: "inj_on (blobKey fdemo_env stream) (fdemo_fill ` fdemo_records)"
proof (rule inj_onI)
  fix d d' assume "d \<in> fdemo_fill ` fdemo_records" "d' \<in> fdemo_fill ` fdemo_records" and eq: "blobKey fdemo_env stream d = blobKey fdemo_env stream d'"
  then have l: "length d = 4" "length d' = 4" by (auto simp: fdemo_fill_def)
  let ?m = "''llmtw/cloudstate/v1/'' @ (''payload/'' @ stream) @ [CHR 0x00]"
  have "hex_encode (tail_digest [] (?m @ d)) = hex_encode (tail_digest [] (?m @ d'))"
    using eq by (simp add: blobKey_def cloud_digest_def derive_def fdemo_env_def)
  from hex_encode_inj[OF this] have "rev d = rev d'" using tail_digest_end[of d "[]" ?m] tail_digest_end[of d' "[]" ?m] l by simp
  then show "d = d'" by simp
qed

lemma fdemo_keys: "\<forall>r \<in> fdemo_records. le_Key (fr_Lease r) = fdemo_key"
  by (auto simp: fill_universe_def lease_a_def lease_b_def fdemo_lease_def)

lemma fdemo_scope: "fill_scope fdemo_env fdemo_codec fdemo_key {lease_a, lease_b} (set fdemo_times) {fdemo_completion}"
proof -
  have sealed: "sealed_fills fdemo_codec fdemo_key (fdemo_records) = fdemo_fill ` fdemo_records"
    using fdemo_keys by (auto simp: sealed_fills_def fdemo_codec_def)
  have auth: "authentic fdemo_env (fst (fill_row fdemo_env fdemo_codec fdemo_key)) (fdemo_fill ` fdemo_records)"
  proof -
    have "opens fdemo_env stream key d \<Longrightarrow> d \<in> fdemo_fill ` fdemo_records" for stream key d
      using fdemo_parse_records by (auto simp: opens_def fdemo_env_def split: if_splits)
    then show ?thesis unfolding authentic_def using fdemo_inj by blast
  qed
  have roundtrip: "cc_readPointer fdemo_codec (cc_pointer fdemo_codec p) = Some p" if "pt_Version p = 1" "length (pt_Blob p) = 74" for p
    using that by (cases p) (simp add: fdemo_codec_def)
  have ptr: "\<forall>d \<in> fdemo_fill ` fdemo_records. let p = fill_pointer fdemo_env (fill_row fdemo_env fdemo_codec fdemo_key) d in
      cc_readPointer fdemo_codec (cc_pointer fdemo_codec p) = Some p"
    unfolding Let_def by (intro ballI roundtrip) (simp_all add: fill_pointer_def fdemo_pointers)
  have "fill_laws fdemo_env fdemo_codec fdemo_key (fdemo_records)"
    unfolding fill_laws_def sealed using fdemo_read auth ptr by (simp add: fdemo_codec_def)
  then show ?thesis unfolding fill_scope_def
    by (simp add: lease_a_def lease_b_def fdemo_lease_def fdemo_completion_def fdemo_times_def)
qed

definition acquiring :: "fill_lease \<Rightarrow> gotime \<Rightarrow> fill_result prog" where
  "acquiring l t = bindP (Acquire fdemo_env fdemo_codec l t) (\<lambda>x. Ret (AcquireResult l x))"

definition starting :: "fill_lease \<Rightarrow> gotime \<Rightarrow> fill_result prog" where
  "starting l t = bindP (Start fdemo_env fdemo_codec l t) (\<lambda>x. Ret (StartResult l x))"

definition releasing :: "fill_lease \<Rightarrow> gotime \<Rightarrow> fill_result prog" where
  "releasing l t = bindP (Release fdemo_env fdemo_codec l t) (\<lambda>x. Ret (ReleaseResult l x))"

definition completing :: "fill_lease \<Rightarrow> fill_completion \<Rightarrow> fill_result prog" where
  "completing l c = bindP (Complete_fill fdemo_env fdemo_codec l c) (\<lambda>x. Ret (CompleteResult l x))"

abbreviation fdemo_calls :: "fill_result prog set" where
  "fdemo_calls \<equiv> fill_calls fdemo_env fdemo_codec {lease_a, lease_b} (set fdemo_times) {fdemo_completion}"

text \<open>One worker acquires the fill and starts it; the second start of the lease and the other attempt are refused.\<close>

definition fdemo_dispatch :: "fill_result action list" where
  "fdemo_dispatch = [Spawn (acquiring lease_a 3), Run 0 200, Spawn (starting lease_a 3), Run 1 200, Spawn (starting lease_a 4), Run 2 200, Spawn (acquiring lease_b 4), Run 3 200]"

abbreviation fdemo_run :: "memory \<times> (fill_result prog \<times> acks) list" where
  "fdemo_run \<equiv> exec 1 fdemo_dispatch (empty_memory, [])"

lemma fdemo_reachable: "(system_step (memory_storage 1) fdemo_calls)\<^sup>*\<^sup>* (empty_memory, []) (fst fdemo_run, snd fdemo_run)"
proof -
  have "set (spawned fdemo_dispatch) \<subseteq> fdemo_calls"
    by (simp add: fdemo_dispatch_def fill_calls_def acquiring_def starting_def fdemo_times_def) blast
  then show ?thesis using exec_system[of fdemo_dispatch fdemo_calls 1 "(empty_memory, [])"] by simp
qed

abbreviation fdemo_started :: fill_record where
  "fdemo_started \<equiv> \<lparr>fr_Lease = lease_a, fr_State = FillStarted, fr_UpdatedAt = 3, fr_Completion = no_completion\<rparr>"

abbreviation fdemo_row :: kv_key where
  "fdemo_row \<equiv> fill_row fdemo_env fdemo_codec fdemo_key"

definition fdemo_pointer :: "kv_item \<Rightarrow> cache_pointer option" where
  "fdemo_pointer it = Option.bind (mget (ki_Fields it) ''cache'') (cc_readPointer fdemo_codec)"

definition fdemo_history :: "memory \<Rightarrow> fill_record list \<Rightarrow> bool" where
  "fdemo_history w rs \<longleftrightarrow> list_all (\<lambda>r. fdemo_parse (fdemo_fill r) = Some r) rs
     \<and> map (fdemo_pointer \<circ> fst) (me_history w fdemo_row) = map (Some \<circ> fill_pointer fdemo_env fdemo_row \<circ> fdemo_fill) rs"

lemma fdemo_names:
  assumes "fdemo_history w rs"
  shows "row_values (names fdemo_env fdemo_codec fdemo_key fdemo_records) (me_history w fdemo_row) rs"
proof -
  have "names fdemo_env fdemo_codec fdemo_key (fdemo_records) it r"
    if "fdemo_pointer it = Some (fill_pointer fdemo_env fdemo_row (fdemo_fill r))" "r \<in> fdemo_records" for it r
    using that fdemo_keys by (auto simp: names_def holds_pointer_def fdemo_pointer_def Option.bind_eq_Some_conv fdemo_codec_def)
  moreover have "length (me_history w fdemo_row) = length rs" using assms unfolding fdemo_history_def by (metis length_map)
  moreover have "fdemo_pointer (fst (me_history w fdemo_row ! i)) = Some (fill_pointer fdemo_env fdemo_row (fdemo_fill (rs ! i)))" if "i < length rs" for i
    using assms that calculation(2) unfolding fdemo_history_def by (metis (no_types, lifting) comp_apply nth_map)
  moreover have "rs ! i \<in> fdemo_records" if "i < length rs" for i
    using assms that by (auto simp: fdemo_history_def list_all_length dest: fdemo_parse_records)
  ultimately show ?thesis by (simp add: list_all2_conv_all_nth case_prod_beta)
qed

section \<open>What every run guarantees\<close>

text \<open>C10: a fill row is a run of the fill state machine. However many workers acquire, start, release and complete fills of any keys, with any interleaving of
  their storage calls, failed calls and lost acknowledgements, the contents that the row of a key takes are, in order, a run of
  the machine: a fill is created held, a held fill is started or released by its own lease or taken over by a later attempt, a
  started fill only ever becomes finished, and an ended fill is succeeded only by another attempt.\<close>

theorem fill_row_runs_machine:
  assumes "versioned_table st log sound" and "sound w0" and "fill_scope env cc k Ls Ts Cs" and "log w0 (fill_row env cc k) = []"
    and "(system_step st (fill_calls env cc Ls Ts Cs))\<^sup>*\<^sup>* (w0, []) (w, cs)"
  shows "\<exists>rs. row_values (names env cc k (fill_universe Ls Ts Cs)) (log w (fill_row env cc k)) rs \<and> fill_run None rs"
proof -
  have laws: "fill_laws env cc k (fill_universe Ls Ts Cs)" using assms(3) by (simp add: fill_scope_def)
  have "clients_ok (fill_row env cc k) (fill_ok env cc k (fill_universe Ls Ts Cs)) (fill_post env cc k (fill_universe Ls Ts Cs)) (log w (fill_row env cc k)) cs"
    using versioned_table.system_ok[OF assms(1,2,5,4)] fill_calls_wp[OF assms(3)] by blast
  then show ?thesis using clients_ok_runs[OF _ names_one_value[OF laws]] by blast
qed

theorem fill_row_runs_machine_witness:
  "\<exists>rs. row_values (names fdemo_env fdemo_codec fdemo_key fdemo_records)
     (me_history (fst fdemo_run) fdemo_row) rs \<and> fill_run None rs"
  by (rule fill_row_runs_machine[OF memory_table.versioned_table_axioms empty_memory_sound(1) fdemo_scope empty_memory_sound(2) fdemo_reachable])


text \<open>C9: at most one paid dispatch of a key is unresolved. Only a \<^verbatim>\<open>Start\<close> that answers true may dispatch; in every run of any number of workers, the number of starts
  of a key that answered true is at most one more than the number of completions committed for it, so that a second worker is
  never told to dispatch while an earlier dispatch is unresolved, whatever calls fail or lose their acknowledgement.\<close>

theorem one_dispatch_at_a_time:
  assumes "versioned_table st log sound" and "sound w0" and "fill_scope env cc k Ls Ts Cs" and "log w0 (fill_row env cc k) = []"
    and "(system_step st (fill_calls env cc Ls Ts Cs))\<^sup>*\<^sup>* (w0, []) (w, cs)"
    and "row_values (names env cc k (fill_universe Ls Ts Cs)) (log w (fill_row env cc k)) rs"
  shows "length (filter (dispatching k) cs) \<le> count_state FillFinished rs + 1"
proof -
  have laws: "fill_laws env cc k (fill_universe Ls Ts Cs)" using assms(3) by (simp add: fill_scope_def)
  have ok: "clients_ok (fill_row env cc k) (fill_ok env cc k (fill_universe Ls Ts Cs)) (fill_post env cc k (fill_universe Ls Ts Cs)) (log w (fill_row env cc k)) cs"
    using versioned_table.system_ok[OF assms(1,2,5,4)] fill_calls_wp[OF assms(3)] by blast
  obtain rs' where rs': "row_values (names env cc k (fill_universe Ls Ts Cs)) (log w (fill_row env cc k)) rs'" "fill_run None rs'"
    using clients_ok_runs[OF ok names_one_value[OF laws]] by blast
  have "rs = rs'" by (rule row_values_unique[OF names_one_value[OF laws] assms(6) rs'(1)])
  then show ?thesis using dispatching_started[OF laws ok assms(6)] fill_run_balance[OF rs'(2)] by simp
qed

theorem one_dispatch_at_a_time_witness:
  "length (filter (dispatching fdemo_key) (snd fdemo_run)) = 1 \<and> length (filter (dispatching fdemo_key) (snd fdemo_run)) \<le> count_state FillFinished [held lease_a, fdemo_started] + 1"
proof
  have h: "fdemo_history (fst fdemo_run) [held lease_a, fdemo_started]" by code_simp
  show "length (filter (dispatching fdemo_key) (snd fdemo_run)) \<le> count_state FillFinished [held lease_a, fdemo_started] + 1"
    by (rule one_dispatch_at_a_time[OF memory_table.versioned_table_axioms empty_memory_sound(1) fdemo_scope empty_memory_sound(2) fdemo_reachable fdemo_names[OF h]])
qed code_simp

text \<open>A worker is delayed in \<^verbatim>\<open>Acquire\<close> after it found no receipt of its attempt.\<close>

definition fdemo_delay :: "fill_result action list" where
  "fdemo_delay = [Spawn (acquiring lease_a 3), Run 0 2, Spawn (acquiring lease_a 3), Run 1 200, Spawn (starting lease_a 3), Run 2 200,
     Spawn (completing lease_a fdemo_completion), Run 3 200, Spawn (acquiring lease_b 4), Run 4 200, Spawn (releasing lease_b 6), Run 5 200,
     Run 0 200, Spawn (starting lease_a 6), Run 6 200]"

definition dispatched :: "fill_lease \<Rightarrow> (fill_result prog \<times> acks) list \<Rightarrow> nat" where
  "dispatched l cs = length (filter (\<lambda>c. case fst c of Ret (StartResult l' (Inr True)) \<Rightarrow> l' = l | _ \<Rightarrow> False) cs)"

text \<open>C38: a finished attempt can be acquired and dispatched again. \<^verbatim>\<open>Acquire\<close> looks for the attempt's receipt only once, before its loop. A worker whose call is
  delayed after that look, while the attempt is started, completed and succeeded by another attempt that is released, then
  acquires the finished attempt again, and a second \<^verbatim>\<open>Start\<close> of the same lease answers true.\<close>

theorem finished_attempt_restarts:
  "\<exists>w cs. (system_step (memory_storage 1) fdemo_calls)\<^sup>*\<^sup>* (empty_memory, []) (w, cs) \<and> dispatched lease_a cs = 2"
proof -
  let ?s = "exec 1 fdemo_delay (empty_memory, [])"
  have "set (spawned fdemo_delay) \<subseteq> fdemo_calls"
    by (simp add: fdemo_delay_def fill_calls_def acquiring_def starting_def completing_def releasing_def fdemo_times_def) blast
  then have "(system_step (memory_storage 1) fdemo_calls)\<^sup>*\<^sup>* (empty_memory, []) (fst ?s, snd ?s)" using exec_system[of fdemo_delay fdemo_calls 1 "(empty_memory, [])"] by simp
  moreover have "dispatched lease_a (snd ?s) = 2" by code_simp
  ultimately show ?thesis by blast
qed

end
