(* ===== verification/Checkpoint_Port.thy ===== *)
theory Checkpoint_Port
  imports Continuation
begin

text \<open>
  The storage-neutral checkpoint contract, \<^verbatim>\<open>state/checkpoint_port.go\<close>: the durable checkpoint, its validation and the digest that
  decides whether two publications are the same. A slice is a list, so that a nil and an empty slice are one value, as \<^verbatim>\<open>CanonicalDigest\<close>
  treats them; times are instants, and a 32-byte array is a byte string. Where the code ranges over a Go map of named blobs or digests, so that which of
  several errors it reports is random, the first in source order is reported.
\<close>

section \<open>Data\<close>

definition CheckpointGeneration :: string where "CheckpointGeneration = ''generation''"
definition CheckpointCompaction :: string where "CheckpointCompaction = ''compaction''"
definition CheckpointCacheReplay :: string where "CheckpointCacheReplay = ''cache_replay''"

record blob_reference =
  bl_ID :: string
  bl_Digest :: string
  bl_ByteLength :: int
  bl_MediaType :: string

record provider_state =
  ps_Ordinal :: int
  ps_Provider :: string
  ps_EndpointID :: string
  ps_EndpointAccountHMAC :: string
  ps_Region :: string
  ps_EndpointFamily :: string
  ps_ModelLineage :: string
  ps_StateKind :: string
  ps_StateBlob :: blob_reference
  ps_StateDigest :: string
  ps_Required :: bool
  ps_ImmutableForkSafe :: bool
  ps_CreatedAt :: gotime
  ps_ExpiresAt :: "gotime option"

record provenance =
  pv_Ordinal :: int
  pv_Provider :: string
  pv_EndpointID :: string
  pv_EndpointFamily :: string
  pv_ModelLineage :: string
  pv_Account :: string

record durable_checkpoint =
  dc_ID :: string
  dc_ScopeID :: string
  dc_PublicIDHMAC :: string
  dc_HandleKeyID :: string
  dc_ParentID :: "string option"
  dc_Kind :: string
  dc_Depth :: int
  dc_OriginOperationID :: string
  dc_OriginCacheEntryID :: "string option"
  dc_DeltaBlob :: blob_reference
  dc_ResponseBlob :: blob_reference
  dc_SettingsPatchBlob :: blob_reference
  dc_MaterializedSnapshotBlob :: "blob_reference option"
  dc_CanonicalLineageDigest :: string
  dc_MaterializedSettingsDigest :: string
  dc_ToolFrontierDigest :: string
  dc_SchemaVersion :: int
  dc_CompilerEpoch :: string
  dc_CompactionPolicyVersion :: "string option"
  dc_CompactionPromptVersion :: "string option"
  dc_CompactedThroughID :: "string option"
  dc_ProviderState :: "provider_state list"
  dc_Affinities :: "affinity list"
  dc_Provenance :: "provenance list"
  dc_CreatedAt :: gotime
  dc_ExpiresAt :: gotime

section \<open>Validation\<close>

datatype port_error = BlobIDRequired | BlobDigestRequired | BlobLengthNegative | BlobMediaRequired
  | StateOrdinalNegative | StateFieldRequired | StateAccountRequired | StateDigestRequired | StateNoCreated | StateBadExpiry | StateOrdinalDuplicate
  | ProvenanceOrdinals | ProvenanceFields | CheckpointIdentity | CheckpointNoHMAC | CheckpointNoKey | CheckpointBadKind | CheckpointBadDepth
  | CheckpointParentEmpty | CheckpointOwnParent | CheckpointNoOperation | CheckpointEntryEmpty | CheckpointReplayOrigin | CheckpointNoDigest
  | CheckpointNoSchema | CheckpointTimes | CheckpointAffinity state_error

definition BlobReference_validate :: "blob_reference \<Rightarrow> port_error option" where
  "BlobReference_validate r =
     (if bl_ID r = [] then Some BlobIDRequired
      else if bl_Digest r = zero32 then Some BlobDigestRequired
      else if bl_ByteLength r < 0 then Some BlobLengthNegative
      else if TrimSpace (bl_MediaType r) = [] then Some BlobMediaRequired
      else None)"

definition blank :: "string \<Rightarrow> bool" where
  "blank s \<longleftrightarrow> TrimSpace s = []"

definition ProviderState_validate :: "provider_state \<Rightarrow> port_error option" where
  "ProviderState_validate s =
     (if ps_Ordinal s < 0 then Some StateOrdinalNegative
      else if list_ex blank [ps_Provider s, ps_EndpointID s, ps_Region s, ps_EndpointFamily s, ps_ModelLineage s, ps_StateKind s] then Some StateFieldRequired
      else if ps_EndpointAccountHMAC s = zero32 then Some StateAccountRequired
      else case BlobReference_validate (ps_StateBlob s) of
             Some e \<Rightarrow> Some e
           | None \<Rightarrow>
               if ps_StateDigest s = zero32 then Some StateDigestRequired
               else if IsZero (ps_CreatedAt s) then Some StateNoCreated
               else (case ps_ExpiresAt s of None \<Rightarrow> None | Some x \<Rightarrow> if \<not> x > ps_CreatedAt s then Some StateBadExpiry else None))"

fun check_provenance :: "int \<Rightarrow> provenance list \<Rightarrow> port_error option" where
  "check_provenance previous [] = None"
| "check_provenance previous (v # vs) =
     (if pv_Ordinal v \<le> previous then Some ProvenanceOrdinals
      else if blank (pv_Provider v) \<or> blank (pv_EndpointID v) \<or> blank (pv_EndpointFamily v) \<or> blank (pv_ModelLineage v) then Some ProvenanceFields
      else check_provenance (pv_Ordinal v) vs)"

definition ValidateProviderStateProvenance :: "provenance list \<Rightarrow> port_error option" where
  "ValidateProviderStateProvenance vs = check_provenance (- 1) vs"

definition Provenance_Pinning :: "provenance \<Rightarrow> pinning" where
  "Provenance_Pinning v = \<lparr>pn_Provider = pv_Provider v, pn_EndpointID = pv_EndpointID v, pn_AccountRegion = pv_Account v, pn_Family = pv_EndpointFamily v, pn_ModelLineage = pv_ModelLineage v\<rparr>"

fun check_states :: "int list \<Rightarrow> provider_state list \<Rightarrow> port_error option" where
  "check_states seen [] = None"
| "check_states seen (s # ss) =
     (case ProviderState_validate s of
        Some e \<Rightarrow> Some e
      | None \<Rightarrow> if ps_Ordinal s \<in> set seen then Some StateOrdinalDuplicate else check_states (ps_Ordinal s # seen) ss)"

text \<open>\<^verbatim>\<open>DurableCheckpoint.Validate\<close>; its first part, up to the blobs, is what identifies the checkpoint.\<close>

definition identity_error :: "durable_checkpoint \<Rightarrow> port_error option" where
  "identity_error c =
     (if dc_ID c = [] \<or> blank (dc_ScopeID c) then Some CheckpointIdentity
      else if dc_PublicIDHMAC c = zero32 then Some CheckpointNoHMAC
      else if blank (dc_HandleKeyID c) then Some CheckpointNoKey
      else if dc_Kind c \<notin> {CheckpointGeneration, CheckpointCompaction, CheckpointCacheReplay} then Some CheckpointBadKind
      else if dc_Depth c < 0 \<or> (dc_ParentID c = None) \<noteq> (dc_Depth c = 0) then Some CheckpointBadDepth
      else if dc_ParentID c = Some [] then Some CheckpointParentEmpty
      else if dc_ParentID c = Some (dc_ID c) then Some CheckpointOwnParent
      else if dc_OriginOperationID c = [] then Some CheckpointNoOperation
      else if dc_OriginCacheEntryID c = Some [] then Some CheckpointEntryEmpty
      else if dc_Kind c = CheckpointCacheReplay \<and> dc_OriginCacheEntryID c = None then Some CheckpointReplayOrigin
      else None)"

definition DurableCheckpoint_Validate :: "durable_checkpoint \<Rightarrow> port_error option" where
  "DurableCheckpoint_Validate c =
     orElse (identity_error c)
    (orElse (firstErr BlobReference_validate ([dc_DeltaBlob c, dc_ResponseBlob c, dc_SettingsPatchBlob c] @ (case dc_MaterializedSnapshotBlob c of None \<Rightarrow> [] | Some b \<Rightarrow> [b])))
    (if zero32 \<in> set [dc_CanonicalLineageDigest c, dc_MaterializedSettingsDigest c, dc_ToolFrontierDigest c] then Some CheckpointNoDigest
     else if dc_SchemaVersion c \<le> 0 \<or> blank (dc_CompilerEpoch c) then Some CheckpointNoSchema
     else if IsZero (dc_CreatedAt c) \<or> IsZero (dc_ExpiresAt c) \<or> \<not> dc_ExpiresAt c > dc_CreatedAt c then Some CheckpointTimes
     else orElse (check_states [] (dc_ProviderState c))
         (orElse (map_option CheckpointAffinity (AffinitySet_Validate (dc_Affinities c)))
                 (ValidateProviderStateProvenance (dc_Provenance c)))))"

section \<open>Digest\<close>

text \<open>\<open>encode\<close> is \<^verbatim>\<open>json.Marshal\<close> of the digest payload, \<open>canonical\<close> the JSON canonicalizer and \<open>sha\<close> SHA-256.\<close>

definition CanonicalDigest :: "(durable_checkpoint \<Rightarrow> string option) \<Rightarrow> (string \<Rightarrow> string option) \<Rightarrow> (string \<Rightarrow> string) \<Rightarrow> durable_checkpoint \<Rightarrow> string option" where
  "CanonicalDigest encode canonical sha c =
     (if DurableCheckpoint_Validate c \<noteq> None then None else map_option sha (Option.bind (encode c) canonical))"

section \<open>What validation gives\<close>

lemma check_provenance_None:
  "check_provenance p vs = None \<longleftrightarrow> sorted_wrt (<) (p # map pv_Ordinal vs)
     \<and> (\<forall>v \<in> set vs. \<not> blank (pv_Provider v) \<and> \<not> blank (pv_EndpointID v) \<and> \<not> blank (pv_EndpointFamily v) \<and> \<not> blank (pv_ModelLineage v))"
  by (induction p vs rule: check_provenance.induct) (auto simp: less_trans not_le intro: less_trans)

text \<open>Accepted provenance names each transcript item at most once, in order, and each of its pins is complete.\<close>

lemma TrimSpace_blank [simp]: "blank []"
  by code_simp

lemma provenance_pins:
  assumes "ValidateProviderStateProvenance vs = None"
  shows "sorted_wrt (<) (map pv_Ordinal vs) \<and> (\<forall>v \<in> set vs. 0 \<le> pv_Ordinal v \<and> ValidatePinning (Provenance_Pinning v) = None)"
  using assms unfolding ValidateProviderStateProvenance_def check_provenance_None
  by (auto simp: ValidatePinning_def Provenance_Pinning_def)

lemma check_states_None:
  "check_states seen ss = None \<longleftrightarrow> (\<forall>s \<in> set ss. ProviderState_validate s = None) \<and> distinct (map ps_Ordinal ss) \<and> set seen \<inter> ps_Ordinal ` set ss = {}"
  by (induction seen ss rule: check_states.induct) (auto split: option.split)

end
