(* ===== verification/Cloud_Checkpoint.thy ===== *)
theory Cloud_Checkpoint
  imports Cloud_Base Checkpoint_Port
begin

text \<open>
  Durable checkpoints over cloud storage, \<^verbatim>\<open>storage/cloudstate/checkpoint.go\<close> and \<^verbatim>\<open>checkpoint_blob.go\<close>. The row of the origin operation is the
  publication point: rows for the ID and the handle reserve those names first. \<open>checkpoint_codec\<close> holds the JSON encodings and SHA-256.
\<close>

record checkpoint_pointer =
  kp_Version :: int
  kp_Blob :: string
  kp_Operation :: string
  kp_Handle :: string

record checkpoint_codec =
  kc_strings :: "string list \<Rightarrow> string"
  kc_pointer :: "checkpoint_pointer \<Rightarrow> string"
  kc_readPointer :: "string \<Rightarrow> checkpoint_pointer option"
  kc_envelope :: "durable_checkpoint \<Rightarrow> string option"
  kc_readEnvelope :: "string \<Rightarrow> (int \<times> durable_checkpoint) option"
  kc_payload :: "durable_checkpoint \<Rightarrow> string option"
  kc_canonical :: "string \<Rightarrow> string option"
  kc_sha :: "string \<Rightarrow> string"
  kc_proof :: "string \<Rightarrow> string \<Rightarrow> string \<Rightarrow> string \<Rightarrow> int \<Rightarrow> string"

section \<open>Names\<close>

definition checkpointFormat :: int where "checkpointFormat = 1"

definition ck_identity :: "cloud_env \<Rightarrow> checkpoint_codec \<Rightarrow> string \<Rightarrow> string \<Rightarrow> string \<Rightarrow> string" where
  "ck_identity env kc scope kind v = cloud_digest env (''checkpoint/'' @ kind) (kc_strings kc [scope, v])"

definition ck_stream :: "cloud_env \<Rightarrow> checkpoint_codec \<Rightarrow> string \<Rightarrow> string \<Rightarrow> string" where
  "ck_stream env kc scope cid = ''checkpoint/'' @ ck_identity env kc scope ''id'' cid"

definition ck_row :: "cloud_env \<Rightarrow> string \<Rightarrow> string \<Rightarrow> kv_key" where
  "ck_row env kind tag = (cv_namespace env @ ''/checkpoint/'' @ kind @ ''/'' @ tag, ''v1'')"

definition ck_digest :: "checkpoint_codec \<Rightarrow> durable_checkpoint \<Rightarrow> string option" where
  "ck_digest kc c = CanonicalDigest (kc_payload kc) (kc_canonical kc) (kc_sha kc) c"

definition validateCloudCheckpoint :: "checkpoint_codec \<Rightarrow> durable_checkpoint \<Rightarrow> bool" where
  "validateCloudCheckpoint kc c \<longleftrightarrow> ck_digest kc c \<noteq> None \<and> safeText (dc_ScopeID c) 512 \<and> safeText (dc_ID c) 256 \<and> safeText (dc_OriginOperationID c) 4096"

definition checkpoint_pointer_of :: "cloud_env \<Rightarrow> checkpoint_codec \<Rightarrow> durable_checkpoint \<Rightarrow> string \<Rightarrow> checkpoint_pointer" where
  "checkpoint_pointer_of env kc c blob =
     \<lparr>kp_Version = checkpointFormat, kp_Blob = blob, kp_Operation = ck_identity env kc (dc_ScopeID c) ''operation'' (dc_OriginOperationID c),
      kp_Handle = ck_identity env kc (dc_ScopeID c) ''handle'' (hex_encode (dc_PublicIDHMAC c))\<rparr>"

section \<open>Pointers\<close>

definition decode_checkpoint_pointer :: "cloud_env \<Rightarrow> checkpoint_codec \<Rightarrow> kv_key \<Rightarrow> kv_row \<Rightarrow> store_error + checkpoint_pointer" where
  "decode_checkpoint_pointer env kc key row =
     (case mget (ki_Fields (kr_Item row)) ''checkpoint'' of
        None \<Rightarrow> Inl [ErrCorrupt]
      | Some data \<Rightarrow>
          if length data > 2048 \<or> ki_Key (kr_Item row) \<noteq> key \<or> kr_Version row = [] then Inl [ErrCorrupt]
          else case kc_readPointer kc data of
                 None \<Rightarrow> Inl [ErrCorrupt]
               | Some p \<Rightarrow>
                   if kp_Version p \<noteq> checkpointFormat \<or> \<not> validBlobKey env (kp_Blob p) \<or> \<not> hexDigest (kp_Operation p) \<or> \<not> hexDigest (kp_Handle p) then Inl [ErrCorrupt]
                   else Inr p)"

definition readCheckpointPointer :: "cloud_env \<Rightarrow> checkpoint_codec \<Rightarrow> kv_key \<Rightarrow> (store_error + checkpoint_pointer) prog" where
  "readCheckpointPointer env kc key = tryP (tableGet key) (\<lambda>row. Ret (decode_checkpoint_pointer env kc key row))"

definition checkpointItem :: "checkpoint_codec \<Rightarrow> kv_key \<Rightarrow> checkpoint_pointer \<Rightarrow> kv_item" where
  "checkpointItem kc key p = \<lparr>ki_Key = key, ki_Fields = [(''checkpoint'', kc_pointer kc p)]\<rparr>"

definition createPointer :: "cloud_env \<Rightarrow> checkpoint_codec \<Rightarrow> kv_key \<Rightarrow> checkpoint_pointer \<Rightarrow> (store_error + unit) prog" where
  "createPointer env kc key p =
     bindP (tableCreate (checkpointItem kc key p)) (\<lambda>r. case r of
       Inr _ \<Rightarrow> Ret (Inr ())
     | Inl e \<Rightarrow>
         if errIs e ErrOutcomeUnknown \<or> \<not> errIs e ErrAlreadyExists then failP e
         else tryP (readCheckpointPointer env kc key) (\<lambda>existing. if existing \<noteq> p then failP [ErrConflict] else Ret (Inr ())))"

section \<open>Reading\<close>

definition decode_checkpoint :: "cloud_env \<Rightarrow> checkpoint_codec \<Rightarrow> string \<Rightarrow> string \<Rightarrow> checkpoint_pointer \<Rightarrow> string \<Rightarrow> store_error + durable_checkpoint" where
  "decode_checkpoint env kc scope cid p data =
     (case kc_readEnvelope kc data of
        None \<Rightarrow> Inl [ErrCorrupt]
      | Some (version, c) \<Rightarrow>
          if version \<noteq> checkpointFormat \<or> dc_ScopeID c \<noteq> scope \<or> dc_ID c \<noteq> cid \<or> \<not> validateCloudCheckpoint kc c \<or> checkpoint_pointer_of env kc c (kp_Blob p) \<noteq> p
          then Inl [ErrCorrupt] else Inr c)"

definition CheckpointGet :: "cloud_env \<Rightarrow> checkpoint_codec \<Rightarrow> string \<Rightarrow> string \<Rightarrow> (store_error + durable_checkpoint) prog" where
  "CheckpointGet env kc scope cid =
     tryP validContext (\<lambda>_.
       if \<not> safeText scope 512 \<or> \<not> safeText cid 256 then failP [ErrInvalid]
       else tryP (readCheckpointPointer env kc (ck_row env ''id'' (ck_identity env kc scope ''id'' cid))) (\<lambda>p.
         tryP (readCheckpointPointer env kc (ck_row env ''operation'' (kp_Operation p))) (\<lambda>committed.
           if committed \<noteq> p then failP [ErrNotFound]
           else tryP (readReferencedBlob env (ck_stream env kc scope cid) (kp_Blob p)) (\<lambda>data.
             Ret (decode_checkpoint env kc scope cid p data)))))"

section \<open>Blobs of a checkpoint\<close>

definition checkpointBlobPrefix :: string where "checkpointBlobPrefix = ''llmtw_cpb_''"

definition blobStream :: "cloud_env \<Rightarrow> checkpoint_codec \<Rightarrow> string \<Rightarrow> string \<Rightarrow> string" where
  "blobStream env kc scope media = ''checkpoint-blob/'' @ cloud_digest env ''checkpoint-blob-scope'' (kc_strings kc [scope, media])"

definition blobProof :: "cloud_env \<Rightarrow> checkpoint_codec \<Rightarrow> string \<Rightarrow> string \<Rightarrow> blob_reference \<Rightarrow> string" where
  "blobProof env kc scope tag r =
     cloud_digest env ''checkpoint-blob-reference'' (kc_proof kc scope tag (hex_encode (bl_Digest r)) (bl_MediaType r) (bl_ByteLength r))"

definition CheckpointWriteBlob :: "cloud_env \<Rightarrow> checkpoint_codec \<Rightarrow> string \<Rightarrow> string \<Rightarrow> string \<Rightarrow> (store_error + blob_reference) prog" where
  "CheckpointWriteBlob env kc scope data media =
     tryP validContext (\<lambda>_.
       if \<not> safeText scope 512 \<or> \<not> safeText media 256 \<or> int (length data) > maxPayloadBytes then failP [ErrInvalid]
       else tryP (writeBlob env (blobStream env kc scope media) data) (\<lambda>key.
         let r = \<lparr>bl_ID = [], bl_Digest = kc_sha kc data, bl_ByteLength = int (length data), bl_MediaType = media\<rparr>;
             prefix = cv_namespace env @ ''/payload/'';
             tag = (if has_prefix prefix key then drop (length prefix) key else key)
         in Ret (Inr (r\<lparr>bl_ID := checkpointBlobPrefix @ tag @ ''.'' @ blobProof env kc scope tag r\<rparr>))))"

text \<open>The tag and proof that an ID names.\<close>

definition blob_locator :: "string \<Rightarrow> (string \<times> string) option" where
  "blob_locator bid =
     (if \<not> has_prefix checkpointBlobPrefix bid then None
      else case splitn2 CHR ''.'' (drop (length checkpointBlobPrefix) bid) of
             (tag, Some proof) \<Rightarrow> if hexDigest tag \<and> hexDigest proof then Some (tag, proof) else None
           | (_, None) \<Rightarrow> None)"

definition CheckpointReadBlob :: "cloud_env \<Rightarrow> checkpoint_codec \<Rightarrow> string \<Rightarrow> blob_reference \<Rightarrow> (store_error + string) prog" where
  "CheckpointReadBlob env kc scope r =
     tryP validContext (\<lambda>_.
       if \<not> safeText scope 512 \<or> \<not> safeText (bl_MediaType r) 256 \<or> bl_ByteLength r < 0 \<or> bl_ByteLength r > maxPayloadBytes \<or> bl_Digest r = zero32
       then failP [ErrInvalid]
       else case blob_locator (bl_ID r) of
              None \<Rightarrow> failP [ErrInvalid]
            | Some (tag, proof) \<Rightarrow>
                if proof \<noteq> blobProof env kc scope tag r then failP [ErrNotFound]
                else tryP (readReferencedBlob env (blobStream env kc scope (bl_MediaType r)) (cv_namespace env @ ''/payload/'' @ tag)) (\<lambda>data.
                  if int (length data) \<noteq> bl_ByteLength r \<or> kc_sha kc data \<noteq> bl_Digest r then failP [ErrCorrupt] else Ret (Inr data)))"

section \<open>Publication\<close>

definition checkpoint_references :: "durable_checkpoint \<Rightarrow> blob_reference list" where
  "checkpoint_references c =
     [dc_DeltaBlob c, dc_ResponseBlob c, dc_SettingsPatchBlob c] @ (case dc_MaterializedSnapshotBlob c of None \<Rightarrow> [] | Some b \<Rightarrow> [b]) @ map ps_StateBlob (dc_ProviderState c)"

fun read_references :: "cloud_env \<Rightarrow> checkpoint_codec \<Rightarrow> string \<Rightarrow> blob_reference list \<Rightarrow> (store_error + unit) prog" where
  "read_references env kc scope [] = Ret (Inr ())"
| "read_references env kc scope (r # rs) = tryP (CheckpointReadBlob env kc scope r) (\<lambda>_. read_references env kc scope rs)"

definition validateReferences :: "cloud_env \<Rightarrow> checkpoint_codec \<Rightarrow> durable_checkpoint \<Rightarrow> (store_error + unit) prog" where
  "validateReferences env kc c =
     tryP (case dc_ParentID c of
             None \<Rightarrow> Ret (Inr ())
           | Some pid \<Rightarrow> tryP (CheckpointGet env kc (dc_ScopeID c) pid) (\<lambda>parent. if dc_Depth c \<noteq> dc_Depth parent + 1 then failP [ErrInvalid] else Ret (Inr ()))) (\<lambda>_.
     tryP (case dc_CompactedThroughID c of
             None \<Rightarrow> Ret (Inr ())
           | Some cid \<Rightarrow> tryP (CheckpointGet env kc (dc_ScopeID c) cid) (\<lambda>_. Ret (Inr ()))) (\<lambda>_.
     read_references env kc (dc_ScopeID c) (checkpoint_references c)))"

fun create_pointers :: "cloud_env \<Rightarrow> checkpoint_codec \<Rightarrow> checkpoint_pointer \<Rightarrow> kv_key list \<Rightarrow> (store_error + unit) prog" where
  "create_pointers env kc p [] = Ret (Inr ())"
| "create_pointers env kc p (k # ks) = tryP (createPointer env kc k p) (\<lambda>_. create_pointers env kc p ks)"

definition pointer_rows :: "cloud_env \<Rightarrow> checkpoint_codec \<Rightarrow> durable_checkpoint \<Rightarrow> checkpoint_pointer \<Rightarrow> kv_key list" where
  "pointer_rows env kc c p =
     [ck_row env ''id'' (ck_identity env kc (dc_ScopeID c) ''id'' (dc_ID c)), ck_row env ''handle'' (kp_Handle p), ck_row env ''operation'' (kp_Operation p)]"

definition publish_new :: "cloud_env \<Rightarrow> checkpoint_codec \<Rightarrow> durable_checkpoint \<Rightarrow> string \<Rightarrow> (store_error + unit) prog" where
  "publish_new env kc c data =
     tryP (validateReferences env kc c) (\<lambda>_.
     tryP (writeBlob env (ck_stream env kc (dc_ScopeID c) (dc_ID c)) data) (\<lambda>blob.
       let p = checkpoint_pointer_of env kc c blob in create_pointers env kc p (pointer_rows env kc c p)))"

definition CheckpointPublish :: "cloud_env \<Rightarrow> checkpoint_codec \<Rightarrow> durable_checkpoint \<Rightarrow> string \<Rightarrow> (store_error + unit) prog" where
  "CheckpointPublish env kc c data =
     bindP (CheckpointGet env kc (dc_ScopeID c) (dc_ID c)) (\<lambda>r. case r of
       Inr existing \<Rightarrow>
         (case ck_digest kc existing of
            None \<Rightarrow> failP [ErrConflict]
          | Some got \<Rightarrow> if Some got \<noteq> ck_digest kc c then failP [ErrConflict] else Ret (Inr ()))
     | Inl e \<Rightarrow> if \<not> errIs e ErrNotFound then failP e else publish_new env kc c data)"

section \<open>The unit of work\<close>

record checkpoint_unit =
  cu_staged :: "(durable_checkpoint \<times> string) option"
  cu_closed :: bool

definition BeginCheckpoint :: "(store_error + checkpoint_unit) prog" where
  "BeginCheckpoint = tryP validContext (\<lambda>_. Ret (Inr \<lparr>cu_staged = None, cu_closed = False\<rparr>))"

text \<open>\<^verbatim>\<open>PutCheckpoint\<close> stages the decoded form of the encoded checkpoint, so that nothing of the caller's is aliased.\<close>

definition encoded_checkpoint :: "cloud_env \<Rightarrow> checkpoint_codec \<Rightarrow> durable_checkpoint \<Rightarrow> store_error + string" where
  "encoded_checkpoint env kc c = (case kc_envelope kc c of None \<Rightarrow> Inl [ErrInvalid] | Some data \<Rightarrow> objectJSON env data)"

definition staged_checkpoint :: "cloud_env \<Rightarrow> checkpoint_codec \<Rightarrow> checkpoint_unit \<Rightarrow> durable_checkpoint \<Rightarrow> store_error + (durable_checkpoint \<times> string)" where
  "staged_checkpoint env kc u c =
     (if cu_closed u \<or> \<not> validateCloudCheckpoint kc c then Inl [ErrInvalid]
      else bindE (encoded_checkpoint env kc c) (\<lambda>data.
        case kc_readEnvelope kc data of
          None \<Rightarrow> Inl [ErrInvalid]
        | Some (_, v) \<Rightarrow>
            (case cu_staged u of
               Some (old, d) \<Rightarrow>
                 (case ck_digest kc v of
                    None \<Rightarrow> Inl [ErrConflict]
                  | Some nxt \<Rightarrow> if ck_digest kc old \<noteq> Some nxt then Inl [ErrConflict] else Inr (old, d))
             | None \<Rightarrow> bindE (encoded_checkpoint env kc v) (\<lambda>d. Inr (v, d)))))"

definition PutCheckpoint :: "cloud_env \<Rightarrow> checkpoint_codec \<Rightarrow> checkpoint_unit \<Rightarrow> durable_checkpoint \<Rightarrow> (checkpoint_unit \<times> (store_error + unit)) prog" where
  "PutCheckpoint env kc u c =
     bindP validContext (\<lambda>x. case x of
       Inl e \<Rightarrow> Ret (u, Inl e)
     | Inr _ \<Rightarrow> (case staged_checkpoint env kc u c of Inl e \<Rightarrow> Ret (u, Inl e) | Inr s \<Rightarrow> Ret (u\<lparr>cu_staged := Some s\<rparr>, Inr ())))"

definition Commit :: "cloud_env \<Rightarrow> checkpoint_codec \<Rightarrow> checkpoint_unit \<Rightarrow> (checkpoint_unit \<times> (store_error + unit)) prog" where
  "Commit env kc u =
     bindP validContext (\<lambda>x. case x of
       Inl e \<Rightarrow> Ret (u, Inl e)
     | Inr _ \<Rightarrow>
         if cu_closed u then Ret (u, Inl [ErrInvalid])
         else case cu_staged u of
                None \<Rightarrow> Ret (u, Inl [ErrInvalid])
              | Some (c, data) \<Rightarrow> bindP (CheckpointPublish env kc c data) (\<lambda>r. Ret (u\<lparr>cu_closed := True\<rparr>, r)))"

definition Rollback :: "checkpoint_unit \<Rightarrow> (checkpoint_unit \<times> (store_error + unit)) prog" where
  "Rollback u = bindP validContext (\<lambda>x. case x of Inl e \<Rightarrow> Ret (u, Inl e) | Inr _ \<Rightarrow> Ret (\<lparr>cu_staged = None, cu_closed = True\<rparr>, Inr ()))"

text \<open>\<^verbatim>\<open>state.WithCheckpointUnitOfWork\<close> with a callback that puts one checkpoint, as every caller does; the rollback after a failure changes nothing stored.\<close>

definition WithCheckpointUnitOfWork :: "cloud_env \<Rightarrow> checkpoint_codec \<Rightarrow> durable_checkpoint \<Rightarrow> (store_error + unit) prog" where
  "WithCheckpointUnitOfWork env kc c =
     tryP BeginCheckpoint (\<lambda>u.
       bindP (PutCheckpoint env kc u c) (\<lambda>(u1, r). case r of
         Inl e \<Rightarrow> bindP (Rollback u1) (\<lambda>_. failP e)
       | Inr _ \<Rightarrow> bindP (Commit env kc u1) (\<lambda>(u2, s). case s of
           Inl e \<Rightarrow> bindP (Rollback u2) (\<lambda>_. failP e)
         | Inr _ \<Rightarrow> Ret (Inr ()))))"

end
