(* ===== verification/Cloud_Publish.thy ===== *)
theory Cloud_Publish
  imports Cloud_Entry Cloud_Checkpoint
begin

text \<open>
  The response cache over cloud storage, part two: publishing a success and recording its uses (\<^verbatim>\<open>storage/cloudstate/response_cache.go\<close>,
  \<^verbatim>\<open>response_cache_validation.go\<close>). The head of a key points to its latest success; an entry is published only with the checkpoint it came from.
\<close>

definition validCacheUse :: "response_use \<Rightarrow> bool" where
  "validCacheUse u \<longleftrightarrow> safeText (ru_ScopeID u) 512 \<and> safeText (ru_OperationID u) 4096 \<and> safeText (ru_EntryID u) 256 \<and> safeText (ru_CheckpointID u) 256 \<and> validTime (ru_CompletedAt u)"

text \<open>What the published response says of its checkpoint must be what the checkpoint says.\<close>

definition origin_matches :: "cache_codec \<Rightarrow> response_entry \<Rightarrow> durable_checkpoint \<Rightarrow> bool" where
  "origin_matches cc e c \<longleftrightarrow>
     dc_OriginOperationID c = re_OriginOperationID e \<and> dc_Kind c = (if rk_Operation (re_Key e) = OperationCompact then CheckpointCompaction else CheckpointGeneration)
     \<and> dc_OriginCacheEntryID c = None \<and> \<not> re_CompletedAt e < dc_CreatedAt c
     \<and> (case cc_response cc (rk_Operation (re_Key e)) (re_Response e) of
          None \<Rightarrow> False
        | Some v \<Rightarrow> (rk_Operation (re_Key e) = OperationGenerate \<longrightarrow> rv_OutputDigest v = Some (bl_Digest (dc_ResponseBlob c)))
                   \<and> rv_Depth v = dc_Depth c \<and> (\<not> rv_HasParent v) = (dc_ParentID c = None))"

definition validateOrigin :: "cloud_env \<Rightarrow> cache_codec \<Rightarrow> checkpoint_codec \<Rightarrow> response_entry \<Rightarrow> (store_error + unit) prog" where
  "validateOrigin env cc kc e =
     tryP (CheckpointGet env kc (rk_ScopeID (re_Key e)) (re_OriginCheckpointID e)) (\<lambda>c. if origin_matches cc e c then Ret (Inr ()) else failP [ErrInvalid])"

definition validateUse :: "cloud_env \<Rightarrow> checkpoint_codec \<Rightarrow> response_use \<Rightarrow> response_entry \<Rightarrow> (store_error + unit) prog" where
  "validateUse env kc u e =
     tryP (CheckpointGet env kc (ru_ScopeID u) (ru_CheckpointID u)) (\<lambda>c.
       if dc_Kind c \<noteq> (if rk_Operation (re_Key e) = OperationCompact then CheckpointCompaction else CheckpointCacheReplay)
          \<or> dc_OriginOperationID c \<noteq> ru_OperationID u \<or> dc_OriginCacheEntryID c \<noteq> Some (ru_EntryID u) \<or> ru_CompletedAt u < dc_CreatedAt c then failP [ErrInvalid]
       else tryP (CheckpointGet env kc (ru_ScopeID u) (re_OriginCheckpointID e)) (\<lambda>origin.
         if bl_Digest (dc_ResponseBlob c) \<noteq> bl_Digest (dc_ResponseBlob origin) then failP [ErrInvalid] else Ret (Inr ())))"

section \<open>Publishing\<close>

definition success_row :: "cloud_env \<Rightarrow> cache_codec \<Rightarrow> response_key \<Rightarrow> kv_key" where
  "success_row env cc k = cache_row env ''success'' (cc_key cc k)"

text \<open>The latest success wins by its completion time, and by its ID among equal times.\<close>

definition supersedes :: "response_entry \<Rightarrow> response_entry \<Rightarrow> bool" where
  "supersedes e current \<longleftrightarrow> \<not> (re_CompletedAt current > re_CompletedAt e \<or> (re_CompletedAt current = re_CompletedAt e \<and> re_ID current \<ge> re_ID e))"

definition head_written :: "store_error + string \<Rightarrow> (store_error + unit) prog \<Rightarrow> (store_error + unit) prog" where
  "head_written r again =
     (case r of
        Inr _ \<Rightarrow> Ret (Inr ())
      | Inl e \<Rightarrow> if errIs e ErrOutcomeUnknown \<or> (\<not> errIs e ErrConflict \<and> \<not> errIs e ErrAlreadyExists) then failP e else again)"

fun publish_loop :: "cloud_env \<Rightarrow> cache_codec \<Rightarrow> response_entry \<Rightarrow> cache_pointer \<Rightarrow> nat \<Rightarrow> (store_error + unit) prog" where
  "publish_loop env cc e pointer 0 = failP [ErrConflict]"
| "publish_loop env cc e pointer (Suc n) =
     (let head = success_row env cc (re_Key e); item = cacheItem cc head pointer
      in bindP (readPointer env cc head) (\<lambda>r. case r of
           Inl err \<Rightarrow>
             if errIs err ErrNotFound then bindP (tableCreate item) (\<lambda>w. head_written w (publish_loop env cc e pointer n))
             else failP err
         | Inr (previous, version) \<Rightarrow>
             tryP (loadEntry env cc (rk_ScopeID (re_Key e)) previous) (\<lambda>current.
               if re_Key current \<noteq> re_Key e then failP [ErrCorrupt]
               else if \<not> supersedes e current then Ret (Inr ())
               else bindP (tableReplace item version) (\<lambda>w. head_written w (publish_loop env cc e pointer n)))))"

definition publish_entry :: "cloud_env \<Rightarrow> cache_codec \<Rightarrow> checkpoint_codec \<Rightarrow> response_entry \<Rightarrow> (store_error + unit) prog" where
  "publish_entry env cc kc e =
     tryP (validateOrigin env cc kc e) (\<lambda>_.
       case cc_entry cc e of
         None \<Rightarrow> failP [ErrInvalid]
       | Some data \<Rightarrow>
           if int (length data) > maxPayloadBytes then failP [ErrInvalid]
           else let key = Cloud_Entry.entryKey env cc (rk_ScopeID (re_Key e)) (re_ID e)
                in tryP (immutable env cc key (fst key) data) (\<lambda>pointer. publish_loop env cc e pointer 16))"

definition Publish :: "cloud_env \<Rightarrow> cache_codec \<Rightarrow> checkpoint_codec \<Rightarrow> response_entry \<Rightarrow> (store_error + unit) prog" where
  "Publish env cc kc entry =
     tryP validContext (\<lambda>_. case normalizeCacheEntry env cc entry of Inl err \<Rightarrow> failP err | Inr e \<Rightarrow> publish_entry env cc kc e)"

section \<open>Uses\<close>

definition useKey :: "cloud_env \<Rightarrow> cache_codec \<Rightarrow> string \<Rightarrow> string \<Rightarrow> kv_key" where
  "useKey env cc scope operation = cache_row env ''use'' (cc_strings cc [scope, operation])"

definition RecordUse :: "cloud_env \<Rightarrow> cache_codec \<Rightarrow> checkpoint_codec \<Rightarrow> response_use \<Rightarrow> (store_error + unit) prog" where
  "RecordUse env cc kc u =
     tryP validContext (\<lambda>_.
       if \<not> validCacheUse u then failP [ErrInvalid]
       else tryP (readPointer env cc (Cloud_Entry.entryKey env cc (ru_ScopeID u) (ru_EntryID u))) (\<lambda>(p, _).
         tryP (loadEntry env cc (ru_ScopeID u) p) (\<lambda>e.
           if re_ID e \<noteq> ru_EntryID u \<or> ru_CompletedAt u < re_CompletedAt e then failP [ErrInvalid]
           else tryP (validateUse env kc u e) (\<lambda>_.
             let key = useKey env cc (ru_ScopeID u) (ru_OperationID u)
             in tryP (immutable env cc key (fst key) (cc_use cc u)) (\<lambda>_. Ret (Inr ()))))))"

definition decode_use :: "cache_codec \<Rightarrow> string \<Rightarrow> string \<Rightarrow> string \<Rightarrow> store_error + response_use" where
  "decode_use cc scope operation data =
     (case cc_readUse cc data of
        None \<Rightarrow> Inl [ErrCorrupt]
      | Some (version, u) \<Rightarrow>
          if version \<noteq> 1 \<or> \<not> validCacheUse u \<or> ru_ScopeID u \<noteq> scope \<or> ru_OperationID u \<noteq> operation then Inl [ErrCorrupt] else Inr u)"

definition ReadUse :: "cloud_env \<Rightarrow> cache_codec \<Rightarrow> string \<Rightarrow> string \<Rightarrow> (store_error + response_use) prog" where
  "ReadUse env cc scope operation =
     tryP validContext (\<lambda>_.
       if \<not> safeText scope 512 \<or> \<not> safeText operation 4096 then failP [ErrInvalid]
       else let key = useKey env cc scope operation
            in tryP (readPointer env cc key) (\<lambda>(p, _).
              if pt_Stream p \<noteq> fst key then failP [ErrCorrupt]
              else tryP (readReferencedBlob env (fst key) (pt_Blob p)) (\<lambda>data. Ret (decode_use cc scope operation data))))"

end
