(* ===== verification/Cloud_Checkpoint_Facts.thy ===== *)
theory Cloud_Checkpoint_Facts
  imports Cloud_Checkpoint Cloud_Memory
begin

text \<open>
  Publication of checkpoints under arbitrary interleaving: an operation has at most one checkpoint, and every successful
  publication or read for it agrees with that one.
\<close>

section \<open>What the operation's row holds\<close>

definition holds_checkpoint :: "checkpoint_codec \<Rightarrow> kv_item \<Rightarrow> checkpoint_pointer \<Rightarrow> bool" where
  "holds_checkpoint kc it p \<longleftrightarrow> (\<exists>data. mget (ki_Fields it) ''checkpoint'' = Some data \<and> kc_readPointer kc data = Some p)"

lemma holds_checkpoint_one_value: "one_value (holds_checkpoint kc)"
  by (auto simp: one_value_def holds_checkpoint_def)

text \<open>Rows of checkpoints are only ever created.\<close>

abbreviation created :: "checkpoint_pointer option \<Rightarrow> checkpoint_pointer \<Rightarrow> bool" where
  "created old p \<equiv> old = None"

abbreviation ck_ok :: "checkpoint_codec \<Rightarrow> kv_item option \<Rightarrow> kv_item \<Rightarrow> bool" where
  "ck_ok kc \<equiv> named_ok (holds_checkpoint kc) created"

lemma created_once: "runs created None xs \<Longrightarrow> length xs \<le> 1"
proof (cases xs)
  case (Cons x ys)
  then show "runs created None xs \<Longrightarrow> length xs \<le> 1" by (cases ys) auto
qed simp

text \<open>
  What is relied on of the encodings: pointers and encoded checkpoints decode to themselves, the names of different
  encoded checkpoints do not collide, and equal digests mean the same operation.
\<close>

definition checkpoint_bodies :: "cloud_env \<Rightarrow> checkpoint_codec \<Rightarrow> (string \<times> string) set" where
  "checkpoint_bodies env kc = {(ck_stream env kc (dc_ScopeID c) (dc_ID c), d) | c d. kc_readEnvelope kc d = Some (checkpointFormat, c)}"

definition reads_back :: "checkpoint_codec \<Rightarrow> checkpoint_pointer \<Rightarrow> bool" where
  "reads_back kc p \<longleftrightarrow> kc_readPointer kc (kc_pointer kc p) = Some p"

definition checkpoint_laws :: "cloud_env \<Rightarrow> checkpoint_codec \<Rightarrow> bool" where
  "checkpoint_laws env kc \<longleftrightarrow>
     (\<forall>c s d. reads_back kc (checkpoint_pointer_of env kc c (blobKey env s d)))
     \<and> (\<forall>c d. encoded_checkpoint env kc c = Inr d \<longrightarrow> kc_readEnvelope kc d = Some (checkpointFormat, c))
     \<and> inj_on (\<lambda>(stream, d). blobKey env stream d) (checkpoint_bodies env kc)
     \<and> (\<forall>c c' h. ck_digest kc c = Some h \<longrightarrow> ck_digest kc c' = Some h \<longrightarrow> dc_ScopeID c = dc_ScopeID c' \<and> dc_OriginOperationID c = dc_OriginOperationID c')"

text \<open>The pointer \<open>p\<close> publishes a checkpoint that counts as \<open>c\<close>.\<close>

definition publishes :: "cloud_env \<Rightarrow> checkpoint_codec \<Rightarrow> checkpoint_pointer \<Rightarrow> durable_checkpoint \<Rightarrow> bool" where
  "publishes env kc p c \<longleftrightarrow> (\<exists>c0 d. ck_digest kc c0 = ck_digest kc c \<and> kc_readEnvelope kc d = Some (checkpointFormat, c0)
     \<and> p = checkpoint_pointer_of env kc c0 (blobKey env (ck_stream env kc (dc_ScopeID c0) (dc_ID c0)) d))"

lemma publishes_unique:
  assumes "checkpoint_laws env kc" and "publishes env kc p c" and "publishes env kc p c'"
  shows "ck_digest kc c = ck_digest kc c'"
proof -
  obtain c0 d c1 d1 where e: "ck_digest kc c0 = ck_digest kc c" "ck_digest kc c1 = ck_digest kc c'"
    and r: "kc_readEnvelope kc d = Some (checkpointFormat, c0)" "kc_readEnvelope kc d1 = Some (checkpointFormat, c1)"
    and p: "p = checkpoint_pointer_of env kc c0 (blobKey env (ck_stream env kc (dc_ScopeID c0) (dc_ID c0)) d)"
      "p = checkpoint_pointer_of env kc c1 (blobKey env (ck_stream env kc (dc_ScopeID c1) (dc_ID c1)) d1)"
    using assms(2,3) unfolding publishes_def by blast
  have mem: "(ck_stream env kc (dc_ScopeID c0) (dc_ID c0), d) \<in> checkpoint_bodies env kc" "(ck_stream env kc (dc_ScopeID c1) (dc_ID c1), d1) \<in> checkpoint_bodies env kc"
    using r by (auto simp: checkpoint_bodies_def)
  have "blobKey env (ck_stream env kc (dc_ScopeID c0) (dc_ID c0)) d = blobKey env (ck_stream env kc (dc_ScopeID c1) (dc_ID c1)) d1"
    using p unfolding checkpoint_pointer_of_def by simp
  then have "(\<lambda>(stream, d). blobKey env stream d) (ck_stream env kc (dc_ScopeID c0) (dc_ID c0), d) =
      (\<lambda>(stream, d). blobKey env stream d) (ck_stream env kc (dc_ScopeID c1) (dc_ID c1), d1)" by simp
  then have "d = d1" using inj_onD[of "\<lambda>(stream, d). blobKey env stream d", OF _ _ mem] assms(1) unfolding checkpoint_laws_def by blast
  then show ?thesis using e r by simp
qed

section \<open>The calls\<close>

text \<open>A worker has seen \<open>p\<close> in the row, or written it there.\<close>

definition seen :: "checkpoint_codec \<Rightarrow> kv_key \<Rightarrow> checkpoint_pointer \<Rightarrow> facts \<Rightarrow> acks \<Rightarrow> bool" where
  "seen kc hk p F A \<longleftrightarrow> (\<exists>it v. holds_checkpoint kc it p \<and> ((it, v) \<in> F \<or> ((it, v) \<in> set A \<and> ki_Key it = hk)))"

lemma seen_mono: "seen kc hk p F A \<Longrightarrow> F \<subseteq> F' \<Longrightarrow> set A \<subseteq> set A' \<Longrightarrow> seen kc hk p F' A'"
  unfolding seen_def by blast

lemma readCheckpointPointer_wp:
  assumes "\<And>e F'. F \<subseteq> F' \<Longrightarrow> Q F' A (Inl e)" and "\<And>p F'. F \<subseteq> F' \<Longrightarrow> (key = hk \<longrightarrow> seen kc hk p F' A) \<Longrightarrow> Q F' A (Inr p)"
  shows "wp hk ok Q (readCheckpointPointer env kc key) F A"
proof -
  have "Q (F \<union> learn hk key (Inr row)) A (decode_checkpoint_pointer env kc key row)" for row
  proof (cases "decode_checkpoint_pointer env kc key row")
    case (Inr p)
    then have "holds_checkpoint kc (kr_Item row) p" by (auto simp: decode_checkpoint_pointer_def holds_checkpoint_def split: option.splits if_splits)
    then have "key = hk \<longrightarrow> seen kc hk p (F \<union> learn hk key (Inr row)) A" by (auto simp: seen_def learn_def)
    then show ?thesis using assms(2) Inr by simp
  qed (use assms(1) in simp)
  moreover have "Q F A (Inl e)" for e using assms(1)[of F e] by simp
  ultimately show ?thesis by (auto simp: readCheckpointPointer_def tableGet_def tryP_def learn_def split: sum.split)
qed

lemma quiet_readCheckpointPointer [quiets]: "quiet hk (readCheckpointPointer env kc key)"
  unfolding readCheckpointPointer_def by (auto intro!: quiets)

lemma quiet_CheckpointGet [quiets]: "quiet hk (CheckpointGet env kc scope cid)"
  unfolding CheckpointGet_def by (auto intro!: quiets)

lemma quiet_CheckpointReadBlob [quiets]: "quiet hk (CheckpointReadBlob env kc scope r)"
  unfolding CheckpointReadBlob_def by (auto intro!: quiets split: option.split)

lemma quiet_CheckpointWriteBlob [quiets]: "quiet hk (CheckpointWriteBlob env kc scope data media)"
  unfolding CheckpointWriteBlob_def Let_def by (auto intro!: quiets)

lemma quiet_read_references [quiets]: "quiet hk (read_references env kc scope rs)"
  by (induction rs) (auto intro!: quiets)

lemma quiet_validateReferences [quiets]: "quiet hk (validateReferences env kc c)"
  unfolding validateReferences_def by (auto intro!: quiets split: option.split)

lemma createPointer_wp:
  assumes "reads_back kc p"
    and "\<And>e F'. F \<subseteq> F' \<Longrightarrow> Q F' A (Inl e)"
    and "\<And>F' A'. F \<subseteq> F' \<Longrightarrow> set A \<subseteq> set A' \<Longrightarrow> (key = hk \<longrightarrow> seen kc hk p F' A') \<Longrightarrow> Q F' A' (Inr ())"
  shows "wp hk (ck_ok kc) Q (createPointer env kc key p) F A"
proof -
  let ?it = "checkpointItem kc key p"
  have h: "holds_checkpoint kc ?it p" using assms(1) by (simp add: holds_checkpoint_def checkpointItem_def reads_back_def)
  have key: "ki_Key ?it = key" by (simp add: checkpointItem_def)
  have again: "wp hk (ck_ok kc) Q (tryP (readCheckpointPointer env kc key) (\<lambda>existing. if existing \<noteq> p then failP [ErrConflict] else Ret (Inr ()))) F A"
    unfolding wp_tryP by (rule readCheckpointPointer_wp) (use assms(2,3) in auto)
  have won: "Q F ((?it, v) # A) (Inr ())" for v
    by (rule assms(3)) (use h key in \<open>auto simp: seen_def\<close>)
  have "named_ok (holds_checkpoint kc) created None ?it" using h by (auto simp: named_ok_def)
  then show ?thesis unfolding createPointer_def tableCreate_def
    using again won assms(2)[of F] by (auto split: sum.split)
qed

lemma create_pointers_wp:
  assumes "reads_back kc p"
  shows "wp hk (ck_ok kc) (\<lambda>F' A' r. r = Inr () \<longrightarrow> hk \<in> set ks \<longrightarrow> seen kc hk p F' A') (create_pointers env kc p ks) F A"
proof (induction ks arbitrary: F A)
  case (Cons k ks)
  have rest: "wp hk (ck_ok kc) (\<lambda>F'' A'' r. r = Inr () \<longrightarrow> hk \<in> set (k # ks) \<longrightarrow> seen kc hk p F'' A'') (create_pointers env kc p ks) F' A'"
    if "k = hk \<longrightarrow> seen kc hk p F' A'" for F' A'
    by (rule wp_conseq[OF Cons]) (use that seen_mono[of kc hk p F' A'] in \<open>simp, blast\<close>)
  show ?case unfolding create_pointers.simps wp_tryP
    by (rule createPointer_wp[OF assms]) (use rest in auto)
qed simp

lemma CheckpointGet_wp:
  assumes "\<And>e F'. F \<subseteq> F' \<Longrightarrow> Q F' A (Inl e)"
    and "\<And>c p F'. F \<subseteq> F' \<Longrightarrow> publishes env kc p c \<Longrightarrow> kp_Operation p = ck_identity env kc (dc_ScopeID c) ''operation'' (dc_OriginOperationID c) \<Longrightarrow>
      (hk = ck_row env ''operation'' (kp_Operation p) \<longrightarrow> seen kc hk p F' A) \<Longrightarrow> Q F' A (Inr c)"
  shows "wp hk ok Q (CheckpointGet env kc scope cid) F A"
proof -
  have body: "wp hk ok Q (tryP (readReferencedBlob env (ck_stream env kc scope cid) (kp_Blob p)) (\<lambda>data. Ret (decode_checkpoint env kc scope cid p data))) F' A"
    if F': "F \<subseteq> F'" and s: "ck_row env ''operation'' (kp_Operation p) = hk \<longrightarrow> seen kc hk p F' A" for p F'
    unfolding wp_tryP
  proof (rule readReferencedBlob_wp, goal_cases)
    case (1 e)
    then show ?case using assms(1)[OF F'] by simp
  next
    case (2 d)
    show ?case
    proof (cases "decode_checkpoint env kc scope cid p d")
      case (Inl e)
      then show ?thesis using assms(1)[OF F'] by simp
    next
      case (Inr c)
      then have c: "kc_readEnvelope kc d = Some (checkpointFormat, c)" "dc_ScopeID c = scope" "dc_ID c = cid" "checkpoint_pointer_of env kc c (kp_Blob p) = p"
        by (auto simp: decode_checkpoint_def split: option.splits prod.splits if_splits)
      have b: "kp_Blob p = blobKey env (ck_stream env kc scope cid) d" using 2 by (simp add: opens_def)
      have "publishes env kc p c" unfolding publishes_def using c b by (intro exI[of _ c] exI[of _ d]) simp
      moreover have "kp_Operation p = ck_identity env kc (dc_ScopeID c) ''operation'' (dc_OriginOperationID c)"
        using arg_cong[OF c(4), of kp_Operation] by (simp add: checkpoint_pointer_of_def)
      ultimately show ?thesis using assms(2)[OF F'] s Inr by auto
    qed
  qed
  have reads: "wp hk ok Q (tryP (readCheckpointPointer env kc (ck_row env ''id'' (ck_identity env kc scope ''id'' cid))) (\<lambda>p.
         tryP (readCheckpointPointer env kc (ck_row env ''operation'' (kp_Operation p))) (\<lambda>committed.
           if committed \<noteq> p then failP [ErrNotFound]
           else tryP (readReferencedBlob env (ck_stream env kc scope cid) (kp_Blob p)) (\<lambda>data.
             Ret (decode_checkpoint env kc scope cid p data))))) F' A" if F': "F \<subseteq> F'" for F'
    unfolding wp_tryP[of _ _ _ "readCheckpointPointer _ _ _"]
  proof (rule readCheckpointPointer_wp, goal_cases)
    case (1 e F1)
    then show ?case using assms(1) F' by auto
  next
    case (2 p F1)
    show ?case unfolding sum.case
    proof (rule readCheckpointPointer_wp, goal_cases)
      case (1 e F2)
      then show ?case using assms(1) F' 2(1) by auto
    next
      case (2 q F2)
      then show ?case using body[of F2 p] assms(1)[of F2] F' \<open>F' \<subseteq> F1\<close> by auto
    qed
  qed
  show ?thesis unfolding CheckpointGet_def wp_tryP[of _ _ _ validContext] wp_validContext
    using reads[of F] assms(1)[of F] by simp
qed

definition op_row :: "cloud_env \<Rightarrow> checkpoint_codec \<Rightarrow> durable_checkpoint \<Rightarrow> kv_key" where
  "op_row env kc c = ck_row env ''operation'' (ck_identity env kc (dc_ScopeID c) ''operation'' (dc_OriginOperationID c))"

text \<open>A successful answer about \<open>c\<close>: its operation's row holds a pointer that publishes it.\<close>

definition agreed :: "cloud_env \<Rightarrow> checkpoint_codec \<Rightarrow> kv_key \<Rightarrow> durable_checkpoint \<Rightarrow> facts \<Rightarrow> acks \<Rightarrow> bool" where
  "agreed env kc hk c F A \<longleftrightarrow> (\<exists>p. publishes env kc p c \<and> (hk = op_row env kc c \<longrightarrow> seen kc hk p F A))"

lemma publish_new_wp:
  assumes laws: "checkpoint_laws env kc" and enc: "kc_readEnvelope kc d = Some (checkpointFormat, c)"
  shows "wp hk (ck_ok kc) (\<lambda>F A r. r = Inr () \<longrightarrow> agreed env kc hk c F A)
    (publish_new env kc c d) F A"
proof -
  let ?p = "checkpoint_pointer_of env kc c (blobKey env (ck_stream env kc (dc_ScopeID c) (dc_ID c)) d)"
  let ?Q = "\<lambda>F A r. r = Inr () \<longrightarrow> agreed env kc hk c F A"
  have pub: "publishes env kc ?p c" unfolding publishes_def using enc by (intro exI[of _ c] exI[of _ d]) simp
  have rows: "wp hk (ck_ok kc) ?Q (create_pointers env kc ?p (pointer_rows env kc c ?p)) F A" for F A
    by (rule wp_conseq[OF create_pointers_wp])
      (use laws pub in \<open>auto simp: checkpoint_laws_def pointer_rows_def checkpoint_pointer_of_def agreed_def op_row_def\<close>)
  have w: "wp hk (ck_ok kc) ?Q (tryP (writeBlob env (ck_stream env kc (dc_ScopeID c) (dc_ID c)) d) (\<lambda>blob.
       let p = checkpoint_pointer_of env kc c blob in create_pointers env kc p (pointer_rows env kc c p))) F A" for F A
    unfolding wp_tryP by (rule writeBlob_wp) (use rows in \<open>simp_all add: Let_def\<close>)
  show ?thesis unfolding publish_new_def wp_tryP[of _ _ _ "validateReferences env kc c"]
    by (rule wp_quiet[OF quiet_validateReferences]) (use w in \<open>auto split: sum.split\<close>)
qed

lemma publishes_same_digest: "publishes env kc p c \<Longrightarrow> ck_digest kc c = ck_digest kc c' \<Longrightarrow> publishes env kc p c'"
  unfolding publishes_def by metis

lemma CheckpointPublish_wp:
  assumes laws: "checkpoint_laws env kc" and enc: "kc_readEnvelope kc d = Some (checkpointFormat, c)"
  shows "wp hk (ck_ok kc) (\<lambda>F A r. r = Inr () \<longrightarrow> agreed env kc hk c F A) (CheckpointPublish env kc c d) F A"
  unfolding CheckpointPublish_def wp_bind
proof (rule CheckpointGet_wp, goal_cases)
  case (1 e F')
  then show ?case using publish_new_wp[OF assms] by simp
next
  case (2 c0 p F')
  show ?case
  proof (cases "ck_digest kc c0 \<noteq> None \<and> ck_digest kc c0 = ck_digest kc c")
    case True
    then obtain h where h: "ck_digest kc c0 = Some h" "ck_digest kc c = Some h" by (metis not_None_eq)
    have "dc_ScopeID c0 = dc_ScopeID c" "dc_OriginOperationID c0 = dc_OriginOperationID c"
      using laws h unfolding checkpoint_laws_def by blast+
    then have "op_row env kc c = ck_row env ''operation'' (kp_Operation p)" using 2(3) by (simp add: op_row_def)
    then have "agreed env kc hk c F' A" using 2 publishes_same_digest[of env kc p c0 c] True unfolding agreed_def by metis
    then show ?thesis using h by simp
  qed (auto split: option.split)
qed

lemma CheckpointGet_agreed:
  "wp hk ok (\<lambda>F A r. \<forall>c. r = Inr c \<longrightarrow> agreed env kc hk c F A) (CheckpointGet env kc scope cid) F A"
  by (rule CheckpointGet_wp) (auto simp: agreed_def op_row_def)

lemma staged_first:
  assumes laws: "checkpoint_laws env kc" and "staged_checkpoint env kc \<lparr>cu_staged = None, cu_closed = False\<rparr> c = Inr (v, d)"
  shows "v = c \<and> kc_readEnvelope kc d = Some (checkpointFormat, c)"
proof -
  have rt: "kc_readEnvelope kc d = Some (checkpointFormat, v)" if "encoded_checkpoint env kc v = Inr d" for v d
    using laws that unfolding checkpoint_laws_def by blast
  show ?thesis using assms(2) by (auto simp: staged_checkpoint_def bindE_eq_Inr_iff split: if_splits option.splits prod.splits dest!: rt)
qed

lemma WithCheckpointUnitOfWork_wp:
  assumes laws: "checkpoint_laws env kc"
  shows "wp hk (ck_ok kc) (\<lambda>F A r. r = Inr () \<longrightarrow> agreed env kc hk c F A) (WithCheckpointUnitOfWork env kc c) F A"
proof -
  let ?u = "\<lparr>cu_staged = None, cu_closed = False\<rparr>"
  have roll: "wp hk (ck_ok kc) (\<lambda>F A r. r = Inr () \<longrightarrow> agreed env kc hk c F A) (bindP (Rollback u) (\<lambda>_. failP e)) F A" for u e F A
    unfolding wp_bind by (rule wp_quiet) (auto simp: Rollback_def intro!: quiets split: sum.split)
  have commit: "wp hk (ck_ok kc) (\<lambda>F A r. r = Inr () \<longrightarrow> agreed env kc hk c F A)
      (bindP (Commit env kc (?u\<lparr>cu_staged := Some (v, d)\<rparr>)) (\<lambda>(u2, s). case s of Inl e \<Rightarrow> bindP (Rollback u2) (\<lambda>_. failP e) | Inr _ \<Rightarrow> Ret (Inr ()))) F A"
    if st: "staged_checkpoint env kc ?u c = Inr (v, d)" for v d F A
  proof -
    have vd: "v = c" "kc_readEnvelope kc d = Some (checkpointFormat, c)" using staged_first[OF laws st] by simp_all
    have p: "wp hk (ck_ok kc) (\<lambda>F A r. wp hk (ck_ok kc) (\<lambda>F A r. r = Inr () \<longrightarrow> agreed env kc hk c F A)
        (case r of Inl e \<Rightarrow> bindP (Rollback u2) (\<lambda>_. failP e) | Inr _ \<Rightarrow> Ret (Inr ())) F A) (CheckpointPublish env kc c d) F A" for u2 F A
      by (rule wp_conseq[OF CheckpointPublish_wp[OF laws vd(2)]]) (use roll in \<open>auto split: sum.split\<close>)
    show ?thesis using p roll vd(1) by (simp add: Commit_def wp_bind wp_validContext)
  qed
  show ?thesis using roll commit
    by (auto simp: WithCheckpointUnitOfWork_def BeginCheckpoint_def PutCheckpoint_def wp_tryP wp_bind wp_validContext split: sum.split)
qed

text \<open>Publishing a checkpoint writes to rows of checkpoints only.\<close>

lemma quiet_createPointer [quiets]: "key \<noteq> hk \<Longrightarrow> quiet hk (createPointer env kc key p)"
  unfolding createPointer_def by (auto simp: checkpointItem_def intro!: quiets split: sum.split)

lemma quiet_create_pointers: "\<forall>key \<in> set ks. key \<noteq> hk \<Longrightarrow> quiet hk (create_pointers env kc p ks)"
  by (induction ks) (auto intro!: quiets)

lemma quiet_WithCheckpointUnitOfWork:
  assumes "\<And>kind tag. ck_row env kind tag \<noteq> hk"
  shows "quiet hk (WithCheckpointUnitOfWork env kc c)"
proof -
  have new: "quiet hk (publish_new env kc c d)" for c d
    unfolding publish_new_def Let_def using assms by (auto intro!: quiets quiet_create_pointers simp: pointer_rows_def)
  have pub: "quiet hk (CheckpointPublish env kc c d)" for c d
    unfolding CheckpointPublish_def using new by (auto intro!: quiets split: sum.split option.split)
  show ?thesis unfolding WithCheckpointUnitOfWork_def BeginCheckpoint_def PutCheckpoint_def Commit_def Rollback_def
    using pub by (auto intro!: quiets split: sum.split option.split)
qed

section \<open>Any number of workers\<close>

datatype checkpoint_result = PublishResult durable_checkpoint "store_error + unit" | GetResult "store_error + durable_checkpoint" | WriteResult "store_error + blob_reference"

definition checkpoint_calls :: "cloud_env \<Rightarrow> checkpoint_codec \<Rightarrow> checkpoint_result prog set" where
  "checkpoint_calls env kc =
     {bindP (WithCheckpointUnitOfWork env kc c) (\<lambda>x. Ret (PublishResult c x)) | c. True} \<union> {bindP (CheckpointGet env kc scope cid) (\<lambda>x. Ret (GetResult x)) | scope cid. True}
     \<union> {bindP (CheckpointWriteBlob env kc scope data media) (\<lambda>x. Ret (WriteResult x)) | scope data media. True}"

text \<open>A worker that was told that \<open>c\<close> is published, by a commit or by a read.\<close>

definition told :: "checkpoint_result prog \<times> acks \<Rightarrow> durable_checkpoint \<Rightarrow> bool" where
  "told x c \<longleftrightarrow> fst x = Ret (PublishResult c (Inr ())) \<or> fst x = Ret (GetResult (Inr c))"

definition checkpoint_post :: "cloud_env \<Rightarrow> checkpoint_codec \<Rightarrow> kv_key \<Rightarrow> facts \<Rightarrow> acks \<Rightarrow> checkpoint_result \<Rightarrow> bool" where
  "checkpoint_post env kc hk F A r \<longleftrightarrow> (\<forall>c. r = PublishResult c (Inr ()) \<or> r = GetResult (Inr c) \<longrightarrow> agreed env kc hk c F A)"

lemma checkpoint_calls_wp:
  assumes "checkpoint_laws env kc" and "p \<in> checkpoint_calls env kc"
  shows "wp hk (ck_ok kc) (checkpoint_post env kc hk) p {} []"
proof -
  consider c where "p = bindP (WithCheckpointUnitOfWork env kc c) (\<lambda>x. Ret (PublishResult c x))" | scope cid where "p = bindP (CheckpointGet env kc scope cid) (\<lambda>x. Ret (GetResult x))"
    | scope data media where "p = bindP (CheckpointWriteBlob env kc scope data media) (\<lambda>x. Ret (WriteResult x))"
    using assms(2) unfolding checkpoint_calls_def by blast
  then show ?thesis
  proof cases
    case 1
    show ?thesis unfolding 1 wp_bind wp.simps by (rule wp_conseq[OF WithCheckpointUnitOfWork_wp[OF assms(1)]]) (auto simp: checkpoint_post_def)
  next
    case 2
    show ?thesis unfolding 2 wp_bind wp.simps by (rule wp_conseq[OF CheckpointGet_agreed]) (auto simp: checkpoint_post_def)
  next
    case 3
    show ?thesis unfolding 3 wp_bind wp.simps by (rule wp_quiet[OF quiet_CheckpointWriteBlob]) (simp add: checkpoint_post_def)
  qed
qed

lemma told_in_row:
  assumes "clients_ok hk (ck_ok kc) (checkpoint_post env kc hk) l cs" and "x \<in> set cs" and "told x c" and "hk = op_row env kc c"
  shows "\<exists>p it. publishes env kc p c \<and> holds_checkpoint kc it p \<and> it \<in> fst ` set l"
proof -
  obtain F where F: "F \<subseteq> set l" "wp hk (ck_ok kc) (checkpoint_post env kc hk) (fst x) F (snd x)" using assms(1,2) unfolding clients_ok_def by blast
  then have "agreed env kc hk c F (snd x)" using assms(3) unfolding told_def checkpoint_post_def by auto
  then obtain p it v where p: "publishes env kc p c" "holds_checkpoint kc it p" "(it, v) \<in> F \<or> (it, v) \<in> set (snd x) \<and> ki_Key it = hk"
    using assms(4) unfolding agreed_def seen_def by blast
  have "(it, v) \<in> set l" if "(it, v) \<in> set (snd x)" "ki_Key it = hk"
  proof -
    have "(it, v) \<in> set (row_acks hk (snd x))" using that by (simp add: row_acks_def)
    then show ?thesis using assms(1,2) unfolding clients_ok_def by fastforce
  qed
  then have "(it, v) \<in> set l" using p(3) F(1) by blast
  then show ?thesis using p(1,2) by force
qed

text \<open>C19: an operation has one checkpoint. However many workers publish checkpoints, with any interleaving of their storage calls, lost acknowledgements and
  retries, two workers that are told that a checkpoint of the same operation is published, by a successful commit or by a read, are
  told of the same checkpoint: their canonical digests agree.\<close>

theorem one_checkpoint_per_operation:
  assumes "versioned_table st log sound" and "sound w0" and "checkpoint_laws env kc" and "log w0 (op_row env kc c) = []"
    and "(system_step st (checkpoint_calls env kc))\<^sup>*\<^sup>* (w0, []) (w, cs)"
    and "x \<in> set cs" and "told x c" and "y \<in> set cs" and "told y c'" and "dc_ScopeID c' = dc_ScopeID c" and "dc_OriginOperationID c' = dc_OriginOperationID c"
  shows "ck_digest kc c = ck_digest kc c'"
proof -
  let ?hk = "op_row env kc c"
  have hk: "?hk = op_row env kc c'" using assms(10,11) by (simp add: op_row_def)
  have ok: "clients_ok ?hk (ck_ok kc) (checkpoint_post env kc ?hk) (log w ?hk) cs"
    using versioned_table.system_ok[OF assms(1,2,5,4)] checkpoint_calls_wp[OF assms(3)] by blast
  then obtain xs where xs: "row_values (holds_checkpoint kc) (log w ?hk) xs" "runs created None xs"
    using clients_ok_runs[OF _ holds_checkpoint_one_value] by blast
  have "length (log w ?hk) \<le> 1" using created_once[OF xs(2)] xs(1) by (simp add: list_all2_lengthD)
  moreover obtain p it where p: "publishes env kc p c" "holds_checkpoint kc it p" "it \<in> fst ` set (log w ?hk)"
    using told_in_row[OF ok assms(6,7) refl] by blast
  moreover obtain q it' where q: "publishes env kc q c'" "holds_checkpoint kc it' q" "it' \<in> fst ` set (log w ?hk)"
    using told_in_row[OF ok assms(8,9) hk] by blast
  ultimately have "it = it'" by (cases "log w ?hk") auto
  then have "p = q" using p(2) q(2) holds_checkpoint_one_value unfolding one_value_def by blast
  then show ?thesis using publishes_unique[OF assms(3) p(1)] q(1) by blast
qed

section \<open>A run\<close>

definition kdemo_env :: cloud_env where
  "kdemo_env = \<lparr>cv_namespace = ''n'', cv_secret = [], cv_hmac = tail_digest, cv_seal = (\<lambda>n d k. d),
     cv_open = (\<lambda>n c k. Some c), cv_nonceSize = 1, cv_overhead = 0, cv_canonical = Inr\<rparr>"

definition kdemo_sha :: "string \<Rightarrow> string" where "kdemo_sha d = CHR ''#'' # d"

definition kdemo_ref :: blob_reference where
  "kdemo_ref =
     (let r = \<lparr>bl_ID = [], bl_Digest = kdemo_sha ''x'', bl_ByteLength = 1, bl_MediaType = ''m''\<rparr>;
          tag = hex_encode (take 32 (rev (''llmtw/cloudstate/v1/payload/checkpoint-blob/'' @ hex_encode (take 32 (rev (''llmtw/cloudstate/v1/checkpoint-blob-scope'' @ [CHR 0x00] @ ''sm''))) @ [CHR 0x00] @ ''x'')));
          proof_tag = hex_encode (take 32 (rev (''llmtw/cloudstate/v1/checkpoint-blob-reference'' @ [CHR 0x00] @ tag)))
      in r\<lparr>bl_ID := checkpointBlobPrefix @ tag @ ''.'' @ proof_tag\<rparr>)"

definition kdemo :: "string \<Rightarrow> durable_checkpoint" where
  "kdemo cid = \<lparr>dc_ID = cid, dc_ScopeID = ''s'', dc_PublicIDHMAC = cid, dc_HandleKeyID = ''k'', dc_ParentID = None, dc_Kind = CheckpointGeneration, dc_Depth = 0,
     dc_OriginOperationID = ''o'', dc_OriginCacheEntryID = None, dc_DeltaBlob = kdemo_ref, dc_ResponseBlob = kdemo_ref, dc_SettingsPatchBlob = kdemo_ref,
     dc_MaterializedSnapshotBlob = None, dc_CanonicalLineageDigest = ''l'', dc_MaterializedSettingsDigest = ''m'', dc_ToolFrontierDigest = ''t'',
     dc_SchemaVersion = 1, dc_CompilerEpoch = ''e'', dc_CompactionPolicyVersion = None, dc_CompactionPromptVersion = None, dc_CompactedThroughID = None,
     dc_ProviderState = [], dc_Affinities = [], dc_Provenance = [], dc_CreatedAt = 1, dc_ExpiresAt = 2\<rparr>"

text \<open>The encodings of two checkpoints of one operation.\<close>

definition kdemo_envelope :: "durable_checkpoint \<Rightarrow> string option" where
  "kdemo_envelope c = (if c = kdemo ''a'' then Some ''{a'' else if c = kdemo ''b'' then Some ''{b'' else None)"

definition kdemo_codec :: checkpoint_codec where
  "kdemo_codec = \<lparr>kc_strings = concat, kc_pointer = (\<lambda>p. kp_Blob p @ kp_Operation p @ kp_Handle p),
     kc_readPointer = (\<lambda>s. Some \<lparr>kp_Version = 1, kp_Blob = take 74 s, kp_Operation = take 64 (drop 74 s), kp_Handle = drop 138 s\<rparr>),
     kc_envelope = kdemo_envelope, kc_readEnvelope = (\<lambda>d. if d = ''{a'' then Some (1, kdemo ''a'') else if d = ''{b'' then Some (1, kdemo ''b'') else None),
     kc_payload = kdemo_envelope, kc_canonical = Some, kc_sha = kdemo_sha, kc_proof = (\<lambda>scope tag digest media len. tag)\<rparr>"

lemma kdemo_digest_length: "length (cloud_digest kdemo_env domain data) = 64"
  by (simp add: cloud_digest_def derive_def kdemo_env_def)

lemma kdemo_body: "blobKey kdemo_env s (d @ [x]) = blobKey kdemo_env s' (d' @ [x']) \<Longrightarrow> x = x'"
proof -
  let ?m = "\<lambda>s d. ''llmtw/cloudstate/v1/'' @ (''payload/'' @ s) @ [CHR 0x00] @ d"
  assume "blobKey kdemo_env s (d @ [x]) = blobKey kdemo_env s' (d' @ [x'])"
  then have "hex_encode (tail_digest [] (?m s d @ [x])) = hex_encode (tail_digest [] (?m s' d' @ [x']))"
    by (simp add: blobKey_def cloud_digest_def derive_def kdemo_env_def)
  from hex_encode_inj[OF this] show "x = x'" using tail_digest_end[of "[x]" "[]" "?m s d"] tail_digest_end[of "[x']" "[]" "?m s' d'"] by simp
qed

lemma kdemo_laws: "checkpoint_laws kdemo_env kdemo_codec"
  unfolding checkpoint_laws_def
proof (intro conjI allI impI)
  fix c s d
  have "length (blobKey kdemo_env s d) = 74" using kdemo_digest_length by (simp add: blobKey_def kdemo_env_def)
  then show "reads_back kdemo_codec (checkpoint_pointer_of kdemo_env kdemo_codec c (blobKey kdemo_env s d))"
    using kdemo_digest_length by (simp add: reads_back_def kdemo_codec_def checkpoint_pointer_of_def ck_identity_def checkpointFormat_def)
next
  fix c d assume "encoded_checkpoint kdemo_env kdemo_codec c = Inr d"
  then show "kc_readEnvelope kdemo_codec d = Some (checkpointFormat, c)"
    by (auto simp: encoded_checkpoint_def kdemo_codec_def kdemo_envelope_def objectJSON_def kdemo_env_def checkpointFormat_def split: if_splits)
next
  show "inj_on (\<lambda>(stream, d). blobKey kdemo_env stream d) (checkpoint_bodies kdemo_env kdemo_codec)"
  proof (rule inj_onI, clarify)
    fix s d s' d' assume m: "(s, d) \<in> checkpoint_bodies kdemo_env kdemo_codec" "(s', d') \<in> checkpoint_bodies kdemo_env kdemo_codec"
      and e: "blobKey kdemo_env s d = blobKey kdemo_env s' d'"
    have b: "\<exists>x. t = ck_stream kdemo_env kdemo_codec (dc_ScopeID (kdemo [x])) (dc_ID (kdemo [x])) \<and> u = ''{'' @ [x]" if "(t, u) \<in> checkpoint_bodies kdemo_env kdemo_codec" for t u
      using that by (auto simp: checkpoint_bodies_def kdemo_codec_def split: if_splits)
    show "s = s' \<and> d = d'" using b[OF m(1)] b[OF m(2)] e kdemo_body[of s "''{''" _ s' "''{''"] by auto
  qed
next
  fix c c' h assume h: "ck_digest kdemo_codec c = Some h" "ck_digest kdemo_codec c' = Some h"
  have "c = kdemo ''a'' \<or> c = kdemo ''b''" if "ck_digest kdemo_codec c = Some h" for c
    using that by (auto simp: ck_digest_def CanonicalDigest_def kdemo_codec_def kdemo_envelope_def split: if_splits)
  from this[OF h(1)] this[OF h(2)] show "dc_ScopeID c = dc_ScopeID c'" "dc_OriginOperationID c = dc_OriginOperationID c'" by (auto simp: kdemo_def)
qed

definition kdemo_schedule :: "checkpoint_result action list" where
  "kdemo_schedule =
     [Spawn (bindP (CheckpointWriteBlob kdemo_env kdemo_codec ''s'' ''x'' ''m'') (\<lambda>x. Ret (WriteResult x))), Run 0 100,
      Spawn (bindP (WithCheckpointUnitOfWork kdemo_env kdemo_codec (kdemo ''a'')) (\<lambda>x. Ret (PublishResult (kdemo ''a'') x))),
      Spawn (bindP (WithCheckpointUnitOfWork kdemo_env kdemo_codec (kdemo ''b'')) (\<lambda>x. Ret (PublishResult (kdemo ''b'') x))), Run 1 100, Run 2 100,
      Spawn (bindP (CheckpointGet kdemo_env kdemo_codec ''s'' ''a'') (\<lambda>x. Ret (GetResult x))), Run 3 100]"

definition kdemo_answers :: "(checkpoint_result prog \<times> acks) list \<Rightarrow> string list" where
  "kdemo_answers cs = map (\<lambda>c. case fst c of Ret (PublishResult _ (Inr _)) \<Rightarrow> ''published'' | Ret (PublishResult _ (Inl e)) \<Rightarrow> if errIs e ErrConflict then ''conflict'' else ''error''
     | Ret (GetResult (Inr d)) \<Rightarrow> dc_ID d | Ret (WriteResult (Inr r)) \<Rightarrow> if r = kdemo_ref then ''blob'' else ''other'' | _ \<Rightarrow> ''open'') cs"

abbreviation kdemo_run :: "memory \<times> (checkpoint_result prog \<times> acks) list" where
  "kdemo_run \<equiv> exec 1 kdemo_schedule (empty_memory, [])"

lemma kdemo_reachable: "(system_step (memory_storage 1) (checkpoint_calls kdemo_env kdemo_codec))\<^sup>*\<^sup>* (empty_memory, []) (fst kdemo_run, snd kdemo_run)"
proof -
  have "set (spawned kdemo_schedule) \<subseteq> checkpoint_calls kdemo_env kdemo_codec" by (simp add: kdemo_schedule_def checkpoint_calls_def) blast
  then show ?thesis using exec_system[of kdemo_schedule "checkpoint_calls kdemo_env kdemo_codec" 1 "(empty_memory, [])"] by simp
qed

definition tells :: "checkpoint_result prog \<times> acks \<Rightarrow> string \<Rightarrow> bool" where
  "tells x cid \<longleftrightarrow> (case fst x of Ret (PublishResult c (Inr _)) \<Rightarrow> c = kdemo cid | Ret (GetResult (Inr c)) \<Rightarrow> c = kdemo cid | _ \<Rightarrow> False)"

lemma tells_told: "tells x cid \<Longrightarrow> told x (kdemo cid)"
  by (cases x) (auto simp: tells_def told_def split: prog.splits checkpoint_result.splits sum.splits)

text \<open>One worker publishes \<open>a\<close>, the publication of \<open>b\<close> for the same operation fails, and a read finds \<open>a\<close>.\<close>

definition kdemo_as_expected :: "(checkpoint_result prog \<times> acks) list \<Rightarrow> bool" where
  "kdemo_as_expected cs \<longleftrightarrow> kdemo_answers cs = [''blob'', ''published'', ''conflict'', ''a''] \<and> tells (cs ! 1) ''a'' \<and> tells (cs ! 3) ''a''"

lemma kdemo_outcome: "kdemo_as_expected (snd kdemo_run)"
  by code_simp

theorem one_checkpoint_per_operation_witness:
  "kdemo_answers (snd kdemo_run) = [''blob'', ''published'', ''conflict'', ''a'']
   \<and> told (snd kdemo_run ! 1) (kdemo ''a'') \<and> told (snd kdemo_run ! 3) (kdemo ''a'') \<and> ck_digest kdemo_codec (kdemo ''a'') = ck_digest kdemo_codec (kdemo ''a'')"
proof (intro conjI)
  show "kdemo_answers (snd kdemo_run) = [''blob'', ''published'', ''conflict'', ''a'']" using kdemo_outcome unfolding kdemo_as_expected_def by blast
  show t1: "told (snd kdemo_run ! 1) (kdemo ''a'')" by (rule tells_told) (use kdemo_outcome in \<open>simp add: kdemo_as_expected_def\<close>)
  show t3: "told (snd kdemo_run ! 3) (kdemo ''a'')" by (rule tells_told) (use kdemo_outcome in \<open>simp add: kdemo_as_expected_def\<close>)
  have "length (kdemo_answers (snd kdemo_run)) = 4" using kdemo_outcome unfolding kdemo_as_expected_def by simp
  then have "length (snd kdemo_run) = 4" by (simp add: kdemo_answers_def)
  then have m: "snd kdemo_run ! 1 \<in> set (snd kdemo_run)" "snd kdemo_run ! 3 \<in> set (snd kdemo_run)" by simp_all
  show "ck_digest kdemo_codec (kdemo ''a'') = ck_digest kdemo_codec (kdemo ''a'')"
    by (rule one_checkpoint_per_operation[OF memory_table.versioned_table_axioms empty_memory_sound(1) kdemo_laws empty_memory_sound(2) kdemo_reachable m(1) t1 m(2) t3 refl refl])
qed

end
