(* ===== verification/Cloud_Publish_Facts.thy ===== *)
theory Cloud_Publish_Facts
  imports Cloud_Publish Cloud_Checkpoint_Facts
begin

text \<open>
  The head of a key under arbitrary interleaving: it only moves to later successes, a published success is never lost to an
  earlier one, and a lookup returns only what was published.
\<close>

section \<open>What the head holds\<close>

definition entry_named :: "cloud_env \<Rightarrow> cache_codec \<Rightarrow> response_key \<Rightarrow> kv_item \<Rightarrow> response_entry \<Rightarrow> bool" where
  "entry_named env cc k it e \<longleftrightarrow> (\<exists>p d. holds_pointer cc it p \<and> blobKey env (pt_Stream p) d = pt_Blob p \<and> decode_entry env cc (rk_ScopeID k) p d = Inr e \<and> re_Key e = k)"

definition entry_bodies :: "cloud_env \<Rightarrow> cache_codec \<Rightarrow> string \<Rightarrow> (string \<times> string) set" where
  "entry_bodies env cc scope = {(pt_Stream p, d) | p d e. decode_entry env cc scope p d = Inr e}"

text \<open>
  What is relied on of the encodings: pointers and normalized entries decode to themselves, and the names of different entries do not collide.
\<close>

definition entry_pointer :: "cloud_env \<Rightarrow> cache_codec \<Rightarrow> response_entry \<Rightarrow> string \<Rightarrow> cache_pointer" where
  "entry_pointer env cc e d =
     (let stream = fst (Cloud_Entry.entryKey env cc (rk_ScopeID (re_Key e)) (re_ID e)) in \<lparr>pt_Version = 1, pt_Blob = blobKey env stream d, pt_Stream = stream\<rparr>)"

definition entry_laws :: "cloud_env \<Rightarrow> cache_codec \<Rightarrow> response_key \<Rightarrow> bool" where
  "entry_laws env cc k \<longleftrightarrow>
     (\<forall>e d. cc_readPointer cc (cc_pointer cc (entry_pointer env cc e d)) = Some (entry_pointer env cc e d))
     \<and> (\<forall>e0 e d. normalizeCacheEntry env cc e0 = Inr e \<longrightarrow> cc_entry cc e = Some d \<longrightarrow> cc_readEntry cc d = Some (1, e) \<and> normalizeCacheEntry env cc e = Inr e)
     \<and> inj_on (\<lambda>(stream, d). blobKey env stream d) (entry_bodies env cc (rk_ScopeID k))"

lemma entry_named_one_value:
  assumes "entry_laws env cc k"
  shows "one_value (entry_named env cc k)"
  unfolding one_value_def
proof (intro allI impI)
  fix it e e' assume "entry_named env cc k it e" "entry_named env cc k it e'"
  then obtain p d d' where p: "blobKey env (pt_Stream p) d = pt_Blob p" "blobKey env (pt_Stream p) d' = pt_Blob p"
    "decode_entry env cc (rk_ScopeID k) p d = Inr e" "decode_entry env cc (rk_ScopeID k) p d' = Inr e'"
    unfolding entry_named_def holds_pointer_def by auto
  have inj: "inj_on (\<lambda>(stream, d). blobKey env stream d) (entry_bodies env cc (rk_ScopeID k))" using assms by (simp add: entry_laws_def)
  have "(pt_Stream p, d) \<in> entry_bodies env cc (rk_ScopeID k)" "(pt_Stream p, d') \<in> entry_bodies env cc (rk_ScopeID k)"
    using p(3,4) unfolding entry_bodies_def by blast+
  then have "d = d'" using inj_onD[OF inj, of "(pt_Stream p, d)" "(pt_Stream p, d')"] p(1,2) by simp
  then show "e = e'" using p(3,4) by simp
qed

lemma own_entry_named:
  assumes "entry_laws env cc k" and "normalizeCacheEntry env cc e0 = Inr e" and "cc_entry cc e = Some d" and "re_Key e = k"
  shows "entry_named env cc k (cacheItem cc head (entry_pointer env cc e d)) e"
proof -
  have "cc_readEntry cc d = Some (1, e)" "normalizeCacheEntry env cc e = Inr e" using assms(1,2,3) unfolding entry_laws_def by blast+
  then have "decode_entry env cc (rk_ScopeID k) (entry_pointer env cc e d) d = Inr e"
    using assms(4) by (simp add: decode_entry_def entry_pointer_def Let_def)
  moreover have "holds_pointer cc (cacheItem cc head (entry_pointer env cc e d)) (entry_pointer env cc e d)"
    using assms(1) by (simp add: holds_pointer_def cacheItem_def entry_laws_def)
  ultimately show ?thesis unfolding entry_named_def using assms(4)
    by (intro exI[of _ "entry_pointer env cc e d"] exI[of _ d]) (simp add: entry_pointer_def Let_def)
qed

section \<open>The order of successes\<close>

lemma supersedes_iff: "supersedes e c \<longleftrightarrow> re_CompletedAt c < re_CompletedAt e \<or> (re_CompletedAt c = re_CompletedAt e \<and> re_ID c < re_ID e)"
  unfolding supersedes_def by auto

lemma supersedes_trans: "supersedes a b \<Longrightarrow> supersedes b c \<Longrightarrow> supersedes a c"
  unfolding supersedes_iff by (auto intro: less_trans)

lemma supersedes_irrefl: "\<not> supersedes e e"
  by (simp add: supersedes_iff)

lemma not_supersedes_trans: "\<not> supersedes e b \<Longrightarrow> supersedes c b \<Longrightarrow> \<not> supersedes e c"
  using supersedes_trans by blast

definition later :: "response_entry option \<Rightarrow> response_entry \<Rightarrow> bool" where
  "later old e \<longleftrightarrow> (case old of None \<Rightarrow> True | Some c \<Rightarrow> supersedes e c)"

lemma runs_later: "runs later (Some p) es \<Longrightarrow> sorted_wrt (\<lambda>a b. supersedes b a) (p # es)"
proof (induction es arbitrary: p)
  case (Cons e es)
  have "runs later (Some e) es" and l: "later (Some p) e" using Cons.prems by simp_all
  moreover have "supersedes e p" using l by (simp add: later_def)
  ultimately have "sorted_wrt (\<lambda>a b. supersedes b a) (e # es)" "supersedes e p" using Cons.IH by blast+
  then show ?case using supersedes_trans by auto
qed simp

lemma runs_later_None: "runs later None es \<Longrightarrow> sorted_wrt (\<lambda>a b. supersedes b a) es"
  using runs_later by (cases es) auto

abbreviation head_ok :: "cloud_env \<Rightarrow> cache_codec \<Rightarrow> response_key \<Rightarrow> kv_item option \<Rightarrow> kv_item \<Rightarrow> bool" where
  "head_ok env cc k \<equiv> named_ok (entry_named env cc k) later"

section \<open>The calls\<close>

lemma loadEntry_wp:
  assumes err: "\<And>e F'. F \<subseteq> F' \<Longrightarrow> Q F' A (Inl e)"
    and res: "\<And>e d F'. F \<subseteq> F' \<Longrightarrow> blobKey env (pt_Stream p) d = pt_Blob p \<Longrightarrow> decode_entry env cc scope p d = Inr e \<Longrightarrow> Q F' A (Inr e)"
  shows "wp hk ok Q (loadEntry env cc scope p) F A"
  unfolding loadEntry_def wp_tryP[of _ _ _ "readReferencedBlob _ _ _"]
proof (rule readReferencedBlob_wp, goal_cases)
  case (1 e)
  then show ?case using err by simp
next
  case (2 d)
  show ?case
  proof (cases "decode_entry env cc scope p d")
    case (Inr e)
    have "wp hk ok Q (tryP (readPointer env cc (Cloud_Entry.entryKey env cc scope (re_ID e))) (\<lambda>(bound, _). if bound \<noteq> p then failP [ErrCorrupt] else Ret (Inr e))) F A"
      unfolding wp_tryP by (rule readPointer_wp) (use err res[OF _ _ Inr] 2 in \<open>auto simp: opens_def\<close>)
    then show ?thesis using Inr by simp
  qed (use err in simp)
qed

definition covered :: "cloud_env \<Rightarrow> cache_codec \<Rightarrow> response_key \<Rightarrow> response_entry \<Rightarrow> facts \<Rightarrow> acks \<Rightarrow> bool" where
  "covered env cc k e F A \<longleftrightarrow> (re_Key e = k \<longrightarrow> (\<exists>it v e'. entry_named env cc k it e' \<and> \<not> supersedes e e' \<and> ((it, v) \<in> F \<or> ((it, v) \<in> set A \<and> ki_Key it = success_row env cc k))))"

lemma head_written_wp:
  assumes "\<And>v. r = Inr v \<Longrightarrow> Q F A (Inr ())" and "\<And>e. Q F A (Inl e)" and "wp hk ok Q again F A"
  shows "wp hk ok Q (head_written r again) F A"
  using assms by (cases r) (auto simp: head_written_def)

lemma publish_loop_wp:
  assumes laws: "entry_laws env cc k" and norm: "normalizeCacheEntry env cc e0 = Inr e" and enc: "cc_entry cc e = Some d"
    and other: "re_Key e = k \<or> success_row env cc (re_Key e) \<noteq> success_row env cc k"
  shows "wp (success_row env cc k) (head_ok env cc k) (\<lambda>F A r. r = Inr () \<longrightarrow> covered env cc k e F A) (publish_loop env cc e (entry_pointer env cc e d) n) F A"
proof (induction n arbitrary: F A)
  case 0
  then show ?case by simp
next
  case (Suc n F A)
  let ?hk = "success_row env cc k" and ?item = "cacheItem cc (success_row env cc (re_Key e)) (entry_pointer env cc e d)"
  let ?Q = "\<lambda>F A r. r = Inr () \<longrightarrow> covered env cc k e F A"
  have key: "ki_Key ?item = ?hk \<longleftrightarrow> re_Key e = k" using other by (auto simp: cacheItem_def)
  have named: "entry_named env cc k ?item e" if "re_Key e = k" using own_entry_named[OF laws norm enc that] that by simp
  have written: "wp ?hk (head_ok env cc k) ?Q (head_written r (publish_loop env cc e (entry_pointer env cc e d) n)) F (acked ?item r @ A)" for r F A
  proof (rule head_written_wp)
    show "r = Inr v \<Longrightarrow> Inr () = Inr () \<longrightarrow> covered env cc k e F (acked ?item r @ A)" for v
      using named key supersedes_irrefl[of e] unfolding covered_def by auto
  qed (use Suc in auto)
  have new: "wp ?hk (head_ok env cc k) ?Q (bindP (tableCreate ?item) (\<lambda>w. head_written w (publish_loop env cc e (entry_pointer env cc e d) n))) F A" for F A
    using written named key by (auto simp: tableCreate_def named_ok_def later_def)
  have replace: "wp ?hk (head_ok env cc k) ?Q (bindP (tableReplace ?item v) (\<lambda>w. head_written w (publish_loop env cc e (entry_pointer env cc e d) n))) F A"
    if "re_Key e = k \<longrightarrow> (\<exists>it. (it, v) \<in> F \<and> entry_named env cc k it c)" "supersedes e c" for v c F A
    using written named key that by (auto simp: tableReplace_def named_ok_def later_def)
  show ?case unfolding publish_loop.simps Let_def wp_bind[of _ _ _ "readPointer _ _ _"]
  proof (rule readPointer_wp, goal_cases)
    case (1 err F')
    then show ?case using new by simp
  next
    case (2 p v F')
    have load: "wp ?hk (head_ok env cc k) ?Q (tryP (loadEntry env cc (rk_ScopeID (re_Key e)) p) (\<lambda>current.
               if re_Key current \<noteq> re_Key e then failP [ErrCorrupt]
               else if \<not> supersedes e current then Ret (Inr ())
               else bindP (tableReplace ?item v) (\<lambda>w. head_written w (publish_loop env cc e (entry_pointer env cc e d) n)))) F' A"
      unfolding wp_tryP
    proof (rule loadEntry_wp, goal_cases)
      case (1 err F1)
      then show ?case by simp
    next
      case (2 c b F1)
      have seen: "\<exists>it. (it, v) \<in> F1 \<and> entry_named env cc k it c" if "re_Key e = k" "re_Key c = re_Key e"
        using \<open>success_row env cc (re_Key e) = ?hk \<longrightarrow> _\<close> 2 that unfolding entry_named_def by blast
      then have "covered env cc k e F1 A" if "re_Key c = re_Key e" "\<not> supersedes e c" using that unfolding covered_def by blast
      then show ?case using replace[of v F1 c A] seen by auto
    qed
    then show ?case by simp
  qed
qed

text \<open>Entries, uses and checkpoints live in rows of their own.\<close>

lemma rows_apart:
  "Cloud_Entry.entryKey env cc scope eid \<noteq> success_row env cc k" "useKey env cc scope oid \<noteq> success_row env cc k"
  by (simp_all add: Cloud_Entry.entryKey_def useKey_def success_row_def cache_row_def)

lemma checkpoint_row_apart: "ck_row env kind tag \<noteq> success_row env cc k"
  by (simp add: ck_row_def success_row_def cache_row_def)

lemma quiet_validateOrigin [quiets]: "quiet hk (validateOrigin env cc kc e)"
  unfolding validateOrigin_def by (auto intro!: quiets)

lemma quiet_validateUse [quiets]: "quiet hk (validateUse env kc u e)"
  unfolding validateUse_def by (auto intro!: quiets)

lemma quiet_RecordUse [quiets]: "quiet (success_row env cc k) (RecordUse env cc kc u)"
  unfolding RecordUse_def Let_def using rows_apart by (auto intro!: quiets)

lemma quiet_ReadUse [quiets]: "quiet hk (ReadUse env cc scope oid)"
  unfolding ReadUse_def Let_def by (auto intro!: quiets)

lemma returns_immutable:
  "returns (\<lambda>r. \<forall>p. r = Inr p \<longrightarrow> p = \<lparr>pt_Version = 1, pt_Blob = blobKey env stream data, pt_Stream = stream\<rparr>) (immutable env cc key stream data)"
  unfolding immutable_def Let_def by (auto simp: failP_def intro!: returns_bind returns_tryP split: sum.split)

lemma publish_entry_wp:
  assumes laws: "entry_laws env cc k" and norm: "normalizeCacheEntry env cc e0 = Inr e"
    and other: "re_Key e = k \<or> success_row env cc (re_Key e) \<noteq> success_row env cc k"
  shows "wp (success_row env cc k) (head_ok env cc k) (\<lambda>F A r. r = Inr () \<longrightarrow> covered env cc k e F A) (publish_entry env cc kc e) F A"
  unfolding publish_entry_def wp_tryP[of _ _ _ "validateOrigin _ _ _ _"]
proof (rule wp_quiet[OF quiet_validateOrigin], goal_cases)
  case (1 r F' A')
  let ?key = "Cloud_Entry.entryKey env cc (rk_ScopeID (re_Key e)) (re_ID e)"
  have "wp (success_row env cc k) (head_ok env cc k) (\<lambda>F A r. r = Inr () \<longrightarrow> covered env cc k e F A)
      (tryP (immutable env cc ?key (fst ?key) d) (\<lambda>pointer. publish_loop env cc e pointer 16)) F' A'" if "cc_entry cc e = Some d" for d
    unfolding wp_tryP
  proof (rule wp_quiet_returns[OF quiet_immutable[OF rows_apart(1)] returns_immutable], goal_cases)
    case (1 r F1 A1)
    then show ?case using publish_loop_wp[OF laws norm that other] by (auto simp: entry_pointer_def Let_def split: sum.split)
  qed
  then show ?case by (auto simp: Let_def split: sum.split option.split)
qed

lemma normalize_same: "normalizeCacheEntry env cc e0 = Inr e \<Longrightarrow> re_Key e = re_Key e0 \<and> re_CompletedAt e = re_CompletedAt e0 \<and> re_ID e = re_ID e0"
  by (auto simp: normalizeCacheEntry_def split: if_splits sum.splits option.splits)

lemma Publish_wp:
  assumes laws: "entry_laws env cc k" and other: "re_Key e \<noteq> k \<longrightarrow> success_row env cc (re_Key e) \<noteq> success_row env cc k"
  shows "wp (success_row env cc k) (head_ok env cc k) (\<lambda>F A r. r = Inr () \<longrightarrow> covered env cc k e F A) (Publish env cc kc e) F A"
proof -
  have p: "wp (success_row env cc k) (head_ok env cc k) (\<lambda>F A r. r = Inr () \<longrightarrow> covered env cc k e F A) (publish_entry env cc kc e') F A"
    if n: "normalizeCacheEntry env cc e = Inr e'" for e' F A
  proof (rule wp_conseq[OF publish_entry_wp[OF laws n]])
    show "re_Key e' = k \<or> success_row env cc (re_Key e') \<noteq> success_row env cc k" using other normalize_same[OF n] by metis
    show "x = Inr () \<longrightarrow> covered env cc k e F' A'" if "x = Inr () \<longrightarrow> covered env cc k e' F' A'" for F' A' x
      using that normalize_same[OF n] by (simp add: covered_def supersedes_def)
  qed
  show ?thesis unfolding Publish_def wp_tryP[of _ _ _ validContext] wp_validContext using p by (simp split: sum.split)
qed

text \<open>A lookup answers with an entry that the head has held and that is fresh enough.\<close>

definition looked_up :: "cloud_env \<Rightarrow> cache_codec \<Rightarrow> response_key \<Rightarrow> response_lookup \<Rightarrow> facts \<Rightarrow> response_entry \<Rightarrow> bool" where
  "looked_up env cc k l F e \<longleftrightarrow> fresh_entry l e \<and> (rl_Key l = k \<longrightarrow> (\<exists>it v. (it, v) \<in> F \<and> entry_named env cc k it e))"

lemma Lookup_wp:
  "wp (success_row env cc k) ok (\<lambda>F A r. \<forall>e. r = Inr (Some e) \<longrightarrow> looked_up env cc k l F e) (Lookup env cc l) F A"
proof -
  let ?Q = "\<lambda>F A r. \<forall>e. r = Inr (Some e) \<longrightarrow> looked_up env cc k l F e"
  have body: "wp (success_row env cc k) ok ?Q (tryP (loadEntry env cc (rk_ScopeID (rl_Key l)) p) (\<lambda>e.
      if re_Key e \<noteq> rl_Key l then failP [ErrCorrupt] else Ret (Inr (if fresh_entry l e then Some e else None)))) F A"
    if p: "rl_Key l = k \<longrightarrow> (\<exists>it v. (it, v) \<in> F \<and> holds_pointer cc it p)" for p F A
    unfolding wp_tryP
  proof (rule loadEntry_wp, goal_cases)
    case (1 e F')
    then show ?case by simp
  next
    case (2 e d F')
    then have "\<exists>it v. (it, v) \<in> F' \<and> entry_named env cc k it e" if "rl_Key l = k" "re_Key e = rl_Key l"
      using p that unfolding entry_named_def by blast
    then show ?case by (auto simp: looked_up_def)
  qed
  have head: "wp (success_row env cc k) ok ?Q (bindP (readPointer env cc (cache_row env ''success'' (cc_key cc (rl_Key l)))) (\<lambda>r. case r of
         Inl e \<Rightarrow> if errIs e ErrNotFound then Ret (Inr None) else failP e
       | Inr (p, _) \<Rightarrow> tryP (loadEntry env cc (rk_ScopeID (rl_Key l)) p) (\<lambda>e.
             if re_Key e \<noteq> rl_Key l then failP [ErrCorrupt] else Ret (Inr (if fresh_entry l e then Some e else None))))) F A" for F A
    unfolding wp_bind
  proof (rule readPointer_wp, goal_cases)
    case (1 e F')
    then show ?case by simp
  next
    case (2 p v F')
    then show ?case using body[of F' p A] by (auto simp: success_row_def)
  qed
  show ?thesis unfolding Lookup_def wp_tryP[of _ _ _ validContext] wp_validContext using head by simp
qed

section \<open>Any number of workers\<close>

datatype publish_result = Published response_entry "store_error + unit" | LookedUp response_lookup "store_error + response_entry option" | Used "store_error + unit" | ReadBack "store_error + response_use"
  | Stored "store_error + unit" | Wrote "store_error + blob_reference"

definition publish_calls :: "cloud_env \<Rightarrow> cache_codec \<Rightarrow> checkpoint_codec \<Rightarrow> response_entry set \<Rightarrow> publish_result prog set" where
  "publish_calls env cc kc Es =
     {bindP (Publish env cc kc e) (\<lambda>x. Ret (Published e x)) | e. e \<in> Es} \<union> {bindP (Lookup env cc l) (\<lambda>x. Ret (LookedUp l x)) | l. True}
     \<union> {bindP (RecordUse env cc kc u) (\<lambda>x. Ret (Used x)) | u. True} \<union> {bindP (ReadUse env cc scope oid) (\<lambda>x. Ret (ReadBack x)) | scope oid. True}
     \<union> {bindP (WithCheckpointUnitOfWork env kc c) (\<lambda>x. Ret (Stored x)) | c. True} \<union> {bindP (CheckpointWriteBlob env kc scope d media) (\<lambda>x. Ret (Wrote x)) | scope d media. True}"

definition publish_post :: "cloud_env \<Rightarrow> cache_codec \<Rightarrow> response_key \<Rightarrow> facts \<Rightarrow> acks \<Rightarrow> publish_result \<Rightarrow> bool" where
  "publish_post env cc k F A r \<longleftrightarrow>
     (case r of Published e (Inr _) \<Rightarrow> covered env cc k e F A | LookedUp l (Inr (Some e)) \<Rightarrow> looked_up env cc k l F e | _ \<Rightarrow> True)"

definition keys_apart :: "cloud_env \<Rightarrow> cache_codec \<Rightarrow> response_key \<Rightarrow> response_entry set \<Rightarrow> bool" where
  "keys_apart env cc k Es \<longleftrightarrow> (\<forall>e \<in> Es. re_Key e \<noteq> k \<longrightarrow> success_row env cc (re_Key e) \<noteq> success_row env cc k)"

lemma publish_calls_wp:
  assumes "entry_laws env cc k" and "keys_apart env cc k Es" and "p \<in> publish_calls env cc kc Es"
  shows "wp (success_row env cc k) (head_ok env cc k) (publish_post env cc k) p {} []"
proof -
  consider e where "p = bindP (Publish env cc kc e) (\<lambda>x. Ret (Published e x))" "e \<in> Es" | l where "p = bindP (Lookup env cc l) (\<lambda>x. Ret (LookedUp l x))"
    | u where "p = bindP (RecordUse env cc kc u) (\<lambda>x. Ret (Used x))" | scope oid where "p = bindP (ReadUse env cc scope oid) (\<lambda>x. Ret (ReadBack x))"
    | c where "p = bindP (WithCheckpointUnitOfWork env kc c) (\<lambda>x. Ret (Stored x))" | scope d media where "p = bindP (CheckpointWriteBlob env kc scope d media) (\<lambda>x. Ret (Wrote x))"
    using assms(3) unfolding publish_calls_def by blast
  then show ?thesis
  proof cases
    case 1
    have o: "re_Key e \<noteq> k \<longrightarrow> success_row env cc (re_Key e) \<noteq> success_row env cc k" using assms(2) 1(2) by (simp add: keys_apart_def)
    show ?thesis unfolding 1 wp_bind wp.simps by (rule wp_conseq[OF Publish_wp[OF assms(1) o]]) (auto simp: publish_post_def split: sum.split)
  next
    case 2
    show ?thesis unfolding 2 wp_bind wp.simps by (rule wp_conseq[OF Lookup_wp]) (auto simp: publish_post_def split: sum.split option.split)
  next
    case 3
    show ?thesis unfolding 3 wp_bind wp.simps by (rule wp_quiet[OF quiet_RecordUse]) (simp add: publish_post_def)
  next
    case 4
    show ?thesis unfolding 4 wp_bind wp.simps by (rule wp_quiet[OF quiet_ReadUse]) (simp add: publish_post_def)
  next
    case 5
    show ?thesis unfolding 5 wp_bind wp.simps by (rule wp_quiet[OF quiet_WithCheckpointUnitOfWork[OF checkpoint_row_apart]]) (simp add: publish_post_def)
  next
    case 6
    show ?thesis unfolding 6 wp_bind wp.simps by (rule wp_quiet[OF quiet_CheckpointWriteBlob]) (simp add: publish_post_def)
  qed
qed

text \<open>What a worker saw or wrote in a row is among the values of the row.\<close>

lemma row_value_seen:
  assumes "clients_ok hk ok Q l cs" and "x \<in> set cs" and "F \<subseteq> set l" and "(it, v) \<in> F \<or> (it, v) \<in> set (snd x) \<and> ki_Key it = hk"
    and "names it e" and "one_value names" and "row_values names l es"
  shows "e \<in> set es"
proof -
  have "set (row_acks hk (snd x)) \<subseteq> set l" using assms(1,2) unfolding clients_ok_def by fastforce
  then have "(it, v) \<in> set l" using assms(3,4) by (auto simp: row_acks_def)
  then obtain i where i: "i < length l" "l ! i = (it, v)" by (auto simp: in_set_conv_nth)
  then have "names it (es ! i)" "i < length es" using assms(7) by (auto simp: list_all2_conv_all_nth)
  then show ?thesis using assms(5,6) unfolding one_value_def by (metis nth_mem)
qed

lemma published_in_row:
  assumes ok: "clients_ok (success_row env cc k) (head_ok env cc k) (publish_post env cc k) l cs" and x: "x \<in> set cs" "fst x = Ret (Published e (Inr ()))" "re_Key e = k"
    and "one_value (entry_named env cc k)" and "row_values (entry_named env cc k) l es"
  shows "\<exists>e' \<in> set es. \<not> supersedes e e'"
proof -
  obtain F where F: "F \<subseteq> set l" "publish_post env cc k F (snd x) (Published e (Inr ()))" using ok x(1,2) unfolding clients_ok_def by fastforce
  then obtain it v e' where "entry_named env cc k it e'" "\<not> supersedes e e'" "(it, v) \<in> F \<or> (it, v) \<in> set (snd x) \<and> ki_Key it = success_row env cc k"
    using x(3) by (auto simp: publish_post_def covered_def)
  then show ?thesis using row_value_seen[OF ok x(1) F(1) _ _ assms(5,6)] by blast
qed

lemma sorted_last: "e \<in> set es \<Longrightarrow> sorted_wrt P es \<Longrightarrow> e = last es \<or> P e (last es)"
  by (induction es) auto

lemma publish_system:
  assumes "versioned_table st log sound" and "sound w0" and "entry_laws env cc k" and "keys_apart env cc k Es" and "log w0 (success_row env cc k) = []"
    and "(system_step st (publish_calls env cc kc Es))\<^sup>*\<^sup>* (w0, []) (w, cs)"
  shows "clients_ok (success_row env cc k) (head_ok env cc k) (publish_post env cc k) (log w (success_row env cc k)) cs
    \<and> (\<exists>es. row_values (entry_named env cc k) (log w (success_row env cc k)) es \<and> runs later None es)"
proof -
  have ok: "clients_ok (success_row env cc k) (head_ok env cc k) (publish_post env cc k) (log w (success_row env cc k)) cs"
    using versioned_table.system_ok[OF assms(1,2,6,5)] publish_calls_wp[OF assms(3,4)] by blast
  then show ?thesis using clients_ok_runs[OF ok entry_named_one_value[OF assms(3)]] by blast
qed

section \<open>A run\<close>

definition pdemo_key :: response_key where
  "pdemo_key = \<lparr>rk_ScopeID = ''s'', rk_Operation = OperationGenerate,
     rk_Route = \<lparr>ri_Provider = ''p'', ri_Endpoint = ''e'', ri_Account = [], ri_Region = [], ri_Model = ''m'', ri_Revision = ''r'', ri_Compiler = ''c''\<rparr>,
     rk_Fingerprint = replicate 32 CHR ''f'', rk_RequestIndex = 0\<rparr>"

definition pdemo_entry :: response_entry where
  "pdemo_entry = \<lparr>re_ID = ''x'', re_Key = pdemo_key, re_OriginOperationID = ''o'', re_OriginCheckpointID = ''a'', re_CompletedAt = 5, re_Response = ''{r''\<rparr>"

definition pdemo_view :: response_view where
  "pdemo_view = \<lparr>rv_Status = ''completed'', rv_CheckpointKind = ''generation'', rv_OperationID = ''o'', rv_Disposition = [], rv_Depth = 0, rv_HasParent = False,
     rv_OutputDigest = Some (kdemo_sha ''x'')\<rparr>"

definition pdemo_codec :: cache_codec where
  "pdemo_codec = \<lparr>cc_key = rk_ScopeID, cc_strings = concat, cc_attempt = (\<lambda>k a. a), cc_pointer = (\<lambda>p. pt_Blob p @ pt_Stream p),
     cc_readPointer = (\<lambda>s. Some \<lparr>pt_Version = 1, pt_Blob = take 74 s, pt_Stream = drop 74 s\<rparr>), cc_fill = (\<lambda>_. None), cc_readFill = (\<lambda>_. None),
     cc_entry = (\<lambda>e. if e = pdemo_entry then Some ''{x'' else None), cc_readEntry = (\<lambda>d. if d = ''{x'' then Some (1, pdemo_entry) else None),
     cc_use = (\<lambda>_. []), cc_readUse = (\<lambda>_. None), cc_response = (\<lambda>_ _. Some pdemo_view)\<rparr>"

lemma pdemo_laws: "entry_laws kdemo_env pdemo_codec pdemo_key"
  unfolding entry_laws_def
proof (intro conjI allI impI)
  fix e d
  have "length (pt_Blob (entry_pointer kdemo_env pdemo_codec e d)) = 74" using kdemo_digest_length
    by (simp add: entry_pointer_def blobKey_def kdemo_env_def Let_def)
  then show "cc_readPointer pdemo_codec (cc_pointer pdemo_codec (entry_pointer kdemo_env pdemo_codec e d)) = Some (entry_pointer kdemo_env pdemo_codec e d)"
    by (cases "entry_pointer kdemo_env pdemo_codec e d") (simp add: pdemo_codec_def entry_pointer_def Let_def)
next
  fix e0 e d assume n: "normalizeCacheEntry kdemo_env pdemo_codec e0 = Inr e" and "cc_entry pdemo_codec e = Some d"
  then show "cc_readEntry pdemo_codec d = Some (1, e)" by (auto simp: pdemo_codec_def split: if_splits)
  have "e = e0" using n by (auto simp: normalizeCacheEntry_def objectJSON_def kdemo_env_def split: if_splits option.splits)
  then show "normalizeCacheEntry kdemo_env pdemo_codec e = Inr e" using n by simp
next
  have b: "s = fst (Cloud_Entry.entryKey kdemo_env pdemo_codec scope ''x'') \<and> d = ''{x''" if "(s, d) \<in> entry_bodies kdemo_env pdemo_codec scope" for s d scope
    using that by (auto simp: entry_bodies_def decode_entry_def pdemo_codec_def pdemo_entry_def split: if_splits option.splits)
  show "inj_on (\<lambda>(stream, d). blobKey kdemo_env stream d) (entry_bodies kdemo_env pdemo_codec (rk_ScopeID pdemo_key))"
    by (rule inj_onI) (metis b surj_pair)
qed

definition pdemo_schedule :: "publish_result action list" where
  "pdemo_schedule =
     [Spawn (bindP (CheckpointWriteBlob kdemo_env kdemo_codec ''s'' ''x'' ''m'') (\<lambda>x. Ret (Wrote x))), Run 0 100,
      Spawn (bindP (WithCheckpointUnitOfWork kdemo_env kdemo_codec (kdemo ''a'')) (\<lambda>x. Ret (Stored x))), Run 1 100,
      Spawn (bindP (Publish kdemo_env pdemo_codec kdemo_codec pdemo_entry) (\<lambda>x. Ret (Published pdemo_entry x))), Run 2 100,
      Spawn (bindP (Lookup kdemo_env pdemo_codec \<lparr>rl_Key = pdemo_key, rl_Now = 6, rl_MaxAge = Some 3\<rparr>) (\<lambda>x. Ret (LookedUp \<lparr>rl_Key = pdemo_key, rl_Now = 6, rl_MaxAge = Some 3\<rparr> x))), Run 3 100]"

abbreviation pdemo_run :: "memory \<times> (publish_result prog \<times> acks) list" where
  "pdemo_run \<equiv> exec 1 pdemo_schedule (empty_memory, [])"

abbreviation pdemo_calls :: "publish_result prog set" where
  "pdemo_calls \<equiv> publish_calls kdemo_env pdemo_codec kdemo_codec {pdemo_entry}"

lemma pdemo_reachable: "(system_step (memory_storage 1) pdemo_calls)\<^sup>*\<^sup>* (empty_memory, []) (fst pdemo_run, snd pdemo_run)"
proof -
  have "set (spawned pdemo_schedule) \<subseteq> pdemo_calls" by (simp add: pdemo_schedule_def publish_calls_def) blast
  then show ?thesis using exec_system[of pdemo_schedule pdemo_calls 1 "(empty_memory, [])"] by simp
qed

lemma pdemo_apart: "keys_apart kdemo_env pdemo_codec pdemo_key {pdemo_entry}"
  by (simp add: keys_apart_def pdemo_entry_def)

definition pdemo_published :: "publish_result prog \<times> acks \<Rightarrow> bool" where
  "pdemo_published x \<longleftrightarrow> (case fst x of Ret (Published e (Inr _)) \<Rightarrow> e = pdemo_entry | _ \<Rightarrow> False)"

definition pdemo_found :: "publish_result prog \<times> acks \<Rightarrow> bool" where
  "pdemo_found x \<longleftrightarrow> (case fst x of Ret (LookedUp l (Inr (Some e))) \<Rightarrow> e = pdemo_entry \<and> rl_Key l = pdemo_key | _ \<Rightarrow> False)"

definition pdemo_as_expected :: "(publish_result prog \<times> acks) list \<Rightarrow> bool" where
  "pdemo_as_expected cs \<longleftrightarrow> list_ex pdemo_published cs \<and> list_ex pdemo_found cs"

lemma pdemo_outcome: "pdemo_as_expected (snd pdemo_run)"
  by code_simp

lemma pdemo_clients:
  "\<exists>x \<in> set (snd pdemo_run). fst x = Ret (Published pdemo_entry (Inr ()))"
  "\<exists>x \<in> set (snd pdemo_run). \<exists>l. fst x = Ret (LookedUp l (Inr (Some pdemo_entry))) \<and> rl_Key l = pdemo_key"
proof -
  obtain x y where xy: "x \<in> set (snd pdemo_run)" "pdemo_published x" "y \<in> set (snd pdemo_run)" "pdemo_found y"
    using pdemo_outcome unfolding pdemo_as_expected_def list_ex_iff by blast
  have "fst x = Ret (Published pdemo_entry (Inr ()))" using xy(2)
    by (auto simp: pdemo_published_def split: prog.splits publish_result.splits sum.splits)
  then show "\<exists>x \<in> set (snd pdemo_run). fst x = Ret (Published pdemo_entry (Inr ()))" using xy(1) by blast
  have "\<exists>l. fst y = Ret (LookedUp l (Inr (Some pdemo_entry))) \<and> rl_Key l = pdemo_key" using xy(4)
    by (auto simp: pdemo_found_def split: prog.splits publish_result.splits sum.splits option.splits)
  then show "\<exists>x \<in> set (snd pdemo_run). \<exists>l. fst x = Ret (LookedUp l (Inr (Some pdemo_entry))) \<and> rl_Key l = pdemo_key" using xy(3) by blast
qed

lemmas pdemo_hypotheses = memory_table.versioned_table_axioms empty_memory_sound(1) pdemo_laws pdemo_apart empty_memory_sound(2) pdemo_reachable

text \<open>C20: the latest success of a key is never lost. However many workers publish, look up and record uses, with any interleaving of their storage
  calls, failures and lost acknowledgements: the successes that the head of a key takes are, in order, strictly later by completion
  time and then by ID, and once a publication of a success has succeeded, the head is at that success or a later one.\<close>

theorem latest_success_kept:
  assumes "versioned_table st log sound" and "sound w0" and "entry_laws env cc k" and "keys_apart env cc k Es" and "log w0 (success_row env cc k) = []"
    and "(system_step st (publish_calls env cc kc Es))\<^sup>*\<^sup>* (w0, []) (w, cs)"
  shows "\<exists>es. row_values (entry_named env cc k) (log w (success_row env cc k)) es \<and> sorted_wrt (\<lambda>a b. supersedes b a) es
    \<and> (\<forall>x \<in> set cs. \<forall>e. fst x = Ret (Published e (Inr ())) \<longrightarrow> re_Key e = k \<longrightarrow> es \<noteq> [] \<and> \<not> supersedes e (last es))"
proof -
  let ?hk = "success_row env cc k" and ?P = "\<lambda>a b. supersedes b a"
  obtain es where ok: "clients_ok ?hk (head_ok env cc k) (publish_post env cc k) (log w ?hk) cs"
    and es: "row_values (entry_named env cc k) (log w ?hk) es" "runs later None es"
    using publish_system[OF assms] by blast
  have sorted: "sorted_wrt ?P es" by (rule runs_later_None[OF es(2)])
  have "es \<noteq> [] \<and> \<not> supersedes e (last es)" if x: "x \<in> set cs" "fst x = Ret (Published e (Inr ()))" "re_Key e = k" for x e
  proof -
    obtain e' where e': "e' \<in> set es" "\<not> supersedes e e'" using published_in_row[OF ok x entry_named_one_value[OF assms(3)] es(1)] by blast
    have "e' = last es \<or> supersedes (last es) e'" using sorted_last[OF e'(1) sorted] by simp
    then have "\<not> supersedes e (last es)" using e'(2) not_supersedes_trans[of e e' "last es"] by blast
    then show ?thesis using e'(1) by auto
  qed
  then show ?thesis using es(1) sorted by blast
qed

theorem latest_success_kept_witness:
  "\<exists>es. row_values (entry_named kdemo_env pdemo_codec pdemo_key) (me_history (fst pdemo_run) (success_row kdemo_env pdemo_codec pdemo_key)) es
     \<and> es \<noteq> [] \<and> \<not> supersedes pdemo_entry (last es)"
proof -
  obtain x where "x \<in> set (snd pdemo_run)" "fst x = Ret (Published pdemo_entry (Inr ()))" using pdemo_clients(1) by blast
  moreover have "re_Key pdemo_entry = pdemo_key" by (simp add: pdemo_entry_def)
  ultimately show ?thesis using latest_success_kept[OF pdemo_hypotheses] by blast
qed

text \<open>A lookup returns only published successes. In every such run, an entry that a lookup of the key answers with is one of the successes that the head of the
  key has held, and it is within the age and clock skew that the lookup asked for.\<close>

theorem lookup_returns_published:
  assumes "versioned_table st log sound" and "sound w0" and "entry_laws env cc k" and "keys_apart env cc k Es" and "log w0 (success_row env cc k) = []"
    and "(system_step st (publish_calls env cc kc Es))\<^sup>*\<^sup>* (w0, []) (w, cs)"
    and "x \<in> set cs" and "fst x = Ret (LookedUp l (Inr (Some e)))" and "rl_Key l = k" and "row_values (entry_named env cc k) (log w (success_row env cc k)) es"
  shows "e \<in> set es \<and> re_Key e = k \<and> fresh_entry l e"
proof -
  let ?hk = "success_row env cc k"
  have ok: "clients_ok ?hk (head_ok env cc k) (publish_post env cc k) (log w ?hk) cs" using publish_system[OF assms(1-6)] by blast
  obtain F where "F \<subseteq> set (log w ?hk)" "publish_post env cc k F (snd x) (LookedUp l (Inr (Some e)))"
    using ok assms(7,8) unfolding clients_ok_def by (metis wp.simps(1))
  then have F: "F \<subseteq> set (log w ?hk)" "looked_up env cc k l F e" by (simp_all add: publish_post_def)
  then obtain it v where it: "(it, v) \<in> F" "entry_named env cc k it e" using assms(9) unfolding looked_up_def by blast
  have "e \<in> set es" using row_value_seen[OF ok assms(7) F(1) _ it(2) entry_named_one_value[OF assms(3)] assms(10)] it(1) by blast
  then show ?thesis using F(2) it(2) unfolding looked_up_def entry_named_def by blast
qed

theorem lookup_returns_published_witness:
  "\<exists>es. row_values (entry_named kdemo_env pdemo_codec pdemo_key) (me_history (fst pdemo_run) (success_row kdemo_env pdemo_codec pdemo_key)) es \<and> pdemo_entry \<in> set es"
proof -
  obtain x l where x: "x \<in> set (snd pdemo_run)" "fst x = Ret (LookedUp l (Inr (Some pdemo_entry)))" "rl_Key l = pdemo_key" using pdemo_clients(2) by blast
  obtain es where es: "row_values (entry_named kdemo_env pdemo_codec pdemo_key) (me_history (fst pdemo_run) (success_row kdemo_env pdemo_codec pdemo_key)) es"
    using publish_system[OF pdemo_hypotheses] by blast
  then show ?thesis using lookup_returns_published[OF pdemo_hypotheses x es] by blast
qed

end
