(* ===== verification/Cloud_Request.thy ===== *)
theory Cloud_Request
  imports Cloud_Base "HOL-Library.List_Lexorder" "HOL-Library.Char_ord"
begin

text \<open>
  Durable requests over cloud storage: \<^verbatim>\<open>storage/cloudstate/model.go\<close>, \<^verbatim>\<open>repository.go\<close>, \<^verbatim>\<open>pending.go\<close> and \<^verbatim>\<open>operation.go\<close>. A request is an event
  stream of pointers to encrypted records, one event for each revision, beside a row of the pending index that makes it discoverable.
  \<open>request_codec\<close> holds the JSON encodings, SHA-256 and the UUID codec. A revision is a \<open>nat\<close>: it never exceeds \<open>maxRevisions\<close>. Contexts
  carry no record reuse (\<^verbatim>\<open>WithRecordReuse\<close>); the cache itself is modelled in \<open>Record_Reuse\<close>.
\<close>

section \<open>Data\<close>

datatype status = StatusPending | StatusRunning | StatusProviderPending | StatusCompleted | StatusFailed | StatusOutcomeUnknown | StatusOther string

definition status_terminal :: "status \<Rightarrow> bool" where
  "status_terminal s \<longleftrightarrow> s = StatusCompleted \<or> s = StatusFailed"

definition status_valid :: "status \<Rightarrow> bool" where
  "status_valid s \<longleftrightarrow> s \<in> {StatusPending, StatusRunning, StatusProviderPending, StatusCompleted, StatusFailed, StatusOutcomeUnknown}"

definition validTransition :: "status \<Rightarrow> status \<Rightarrow> bool" where
  "validTransition old new \<longleftrightarrow>
     (if \<not> status_valid new \<or> status_terminal old then False
      else case old of
             StatusPending \<Rightarrow> new \<in> {StatusPending, StatusRunning, StatusCompleted, StatusFailed}
           | StatusRunning \<Rightarrow> new \<in> {StatusRunning, StatusProviderPending, StatusCompleted, StatusFailed, StatusOutcomeUnknown}
           | StatusProviderPending \<Rightarrow> new \<in> {StatusRunning, StatusProviderPending, StatusCompleted, StatusFailed, StatusOutcomeUnknown}
           | StatusOutcomeUnknown \<Rightarrow> new \<in> {StatusRunning, StatusProviderPending, StatusFailed, StatusOutcomeUnknown}
           | _ \<Rightarrow> False)"

record scope =
  sc_Tenant :: string
  sc_Project :: string

record create_request =
  cq_ID :: string
  cq_Scope :: scope
  cq_Kind :: string
  cq_RequestIndex :: int
  cq_Manifest :: string
  cq_CreatedAt :: gotime

record request_record =
  rr_Request :: create_request
  rr_Fingerprint :: string
  rr_Revision :: nat
  rr_Status :: status
  rr_Progress :: string
  rr_UpdatedAt :: gotime

record request_update =
  up_ExpectedRevision :: nat
  up_Token :: string
  up_Status :: status
  up_Progress :: string
  up_UpdatedAt :: gotime

record record_pointer =
  rp_ID :: string
  rp_ScopeTag :: string
  rp_Binding :: string
  rp_Revision :: nat
  rp_Status :: status
  rp_Blob :: string

record index_record =
  ix_Schema :: int
  ix_ID :: string
  ix_ScopeTag :: string
  ix_Binding :: string
  ix_Revision :: nat
  ix_Status :: status
  ix_UpdatedAt :: gotime

record pending_request =
  pq_ID :: string
  pq_Status :: status
  pq_Revision :: nat
  pq_UpdatedAt :: gotime
  pq_Initializing :: bool

record pending_page =
  pp_Requests :: "pending_request list"
  pp_NextPageToken :: string

record operation =
  oq_Scope :: scope
  oq_Kind :: string
  oq_Key :: string
  oq_RequestIndex :: int
  oq_Manifest :: string
  oq_Now :: gotime

text \<open>\<open>rc_pages\<close> bounds the pages of a history that \<^verbatim>\<open>readRevision\<close> asks for; the loop of the code has no bound of its own.\<close>

record request_codec =
  rc_uuidParse :: "string \<Rightarrow> string option"
  rc_uuidString :: "string \<Rightarrow> string"
  rc_scope :: "scope \<Rightarrow> string"
  rc_request :: "create_request \<Rightarrow> string"
  rc_fingerprint :: "scope \<Rightarrow> string \<Rightarrow> int \<Rightarrow> string \<Rightarrow> string"
  rc_record :: "request_record \<Rightarrow> string option"
  rc_readRecord :: "string \<Rightarrow> request_record option"
  rc_pointer :: "record_pointer \<Rightarrow> string"
  rc_readPointer :: "string \<Rightarrow> record_pointer option"
  rc_index :: "index_record \<Rightarrow> string"
  rc_readIndex :: "string \<Rightarrow> index_record option"
  rc_identity :: "string \<Rightarrow> scope \<Rightarrow> string \<Rightarrow> string \<Rightarrow> string"
  rc_sha :: "string \<Rightarrow> string"
  rc_pages :: nat

section \<open>Identity and validation\<close>

definition RequestIDPrefix :: string where "RequestIDPrefix = ''llmtw_req_''"
definition PendingShards :: nat where "PendingShards = 8"
definition maxRevisions :: nat where "maxRevisions = 10000"

text \<open>For evaluation: comparisons with these bounds in binary.\<close>

lemma maxRevisions_code [code_unfold]: "maxRevisions < n \<longleftrightarrow> (10000 :: int) < int n" "maxRevisions \<le> n \<longleftrightarrow> (10000 :: int) \<le> int n"
  by (simp_all add: maxRevisions_def)

lemma bytes_code [code_unfold]: "(4096 :: nat) < length d \<longleftrightarrow> (4096 :: int) < int (length d)" "(2048 :: nat) < length d \<longleftrightarrow> (2048 :: int) < int (length d)"
  by simp_all

definition nil_uuid :: string where "nil_uuid = replicate 16 CHR 0x00"

definition request_id_valid :: "request_codec \<Rightarrow> string \<Rightarrow> bool" where
  "request_id_valid rq i \<longleftrightarrow>
     has_prefix RequestIDPrefix i
     \<and> (let t = drop (length RequestIDPrefix) i
        in case rc_uuidParse rq t of None \<Rightarrow> False | Some u \<Rightarrow> u \<noteq> nil_uuid \<and> rc_uuidString rq u = t)"

definition scope_valid :: "scope \<Rightarrow> bool" where
  "scope_valid s \<longleftrightarrow> safeText (sc_Tenant s) 256 \<and> safeText (sc_Project s) 256"

definition normalizeRequest :: "cloud_env \<Rightarrow> request_codec \<Rightarrow> create_request \<Rightarrow> store_error + create_request" where
  "normalizeRequest env rq r =
     (if \<not> request_id_valid rq (cq_ID r) \<or> \<not> scope_valid (cq_Scope r) \<or> (cq_Kind r \<noteq> ''generate'' \<and> cq_Kind r \<noteq> ''compact'') \<or> cq_RequestIndex r < 0 \<or> \<not> validTime (cq_CreatedAt r)
      then Inl [ErrInvalid]
      else bindE (objectJSON env (cq_Manifest r)) (\<lambda>m. Inr (r\<lparr>cq_Manifest := m\<rparr>)))"

definition request_stream :: "cloud_env \<Rightarrow> string \<Rightarrow> string" where
  "request_stream env i = cv_namespace env @ ''/request/'' @ i"

definition scopeTag :: "cloud_env \<Rightarrow> request_codec \<Rightarrow> scope \<Rightarrow> string" where
  "scopeTag env rq s = cloud_digest env ''scope'' (rc_scope rq s)"

definition binding :: "cloud_env \<Rightarrow> request_codec \<Rightarrow> create_request \<Rightarrow> string" where
  "binding env rq r = cloud_digest env ''request-binding'' (rc_request rq r)"

definition fingerprint :: "cloud_env \<Rightarrow> request_codec \<Rightarrow> create_request \<Rightarrow> string" where
  "fingerprint env rq r = cloud_digest env ''request-fingerprint'' (rc_fingerprint rq (cq_Scope r) (cq_Kind r) (cq_RequestIndex r) (cq_Manifest r))"

definition encodeRecord :: "request_codec \<Rightarrow> request_record \<Rightarrow> store_error + string" where
  "encodeRecord rq r =
     (case rc_record rq r of
        None \<Rightarrow> Inl [ErrInvalid]
      | Some d \<Rightarrow> if int (length d) > maxPayloadBytes then Inl [ErrRecordTooLarge, ErrInvalid] else Inr d)"

section \<open>The pending index\<close>

definition PendingShard :: "request_codec \<Rightarrow> string \<Rightarrow> nat" where
  "PendingShard rq i = (if request_id_valid rq i then of_char (last (rc_sha rq i)) mod PendingShards else 0)"

definition pending_partition :: "cloud_env \<Rightarrow> nat \<Rightarrow> string" where
  "pending_partition env shard = cv_namespace env @ ''/pending/'' @ nat_dec shard"

definition indexKey :: "cloud_env \<Rightarrow> request_codec \<Rightarrow> string \<Rightarrow> kv_key" where
  "indexKey env rq i = (pending_partition env (PendingShard rq i), i)"

definition indexItem :: "cloud_env \<Rightarrow> request_codec \<Rightarrow> index_record \<Rightarrow> kv_item" where
  "indexItem env rq ix = \<lparr>ki_Key = indexKey env rq (ix_ID ix), ki_Fields = [(''request'', rc_index rq ix)]\<rparr>"

definition decodeIndex :: "cloud_env \<Rightarrow> request_codec \<Rightarrow> kv_row \<Rightarrow> store_error + index_record" where
  "decodeIndex env rq row =
     (case mget (ki_Fields (kr_Item row)) ''request'' of
        None \<Rightarrow> Inl [ErrCorrupt]
      | Some data \<Rightarrow>
          if length data > 2048 then Inl [ErrCorrupt]
          else case rc_readIndex rq data of
                 None \<Rightarrow> Inl [ErrCorrupt]
               | Some ix \<Rightarrow>
                   if ix_Schema ix \<noteq> 1 \<or> \<not> request_id_valid rq (ix_ID ix) \<or> \<not> hexDigest (ix_ScopeTag ix) \<or> \<not> hexDigest (ix_Binding ix) \<or> \<not> status_valid (ix_Status ix)
                      \<or> ix_Revision ix > maxRevisions \<or> \<not> validTime (ix_UpdatedAt ix) \<or> kr_Version row = [] \<or> ki_Key (kr_Item row) \<noteq> indexKey env rq (ix_ID ix)
                      \<or> (ix_Revision ix = 0 \<and> ix_Status ix \<noteq> StatusPending)
                   then Inl [ErrCorrupt] else Inr ix)"

definition ensureIndex :: "cloud_env \<Rightarrow> request_codec \<Rightarrow> create_request \<Rightarrow> (store_error + unit) prog" where
  "ensureIndex env rq r =
     (let ix = \<lparr>ix_Schema = 1, ix_ID = cq_ID r, ix_ScopeTag = scopeTag env rq (cq_Scope r), ix_Binding = binding env rq r, ix_Revision = 0,
                ix_Status = StatusPending, ix_UpdatedAt = cq_CreatedAt r\<rparr>
      in bindP (tableCreate (indexItem env rq ix)) (\<lambda>c. case c of
           Inr _ \<Rightarrow> Ret (Inr ())
         | Inl e \<Rightarrow>
             if errIs e ErrOutcomeUnknown \<or> \<not> errIs e ErrAlreadyExists then failP e
             else tryP (tableGet (indexKey env rq (cq_ID r))) (\<lambda>row.
               case decodeIndex env rq row of
                 Inl e \<Rightarrow> failP e
               | Inr previous \<Rightarrow>
                   if ix_ScopeTag previous \<noteq> ix_ScopeTag ix \<or> ix_Binding previous \<noteq> ix_Binding ix then failP [ErrConflict] else Ret (Inr ()))))"

fun advance_loop :: "cloud_env \<Rightarrow> request_codec \<Rightarrow> request_record \<Rightarrow> nat \<Rightarrow> (store_error + unit) prog" where
  "advance_loop env rq rec 0 = failP [ErrConflict]"
| "advance_loop env rq rec (Suc n) =
     tryP (tableGet (indexKey env rq (cq_ID (rr_Request rec)))) (\<lambda>row.
       case decodeIndex env rq row of
         Inl e \<Rightarrow> failP e
       | Inr previous \<Rightarrow>
           if ix_Binding previous \<noteq> binding env rq (rr_Request rec) \<or> ix_ScopeTag previous \<noteq> scopeTag env rq (cq_Scope (rr_Request rec)) then failP [ErrCorrupt]
           else if ix_Revision previous > rr_Revision rec then Ret (Inr ())
           else if ix_Revision previous = rr_Revision rec then
             (if ix_Status previous \<noteq> rr_Status rec \<or> ix_UpdatedAt previous \<noteq> rr_UpdatedAt rec then failP [ErrCorrupt] else Ret (Inr ()))
           else bindP (tableReplace (indexItem env rq (previous\<lparr>ix_Revision := rr_Revision rec, ix_Status := rr_Status rec, ix_UpdatedAt := rr_UpdatedAt rec\<rparr>)) (kr_Version row)) (\<lambda>w.
             case w of
               Inr _ \<Rightarrow> Ret (Inr ())
             | Inl e \<Rightarrow> if errIs e ErrOutcomeUnknown \<or> \<not> errIs e ErrConflict then failP e else advance_loop env rq rec n))"

definition advanceIndex :: "cloud_env \<Rightarrow> request_codec \<Rightarrow> request_record \<Rightarrow> (store_error + unit) prog" where
  "advanceIndex env rq rec = advance_loop env rq rec 16"

fun list_rows :: "cloud_env \<Rightarrow> request_codec \<Rightarrow> nat \<Rightarrow> string \<Rightarrow> kv_row list \<Rightarrow> store_error + pending_request list" where
  "list_rows env rq shard lastKey [] = Inr []"
| "list_rows env rq shard lastKey (row # rows) =
     bindE (decodeIndex env rq row) (\<lambda>ix.
       if fst (ki_Key (kr_Item row)) \<noteq> pending_partition env shard \<or> snd (ki_Key (kr_Item row)) \<le> lastKey then Inl [ErrCorrupt]
       else bindE (list_rows env rq shard (snd (ki_Key (kr_Item row))) rows) (\<lambda>rest.
         Inr (if status_terminal (ix_Status ix) then rest
              else \<lparr>pq_ID = ix_ID ix, pq_Status = ix_Status ix, pq_Revision = ix_Revision ix, pq_UpdatedAt = ix_UpdatedAt ix, pq_Initializing = (ix_Revision ix = 0)\<rparr> # rest)))"

definition ListPending :: "cloud_env \<Rightarrow> request_codec \<Rightarrow> int \<Rightarrow> int \<Rightarrow> string \<Rightarrow> (store_error + pending_page) prog" where
  "ListPending env rq shard pageSize token =
     tryP validContext (\<lambda>_.
       if shard < 0 \<or> shard \<ge> int PendingShards \<or> pageSize < 0 \<or> pageSize > 1000 then failP [ErrInvalid]
       else let size = (if pageSize = 0 then 100 else pageSize)
            in tryP (tableQuery \<lparr>kq_PartitionKey = pending_partition env (nat shard), kq_SortKeyPrefix = RequestIDPrefix, kq_PageSize = size, kq_PageToken = token\<rparr>) (\<lambda>page.
                 if int (length (kg_Records page)) > size \<or> (kg_NextPageToken page \<noteq> [] \<and> kg_NextPageToken page = token) then failP [ErrCorrupt]
                 else Ret (bindE (list_rows env rq (nat shard) [] (kg_Records page)) (\<lambda>rs. Inr \<lparr>pp_Requests = rs, pp_NextPageToken = kg_NextPageToken page\<rparr>))))"

section \<open>The event stream of a request\<close>

definition zero_pointer :: record_pointer where
  "zero_pointer = \<lparr>rp_ID = [], rp_ScopeTag = [], rp_Binding = [], rp_Revision = 0, rp_Status = StatusOther [], rp_Blob = []\<rparr>"

definition next_pointer :: "cloud_env \<Rightarrow> request_codec \<Rightarrow> record_pointer \<Rightarrow> int \<Rightarrow> string \<Rightarrow> store_error + record_pointer" where
  "next_pointer env rq previous version data =
     (if version \<noteq> 1 \<or> length data > 4096 then Inl [ErrCorrupt]
      else case rc_readPointer rq data of
             None \<Rightarrow> Inl [ErrCorrupt]
           | Some nxt \<Rightarrow>
               if \<not> request_id_valid rq (rp_ID nxt) \<or> \<not> hexDigest (rp_ScopeTag nxt) \<or> \<not> hexDigest (rp_Binding nxt) \<or> \<not> validBlobKey env (rp_Blob nxt)
                  \<or> rp_Revision nxt \<noteq> rp_Revision previous + 1 \<or> rp_Revision nxt > maxRevisions \<or> \<not> status_valid (rp_Status nxt) then Inl [ErrCorrupt]
               else if rp_Revision previous = 0 then (if rp_Status nxt \<noteq> StatusPending then Inl [ErrCorrupt] else Inr nxt)
               else if rp_ID nxt \<noteq> rp_ID previous \<or> rp_ScopeTag nxt \<noteq> rp_ScopeTag previous \<or> rp_Binding nxt \<noteq> rp_Binding previous
                       \<or> \<not> validTransition (rp_Status previous) (rp_Status nxt) then Inl [ErrCorrupt]
               else Inr nxt)"

fun buildState :: "cloud_env \<Rightarrow> request_codec \<Rightarrow> record_pointer \<Rightarrow> (int \<times> string) list \<Rightarrow> (store_error + record_pointer) prog" where
  "buildState env rq previous [] = Ret (Inr previous)"
| "buildState env rq previous ((version, data) # changes) =
     tryP validContext (\<lambda>_.
       case next_pointer env rq previous version data of
         Inl e \<Rightarrow> failP e
       | Inr nxt \<Rightarrow> buildState env rq nxt changes)"

definition event_changes :: "event \<Rightarrow> (int \<times> string) list" where
  "event_changes ev = map (Pair (en_ApplicationVersion ev)) (en_Changes ev)"

text \<open>\<^verbatim>\<open>ReadState\<close> of a store whose state builder is \<^verbatim>\<open>buildState\<close>: the revision of the stream and the folded state.\<close>

definition readState :: "cloud_env \<Rightarrow> request_codec \<Rightarrow> string \<Rightarrow> (store_error + nat \<times> record_pointer) prog" where
  "readState env rq s =
     tryP (eventState s) (\<lambda>es. tryP (buildState env rq zero_pointer (concat (map event_changes es))) (\<lambda>v. Ret (Inr (length es, v))))"

fun history_entries :: "cloud_env \<Rightarrow> request_codec \<Rightarrow> string \<Rightarrow> nat \<Rightarrow> record_pointer \<Rightarrow> (nat \<times> event) list \<Rightarrow> (store_error + record_pointer) prog" where
  "history_entries env rq i revision current [] = Ret (Inr current)"
| "history_entries env rq i revision current ((n, ev) # es) =
     (case en_Changes ev of
        [d] \<Rightarrow>
          tryP (buildState env rq current [(en_ApplicationVersion ev, d)]) (\<lambda>nxt.
            if rp_ID nxt \<noteq> i \<or> rp_Revision nxt \<noteq> n then failP [ErrCorrupt]
            else if rp_Revision nxt = revision then Ret (Inr nxt)
            else history_entries env rq i revision nxt es)
      | _ \<Rightarrow> failP [ErrCorrupt])"

fun history_pages :: "cloud_env \<Rightarrow> request_codec \<Rightarrow> string \<Rightarrow> nat \<Rightarrow> nat \<Rightarrow> record_pointer \<Rightarrow> string list \<Rightarrow> string \<Rightarrow> (store_error + record_pointer) prog" where
  "history_pages env rq i revision 0 current seen token = failP [ErrOther]"
| "history_pages env rq i revision (Suc n) current seen token =
     tryP (eventHistory (request_stream env i) token) (\<lambda>page.
     tryP (history_entries env rq i revision current (eg_Entries page)) (\<lambda>nxt.
       if eg_Entries page \<noteq> [] \<and> rp_Revision nxt = revision then Ret (Inr nxt)
       else if eg_NextPageToken page = [] then failP [ErrConflict]
       else if eg_NextPageToken page \<in> set seen then failP [ErrCorrupt]
       else history_pages env rq i revision n nxt (eg_NextPageToken page # seen) (eg_NextPageToken page)))"

definition readRevision :: "cloud_env \<Rightarrow> request_codec \<Rightarrow> string \<Rightarrow> nat \<Rightarrow> (store_error + record_pointer) prog" where
  "readRevision env rq i revision = history_pages env rq i revision (rc_pages rq) zero_pointer [] []"

section \<open>Records\<close>

definition decode_record :: "cloud_env \<Rightarrow> request_codec \<Rightarrow> record_pointer \<Rightarrow> string \<Rightarrow> store_error + request_record" where
  "decode_record env rq p data =
     (case rc_readRecord rq data of
        None \<Rightarrow> Inl [ErrCorrupt]
      | Some rec \<Rightarrow>
          (case normalizeRequest env rq (rr_Request rec) of
             Inl _ \<Rightarrow> Inl [ErrCorrupt]
           | Inr request \<Rightarrow>
               if cq_ID (rr_Request rec) \<noteq> rp_ID p \<or> rr_Revision rec \<noteq> rp_Revision p \<or> rr_Status rec \<noteq> rp_Status p \<or> scopeTag env rq (cq_Scope request) \<noteq> rp_ScopeTag p
                  \<or> binding env rq request \<noteq> rp_Binding p \<or> rr_Fingerprint rec \<noteq> fingerprint env rq request \<or> \<not> validTime (rr_UpdatedAt rec) \<or> rr_UpdatedAt rec < cq_CreatedAt request
               then Inl [ErrCorrupt]
               else (case objectJSON env (rr_Progress rec) of Inl _ \<Rightarrow> Inl [ErrCorrupt] | Inr _ \<Rightarrow> Inr rec)))"

definition loadRecord :: "cloud_env \<Rightarrow> request_codec \<Rightarrow> record_pointer \<Rightarrow> (store_error + request_record) prog" where
  "loadRecord env rq p =
     tryP validContext (\<lambda>_. tryP (readReferencedBlob env (request_stream env (rp_ID p)) (rp_Blob p)) (\<lambda>data. Ret (decode_record env rq p data)))"

definition read_record :: "cloud_env \<Rightarrow> request_codec \<Rightarrow> string \<Rightarrow> string \<Rightarrow> (store_error + request_record) prog" where
  "read_record env rq i tag =
     tryP validContext (\<lambda>_.
       if \<not> request_id_valid rq i then failP [ErrInvalid]
       else tryP (readState env rq (request_stream env i)) (\<lambda>(revision, v).
         if revision = 0 \<or> (tag \<noteq> [] \<and> rp_ScopeTag v \<noteq> tag) then failP [ErrNotFound]
         else if revision \<noteq> rp_Revision v \<or> rp_ID v \<noteq> i then failP [ErrCorrupt]
         else loadRecord env rq v))"

definition Read :: "cloud_env \<Rightarrow> request_codec \<Rightarrow> scope \<Rightarrow> string \<Rightarrow> (store_error + request_record) prog" where
  "Read env rq sc i = (if \<not> scope_valid sc then failP [ErrInvalid] else read_record env rq i (scopeTag env rq sc))"

definition ReadForRecovery :: "cloud_env \<Rightarrow> request_codec \<Rightarrow> string \<Rightarrow> (store_error + request_record) prog" where
  "ReadForRecovery env rq i = read_record env rq i []"

definition record_pointer_of :: "cloud_env \<Rightarrow> request_codec \<Rightarrow> request_record \<Rightarrow> string \<Rightarrow> record_pointer" where
  "record_pointer_of env rq rec key =
     \<lparr>rp_ID = cq_ID (rr_Request rec), rp_ScopeTag = scopeTag env rq (cq_Scope (rr_Request rec)), rp_Binding = binding env rq (rr_Request rec),
      rp_Revision = rr_Revision rec, rp_Status = rr_Status rec, rp_Blob = key\<rparr>"

definition pointer_event :: "cloud_env \<Rightarrow> request_codec \<Rightarrow> record_pointer \<Rightarrow> string \<Rightarrow> event" where
  "pointer_event env rq p token = \<lparr>en_AppendToken = cloud_digest env ''append-token'' token, en_ApplicationVersion = 1, en_Changes = [rc_pointer rq p]\<rparr>"

definition publish_record :: "cloud_env \<Rightarrow> request_codec \<Rightarrow> request_record \<Rightarrow> string \<Rightarrow> string \<Rightarrow> (store_error + request_record) prog" where
  "publish_record env rq rec data token =
     (let s = request_stream env (cq_ID (rr_Request rec))
      in tryP (writeBlob env s data) (\<lambda>key.
         tryP (eventAppend s (rr_Revision rec - 1) (pointer_event env rq (record_pointer_of env rq rec key) token)) (\<lambda>_.
         bindP (advanceIndex env rq rec) (\<lambda>r. case r of Inl e \<Rightarrow> failP (ErrIndexPending # e) | Inr _ \<Rightarrow> Ret (Inr rec)))))"

definition Create :: "cloud_env \<Rightarrow> request_codec \<Rightarrow> create_request \<Rightarrow> (store_error + request_record) prog" where
  "Create env rq r =
     tryP validContext (\<lambda>_.
       case normalizeRequest env rq r of
         Inl e \<Rightarrow> failP e
       | Inr request \<Rightarrow>
           let rec = \<lparr>rr_Request = request, rr_Fingerprint = fingerprint env rq request, rr_Revision = 1, rr_Status = StatusPending, rr_Progress = ''{}'', rr_UpdatedAt = cq_CreatedAt request\<rparr>
           in case encodeRecord rq rec of
                Inl e \<Rightarrow> failP e
              | Inr data \<Rightarrow> tryP (ensureIndex env rq request) (\<lambda>_. publish_record env rq rec data ''create''))"

definition TryUpdate :: "cloud_env \<Rightarrow> request_codec \<Rightarrow> scope \<Rightarrow> string \<Rightarrow> request_update \<Rightarrow> (store_error + request_record) prog" where
  "TryUpdate env rq sc i u =
     tryP validContext (\<lambda>_.
       if \<not> scope_valid sc \<or> \<not> request_id_valid rq i \<or> up_ExpectedRevision u = 0 \<or> up_ExpectedRevision u \<ge> maxRevisions \<or> \<not> safeText (up_Token u) 128
          \<or> \<not> status_valid (up_Status u) \<or> \<not> validTime (up_UpdatedAt u) then failP [ErrInvalid]
       else case objectJSON env (up_Progress u) of
              Inl e \<Rightarrow> failP e
            | Inr progress \<Rightarrow>
                tryP (readRevision env rq i (up_ExpectedRevision u)) (\<lambda>previous.
                  if rp_ScopeTag previous \<noteq> scopeTag env rq sc then failP [ErrNotFound]
                  else tryP (loadRecord env rq previous) (\<lambda>rec.
                    if \<not> validTransition (rr_Status rec) (up_Status u) \<or> up_UpdatedAt u < rr_UpdatedAt rec then failP [ErrInvalid]
                    else let new = rec\<lparr>rr_Revision := rr_Revision rec + 1, rr_Status := up_Status u, rr_Progress := progress, rr_UpdatedAt := up_UpdatedAt u\<rparr>
                         in case encodeRecord rq new of
                              Inl e \<Rightarrow> failP e
                            | Inr data \<Rightarrow> publish_record env rq new data (up_Token u))))"

section \<open>Operations\<close>

text \<open>The UUID of an operation: 16 bytes of a keyed digest with the version and variant bits of a UUIDv8.\<close>

definition uuid8 :: "string \<Rightarrow> string" where
  "uuid8 d = (take 16 d)[6 := char_of ((of_char (d ! 6) :: nat) mod 16 + 128), 8 := char_of ((of_char (d ! 8) :: nat) mod 64 + 128)]"

definition operationID :: "cloud_env \<Rightarrow> request_codec \<Rightarrow> scope \<Rightarrow> string \<Rightarrow> string \<Rightarrow> string" where
  "operationID env rq sc kind key = RequestIDPrefix @ rc_uuidString rq (uuid8 (derive env ''operation-id'' (rc_identity rq (cv_namespace env) sc kind key)))"

definition operation_key_valid :: "string \<Rightarrow> bool" where
  "operation_key_valid key \<longleftrightarrow> key \<noteq> [] \<and> length key \<le> 4096 \<and> utf8_valid key"

definition operation_request :: "operation \<Rightarrow> string \<Rightarrow> gotime \<Rightarrow> create_request" where
  "operation_request oq i t =
     \<lparr>cq_ID = i, cq_Scope = oq_Scope oq, cq_Kind = oq_Kind oq, cq_RequestIndex = oq_RequestIndex oq, cq_Manifest = oq_Manifest oq, cq_CreatedAt = t\<rparr>"

definition index_names :: "cloud_env \<Rightarrow> request_codec \<Rightarrow> index_record \<Rightarrow> create_request \<Rightarrow> bool" where
  "index_names env rq ix r \<longleftrightarrow> ix_ScopeTag ix = scopeTag env rq (cq_Scope r) \<and> ix_Binding ix = binding env rq r"

text \<open>The rest of a round, once the record is there: start it if it is pending, else repair its index. \<open>again\<close> is the next round.\<close>

definition begin_existing :: "cloud_env \<Rightarrow> request_codec \<Rightarrow> (create_request \<Rightarrow> (store_error + request_record) prog) \<Rightarrow> create_request \<Rightarrow> request_record \<Rightarrow> (store_error + request_record) prog" where
  "begin_existing env rq again r rec =
     (if rr_Status rec \<noteq> StatusPending then tryP (advanceIndex env rq rec) (\<lambda>_. Ret (Inr rec))
      else bindP (TryUpdate env rq (cq_Scope r) (cq_ID r)
                   \<lparr>up_ExpectedRevision = rr_Revision rec, up_Token = ''runtime-start'', up_Status = StatusRunning, up_Progress = ''{\"version\":1}'', up_UpdatedAt = cq_CreatedAt r\<rparr>) (\<lambda>u.
             case u of
               Inl e \<Rightarrow> if errIs e ErrConflict then again r else failP e
             | Inr new \<Rightarrow> Ret (Inr new)))"

definition begin_create :: "cloud_env \<Rightarrow> request_codec \<Rightarrow> (create_request \<Rightarrow> (store_error + request_record) prog) \<Rightarrow> create_request \<Rightarrow> (store_error + request_record) prog" where
  "begin_create env rq again r =
     bindP (Create env rq r) (\<lambda>c.
       case c of
         Inl e \<Rightarrow> if errIs e ErrConflict then again r else failP e
       | Inr _ \<Rightarrow> tryP (Read env rq (cq_Scope r) (cq_ID r)) (begin_existing env rq again r))"

fun begin_loop :: "cloud_env \<Rightarrow> request_codec \<Rightarrow> nat \<Rightarrow> create_request \<Rightarrow> (store_error + request_record) prog" where
  "begin_loop env rq 0 r = failP [ErrConflict]"
| "begin_loop env rq (Suc n) r =
     bindP (tableGet (indexKey env rq (cq_ID r))) (\<lambda>g.
       case g of
         Inl e \<Rightarrow> if \<not> errIs e ErrNotFound then failP e else begin_create env rq (begin_loop env rq n) r
       | Inr row \<Rightarrow>
           (case decodeIndex env rq row of
              Inl e \<Rightarrow> failP e
            | Inr ix \<Rightarrow>
                let r1 = r\<lparr>cq_CreatedAt := ix_UpdatedAt ix\<rparr>
                in bindP (Read env rq (cq_Scope r1) (cq_ID r1)) (\<lambda>x.
                     case x of
                       Inr rec \<Rightarrow>
                         let r2 = r1\<lparr>cq_CreatedAt := cq_CreatedAt (rr_Request rec)\<rparr>
                         in if \<not> index_names env rq ix r2 then failP [ErrConflict] else begin_existing env rq (begin_loop env rq n) r2 rec
                     | Inl e \<Rightarrow>
                         if ix_Revision ix \<noteq> 0 \<or> \<not> errIs e ErrNotFound then failP e
                         else if \<not> index_names env rq ix r1 then failP [ErrConflict]
                         else begin_create env rq (begin_loop env rq n) r1)))"

definition BeginOperation :: "cloud_env \<Rightarrow> request_codec \<Rightarrow> operation \<Rightarrow> (store_error + request_record) prog" where
  "BeginOperation env rq oq =
     tryP validContext (\<lambda>_.
       if \<not> operation_key_valid (oq_Key oq) then failP [ErrInvalid]
       else case normalizeRequest env rq (operation_request oq (operationID env rq (oq_Scope oq) (oq_Kind oq) (oq_Key oq)) (oq_Now oq)) of
              Inl e \<Rightarrow> failP e
            | Inr r \<Rightarrow> begin_loop env rq 3 r)"

definition LookupOperation :: "cloud_env \<Rightarrow> request_codec \<Rightarrow> operation \<Rightarrow> (store_error + request_record) prog" where
  "LookupOperation env rq oq =
     tryP validContext (\<lambda>_.
       if \<not> operation_key_valid (oq_Key oq) then failP [ErrInvalid]
       else Read env rq (oq_Scope oq) (operationID env rq (oq_Scope oq) (oq_Kind oq) (oq_Key oq)))"

definition VerifyOperation :: "cloud_env \<Rightarrow> request_codec \<Rightarrow> operation \<Rightarrow> (store_error + request_record) prog" where
  "VerifyOperation env rq oq =
     tryP (LookupOperation env rq oq) (\<lambda>rec.
       case normalizeRequest env rq (operation_request oq (cq_ID (rr_Request rec)) (cq_CreatedAt (rr_Request rec))) of
         Inl e \<Rightarrow> failP e
       | Inr expected \<Rightarrow>
           if binding env rq expected \<noteq> binding env rq (rr_Request rec) then failP [ErrConflict]
           else tryP (tableGet (indexKey env rq (cq_ID (rr_Request rec)))) (\<lambda>row.
             case decodeIndex env rq row of
               Inl e \<Rightarrow> failP e
             | Inr ix \<Rightarrow> if \<not> index_names env rq ix expected then failP [ErrConflict] else Ret (Inr rec)))"

end
