(* ===== verification/Cloud_Request_Facts.thy ===== *)
theory Cloud_Request_Facts
  imports Cloud_Request Cloud_Memory
begin

text \<open>
  What holds of durable requests under any interleaving of workers, lost acknowledgements and failures included. The rules say what a worker may
  write: an event continues the record before it by a valid transition, the first one only once the request is in the pending index, and an
  index row names a committed event. They are shown for every call of the repository and give, through \<open>event_streams.rules_kept\<close>,
  the life cycle of a request and that no unfinished request is hidden from recovery.
\<close>

section \<open>Records, events and index rows\<close>

definition proper_request :: "cloud_env \<Rightarrow> request_codec \<Rightarrow> create_request \<Rightarrow> bool" where
  "proper_request env rq r \<longleftrightarrow> normalizeRequest env rq r = Inr r"

definition proper_record :: "cloud_env \<Rightarrow> request_codec \<Rightarrow> request_record \<Rightarrow> bool" where
  "proper_record env rq rec \<longleftrightarrow> proper_request env rq (rr_Request rec) \<and> rr_Fingerprint rec = fingerprint env rq (rr_Request rec) \<and> status_valid (rr_Status rec)
     \<and> 0 < rr_Revision rec \<and> rr_Revision rec \<le> maxRevisions \<and> validTime (rr_UpdatedAt rec) \<and> cq_CreatedAt (rr_Request rec) \<le> rr_UpdatedAt rec \<and> (\<exists>c. objectJSON env (rr_Progress rec) = Inr c)"

abbreviation record_stream :: "cloud_env \<Rightarrow> request_record \<Rightarrow> string" where
  "record_stream env rec \<equiv> request_stream env (cq_ID (rr_Request rec))"

text \<open>The event that publishes a record, and the rows of the index that stand for it and for a request not yet published.\<close>

definition published_pointer :: "cloud_env \<Rightarrow> request_codec \<Rightarrow> request_record \<Rightarrow> string \<Rightarrow> record_pointer" where
  "published_pointer env rq rec d = record_pointer_of env rq rec (blobKey env (record_stream env rec) d)"

definition holds_record :: "cloud_env \<Rightarrow> request_codec \<Rightarrow> event \<Rightarrow> request_record \<Rightarrow> bool" where
  "holds_record env rq ev rec \<longleftrightarrow> proper_record env rq rec \<and> en_ApplicationVersion ev = 1
     \<and> (\<exists>d x. rc_record rq rec = Some d \<and> en_Changes ev = [x] \<and> rc_readPointer rq x = Some (published_pointer env rq rec d))"

definition index_of :: "cloud_env \<Rightarrow> request_codec \<Rightarrow> request_record \<Rightarrow> index_record" where
  "index_of env rq rec =
     \<lparr>ix_Schema = 1, ix_ID = cq_ID (rr_Request rec), ix_ScopeTag = scopeTag env rq (cq_Scope (rr_Request rec)), ix_Binding = binding env rq (rr_Request rec),
      ix_Revision = rr_Revision rec, ix_Status = rr_Status rec, ix_UpdatedAt = rr_UpdatedAt rec\<rparr>"

definition holds_index :: "request_codec \<Rightarrow> kv_item \<Rightarrow> index_record \<Rightarrow> bool" where
  "holds_index rq it ix \<longleftrightarrow> (\<exists>d. mget (ki_Fields it) ''request'' = Some d \<and> rc_readIndex rq d = Some ix)"

text \<open>
  What is relied on of the encodings: what is written is read back, canonical JSON is canonical, and the digests that name the contents of
  the streams do not collide.
\<close>

definition record_bodies :: "cloud_env \<Rightarrow> request_codec \<Rightarrow> (string \<times> string) set" where
  "record_bodies env rq = {(request_stream env (rp_ID p), d) | p d. \<exists>rec. decode_record env rq p d = Inr rec}"

definition request_laws :: "cloud_env \<Rightarrow> request_codec \<Rightarrow> bool" where
  "request_laws env rq \<longleftrightarrow>
     (\<forall>rec d. proper_record env rq rec \<longrightarrow> rc_record rq rec = Some d \<longrightarrow>
        rc_readRecord rq d = Some rec
        \<and> rc_readPointer rq (rc_pointer rq (published_pointer env rq rec d)) = Some (published_pointer env rq rec d)
        \<and> rc_readIndex rq (rc_index rq (index_of env rq rec)) = Some (index_of env rq rec)
        \<and> rc_readIndex rq (rc_index rq (index_of env rq rec\<lparr>ix_Revision := 0\<rparr>)) = Some (index_of env rq rec\<lparr>ix_Revision := 0\<rparr>))
     \<and> (\<forall>v c. objectJSON env v = Inr c \<longrightarrow> objectJSON env c = Inr c) \<and> (\<exists>c. objectJSON env ''{}'' = Inr c)
     \<and> inj_on (\<lambda>(s, d). blobKey env s d) (record_bodies env rq)"

lemma request_stream_inj [simp]: "request_stream env i = request_stream env j \<longleftrightarrow> i = j"
  by (simp add: request_stream_def)

lemma indexKey_inj [simp]: "indexKey env rq i = indexKey env rq j \<longleftrightarrow> i = j"
  by (auto simp: indexKey_def)

lemma normalizeRequest_Inr:
  assumes "normalizeRequest env rq r = Inr r'"
  shows "\<exists>m. objectJSON env (cq_Manifest r) = Inr m \<and> r' = r\<lparr>cq_Manifest := m\<rparr>" and "request_id_valid rq (cq_ID r)" and "cq_ID r' = cq_ID r" and "validTime (cq_CreatedAt r)"
    and "cq_CreatedAt r' = cq_CreatedAt r"
  using assms by (auto simp: normalizeRequest_def bindE_def split: if_splits sum.splits)

lemma normalized_proper:
  assumes "request_laws env rq" and "normalizeRequest env rq r = Inr r'"
  shows "proper_request env rq r'"
proof -
  obtain m where m: "objectJSON env (cq_Manifest r) = Inr m" "r' = r\<lparr>cq_Manifest := m\<rparr>" using normalizeRequest_Inr(1)[OF assms(2)] by blast
  have "objectJSON env m = Inr m" using assms(1) m(1) by (auto simp: request_laws_def)
  then show ?thesis using assms(2) m by (auto simp: proper_request_def normalizeRequest_def bindE_def split: if_splits sum.splits)
qed

lemma proper_valid: "proper_record env rq rec \<Longrightarrow> request_id_valid rq (cq_ID (rr_Request rec))"
  unfolding proper_record_def proper_request_def using normalizeRequest_Inr(2) by blast

lemma published_decodes:
  assumes "request_laws env rq" and "proper_record env rq rec" and "rc_record rq rec = Some d"
  shows "decode_record env rq (published_pointer env rq rec d) d = Inr rec"
proof -
  have "rc_readRecord rq d = Some rec" using assms unfolding request_laws_def by blast
  then show ?thesis using assms(2)
    by (auto simp: decode_record_def published_pointer_def record_pointer_of_def proper_record_def proper_request_def split: sum.split)
qed

lemma holds_published:
  assumes "request_laws env rq" and "proper_record env rq rec" and "rc_record rq rec = Some d"
  shows "holds_record env rq (pointer_event env rq (published_pointer env rq rec d) token) rec"
  using assms unfolding holds_record_def request_laws_def by (simp add: pointer_event_def)

lemma decode_record_Inr:
  assumes "decode_record env rq p d = Inr rec"
  shows "rc_readRecord rq d = Some rec" and "cq_ID (rr_Request rec) = rp_ID p"
  using assms by (auto simp: decode_record_def split: option.splits sum.splits if_splits)

text \<open>An event holds one record.\<close>

lemma stored_record_unique:
  assumes l: "request_laws env rq" and "proper_record env rq rec" and "rc_record rq rec = Some d"
    and "blobKey env (record_stream env rec) d' = rp_Blob (published_pointer env rq rec d)" and "decode_record env rq (published_pointer env rq rec d) d' = Inr rec'"
  shows "d' = d" and "rec' = rec"
proof -
  let ?p = "published_pointer env rq rec d"
  have i: "rp_ID ?p = cq_ID (rr_Request rec)" and b: "rp_Blob ?p = blobKey env (record_stream env rec) d"
    by (simp_all add: published_pointer_def record_pointer_of_def)
  have "(request_stream env (rp_ID ?p), d) \<in> record_bodies env rq" using published_decodes[OF assms(1-3)] unfolding record_bodies_def by blast
  moreover have "(request_stream env (rp_ID ?p), d') \<in> record_bodies env rq" using assms(5) unfolding record_bodies_def by blast
  moreover have "inj_on (\<lambda>(s, d). blobKey env s d) (record_bodies env rq)" using l by (simp add: request_laws_def)
  ultimately show "d' = d" using inj_onD[of "\<lambda>(s, d). blobKey env s d" _ "(request_stream env (rp_ID ?p), d')" "(request_stream env (rp_ID ?p), d)"] assms(4) b i by auto
  then show "rec' = rec" using assms(5) published_decodes[OF assms(1-3)] by simp
qed

lemma holds_record_unique:
  assumes l: "request_laws env rq" and "holds_record env rq ev rec" and "holds_record env rq ev rec'"
  shows "rec' = rec"
proof -
  obtain d d' where d: "rc_record rq rec = Some d" "rc_record rq rec' = Some d'" "published_pointer env rq rec d = published_pointer env rq rec' d'"
    using assms(2,3) by (auto simp: holds_record_def)
  have p: "proper_record env rq rec" "proper_record env rq rec'" using assms(2,3) by (simp_all add: holds_record_def)
  have b: "rp_Blob (published_pointer env rq rec d) = blobKey env (record_stream env rec') d'"
    unfolding d(3) by (simp add: published_pointer_def record_pointer_of_def)
  have i: "cq_ID (rr_Request rec') = cq_ID (rr_Request rec)" using arg_cong[OF d(3), of rp_ID] by (simp add: published_pointer_def record_pointer_of_def)
  show ?thesis by (rule stored_record_unique(2)[OF l p(1) d(1), of d']) (use i b published_decodes[OF l p(2) d(2)] d(3) in simp_all)
qed

lemma holds_index_unique: "holds_index rq it ix \<Longrightarrow> holds_index rq it ix' \<Longrightarrow> ix' = ix"
  by (auto simp: holds_index_def)

lemma decodeIndex_Inr:
  assumes "decodeIndex env rq row = Inr ix"
  shows "holds_index rq (kr_Item row) ix" and "ki_Key (kr_Item row) = indexKey env rq (ix_ID ix)" and "ix_Schema ix = 1"
  using assms by (auto simp: decodeIndex_def holds_index_def split: option.splits if_splits)

section \<open>The rules\<close>

definition next_record :: "request_record \<Rightarrow> request_record \<Rightarrow> bool" where
  "next_record old new \<longleftrightarrow> rr_Request new = rr_Request old \<and> rr_Revision new = Suc (rr_Revision old) \<and> validTransition (rr_Status old) (rr_Status new) \<and> rr_UpdatedAt old \<le> rr_UpdatedAt new"

definition event_entry :: "cloud_env \<Rightarrow> request_codec \<Rightarrow> string \<Rightarrow> nat \<Rightarrow> event \<Rightarrow> bool" where
  "event_entry env rq s n ev \<longleftrightarrow> (\<exists>rec. holds_record env rq ev rec \<and> rr_Revision rec = n \<and> s = record_stream env rec)"

text \<open>The first event of a request relies on its index row, every later one on the event before it.\<close>

definition event_rule :: "cloud_env \<Rightarrow> request_codec \<Rightarrow> fact set \<Rightarrow> string \<Rightarrow> nat \<Rightarrow> event \<Rightarrow> bool" where
  "event_rule env rq F s n ev \<longleftrightarrow> (\<exists>rec. holds_record env rq ev rec \<and> rr_Revision rec = Suc n \<and> s = record_stream env rec
     \<and> (if n = 0 then rr_Status rec = StatusPending
          \<and> (\<exists>it v ix. Row (indexKey env rq (cq_ID (rr_Request rec))) it v \<in> F \<and> holds_index rq it ix \<and> index_names env rq ix (rr_Request rec))
        else \<exists>ev0 rec0. Event s n ev0 \<in> F \<and> holds_record env rq ev0 rec0 \<and> next_record rec0 rec))"

text \<open>An index row starts at revision 0 and then only moves forward to a committed record of the same request.\<close>

definition index_rule :: "cloud_env \<Rightarrow> request_codec \<Rightarrow> fact set \<Rightarrow> kv_item option \<Rightarrow> kv_item \<Rightarrow> bool" where
  "index_rule env rq F old it \<longleftrightarrow> (\<exists>ix. holds_index rq it ix \<and> ki_Key it = indexKey env rq (ix_ID ix)
     \<and> (case old of
          None \<Rightarrow> ix_Revision ix = 0 \<and> ix_Status ix = StatusPending
        | Some o' \<Rightarrow> (\<exists>ix0 ev rec. holds_index rq o' ix0 \<and> ix_ID ix0 = ix_ID ix \<and> ix_ScopeTag ix0 = ix_ScopeTag ix \<and> ix_Binding ix0 = ix_Binding ix \<and> ix_Revision ix0 < ix_Revision ix
            \<and> Event (request_stream env (ix_ID ix)) (ix_Revision ix) ev \<in> F \<and> holds_record env rq ev rec \<and> ix = index_of env rq rec)))"

definition request_rules :: "cloud_env \<Rightarrow> request_codec \<Rightarrow> rules" where
  "request_rules env rq =
     \<lparr>ru_keys = {indexKey env rq i | i. request_id_valid rq i}, ru_streams = {request_stream env i | i. request_id_valid rq i},
      ru_row = index_rule env rq, ru_event = event_rule env rq, ru_item = (\<lambda>it. True), ru_entry = event_entry env rq\<rparr>"

lemma request_rules_simps [simp]:
  "ru_row (request_rules env rq) = index_rule env rq" "ru_event (request_rules env rq) = event_rule env rq" "ru_entry (request_rules env rq) = event_entry env rq"
  "indexKey env rq i \<in> ru_keys (request_rules env rq) \<longleftrightarrow> request_id_valid rq i"
  "request_stream env i \<in> ru_streams (request_rules env rq) \<longleftrightarrow> request_id_valid rq i"
  by (auto simp: request_rules_def)

lemma request_rules_coherent: "coherent (request_rules env rq)"
  unfolding coherent_def by (auto simp: request_rules_def event_rule_def event_entry_def)

section \<open>The calls obey the rules\<close>

lemma wpf_readReferencedBlob:
  assumes "\<And>e. Q F (Inl e)" and "\<And>d. blobKey env s d = key \<Longrightarrow> Q F (Inr d)"
  shows "wpf R Q (readReferencedBlob env s key) F"
proof -
  have "Q F (case (case r of Inl e \<Rightarrow> Inl e | Inr b \<Rightarrow> unseal env s key b) of Inl e \<Rightarrow> Inl (lost_payload e) | Inr d \<Rightarrow> Inr d)" for r
  proof (cases "case r of Inl e \<Rightarrow> Inl e | Inr b \<Rightarrow> unseal env s key b")
    case (Inr d)
    then have "blobKey env s d = key" by (auto simp: unseal_def Let_def split: sum.splits if_splits option.splits)
    then show ?thesis using Inr assms(2) by simp
  qed (use assms(1) in simp)
  then show ?thesis using assms(1) by (auto simp: readReferencedBlob_def readBlob_def failP_def)
qed

lemma wpf_writeBlob:
  assumes "\<And>e. Q F (Inl e)" and "Q F (Inr (blobKey env s data))"
  shows "wpf R Q (writeBlob env s data) F"
proof -
  let ?key = "blobKey env s data"
  have r: "wpf R Q (tryP (readBlob env s ?key) (\<lambda>stored. if stored \<noteq> data then failP [ErrCorrupt] else Ret (Inr ?key))) F"
    using assms by (auto simp: tryP_def readBlob_def failP_def split: sum.split)
  show ?thesis using assms r by (auto simp: writeBlob_def failP_def Let_def split: sum.split option.split)
qed

lemma ensureIndex_wpf:
  assumes l: "request_laws env rq" and p: "proper_record env rq rec" "rc_record rq rec = Some d" "rr_Revision rec = 1" "rr_Status rec = StatusPending" "rr_UpdatedAt rec = cq_CreatedAt (rr_Request rec)"
    and e: "\<And>F' e. F \<subseteq> F' \<Longrightarrow> Q F' (Inl e)"
    and ok: "\<And>F' it v ix. F \<subseteq> F' \<Longrightarrow> Row (indexKey env rq (cq_ID (rr_Request rec))) it v \<in> F' \<Longrightarrow> holds_index rq it ix \<Longrightarrow> index_names env rq ix (rr_Request rec) \<Longrightarrow> Q F' (Inr ())"
  shows "wpf (request_rules env rq) Q (ensureIndex env rq (rr_Request rec)) F"
proof -
  let ?r = "rr_Request rec" and ?R = "request_rules env rq" and ?k = "indexKey env rq (cq_ID (rr_Request rec))"
  define ix where "ix = index_of env rq rec\<lparr>ix_Revision := 0\<rparr>"
  have ix: "ix = \<lparr>ix_Schema = 1, ix_ID = cq_ID ?r, ix_ScopeTag = scopeTag env rq (cq_Scope ?r), ix_Binding = binding env rq ?r, ix_Revision = 0, ix_Status = StatusPending, ix_UpdatedAt = cq_CreatedAt ?r\<rparr>"
    using p by (simp add: ix_def index_of_def)
  have h: "holds_index rq (indexItem env rq ix) ix" using l p(1,2) unfolding request_laws_def holds_index_def indexItem_def ix_def by simp
  have rule: "index_rule env rq F None (indexItem env rq ix)" for F
    unfolding index_rule_def using h by (intro exI[of _ ix]) (simp add: ix indexItem_def)
  have n: "index_names env rq ix ?r" and key: "ki_Key (indexItem env rq ix) = ?k" by (simp_all add: ix index_names_def indexItem_def)
  have get: "wpf ?R Q (tryP (tableGet ?k) (\<lambda>row. case decodeIndex env rq row of Inl e \<Rightarrow> failP e | Inr previous \<Rightarrow>
      if ix_ScopeTag previous \<noteq> ix_ScopeTag ix \<or> ix_Binding previous \<noteq> ix_Binding ix then failP [ErrConflict] else Ret (Inr ()))) F"
    unfolding wpf_tryP
  proof (rule wpf_tableGet, goal_cases)
    case (2 row)
    let ?F = "insert (Row ?k (kr_Item row) (kr_Version row)) F"
    show ?case
    proof (cases "decodeIndex env rq row")
      case (Inl err)
      then show ?thesis using e[of ?F] by auto
    next
      case (Inr prev)
      then show ?thesis using e[of ?F] ok[of ?F "kr_Item row" "kr_Version row" prev] decodeIndex_Inr(1)[OF Inr] by (auto simp: ix index_names_def)
    qed
  qed (use e in simp)
  show ?thesis unfolding ensureIndex_def ix[symmetric] Let_def wpf_bind
  proof (rule wpf_tableCreate, goal_cases)
    case (3 v)
    then show ?case using ok[of "insert (Row ?k (indexItem env rq ix) v) F" "indexItem env rq ix" v ix] h n by (auto simp: key)
  qed (use rule e get in auto)
qed

lemma advance_wpf:
  assumes l: "request_laws env rq" and ev: "Event (record_stream env rec) (rr_Revision rec) ev \<in> F" "holds_record env rq ev rec"
    and Q: "\<And>F' x. F \<subseteq> F' \<Longrightarrow> Q F' x"
  shows "wpf (request_rules env rq) Q (advance_loop env rq rec n) F"
  using ev(1) Q
proof (induction n arbitrary: F)
  case (Suc n F)
  let ?k = "indexKey env rq (cq_ID (rr_Request rec))" and ?R = "request_rules env rq"
  have p: "proper_record env rq rec" and valid: "request_id_valid rq (cq_ID (rr_Request rec))" using ev(2) proper_valid by (auto simp: holds_record_def)
  obtain d where d: "rc_record rq rec = Some d" using ev(2) by (auto simp: holds_record_def)
  show ?case unfolding advance_loop.simps wpf_tryP
  proof (rule wpf_tableGet, goal_cases)
    case (2 row)
    let ?F = "insert (Row ?k (kr_Item row) (kr_Version row)) F"
    have Q': "Q ?F x" "Q (insert f ?F) x" for f x by (rule Suc.prems(2), auto)+
    show ?case
    proof (cases "decodeIndex env rq row")
      case (Inl e)
      then show ?thesis using Q' by simp
    next
      case (Inr prev)
      note dec = decodeIndex_Inr[OF Inr]
      have i: "ix_ID prev = cq_ID (rr_Request rec)" using 2 valid dec(2) by simp
      let ?ix = "prev\<lparr>ix_Revision := rr_Revision rec, ix_Status := rr_Status rec, ix_UpdatedAt := rr_UpdatedAt rec\<rparr>"
      show ?thesis
      proof (cases "ix_Binding prev \<noteq> binding env rq (rr_Request rec) \<or> ix_ScopeTag prev \<noteq> scopeTag env rq (cq_Scope (rr_Request rec)) \<or> ix_Revision prev \<ge> rr_Revision rec")
        case True
        then show ?thesis using Inr Q' by auto
      next
        case False
        have ixe: "?ix = index_of env rq rec" using False i dec(3) by (cases prev) (simp add: index_of_def)
        have f: "ix_ID ?ix = cq_ID (rr_Request rec)" "ix_Revision ?ix = rr_Revision rec" using i by simp_all
        have h: "holds_index rq (indexItem env rq ?ix) ?ix" using l p d unfolding ixe request_laws_def holds_index_def indexItem_def by simp
        have key: "ki_Key (indexItem env rq ?ix) = ?k" using i by (simp add: indexItem_def)
        have "holds_index rq (kr_Item row) prev \<and> ix_ID prev = ix_ID ?ix \<and> ix_ScopeTag prev = ix_ScopeTag ?ix \<and> ix_Binding prev = ix_Binding ?ix \<and> ix_Revision prev < ix_Revision ?ix
            \<and> Event (request_stream env (ix_ID ?ix)) (ix_Revision ?ix) ev \<in> ?F \<and> holds_record env rq ev rec \<and> ?ix = index_of env rq rec"
          using dec(1) False Suc.prems(1) ev(2) i unfolding ixe by (simp add: index_of_def)
        then have rule: "index_rule env rq ?F (Some (kr_Item row)) (indexItem env rq ?ix)"
          unfolding index_rule_def option.case using h key f(1) by metis
        have again: "wpf ?R Q (advance_loop env rq rec n) ?F" by (rule Suc.IH) (use Suc.prems in auto)
        have "wpf ?R Q (bindP (tableReplace (indexItem env rq ?ix) (kr_Version row)) (\<lambda>w.
           case w of Inr _ \<Rightarrow> Ret (Inr ()) | Inl e \<Rightarrow> if errIs e ErrOutcomeUnknown \<or> \<not> errIs e ErrConflict then failP e else advance_loop env rq rec n)) ?F"
          unfolding wpf_bind by (rule wpf_tableReplace) (use rule again Q' in \<open>auto simp: key\<close>)
        then show ?thesis using Inr False by auto
      qed
    qed
  qed (use Suc.prems in simp)
qed (simp add: assms)

text \<open>Loading the record of an event returns that record.\<close>

lemma loadRecord_wpf:
  assumes l: "request_laws env rq" and h: "holds_record env rq ev rec" and p: "en_Changes ev = [x]" "rc_readPointer rq x = Some p"
    and e: "\<And>e. Q F (Inl e)" and ok: "Q F (Inr rec)"
  shows "wpf R Q (loadRecord env rq p) F"
proof -
  obtain d where d: "rc_record rq rec = Some d" "p = published_pointer env rq rec d" and pr: "proper_record env rq rec" using h p by (auto simp: holds_record_def)
  have i: "rp_ID p = cq_ID (rr_Request rec)" by (simp add: d published_pointer_def record_pointer_of_def)
  have "Q F (decode_record env rq p d')" if "blobKey env (record_stream env rec) d' = rp_Blob p" for d'
  proof (cases "decode_record env rq p d'")
    case (Inr rec')
    then have "rec' = rec" using stored_record_unique(2)[OF l pr d(1), of d' rec'] that by (simp add: d(2))
    then show ?thesis using Inr ok by simp
  qed (use e in simp)
  then have "wpf R Q (tryP (readReferencedBlob env (record_stream env rec) (rp_Blob p)) (\<lambda>data. Ret (decode_record env rq p data))) F"
    unfolding wpf_tryP by (intro wpf_readReferencedBlob) (use e in auto)
  then show ?thesis using e by (simp add: loadRecord_def wpf_tryP wpf_validContext i)
qed

text \<open>Folding the events of a stream gives the pointer of the last one.\<close>

definition folded :: "request_codec \<Rightarrow> record_pointer \<Rightarrow> (int \<times> string) list \<Rightarrow> record_pointer \<Rightarrow> bool" where
  "folded rq previous cs v \<longleftrightarrow> (if cs = [] then v = previous else rc_readPointer rq (snd (last cs)) = Some v)"

lemma buildState_wpf:
  assumes "\<And>e. Q F (Inl e)" and "\<And>v. folded rq previous cs v \<Longrightarrow> Q F (Inr v)"
  shows "wpf R Q (buildState env rq previous cs) F"
  using assms(2)
proof (induction env rq previous cs rule: buildState.induct)
  case (2 env rq previous version data changes)
  have "wpf R Q (buildState env rq nxt changes) F" if n: "next_pointer env rq previous version data = Inr nxt" for nxt
  proof (rule "2.IH"[OF n])
    have "rc_readPointer rq data = Some nxt" using n by (auto simp: next_pointer_def split: if_splits option.splits)
    then show "Q F (Inr v)" if "folded rq nxt changes v" for v
      using "2.prems"[of v] that by (cases "changes = []") (simp_all add: folded_def)
  qed
  then show ?case by (cases "next_pointer env rq previous version data") (simp_all add: wpf_tryP wpf_validContext assms(1))
qed (simp add: folded_def)

lemma readState_wpf:
  assumes valid: "request_id_valid rq i" and e: "\<And>F' e. F \<subseteq> F' \<Longrightarrow> Q F' (Inl e)" and z: "\<And>F' v. F \<subseteq> F' \<Longrightarrow> Q F' (Inr (0, v))"
    and ok: "\<And>F' ev rec x p. F \<subseteq> F' \<Longrightarrow> Event (request_stream env i) (rr_Revision rec) ev \<in> F' \<Longrightarrow> holds_record env rq ev rec \<Longrightarrow> cq_ID (rr_Request rec) = i \<Longrightarrow>
      en_Changes ev = [x] \<Longrightarrow> rc_readPointer rq x = Some p \<Longrightarrow> Q F' (Inr (rr_Revision rec, p))"
  shows "wpf (request_rules env rq) Q (readState env rq (request_stream env i)) F"
  unfolding readState_def wpf_tryP[of _ _ "eventState _"]
proof (rule wpf_eventState, goal_cases)
  case (2 es)
  let ?s = "request_stream env i" and ?R = "request_rules env rq"
  let ?F = "F \<union> state_facts ?s (Inr es)"
  have entry: "event_entry env rq ?s (Suc j) (es ! j)" if "j < length es" for j using 2 valid that by simp
  have "wpf ?R Q (tryP (buildState env rq zero_pointer (concat (map event_changes es))) (\<lambda>v. Ret (Inr (length es, v)))) ?F"
    unfolding wpf_tryP
  proof (rule buildState_wpf, goal_cases)
    case (2 v)
    show ?case
    proof (cases es rule: rev_cases)
      case Nil
      then show ?thesis using z[of ?F v] by simp
    next
      case (snoc es' ev)
      obtain rec where rec: "holds_record env rq ev rec" "rr_Revision rec = Suc (length es')" "?s = record_stream env rec"
        using entry[of "length es'"] unfolding event_entry_def snoc by auto
      obtain x p where x: "en_Changes ev = [x]" "rc_readPointer rq x = Some p" using rec(1) by (auto simp: holds_record_def)
      have v: "v = p" using 2 x unfolding snoc folded_def by (simp add: event_changes_def)
      have "Event ?s (Suc (length es')) ev \<in> state_facts ?s (Inr es)" unfolding state_facts_simps(2) snoc by simp
      then have "Event ?s (rr_Revision rec) ev \<in> ?F" unfolding rec(2) by blast
      moreover have "cq_ID (rr_Request rec) = i" using rec(3) by simp
      ultimately have "Q ?F (Inr (rr_Revision rec, p))" using ok[OF _ _ rec(1) _ x] by blast
      moreover have "length es = rr_Revision rec" unfolding rec(2) snoc by simp
      ultimately show ?thesis unfolding v by simp
    qed
  qed (use e in simp)
  then show ?case by simp
qed (use e in simp)

text \<open>What a call returns is a committed record.\<close>

definition committed_record :: "cloud_env \<Rightarrow> request_codec \<Rightarrow> fact set \<Rightarrow> request_record \<Rightarrow> bool" where
  "committed_record env rq F rec \<longleftrightarrow> (\<exists>ev. Event (record_stream env rec) (rr_Revision rec) ev \<in> F \<and> holds_record env rq ev rec)"

lemma committed_mono: "committed_record env rq F rec \<Longrightarrow> F \<subseteq> F' \<Longrightarrow> committed_record env rq F' rec"
  by (auto simp: committed_record_def)

lemma read_record_wpf:
  assumes l: "request_laws env rq" and e: "\<And>F' e. F \<subseteq> F' \<Longrightarrow> Q F' (Inl e)"
    and ok: "\<And>F' rec. F \<subseteq> F' \<Longrightarrow> committed_record env rq F' rec \<Longrightarrow> cq_ID (rr_Request rec) = i \<Longrightarrow> Q F' (Inr rec)"
  shows "wpf (request_rules env rq) Q (read_record env rq i tag) F"
proof -
  let ?R = "request_rules env rq"
  have "wpf ?R Q (tryP (readState env rq (request_stream env i)) (\<lambda>(revision, v).
         if revision = 0 \<or> (tag \<noteq> [] \<and> rp_ScopeTag v \<noteq> tag) then failP [ErrNotFound]
         else if revision \<noteq> rp_Revision v \<or> rp_ID v \<noteq> i then failP [ErrCorrupt]
         else loadRecord env rq v)) F" if valid: "request_id_valid rq i"
    unfolding wpf_tryP
  proof (rule readState_wpf[OF valid], goal_cases)
    case (3 F' ev rec x p)
    have "wpf ?R Q (loadRecord env rq p) F'"
    proof (rule loadRecord_wpf[OF l 3(3,5,6)])
      show "Q F' (Inl er)" for er using e 3(1) by blast
      have "committed_record env rq F' rec" unfolding committed_record_def using 3 by blast
      then show "Q F' (Inr rec)" using ok 3 by blast
    qed
    then show ?case using e 3(1) by auto
  qed (use e in auto)
  then show ?thesis using e by (simp add: read_record_def wpf_tryP wpf_validContext)
qed

lemma Read_wpf:
  assumes "request_laws env rq" and "\<And>F' e. F \<subseteq> F' \<Longrightarrow> Q F' (Inl e)"
    and "\<And>F' rec. F \<subseteq> F' \<Longrightarrow> committed_record env rq F' rec \<Longrightarrow> cq_ID (rr_Request rec) = i \<Longrightarrow> Q F' (Inr rec)"
  shows "wpf (request_rules env rq) Q (Read env rq sc i) F"
  using read_record_wpf[OF assms] assms(2) by (simp add: Read_def)

text \<open>The record that an update continues.\<close>

definition found_entry :: "request_codec \<Rightarrow> nat \<Rightarrow> record_pointer \<Rightarrow> (nat \<times> event) list \<Rightarrow> record_pointer \<Rightarrow> bool" where
  "found_entry rq revision current es v \<longleftrightarrow>
     (if es = [] then v = current else rp_Revision v = revision \<longrightarrow> (\<exists>ev x. (revision, ev) \<in> set es \<and> en_Changes ev = [x] \<and> rc_readPointer rq x = Some v))"

lemma history_entries_wpf:
  assumes "\<And>e. Q F (Inl e)" and "\<And>v. found_entry rq revision current es v \<Longrightarrow> Q F (Inr v)"
  shows "wpf R Q (history_entries env rq i revision current es) F"
  using assms(2)
proof (induction env rq i revision current es rule: history_entries.induct)
  case (2 env rq i revision current n ev es)
  show ?case
  proof (cases "\<exists>d. en_Changes ev = [d]")
    case True
    then obtain d where d: "en_Changes ev = [d]" by blast
    have "wpf R Q (tryP (buildState env rq current [(en_ApplicationVersion ev, d)]) (\<lambda>nxt.
            if rp_ID nxt \<noteq> i \<or> rp_Revision nxt \<noteq> n then failP [ErrCorrupt]
            else if rp_Revision nxt = revision then Ret (Inr nxt)
            else history_entries env rq i revision nxt es)) F"
      unfolding wpf_tryP
    proof (rule buildState_wpf, goal_cases)
      case (2 nxt)
      then have nxt: "rc_readPointer rq d = Some nxt" by (simp add: folded_def)
      have "wpf R Q (history_entries env rq i revision nxt es) F" if "rp_ID nxt = i" "rp_Revision nxt = n" "n \<noteq> revision"
      proof (rule "2.IH"[OF d])
        fix v assume v: "found_entry rq revision nxt es v"
        have "found_entry rq revision current ((n, ev) # es) v" using v that by (cases "es = []") (auto simp: found_entry_def)
        then show "Q F (Inr v)" by (rule "2.prems")
      qed (use that in auto)
      moreover have "Q F (Inr nxt)" if "rp_Revision nxt = n" "n = revision"
        by (rule "2.prems") (use that nxt d in \<open>auto simp: found_entry_def\<close>)
      ultimately show ?case using assms(1) by auto
    qed (use assms(1) in simp)
    then show ?thesis by (simp add: d)
  next
    case False
    then have "history_entries env rq i revision current ((n, ev) # es) = failP [ErrCorrupt]" by (auto split: list.split)
    then show ?thesis using assms(1) by simp
  qed
qed (simp add: found_entry_def)

lemma history_pages_wpf:
  assumes valid: "request_id_valid rq i" and e: "\<And>F' e. F \<subseteq> F' \<Longrightarrow> Q F' (Inl e)"
    and ok: "\<And>F' ev rec x p. F \<subseteq> F' \<Longrightarrow> Event (request_stream env i) revision ev \<in> F' \<Longrightarrow> holds_record env rq ev rec \<Longrightarrow> rr_Revision rec = revision \<Longrightarrow> cq_ID (rr_Request rec) = i \<Longrightarrow>
      en_Changes ev = [x] \<Longrightarrow> rc_readPointer rq x = Some p \<Longrightarrow> Q F' (Inr p)"
  shows "wpf (request_rules env rq) Q (history_pages env rq i revision n current seen token) F"
  using e ok
proof (induction n arbitrary: F current seen token)
  case (Suc n F current seen token)
  let ?s = "request_stream env i" and ?R = "request_rules env rq"
  show ?case unfolding history_pages.simps wpf_tryP[of _ _ "eventHistory _ _"]
  proof (rule wpf_eventHistory, goal_cases)
    case (2 page)
    let ?es = "eg_Entries page"
    let ?F = "F \<union> event_facts ?s ?es"
    have entry: "event_entry env rq ?s j ev" if "(j, ev) \<in> set ?es" for j ev using 2 valid that by auto
    have sub: "F \<subseteq> ?F" by blast
    have "wpf ?R Q (tryP (history_entries env rq i revision current ?es) (\<lambda>nxt.
       if ?es \<noteq> [] \<and> rp_Revision nxt = revision then Ret (Inr nxt)
       else if eg_NextPageToken page = [] then failP [ErrConflict]
       else if eg_NextPageToken page \<in> set seen then failP [ErrCorrupt]
       else history_pages env rq i revision n nxt (eg_NextPageToken page # seen) (eg_NextPageToken page))) ?F"
      unfolding wpf_tryP
    proof (rule history_entries_wpf, goal_cases)
      case (2 v)
      have "wpf ?R Q (history_pages env rq i revision n v seen' token') ?F" for seen' token'
      proof (rule Suc.IH, goal_cases)
        case (1 F' er)
        then show ?case using Suc.prems(1)[of F' er] by blast
      next
        case (2 F' ev rec x p)
        then show ?case using Suc.prems(2)[OF _ 2(2-7)] by blast
      qed
      moreover have "Q ?F (Inr v)" if nonempty: "?es \<noteq> []" "rp_Revision v = revision"
      proof -
        obtain ev x where x: "(revision, ev) \<in> set ?es" "en_Changes ev = [x]" "rc_readPointer rq x = Some v" using 2 nonempty by (auto simp: found_entry_def)
        obtain rec where rec: "holds_record env rq ev rec" "rr_Revision rec = revision" "?s = record_stream env rec" using entry[OF x(1)] by (auto simp: event_entry_def)
        have "(\<lambda>(i, ev). Event ?s i ev) (revision, ev) \<in> event_facts ?s ?es" unfolding event_facts_def using x(1) by (rule imageI)
        then have "Event ?s revision ev \<in> ?F" by simp
        moreover have "cq_ID (rr_Request rec) = i" using rec(3) by simp
        ultimately show ?thesis by (intro Suc.prems(2)[OF sub _ rec(1,2) _ x(2,3)])
      qed
      ultimately show ?case using Suc.prems(1)[OF sub] by auto
    qed (use Suc.prems(1)[OF sub] in simp)
    then show ?case by simp
  qed (use Suc.prems(1) in simp)
qed simp

text \<open>Publishing a record that continues the stream.\<close>

lemma publish_wpf:
  assumes l: "request_laws env rq" and p: "proper_record env rq rec" "rc_record rq rec = Some data"
    and rule: "\<And>ev. holds_record env rq ev rec \<Longrightarrow> event_rule env rq F (record_stream env rec) (rr_Revision rec - 1) ev"
    and e: "\<And>F' e. F \<subseteq> F' \<Longrightarrow> Q F' (Inl e)" and ok: "\<And>F'. F \<subseteq> F' \<Longrightarrow> committed_record env rq F' rec \<Longrightarrow> Q F' (Inr rec)"
  shows "wpf (request_rules env rq) Q (publish_record env rq rec data token) F"
proof -
  let ?s = "record_stream env rec" and ?R = "request_rules env rq"
  let ?ev = "pointer_event env rq (published_pointer env rq rec data) token"
  let ?F = "insert (Event ?s (rr_Revision rec) ?ev) F"
  have h: "holds_record env rq ?ev rec" by (rule holds_published[OF l p])
  have n: "Suc (rr_Revision rec - 1) = rr_Revision rec" using p(1) by (simp add: proper_record_def)
  have adv: "wpf ?R Q (bindP (advanceIndex env rq rec) (\<lambda>r. case r of Inl e \<Rightarrow> failP (ErrIndexPending # e) | Inr _ \<Rightarrow> Ret (Inr rec))) ?F"
    unfolding wpf_bind advanceIndex_def
  proof (rule advance_wpf[OF l _ h])
    fix F' and x :: "store_error + unit" assume sub: "?F \<subseteq> F'"
    then have "committed_record env rq F' rec" using h by (auto simp: committed_record_def)
    then show "wpf ?R Q (case x of Inl e \<Rightarrow> failP (ErrIndexPending # e) | Inr _ \<Rightarrow> Ret (Inr rec)) F'" using e ok sub by (auto split: sum.split)
  qed simp
  have "wpf ?R Q (tryP (eventAppend ?s (rr_Revision rec - 1) ?ev) (\<lambda>_. bindP (advanceIndex env rq rec) (\<lambda>r. case r of Inl e \<Rightarrow> failP (ErrIndexPending # e) | Inr _ \<Rightarrow> Ret (Inr rec)))) F"
    unfolding wpf_tryP by (rule wpf_eventAppend) (use rule[OF h] e adv n in auto)
  then show ?thesis unfolding publish_record_def Let_def wpf_tryP[of _ _ "writeBlob _ _ _"] published_pointer_def
    by (intro wpf_writeBlob) (use e in auto)
qed

lemma encodeRecord_Inr: "encodeRecord rq rec = Inr d \<Longrightarrow> rc_record rq rec = Some d"
  by (auto simp: encodeRecord_def split: option.splits if_splits)

lemma Create_wpf:
  assumes l: "request_laws env rq" and e: "\<And>F' e. F \<subseteq> F' \<Longrightarrow> Q F' (Inl e)"
    and ok: "\<And>F' rec. F \<subseteq> F' \<Longrightarrow> committed_record env rq F' rec \<Longrightarrow> cq_ID (rr_Request rec) = cq_ID r \<Longrightarrow> Q F' (Inr rec)"
  shows "wpf (request_rules env rq) Q (Create env rq r) F"
proof -
  let ?R = "request_rules env rq"
  have "wpf ?R Q (let rec = \<lparr>rr_Request = request, rr_Fingerprint = fingerprint env rq request, rr_Revision = 1, rr_Status = StatusPending, rr_Progress = ''{}'', rr_UpdatedAt = cq_CreatedAt request\<rparr>
      in case encodeRecord rq rec of Inl e \<Rightarrow> failP e | Inr data \<Rightarrow> tryP (ensureIndex env rq request) (\<lambda>_. publish_record env rq rec data ''create'')) F"
    if n: "normalizeRequest env rq r = Inr request" for request
  proof -
    define rec where "rec = \<lparr>rr_Request = request, rr_Fingerprint = fingerprint env rq request, rr_Revision = 1, rr_Status = StatusPending, rr_Progress = ''{}'', rr_UpdatedAt = cq_CreatedAt request\<rparr>"
    have f: "rr_Request rec = request" "rr_Revision rec = 1" "rr_Status rec = StatusPending" "rr_UpdatedAt rec = cq_CreatedAt (rr_Request rec)" by (simp_all add: rec_def)
    have p: "proper_record env rq rec" using normalized_proper[OF l n] normalizeRequest_Inr(4,5)[OF n] l
      by (auto simp: proper_record_def rec_def status_valid_def maxRevisions_def request_laws_def)
    have i: "cq_ID (rr_Request rec) = cq_ID r" using normalizeRequest_Inr(3)[OF n] f by simp
    have "wpf ?R Q (tryP (ensureIndex env rq (rr_Request rec)) (\<lambda>_. publish_record env rq rec data ''create'')) F" if d: "encodeRecord rq rec = Inr data" for data
      unfolding wpf_tryP
    proof (rule ensureIndex_wpf[OF l p encodeRecord_Inr[OF d] f(2-4)], goal_cases)
      case (2 F' it v ix)
      have "wpf ?R Q (publish_record env rq rec data ''create'') F'"
      proof (rule publish_wpf[OF l p encodeRecord_Inr[OF d]], goal_cases)
        case (1 ev)
        then show ?case unfolding event_rule_def using 2 f by (intro exI[of _ rec]) auto
      next
        case (3 F'')
        then show ?case using ok[of F'' rec] i 2(1) by auto
      qed (use e 2(1) in blast)
      then show ?case by simp
    qed (use e in simp)
    then show ?thesis unfolding rec_def[symmetric] Let_def using e f(1) by (auto split: sum.split)
  qed
  then show ?thesis using e by (auto simp: Create_def wpf_tryP wpf_validContext split: sum.split)
qed

lemma TryUpdate_wpf:
  assumes l: "request_laws env rq" and e: "\<And>F' e. F \<subseteq> F' \<Longrightarrow> Q F' (Inl e)"
    and ok: "\<And>F' rec. F \<subseteq> F' \<Longrightarrow> committed_record env rq F' rec \<Longrightarrow> cq_ID (rr_Request rec) = i \<Longrightarrow> Q F' (Inr rec)"
  shows "wpf (request_rules env rq) Q (TryUpdate env rq sc i u) F"
proof -
  let ?R = "request_rules env rq"
  define new where "new progress rec = rec\<lparr>rr_Revision := rr_Revision rec + 1, rr_Status := up_Status u, rr_Progress := progress, rr_UpdatedAt := up_UpdatedAt u\<rparr>" for progress and rec :: request_record
  have main: "wpf ?R Q (tryP (readRevision env rq i (up_ExpectedRevision u)) (\<lambda>previous.
      if rp_ScopeTag previous \<noteq> scopeTag env rq sc then failP [ErrNotFound]
      else tryP (loadRecord env rq previous) (\<lambda>rec.
        if \<not> validTransition (rr_Status rec) (up_Status u) \<or> up_UpdatedAt u < rr_UpdatedAt rec then failP [ErrInvalid]
        else case encodeRecord rq (new progress rec) of Inl e \<Rightarrow> failP e | Inr data \<Rightarrow> publish_record env rq (new progress rec) data (up_Token u)))) F"
    if valid: "request_id_valid rq i" and u: "up_ExpectedRevision u < maxRevisions" "status_valid (up_Status u)" "validTime (up_UpdatedAt u)" and pg: "objectJSON env (up_Progress u) = Inr progress" for progress
    unfolding readRevision_def wpf_tryP[of _ _ "history_pages _ _ _ _ _ _ _ _"]
  proof (rule history_pages_wpf[OF valid], goal_cases)
    case (2 F' ev rec x p)
    note h = 2
    have e': "Q F' (Inl er)" for er using e h(1) by blast
    have "wpf ?R Q (tryP (loadRecord env rq p) (\<lambda>rec.
        if \<not> validTransition (rr_Status rec) (up_Status u) \<or> up_UpdatedAt u < rr_UpdatedAt rec then failP [ErrInvalid]
        else case encodeRecord rq (new progress rec) of Inl e \<Rightarrow> failP e | Inr data \<Rightarrow> publish_record env rq (new progress rec) data (up_Token u))) F'"
      unfolding wpf_tryP
    proof (rule loadRecord_wpf[OF l h(3,6,7)], goal_cases)
      case 2
      have n: "next_record rec (new progress rec)" if "validTransition (rr_Status rec) (up_Status u)" "\<not> up_UpdatedAt u < rr_UpdatedAt rec"
        using that by (simp add: next_record_def new_def)
      have p: "proper_record env rq (new progress rec)" if "\<not> up_UpdatedAt u < rr_UpdatedAt rec"
        using h(3,4) u pg l that by (auto simp: holds_record_def proper_record_def new_def request_laws_def)
      have "wpf ?R Q (publish_record env rq (new progress rec) data (up_Token u)) F'"
        if c: "validTransition (rr_Status rec) (up_Status u)" "\<not> up_UpdatedAt u < rr_UpdatedAt rec" and d: "encodeRecord rq (new progress rec) = Inr data" for data
      proof (rule publish_wpf[OF l p[OF c(2)] encodeRecord_Inr[OF d]], goal_cases)
        case (1 ev')
        have s: "record_stream env (new progress rec) = request_stream env i" "rr_Revision (new progress rec) - 1 = up_ExpectedRevision u" "up_ExpectedRevision u \<noteq> 0"
          using h(3,4,5) by (auto simp: new_def holds_record_def proper_record_def)
        have "Event (record_stream env (new progress rec)) (rr_Revision (new progress rec) - 1) ev \<in> F'" using h(2) unfolding s by simp
        then show ?case unfolding event_rule_def using 1 n[OF c] h(3,4) s by (intro exI[of _ "new progress rec"]) (auto simp: new_def)
      next
        case (3 F'')
        then show ?case using ok[of F'' "new progress rec"] h(1,5) by (auto simp: new_def)
      qed (use e h(1) in blast)
      then show ?case using e' by (auto split: sum.split)
    qed (use e' in simp)
    then show ?case using e' by auto
  qed (use e in simp)
  show ?thesis unfolding TryUpdate_def wpf_tryP[of _ _ validContext] wpf_validContext new_def[symmetric] Let_def
    using main e by (auto split: sum.split)
qed

section \<open>Enough pages\<close>

text \<open>
  The loop of \<^verbatim>\<open>readRevision\<close> asks for pages until it finds the revision or the history ends. \<open>answered A P p\<close>: \<open>p\<close> returns only what satisfies \<open>P\<close>,
  as long as the pages of a history satisfy \<open>A\<close> and no error is the one that stands for the exhausted bound. When a page that is not the last has
  an entry, one page more than \<open>maxRevisions\<close> is enough: every entry raises the revision, and none exceeds \<open>maxRevisions\<close>.
\<close>

primrec answered :: "(event_page \<Rightarrow> bool) \<Rightarrow> (store_error + 'b \<Rightarrow> bool) \<Rightarrow> (store_error + 'b) prog \<Rightarrow> bool" where
  "answered A P (Ret x) \<longleftrightarrow> P x"
| "answered A P (TGet k f) \<longleftrightarrow> (\<forall>r. answered A P (f r))"
| "answered A P (TCreate it f) \<longleftrightarrow> (\<forall>r. answered A P (f r))"
| "answered A P (TReplace it v f) \<longleftrightarrow> (\<forall>r. answered A P (f r))"
| "answered A P (TQuery q f) \<longleftrightarrow> (\<forall>r. answered A P (f r))"
| "answered A P (EAppend s n ev f) \<longleftrightarrow> (\<forall>r. answered A P (f r))"
| "answered A P (EState s f) \<longleftrightarrow> (\<forall>r. answered A P (f r))"
| "answered A P (EHistory s t f) \<longleftrightarrow> (\<forall>r. (case r of Inl e \<Rightarrow> e \<noteq> [ErrOther] | Inr page \<Rightarrow> A page) \<longrightarrow> answered A P (f r))"
| "answered A P (BCreate k d f) \<longleftrightarrow> (\<forall>r. answered A P (f r))"
| "answered A P (BOpen k f) \<longleftrightarrow> (\<forall>r. answered A P (f r))"
| "answered A P (Nonce f) \<longleftrightarrow> (\<forall>r. answered A P (f r))"
| "answered A P (CtxErr f) \<longleftrightarrow> (\<forall>r. r \<noteq> Some [ErrOther] \<longrightarrow> answered A P (f r))"

lemma answered_tryP:
  assumes "answered A (\<lambda>r. case r of Inl e \<Rightarrow> P (Inl e) | Inr x \<Rightarrow> answered A P (g x)) p"
  shows "answered A P (tryP p g)"
  using assms unfolding tryP_def
proof (induction p)
  case (Ret x)
  then show ?case by (cases x) simp_all
qed auto

lemma next_pointer_revision:
  "next_pointer env rq previous version data = Inr nxt \<Longrightarrow> rp_Revision nxt = Suc (rp_Revision previous) \<and> rp_Revision nxt \<le> maxRevisions"
  by (auto simp: next_pointer_def split: if_splits option.splits)

lemma next_pointer_error: "next_pointer env rq previous version data = Inl e \<Longrightarrow> e = [ErrCorrupt]"
  by (auto simp: next_pointer_def split: if_splits option.splits)

lemma history_entries_progress:
  assumes "\<And>e. e \<noteq> [ErrOther] \<Longrightarrow> P (Inl e)" and "\<And>v. rp_Revision v \<ge> rp_Revision current + (if es = [] then 0 else 1) \<Longrightarrow> rp_Revision current \<le> maxRevisions \<Longrightarrow> rp_Revision v \<le> maxRevisions \<Longrightarrow> P (Inr v)"
    and "rp_Revision current \<le> maxRevisions"
  shows "answered A P (history_entries env rq i revision current es)"
  using assms(2,3)
proof (induction env rq i revision current es rule: history_entries.induct)
  case (2 env rq i revision current n ev es)
  show ?case
  proof (cases "\<exists>d. en_Changes ev = [d]")
    case True
    then obtain d where d: "en_Changes ev = [d]" by blast
    have "answered A P (if rp_ID nxt \<noteq> i \<or> rp_Revision nxt \<noteq> n then failP [ErrCorrupt] else if rp_Revision nxt = revision then Ret (Inr nxt) else history_entries env rq i revision nxt es)"
      if nxt: "next_pointer env rq current (en_ApplicationVersion ev) d = Inr nxt" for nxt
    proof -
      note r = next_pointer_revision[OF nxt]
      have "answered A P (history_entries env rq i revision nxt es)" if "rp_ID nxt = i" "rp_Revision nxt = n" "n \<noteq> revision"
        by (rule "2.IH"[OF d]) (use that r "2.prems"(1) in \<open>auto split: if_splits\<close>)
      then show ?thesis using assms(1) "2.prems"(1)[of nxt] r "2.prems"(2) by (auto simp: failP_def)
    qed
    then have "answered A P (tryP (buildState env rq current [(en_ApplicationVersion ev, d)]) (\<lambda>nxt.
        if rp_ID nxt \<noteq> i \<or> rp_Revision nxt \<noteq> n then failP [ErrCorrupt] else if rp_Revision nxt = revision then Ret (Inr nxt) else history_entries env rq i revision nxt es))"
      using assms(1) next_pointer_error[of env rq current "en_ApplicationVersion ev" d]
      by (cases "next_pointer env rq current (en_ApplicationVersion ev) d") (auto simp: tryP_def validContext_def failP_def split: option.split)
    then show ?thesis by (simp add: d)
  next
    case False
    then have "history_entries env rq i revision current ((n, ev) # es) = failP [ErrCorrupt]" by (auto split: list.split)
    then show ?thesis using assms(1) by (simp add: failP_def)
  qed
qed simp

lemma enough_pages:
  assumes "rp_Revision current \<le> maxRevisions" and "maxRevisions < rp_Revision current + n"
  shows "answered (\<lambda>page. eg_NextPageToken page \<noteq> [] \<longrightarrow> eg_Entries page \<noteq> []) (\<lambda>x. x \<noteq> Inl [ErrOther]) (history_pages env rq i revision n current seen token)"
  using assms
proof (induction n arbitrary: current seen token)
  case (Suc n)
  let ?A = "\<lambda>page. eg_NextPageToken page \<noteq> [] \<longrightarrow> eg_Entries page \<noteq> []" and ?P = "\<lambda>x. x \<noteq> Inl [ErrOther]"
  have "answered ?A ?P (tryP (history_entries env rq i revision current (eg_Entries page)) (\<lambda>nxt.
       if eg_Entries page \<noteq> [] \<and> rp_Revision nxt = revision then Ret (Inr nxt)
       else if eg_NextPageToken page = [] then failP [ErrConflict]
       else if eg_NextPageToken page \<in> set seen then failP [ErrCorrupt]
       else history_pages env rq i revision n nxt (eg_NextPageToken page # seen) (eg_NextPageToken page)))" if "?A page" for page
  proof (rule answered_tryP, rule history_entries_progress)
    fix v :: record_pointer assume "rp_Revision v \<ge> rp_Revision current + (if eg_Entries page = [] then 0 else 1)" "rp_Revision v \<le> maxRevisions"
    then show "case Inr v of Inl e \<Rightarrow> ?P (Inl e) | Inr nxt \<Rightarrow> answered ?A ?P (if eg_Entries page \<noteq> [] \<and> rp_Revision nxt = revision then Ret (Inr nxt)
       else if eg_NextPageToken page = [] then failP [ErrConflict] else if eg_NextPageToken page \<in> set seen then failP [ErrCorrupt]
       else history_pages env rq i revision n nxt (eg_NextPageToken page # seen) (eg_NextPageToken page))"
      using Suc.IH[of v] Suc.prems(2) that by (auto simp: failP_def)
  qed (use Suc.prems in auto)
  then show ?case unfolding history_pages.simps by (auto simp: tryP_def eventHistory_def split: sum.splits)
qed simp

section \<open>Operations obey the rules\<close>

lemma begin_existing_wpf:
  assumes l: "request_laws env rq" and c: "committed_record env rq F rec" and i: "cq_ID (rr_Request rec) = cq_ID r"
    and e: "\<And>F' e. F \<subseteq> F' \<Longrightarrow> Q F' (Inl e)" and again: "\<And>F'. F \<subseteq> F' \<Longrightarrow> wpf (request_rules env rq) Q (again r) F'"
    and ok: "\<And>F' rec. F \<subseteq> F' \<Longrightarrow> committed_record env rq F' rec \<Longrightarrow> cq_ID (rr_Request rec) = cq_ID r \<Longrightarrow> Q F' (Inr rec)"
  shows "wpf (request_rules env rq) Q (begin_existing env rq again r rec) F"
proof (cases "rr_Status rec = StatusPending")
  case True
  have "wpf (request_rules env rq) Q (bindP (TryUpdate env rq (cq_Scope r) (cq_ID r) u)
      (\<lambda>u. case u of Inl e \<Rightarrow> if errIs e ErrConflict then again r else failP e | Inr new \<Rightarrow> Ret (Inr new))) F" for u
    unfolding wpf_bind by (rule TryUpdate_wpf[OF l]) (use e again ok in auto)
  then show ?thesis using True by (simp add: begin_existing_def)
next
  case False
  obtain ev where ev: "Event (record_stream env rec) (rr_Revision rec) ev \<in> F" "holds_record env rq ev rec" using c by (auto simp: committed_record_def)
  have "wpf (request_rules env rq) Q (tryP (advanceIndex env rq rec) (\<lambda>_. Ret (Inr rec))) F"
    unfolding wpf_tryP advanceIndex_def
    by (rule advance_wpf[OF l ev]) (auto intro!: e ok i committed_mono[OF c] split: sum.split)
  then show ?thesis using False by (simp add: begin_existing_def)
qed

lemma begin_create_wpf:
  assumes l: "request_laws env rq" and e: "\<And>F' e. F \<subseteq> F' \<Longrightarrow> Q F' (Inl e)" and again: "\<And>F'. F \<subseteq> F' \<Longrightarrow> wpf (request_rules env rq) Q (again r) F'"
    and ok: "\<And>F' rec. F \<subseteq> F' \<Longrightarrow> committed_record env rq F' rec \<Longrightarrow> cq_ID (rr_Request rec) = cq_ID r \<Longrightarrow> Q F' (Inr rec)"
  shows "wpf (request_rules env rq) Q (begin_create env rq again r) F"
  unfolding begin_create_def wpf_bind
proof (rule Create_wpf[OF l], goal_cases)
  case (1 F' er)
  then show ?case using e again by simp
next
  case (2 F' created)
  have "wpf (request_rules env rq) Q (tryP (Read env rq (cq_Scope r) (cq_ID r)) (begin_existing env rq again r)) F'"
    unfolding wpf_tryP
  proof (rule Read_wpf[OF l], goal_cases)
    case (1 F'' er)
    then show ?case using e 2(1) by auto
  next
    case (2 F'' rec)
    have sub: "F'' \<subseteq> G \<Longrightarrow> F \<subseteq> G" for G using \<open>F \<subseteq> F'\<close> 2(1) by blast
    show ?case unfolding sum.case by (rule begin_existing_wpf[OF l 2(2,3)]) (simp_all add: sub e again ok)
  qed
  then show ?case by simp
qed

lemma begin_loop_wpf:
  assumes l: "request_laws env rq" and e: "\<And>F' e. F \<subseteq> F' \<Longrightarrow> Q F' (Inl e)"
    and ok: "\<And>F' rec. F \<subseteq> F' \<Longrightarrow> committed_record env rq F' rec \<Longrightarrow> cq_ID (rr_Request rec) = cq_ID r \<Longrightarrow> Q F' (Inr rec)"
  shows "wpf (request_rules env rq) Q (begin_loop env rq n r) F"
  using e ok
proof (induction n arbitrary: F r)
  case (Suc n F r)
  let ?R = "request_rules env rq" and ?k = "indexKey env rq (cq_ID r)" and ?again = "begin_loop env rq n"
  have again: "wpf ?R Q (?again r') F'" if "F \<subseteq> F'" "cq_ID r' = cq_ID r" for r' F'
  proof (rule Suc.IH, goal_cases)
    case (1 F'' er)
    then show ?case using Suc.prems(1)[of F'' er] that by blast
  next
    case (2 F'' rec)
    then show ?case using Suc.prems(2)[of F'' rec] that by auto
  qed
  have create: "wpf ?R Q (begin_create env rq ?again r') F'" if "F \<subseteq> F'" "cq_ID r' = cq_ID r" for r' F'
    by (rule begin_create_wpf[OF l]) (use Suc.prems again that in \<open>auto\<close>)
  have existing: "wpf ?R Q (begin_existing env rq ?again r' rec) F'" if "F \<subseteq> F'" "cq_ID r' = cq_ID r" "committed_record env rq F' rec" "cq_ID (rr_Request rec) = cq_ID r" for r' F' rec
    by (rule begin_existing_wpf[OF l that(3)]) (use Suc.prems again that in \<open>auto\<close>)
  show ?case unfolding begin_loop.simps wpf_bind[of _ _ "tableGet _"]
  proof (rule wpf_tableGet, goal_cases)
    case (1 er)
    then show ?case using Suc.prems(1) create by simp
  next
    case (2 row)
    let ?F = "insert (Row ?k (kr_Item row) (kr_Version row)) F"
    have sub: "F \<subseteq> ?F" by blast
    show ?case
    proof (cases "decodeIndex env rq row")
      case (Inl er)
      then show ?thesis using Suc.prems(1)[OF sub] by simp
    next
      case (Inr ix)
      let ?r1 = "r\<lparr>cq_CreatedAt := ix_UpdatedAt ix\<rparr>"
      show ?thesis unfolding Inr sum.case Let_def wpf_bind
      proof (rule Read_wpf[OF l], goal_cases)
        case (1 F' er)
        then have "F \<subseteq> F'" using sub by blast
        then show ?case using Suc.prems(1) create[of F' ?r1] by auto
      next
        case (2 F' rec)
        then have "F \<subseteq> F'" using sub by blast
        then show ?case using Suc.prems(1) existing[of F' _ rec] 2 by (auto simp: Let_def)
      qed
    qed
  qed
qed simp

datatype request_answer = Recorded "store_error + request_record" | Listed "store_error + pending_page"

definition record_calls :: "cloud_env \<Rightarrow> request_codec \<Rightarrow> (store_error + request_record) prog set" where
  "record_calls env rq = range (Create env rq) \<union> (\<Union>sc. range (Read env rq sc)) \<union> range (ReadForRecovery env rq) \<union> (\<Union>sc i. range (TryUpdate env rq sc i))
     \<union> range (BeginOperation env rq) \<union> range (LookupOperation env rq) \<union> range (VerifyOperation env rq)"

definition request_calls :: "cloud_env \<Rightarrow> request_codec \<Rightarrow> request_answer prog set" where
  "request_calls env rq = (\<lambda>p. bindP p (\<lambda>r. Ret (Recorded r))) ` record_calls env rq \<union> {bindP (ListPending env rq shard n token) (\<lambda>r. Ret (Listed r)) | shard n token. True}"

definition request_post :: "cloud_env \<Rightarrow> request_codec \<Rightarrow> fact set \<Rightarrow> request_answer \<Rightarrow> bool" where
  "request_post env rq F x \<longleftrightarrow> (\<forall>rec. x = Recorded (Inr rec) \<longrightarrow> committed_record env rq F rec)"

lemma LookupOperation_wpf:
  assumes "request_laws env rq" and "\<And>F' e. F \<subseteq> F' \<Longrightarrow> Q F' (Inl e)" and "\<And>F' rec. F \<subseteq> F' \<Longrightarrow> committed_record env rq F' rec \<Longrightarrow> Q F' (Inr rec)"
  shows "wpf (request_rules env rq) Q (LookupOperation env rq oq) F"
proof -
  have "wpf (request_rules env rq) Q (Read env rq (oq_Scope oq) i) F" for i by (rule Read_wpf[OF assms(1)]) (use assms in auto)
  then show ?thesis using assms(2) by (simp add: LookupOperation_def wpf_tryP wpf_validContext)
qed

lemma VerifyOperation_wpf:
  assumes l: "request_laws env rq" and e: "\<And>F' e. F \<subseteq> F' \<Longrightarrow> Q F' (Inl e)" and ok: "\<And>F' rec. F \<subseteq> F' \<Longrightarrow> committed_record env rq F' rec \<Longrightarrow> Q F' (Inr rec)"
  shows "wpf (request_rules env rq) Q (VerifyOperation env rq oq) F"
  unfolding VerifyOperation_def wpf_tryP[of _ _ "LookupOperation _ _ _"]
proof (rule LookupOperation_wpf[OF l], goal_cases)
  case (2 F' rec)
  have "wpf (request_rules env rq) Q (tryP (tableGet k) (\<lambda>row. case decodeIndex env rq row of Inl e \<Rightarrow> failP e
      | Inr ix \<Rightarrow> if \<not> index_names env rq ix expected then failP [ErrConflict] else Ret (Inr rec))) F'" for k expected
    unfolding wpf_tryP
  proof (rule wpf_tableGet, goal_cases)
    case (2 row)
    let ?F = "insert (Row k (kr_Item row) (kr_Version row)) F'"
    have "F \<subseteq> ?F" "committed_record env rq ?F rec" using \<open>F \<subseteq> F'\<close> committed_mono[OF \<open>committed_record env rq F' rec\<close>, of ?F] by auto
    then show ?case using e ok by (auto split: sum.split)
  qed (use e 2(1) in auto)
  then show ?case using e 2(1) by (auto split: sum.split)
qed (use e in simp)

lemma record_calls_wpf:
  assumes l: "request_laws env rq" and p: "p \<in> record_calls env rq" and e: "\<And>F' e. F \<subseteq> F' \<Longrightarrow> Q F' (Inl e)"
    and ok: "\<And>F' rec. F \<subseteq> F' \<Longrightarrow> committed_record env rq F' rec \<Longrightarrow> Q F' (Inr rec)"
  shows "wpf (request_rules env rq) Q p F"
proof -
  let ?R = "request_rules env rq"
  have "wpf ?R Q (Create env rq r) F" for r by (rule Create_wpf[OF l]) (use e ok in auto)
  moreover have "wpf ?R Q (Read env rq sc i) F" for sc i by (rule Read_wpf[OF l]) (use e ok in auto)
  moreover have "wpf ?R Q (ReadForRecovery env rq i) F" for i unfolding ReadForRecovery_def by (rule read_record_wpf[OF l]) (use e ok in auto)
  moreover have "wpf ?R Q (TryUpdate env rq sc i u) F" for sc i u by (rule TryUpdate_wpf[OF l]) (use e ok in auto)
  moreover have "wpf ?R Q (BeginOperation env rq oq) F" for oq
  proof -
    have "wpf ?R Q (begin_loop env rq n r) F" for n r by (rule begin_loop_wpf[OF l]) (use e ok in auto)
    then show ?thesis using e by (auto simp: BeginOperation_def wpf_tryP wpf_validContext split: sum.split)
  qed
  moreover have "wpf ?R Q (LookupOperation env rq oq) F" for oq by (rule LookupOperation_wpf[OF l]) (use e ok in auto)
  moreover have "wpf ?R Q (VerifyOperation env rq oq) F" for oq by (rule VerifyOperation_wpf[OF l]) (use e ok in auto)
  ultimately show ?thesis using p unfolding record_calls_def by blast
qed

lemma ListPending_gathers: "gathers (bindP (ListPending env rq shard n token) (\<lambda>r. Ret (Listed r)))"
  by (auto simp: ListPending_def validContext_def tryP_def tableQuery_def failP_def Let_def split: option.split sum.split)

lemma ListPending_returns: "returns (\<lambda>x. \<exists>r. x = Listed r) (bindP (ListPending env rq shard n token) (\<lambda>r. Ret (Listed r)))"
  by (rule returns_bind) simp

lemma request_calls_wpf:
  assumes "request_laws env rq"
  shows "\<forall>p \<in> request_calls env rq. wpf (request_rules env rq) (request_post env rq) p {}"
proof
  fix p assume "p \<in> request_calls env rq"
  then consider q where "q \<in> record_calls env rq" "p = bindP q (\<lambda>r. Ret (Recorded r))"
    | shard n token where "p = bindP (ListPending env rq shard n token) (\<lambda>r. Ret (Listed r))" unfolding request_calls_def by blast
  then show "wpf (request_rules env rq) (request_post env rq) p {}"
  proof cases
    case (1 q)
    show ?thesis unfolding 1 wpf_bind by (rule record_calls_wpf[OF assms 1(1)]) (simp_all add: request_post_def)
  next
    case (2 shard n token)
    show ?thesis unfolding 2 by (rule wpf_gathers[OF ListPending_gathers ListPending_returns]) (auto simp: request_post_def)
  qed
qed

section \<open>The life cycle of a request\<close>

text \<open>The records of a request: the first is pending at revision 1, and each continues the one before it.\<close>

definition lifecycle :: "request_record list \<Rightarrow> bool" where
  "lifecycle recs \<longleftrightarrow> (recs \<noteq> [] \<longrightarrow> rr_Status (hd recs) = StatusPending) \<and> (\<forall>j < length recs. rr_Revision (recs ! j) = Suc j) \<and> (\<forall>j. Suc j < length recs \<longrightarrow> next_record (recs ! j) (recs ! Suc j))"

lemma terminal_no_transition: "status_terminal s \<Longrightarrow> \<not> validTransition s t"
  by (simp add: validTransition_def)

lemma lifecycle_same_request:
  assumes "lifecycle recs" and "j \<le> k" and "k < length recs"
  shows "rr_Request (recs ! k) = rr_Request (recs ! j)" and "rr_UpdatedAt (recs ! j) \<le> rr_UpdatedAt (recs ! k)"
  using assms(2,3)
proof (induction k)
  case (Suc k)
  { case 1 then show ?case using Suc.IH(1) assms(1) unfolding lifecycle_def next_record_def by (metis Suc_lessD le_Suc_eq) }
  { case 2 then show ?case using Suc.IH(2) assms(1) unfolding lifecycle_def next_record_def by (metis Suc_lessD le_Suc_eq order_refl order_trans) }
qed simp_all

lemma terminal_is_last:
  assumes "lifecycle recs" and "j < length recs" and "status_terminal (rr_Status (recs ! j))"
  shows "Suc j = length recs"
  using assms terminal_no_transition unfolding lifecycle_def next_record_def by (metis Suc_lessI)

definition empty_requests :: "('w \<Rightarrow> kv_key \<Rightarrow> (kv_item \<times> string) list) \<Rightarrow> ('w \<Rightarrow> string \<Rightarrow> event list) \<Rightarrow> cloud_env \<Rightarrow> request_codec \<Rightarrow> 'w \<Rightarrow> bool" where
  "empty_requests log elog env rq w \<longleftrightarrow> (\<forall>i. request_id_valid rq i \<longrightarrow> log w (indexKey env rq i) = [] \<and> elog w (request_stream env i) = [])"

lemma requests_ok:
  assumes "event_streams st log sound elog" and "sound w0" and "request_laws env rq" and "empty_requests log elog env rq w0"
    and "(system_step st (request_calls env rq))\<^sup>*\<^sup>* (w0, []) (w, cs)"
  shows "rows_ok (request_rules env rq) (fact_in (log w) (elog w)) (log w)" and "events_ok (request_rules env rq) (fact_in (log w) (elog w)) (elog w)"
    and "progs_ok (request_rules env rq) (fact_in (log w) (elog w)) (request_post env rq) cs"
proof -
  have "event_streams.state_ok log sound elog (request_rules env rq) (request_post env rq) w cs"
    by (rule event_streams.rules_kept[OF assms(1,2) request_rules_coherent _ _ assms(5) request_calls_wpf[OF assms(3)]])
      (use assms(4) in \<open>auto simp: request_rules_def empty_requests_def\<close>)
  then show "rows_ok (request_rules env rq) (fact_in (log w) (elog w)) (log w)" "events_ok (request_rules env rq) (fact_in (log w) (elog w)) (elog w)"
    "progs_ok (request_rules env rq) (fact_in (log w) (elog w)) (request_post env rq) cs"
    unfolding event_streams.state_ok_def[OF assms(1)] by blast+
qed

lemma stream_lifecycle:
  assumes l: "request_laws env rq" and ev: "events_ok (request_rules env rq) (fact_in L E) E" and i: "request_id_valid rq i"
  shows "\<exists>recs. list_all2 (holds_record env rq) (E (request_stream env i)) recs \<and> lifecycle recs \<and> (\<forall>rec \<in> set recs. cq_ID (rr_Request rec) = i)"
proof -
  let ?s = "request_stream env i" and ?es = "E (request_stream env i)"
  have rule: "\<exists>F. Ball F (fact_in L E) \<and> event_rule env rq F ?s j (?es ! j)" if "j < length ?es" for j
    using ev i that unfolding events_ok_def by (metis request_rules_simps(2,5))
  then have "\<forall>j < length ?es. \<exists>rec. holds_record env rq (?es ! j) rec \<and> rr_Revision rec = Suc j \<and> cq_ID (rr_Request rec) = i"
    unfolding event_rule_def by (metis request_stream_inj)
  then obtain recs where recs: "length recs = length ?es" "\<forall>j < length ?es. holds_record env rq (?es ! j) (recs ! j) \<and> rr_Revision (recs ! j) = Suc j \<and> cq_ID (rr_Request (recs ! j)) = i"
    unfolding Skolem_list_nth by blast
  have next': "next_record (recs ! j) (recs ! Suc j)" if j: "Suc j < length ?es" for j
  proof -
    obtain F where F: "Ball F (fact_in L E)" "event_rule env rq F ?s (Suc j) (?es ! Suc j)" using rule[OF j] by blast
    then obtain rec ev0 rec0 where r: "holds_record env rq (?es ! Suc j) rec" "Event ?s (Suc j) ev0 \<in> F" "holds_record env rq ev0 rec0" "next_record rec0 rec"
      unfolding event_rule_def by auto
    have "ev0 = ?es ! j" using F(1) r(2) by force
    then have "rec0 = recs ! j" "rec = recs ! Suc j" using holds_record_unique[OF l] r(1,3) recs(2) j by (metis Suc_lessD)+
    then show ?thesis using r(4) by simp
  qed
  have first: "rr_Status (recs ! 0) = StatusPending" if "?es \<noteq> []"
  proof -
    obtain F rec where "holds_record env rq (?es ! 0) rec" "rr_Status rec = StatusPending" using rule[of 0] \<open>?es \<noteq> []\<close> unfolding event_rule_def by auto
    then show ?thesis using holds_record_unique[OF l] recs(2) \<open>?es \<noteq> []\<close> by (metis length_greater_0_conv)
  qed
  have "recs \<noteq> [] \<longrightarrow> ?es \<noteq> []" using recs(1) by auto
  then have "lifecycle recs" unfolding lifecycle_def using recs next' first by (simp add: hd_conv_nth)
  moreover have "list_all2 (holds_record env rq) ?es recs" using recs by (simp add: list_all2_conv_all_nth)
  moreover have "\<forall>rec \<in> set recs. cq_ID (rr_Request rec) = i" using recs by (auto simp: in_set_conv_nth)
  ultimately show ?thesis by blast
qed

text \<open>What a worker was told of a request is a record of its stream.\<close>

lemma told_record:
  assumes l: "request_laws env rq" and ok: "progs_ok (request_rules env rq) (fact_in L E) (request_post env rq) cs" and x: "x \<in> set cs" "fst x = Ret (Recorded (Inr rec))"
    and recs: "list_all2 (holds_record env rq) (E (record_stream env rec)) recs"
  shows "0 < rr_Revision rec \<and> rr_Revision rec \<le> length recs \<and> recs ! (rr_Revision rec - 1) = rec"
proof -
  obtain F where F: "Ball F (fact_in L E)" "request_post env rq F (Recorded (Inr rec))" using ok x unfolding progs_ok_def by force
  then obtain ev where ev: "fact_in L E (Event (record_stream env rec) (rr_Revision rec) ev)" "holds_record env rq ev rec" by (auto simp: request_post_def committed_record_def)
  let ?es = "E (record_stream env rec)"
  have n: "0 < rr_Revision rec" "rr_Revision rec \<le> length ?es" "?es ! (rr_Revision rec - 1) = ev" using ev(1) by simp_all
  have "rr_Revision rec - 1 < length ?es" using n by linarith
  then have "holds_record env rq (?es ! (rr_Revision rec - 1)) (recs ! (rr_Revision rec - 1))" using recs unfolding list_all2_conv_all_nth by blast
  then have "recs ! (rr_Revision rec - 1) = rec" using holds_record_unique[OF l] ev(2) n(3) by blast
  then show ?thesis using n recs by (simp add: list_all2_lengthD)
qed

end
