(* ===== verification/Cloud_Request_Runs.thy ===== *)
theory Cloud_Request_Runs
  imports Cloud_Request_Facts
begin

text \<open>
  The properties of durable requests, with a run of the in-memory stores in which one worker creates a request, two others compete to
  start it, and it completes.
\<close>

section \<open>The index of a request\<close>

lemma index_row:
  assumes rows: "rows_ok (request_rules env rq) (fact_in L E) L" and i: "request_id_valid rq i" and j: "j < length (L (indexKey env rq i))"
  shows "\<exists>ix. holds_index rq (fst (L (indexKey env rq i) ! j)) ix \<and> ix_ID ix = i
    \<and> (if j = 0 then ix_Revision ix = 0 \<and> ix_Status ix = StatusPending
       else (\<exists>ix0. holds_index rq (fst (L (indexKey env rq i) ! (j - 1))) ix0 \<and> ix_ScopeTag ix0 = ix_ScopeTag ix \<and> ix_Binding ix0 = ix_Binding ix \<and> ix_Revision ix0 < ix_Revision ix)
         \<and> (\<exists>ev rec. fact_in L E (Event (request_stream env i) (ix_Revision ix) ev) \<and> holds_record env rq ev rec \<and> ix = index_of env rq rec))"
proof -
  let ?l = "L (indexKey env rq i)"
  have key: "ki_Key (fst (?l ! j)) = indexKey env rq i"
    and "\<exists>F. Ball F (fact_in L E) \<and> index_rule env rq F (if j = 0 then None else Some (fst (?l ! (j - 1)))) (fst (?l ! j))"
    using rows i j unfolding rows_ok_def by (metis request_rules_simps(1,4))+
  then obtain F where F: "Ball F (fact_in L E)" "index_rule env rq F (if j = 0 then None else Some (fst (?l ! (j - 1)))) (fst (?l ! j))" by blast
  then obtain ix where ix: "holds_index rq (fst (?l ! j)) ix" "ki_Key (fst (?l ! j)) = indexKey env rq (ix_ID ix)" unfolding index_rule_def by blast
  have i': "ix_ID ix = i" using ix(2) key by simp
  have same: "ix' = ix" if "holds_index rq (fst (?l ! j)) ix'" for ix' by (rule holds_index_unique[OF ix(1) that])
  show ?thesis
  proof (cases "j = 0")
    case True
    then have "ix_Revision ix = 0 \<and> ix_Status ix = StatusPending" using F(2) same unfolding index_rule_def by auto
    then show ?thesis using True ix(1) i' by auto
  next
    case False
    then obtain ix0 ev rec where "holds_index rq (fst (?l ! (j - 1))) ix0" "ix_ScopeTag ix0 = ix_ScopeTag ix" "ix_Binding ix0 = ix_Binding ix" "ix_Revision ix0 < ix_Revision ix"
      "Event (request_stream env i) (ix_Revision ix) ev \<in> F" "holds_record env rq ev rec" "ix = index_of env rq rec"
      using F(2) same i' unfolding index_rule_def by auto
    then show ?thesis using False ix(1) i' F(1) by (simp only: if_False) blast
  qed
qed

lemma index_tags:
  assumes rows: "rows_ok (request_rules env rq) (fact_in L E) L" and i: "request_id_valid rq i"
    and "j < length (L (indexKey env rq i))" and "holds_index rq (fst (L (indexKey env rq i) ! j)) ix" and "holds_index rq (fst (L (indexKey env rq i) ! 0)) ix0"
  shows "ix_ScopeTag ix = ix_ScopeTag ix0 \<and> ix_Binding ix = ix_Binding ix0"
  using assms(3,4)
proof (induction j arbitrary: ix)
  case 0
  then show ?case using assms(5) holds_index_unique by metis
next
  case (Suc j)
  obtain ix1 where "holds_index rq (fst (L (indexKey env rq i) ! j)) ix1" "ix_ScopeTag ix1 = ix_ScopeTag ix" "ix_Binding ix1 = ix_Binding ix"
    using index_row[OF rows i Suc.prems(1)] holds_index_unique[OF Suc.prems(2)] by auto
  then show ?case using Suc.IH[of ix1] Suc.prems(1) by simp
qed

text \<open>A page of the pending list shows every row of it that is not terminal.\<close>

lemma list_rows_complete:
  assumes "list_rows env rq shard lastKey rows = Inr rs" and "row \<in> set rows"
  shows "\<exists>ix. decodeIndex env rq row = Inr ix \<and> (\<not> status_terminal (ix_Status ix) \<longrightarrow> (\<exists>p \<in> set rs. pq_ID p = ix_ID ix \<and> pq_Revision p = ix_Revision ix \<and> pq_Status p = ix_Status ix))"
  using assms
proof (induction rows arbitrary: lastKey rs)
  case (Cons a rows)
  obtain ix rest where ix: "decodeIndex env rq a = Inr ix" "list_rows env rq shard (snd (ki_Key (kr_Item a))) rows = Inr rest"
    "rs = (if status_terminal (ix_Status ix) then rest else \<lparr>pq_ID = ix_ID ix, pq_Status = ix_Status ix, pq_Revision = ix_Revision ix, pq_UpdatedAt = ix_UpdatedAt ix, pq_Initializing = (ix_Revision ix = 0)\<rparr> # rest)"
    using Cons.prems(1) by (auto simp: bindE_def split: sum.splits if_splits)
  show ?case
  proof (cases "row = a")
    case False
    then obtain ix' where "decodeIndex env rq row = Inr ix'" "\<not> status_terminal (ix_Status ix') \<longrightarrow> (\<exists>p \<in> set rest. pq_ID p = ix_ID ix' \<and> pq_Revision p = ix_Revision ix' \<and> pq_Status p = ix_Status ix')"
      using Cons.IH[OF ix(2)] Cons.prems(2) by auto
    then show ?thesis using ix(3) by auto
  qed (use ix in auto)
qed simp

section \<open>A run\<close>

definition rdemo_env :: cloud_env where
  "rdemo_env = \<lparr>cv_namespace = ''n'', cv_secret = [], cv_hmac = tail_digest, cv_seal = (\<lambda>n d k. d),
     cv_open = (\<lambda>n c k. Some c), cv_nonceSize = 1, cv_overhead = 0, cv_canonical = Inr\<rparr>"

definition rdemo_scope :: scope where "rdemo_scope = \<lparr>sc_Tenant = ''t'', sc_Project = ''p''\<rparr>"

definition rdemo_id :: string where "rdemo_id = ''llmtw_req_a''"

definition rdemo_request :: create_request where
  "rdemo_request = \<lparr>cq_ID = rdemo_id, cq_Scope = rdemo_scope, cq_Kind = ''generate'', cq_RequestIndex = 0, cq_Manifest = ''{m'', cq_CreatedAt = 1\<rparr>"

text \<open>The fingerprint is the digest of the manifest; the records of the three revisions.\<close>

definition rdemo_record :: "nat \<Rightarrow> status \<Rightarrow> string \<Rightarrow> request_record" where
  "rdemo_record n s p = \<lparr>rr_Request = rdemo_request, rr_Fingerprint = hex_encode (tail_digest [] (''llmtw/cloudstate/v1/request-fingerprint'' @ [CHR 0x00] @ ''{m'')),
     rr_Revision = n, rr_Status = s, rr_Progress = p, rr_UpdatedAt = 1\<rparr>"

definition rdemo_records :: "(string \<times> request_record) list" where
  "rdemo_records = [(''1'', rdemo_record 1 StatusPending ''{}''), (''2'', rdemo_record 2 StatusRunning ''{r''), (''3'', rdemo_record 3 StatusCompleted ''{c'')]"

definition status_char :: "status \<Rightarrow> char" where
  "status_char s = (case s of StatusPending \<Rightarrow> CHR ''p'' | StatusRunning \<Rightarrow> CHR ''r'' | StatusCompleted \<Rightarrow> CHR ''c'' | _ \<Rightarrow> CHR ''x'')"

definition char_status :: "char \<Rightarrow> status" where
  "char_status c = (if c = CHR ''p'' then StatusPending else if c = CHR ''r'' then StatusRunning else if c = CHR ''c'' then StatusCompleted else StatusFailed)"

definition rev_char :: "nat \<Rightarrow> char" where
  "rev_char n = (if n = 0 then CHR ''0'' else if n = 1 then CHR ''1'' else if n = 2 then CHR ''2'' else CHR ''3'')"

definition char_rev :: "char \<Rightarrow> nat" where
  "char_rev c = (if c = CHR ''0'' then 0 else if c = CHR ''1'' then 1 else if c = CHR ''2'' then 2 else 3)"

definition rdemo_codec :: request_codec where
  "rdemo_codec = \<lparr>rc_uuidParse = Some, rc_uuidString = (\<lambda>u. u), rc_scope = (\<lambda>s. sc_Tenant s @ sc_Project s), rc_request = cq_ID, rc_fingerprint = (\<lambda>s k n m. m),
     rc_record = (\<lambda>r. map_option fst (List.find (\<lambda>(d, r'). r' = r) rdemo_records)), rc_readRecord = map_of rdemo_records,
     rc_pointer = (\<lambda>p. rev_char (rp_Revision p) # status_char (rp_Status p) # rp_ScopeTag p @ rp_Binding p @ rp_Blob p @ rp_ID p),
     rc_readPointer = (\<lambda>s. case s of r # c # s \<Rightarrow> Some \<lparr>rp_ID = drop 202 s, rp_ScopeTag = take 64 s, rp_Binding = take 64 (drop 64 s), rp_Revision = char_rev r, rp_Status = char_status c, rp_Blob = take 74 (drop 128 s)\<rparr> | _ \<Rightarrow> None),
     rc_index = (\<lambda>x. rev_char (ix_Revision x) # status_char (ix_Status x) # ix_ScopeTag x @ ix_Binding x @ ix_ID x),
     rc_readIndex = (\<lambda>s. case s of r # c # s \<Rightarrow> Some \<lparr>ix_Schema = 1, ix_ID = drop 128 s, ix_ScopeTag = take 64 s, ix_Binding = take 64 (drop 64 s), ix_Revision = char_rev r, ix_Status = char_status c, ix_UpdatedAt = 1\<rparr> | _ \<Rightarrow> None),
     rc_identity = (\<lambda>n s k key. key), rc_sha = (\<lambda>s. s), rc_pages = 1\<rparr>"

lemma rdemo_encoded: "rc_record rdemo_codec rec = Some d \<longleftrightarrow> (d, rec) \<in> set rdemo_records"
proof -
  have "rdemo_record 1 a b \<noteq> rdemo_record 2 a' b'" "rdemo_record 1 a b \<noteq> rdemo_record 3 a' b'" "rdemo_record 2 a b \<noteq> rdemo_record 3 a' b'" for a b a' b'
    by (simp_all add: rdemo_record_def)
  then show ?thesis by (auto simp: rdemo_codec_def rdemo_records_def)
qed

lemma rdemo_reads_back:
  assumes "(d, rec) \<in> set rdemo_records"
  shows "rc_readRecord rdemo_codec d = Some rec \<and> rc_readPointer rdemo_codec (rc_pointer rdemo_codec (published_pointer rdemo_env rdemo_codec rec d)) = Some (published_pointer rdemo_env rdemo_codec rec d)
    \<and> rc_readIndex rdemo_codec (rc_index rdemo_codec (index_of rdemo_env rdemo_codec rec)) = Some (index_of rdemo_env rdemo_codec rec)
    \<and> rc_readIndex rdemo_codec (rc_index rdemo_codec (index_of rdemo_env rdemo_codec rec\<lparr>ix_Revision := 0\<rparr>)) = Some (index_of rdemo_env rdemo_codec rec\<lparr>ix_Revision := 0\<rparr>)"
proof -
  have "list_all (\<lambda>(d, rec). rc_readRecord rdemo_codec d = Some rec \<and> rc_readPointer rdemo_codec (rc_pointer rdemo_codec (published_pointer rdemo_env rdemo_codec rec d)) = Some (published_pointer rdemo_env rdemo_codec rec d)
    \<and> rc_readIndex rdemo_codec (rc_index rdemo_codec (index_of rdemo_env rdemo_codec rec)) = Some (index_of rdemo_env rdemo_codec rec)
    \<and> rc_readIndex rdemo_codec (rc_index rdemo_codec (index_of rdemo_env rdemo_codec rec\<lparr>ix_Revision := 0\<rparr>)) = Some (index_of rdemo_env rdemo_codec rec\<lparr>ix_Revision := 0\<rparr>)) rdemo_records"
    by code_simp
  then show ?thesis using assms by (auto simp: list_all_iff)
qed

lemma rdemo_body: "blobKey rdemo_env s [x] = blobKey rdemo_env s' [x'] \<Longrightarrow> x = x'"
proof -
  let ?m = "\<lambda>s. ''llmtw/cloudstate/v1/'' @ (''payload/'' @ s) @ [CHR 0x00]"
  assume "blobKey rdemo_env s [x] = blobKey rdemo_env s' [x']"
  then have "hex_encode (tail_digest [] (?m s @ [x])) = hex_encode (tail_digest [] (?m s' @ [x']))"
    by (simp add: blobKey_def cloud_digest_def derive_def rdemo_env_def)
  from hex_encode_inj[OF this] show "x = x'" using tail_digest_end[of "[x]" "[]" "?m s"] tail_digest_end[of "[x']" "[]" "?m s'"] by simp
qed

lemma rdemo_laws: "request_laws rdemo_env rdemo_codec"
  unfolding request_laws_def
proof (intro conjI allI impI)
  show "rc_readRecord rdemo_codec d = Some rec" "rc_readPointer rdemo_codec (rc_pointer rdemo_codec (published_pointer rdemo_env rdemo_codec rec d)) = Some (published_pointer rdemo_env rdemo_codec rec d)"
    "rc_readIndex rdemo_codec (rc_index rdemo_codec (index_of rdemo_env rdemo_codec rec)) = Some (index_of rdemo_env rdemo_codec rec)"
    "rc_readIndex rdemo_codec (rc_index rdemo_codec (index_of rdemo_env rdemo_codec rec\<lparr>ix_Revision := 0\<rparr>)) = Some (index_of rdemo_env rdemo_codec rec\<lparr>ix_Revision := 0\<rparr>)"
    if "rc_record rdemo_codec rec = Some d" for rec d using rdemo_reads_back[of d rec] that unfolding rdemo_encoded by blast+
  show "objectJSON rdemo_env c = Inr c" if "objectJSON rdemo_env v = Inr c" for v c
    using that by (auto simp: objectJSON_def rdemo_env_def split: if_splits)
  show "\<exists>c. objectJSON rdemo_env ''{}'' = Inr c" by (rule exI[of _ "''{}''"]) code_simp
  show "inj_on (\<lambda>(s, d). blobKey rdemo_env s d) (record_bodies rdemo_env rdemo_codec)"
  proof (rule inj_onI, clarify)
    fix s d s' d' assume m: "(s, d) \<in> record_bodies rdemo_env rdemo_codec" "(s', d') \<in> record_bodies rdemo_env rdemo_codec"
      and e: "blobKey rdemo_env s d = blobKey rdemo_env s' d'"
    have b: "t = request_stream rdemo_env rdemo_id \<and> (\<exists>x. u = [x])" if tu: "(t, u) \<in> record_bodies rdemo_env rdemo_codec" for t u
    proof -
      obtain p rec where "t = request_stream rdemo_env (rp_ID p)" "decode_record rdemo_env rdemo_codec p u = Inr rec" using tu by (auto simp: record_bodies_def)
      then have "t = record_stream rdemo_env rec" "(u, rec) \<in> set rdemo_records" using decode_record_Inr[of rdemo_env rdemo_codec p u rec] map_of_SomeD by (auto simp: rdemo_codec_def)
      then show ?thesis by (auto simp: rdemo_records_def rdemo_record_def rdemo_request_def)
    qed
    show "s = s' \<and> d = d'" using b[OF m(1)] b[OF m(2)] e rdemo_body by auto
  qed
qed

definition rdemo_update :: "nat \<Rightarrow> string \<Rightarrow> status \<Rightarrow> string \<Rightarrow> request_update" where
  "rdemo_update n token st p = \<lparr>up_ExpectedRevision = n, up_Token = token, up_Status = st, up_Progress = p, up_UpdatedAt = 1\<rparr>"

abbreviation rdemo_call :: "(store_error + request_record) prog \<Rightarrow> request_answer prog" where
  "rdemo_call p \<equiv> bindP p (\<lambda>r. Ret (Recorded r))"

definition rdemo_schedule :: "request_answer action list" where
  "rdemo_schedule =
     [Spawn (rdemo_call (Create rdemo_env rdemo_codec rdemo_request)), Run 0 40,
      Spawn (rdemo_call (TryUpdate rdemo_env rdemo_codec rdemo_scope rdemo_id (rdemo_update 1 ''a'' StatusRunning ''{r''))), Run 1 5,
      Spawn (rdemo_call (TryUpdate rdemo_env rdemo_codec rdemo_scope rdemo_id (rdemo_update 1 ''b'' StatusRunning ''{r''))), Run 2 40, Run 1 40]"

definition rdemo_finish :: "request_answer action list" where
  "rdemo_finish =
     [Spawn (rdemo_call (TryUpdate rdemo_env rdemo_codec rdemo_scope rdemo_id (rdemo_update 2 ''c'' StatusCompleted ''{c''))), Run 3 40,
      Spawn (rdemo_call (Read rdemo_env rdemo_codec rdemo_scope rdemo_id)), Run 4 40,
      Spawn (rdemo_call (TryUpdate rdemo_env rdemo_codec rdemo_scope rdemo_id (rdemo_update 3 ''d'' StatusRunning ''{r''))), Run 5 40]"

definition rdemo_answers :: "(request_answer prog \<times> acks) list \<Rightarrow> string list" where
  "rdemo_answers cs = map (\<lambda>c. case fst c of
       Ret (Recorded (Inr r)) \<Rightarrow> (case List.find (\<lambda>(d, r'). r' = r) rdemo_records of None \<Rightarrow> ''other'' | Some (d, _) \<Rightarrow> d)
     | Ret (Recorded (Inl e)) \<Rightarrow> (if errIs e ErrConflict then ''conflict'' else if errIs e ErrInvalid then ''invalid'' else ''error'') | _ \<Rightarrow> ''open'') cs"

abbreviation rdemo_start :: "memory \<times> (request_answer prog \<times> acks) list" where
  "rdemo_start \<equiv> exec 1 rdemo_schedule (empty_memory, [])"

abbreviation rdemo_run :: "memory \<times> (request_answer prog \<times> acks) list" where
  "rdemo_run \<equiv> exec 1 (rdemo_schedule @ rdemo_finish) (empty_memory, [])"

lemma rdemo_reachable:
  assumes "set (spawned as) \<subseteq> request_calls rdemo_env rdemo_codec"
  shows "(system_step (memory_storage 1) (request_calls rdemo_env rdemo_codec))\<^sup>*\<^sup>* (empty_memory, []) (fst (exec 1 as (empty_memory, [])), snd (exec 1 as (empty_memory, [])))"
  using exec_system[OF assms, of 1 "(empty_memory, [])"] by simp

lemma record_call: "p \<in> record_calls env rq \<Longrightarrow> bindP p (\<lambda>r. Ret (Recorded r)) \<in> request_calls env rq"
  by (simp add: request_calls_def)

lemma record_calls_members: "Create env rq r \<in> record_calls env rq" "Read env rq sc i \<in> record_calls env rq" "TryUpdate env rq sc i u \<in> record_calls env rq"
proof -
  have "Read env rq sc i \<in> (\<Union>sc. range (Read env rq sc))" "TryUpdate env rq sc i u \<in> (\<Union>sc i. range (TryUpdate env rq sc i))" by (rule UN_I[OF UNIV_I] rangeI)+
  then show "Create env rq r \<in> record_calls env rq" "Read env rq sc i \<in> record_calls env rq" "TryUpdate env rq sc i u \<in> record_calls env rq"
    unfolding record_calls_def Un_iff by simp_all
qed

lemma rdemo_calls: "set (spawned rdemo_schedule) \<subseteq> request_calls rdemo_env rdemo_codec" "set (spawned (rdemo_schedule @ rdemo_finish)) \<subseteq> request_calls rdemo_env rdemo_codec"
  unfolding rdemo_schedule_def rdemo_finish_def append.simps spawned.simps list.set insert_subset
  by (intro conjI empty_subsetI record_call record_calls_members)+

lemma rdemo_empty: "empty_requests me_history me_events rdemo_env rdemo_codec empty_memory"
  by (simp add: empty_requests_def empty_memory_sound)

lemmas rdemo_hypotheses = memory_streams.event_streams_axioms empty_memory_sound(1) rdemo_laws rdemo_empty

text \<open>The request is created and started once, although two workers tried; it completes, and a later update of it is refused.\<close>

lemma rdemo_outcome: "rdemo_answers (snd rdemo_run) = [''1'', ''conflict'', ''2'', ''3'', ''3'', ''invalid'']"
  by code_simp

lemma rdemo_answered:
  assumes "rdemo_answers cs ! j = d" and "j < length cs" and "d \<in> {''1'', ''2'', ''3''}"
  shows "\<exists>rec. fst (cs ! j) = Ret (Recorded (Inr rec)) \<and> (d, rec) \<in> set rdemo_records"
proof -
  have "rdemo_answers [cs ! j] = [d]" using assms(1,2) by (simp add: rdemo_answers_def)
  then show ?thesis using assms(3)
    by (cases "fst (cs ! j)") (auto simp: rdemo_answers_def find_Some_iff in_set_conv_nth split: request_answer.splits sum.splits option.splits if_splits)
qed

section \<open>Properties\<close>

text \<open>C17: a durable request has one history. However many workers create, read, update and begin requests, with any interleaving of their storage
  calls, failures and lost acknowledgements, the events of a request hold records of consecutive revisions that start pending and follow the
  status transitions, all for the same immutable request, and every record that any worker was told is one of them.\<close>

theorem request_history:
  assumes "event_streams st log sound elog" and "sound w0" and "request_laws env rq" and "empty_requests log elog env rq w0"
    and "(system_step st (request_calls env rq))\<^sup>*\<^sup>* (w0, []) (w, cs)" and "request_id_valid rq i"
  shows "\<exists>recs. list_all2 (holds_record env rq) (elog w (request_stream env i)) recs \<and> lifecycle recs
    \<and> (\<forall>x \<in> set cs. \<forall>rec. fst x = Ret (Recorded (Inr rec)) \<longrightarrow> cq_ID (rr_Request rec) = i \<longrightarrow> rr_Revision rec \<le> length recs \<and> recs ! (rr_Revision rec - 1) = rec)"
proof -
  note ok = requests_ok[OF assms(1-5)]
  obtain recs where recs: "list_all2 (holds_record env rq) (elog w (request_stream env i)) recs" "lifecycle recs"
    using stream_lifecycle[OF assms(3) ok(2) assms(6)] by blast
  have "rr_Revision rec \<le> length recs \<and> recs ! (rr_Revision rec - 1) = rec"
    if "x \<in> set cs" "fst x = Ret (Recorded (Inr rec))" "cq_ID (rr_Request rec) = i" for x rec
    using told_record[OF assms(3) ok(3) that(1,2)] recs(1) that(3) by simp
  then show ?thesis using recs by blast
qed

theorem request_history_witness:
  "rdemo_answers (snd rdemo_run) = [''1'', ''conflict'', ''2'', ''3'', ''3'', ''invalid'']
   \<and> (\<exists>recs. list_all2 (holds_record rdemo_env rdemo_codec) (me_events (fst rdemo_run) (request_stream rdemo_env rdemo_id)) recs \<and> lifecycle recs \<and> 3 \<le> length recs)"
proof -
  have len: "length (snd rdemo_run) = 6" using arg_cong[OF rdemo_outcome, of length] by (simp add: rdemo_answers_def)
  obtain rec where rec: "fst (snd rdemo_run ! 3) = Ret (Recorded (Inr rec))" "(''3'', rec) \<in> set rdemo_records"
    using rdemo_answered[of "snd rdemo_run" 3 "''3''"] rdemo_outcome len by auto
  have r: "rr_Revision rec = 3" "cq_ID (rr_Request rec) = rdemo_id" using rec(2) by (auto simp: rdemo_records_def rdemo_record_def rdemo_request_def)
  have v: "request_id_valid rdemo_codec rdemo_id" by code_simp
  have m: "snd rdemo_run ! 3 \<in> set (snd rdemo_run)" using len by simp
  show ?thesis using request_history[OF rdemo_hypotheses rdemo_reachable[OF rdemo_calls(2)] v] m rec(1) r rdemo_outcome by fastforce
qed

text \<open>C16: a request has one outcome. When any worker was told that a request is completed or failed, every record of that request that any worker was
  told, at any time, is for the same input and of no later revision, and another terminal record of it is the very same one: nobody is
  told of a second outcome.\<close>

theorem one_request_outcome:
  assumes "event_streams st log sound elog" and "sound w0" and "request_laws env rq" and "empty_requests log elog env rq w0"
    and "(system_step st (request_calls env rq))\<^sup>*\<^sup>* (w0, []) (w, cs)"
    and "x \<in> set cs" and "fst x = Ret (Recorded (Inr rec))" and "status_terminal (rr_Status rec)"
    and "y \<in> set cs" and "fst y = Ret (Recorded (Inr rec'))" and "cq_ID (rr_Request rec') = cq_ID (rr_Request rec)"
  shows "rr_Request rec' = rr_Request rec \<and> rr_Revision rec' \<le> rr_Revision rec \<and> (status_terminal (rr_Status rec') \<longrightarrow> rec' = rec)"
proof -
  note ok = requests_ok[OF assms(1-5)]
  have "committed_record env rq UNIV rec" using ok(3) assms(6,7) unfolding progs_ok_def request_post_def committed_record_def by force
  then have valid: "request_id_valid rq (cq_ID (rr_Request rec))" using proper_valid by (auto simp: committed_record_def holds_record_def)
  obtain recs where recs: "list_all2 (holds_record env rq) (elog w (record_stream env rec)) recs" "lifecycle recs"
    using stream_lifecycle[OF assms(3) ok(2) valid] by blast
  note a = told_record[OF assms(3) ok(3) assms(6,7) recs(1)]
  have b: "0 < rr_Revision rec' \<and> rr_Revision rec' \<le> length recs \<and> recs ! (rr_Revision rec' - 1) = rec'"
    using told_record[OF assms(3) ok(3) assms(9,10), of recs] recs(1) assms(11) by simp
  have n: "rr_Revision rec = length recs" using terminal_is_last[OF recs(2), of "rr_Revision rec - 1"] a assms(8) by (simp add: less_le_trans[OF diff_less])
  have "rr_Request (recs ! (rr_Revision rec - 1)) = rr_Request (recs ! (rr_Revision rec' - 1))"
    by (rule lifecycle_same_request(1)[OF recs(2)]) (use a b n in auto)
  moreover have "rec' = rec" if "status_terminal (rr_Status rec')"
  proof -
    have "rr_Revision rec' = length recs" using terminal_is_last[OF recs(2), of "rr_Revision rec' - 1"] b that by (simp add: less_le_trans[OF diff_less])
    then show ?thesis using a b n by simp
  qed
  ultimately show ?thesis using a b n by simp
qed

theorem one_request_outcome_witness:
  "\<exists>rec. fst (snd rdemo_run ! 3) = Ret (Recorded (Inr rec)) \<and> fst (snd rdemo_run ! 4) = Ret (Recorded (Inr rec)) \<and> rr_Progress rec = ''{c''"
proof -
  have len: "length (snd rdemo_run) = 6" using arg_cong[OF rdemo_outcome, of length] by (simp add: rdemo_answers_def)
  obtain rec where rec: "fst (snd rdemo_run ! 3) = Ret (Recorded (Inr rec))" "(''3'', rec) \<in> set rdemo_records"
    using rdemo_answered[of "snd rdemo_run" 3 "''3''"] rdemo_outcome len by auto
  obtain rec' where rec': "fst (snd rdemo_run ! 4) = Ret (Recorded (Inr rec'))" "(''3'', rec') \<in> set rdemo_records"
    using rdemo_answered[of "snd rdemo_run" 4 "''3''"] rdemo_outcome len by auto
  have m: "snd rdemo_run ! 3 \<in> set (snd rdemo_run)" "snd rdemo_run ! 4 \<in> set (snd rdemo_run)" using len by simp_all
  have t: "status_terminal (rr_Status rec)" "status_terminal (rr_Status rec')" "cq_ID (rr_Request rec') = cq_ID (rr_Request rec)" "rr_Progress rec = ''{c''"
    using rec(2) rec'(2) by (auto simp: rdemo_records_def rdemo_record_def status_terminal_def)
  have "rec' = rec" using one_request_outcome[OF rdemo_hypotheses rdemo_reachable[OF rdemo_calls(2)] m(1) rec(1) t(1) m(2) rec'(1) t(3)] t(2) by blast
  then show ?thesis using rec(1) rec'(1) t(4) by blast
qed

text \<open>C18: no unfinished request is hidden from recovery. Whatever workers do and wherever they stop, a request whose last committed record is not
  completed or failed has a row in the pending index that names the same input and whose status is not terminal, so that
  listing the pending requests shows it.\<close>

theorem pending_index_complete:
  assumes "event_streams st log sound elog" and "sound w0" and "request_laws env rq" and "empty_requests log elog env rq w0"
    and "(system_step st (request_calls env rq))\<^sup>*\<^sup>* (w0, []) (w, cs)" and "request_id_valid rq i"
    and "elog w (request_stream env i) \<noteq> []" and "holds_record env rq (last (elog w (request_stream env i))) rec" and "\<not> status_terminal (rr_Status rec)"
  shows "\<exists>it v ix. log w (indexKey env rq i) \<noteq> [] \<and> last (log w (indexKey env rq i)) = (it, v) \<and> holds_index rq it ix \<and> ix_ID ix = i
    \<and> index_names env rq ix (rr_Request rec) \<and> \<not> status_terminal (ix_Status ix)"
proof -
  note ok = requests_ok[OF assms(1-5)]
  let ?es = "elog w (request_stream env i)" and ?l = "log w (indexKey env rq i)"
  obtain recs where recs: "list_all2 (holds_record env rq) ?es recs" "lifecycle recs" using stream_lifecycle[OF assms(3) ok(2) assms(6)] by blast
  have len: "length recs = length ?es" using recs(1) by (simp add: list_all2_lengthD)
  have nth: "holds_record env rq (?es ! j) (recs ! j)" if "j < length ?es" for j using recs(1) that by (simp add: list_all2_conv_all_nth)
  have last: "rec = recs ! (length ?es - 1)" using holds_record_unique[OF assms(3) nth[of "length ?es - 1"], of rec] assms(7,8) by (simp add: last_conv_nth)
  obtain F where rule: "Ball F (fact_in (log w) (elog w))" "event_rule env rq F (request_stream env i) 0 (?es ! 0)"
    using ok(2) assms(6,7) unfolding events_ok_def by (metis length_greater_0_conv request_rules_simps(2,5))
  then obtain r0 it0 v0 ix0 where F: "Ball F (fact_in (log w) (elog w))" "holds_record env rq (?es ! 0) r0" "Row (indexKey env rq (cq_ID (rr_Request r0))) it0 v0 \<in> F" "holds_index rq it0 ix0"
    "index_names env rq ix0 (rr_Request r0)" "request_stream env i = record_stream env r0"
    unfolding event_rule_def by auto
  have r0: "r0 = recs ! 0" using holds_record_unique[OF assms(3) nth[of 0] F(2)] assms(7) by simp
  have i0: "cq_ID (rr_Request r0) = i" using F(6) by simp
  have in_l: "(it0, v0) \<in> set ?l" using F(1,3) i0 by force
  then obtain j where j: "j < length ?l" "?l ! j = (it0, v0)" by (auto simp: in_set_conv_nth)
  have ne: "?l \<noteq> []" using in_l by auto
  let ?n = "length ?l - 1"
  have n: "?n < length ?l" using ne by simp
  obtain ix where ix: "holds_index rq (fst (?l ! ?n)) ix" "ix_ID ix = i"
    "if ?n = 0 then ix_Revision ix = 0 \<and> ix_Status ix = StatusPending
     else (\<exists>ix0. holds_index rq (fst (?l ! (?n - 1))) ix0 \<and> ix_ScopeTag ix0 = ix_ScopeTag ix \<and> ix_Binding ix0 = ix_Binding ix \<and> ix_Revision ix0 < ix_Revision ix)
       \<and> (\<exists>ev rec. fact_in (log w) (elog w) (Event (request_stream env i) (ix_Revision ix) ev) \<and> holds_record env rq ev rec \<and> ix = index_of env rq rec)"
    using index_row[OF ok(1) assms(6) n] by blast
  obtain ixf where ixf: "holds_index rq (fst (?l ! 0)) ixf" using index_row[OF ok(1) assms(6), of 0] ne by auto
  have "ix_ScopeTag ix = ix_ScopeTag ix0 \<and> ix_Binding ix = ix_Binding ix0"
    using index_tags[OF ok(1) assms(6) n ix(1) ixf] index_tags[OF ok(1) assms(6) j(1) _ ixf, of ix0] F(4) j(2) by simp
  moreover have "rr_Request rec = rr_Request r0" unfolding last r0 by (rule lifecycle_same_request(1)[OF recs(2)]) (use assms(7) len in auto)
  ultimately have names: "index_names env rq ix (rr_Request rec)" using F(5) by (simp add: index_names_def)
  have "\<not> status_terminal (ix_Status ix)"
  proof
    assume t: "status_terminal (ix_Status ix)"
    then have "?n \<noteq> 0" using ix(3) by (auto simp: status_terminal_def)
    then obtain ev r where e: "fact_in (log w) (elog w) (Event (request_stream env i) (ix_Revision ix) ev)" "holds_record env rq ev r" "ix = index_of env rq r" using ix(3) by auto
    have k: "ix_Revision ix - 1 < length ?es" "?es ! (ix_Revision ix - 1) = ev" using e(1) by auto
    have "r = recs ! (ix_Revision ix - 1)" using holds_record_unique[OF assms(3) nth[OF k(1)]] e(2) k(2) by simp
    then have "Suc (ix_Revision ix - 1) = length recs" using terminal_is_last[OF recs(2), of "ix_Revision ix - 1"] t e(3) k(1) len by (simp add: index_of_def)
    then have "rec = r" using last len \<open>r = _\<close> by (metis diff_Suc_1)
    then show False using assms(9) t e(3) by (simp add: index_of_def)
  qed
  then show ?thesis using ix(1,2) names ne by (intro exI[of _ "fst (last ?l)"] exI[of _ "snd (last ?l)"] exI[of _ ix]) (simp add: last_conv_nth)
qed

lemma rdemo_running: "last (me_events (fst rdemo_start) (request_stream rdemo_env rdemo_id))
    = pointer_event rdemo_env rdemo_codec (published_pointer rdemo_env rdemo_codec (rdemo_record 2 StatusRunning ''{r'') ''2'') ''b''
  \<and> me_events (fst rdemo_start) (request_stream rdemo_env rdemo_id) \<noteq> []"
  by code_simp

theorem pending_index_complete_witness:
  "\<exists>it v ix. last (me_history (fst rdemo_start) (indexKey rdemo_env rdemo_codec rdemo_id)) = (it, v) \<and> holds_index rdemo_codec it ix \<and> \<not> status_terminal (ix_Status ix)"
proof -
  let ?rec = "rdemo_record 2 StatusRunning ''{r''"
  have o: "objectJSON rdemo_env (rr_Progress ?rec) = Inr ''{r''" by code_simp
  have "normalizeRequest rdemo_env rdemo_codec (rr_Request ?rec) = Inr (rr_Request ?rec) \<and> rr_Fingerprint ?rec = fingerprint rdemo_env rdemo_codec (rr_Request ?rec)
      \<and> validTime (rr_UpdatedAt ?rec) \<and> cq_CreatedAt (rr_Request ?rec) \<le> rr_UpdatedAt ?rec" by code_simp
  then have p: "proper_record rdemo_env rdemo_codec ?rec"
    using o unfolding proper_record_def proper_request_def by (auto simp: rdemo_record_def status_valid_def maxRevisions_def)
  have d: "rc_record rdemo_codec ?rec = Some ''2''" unfolding rdemo_encoded by (simp add: rdemo_records_def)
  have h: "holds_record rdemo_env rdemo_codec (last (me_events (fst rdemo_start) (request_stream rdemo_env rdemo_id))) ?rec"
    using holds_published[OF rdemo_laws p d] rdemo_running by simp
  have v: "request_id_valid rdemo_codec rdemo_id" by code_simp
  have n: "\<not> status_terminal (rr_Status ?rec)" by (simp add: rdemo_record_def status_terminal_def)
  show ?thesis using pending_index_complete[OF rdemo_hypotheses rdemo_reachable[OF rdemo_calls(1)] v _ h n] rdemo_running by blast
qed

end
