(* ===== verification/Record_Reuse.thy ===== *)
theory Record_Reuse
  imports Cloud_Request
begin

text \<open>
  The record cache of one invocation, \<^verbatim>\<open>storage/cloudstate/record_reuse.go\<close>. Entries are keyed by the repository and the request; the repository is
  its position among those of the process. A hit needs exactly the pointer under which the record was remembered.
\<close>

record reused_record =
  us_pointer :: record_pointer
  us_record :: request_record

record record_reuse =
  ru_records :: "(nat \<times> string, reused_record) gomap"
  ru_bytes :: int

definition recordReuseMaxEntries :: nat where "recordReuseMaxEntries = 8"
definition recordReuseMaxBytes :: int where "recordReuseMaxBytes = 16 * 2 ^ 20"

definition WithRecordReuse :: record_reuse where
  "WithRecordReuse = \<lparr>ru_records = [], ru_bytes = 0\<rparr>"

definition recordBytes :: "request_record \<Rightarrow> int" where
  "recordBytes rec = int (length (cq_Manifest (rr_Request rec))) + int (length (rr_Progress rec))"

definition reuse_get :: "record_reuse \<Rightarrow> nat \<Rightarrow> record_pointer \<Rightarrow> request_record option" where
  "reuse_get u r p =
     (case mget (ru_records u) (r, rp_ID p) of
        None \<Rightarrow> None
      | Some e \<Rightarrow> if us_pointer e \<noteq> p then None else Some (us_record e))"

definition remember :: "nat \<Rightarrow> record_pointer \<Rightarrow> request_record \<Rightarrow> record_reuse \<Rightarrow> record_reuse" where
  "remember r p rec u =
     (let k = (r, rp_ID p);
          previous = mget (ru_records u) k;
          n = ru_bytes u - (case previous of None \<Rightarrow> 0 | Some e \<Rightarrow> recordBytes (us_record e)) + recordBytes rec
      in if (previous = None \<and> length (ru_records u) \<ge> recordReuseMaxEntries) \<or> n > recordReuseMaxBytes then u
         else \<lparr>ru_records = mput k \<lparr>us_pointer = p, us_record = rec\<rparr> (ru_records u), ru_bytes = n\<rparr>)"

section \<open>Bounds\<close>

definition reuse_ok :: "(nat \<times> record_pointer \<times> request_record) set \<Rightarrow> record_reuse \<Rightarrow> bool" where
  "reuse_ok S u \<longleftrightarrow> mwf (ru_records u) \<and> length (ru_records u) \<le> recordReuseMaxEntries
     \<and> ru_bytes u = msum (\<lambda>e. recordBytes (us_record e)) (ru_records u) \<and> ru_bytes u \<le> recordReuseMaxBytes
     \<and> (\<forall>k e. mget (ru_records u) k = Some e \<longrightarrow> (fst k, us_pointer e, us_record e) \<in> S \<and> snd k = rp_ID (us_pointer e))"

lemma length_mput: "length (mput k v m) = (if mget m k = None then Suc (length m) else length m)"
  by (induction m) auto

lemma remember_ok:
  assumes "reuse_ok S u" and "(r, p, rec) \<in> S"
  shows "reuse_ok S (remember r p rec u)"
proof -
  have "osum (\<lambda>e. recordBytes (us_record e)) x = (case x of None \<Rightarrow> 0 | Some e \<Rightarrow> recordBytes (us_record e))" for x by (cases x) simp_all
  then show ?thesis using assms by (auto simp: reuse_ok_def remember_def Let_def length_mput msum_mput recordReuseMaxEntries_def split: if_splits)
qed

text \<open>C35: the record cache stays within its bounds and never mixes records up. After any sequence of remembered records it holds at most 8 entries, its byte count
  is exactly the payload of what it holds and at most 16 MiB, and a hit returns a record that was remembered for that repository
  under exactly that pointer.\<close>

theorem record_reuse_bounded:
  fixes ops :: "(nat \<times> record_pointer \<times> request_record) list"
  defines "u \<equiv> fold (\<lambda>(r, p, rec). remember r p rec) ops WithRecordReuse"
  shows "length (ru_records u) \<le> 8 \<and> ru_bytes u = msum (\<lambda>e. recordBytes (us_record e)) (ru_records u) \<and> ru_bytes u \<le> 2 ^ 24
    \<and> (\<forall>r p rec. reuse_get u r p = Some rec \<longrightarrow> (r, p, rec) \<in> set ops)"
proof -
  have "reuse_ok S (fold (\<lambda>(r, p, rec). remember r p rec) xs v)" if "reuse_ok S v" "set xs \<subseteq> S" for xs v S
    using that by (induction xs arbitrary: v) (auto simp: remember_ok)
  from this[of "set ops" WithRecordReuse ops] have ok: "reuse_ok (set ops) u" unfolding u_def
    by (simp add: reuse_ok_def WithRecordReuse_def msum_def mwf_def recordReuseMaxBytes_def)
  have "(r, p, rec) \<in> set ops" if "reuse_get u r p = Some rec" for r p rec
    using that ok by (auto simp: reuse_get_def reuse_ok_def split: option.splits if_splits)
  then show ?thesis using ok by (auto simp: reuse_ok_def recordReuseMaxEntries_def recordReuseMaxBytes_def)
qed

definition reuse_demo :: "string \<Rightarrow> nat \<Rightarrow> nat \<times> record_pointer \<times> request_record" where
  "reuse_demo p n = (0, zero_pointer\<lparr>rp_ID := ''a'', rp_Revision := n\<rparr>,
     \<lparr>rr_Request = \<lparr>cq_ID = ''a'', cq_Scope = \<lparr>sc_Tenant = ''t'', sc_Project = ''p''\<rparr>, cq_Kind = ''generate'', cq_RequestIndex = 0, cq_Manifest = ''{}'', cq_CreatedAt = 1\<rparr>,
      rr_Fingerprint = [], rr_Revision = n, rr_Status = StatusRunning, rr_Progress = p, rr_UpdatedAt = 1\<rparr>)"

theorem record_reuse_bounded_witness:
  "let u = fold (\<lambda>(r, p, rec). remember r p rec) [reuse_demo ''{1}'' 1, reuse_demo ''{22}'' 2] WithRecordReuse
   in reuse_get u 0 (fst (snd (reuse_demo ''{1}'' 1))) = None \<and> reuse_get u 0 (fst (snd (reuse_demo ''{22}'' 2))) \<noteq> None \<and> ru_bytes u = 6 \<and> ru_bytes u \<le> 2 ^ 24"
proof -
  let ?u = "fold (\<lambda>(r, p, rec). remember r p rec) [reuse_demo ''{1}'' 1, reuse_demo ''{22}'' 2] WithRecordReuse"
  have "reuse_get ?u 0 (fst (snd (reuse_demo ''{1}'' 1))) = None \<and> reuse_get ?u 0 (fst (snd (reuse_demo ''{22}'' 2))) \<noteq> None \<and> ru_bytes ?u = 6" by code_simp
  then show ?thesis using record_reuse_bounded[of "[reuse_demo ''{1}'' 1, reuse_demo ''{22}'' 2]"] by (simp add: Let_def)
qed

end
