(* ===== verification/Durable.thy ===== *)
theory Durable
  imports Budget
begin

text \<open>
  The durable budget contract, \<^verbatim>\<open>storage/durable/contract.go\<close>, \<^verbatim>\<open>budget_boundary.go\<close> and \<^verbatim>\<open>unknown_cost.go\<close>: identities, reservation results, settlement
  requests, the life cycle of one operation and the boundary that drives the budget leaser through it. The leaser is an interface of
  the code (\<^verbatim>\<open>BudgetLeaser\<close>): a record of functions over the leaser's own state. A \<^verbatim>\<open>nil\<close> context, lifecycle, reservation or port is
  \<open>None\<close>; a context is what its \<^verbatim>\<open>Err\<close> answers during the call. Errors keep the sentinel that the code wraps.
\<close>

datatype durable_error = ErrInvalidIdentity | ErrInvalidPhase | ErrClaimRequired | ErrLeaseExpired | ErrAlreadyClaimed
  | ErrReconcilePending | ErrBudgetBoundaryInvalid | ErrReferenceMaterializerConflict | ErrReferenceGenerationMismatch
  | ErrReferenceIncarnationMismatch | ErrReferenceReservationNotFound | ErrReferenceReservationFinalized | ErrDetail | ErrCanceled

type_synonym ctx = "durable_error option"

section \<open>Identities\<close>

record redis_identity =
  ri_KeyPrefix :: string
  ri_HashTag :: string

record cloud_identity =
  ci_Provider :: string
  ci_Namespace :: string
  ci_RequestTable :: string
  ci_PayloadStore :: string
  ci_ProviderDigest :: string

record state_identity =
  si_Cloud :: cloud_identity
  si_Redis :: redis_identity
  si_ConfigDigest :: string

definition zero_digest :: string where "zero_digest = replicate 32 NUL"

definition redis_char :: "char \<Rightarrow> bool" where
  "redis_char c \<longleftrightarrow> (CHR ''A'' \<le> c \<and> c \<le> CHR ''Z'') \<or> (CHR ''a'' \<le> c \<and> c \<le> CHR ''z'') \<or> (CHR ''0'' \<le> c \<and> c \<le> CHR ''9'')"

definition redisPrefixPattern :: "string \<Rightarrow> bool" where
  "redisPrefixPattern v = (case v of [] \<Rightarrow> False
     | c # cs \<Rightarrow> redis_char c \<and> length cs \<le> 63 \<and> list_all (\<lambda>d. redis_char d \<or> d \<in> set ''._-'') cs)"

definition CloudIdentity_Validate :: "cloud_identity \<Rightarrow> durable_error option" where
  "CloudIdentity_Validate i =
     (if \<not> list_all redisPrefixPattern [ci_Provider i, ci_Namespace i, ci_RequestTable i, ci_PayloadStore i] then Some ErrInvalidIdentity
      else if ci_ProviderDigest i = zero_digest then Some ErrInvalidIdentity else None)"

definition ValidateBudget :: "state_identity \<Rightarrow> durable_error option" where
  "ValidateBudget i =
     (if \<not> redisPrefixPattern (ri_KeyPrefix (si_Redis i)) then Some ErrInvalidIdentity
      else if ri_HashTag (si_Redis i) = [] \<or> length (ri_HashTag (si_Redis i)) > 64
              \<or> list_ex (\<lambda>c. c \<in> {CHR ''{'', CHR ''}'', CHR '' '', CHR 0x09, CHR 0x0D, CHR 0x0A}) (ri_HashTag (si_Redis i)) then Some ErrInvalidIdentity
      else if si_ConfigDigest i = zero_digest then Some ErrInvalidIdentity else None)"

definition StateIdentity_Validate :: "state_identity \<Rightarrow> durable_error option" where
  "StateIdentity_Validate i = orElse (CloudIdentity_Validate (si_Cloud i)) (ValidateBudget i)"

definition validateID :: "string \<Rightarrow> durable_error option" where
  "validateID v = (if v = [] \<or> length v > 128 \<or> TrimSpace v \<noteq> v \<or> list_ex (\<lambda>c. c = NUL \<or> c = CHR 0x0D \<or> c = CHR 0x0A) v then Some ErrDetail else None)"

lemma validateID_iff: "validateID v = None \<longleftrightarrow> identity_ok v"
  by (simp add: validateID_def identity_ok_def)

section \<open>Reservations, claims and settlements\<close>

record reserve_request =
  rq_OperationID :: string
  rq_GenerationID :: string
  rq_Reservations :: "window_reservation list"
  rq_ExpiresAt :: gotime

record reserve_result =
  rs_OperationID :: string
  rs_Accepted :: bool
  rs_GenerationID :: string
  rs_IncarnationID :: string
  rs_RetryAfter :: int
  rs_Denial :: "denial option"
  rs_Events :: "reservation_event list"
  rs_WindowExpiries :: "(string, gotime) gomap"
  rs_Replayed :: bool

definition zero_result :: reserve_result where
  "zero_result = \<lparr>rs_OperationID = [], rs_Accepted = False, rs_GenerationID = [], rs_IncarnationID = [], rs_RetryAfter = 0, rs_Denial = None,
     rs_Events = [], rs_WindowExpiries = [], rs_Replayed = False\<rparr>"

definition expiry_matches :: "reserve_result \<Rightarrow> string \<times> gotime \<Rightarrow> durable_error option" where
  "expiry_matches r x =
     (if \<not> list_ex (\<lambda>e. re_EventID e = fst x) (rs_Events r) \<or> IsZero (snd x) then Some ErrDetail else None)"

definition event_matches :: "reserve_request \<Rightarrow> reservation_event \<Rightarrow> durable_error option" where
  "event_matches q e =
     (if ReservationEvent_Validate e \<noteq> None then Some ErrDetail
      else if re_OperationID e \<noteq> rq_OperationID q \<or> re_GenerationID e \<noteq> rq_GenerationID q then Some ErrDetail else None)"

definition ReserveResult_Validate :: "reserve_result \<Rightarrow> reserve_request \<Rightarrow> durable_error option" where
  "ReserveResult_Validate r q =
     orElse (validateID (rq_OperationID q)) (orElse (validateID (rs_OperationID r))
       (if rs_OperationID r \<noteq> rq_OperationID q then Some ErrDetail
        else orElse (validateID (rq_GenerationID q)) (orElse (validateID (rs_GenerationID r))
          (if rs_GenerationID r \<noteq> rq_GenerationID q then Some ErrDetail
           else orElse
             (if rs_Accepted r then orElse (validateID (rs_IncarnationID r)) (if rs_Events r = [] then Some ErrDetail else None)
              else if rs_Events r \<noteq> [] then Some ErrDetail else None)
             (orElse (firstErr (expiry_matches r) (rs_WindowExpiries r)) (firstErr (event_matches q) (rs_Events r)))))))"

record reconcile_request =
  rn_OperationID :: string
  rn_GenerationID :: string
  rn_IncarnationID :: string
  rn_Events :: "completion_event list"

fun completion_batch :: "reconcile_request \<Rightarrow> string list \<Rightarrow> string list \<Rightarrow> completion_event list \<Rightarrow> durable_error option" where
  "completion_batch q seenIDs seenWindows [] = None"
| "completion_batch q seenIDs seenWindows (e # es) =
     (let identity = ce_WindowID e @ [NUL] @ rfc3339nano (ce_BucketStart e)
      in if ce_EventID e \<in> set seenIDs \<or> identity \<in> set seenWindows then Some ErrDetail
         else if CompletionEvent_Validate e \<noteq> None then Some ErrDetail
         else if ce_OperationID e \<noteq> rn_OperationID q \<or> ce_GenerationID e \<noteq> rn_GenerationID q then Some ErrDetail
         else completion_batch q (ce_EventID e # seenIDs) (identity # seenWindows) es)"

definition ReconcileRequest_Validate :: "reconcile_request \<Rightarrow> durable_error option" where
  "ReconcileRequest_Validate q =
     orElse (validateID (rn_OperationID q)) (orElse (validateID (rn_GenerationID q)) (orElse (validateID (rn_IncarnationID q))
       (if rn_Events q = [] then Some ErrDetail else completion_batch q [] [] (rn_Events q))))"

definition BudgetStartLease :: int where "BudgetStartLease = 15 * 60 * 10 ^ 9"

record claim_request =
  cl_OperationID :: string
  cl_GenerationID :: string
  cl_IncarnationID :: string

definition ClaimRequest_Validate :: "claim_request \<Rightarrow> durable_error option" where
  "ClaimRequest_Validate q = orElse (validateID (cl_OperationID q)) (orElse (validateID (cl_GenerationID q)) (validateID (cl_IncarnationID q)))"

record claim_receipt =
  cr_IncarnationID :: string
  cr_OperationID :: string
  cr_GenerationID :: string

definition ClaimReceipt_Validate :: "claim_receipt \<Rightarrow> reserve_result \<Rightarrow> durable_error option" where
  "ClaimReceipt_Validate c r =
     (if cr_IncarnationID c \<noteq> rs_IncarnationID r then Some ErrDetail
      else orElse (validateID (cr_OperationID c)) (orElse (validateID (cr_GenerationID c))
        (if cr_OperationID c \<noteq> rs_OperationID r then Some ErrDetail
         else if cr_GenerationID c \<noteq> rs_GenerationID r then Some ErrDetail else None)))"

text \<open>The ports \<^verbatim>\<open>BudgetMaterializer\<close> and \<^verbatim>\<open>BudgetLeaser\<close>, over the state \<open>'w\<close> of their implementation.\<close>

record 'w budget_leaser =
  bl_Accept :: "ctx \<Rightarrow> reserve_request \<Rightarrow> 'w \<Rightarrow> (durable_error + reserve_result) \<times> 'w"
  bl_Reconcile :: "ctx \<Rightarrow> reconcile_request \<Rightarrow> 'w \<Rightarrow> durable_error option \<times> 'w"
  bl_Claim :: "ctx \<Rightarrow> claim_request \<Rightarrow> 'w \<Rightarrow> (durable_error + claim_receipt) \<times> 'w"

section \<open>The life cycle of an operation\<close>

type_synonym phase = nat

definition PhaseOperationReplay :: phase where "PhaseOperationReplay = 0"
definition PhaseRedisAccepted :: phase where "PhaseRedisAccepted = 1"
definition PhaseRedisClaimed :: phase where "PhaseRedisClaimed = 2"
definition PhaseDispatched :: phase where "PhaseDispatched = 3"
definition PhaseResultFinalized :: phase where "PhaseResultFinalized = 4"
definition PhaseRedisReconciled :: phase where "PhaseRedisReconciled = 5"

lemmas phase_defs = PhaseOperationReplay_def PhaseRedisAccepted_def PhaseRedisClaimed_def PhaseDispatched_def PhaseResultFinalized_def PhaseRedisReconciled_def

record lifecycle =
  lc_phases :: "phase list"
  lc_reservationOperation :: string
  lc_reservationGeneration :: string
  lc_reservationIncarnation :: string
  lc_reservationIdentityBound :: bool
  lc_completionDigest :: string
  lc_completionDigestBound :: bool

definition NewLifecycle :: lifecycle where
  "NewLifecycle = \<lparr>lc_phases = [], lc_reservationOperation = [], lc_reservationGeneration = [], lc_reservationIncarnation = [],
     lc_reservationIdentityBound = False, lc_completionDigest = zero_digest, lc_completionDigestBound = False\<rparr>"

definition Advance :: "lifecycle \<Rightarrow> phase \<Rightarrow> durable_error + lifecycle" where
  "Advance l nxt =
     (if nxt > PhaseRedisReconciled then Inl ErrInvalidPhase
      else let want = (if length (lc_phases l) > 0 then last (lc_phases l) + 1 else PhaseOperationReplay)
           in if nxt \<noteq> want then
                (if nxt = PhaseDispatched \<and> want \<le> PhaseRedisClaimed then Inl ErrClaimRequired else Inl ErrInvalidPhase)
              else Inr (l\<lparr>lc_phases := lc_phases l @ [nxt]\<rparr>))"

definition Current :: "lifecycle \<Rightarrow> phase option" where
  "Current l = (if lc_phases l = [] then None else Some (last (lc_phases l)))"

definition ReconcileFailure :: "lifecycle \<Rightarrow> durable_error option \<Rightarrow> durable_error option" where
  "ReconcileFailure l err =
     (case err of None \<Rightarrow> None
      | Some _ \<Rightarrow> if Current l \<noteq> Some PhaseResultFinalized then Some ErrInvalidPhase else Some ErrReconcilePending)"

definition bindReservationIdentity :: "lifecycle \<Rightarrow> reserve_result \<Rightarrow> durable_error + lifecycle" where
  "bindReservationIdentity l r =
     (if lc_reservationIdentityBound l then
        (if lc_reservationOperation l \<noteq> rs_OperationID r \<or> lc_reservationGeneration l \<noteq> rs_GenerationID r
            \<or> lc_reservationIncarnation l \<noteq> rs_IncarnationID r then Inl ErrInvalidIdentity
         else Inr l)
      else Inr (l\<lparr>lc_reservationOperation := rs_OperationID r, lc_reservationGeneration := rs_GenerationID r,
                  lc_reservationIncarnation := rs_IncarnationID r, lc_reservationIdentityBound := True\<rparr>))"

definition bindCompletionDigest :: "lifecycle \<Rightarrow> string \<Rightarrow> durable_error + lifecycle" where
  "bindCompletionDigest l d =
     (if lc_completionDigestBound l \<and> lc_completionDigest l \<noteq> d then Inl ErrInvalidIdentity
      else Inr (l\<lparr>lc_completionDigest := d, lc_completionDigestBound := True\<rparr>))"

section \<open>The budget boundary\<close>

record 'w budget_boundary =
  bb_Identity :: state_identity
  bb_Materializer :: "'w budget_leaser option"

definition BudgetBoundary_Validate :: "'w budget_boundary \<Rightarrow> durable_error option" where
  "BudgetBoundary_Validate b =
     (if ValidateBudget (bb_Identity b) \<noteq> None then Some ErrBudgetBoundaryInvalid
      else if bb_Materializer b = None then Some ErrBudgetBoundaryInvalid else None)"

record budget_reservation =
  bg_Result :: reserve_result
  bg_Replayed :: bool
  bg_claimed :: bool

definition DispatchReady :: "budget_reservation \<Rightarrow> bool" where
  "DispatchReady r \<longleftrightarrow> rs_Accepted (bg_Result r) \<and> bg_claimed r"

definition duplicate_events :: "reservation_event list \<Rightarrow> bool" where
  "duplicate_events es \<longleftrightarrow> \<not> distinct (map re_EventID es)"

definition reserve_accepted :: "lifecycle \<Rightarrow> phase option \<Rightarrow> reserve_result \<Rightarrow> (durable_error + budget_reservation) \<times> lifecycle" where
  "reserve_accepted l current accepted =
     (let reservation = \<lparr>bg_Result = accepted\<lparr>rs_Replayed := False\<rparr>, bg_Replayed = rs_Replayed accepted, bg_claimed = False\<rparr>
      in if \<not> rs_Accepted accepted then (Inr reservation, l)
         else case bindReservationIdentity l accepted of
                Inl e \<Rightarrow> (Inl e, l)
              | Inr l1 \<Rightarrow>
                  if current = Some PhaseOperationReplay then
                    (case Advance l1 PhaseRedisAccepted of Inl e \<Rightarrow> (Inl e, l1) | Inr l2 \<Rightarrow> (Inr reservation, l2))
                  else (Inr reservation, l1))"

definition Reserve :: "'w budget_boundary \<Rightarrow> ctx option \<Rightarrow> lifecycle option \<Rightarrow> reserve_request \<Rightarrow> 'w
    \<Rightarrow> (durable_error + budget_reservation) \<times> lifecycle option \<times> 'w" where
  "Reserve b ctx lc request w =
     (case ctx of
        None \<Rightarrow> (Inl ErrBudgetBoundaryInvalid, lc, w)
      | Some c \<Rightarrow>
     (case BudgetBoundary_Validate b of
        Some e \<Rightarrow> (Inl e, lc, w)
      | None \<Rightarrow>
     (case lc of
        None \<Rightarrow> (Inl ErrInvalidPhase, lc, w)
      | Some l \<Rightarrow>
          if Current l \<noteq> Some PhaseOperationReplay \<and> Current l \<noteq> Some PhaseRedisAccepted then (Inl ErrInvalidPhase, lc, w)
          else case bl_Accept (the (bb_Materializer b)) c request w of
                 (Inl e, w1) \<Rightarrow> (Inl e, lc, w1)
               | (Inr accepted, w1) \<Rightarrow>
                   if ReserveResult_Validate accepted request \<noteq> None then (Inl ErrBudgetBoundaryInvalid, lc, w1)
                   else if duplicate_events (rs_Events accepted) then (Inl ErrBudgetBoundaryInvalid, lc, w1)
                   else let (r, l1) = reserve_accepted l (Current l) accepted in (r, Some l1, w1))))"

definition claim_result :: "lifecycle \<Rightarrow> budget_reservation \<Rightarrow> durable_error + claim_receipt
    \<Rightarrow> (durable_error + claim_receipt) \<times> lifecycle \<times> budget_reservation" where
  "claim_result l reservation r =
     (case r of
        Inl e \<Rightarrow> (Inl e, l, reservation)
      | Inr receipt \<Rightarrow>
          (case ClaimReceipt_Validate receipt (bg_Result reservation) of
             Some e \<Rightarrow> (Inl e, l, reservation)
           | None \<Rightarrow>
               (case Advance l PhaseRedisClaimed of
                  Inl e \<Rightarrow> (Inl e, l, reservation)
                | Inr l1 \<Rightarrow> (Inr receipt, l1, reservation\<lparr>bg_claimed := True\<rparr>))))"

definition Claim :: "'w budget_boundary \<Rightarrow> ctx option \<Rightarrow> lifecycle option \<Rightarrow> budget_reservation option \<Rightarrow> 'w
    \<Rightarrow> (durable_error + claim_receipt) \<times> lifecycle option \<times> budget_reservation option \<times> 'w" where
  "Claim b ctx lc res w =
     (case (ctx, lc, res) of
        (Some c, Some l, Some reservation) \<Rightarrow>
          (case BudgetBoundary_Validate b of
             Some e \<Rightarrow> (Inl e, lc, res, w)
           | None \<Rightarrow>
               if Current l \<noteq> Some PhaseRedisAccepted \<or> \<not> rs_Accepted (bg_Result reservation) then (Inl ErrInvalidPhase, lc, res, w)
               else let result = bg_Result reservation
                    in case bindReservationIdentity l result of
                         Inl e \<Rightarrow> (Inl e, lc, res, w)
                       | Inr l1 \<Rightarrow>
                           let (r, w1) = bl_Claim (the (bb_Materializer b)) c
                                 \<lparr>cl_OperationID = rs_OperationID result, cl_GenerationID = rs_GenerationID result, cl_IncarnationID = rs_IncarnationID result\<rparr> w;
                               (r', l2, reservation') = claim_result l1 reservation r
                           in (r', Some l2, Some reservation', w1))
      | _ \<Rightarrow> (Inl ErrBudgetBoundaryInvalid, lc, res, w))"

type_synonym reservation_key = "string \<times> gotime"

definition reserved_by_key :: "reservation_event list \<Rightarrow> durable_error + (reservation_key, reservation_event) gomap" where
  "reserved_by_key es =
     foldE (\<lambda>m r. let key = (re_WindowID r, re_BucketStart r)
                  in if mget m key \<noteq> None then Inl ErrBudgetBoundaryInvalid else Inr (mput key r m)) [] es"

definition completed_key :: "reserve_result \<Rightarrow> (reservation_key, reservation_event) gomap \<Rightarrow> reservation_key list \<Rightarrow> completion_event
    \<Rightarrow> durable_error + reservation_key list" where
  "completed_key result reserved completed e =
     (let key = (ce_WindowID e, ce_BucketStart e)
      in if CompletionEvent_Validate e \<noteq> None then Inl ErrBudgetBoundaryInvalid
         else if ce_OperationID e \<noteq> rs_OperationID result \<or> ce_GenerationID e \<noteq> rs_GenerationID result then Inl ErrBudgetBoundaryInvalid
         else case mget reserved key of
                None \<Rightarrow> Inl ErrBudgetBoundaryInvalid
              | Some r \<Rightarrow>
                  if ce_BucketStart e \<noteq> re_BucketStart r then Inl ErrBudgetBoundaryInvalid
                  else if key \<in> set completed then Inl ErrBudgetBoundaryInvalid
                  else if ce_ReservationRevision e \<le> re_ReservationRevision r then Inl ErrBudgetBoundaryInvalid
                  else Inr (key # completed))"

definition finalize_events :: "reserve_result \<Rightarrow> completion_event list \<Rightarrow> durable_error option" where
  "finalize_events result events =
     (if events = [] then Some ErrBudgetBoundaryInvalid
      else case reserved_by_key (rs_Events result) of
             Inl e \<Rightarrow> Some e
           | Inr reserved \<Rightarrow>
               (case foldE (completed_key result reserved) [] events of
                  Inl e \<Rightarrow> Some e
                | Inr completed \<Rightarrow>
                    if length completed \<noteq> length reserved then Some ErrBudgetBoundaryInvalid
                    else if \<not> distinct (map ce_EventID events) then Some ErrBudgetBoundaryInvalid
                    else None))"

definition settle :: "'w budget_leaser \<Rightarrow> ctx \<Rightarrow> lifecycle \<Rightarrow> reconcile_request \<Rightarrow> 'w \<Rightarrow> durable_error option \<times> lifecycle \<times> 'w" where
  "settle m c l reconcile w =
     (case c of
        Some e \<Rightarrow> (Some e, l, w)
      | None \<Rightarrow>
          if ReconcileRequest_Validate reconcile \<noteq> None then (Some ErrBudgetBoundaryInvalid, l, w)
          else case bl_Reconcile m c reconcile w of
                 (Some e, w1) \<Rightarrow> (ReconcileFailure l (Some e), l, w1)
               | (None, w1) \<Rightarrow>
                   (case Advance l PhaseRedisReconciled of Inl e \<Rightarrow> (Some e, l, w1) | Inr l1 \<Rightarrow> (None, l1, w1)))"

definition Finalize :: "(completion_event list \<Rightarrow> string) \<Rightarrow> 'w budget_boundary \<Rightarrow> ctx option \<Rightarrow> lifecycle option \<Rightarrow> budget_reservation
    \<Rightarrow> completion_event list \<Rightarrow> 'w \<Rightarrow> durable_error option \<times> lifecycle option \<times> 'w" where
  "Finalize completionDigest b ctx lc reservation events w =
     (case ctx of
        None \<Rightarrow> (Some ErrBudgetBoundaryInvalid, lc, w)
      | Some c \<Rightarrow>
     (case BudgetBoundary_Validate b of
        Some e \<Rightarrow> (Some e, lc, w)
      | None \<Rightarrow>
     (case lc of
        None \<Rightarrow> (Some ErrInvalidPhase, lc, w)
      | Some l \<Rightarrow>
          if Current l \<noteq> Some PhaseDispatched \<and> Current l \<noteq> Some PhaseResultFinalized then (Some ErrInvalidPhase, lc, w)
          else if \<not> DispatchReady reservation then (Some ErrClaimRequired, lc, w)
          else case finalize_events (bg_Result reservation) events of
                 Some e \<Rightarrow> (Some e, lc, w)
               | None \<Rightarrow>
                   (case bindCompletionDigest l (completionDigest events) of
                      Inl e \<Rightarrow> (Some e, lc, w)
                    | Inr l1 \<Rightarrow>
                        (case (if Current l = Some PhaseDispatched then Advance l1 PhaseResultFinalized else Inr l1) of
                           Inl e \<Rightarrow> (Some e, Some l1, w)
                         | Inr l2 \<Rightarrow>
                             let (r, l3, w1) = settle (the (bb_Materializer b)) c l2
                                   \<lparr>rn_OperationID = rs_OperationID (bg_Result reservation), rn_GenerationID = rs_GenerationID (bg_Result reservation),
                                    rn_IncarnationID = rs_IncarnationID (bg_Result reservation), rn_Events = events\<rparr> w
                             in (r, Some l3, w1))))))"

section \<open>Corrections of unknown costs\<close>

record unknown_cost_resolution =
  uc_OperationID :: string
  uc_GenerationID :: string
  uc_IncarnationID :: string
  uc_Events :: "completion_event list"

definition resolution_request :: "unknown_cost_resolution \<Rightarrow> reconcile_request" where
  "resolution_request u = \<lparr>rn_OperationID = uc_OperationID u, rn_GenerationID = uc_GenerationID u, rn_IncarnationID = uc_IncarnationID u, rn_Events = uc_Events u\<rparr>"

fun resolution_events :: "usd option \<Rightarrow> string list \<Rightarrow> completion_event list \<Rightarrow> durable_error option" where
  "resolution_events amount seen [] = None"
| "resolution_events amount seen (e # es) =
     (if ce_Kind e \<noteq> JournalResolveUnknownExact \<or> ce_CostStatus e \<noteq> CostExact then Some ErrDetail
      else case ce_ActualCostUSD e of
             None \<Rightarrow> Some ErrDetail
           | Some actual \<Rightarrow>
               if ce_EventID e \<in> set seen then Some ErrDetail
               else case amount of
                      None \<Rightarrow> Some ErrDetail
                    | Some a \<Rightarrow> if USD_Cmp actual a \<noteq> 0 then Some ErrDetail else resolution_events amount (ce_EventID e # seen) es)"

definition UnknownCostResolution_Validate :: "unknown_cost_resolution \<Rightarrow> durable_error option" where
  "UnknownCostResolution_Validate u =
     orElse (validateID (uc_OperationID u)) (orElse (validateID (uc_GenerationID u)) (orElse (validateID (uc_IncarnationID u))
       (if uc_Events u = [] then Some ErrDetail
        else orElse (ReconcileRequest_Validate (resolution_request u)) (resolution_events (ce_ActualCostUSD (hd (uc_Events u))) [] (uc_Events u)))))"

record unknown_cost_result =
  ur_ReconcilePending :: bool
  ur_Reconciled :: bool

definition Resolve_cost :: "'w budget_boundary \<Rightarrow> ctx option \<Rightarrow> unknown_cost_resolution \<Rightarrow> 'w \<Rightarrow> (unknown_cost_result \<times> durable_error option) \<times> 'w" where
  "Resolve_cost b ctx u w =
     (let none = \<lparr>ur_ReconcilePending = False, ur_Reconciled = False\<rparr>
      in case ctx of
           None \<Rightarrow> ((none, Some ErrBudgetBoundaryInvalid), w)
         | Some c \<Rightarrow>
             (case BudgetBoundary_Validate b of
                Some e \<Rightarrow> ((none, Some e), w)
              | None \<Rightarrow>
                  if UnknownCostResolution_Validate u \<noteq> None then ((none, Some ErrBudgetBoundaryInvalid), w)
                  else case bl_Reconcile (the (bb_Materializer b)) c (resolution_request u) w of
                         (Some e, w1) \<Rightarrow> ((none\<lparr>ur_ReconcilePending := True\<rparr>, Some ErrReconcilePending), w1)
                       | (None, w1) \<Rightarrow> ((none\<lparr>ur_Reconciled := True\<rparr>, None), w1)))"

end
