(* ===== verification/Reference_Budget.thy ===== *)
theory Reference_Budget
  imports Durable
begin

text \<open>
  The reference budget materializer, \<^verbatim>\<open>storage/durable/reference_materializer.go\<close>: the storage-neutral model of the Redis budget port. Each method is one
  step under its mutex and returns the state that an error leaves behind. The clock reading of a call is its argument \<open>t\<close>; SHA-256 and the
  JSON encoders are parameters (\<open>reference_env\<close>). Copies of Go values are values.
\<close>

section \<open>State\<close>

type_synonym reference_key = "string \<times> string \<times> int"

datatype reference_status = ReferenceReserved | ReferenceAmbiguous | ReferenceFinalized

record reference_entry =
  en_reserved :: usd
  en_accounted :: usd
  en_expiresAt :: gotime
  en_status :: reference_status
  en_lastRevision :: int

record reference_bucket =
  rb_limit :: usd
  rb_amounts :: "(string, usd) gomap"
  rb_reserved :: usd
  rb_accounted :: usd
  rb_entries :: "(string, reference_entry) gomap"

record reference_reservation =
  rv_key :: reference_key
  rv_amount :: usd
  rv_limit :: usd
  rv_bucketStartNanos :: int
  rv_expiresAt :: gotime
  rv_windowExpiresAt :: gotime
  rv_revision :: int

record reference_operation =
  ro_claimed :: bool
  ro_startBy :: gotime
  ro_fingerprint :: string
  ro_result :: reserve_result
  ro_reservations :: "(reference_key, reference_reservation) gomap"
  ro_events :: "(string, string) gomap"

record materializer =
  mz_generation :: string
  mz_incarnation :: string
  mz_buckets :: "(reference_key, reference_bucket) gomap"
  mz_operations :: "(string, reference_operation) gomap"

definition NewReferenceBudgetMaterializer :: "string \<Rightarrow> string \<Rightarrow> durable_error + materializer" where
  "NewReferenceBudgetMaterializer generation incarnation =
     guardE (validateID generation) (guardE (validateID incarnation)
       (Inr \<lparr>mz_generation = generation, mz_incarnation = incarnation, mz_buckets = [], mz_operations = []\<rparr>))"

section \<open>Canonical reservations\<close>

record canonical_reservation =
  cn_policyID :: string
  cn_windowID :: string
  cn_bucket :: int
  cn_amountUSD :: usd
  cn_limitUSD :: usd
  cn_bucketNanos :: int
  cn_durationNanos :: int
  cn_bucketStartNanos :: int
  cn_windowExpiresAt :: gotime

definition cn_key :: "canonical_reservation \<Rightarrow> reference_key" where
  "cn_key c = (cn_policyID c, cn_windowID c, cn_bucket c)"

record wire_reservation =
  wr_PolicyID :: string
  wr_WindowID :: string
  wr_Bucket :: int
  wr_Amount :: string
  wr_Limit :: string
  wr_BucketNanos :: int
  wr_DurationNanos :: int

record wire_request =
  wq_OperationID :: string
  wq_GenerationID :: string
  wq_ExpiresAt :: gotime
  wq_Reservations :: "wire_reservation list"

record reference_env =
  rf_sha256 :: "string \<Rightarrow> string"
  rf_hex :: "string \<Rightarrow> string"
  rf_request :: "wire_request \<Rightarrow> string option"
  rf_event :: "completion_event \<Rightarrow> string option"

definition referenceWindowExpiry :: "gotime \<Rightarrow> int \<Rightarrow> int \<Rightarrow> gotime" where
  "referenceWindowExpiry at bucketNanos durationNanos = wrap64 (UnixNano at sdiv bucketNanos * bucketNanos) + durationNanos + bucketNanos"

definition referenceAmount :: "usd \<Rightarrow> int \<Rightarrow> durable_error + usd" where
  "referenceAmount exact legacy =
     (if \<not> USD_IsZero exact then (if USD_valid exact \<noteq> None then Inl ErrDetail else Inr exact)
      else if \<not> MicroUSD_Valid legacy then Inl ErrDetail
      else case USDFromMicro legacy of Inl _ \<Rightarrow> Inl ErrDetail | Inr u \<Rightarrow> Inr u)"

definition canonical_step :: "canonical_reservation list \<Rightarrow> window_reservation \<Rightarrow> durable_error + canonical_reservation list" where
  "canonical_step prior v =
     (if r_PolicyID v = [] \<or> r_WindowID v = [] \<or> length (r_PolicyID v) > 128 \<or> length (r_WindowID v) > 128 then Inl ErrDetail
      else if r_Bucket v < 0 \<or> r_BucketNanos v \<le> 0 \<or> r_DurationNanos v < r_BucketNanos v \<or> r_DurationNanos v > 2 ^ 62 then Inl ErrDetail
      else if r_Bucket v > 2 ^ 62 sdiv r_BucketNanos v then Inl ErrDetail
      else bindE (referenceAmount (r_AmountUSD v) (r_Amount v)) (\<lambda>amount.
           bindE (referenceAmount (r_LimitUSD v) (r_Limit v)) (\<lambda>limit.
             if USD_IsZero limit then Inl ErrDetail
             else if USD_IsZero amount then Inl ErrDetail
             else if (r_PolicyID v, r_WindowID v, r_Bucket v) \<in> set (map cn_key prior) then Inl ErrDetail
             else if list_ex (\<lambda>c. cn_windowID c = r_WindowID v \<and> cn_bucket c = r_Bucket v) prior then Inl ErrDetail
             else let bucketStart = wrap64 (r_Bucket v * r_BucketNanos v)
                  in if list_ex (\<lambda>c. cn_windowID c = r_WindowID v \<and> cn_bucketStartNanos c = bucketStart) prior then Inl ErrDetail
                     else Inr (prior @ [\<lparr>cn_policyID = r_PolicyID v, cn_windowID = r_WindowID v, cn_bucket = r_Bucket v, cn_amountUSD = amount, cn_limitUSD = limit,
                       cn_bucketNanos = r_BucketNanos v, cn_durationNanos = r_DurationNanos v, cn_bucketStartNanos = bucketStart,
                       cn_windowExpiresAt = referenceWindowExpiry bucketStart (r_BucketNanos v) (r_DurationNanos v)\<rparr>]))))"

definition canonicalReferenceReservations :: "window_reservation list \<Rightarrow> durable_error + canonical_reservation list" where
  "canonicalReferenceReservations vs = bindE (foldE canonical_step [] vs) (\<lambda>cs. Inr (sort_key cn_key cs))"

definition referenceRequestFingerprint :: "reference_env \<Rightarrow> reserve_request \<Rightarrow> canonical_reservation list \<Rightarrow> durable_error + string" where
  "referenceRequestFingerprint env q cs =
     (case rf_request env \<lparr>wq_OperationID = rq_OperationID q, wq_GenerationID = rq_GenerationID q, wq_ExpiresAt = rq_ExpiresAt q,
        wq_Reservations = map (\<lambda>c. \<lparr>wr_PolicyID = cn_policyID c, wr_WindowID = cn_windowID c, wr_Bucket = cn_bucket c, wr_Amount = USD_String (cn_amountUSD c),
           wr_Limit = USD_String (cn_limitUSD c), wr_BucketNanos = cn_bucketNanos c, wr_DurationNanos = cn_durationNanos c\<rparr>) cs\<rparr> of
        None \<Rightarrow> Inl ErrDetail
      | Some data \<Rightarrow> Inr (rf_sha256 env data))"

definition referenceEventID :: "reference_env \<Rightarrow> string \<Rightarrow> string \<Rightarrow> reference_key \<Rightarrow> int \<Rightarrow> string" where
  "referenceEventID env oper generation key revision =
     (case key of (policy, window, bucket) \<Rightarrow>
        rf_hex env (rf_sha256 env (join_with [NUL] [oper, generation, policy, window, int_dec bucket, int_dec revision])))"

definition referenceEventFingerprint :: "reference_env \<Rightarrow> completion_event \<Rightarrow> string" where
  "referenceEventFingerprint env e = rf_sha256 env (case rf_event env e of None \<Rightarrow> [] | Some data \<Rightarrow> data)"

section \<open>Expiry\<close>

definition entry_expired :: "gotime \<Rightarrow> reference_entry \<Rightarrow> bool" where
  "entry_expired t e \<longleftrightarrow> \<not> IsZero (en_expiresAt e) \<and> \<not> t < en_expiresAt e"

definition sub_or_zero :: "usd \<Rightarrow> usd \<Rightarrow> usd" where
  "sub_or_zero a b = (case USD_Sub a b of Inl _ \<Rightarrow> USD None | Inr c \<Rightarrow> c)"

definition expire_entry :: "gotime \<Rightarrow> string \<times> reference_entry \<Rightarrow> reference_bucket \<Rightarrow> reference_bucket" where
  "expire_entry t x b =
     (case x of (oper, e) \<Rightarrow>
        if entry_expired t e then
          b\<lparr>rb_reserved := sub_or_zero (rb_reserved b) (en_reserved e), rb_accounted := sub_or_zero (rb_accounted b) (en_accounted e),
            rb_entries := mdel oper (rb_entries b), rb_amounts := mdel oper (rb_amounts b)\<rparr>
        else b)"

definition expire_bucket :: "gotime \<Rightarrow> reference_bucket \<Rightarrow> reference_bucket" where
  "expire_bucket t b = fold (expire_entry t) (rb_entries b) b"

definition expire :: "gotime \<Rightarrow> materializer \<Rightarrow> materializer" where
  "expire t m = m\<lparr>mz_buckets := filter (\<lambda>(k, b). rb_entries b \<noteq> []) (map (\<lambda>(k, b). (k, expire_bucket t b)) (mz_buckets m))\<rparr>"

section \<open>Admission\<close>

definition active_add :: "string \<times> string \<Rightarrow> usd \<Rightarrow> reference_key \<times> reference_bucket \<Rightarrow> money_error + usd" where
  "active_add key active kb =
     (case kb of ((policy, window, _), b) \<Rightarrow>
        if policy \<noteq> fst key \<or> window \<noteq> snd key then Inr active
        else foldE USD_Add active [rb_reserved b, rb_accounted b])"

definition window_active :: "materializer \<Rightarrow> string \<times> string \<Rightarrow> money_error + usd" where
  "window_active m key = foldE (active_add key) (the (MustUSD ''0'')) (mz_buckets m)"

type_synonym staged_windows = "(string \<times> string, usd) gomap \<times> (string \<times> string, usd) gomap"

definition stage_window :: "canonical_reservation \<Rightarrow> staged_windows \<Rightarrow> usd \<Rightarrow> (durable_error + denial) + staged_windows" where
  "stage_window c st active =
     (let key = (cn_policyID c, cn_windowID c)
      in if USD_Cmp (cn_amountUSD c) (USD_SubOrZero (cn_limitUSD c) active) > 0 then
           Inl (Inr \<lparr>d_RetryAfter = 0, d_PolicyID = cn_policyID c, d_WindowID = cn_windowID c, d_Limit = 0, d_Active = 0, d_Requested = 0,
             d_LimitUSD = cn_limitUSD c, d_ActiveUSD = active, d_RequestedUSD = cn_amountUSD c\<rparr>)
         else case USD_Add active (cn_amountUSD c) of
                Inl _ \<Rightarrow> Inl (Inl ErrDetail)
              | Inr a \<Rightarrow> Inr (mput key a (fst st), mput key (cn_limitUSD c) (snd st)))"

definition check_window :: "materializer \<Rightarrow> staged_windows \<Rightarrow> canonical_reservation \<Rightarrow> (durable_error + denial) + staged_windows" where
  "check_window m st c =
     (let key = (cn_policyID c, cn_windowID c)
      in case mget (fst st) key of
           Some active \<Rightarrow>
             if USD_Cmp (mgetd (USD None) (snd st) key) (cn_limitUSD c) \<noteq> 0 then Inl (Inl ErrReferenceMaterializerConflict)
             else stage_window c st active
         | None \<Rightarrow>
             (case window_active m key of Inl _ \<Rightarrow> Inl (Inl ErrDetail) | Inr active \<Rightarrow> stage_window c st active))"

definition reservation_event_of :: "reference_env \<Rightarrow> gotime \<Rightarrow> reserve_request \<Rightarrow> canonical_reservation \<Rightarrow> reservation_event" where
  "reservation_event_of env t q c =
     \<lparr>re_EventID = referenceEventID env (rq_OperationID q) (rq_GenerationID q) (cn_key c) 1, re_GenerationID = rq_GenerationID q, re_OperationID = rq_OperationID q,
      re_WindowID = cn_windowID c, re_BucketStart = cn_bucketStartNanos c, re_ReservationRevision = 1, re_AmountUSD = cn_amountUSD c, re_OccurredAt = t\<rparr>"

definition empty_bucket :: "usd \<Rightarrow> reference_bucket" where
  "empty_bucket limit = \<lparr>rb_limit = limit, rb_amounts = [], rb_reserved = USD None, rb_accounted = USD None, rb_entries = []\<rparr>"

definition put_reference_bucket :: "reference_key \<Rightarrow> reference_bucket \<Rightarrow> materializer \<Rightarrow> materializer" where
  "put_reference_bucket k b m = m\<lparr>mz_buckets := mput k b (mz_buckets m)\<rparr>"

definition book_window :: "reference_env \<Rightarrow> gotime \<Rightarrow> reserve_request \<Rightarrow> materializer \<times> reference_operation \<Rightarrow> canonical_reservation
    \<Rightarrow> (materializer \<times> reference_operation) \<times> durable_error option" where
  "book_window env t q st c =
     (case st of (m, oper) \<Rightarrow>
      let k = cn_key c; o_id = rq_OperationID q;
          b = (case mget (mz_buckets m) k of None \<Rightarrow> empty_bucket (cn_limitUSD c) | Some b \<Rightarrow> b);
          event = reservation_event_of env t q c
      in if ReservationEvent_Validate event \<noteq> None then ((put_reference_bucket k b m, oper), Some ErrDetail)
         else case USD_Add (rb_reserved b) (cn_amountUSD c) of
                Inl _ \<Rightarrow> ((put_reference_bucket k (b\<lparr>rb_reserved := USD None\<rparr>) m, oper), Some ErrDetail)
              | Inr reserved \<Rightarrow>
                  (case USD_Add (mgetd (USD None) (rb_amounts b) o_id) (cn_amountUSD c) of
                     Inl _ \<Rightarrow> ((put_reference_bucket k (b\<lparr>rb_reserved := reserved, rb_amounts := mput o_id (USD None) (rb_amounts b)\<rparr>) m, oper), Some ErrDetail)
                   | Inr amount \<Rightarrow>
                       let expiresAt = (if \<not> IsZero (rq_ExpiresAt q) \<and> rq_ExpiresAt q < ro_startBy oper then rq_ExpiresAt q else ro_startBy oper);
                           accepted = referenceWindowExpiry t (cn_bucketNanos c) (cn_durationNanos c);
                           windowExpiresAt = (if accepted > cn_windowExpiresAt c then accepted else cn_windowExpiresAt c);
                           entry = \<lparr>en_reserved = cn_amountUSD c, en_accounted = USD None, en_expiresAt = expiresAt, en_status = ReferenceReserved, en_lastRevision = 1\<rparr>;
                           reservation = \<lparr>rv_key = k, rv_amount = cn_amountUSD c, rv_limit = cn_limitUSD c, rv_bucketStartNanos = cn_bucketStartNanos c,
                             rv_expiresAt = expiresAt, rv_windowExpiresAt = windowExpiresAt, rv_revision = 1\<rparr>
                       in ((put_reference_bucket k (b\<lparr>rb_reserved := reserved, rb_amounts := mput o_id amount (rb_amounts b), rb_entries := mput o_id entry (rb_entries b)\<rparr>) m,
                            oper\<lparr>ro_startBy := expiresAt, ro_reservations := mput k reservation (ro_reservations oper),
                              ro_result := (ro_result oper)\<lparr>rs_Events := rs_Events (ro_result oper) @ [event]\<rparr>\<rparr>), None)))"

definition accepted_operation :: "gotime \<Rightarrow> reserve_request \<Rightarrow> string \<Rightarrow> string \<Rightarrow> reference_operation" where
  "accepted_operation t q incarnation fingerprint =
     \<lparr>ro_claimed = False, ro_startBy = t + BudgetStartLease, ro_fingerprint = fingerprint,
      ro_result = zero_result\<lparr>rs_OperationID := rq_OperationID q, rs_Accepted := True, rs_GenerationID := rq_GenerationID q, rs_IncarnationID := incarnation\<rparr>,
      ro_reservations = [], ro_events = []\<rparr>"

definition denied_result :: "reserve_request \<Rightarrow> denial \<Rightarrow> reserve_result" where
  "denied_result q d = zero_result\<lparr>rs_OperationID := rq_OperationID q, rs_GenerationID := rq_GenerationID q, rs_Denial := Some d, rs_RetryAfter := 10 ^ 9\<rparr>"

definition accept_new :: "reference_env \<Rightarrow> gotime \<Rightarrow> reserve_request \<Rightarrow> canonical_reservation list \<Rightarrow> string \<Rightarrow> materializer
    \<Rightarrow> (durable_error + reserve_result) \<times> materializer" where
  "accept_new env t q cs fingerprint m =
     (case foldE (check_window m) ([], []) cs of
        Inl (Inl e) \<Rightarrow> (Inl e, m)
      | Inl (Inr d) \<Rightarrow> (Inr (denied_result q d), m)
      | Inr _ \<Rightarrow>
          (case loopE (book_window env t q) (m, accepted_operation t q (mz_incarnation m) fingerprint) cs of
             ((m1, _), Some e) \<Rightarrow> (Inl e, m1)
           | ((m1, oper), None) \<Rightarrow> (Inr (ro_result oper), m1\<lparr>mz_operations := mput (rq_OperationID q) oper (mz_operations m1)\<rparr>)))"

definition accept_locked :: "reference_env \<Rightarrow> gotime \<Rightarrow> reserve_request \<Rightarrow> canonical_reservation list \<Rightarrow> string \<Rightarrow> materializer
    \<Rightarrow> (durable_error + reserve_result) \<times> materializer" where
  "accept_locked env t q cs fingerprint m =
     (case mget (mz_operations m) (rq_OperationID q) of
        Some existing \<Rightarrow>
          if ro_fingerprint existing \<noteq> fingerprint then (Inl ErrReferenceMaterializerConflict, m)
          else (Inr ((ro_result existing)\<lparr>rs_Replayed := True\<rparr>), m)
      | None \<Rightarrow>
          if \<not> IsZero (rq_ExpiresAt q) \<and> \<not> rq_ExpiresAt q > t then (Inl ErrLeaseExpired, m)
          else accept_new env t q cs fingerprint m)"

definition Accept :: "reference_env \<Rightarrow> ctx \<Rightarrow> gotime \<Rightarrow> reserve_request \<Rightarrow> materializer \<Rightarrow> (durable_error + reserve_result) \<times> materializer" where
  "Accept env ctx t q m =
     (case ctx of
        Some e \<Rightarrow> (Inl e, m)
      | None \<Rightarrow>
     (case canonicalReferenceReservations (rq_Reservations q) of
        Inl e \<Rightarrow> (Inl e, m)
      | Inr cs \<Rightarrow>
     (case orElse (validateID (rq_OperationID q)) (validateID (rq_GenerationID q)) of
        Some e \<Rightarrow> (Inl e, m)
      | None \<Rightarrow>
          if rq_GenerationID q \<noteq> mz_generation m then (Inl ErrReferenceGenerationMismatch, m)
          else if cs = [] then (Inl ErrDetail, m)
          else case referenceRequestFingerprint env q cs of
                 Inl e \<Rightarrow> (Inl e, m)
               | Inr fingerprint \<Rightarrow> accept_locked env t q cs fingerprint (expire t m))))"

section \<open>Settlement\<close>

definition usd_step :: "(usd \<Rightarrow> usd \<Rightarrow> money_error + usd) \<Rightarrow> usd \<Rightarrow> usd \<Rightarrow> durable_error + usd" where
  "usd_step f a d = (case f a d of Inl _ \<Rightarrow> Inl ErrDetail | Inr c \<Rightarrow> Inr c)"

definition reserved_decrease :: "usd \<Rightarrow> reference_bucket \<times> reference_entry \<Rightarrow> durable_error + reference_bucket \<times> reference_entry" where
  "reserved_decrease d be = (case be of (b, e) \<Rightarrow>
     if USD_IsZero d then Inr (b, e)
     else bindE (usd_step USD_Sub (rb_reserved b) d) (\<lambda>x. bindE (usd_step USD_Sub (en_reserved e) d) (\<lambda>y. Inr (b\<lparr>rb_reserved := x\<rparr>, e\<lparr>en_reserved := y\<rparr>))))"

definition accounted_change :: "(usd \<Rightarrow> usd \<Rightarrow> money_error + usd) \<Rightarrow> usd \<Rightarrow> reference_bucket \<times> reference_entry \<Rightarrow> durable_error + reference_bucket \<times> reference_entry" where
  "accounted_change f d be = (case be of (b, e) \<Rightarrow>
     if USD_IsZero d then Inr (b, e)
     else bindE (usd_step f (rb_accounted b) d) (\<lambda>x. bindE (usd_step f (en_accounted e) d) (\<lambda>y. Inr (b\<lparr>rb_accounted := x\<rparr>, e\<lparr>en_accounted := y\<rparr>))))"

definition applyReferenceCompletion :: "reference_bucket \<Rightarrow> string \<Rightarrow> reference_entry \<Rightarrow> completion_event \<Rightarrow> durable_error + reference_bucket \<times> reference_entry" where
  "applyReferenceCompletion b oper e event =
     bindE (reserved_decrease (ce_ReservedDecreaseUSD event) (b, e)) (\<lambda>be1.
     bindE (accounted_change USD_Add (ce_AccountedIncreaseUSD event) be1) (\<lambda>be2.
     bindE (accounted_change USD_Sub (ce_AccountedDecreaseUSD event) be2) (\<lambda>(b3, e3).
       if USD_IsZero (en_reserved e3) then Inr (b3\<lparr>rb_amounts := mdel oper (rb_amounts b3)\<rparr>, e3)
       else Inr (b3\<lparr>rb_amounts := mput oper (en_reserved e3) (rb_amounts b3)\<rparr>, e3))))"

definition settled_entry :: "completion_event \<Rightarrow> reference_reservation \<Rightarrow> reference_entry \<Rightarrow> reference_entry" where
  "settled_entry event v e =
     (case ce_Kind event of
        JournalRetainAmbiguous \<Rightarrow> e\<lparr>en_status := ReferenceAmbiguous, en_expiresAt := zero_time\<rparr>
      | JournalFinalizeUnknown \<Rightarrow> e\<lparr>en_status := ReferenceAmbiguous, en_expiresAt := rv_windowExpiresAt v\<rparr>
      | JournalResolveUnknownExact \<Rightarrow> e\<lparr>en_status := ReferenceFinalized, en_expiresAt := rv_windowExpiresAt v\<rparr>
      | JournalFinalizeExact \<Rightarrow> e\<lparr>en_status := ReferenceFinalized, en_expiresAt := rv_windowExpiresAt v\<rparr>
      | JournalRelease \<Rightarrow> e\<lparr>en_status := ReferenceFinalized, en_expiresAt := rv_windowExpiresAt v\<rparr>
      | _ \<Rightarrow> e)\<lparr>en_lastRevision := ce_ReservationRevision event\<rparr>"

definition completion_allowed :: "bool \<Rightarrow> reference_entry \<Rightarrow> completion_event \<Rightarrow> durable_error option" where
  "completion_allowed claimed e event =
     (if ce_Kind event \<noteq> JournalRelease \<and> \<not> claimed then Some ErrClaimRequired
      else if ce_Kind event = JournalRelease \<and> claimed then Some ErrReferenceMaterializerConflict
      else if en_status e = ReferenceFinalized then Some ErrReferenceReservationFinalized
      else if en_status e = ReferenceAmbiguous \<and> ce_Kind event \<noteq> JournalResolveUnknownExact then Some ErrReferenceMaterializerConflict
      else if en_status e = ReferenceReserved \<and> ce_Kind event = JournalResolveUnknownExact then Some ErrReferenceMaterializerConflict
      else if ce_Kind event \<noteq> JournalRetainAmbiguous
              \<and> (USD_Cmp (ce_ReservedDecreaseUSD event) (en_reserved e) \<noteq> 0 \<or> USD_Cmp (ce_AccountedDecreaseUSD event) (en_accounted e) \<noteq> 0)
           then Some ErrReferenceMaterializerConflict
      else None)"

record staged =
  sg_operation :: reference_operation
  sg_buckets :: "(reference_key, reference_bucket) gomap"
  sg_seen :: "reference_key list"

definition matching_reservations :: "completion_event \<Rightarrow> reference_operation \<Rightarrow> (reference_key \<times> reference_reservation) list" where
  "matching_reservations event oper =
     filter (\<lambda>(k, v). fst (snd k) = ce_WindowID event \<and> rv_bucketStartNanos v = UnixNano (ce_BucketStart event)) (ro_reservations oper)"

definition staged_bucket :: "materializer \<Rightarrow> staged \<Rightarrow> reference_key \<Rightarrow> reference_bucket option" where
  "staged_bucket m st k = (case mget (sg_buckets st) k of Some b \<Rightarrow> Some b | None \<Rightarrow> mget (mz_buckets m) k)"

definition settle_reservation :: "reference_env \<Rightarrow> materializer \<Rightarrow> string \<Rightarrow> completion_event \<Rightarrow> reference_key \<Rightarrow> reference_reservation \<Rightarrow> staged \<Rightarrow> durable_error + staged" where
  "settle_reservation env m o_id event k v st =
     (let oper = sg_operation st
      in if k \<in> set (sg_seen st) then Inl ErrReferenceMaterializerConflict
         else if ce_ReservationRevision event \<le> rv_revision v then Inl ErrReferenceMaterializerConflict
         else case staged_bucket m st k of
                None \<Rightarrow> Inl ErrReferenceReservationNotFound
              | Some b \<Rightarrow>
                  (case mget (rb_entries b) o_id of
                     None \<Rightarrow> Inl ErrReferenceReservationNotFound
                   | Some e \<Rightarrow>
                       guardE (completion_allowed (ro_claimed oper) e event)
                         (bindE (applyReferenceCompletion b o_id e event) (\<lambda>(b1, e1).
                            Inr \<lparr>sg_operation = oper\<lparr>ro_reservations := mput k (v\<lparr>rv_revision := ce_ReservationRevision event\<rparr>) (ro_reservations oper),
                                   ro_events := mput (ce_EventID event) (referenceEventFingerprint env event) (ro_events oper)\<rparr>,
                                 sg_buckets = mput k (b1\<lparr>rb_entries := mput o_id (settled_entry event v e1) (rb_entries b1)\<rparr>) (sg_buckets st),
                                 sg_seen = k # sg_seen st\<rparr>))))"

definition reconcile_event :: "reference_env \<Rightarrow> materializer \<Rightarrow> string \<Rightarrow> staged \<Rightarrow> completion_event \<Rightarrow> durable_error + staged" where
  "reconcile_event env m o_id st event =
     (case mget (ro_events (sg_operation st)) (ce_EventID event) of
        Some existing \<Rightarrow> if existing \<noteq> referenceEventFingerprint env event then Inl ErrReferenceMaterializerConflict else Inr st
      | None \<Rightarrow>
          (case matching_reservations event (sg_operation st) of
             [(k, v)] \<Rightarrow> settle_reservation env m o_id event k v st
           | _ \<Rightarrow> Inl ErrReferenceReservationNotFound))"

definition publish_staged :: "string \<Rightarrow> staged \<Rightarrow> materializer \<Rightarrow> materializer" where
  "publish_staged o_id st m =
     m\<lparr>mz_buckets := fold (\<lambda>(k, b). mput k b) (sg_buckets st) (mz_buckets m), mz_operations := mput o_id (sg_operation st) (mz_operations m)\<rparr>"

definition Reconcile :: "reference_env \<Rightarrow> ctx \<Rightarrow> gotime \<Rightarrow> reconcile_request \<Rightarrow> materializer \<Rightarrow> durable_error option \<times> materializer" where
  "Reconcile env ctx t q m =
     (case ctx of
        Some e \<Rightarrow> (Some e, m)
      | None \<Rightarrow>
     (case ReconcileRequest_Validate q of
        Some e \<Rightarrow> (Some e, m)
      | None \<Rightarrow>
          if rn_GenerationID q \<noteq> mz_generation m then (Some ErrReferenceGenerationMismatch, m)
          else if rn_IncarnationID q \<noteq> mz_incarnation m then (Some ErrReferenceIncarnationMismatch, m)
          else case mget (mz_operations m) (rn_OperationID q) of
                 None \<Rightarrow> (Some ErrReferenceReservationNotFound, m)
               | Some oper \<Rightarrow>
                   if \<not> rs_Accepted (ro_result oper) then (Some ErrReferenceReservationNotFound, m)
                   else let m1 = expire t m
                        in case foldE (reconcile_event env m1 (rn_OperationID q)) \<lparr>sg_operation = oper, sg_buckets = [], sg_seen = []\<rparr> (rn_Events q) of
                             Inl e \<Rightarrow> (Some e, m1)
                           | Inr st \<Rightarrow> (None, publish_staged (rn_OperationID q) st m1)))"

section \<open>Claims\<close>

definition claimable :: "materializer \<Rightarrow> string \<Rightarrow> reference_key \<Rightarrow> bool" where
  "claimable m o_id k =
     (case mget (mz_buckets m) k of
        None \<Rightarrow> False
      | Some b \<Rightarrow> (case mget (rb_entries b) o_id of None \<Rightarrow> False | Some e \<Rightarrow> en_status e = ReferenceReserved))"

definition claim_entry :: "string \<Rightarrow> reference_key \<Rightarrow> materializer \<Rightarrow> materializer" where
  "claim_entry o_id k m =
     (case mget (mz_buckets m) k of
        None \<Rightarrow> m
      | Some b \<Rightarrow>
          (case mget (rb_entries b) o_id of
             None \<Rightarrow> m
           | Some e \<Rightarrow> put_reference_bucket k (b\<lparr>rb_entries := mput o_id (e\<lparr>en_expiresAt := zero_time\<rparr>) (rb_entries b)\<rparr>) m))"

definition Claim_reference :: "ctx \<Rightarrow> gotime \<Rightarrow> claim_request \<Rightarrow> materializer \<Rightarrow> (durable_error + claim_receipt) \<times> materializer" where
  "Claim_reference ctx t q m =
     (case ctx of
        Some e \<Rightarrow> (Inl e, m)
      | None \<Rightarrow>
     (case ClaimRequest_Validate q of
        Some e \<Rightarrow> (Inl e, m)
      | None \<Rightarrow>
          if cl_GenerationID q \<noteq> mz_generation m then (Inl ErrReferenceGenerationMismatch, m)
          else if cl_IncarnationID q \<noteq> mz_incarnation m then (Inl ErrReferenceIncarnationMismatch, m)
          else case mget (mz_operations m) (cl_OperationID q) of
                 None \<Rightarrow> (Inl ErrReferenceReservationNotFound, m)
               | Some oper \<Rightarrow>
                   if \<not> rs_Accepted (ro_result oper) then (Inl ErrReferenceReservationNotFound, m)
                   else if ro_claimed oper then (Inl ErrAlreadyClaimed, m)
                   else if \<not> t < ro_startBy oper then (Inl ErrLeaseExpired, m)
                   else if \<not> list_all (claimable m (cl_OperationID q)) (map fst (ro_reservations oper)) then (Inl ErrReferenceReservationFinalized, m)
                   else let m1 = fold (claim_entry (cl_OperationID q)) (map fst (ro_reservations oper)) m
                        in (Inr \<lparr>cr_IncarnationID = cl_IncarnationID q, cr_OperationID = cl_OperationID q, cr_GenerationID = cl_GenerationID q\<rparr>,
                            m1\<lparr>mz_operations := mput (cl_OperationID q) (oper\<lparr>ro_claimed := True\<rparr>) (mz_operations m1)\<rparr>)))"

section \<open>The reference as a budget leaser\<close>

text \<open>Its state is the clock and the materializer.\<close>

definition reference_leaser :: "reference_env \<Rightarrow> (gotime \<times> materializer) budget_leaser" where
  "reference_leaser env =
     \<lparr>bl_Accept = (\<lambda>ctx q (t, m). map_prod id (Pair t) (Accept env ctx t q m)),
      bl_Reconcile = (\<lambda>ctx q (t, m). map_prod id (Pair t) (Reconcile env ctx t q m)),
      bl_Claim = (\<lambda>ctx q (t, m). map_prod id (Pair t) (Claim_reference ctx t q m))\<rparr>"

end
