(* ===== verification/Durable_Facts.thy ===== *)
theory Durable_Facts
  imports Durable
begin

text \<open>
  What holds of the budget boundary for every leaser: the recorded phases follow the legal order, and over a leaser whose claims are
  one-use (locale \<open>one_use_leaser\<close>) at most one claim of an operation is granted, whatever workers call in whatever order.
\<close>

section \<open>Phases\<close>

inductive operated :: "'w budget_boundary \<Rightarrow> (completion_event list \<Rightarrow> string) \<Rightarrow> lifecycle \<Rightarrow> bool" for b dg where
  operated_new: "operated b dg NewLifecycle"
| operated_advance: "operated b dg l \<Longrightarrow> Advance l p = Inr l' \<Longrightarrow> operated b dg l'"
| operated_reserve: "operated b dg l \<Longrightarrow> Reserve b ctx (Some l) q w = (r, Some l', w') \<Longrightarrow> operated b dg l'"
| operated_claim: "operated b dg l \<Longrightarrow> Claim b ctx (Some l) res w = (r, Some l', res', w') \<Longrightarrow> operated b dg l'"
| operated_finalize: "operated b dg l \<Longrightarrow> Finalize dg b ctx (Some l) reservation events w = (r, Some l', w') \<Longrightarrow> operated b dg l'"

definition in_order :: "lifecycle \<Rightarrow> bool" where
  "in_order l \<longleftrightarrow> (\<exists>n \<le> 6. lc_phases l = [0..<n])"

lemma Advance_in_order: "Advance l p = Inr l' \<Longrightarrow> in_order l \<Longrightarrow> in_order l'"
proof -
  assume "in_order l" and a: "Advance l p = Inr l'"
  then obtain n where n: "n \<le> 6" "lc_phases l = [0..<n]" by (auto simp: in_order_def)
  have "p = n" "p \<le> 5" "lc_phases l' = [0..<n] @ [p]"
    using a n by (auto simp: Advance_def Let_def phase_defs split: if_splits)
  then show "in_order l'" unfolding in_order_def by (intro exI[of _ "Suc n"]) simp
qed

lemma binds_in_order:
  "bindReservationIdentity l r = Inr l' \<Longrightarrow> in_order l' = in_order l"
  "bindCompletionDigest l d = Inr l' \<Longrightarrow> in_order l' = in_order l"
  by (auto simp: bindReservationIdentity_def bindCompletionDigest_def in_order_def split: if_splits)

lemma reserve_accepted_in_order: "in_order l \<Longrightarrow> in_order (snd (reserve_accepted l c a))"
  by (auto simp: reserve_accepted_def Let_def binds_in_order(1) dest!: Advance_in_order split: sum.splits)

lemma claim_result_in_order: "in_order l \<Longrightarrow> in_order (fst (snd (claim_result l res r)))"
  by (auto simp: claim_result_def dest!: Advance_in_order split: sum.splits option.splits)

lemma settle_in_order: "settle m c l q w = (r, l', w') \<Longrightarrow> in_order l \<Longrightarrow> in_order l'"
  by (auto simp: settle_def dest!: Advance_in_order split: sum.splits option.splits prod.splits if_splits)

lemma Reserve_in_order: "in_order l \<Longrightarrow> Reserve b ctx (Some l) q w = (r, Some l', w') \<Longrightarrow> in_order l'"
  using reserve_accepted_in_order[of l]
  by (auto simp: Reserve_def Let_def split: sum.splits option.splits prod.splits if_splits) (metis snd_conv)+

lemma Claim_in_order: "in_order l \<Longrightarrow> Claim b ctx (Some l) res w = (r, Some l', res', w') \<Longrightarrow> in_order l'"
  using claim_result_in_order binds_in_order(1)
  by (auto simp: Claim_def Let_def split: sum.splits option.splits prod.splits if_splits) (metis fst_conv snd_conv)+

lemma Finalize_in_order: "in_order l \<Longrightarrow> Finalize dg b ctx (Some l) reservation events w = (r, Some l', w') \<Longrightarrow> in_order l'"
  by (auto simp: Finalize_def Let_def binds_in_order(2) dest!: settle_in_order Advance_in_order split: sum.splits option.splits prod.splits if_splits)

lemmas operated_steps_in_order = Advance_in_order Reserve_in_order Claim_in_order Finalize_in_order

lemma operated_in_order: "operated b dg l \<Longrightarrow> in_order l"
proof (induction rule: operated.induct)
  case operated_new
  show ?case unfolding in_order_def by (intro exI[of _ 0]) (simp add: NewLifecycle_def)
qed (blast intro: operated_steps_in_order)+

text \<open>C15: side effects follow the legal order. However the boundary is driven, the phases of an operation are the first of replay, accepted, claimed, dispatched,
  finalized, reconciled, each at most once; asking for dispatch before the claim is refused with \<^verbatim>\<open>ErrClaimRequired\<close>; and a settlement is
  sent only once a claim was recorded.\<close>

theorem phases_in_order:
  assumes "operated b dg l"
  shows "(\<exists>n \<le> 6. lc_phases l = [0..<n])
    \<and> (PhaseRedisClaimed \<notin> set (lc_phases l) \<longrightarrow> Advance l PhaseDispatched = Inl ErrClaimRequired)
    \<and> (Finalize dg b ctx (Some l) reservation events w = (None, l', w') \<longrightarrow> {PhaseRedisClaimed, PhaseDispatched} \<subseteq> set (lc_phases l))"
proof -
  obtain n where n: "n \<le> 6" "lc_phases l = [0..<n]" using operated_in_order[OF assms] by (auto simp: in_order_def)
  have "Advance l PhaseDispatched = Inl ErrClaimRequired" if "PhaseRedisClaimed \<notin> set (lc_phases l)"
    using that n by (cases n) (auto simp: Advance_def Let_def phase_defs)
  moreover have "{PhaseRedisClaimed, PhaseDispatched} \<subseteq> set (lc_phases l)" if "Finalize dg b ctx (Some l) reservation events w = (None, l', w')"
  proof -
    have "Current l = Some PhaseDispatched \<or> Current l = Some PhaseResultFinalized"
      using that by (auto simp: Finalize_def split: option.splits if_splits)
    then have "4 \<le> n" using n by (cases n) (auto simp: Current_def phase_defs split: if_splits)
    then show ?thesis using n by (simp add: phase_defs)
  qed
  ultimately show ?thesis using n by blast
qed

definition phase_demo :: "unit budget_boundary" where
  "phase_demo = \<lparr>bb_Identity = \<lparr>si_Cloud = \<lparr>ci_Provider = ''a'', ci_Namespace = ''n'', ci_RequestTable = ''r'', ci_PayloadStore = ''s'', ci_ProviderDigest = ''d''\<rparr>,
     si_Redis = \<lparr>ri_KeyPrefix = ''k'', ri_HashTag = ''h''\<rparr>, si_ConfigDigest = ''c''\<rparr>, bb_Materializer = None\<rparr>"

theorem phases_in_order_witness:
  "\<exists>l. operated phase_demo (\<lambda>_. []) l \<and> lc_phases l = [0, 1] \<and> Advance l PhaseDispatched = Inl ErrClaimRequired"
proof -
  define l0 l where "l0 = NewLifecycle\<lparr>lc_phases := [0]\<rparr>" and "l = NewLifecycle\<lparr>lc_phases := [0, 1]\<rparr>"
  have a: "Advance NewLifecycle PhaseOperationReplay = Inr l0" "Advance l0 PhaseRedisAccepted = Inr l"
    by (simp_all add: Advance_def Let_def phase_defs l0_def l_def NewLifecycle_def)
  have o1: "operated phase_demo (\<lambda>_. []) l" by (rule operated_advance[OF operated_advance[OF operated_new a(1)] a(2)])
  have "PhaseRedisClaimed \<notin> set (lc_phases l)" by (simp add: l_def phase_defs)
  then have "Advance l PhaseDispatched = Inl ErrClaimRequired" by (rule phases_in_order[OF o1, THEN conjunct2, THEN conjunct1, rule_format])
  moreover have "lc_phases l = [0, 1]" by (simp add: l_def)
  ultimately show ?thesis using o1 by blast
qed

section \<open>One-use claims\<close>

datatype boundary_call =
    ReserveCall "ctx option" "lifecycle option" reserve_request
  | ClaimCall "ctx option" "lifecycle option" "budget_reservation option"
  | FinalizeCall "ctx option" "lifecycle option" budget_reservation "completion_event list"
  | ResolveCall "ctx option" unknown_cost_resolution
  | Elapse gotime

text \<open>The world after a call, and the operations whose claims were granted by a sequence of calls, in order.\<close>

definition granted :: "(durable_error + claim_receipt) \<Rightarrow> string list" where
  "granted r = (case r of Inl _ \<Rightarrow> [] | Inr receipt \<Rightarrow> [cr_OperationID receipt])"

fun boundary_step :: "(completion_event list \<Rightarrow> string) \<Rightarrow> (gotime \<Rightarrow> 'w \<Rightarrow> 'w) \<Rightarrow> 'w budget_boundary \<Rightarrow> boundary_call \<Rightarrow> 'w \<Rightarrow> string list \<times> 'w" where
  "boundary_step dg pass b (ReserveCall ctx lc q) w = ([], snd (snd (Reserve b ctx lc q w)))"
| "boundary_step dg pass b (ClaimCall ctx lc res) w = (case Claim b ctx lc res w of (r, _, _, w') \<Rightarrow> (granted r, w'))"
| "boundary_step dg pass b (FinalizeCall ctx lc res es) w = ([], snd (snd (Finalize dg b ctx lc res es w)))"
| "boundary_step dg pass b (ResolveCall ctx u) w = ([], snd (Resolve_cost b ctx u w))"
| "boundary_step dg pass b (Elapse t) w = ([], pass t w)"

fun grants :: "(completion_event list \<Rightarrow> string) \<Rightarrow> (gotime \<Rightarrow> 'w \<Rightarrow> 'w) \<Rightarrow> 'w budget_boundary \<Rightarrow> boundary_call list \<Rightarrow> 'w \<Rightarrow> string list" where
  "grants dg pass b [] w = []"
| "grants dg pass b (x # xs) w = (case boundary_step dg pass b x w of (g, w') \<Rightarrow> g @ grants dg pass b xs w')"

locale one_use_leaser =
  fixes leaser :: "'w budget_leaser" and claimed :: "string \<Rightarrow> 'w \<Rightarrow> bool" and pass :: "gotime \<Rightarrow> 'w \<Rightarrow> 'w"
  assumes claim_fresh: "bl_Claim leaser c q w = (Inr receipt, w') \<Longrightarrow> \<not> claimed (cl_OperationID q) w \<and> claimed (cl_OperationID q) w'"
    and claim_keeps: "claimed i w \<Longrightarrow> claimed i (snd (bl_Claim leaser c q w))"
    and accept_keeps: "claimed i w \<Longrightarrow> claimed i (snd (bl_Accept leaser c rq w))"
    and reconcile_keeps: "claimed i w \<Longrightarrow> claimed i (snd (bl_Reconcile leaser c rn w))"
    and pass_keeps: "claimed i w \<Longrightarrow> claimed i (pass t w)"
begin

lemma Reserve_keeps: "bb_Materializer b = Some leaser \<Longrightarrow> claimed i w \<Longrightarrow> claimed i (snd (snd (Reserve b ctx lc q w)))"
  using accept_keeps[of i w]
  by (auto simp: Reserve_def Let_def split: option.splits sum.splits prod.splits) (metis snd_conv)+

lemma Finalize_keeps: "bb_Materializer b = Some leaser \<Longrightarrow> claimed i w \<Longrightarrow> claimed i (snd (snd (Finalize dg b ctx lc res es w)))"
  using reconcile_keeps[of i w]
  by (auto simp: Finalize_def settle_def Let_def split: option.splits sum.splits prod.splits if_splits) (metis snd_conv)+

lemma Resolve_keeps: "bb_Materializer b = Some leaser \<Longrightarrow> claimed i w \<Longrightarrow> claimed i (snd (Resolve_cost b ctx u w))"
  using reconcile_keeps[of i w]
  by (auto simp: Resolve_cost_def Let_def split: option.splits sum.splits prod.splits) (metis snd_conv)+

lemma Claim_keeps: "bb_Materializer b = Some leaser \<Longrightarrow> claimed i w \<Longrightarrow> claimed i (snd (snd (snd (Claim b ctx lc res w))))"
  using claim_keeps[of i w]
  by (auto simp: Claim_def Let_def split: option.splits sum.splits prod.splits) (metis snd_conv)+

lemma step_keeps: "bb_Materializer b = Some leaser \<Longrightarrow> claimed i w \<Longrightarrow> claimed i (snd (boundary_step dg pass b x w))"
  using Claim_keeps[of b i w]
  by (cases x) (auto simp: Reserve_keeps Finalize_keeps Resolve_keeps pass_keeps split: prod.splits, metis snd_conv)

lemma Claim_granted:
  assumes "bb_Materializer b = Some leaser" and "Claim b ctx lc res w = (Inr receipt, lc', res', w')"
  shows "\<not> claimed (cr_OperationID receipt) w \<and> claimed (cr_OperationID receipt) w'"
proof -
  obtain c l reservation l1 l2 r' where x: "res = Some reservation"
    "bl_Claim leaser c \<lparr>cl_OperationID = rs_OperationID (bg_Result reservation), cl_GenerationID = rs_GenerationID (bg_Result reservation),
       cl_IncarnationID = rs_IncarnationID (bg_Result reservation)\<rparr> w = (r', w')"
    "claim_result l1 reservation r' = (Inr receipt, l2, l)"
    using assms by (auto simp: Claim_def Let_def split: option.splits sum.splits prod.splits if_splits)
  have "r' = Inr receipt" "cr_OperationID receipt = rs_OperationID (bg_Result reservation)"
    using x(3) by (auto simp: claim_result_def ClaimReceipt_Validate_def split: sum.splits option.splits if_splits)
  then show ?thesis using claim_fresh x(2) by fastforce
qed

lemma step_granted:
  assumes "bb_Materializer b = Some leaser" and "i \<in> set (fst (boundary_step dg pass b x w))"
  shows "\<not> claimed i w \<and> claimed i (snd (boundary_step dg pass b x w)) \<and> fst (boundary_step dg pass b x w) = [i]"
proof (cases x)
  case (ClaimCall ctx lc res)
  obtain r lc' res' w' where c: "Claim b ctx lc res w = (r, lc', res', w')" using prod_cases4 by blast
  then obtain receipt where r: "r = Inr receipt" "i = cr_OperationID receipt"
    using assms(2) ClaimCall by (auto simp: granted_def split: sum.splits)
  then show ?thesis using Claim_granted[OF assms(1), of ctx lc res w receipt lc' res' w'] c ClaimCall by (simp add: granted_def)
qed (use assms(2) in simp_all)

lemma grants_fresh: "bb_Materializer b = Some leaser \<Longrightarrow> i \<in> set (grants dg pass b xs w) \<Longrightarrow> \<not> claimed i w"
proof (induction xs arbitrary: w)
  case (Cons x xs)
  obtain g w' where s: "boundary_step dg pass b x w = (g, w')" by fastforce
  consider "i \<in> set g" | "i \<in> set (grants dg pass b xs w')" using Cons.prems(2) s by auto
  then show ?case
  proof cases
    case 1
    then show ?thesis using step_granted[OF Cons.prems(1), of i dg x w] s by simp
  next
    case 2
    then have "\<not> claimed i w'" by (rule Cons.IH[OF Cons.prems(1)])
    then show ?thesis using step_keeps[OF Cons.prems(1), of i w dg x] s by auto
  qed
qed simp

lemma grants_distinct: "bb_Materializer b = Some leaser \<Longrightarrow> distinct (grants dg pass b xs w)"
proof (induction xs arbitrary: w)
  case (Cons x xs)
  obtain g w' where s: "boundary_step dg pass b x w = (g, w')" by fastforce
  have g: "g = [i] \<and> claimed i w'" if "i \<in> set g" for i using step_granted[OF Cons.prems, of i dg x w] that s by simp
  have "distinct g"
  proof (cases g)
    case (Cons i rest)
    then show ?thesis using g[of i] by simp
  qed simp
  moreover have "set g \<inter> set (grants dg pass b xs w') = {}" using g grants_fresh[OF Cons.prems] by blast
  ultimately show ?case using Cons.IH[OF Cons.prems] s by simp
qed simp

end

end
