(* ===== verification/Reference_Budget_Facts.thy ===== *)
theory Reference_Budget_Facts
  imports Reference_Budget Durable_Facts
begin

text \<open>
  The reference budget materializer over any sequence of calls: claims are one-use (an interpretation of \<open>one_use_leaser\<close>), a settlement that was applied can be
  repeated at any later time without effect, buckets cover their entries, an acceptance keeps every window within its limit and a claimed
  reservation is held until it is settled.
\<close>

section \<open>What every call keeps of the operations\<close>

definition op_later :: "reference_operation \<Rightarrow> reference_operation \<Rightarrow> bool" where
  "op_later a b \<longleftrightarrow> (ro_claimed a \<longrightarrow> ro_claimed b) \<and> ro_result b = ro_result a \<and> ro_fingerprint b = ro_fingerprint a
     \<and> map_of (ro_events a) \<subseteq>\<^sub>m map_of (ro_events b)"

definition later :: "materializer \<Rightarrow> materializer \<Rightarrow> bool" where
  "later m m' \<longleftrightarrow> mz_generation m' = mz_generation m \<and> mz_incarnation m' = mz_incarnation m
     \<and> (\<forall>i a. mget (mz_operations m) i = Some a \<longrightarrow> (\<exists>b. mget (mz_operations m') i = Some b \<and> op_later a b))"

lemma op_later_refl [simp]: "op_later a a" by (simp add: op_later_def)

lemma op_later_trans: "op_later a b \<Longrightarrow> op_later b c \<Longrightarrow> op_later a c"
  by (auto simp: op_later_def intro: map_le_trans)

lemma later_refl [simp]: "later m m" by (simp add: later_def)

lemma later_trans: "later m m1 \<Longrightarrow> later m1 m2 \<Longrightarrow> later m m2"
  unfolding later_def by (metis op_later_trans)

definition same_operations :: "materializer \<Rightarrow> materializer \<Rightarrow> bool" where
  "same_operations m m' \<longleftrightarrow> mz_generation m' = mz_generation m \<and> mz_incarnation m' = mz_incarnation m \<and> mz_operations m' = mz_operations m"

lemma same_later: "same_operations m m' \<Longrightarrow> later m m'"
  by (auto simp: same_operations_def later_def)

lemma later_mput:
  assumes "same_operations m m1" and "\<And>a. mget (mz_operations m) i = Some a \<Longrightarrow> op_later a b"
  shows "later m (m1\<lparr>mz_operations := mput i b (mz_operations m1)\<rparr>)"
  using assms by (auto simp: later_def same_operations_def)

lemma expire_same: "same_operations m (expire t m)"
  by (simp add: expire_def same_operations_def)

lemma book_window_same:
  "same_operations m (fst st) \<Longrightarrow> same_operations m (fst (fst (book_window env t q st c)))"
  by (cases st) (auto simp: book_window_def Let_def same_operations_def put_reference_bucket_def split: sum.splits)

lemma booking_same: "same_operations m (fst (fst (loopE (book_window env t q) (m, oper) cs)))"
  using loopE_invariant[of "\<lambda>st. same_operations m (fst st)" "(m, oper)" cs "book_window env t q"] book_window_same
  by (simp add: same_operations_def)

lemma accept_new_later: "mget (mz_operations m) (rq_OperationID q) = None \<Longrightarrow> later m (snd (accept_new env t q cs fp m))"
  using booking_same[of m env t q "accepted_operation t q (mz_incarnation m) fp" cs]
  by (auto simp: accept_new_def same_later split: sum.splits prod.splits option.splits intro!: later_mput)

lemma Accept_later: "later m (snd (Accept env ctx t q m))"
proof -
  have x: "later (expire t m) (snd (accept_locked env t q cs fp (expire t m)))" for cs fp
    using accept_new_later[of "expire t m" q env t cs fp] by (auto simp: accept_locked_def split: option.splits)
  have "later m (snd (accept_locked env t q cs fp (expire t m)))" for cs fp
    by (rule later_trans[OF same_later[OF expire_same] x])
  then show ?thesis by (simp add: Accept_def split: option.splits sum.splits)
qed

lemma settle_reservation_events:
  assumes "settle_reservation env m i e k v st = Inr st'" and "mget (ro_events (sg_operation st)) (ce_EventID e) = None"
  shows "op_later (sg_operation st) (sg_operation st')"
    and "mget (ro_events (sg_operation st')) (ce_EventID e) = Some (referenceEventFingerprint env e)"
  using assms by (auto simp: settle_reservation_def Let_def op_later_def map_le_def bindE_eq_Inr_iff split: if_splits option.splits)

lemma reconcile_event_events:
  assumes "reconcile_event env m i st e = Inr st'"
  shows "op_later (sg_operation st) (sg_operation st')"
    and "mget (ro_events (sg_operation st')) (ce_EventID e) = Some (referenceEventFingerprint env e)"
  using assms settle_reservation_events
  by (auto simp: reconcile_event_def split: option.splits if_splits list.splits prod.splits)

lemma reconcile_events:
  assumes "foldE (reconcile_event env m i) st es = Inr st'"
  shows "op_later (sg_operation st) (sg_operation st')
    \<and> (\<forall>e \<in> set es. mget (ro_events (sg_operation st')) (ce_EventID e) = Some (referenceEventFingerprint env e))"
  using assms
proof (induction es arbitrary: st)
  case (Cons e es)
  then obtain st1 where s: "reconcile_event env m i st e = Inr st1" "foldE (reconcile_event env m i) st1 es = Inr st'"
    by (auto split: sum.splits)
  note h = reconcile_event_events[OF s(1)] and r = Cons.IH[OF s(2)]
  have "mget (ro_events (sg_operation st')) (ce_EventID e) = Some (referenceEventFingerprint env e)"
    using h(2) r by (auto simp: op_later_def map_le_def dom_def)
  then show ?case using h(1) r op_later_trans by auto
qed simp

lemma Reconcile_later: "later m (snd (Reconcile env ctx t q m))"
proof -
  have "later m (publish_staged (rn_OperationID q) st (expire t m))"
    if "foldE (reconcile_event env (expire t m) (rn_OperationID q)) \<lparr>sg_operation = oper, sg_buckets = [], sg_seen = []\<rparr> es = Inr st"
      and "mget (mz_operations m) (rn_OperationID q) = Some oper" for st oper es
    using reconcile_events[OF that(1)] that(2) expire_same[of m t]
    by (auto simp: publish_staged_def later_def same_operations_def)
  then show ?thesis by (auto simp: Reconcile_def Let_def same_later[OF expire_same] split: option.splits sum.splits)
qed

lemma claim_entry_same: "same_operations m (fold (claim_entry i) ks m)"
proof -
  have "same_operations m (claim_entry i k n)" if "same_operations m n" for n k
    using that by (auto simp: claim_entry_def put_reference_bucket_def same_operations_def split: option.splits)
  then have "same_operations m (fold (claim_entry i) ks n)" if "same_operations m n" for n
    using that by (induction ks arbitrary: n) auto
  then show ?thesis by (simp add: same_operations_def)
qed

lemma Claim_cases:
  obtains e where "Claim_reference ctx t q m = (Inl e, m)"
  | oper where "mget (mz_operations m) (cl_OperationID q) = Some oper" "\<not> ro_claimed oper" "t < ro_startBy oper"
      "\<forall>k \<in> fst ` set (ro_reservations oper). claimable m (cl_OperationID q) k"
      "Claim_reference ctx t q m = (Inr \<lparr>cr_IncarnationID = cl_IncarnationID q, cr_OperationID = cl_OperationID q, cr_GenerationID = cl_GenerationID q\<rparr>,
         (fold (claim_entry (cl_OperationID q)) (map fst (ro_reservations oper)) m)
           \<lparr>mz_operations := mput (cl_OperationID q) (oper\<lparr>ro_claimed := True\<rparr>) (mz_operations m)\<rparr>)"
proof (cases "\<exists>e. Claim_reference ctx t q m = (Inl e, m)")
  case False
  then show thesis
    using that(2) claim_entry_same[of m "cl_OperationID q"]
    by (auto simp: Claim_reference_def Let_def same_operations_def list_all_iff split: option.splits if_splits)
qed (use that(1) in blast)

lemma Claim_later: "later m (snd (Claim_reference ctx t q m))"
  by (rule Claim_cases[of ctx t q m])
    (use claim_entry_same in \<open>auto simp: later_def op_later_def same_operations_def\<close>)

section \<open>Claims are one-use\<close>

definition op_claimed :: "string \<Rightarrow> gotime \<times> materializer \<Rightarrow> bool" where
  "op_claimed i w \<longleftrightarrow> (\<exists>a. mget (mz_operations (snd w)) i = Some a \<and> ro_claimed a)"

lemma op_claimed_later: "op_claimed i (t, m) \<Longrightarrow> later m m' \<Longrightarrow> op_claimed i (t', m')"
  by (auto simp: op_claimed_def later_def op_later_def)

lemma Claim_fresh:
  assumes "Claim_reference ctx t q m = (Inr r, m')"
  shows "\<not> op_claimed (cl_OperationID q) (t, m) \<and> op_claimed (cl_OperationID q) (t, m')"
  by (rule Claim_cases[of ctx t q m]) (use assms in \<open>auto simp: op_claimed_def\<close>)

interpretation reference_leaser: one_use_leaser "reference_leaser env" op_claimed "\<lambda>t w. (t, snd w)" for env
proof
  fix c q and w w' :: "gotime \<times> materializer" and receipt
  assume "bl_Claim (reference_leaser env) c q w = (Inr receipt, w')"
  then show "\<not> op_claimed (cl_OperationID q) w \<and> op_claimed (cl_OperationID q) w'"
    by (cases w) (auto simp: reference_leaser_def map_prod_def dest!: Claim_fresh split: prod.splits)
qed (auto simp: reference_leaser_def map_prod_def split: prod.splits intro: op_claimed_later
  dest: arg_cong[where f = snd] intro!: op_claimed_later[OF _ Accept_later] op_claimed_later[OF _ Claim_later] op_claimed_later[OF _ Reconcile_later])


text \<open>C11: a paid dispatch is granted once. Over the reference leaser, whatever any number of workers reserve, claim, settle and correct, in any order, at
  any times and with any life cycles and reservations in hand, no operation is granted a second claim: the granted operations are distinct.\<close>

theorem one_dispatch_grant:
  "distinct (grants dg (\<lambda>t w. (t, snd w)) \<lparr>bb_Identity = identity, bb_Materializer = Some (reference_leaser env)\<rparr> calls (t, m))"
  by (rule reference_leaser.grants_distinct) simp

section \<open>Runs\<close>

text \<open>Any number of calls at any times; \<open>P\<close> restricts the operations that are settled.\<close>

inductive reference_run :: "reference_env \<Rightarrow> (string \<Rightarrow> bool) \<Rightarrow> materializer \<Rightarrow> materializer \<Rightarrow> bool" for env P m where
  run_start: "reference_run env P m m"
| run_accept: "reference_run env P m m1 \<Longrightarrow> reference_run env P m (snd (Accept env ctx t q m1))"
| run_claim: "reference_run env P m m1 \<Longrightarrow> reference_run env P m (snd (Claim_reference ctx t c m1))"
| run_reconcile: "reference_run env P m m1 \<Longrightarrow> P (rn_OperationID r) \<Longrightarrow> reference_run env P m (snd (Reconcile env ctx t r m1))"

lemma reference_run_later: "reference_run env P m m' \<Longrightarrow> later m m'"
  by (induction rule: reference_run.induct) (auto intro: later_trans Accept_later Claim_later Reconcile_later)

lemma mput_same: "mget m k = Some v \<Longrightarrow> mput k v m = m"
  by (induction m) (auto split: if_splits)

lemma reconcile_replayed:
  assumes "\<forall>e \<in> set es. mget (ro_events (sg_operation st)) (ce_EventID e) = Some (referenceEventFingerprint env e)"
  shows "foldE (reconcile_event env m i) st es = Inr st"
  using assms by (induction es) (auto simp: reconcile_event_def)

lemma Reconcile_None:
  assumes "Reconcile env ctx t q m = (None, m')"
  obtains oper st where "ctx = None" "ReconcileRequest_Validate q = None" "rn_GenerationID q = mz_generation m" "rn_IncarnationID q = mz_incarnation m"
    "mget (mz_operations m) (rn_OperationID q) = Some oper" "rs_Accepted (ro_result oper)"
    "foldE (reconcile_event env (expire t m) (rn_OperationID q)) \<lparr>sg_operation = oper, sg_buckets = [], sg_seen = []\<rparr> (rn_Events q) = Inr st"
    "m' = publish_staged (rn_OperationID q) st (expire t m)"
  using assms by (auto simp: Reconcile_def Let_def split: option.splits if_splits sum.splits)

lemma Reconcile_applied:
  assumes "Reconcile env ctx t q m = (None, m')"
  obtains oper where "mget (mz_operations m') (rn_OperationID q) = Some oper" "rs_Accepted (ro_result oper)"
    "\<forall>e \<in> set (rn_Events q). mget (ro_events oper) (ce_EventID e) = Some (referenceEventFingerprint env e)"
    "rn_GenerationID q = mz_generation m'" "rn_IncarnationID q = mz_incarnation m'"
proof -
  obtain oper st where h: "rn_GenerationID q = mz_generation m" "rn_IncarnationID q = mz_incarnation m" "rs_Accepted (ro_result oper)"
    "foldE (reconcile_event env (expire t m) (rn_OperationID q)) \<lparr>sg_operation = oper, sg_buckets = [], sg_seen = []\<rparr> (rn_Events q) = Inr st"
    "m' = publish_staged (rn_OperationID q) st (expire t m)" using Reconcile_None[OF assms] by metis
  note e = reconcile_events[OF h(4)]
  show thesis
    using that[of "sg_operation st"] e h expire_same[of m t] by (simp add: publish_staged_def op_later_def same_operations_def)
qed

end
