(* ===== verification/Reference_Budget_Books.thy ===== *)
theory Reference_Budget_Books
  imports Reference_Budget_Facts
begin

text \<open>
  The money in the reference materializer: the totals of a bucket cover its entries in every reachable state, and an acceptance books its
  amounts exactly and keeps every window within its limit.
\<close>

section \<open>Sums over maps\<close>

lemma msum_mdel: "mwf m \<Longrightarrow> msum f (mdel k m) = msum f m - osum f (mget m k)"
proof (induction m)
  case (Cons a m)
  obtain k' v' where a: "a = (k', v')" by (cases a)
  show ?case
  proof (cases "k = k'")
    case True
    then have "mdel k m = m" using Cons.prems a by (force simp: mwf_def AList.delete_eq filter_id_conv)
    then show ?thesis using True a by simp
  qed (use Cons a in \<open>auto simp: mwf_def\<close>)
qed simp

definition ksum :: "('k \<Rightarrow> 'v \<Rightarrow> int) \<Rightarrow> ('k, 'v) gomap \<Rightarrow> int" where
  "ksum f m = sum_list (map (\<lambda>(k, v). f k v) m)"

lemma ksum_simps [simp]: "ksum f [] = 0" "ksum f ((k, v) # m) = f k v + ksum f m"
  by (simp_all add: ksum_def)

lemma ksum_mput: "mwf m \<Longrightarrow> ksum f (mput k v m) = ksum f m - osum (f k) (mget m k) + f k v"
proof (induction m)
  case (Cons a m)
  obtain k' v' where "a = (k', v')" by (cases a)
  with Cons show ?case by (auto simp: mwf_def)
qed simp

lemma ksum_nonneg: "(\<And>k v. (k, v) \<in> set m \<Longrightarrow> 0 \<le> f k v) \<Longrightarrow> 0 \<le> ksum f m"
  by (induction m) force+

lemma ksum_member_le: "(\<And>k v. (k, v) \<in> set m \<Longrightarrow> 0 \<le> f k v) \<Longrightarrow> mget m k = Some v \<Longrightarrow> f k v \<le> ksum f m"
proof (induction m)
  case (Cons a m)
  obtain k' v' where a: "a = (k', v')" by (cases a)
  have n: "0 \<le> ksum f m" using Cons.prems(1) by (intro ksum_nonneg) simp
  show ?case
  proof (cases "k = k'")
    case False
    then have "f k v \<le> ksum f m" using Cons.IH Cons.prems a by simp
    then show ?thesis using Cons.prems(1)[of k' v'] a by simp
  qed (use Cons.prems(2) n a in simp)
qed simp

section \<open>Buckets cover their entries\<close>

definition bucket_ok :: "reference_bucket \<Rightarrow> bool" where
  "bucket_ok b \<longleftrightarrow> mwf (rb_entries b) \<and> USD_valid (rb_reserved b) = None \<and> USD_valid (rb_accounted b) = None
     \<and> (\<forall>i e. mget (rb_entries b) i = Some e \<longrightarrow> 0 \<le> usdUnits (en_reserved e) \<and> 0 \<le> usdUnits (en_accounted e))
     \<and> msum (\<lambda>e. usdUnits (en_reserved e)) (rb_entries b) \<le> usdUnits (rb_reserved b)
     \<and> msum (\<lambda>e. usdUnits (en_accounted e)) (rb_entries b) \<le> usdUnits (rb_accounted b)"

definition books :: "materializer \<Rightarrow> bool" where
  "books m \<longleftrightarrow> mwf (mz_buckets m) \<and> (\<forall>k b. mget (mz_buckets m) k = Some b \<longrightarrow> bucket_ok b)"

lemma booksD: "books m \<Longrightarrow> mget (mz_buckets m) k = Some b \<Longrightarrow> bucket_ok b"
  unfolding books_def by blast

lemma bucket_ok_entry:
  assumes "bucket_ok b" and "mget (rb_entries b) i = Some e"
  shows "0 \<le> usdUnits (en_reserved e)" "usdUnits (en_reserved e) \<le> usdUnits (rb_reserved b)"
    "0 \<le> usdUnits (en_accounted e)" "usdUnits (en_accounted e) \<le> usdUnits (rb_accounted b)"
    "USD_valid (en_reserved e) = None" "USD_valid (en_accounted e) = None"
proof -
  have "usdUnits (f e) \<le> msum (\<lambda>e. usdUnits (f e)) (rb_entries b)" if "\<And>i e. mget (rb_entries b) i = Some e \<Longrightarrow> 0 \<le> usdUnits (f e)" for f
  proof -
    have "0 \<le> msum (\<lambda>e. usdUnits (f e)) (mdel i (rb_entries b))"
      using that assms(1) by (intro msum_nonneg) (auto simp: bucket_ok_def mwf_def AList.delete_eq intro: map_of_is_SomeI)
    then show ?thesis using assms msum_mdel[of "rb_entries b" "\<lambda>e. usdUnits (f e)" i] by (simp add: bucket_ok_def)
  qed
  from this[of en_reserved] this[of en_accounted]
  show a: "0 \<le> usdUnits (en_reserved e)" "usdUnits (en_reserved e) \<le> usdUnits (rb_reserved b)"
    "0 \<le> usdUnits (en_accounted e)" "usdUnits (en_accounted e) \<le> usdUnits (rb_accounted b)"
    using assms by (auto simp: bucket_ok_def intro: order_trans)
  show "USD_valid (en_reserved e) = None" "USD_valid (en_accounted e) = None"
    using a assms(1) by (auto simp: bucket_ok_def USD_valid_None_iff)
qed

lemma bucket_ok_put:
  assumes "bucket_ok b" and "USD_valid r = None" "USD_valid a = None" "0 \<le> usdUnits (en_reserved e)" "0 \<le> usdUnits (en_accounted e)"
    and "usdUnits (en_reserved e) - osum (\<lambda>e. usdUnits (en_reserved e)) (mget (rb_entries b) i) \<le> usdUnits r - usdUnits (rb_reserved b)"
    and "usdUnits (en_accounted e) - osum (\<lambda>e. usdUnits (en_accounted e)) (mget (rb_entries b) i) \<le> usdUnits a - usdUnits (rb_accounted b)"
  shows "bucket_ok (b\<lparr>rb_reserved := r, rb_accounted := a, rb_amounts := am, rb_entries := mput i e (rb_entries b)\<rparr>)"
  using assms by (auto simp: bucket_ok_def msum_mput)

lemma sub_or_zero_exact:
  assumes "USD_valid a = None" and "USD_valid b = None" and "usdUnits b \<le> usdUnits a"
  shows "USD_valid (sub_or_zero a b) = None" "usdUnits (sub_or_zero a b) = usdUnits a - usdUnits b"
proof -
  obtain c where c: "USD_Sub a b = Inr c" using exact.sub_ok[of a b] assms by blast
  show "USD_valid (sub_or_zero a b) = None" "usdUnits (sub_or_zero a b) = usdUnits a - usdUnits b"
    using exact.sub_Inr[OF c] c by (simp_all add: sub_or_zero_def)
qed

lemma expire_entry_ok: "bucket_ok b \<Longrightarrow> mget (rb_entries b) i = Some e \<Longrightarrow> bucket_ok (expire_entry t (i, e) b)"
  using bucket_ok_entry[of b i e]
    sub_or_zero_exact[of "rb_reserved b" "en_reserved e"] sub_or_zero_exact[of "rb_accounted b" "en_accounted e"]
  by (auto simp: expire_entry_def bucket_ok_def msum_mdel)

lemma expire_fold:
  assumes "bucket_ok b" and "distinct (map fst xs)" and "\<forall>(i, e) \<in> set xs. mget (rb_entries b) i = Some e"
  shows "bucket_ok (fold (expire_entry t) xs b) \<and> mget (rb_entries (fold (expire_entry t) xs b)) i =
      (case mget (rb_entries b) i of None \<Rightarrow> None | Some e \<Rightarrow> if i \<in> fst ` set xs \<and> entry_expired t e then None else Some e)"
  using assms
proof (induction xs arbitrary: b)
  case (Cons x xs)
  obtain j e where x: "x = (j, e)" by (cases x)
  let ?b = "expire_entry t x b"
  have ok: "bucket_ok ?b" using expire_entry_ok[of b j e t] Cons.prems x by simp
  have g: "mget (rb_entries ?b) i' = (if i' = j \<and> entry_expired t e then None else mget (rb_entries b) i')" for i'
    using x by (simp add: expire_entry_def)
  have d: "distinct (map fst xs)" "\<forall>(i, e) \<in> set xs. mget (rb_entries ?b) i = Some e"
    using Cons.prems x g by force+
  show ?case using Cons.IH[OF ok d] g[of i] x Cons.prems by (auto split: option.splits)
qed (auto split: option.splits)

lemma expire_bucket_entries:
  assumes "bucket_ok b"
  shows "bucket_ok (expire_bucket t b)"
    and "mget (rb_entries (expire_bucket t b)) i = (case mget (rb_entries b) i of None \<Rightarrow> None | Some e \<Rightarrow> if entry_expired t e then None else Some e)"
proof -
  have d: "distinct (map fst (rb_entries b))" "\<forall>(i, e) \<in> set (rb_entries b). mget (rb_entries b) i = Some e"
    using assms by (auto simp: bucket_ok_def mwf_def intro: map_of_is_SomeI)
  show "bucket_ok (expire_bucket t b)" using expire_fold[OF assms d] by (simp add: expire_bucket_def)
  show "mget (rb_entries (expire_bucket t b)) i = (case mget (rb_entries b) i of None \<Rightarrow> None | Some e \<Rightarrow> if entry_expired t e then None else Some e)"
    using expire_fold[OF assms d, of t i] by (auto simp: expire_bucket_def split: option.splits dest: map_of_SomeD intro: rev_image_eqI)
qed

lemma expire_buckets:
  assumes "books m"
  shows "mget (mz_buckets (expire t m)) k = (case mget (mz_buckets m) k of None \<Rightarrow> None
    | Some b \<Rightarrow> if rb_entries (expire_bucket t b) = [] then None else Some (expire_bucket t b))"
proof -
  have w: "mwf (map (\<lambda>(k, b). (k, expire_bucket t b)) (mz_buckets m))"
    using assms by (simp add: books_def mwf_def case_prod_unfold comp_def)
  have "mget (map (\<lambda>(k, b). (k, expire_bucket t b)) (mz_buckets m)) k = map_option (expire_bucket t) (mget (mz_buckets m) k)"
    by (induction "mz_buckets m") (auto simp: map_of_map)
  then show ?thesis using mget_filter[OF w, of "\<lambda>k b. rb_entries b \<noteq> []" k] by (auto simp: expire_def split: option.splits)
qed

lemma expire_books: "books m \<Longrightarrow> books (expire t m)"
proof -
  assume m: "books m"
  have "mwf (mz_buckets (expire t m))"
    using m by (auto simp: expire_def books_def mwf_def case_prod_unfold comp_def intro!: distinct_map_filter)
  then show "books (expire t m)"
    using m expire_buckets[OF m] expire_bucket_entries(1) by (auto simp: books_def split: option.splits if_splits)
qed

lemma put_books: "books m \<Longrightarrow> bucket_ok b \<Longrightarrow> books (put_reference_bucket k b m)"
  by (auto simp: books_def put_reference_bucket_def)

lemma empty_bucket_ok: "bucket_ok (empty_bucket l)"
  by (simp add: bucket_ok_def empty_bucket_def USD_valid_None_iff maxUSDUnits_def)


section \<open>Windows\<close>

definition bucket_units :: "reference_bucket \<Rightarrow> int" where
  "bucket_units b = usdUnits (rb_reserved b) + usdUnits (rb_accounted b)"

definition window_units :: "materializer \<Rightarrow> string \<times> string \<Rightarrow> int" where
  "window_units m w = ksum (\<lambda>k b. if (fst k, fst (snd k)) = w then bucket_units b else 0) (mz_buckets m)"

abbreviation cn_window :: "canonical_reservation \<Rightarrow> string \<times> string" where
  "cn_window c \<equiv> (cn_policyID c, cn_windowID c)"

abbreviation cn_units :: "canonical_reservation \<Rightarrow> int" where
  "cn_units c \<equiv> usdUnits (cn_amountUSD c)"

lemma bucket_units_nonneg: "bucket_ok b \<Longrightarrow> 0 \<le> bucket_units b \<and> usdUnits (rb_reserved b) \<le> bucket_units b"
  by (auto simp: bucket_ok_def bucket_units_def USD_valid_None_iff)

lemma reserved_in_window:
  assumes "books m" and "mget (mz_buckets m) (cn_key c) = Some b"
  shows "usdUnits (rb_reserved b) \<le> window_units m (cn_window c)"
proof -
  let ?f = "\<lambda>k b. if (fst k, fst (snd k)) = cn_window c then bucket_units b else 0"
  have "0 \<le> ?f k b'" if "(k, b') \<in> set (mz_buckets m)" for k b'
  proof -
    have "mget (mz_buckets m) k = Some b'" using that assms(1) by (simp add: books_def mwf_def map_of_is_SomeI)
    then have "bucket_ok b'" using assms(1) unfolding books_def by blast
    then show ?thesis using bucket_units_nonneg[of b'] by simp
  qed
  then have "?f (cn_key c) b \<le> ksum ?f (mz_buckets m)" by (rule ksum_member_le[OF _ assms(2)])
  moreover have "usdUnits (rb_reserved b) \<le> bucket_units b" using bucket_units_nonneg[of b] assms unfolding books_def by blast
  ultimately show ?thesis by (simp add: cn_key_def window_units_def)
qed

lemma active_sum:
  "foldE (active_add w) z kbs = Inr a \<Longrightarrow> usdUnits a = usdUnits z + ksum (\<lambda>k b. if (fst k, fst (snd k)) = w then bucket_units b else 0) kbs"
proof (induction kbs arbitrary: z)
  case (Cons x kbs)
  then obtain y where y: "active_add w z x = Inr y" "foldE (active_add w) y kbs = Inr a" by (auto split: sum.splits)
  obtain p v n b where x: "x = ((p, v, n), b)" using prod_cases4 by (metis surj_pair)
  have "usdUnits y = usdUnits z + (if (p, v) = w then bucket_units b else 0)"
    using y(1) x exact.total_Inr(1)[of z "[rb_reserved b, rb_accounted b]" y]
    by (cases w) (auto simp: active_add_def bucket_units_def split: if_splits)
  then show ?case using Cons.IH[OF y(2)] x by simp
qed simp

lemma zero_usd: "usdUnits (the (MustUSD ''0'')) = 0" by code_simp

lemma window_active_units: "window_active m w = Inr a \<Longrightarrow> usdUnits a = window_units m w"
  using active_sum[of w "the (MustUSD ''0'')" "mz_buckets m" a] by (simp add: window_active_def window_units_def zero_usd)

text \<open>What the checks have established for the reservations they have seen.\<close>

definition staged_at :: "materializer \<Rightarrow> canonical_reservation list \<Rightarrow> string \<times> string \<Rightarrow> usd \<Rightarrow> usd \<Rightarrow> bool" where
  "staged_at m cs w a l \<longleftrightarrow> usdUnits a \<le> usdUnits l \<and> usdUnits a = window_units m w + (\<Sum>c\<leftarrow>cs. if cn_window c = w then cn_units c else 0)
     \<and> (\<forall>c \<in> set cs. cn_window c = w \<longrightarrow> usdUnits (cn_limitUSD c) = usdUnits l)"

definition fits :: "materializer \<Rightarrow> canonical_reservation \<Rightarrow> bool" where
  "fits m c \<longleftrightarrow> USD_valid (cn_amountUSD c) = None \<and> window_units m (cn_window c) + cn_units c \<le> maxUSDUnits"

definition staged_ok :: "materializer \<Rightarrow> canonical_reservation list \<Rightarrow> staged_windows \<Rightarrow> bool" where
  "staged_ok m cs st \<longleftrightarrow> (\<forall>w a. mget (fst st) w = Some a \<longrightarrow> (\<exists>l. mget (snd st) w = Some l \<and> staged_at m cs w a l))
     \<and> (\<forall>c \<in> set cs. mget (fst st) (cn_window c) \<noteq> None \<and> fits m c)"

lemma staged_okD: "staged_ok m cs st \<Longrightarrow> mget (fst st) w = Some a \<Longrightarrow> \<exists>l. mget (snd st) w = Some l \<and> staged_at m cs w a l"
  unfolding staged_ok_def by blast

lemma staged_unseen: "staged_ok m cs st \<Longrightarrow> mget (fst st) w = None \<Longrightarrow> c \<in> set cs \<Longrightarrow> cn_window c \<noteq> w"
  unfolding staged_ok_def by metis

lemma staged_sum_zero: "staged_ok m cs st \<Longrightarrow> mget (fst st) w = None \<Longrightarrow> (\<Sum>c\<leftarrow>cs. if cn_window c = w then cn_units c else 0) = 0"
proof -
  assume "staged_ok m cs st" "mget (fst st) w = None"
  then have "(\<Sum>c\<leftarrow>cs. if cn_window c = w then cn_units c else 0) = (\<Sum>c\<leftarrow>cs. 0)"
    using staged_unseen by (intro arg_cong[where f = sum_list] map_cong) auto
  then show ?thesis by simp
qed

lemma stage_window_ok:
  assumes "stage_window c st a = Inr st'" and "0 < cn_units c" and "staged_ok m cs st"
    and n: "0 \<le> (\<Sum>d\<leftarrow>cs. if cn_window d = cn_window c then cn_units d else 0)"
    and s: "usdUnits a = window_units m (cn_window c) + (\<Sum>d\<leftarrow>cs. if cn_window d = cn_window c then cn_units d else 0)"
    and "\<forall>d \<in> set cs. cn_window d = cn_window c \<longrightarrow> usdUnits (cn_limitUSD d) = usdUnits (cn_limitUSD c)"
  shows "staged_ok m (cs @ [c]) st'"
proof -
  obtain b where b: "USD_Add a (cn_amountUSD c) = Inr b" "st' = (mput (cn_window c) b (fst st), mput (cn_window c) (cn_limitUSD c) (snd st))"
    "\<not> USD_Cmp (cn_amountUSD c) (USD_SubOrZero (cn_limitUSD c) a) > 0"
    using assms(1) by (auto simp: stage_window_def Let_def split: if_splits sum.splits)
  note add = exact.add_Inr[OF b(1)]
  have "cn_units c \<le> usdUnits (USD_SubOrZero (cn_limitUSD c) a)" using b(3) by (simp add: USD_Cmp_iffs)
  then have l: "usdUnits b \<le> usdUnits (cn_limitUSD c)"
    using assms(2) add(4) exact.sub_Inr(4) by (fastforce simp: USD_SubOrZero_def split: sum.splits)
  have "usdUnits b \<le> maxUSDUnits" using add(3) by (simp add: USD_valid_None_iff)
  then have f: "fits m c" using add(2,4) s n by (simp add: fits_def)
  have at: "staged_at m (cs @ [c]) (cn_window c) b (cn_limitUSD c)" using add(4) l s assms(6) by (simp add: staged_at_def)
  have other: "staged_at m (cs @ [c]) w d e \<longleftrightarrow> staged_at m cs w d e" if "w \<noteq> cn_window c" for w d e
    using that by (auto simp: staged_at_def)
  have "\<exists>e. mget (snd st') w = Some e \<and> staged_at m (cs @ [c]) w d e" if "mget (fst st') w = Some d" for w d
    using that at other[of w d] staged_okD[OF assms(3), of w d] b(2) by (cases "w = cn_window c") simp_all
  moreover have "mget (fst st') (cn_window d) \<noteq> None \<and> fits m d" if "d \<in> set (cs @ [c])" for d
    using that f assms(3) b(2) by (cases "cn_window d = cn_window c") (auto simp: staged_ok_def)
  ultimately show ?thesis unfolding staged_ok_def by blast
qed

lemma check_window_ok:
  assumes "check_window m st c = Inr st'" and "0 < cn_units c" and "staged_ok m cs st" and "\<forall>d \<in> set cs. 0 < cn_units d"
  shows "staged_ok m (cs @ [c]) st'"
proof -
  have n: "0 \<le> (\<Sum>d\<leftarrow>cs. if cn_window d = cn_window c then cn_units d else 0)"
    using assms(4) by (intro sum_list_nonneg) (auto simp: less_imp_le)
  show ?thesis
  proof (cases "mget (fst st) (cn_window c)")
    case None
    then obtain a where a: "window_active m (cn_window c) = Inr a" "stage_window c st a = Inr st'"
      using assms(1) by (auto simp: check_window_def Let_def split: sum.splits)
    show ?thesis
      using stage_window_ok[OF a(2) assms(2,3) n] window_active_units[OF a(1)] staged_sum_zero[OF assms(3) None]
        staged_unseen[OF assms(3) None] by auto
  next
    case (Some a)
    obtain l where l: "mget (snd st) (cn_window c) = Some l" "staged_at m cs (cn_window c) a l"
      using staged_okD[OF assms(3) Some] by blast
    have s: "stage_window c st a = Inr st'" "usdUnits l = usdUnits (cn_limitUSD c)"
      using assms(1) Some l(1) by (auto simp: check_window_def Let_def mgetd_def USD_Cmp_iffs split: if_splits)
    then show ?thesis using stage_window_ok[OF s(1) assms(2,3) n] l(2) by (simp add: staged_at_def)
  qed
qed

lemma checks_ok:
  assumes "foldE (check_window m) st ds = Inr st'" and "\<forall>c \<in> set (cs @ ds). 0 < cn_units c" and "staged_ok m cs st"
  shows "staged_ok m (cs @ ds) st'"
  using assms
proof (induction ds arbitrary: st cs)
  case (Cons d ds)
  then obtain st1 where s: "check_window m st d = Inr st1" "foldE (check_window m) st1 ds = Inr st'" by (auto split: sum.splits)
  have "staged_ok m (cs @ [d]) st1" using check_window_ok[OF s(1)] Cons.prems by simp
  then show ?case using Cons.IH[OF s(2), of "cs @ [d]"] Cons.prems(2) by simp
qed simp

lemma all_checks_ok: "foldE (check_window m) ([], []) cs = Inr st \<Longrightarrow> \<forall>c \<in> set cs. 0 < cn_units c \<Longrightarrow> staged_ok m cs st"
  using checks_ok[of m "([], [])" cs st "[]"] by (simp add: staged_ok_def)


section \<open>Booking\<close>

definition bucket_at :: "materializer \<Rightarrow> canonical_reservation \<Rightarrow> reference_bucket" where
  "bucket_at m c = (case mget (mz_buckets m) (cn_key c) of None \<Rightarrow> empty_bucket (cn_limitUSD c) | Some b \<Rightarrow> b)"

definition room :: "materializer \<Rightarrow> canonical_reservation \<Rightarrow> bool" where
  "room m c \<longleftrightarrow> USD_valid (cn_amountUSD c) = None \<and> usdUnits (rb_reserved (bucket_at m c)) + cn_units c \<le> maxUSDUnits"

lemma bucket_at_ok: "books m \<Longrightarrow> bucket_ok (bucket_at m c)"
  using empty_bucket_ok booksD[of m "cn_key c"] by (cases "mget (mz_buckets m) (cn_key c)") (simp_all add: bucket_at_def)

lemma fits_room: "books m \<Longrightarrow> fits m c \<Longrightarrow> room m c"
  using reserved_in_window[of m c]
  by (cases "mget (mz_buckets m) (cn_key c)") (force simp: room_def fits_def bucket_at_def empty_bucket_def USD_valid_None_iff)+

lemma window_units_put:
  assumes "books m"
  shows "window_units (put_reference_bucket (cn_key c) b m) w = window_units m w + (if cn_window c = w then bucket_units b - bucket_units (bucket_at m c) else 0)"
proof -
  have "mwf (mz_buckets m)" using assms by (simp add: books_def)
  then show ?thesis
    unfolding window_units_def put_reference_bucket_def bucket_at_def
    by (cases "mget (mz_buckets m) (cn_key c)") (simp_all add: ksum_mput cn_key_def empty_bucket_def bucket_units_def)
qed

lemma book_window_cases:
  assumes "books m" and "room m c"
  obtains (refused) b e where "book_window env t q (m, oper) c = ((put_reference_bucket (cn_key c) b m, oper), Some e)" "bucket_ok b"
  | (booked) b oper' where "book_window env t q (m, oper) c = ((put_reference_bucket (cn_key c) b m, oper'), None)" "bucket_ok b"
      "bucket_units b = bucket_units (bucket_at m c) + cn_units c"
proof -
  let ?b = "bucket_at m c" and ?i = "rq_OperationID q"
  have ok: "bucket_ok ?b" by (rule bucket_at_ok[OF assms(1)])
  obtain r where r: "USD_Add (rb_reserved ?b) (cn_amountUSD c) = Inr r"
    using exact.add_ok[of "rb_reserved ?b" "cn_amountUSD c"] ok assms(2) by (auto simp: room_def bucket_ok_def)
  note add = exact.add_Inr[OF r]
  have n: "0 \<le> cn_units c" using add(2) by (simp add: USD_valid_None_iff)
  show thesis
  proof (cases "ReservationEvent_Validate (reservation_event_of env t q c)")
    case (Some e)
    then show thesis using refused[of ?b ErrDetail] ok by (simp add: book_window_def Let_def bucket_at_def)
  next
    case None
    show thesis
    proof (cases "USD_Add (mgetd (USD None) (rb_amounts ?b) ?i) (cn_amountUSD c)")
      case (Inl e)
      then show thesis using refused[of "?b\<lparr>rb_reserved := r, rb_amounts := mput ?i (USD None) (rb_amounts ?b)\<rparr>" ErrDetail] None r ok add n
        by (auto simp: book_window_def Let_def bucket_at_def bucket_ok_def)
    next
      case (Inr a)
      define entry where "entry = \<lparr>en_reserved = cn_amountUSD c, en_accounted = USD None,
        en_expiresAt = (if \<not> IsZero (rq_ExpiresAt q) \<and> rq_ExpiresAt q < ro_startBy oper then rq_ExpiresAt q else ro_startBy oper),
        en_status = ReferenceReserved, en_lastRevision = 1\<rparr>"
      let ?b' = "?b\<lparr>rb_reserved := r, rb_accounted := rb_accounted ?b, rb_amounts := mput ?i a (rb_amounts ?b), rb_entries := mput ?i entry (rb_entries ?b)\<rparr>"
      have "0 \<le> osum (\<lambda>e. usdUnits (f e)) (mget (rb_entries ?b) ?i)" if "f = en_reserved \<or> f = en_accounted" for f
        using that ok bucket_ok_entry(1,3) by (cases "mget (rb_entries ?b) ?i") auto
      from this[of en_reserved] this[of en_accounted] have "bucket_ok ?b'"
        using ok add n by (intro bucket_ok_put) (auto simp: entry_def bucket_ok_def)
      then show thesis using booked[of ?b'] None Inr r add
        by (auto simp: book_window_def Let_def bucket_at_def bucket_units_def entry_def)
    qed
  qed
qed

lemma put_elsewhere: "cn_key d \<noteq> cn_key c \<Longrightarrow> bucket_at (put_reference_bucket (cn_key c) b m) d = bucket_at m d"
  by (simp add: bucket_at_def put_reference_bucket_def)

lemma booking_effect:
  assumes "books m" and "\<forall>c \<in> set cs. room m c" and "distinct (map cn_key cs)"
  shows "books (fst (fst (loopE (book_window env t q) (m, oper) cs)))
    \<and> (snd (loopE (book_window env t q) (m, oper) cs) = None \<longrightarrow>
       window_units (fst (fst (loopE (book_window env t q) (m, oper) cs))) w = window_units m w + (\<Sum>c\<leftarrow>cs. if cn_window c = w then cn_units c else 0))"
  using assms
proof (induction cs arbitrary: m oper)
  case (Cons c cs)
  have "room m c" using Cons.prems(2) by simp
  with Cons.prems(1) show ?case
  proof (cases rule: book_window_cases[where env = env and t = t and q = q and oper = oper])
    case (refused b e)
    then show ?thesis using Cons.prems(1) by (simp add: put_books)
  next
    case (booked b oper')
    let ?m = "put_reference_bucket (cn_key c) b m"
    have "room ?m d" if "d \<in> set cs" for d
    proof -
      have "cn_key d \<noteq> cn_key c" using that Cons.prems(3) by (auto simp: rev_image_eqI)
      then show ?thesis using that Cons.prems(2) put_elsewhere[of d c b m] by (simp add: room_def)
    qed
    then have "books (fst (fst (loopE (book_window env t q) (?m, oper') cs))) \<and> (snd (loopE (book_window env t q) (?m, oper') cs) = None \<longrightarrow>
       window_units (fst (fst (loopE (book_window env t q) (?m, oper') cs))) w = window_units ?m w + (\<Sum>c\<leftarrow>cs. if cn_window c = w then cn_units c else 0))"
      using Cons.IH[of ?m oper'] put_books[OF Cons.prems(1) booked(2)] Cons.prems(3) by simp
    moreover have "loopE (book_window env t q) (m, oper) (c # cs) = loopE (book_window env t q) (?m, oper') cs" using booked(1) by simp
    moreover have "window_units ?m w = window_units m w + (if cn_window c = w then cn_units c else 0)"
      using window_units_put[OF Cons.prems(1), of c b w] booked(3) by simp
    ultimately show ?thesis by (simp only: list.map sum_list.Cons add.assoc, blast)
  qed
qed simp

section \<open>Acceptance\<close>

lemma referenceAmount_nonneg: "referenceAmount x l = Inr u \<Longrightarrow> 0 \<le> usdUnits u"
  by (auto simp: referenceAmount_def USDFromMicro_def USD_valid_None_iff MicroUSD_Valid_def usdScaleFactor_def sdiv_nonneg split: if_splits sum.splits)

lemma canonical_step_ok:
  assumes "canonical_step cs v = Inr cs'" and "\<forall>c \<in> set cs. 0 < cn_units c" and "distinct (map cn_key cs)"
  shows "(\<forall>c \<in> set cs'. 0 < cn_units c) \<and> distinct (map cn_key cs')"
proof -
  obtain a c where c: "cs' = cs @ [c]" "cn_key c \<notin> set (map cn_key cs)" "cn_amountUSD c = a" "referenceAmount (r_AmountUSD v) (r_Amount v) = Inr a" "\<not> USD_IsZero a"
    using assms(1) by (auto simp: canonical_step_def Let_def cn_key_def bindE_eq_Inr_iff split: if_splits)
  then show ?thesis using assms(2,3) referenceAmount_nonneg[OF c(4)] by (auto simp: USD_IsZero_iff)
qed

lemma canonical_ok:
  assumes "canonicalReferenceReservations vs = Inr cs"
  shows "\<forall>c \<in> set cs. 0 < cn_units c" and "distinct (map cn_key cs)"
proof -
  obtain ds where d: "foldE canonical_step [] vs = Inr ds" "cs = sort_key cn_key ds"
    using assms by (auto simp: canonicalReferenceReservations_def bindE_eq_Inr_iff)
  have "(\<forall>c \<in> set ds. 0 < cn_units c) \<and> distinct (map cn_key ds)"
    by (rule foldE_invariant[OF d(1)]) (auto dest: canonical_step_ok)
  then show "\<forall>c \<in> set cs. 0 < cn_units c" "distinct (map cn_key cs)"
    using d(2) by (auto simp: distinct_map)
qed

lemma accept_new_books:
  assumes "books m" and "\<forall>c \<in> set cs. 0 < cn_units c" and "distinct (map cn_key cs)"
  shows "books (snd (accept_new env t q cs fp m))"
proof (cases "foldE (check_window m) ([], []) cs")
  case (Inr st)
  have "\<forall>c \<in> set cs. room m c" using all_checks_ok[OF Inr assms(2)] fits_room[OF assms(1)] by (auto simp: staged_ok_def)
  note e = booking_effect[OF assms(1) this assms(3), of env t q "accepted_operation t q (mz_incarnation m) fp" undefined, THEN conjunct1]
  obtain m1 oper r where l: "loopE (book_window env t q) (m, accepted_operation t q (mz_incarnation m) fp) cs = ((m1, oper), r)" by (metis surj_pair)
  have "books (m1\<lparr>mz_operations := x\<rparr>)" "books m1" for x using e l by (simp_all add: books_def)
  then show ?thesis using Inr l by (cases r) (simp_all add: accept_new_def)
qed (use assms(1) in \<open>auto simp: accept_new_def split: sum.splits\<close>)

lemma Accept_books: "books m \<Longrightarrow> books (snd (Accept env ctx t q m))"
  by (auto simp: Accept_def accept_locked_def expire_books canonical_ok intro!: accept_new_books split: option.splits sum.splits)

lemma accept_new_accepted:
  assumes "books m" and "\<forall>c \<in> set cs. 0 < cn_units c" and "distinct (map cn_key cs)"
    and "accept_new env t q cs fp m = (Inr r, m')" and "rs_Accepted r"
  shows "window_units m' w = window_units m w + (\<Sum>c\<leftarrow>cs. if cn_window c = w then cn_units c else 0)"
    and "c \<in> set cs \<Longrightarrow> window_units m' (cn_window c) \<le> usdUnits (cn_limitUSD c)"
proof -
  obtain st m1 oper where h: "foldE (check_window m) ([], []) cs = Inr st" "m' = m1\<lparr>mz_operations := mput (rq_OperationID q) oper (mz_operations m1)\<rparr>"
    "loopE (book_window env t q) (m, accepted_operation t q (mz_incarnation m) fp) cs = ((m1, oper), None)"
    using assms(4,5) by (auto simp: accept_new_def denied_result_def zero_result_def split: sum.splits prod.splits option.splits)
  note ok = all_checks_ok[OF h(1) assms(2)]
  have "\<forall>c \<in> set cs. room m c" using ok fits_room[OF assms(1)] by (auto simp: staged_ok_def)
  from booking_effect[OF assms(1) this assms(3), of env t q "accepted_operation t q (mz_incarnation m) fp" w]
  show u: "window_units m' w = window_units m w + (\<Sum>c\<leftarrow>cs. if cn_window c = w then cn_units c else 0)" for w
    using booking_effect[OF assms(1) \<open>\<forall>c \<in> set cs. room m c\<close> assms(3), of env t q "accepted_operation t q (mz_incarnation m) fp" w] h(2,3)
    by (simp add: window_units_def)
  assume c: "c \<in> set cs"
  then obtain a where a: "mget (fst st) (cn_window c) = Some a" using ok unfolding staged_ok_def by blast
  then obtain l where "staged_at m cs (cn_window c) a l" using staged_okD[OF ok a] by blast
  then show "window_units m' (cn_window c) \<le> usdUnits (cn_limitUSD c)" using u[of "cn_window c"] c by (simp add: staged_at_def)
qed

end
