(* ===== verification/Reference_Budget_Runs.thy ===== *)
theory Reference_Budget_Runs
  imports Reference_Budget_Books
begin

text \<open>
  The properties of the reference materializer that hold in every state reached by any calls: buckets cover their entries, acceptances respect limits, and a
  claimed reservation is held until its own settlement. Also a call that fails half way.
\<close>

section \<open>Settlements and claims keep the books\<close>

definition moves :: "reference_bucket \<times> reference_entry \<Rightarrow> reference_bucket \<times> reference_entry \<Rightarrow> bool" where
  "moves x y \<longleftrightarrow> rb_entries (fst y) = rb_entries (fst x) \<and> USD_valid (rb_reserved (fst y)) = None \<and> USD_valid (rb_accounted (fst y)) = None
     \<and> 0 \<le> usdUnits (en_reserved (snd y)) \<and> 0 \<le> usdUnits (en_accounted (snd y))
     \<and> usdUnits (rb_reserved (fst y)) - usdUnits (rb_reserved (fst x)) = usdUnits (en_reserved (snd y)) - usdUnits (en_reserved (snd x))
     \<and> usdUnits (rb_accounted (fst y)) - usdUnits (rb_accounted (fst x)) = usdUnits (en_accounted (snd y)) - usdUnits (en_accounted (snd x))"

lemma usd_step_Sub: "usd_step USD_Sub a d = Inr c \<Longrightarrow> USD_valid c = None \<and> 0 \<le> usdUnits c \<and> usdUnits c = usdUnits a - usdUnits d"
  using exact.sub_Inr[of a d c] by (auto simp: usd_step_def USD_valid_None_iff split: sum.splits)

lemma usd_step_Add: "usd_step USD_Add a d = Inr c \<Longrightarrow> USD_valid c = None \<and> 0 \<le> usdUnits c \<and> usdUnits c = usdUnits a + usdUnits d"
  using exact.add_Inr[of a d c] by (auto simp: usd_step_def USD_valid_None_iff split: sum.splits)

lemma reserved_decrease_moves: "moves x y \<Longrightarrow> reserved_decrease d y = Inr z \<Longrightarrow> moves x z"
  by (cases y) (auto simp: reserved_decrease_def moves_def bindE_eq_Inr_iff dest!: usd_step_Sub split: if_splits)

lemma accounted_change_moves:
  "moves x y \<Longrightarrow> accounted_change USD_Add d y = Inr z \<Longrightarrow> moves x z"
  "moves x y \<Longrightarrow> accounted_change USD_Sub d y = Inr z \<Longrightarrow> moves x z"
  by (cases y, auto simp: accounted_change_def moves_def bindE_eq_Inr_iff dest!: usd_step_Sub usd_step_Add split: if_splits)+

lemma applyReferenceCompletion_split:
  assumes "applyReferenceCompletion b i e event = Inr (b', e')"
  obtains y z b3 where "reserved_decrease (ce_ReservedDecreaseUSD event) (b, e) = Inr y" "accounted_change USD_Add (ce_AccountedIncreaseUSD event) y = Inr z"
    "accounted_change USD_Sub (ce_AccountedDecreaseUSD event) z = Inr (b3, e')" "\<exists>a. b' = b3\<lparr>rb_amounts := a\<rparr>"
proof -
  obtain y where y: "reserved_decrease (ce_ReservedDecreaseUSD event) (b, e) = Inr y"
    using assms by (cases "reserved_decrease (ce_ReservedDecreaseUSD event) (b, e)") (simp_all add: applyReferenceCompletion_def)
  obtain z where z: "accounted_change USD_Add (ce_AccountedIncreaseUSD event) y = Inr z"
    using assms y by (cases "accounted_change USD_Add (ce_AccountedIncreaseUSD event) y") (simp_all add: applyReferenceCompletion_def)
  obtain b3 e3 where x: "accounted_change USD_Sub (ce_AccountedDecreaseUSD event) z = Inr (b3, e3)"
    using assms y z by (cases "accounted_change USD_Sub (ce_AccountedDecreaseUSD event) z") (auto simp: applyReferenceCompletion_def)
  have "e3 = e'" "\<exists>a. b' = b3\<lparr>rb_amounts := a\<rparr>" using assms y z x by (auto simp: applyReferenceCompletion_def split: if_splits)
  then show thesis using that y z x by blast
qed

lemma step_entries:
  "reserved_decrease d x = Inr y \<Longrightarrow> rb_entries (fst y) = rb_entries (fst x)"
  "accounted_change f d x = Inr y \<Longrightarrow> rb_entries (fst y) = rb_entries (fst x)"
  by (cases x, auto simp: reserved_decrease_def accounted_change_def bindE_eq_Inr_iff split: if_splits)+

lemma applyReferenceCompletion_entries:
  assumes "applyReferenceCompletion b i e event = Inr (b', e')"
  shows "rb_entries b' = rb_entries b"
  using assms by (rule applyReferenceCompletion_split) (auto dest!: step_entries)

lemma applyReferenceCompletion_moves:
  assumes "moves (b, e) (b, e)" and "applyReferenceCompletion b i e event = Inr (b', e')"
  shows "moves (b, e) (b', e')"
proof -
  from assms(2) show ?thesis
  proof (rule applyReferenceCompletion_split)
    fix y z b3
    assume s: "reserved_decrease (ce_ReservedDecreaseUSD event) (b, e) = Inr y" "accounted_change USD_Add (ce_AccountedIncreaseUSD event) y = Inr z"
      "accounted_change USD_Sub (ce_AccountedDecreaseUSD event) z = Inr (b3, e')" "\<exists>a. b' = b3\<lparr>rb_amounts := a\<rparr>"
    have "moves (b, e) (b3, e')"
      by (rule accounted_change_moves(2)[OF accounted_change_moves(1)[OF reserved_decrease_moves[OF assms(1) s(1)] s(2)] s(3)])
    then show ?thesis using s(4) by (auto simp: moves_def)
  qed
qed

lemma settled_entry_amounts [simp]:
  "en_reserved (settled_entry event v e) = en_reserved e" "en_accounted (settled_entry event v e) = en_accounted e"
  by (cases "ce_Kind event"; simp add: settled_entry_def)+

lemma settlement_bucket_ok:
  assumes "bucket_ok b" and "mget (rb_entries b) i = Some e" and "applyReferenceCompletion b i e event = Inr (b', e')"
  shows "bucket_ok (b'\<lparr>rb_entries := mput i (settled_entry event v e') (rb_entries b')\<rparr>)"
proof -
  have "moves (b, e) (b, e)" using assms(1) bucket_ok_entry(1,3)[OF assms(1,2)] by (simp add: moves_def bucket_ok_def)
  from applyReferenceCompletion_moves[OF this assms(3)]
  show ?thesis using assms(1,2) by (auto simp: moves_def bucket_ok_def msum_mput)
qed

definition staged_books :: "materializer \<Rightarrow> staged \<Rightarrow> bool" where
  "staged_books m st \<longleftrightarrow> mwf (sg_buckets st) \<and> (\<forall>k b. mget (sg_buckets st) k = Some b \<longrightarrow> bucket_ok b)"

lemma settle_reservation_cases:
  assumes "settle_reservation env m i event k v st = Inr st'"
  obtains b e b' e' where "staged_bucket m st k = Some b" "mget (rb_entries b) i = Some e" "applyReferenceCompletion b i e event = Inr (b', e')"
    "sg_buckets st' = mput k (b'\<lparr>rb_entries := mput i (settled_entry event v e') (rb_entries b')\<rparr>) (sg_buckets st)"
  using assms by (auto simp: settle_reservation_def Let_def bindE_eq_Inr_iff split: if_splits option.splits)

lemma reconcile_event_cases:
  assumes "reconcile_event env m i st event = Inr st'"
  obtains "st' = st" | k v where "settle_reservation env m i event k v st = Inr st'"
proof (cases "mget (ro_events (sg_operation st)) (ce_EventID event)")
  case (Some f)
  then show thesis using assms that(1) by (simp add: reconcile_event_def split: if_splits)
next
  case None
  then obtain k v where "matching_reservations event (sg_operation st) = [(k, v)]"
    using assms by (simp add: reconcile_event_def split: list.splits prod.splits)
  then show thesis using assms None that(2)[of k v] by (simp add: reconcile_event_def)
qed

lemma staged_booksD: "staged_books m st \<Longrightarrow> mget (sg_buckets st) k = Some b \<Longrightarrow> bucket_ok b"
  unfolding staged_books_def by blast

lemma staged_bucket_ok: "books m \<Longrightarrow> staged_books m st \<Longrightarrow> staged_bucket m st k = Some b \<Longrightarrow> bucket_ok b"
  by (cases "mget (sg_buckets st) k") (auto simp: staged_bucket_def intro: booksD staged_booksD)

lemma staged_books_put: "staged_books m st \<Longrightarrow> bucket_ok b \<Longrightarrow> sg_buckets st' = mput k b (sg_buckets st) \<Longrightarrow> staged_books m st'"
  unfolding staged_books_def by auto

lemma reconcile_event_books:
  assumes "books m" and "staged_books m st" and "reconcile_event env m i st event = Inr st'"
  shows "staged_books m st'"
  using assms(3)
proof (cases rule: reconcile_event_cases)
  case (2 k v)
  from 2 show ?thesis
  proof (cases rule: settle_reservation_cases)
    case (1 b e b' e')
    have "bucket_ok b" by (rule staged_bucket_ok[OF assms(1,2) 1(1)])
    from settlement_bucket_ok[OF this 1(2,3)] show ?thesis by (rule staged_books_put[OF assms(2) _ 1(4)])
  qed
qed (use assms(2) in simp)

lemma mget_fold_mput: "mwf xs \<Longrightarrow> mget (fold (\<lambda>(k, b). mput k b) xs m) k = (case mget xs k of None \<Rightarrow> mget m k | Some b \<Rightarrow> Some b)"
proof (induction xs arbitrary: m)
  case (Cons x xs)
  obtain j b where x: "x = (j, b)" by (cases x)
  have "j \<notin> fst ` set xs" "mwf xs" using Cons.prems x by (simp_all add: mwf_def)
  moreover from this have "mget xs j = None" by (simp add: map_of_eq_None_iff)
  ultimately show ?case using Cons.IH x by (auto split: option.splits)
qed simp

lemma mwf_fold_mput: "mwf m \<Longrightarrow> mwf (fold (\<lambda>(k, b). mput k b) xs m)"
  by (induction xs arbitrary: m) (auto simp: case_prod_unfold)

lemma Reconcile_books: "books m \<Longrightarrow> books (snd (Reconcile env ctx t q m))"
proof -
  assume m: "books m"
  note e = expire_books[OF m, of t]
  have "books (publish_staged (rn_OperationID q) st (expire t m))"
    if f: "foldE (reconcile_event env (expire t m) (rn_OperationID q)) \<lparr>sg_operation = oper, sg_buckets = [], sg_seen = []\<rparr> es = Inr st" for st oper es
  proof -
    have "staged_books (expire t m) st"
      by (rule foldE_invariant[OF f]) (simp add: staged_books_def, rule reconcile_event_books[OF e])
    then show ?thesis
      using e unfolding staged_books_def books_def publish_staged_def by (auto simp: mget_fold_mput mwf_fold_mput simp del: split_paired_All split: option.splits)
  qed
  then show ?thesis using m e by (auto simp: Reconcile_def Let_def split: option.splits sum.splits)
qed

lemma claim_entry_books: "books m \<Longrightarrow> books (claim_entry i k m)"
proof -
  assume m: "books m"
  have "bucket_ok (b\<lparr>rb_entries := mput i (e\<lparr>en_expiresAt := zero_time\<rparr>) (rb_entries b)\<rparr>)"
    if "mget (mz_buckets m) k = Some b" "mget (rb_entries b) i = Some e" for b e
    using booksD[OF m that(1)] that(2) by (auto simp: bucket_ok_def msum_mput)
  then show ?thesis using m by (auto simp: claim_entry_def intro: put_books split: option.splits)
qed

lemma Claim_books: "books m \<Longrightarrow> books (snd (Claim_reference ctx t q m))"
proof -
  assume m: "books m"
  have "books (fold (claim_entry i) ks n)" if "books n" for i ks n
    using that claim_entry_books by (induction ks arbitrary: n) simp_all
  from this[OF m] have "books ((fold (claim_entry i) ks m)\<lparr>mz_operations := x\<rparr>)" for i ks x by (simp add: books_def)
  then show ?thesis using m by (cases rule: Claim_cases[of ctx t q m]) simp_all
qed

lemma run_books: "reference_run env P m m' \<Longrightarrow> books m \<Longrightarrow> books m'"
  by (induction rule: reference_run.induct) (auto intro: Accept_books Claim_books Reconcile_books)

lemma new_books: "NewReferenceBudgetMaterializer g i = Inr m \<Longrightarrow> books m"
  by (auto simp: NewReferenceBudgetMaterializer_def books_def)


section \<open>A claimed reservation is held\<close>

definition held :: "string \<Rightarrow> reference_key \<Rightarrow> usd \<Rightarrow> materializer \<Rightarrow> bool" where
  "held i k a m \<longleftrightarrow> (\<exists>b e. mget (mz_buckets m) k = Some b \<and> mget (rb_entries b) i = Some e \<and> IsZero (en_expiresAt e) \<and> en_reserved e = a)"

lemma held_same: "mz_buckets m' = mz_buckets m \<Longrightarrow> held i k a m' = held i k a m"
  by (simp add: held_def)

lemma held_expire:
  assumes "books m" and "held i k a m"
  shows "held i k a (expire t m)"
proof -
  obtain b e where b: "mget (mz_buckets m) k = Some b" "mget (rb_entries b) i = Some e" "IsZero (en_expiresAt e)" "en_reserved e = a"
    using assms(2) by (auto simp: held_def)
  have e: "mget (rb_entries (expire_bucket t b)) i = Some e"
    using expire_bucket_entries(2)[OF booksD[OF assms(1) b(1)], of t i] b by (simp add: entry_expired_def)
  then have "rb_entries (expire_bucket t b) \<noteq> []" by auto
  then show ?thesis using expire_buckets[OF assms(1), of t k] b e by (simp add: held_def)
qed

lemma held_put:
  assumes "held i k a m" and "\<And>b0. k' = k \<Longrightarrow> mget (mz_buckets m) k = Some b0 \<Longrightarrow> mget (rb_entries b) i = mget (rb_entries b0) i"
  shows "held i k a (put_reference_bucket k' b m)"
  using assms by (cases "k' = k") (auto simp: held_def put_reference_bucket_def)

lemma held_book_window:
  assumes "held i k a (fst st)" and "rq_OperationID q \<noteq> i"
  shows "held i k a (fst (fst (book_window env t q st c)))"
  using assms by (cases st) (auto simp: book_window_def Let_def intro!: held_put split: sum.splits)

lemma held_Accept:
  assumes "books m" and "held i k a m" and "mget (mz_operations m) i \<noteq> None"
  shows "held i k a (snd (Accept env ctx t q m))"
proof -
  let ?m = "expire t m"
  have h: "held i k a ?m" by (rule held_expire[OF assms(1,2)])
  have n: "mget (mz_operations ?m) i \<noteq> None" using assms(3) expire_same[of m t] by (simp add: same_operations_def)
  have "held i k a (snd (accept_new env t q cs fp ?m))" if "rq_OperationID q \<noteq> i" for cs fp
  proof -
    obtain m1 oper r where l: "loopE (book_window env t q) (?m, accepted_operation t q (mz_incarnation ?m) fp) cs = ((m1, oper), r)" by (metis surj_pair)
    have "held i k a m1"
      using loopE_invariant[of "\<lambda>st. held i k a (fst st)" "(?m, accepted_operation t q (mz_incarnation ?m) fp)" cs "book_window env t q"] h l
        held_book_window[OF _ that] by simp
    then show ?thesis using h l by (cases r) (simp_all add: accept_new_def held_def split: sum.splits)
  qed
  then have "held i k a (snd (accept_locked env t q cs fp ?m))" for cs fp
    using h n by (cases "rq_OperationID q = i") (auto simp: accept_locked_def split: option.splits)
  then show ?thesis using assms(2) by (simp add: Accept_def split: option.splits sum.splits)
qed

lemma held_claim_entry: "held i k a m \<Longrightarrow> held i k a (claim_entry j k' m)"
  by (auto simp: claim_entry_def held_def put_reference_bucket_def IsZero_def split: option.splits)

lemma held_claim_entries: "held i k a m \<Longrightarrow> held i k a (fold (claim_entry j) ks m)"
  by (induction ks arbitrary: m) (simp_all add: held_claim_entry)

lemma held_Claim: "held i k a m \<Longrightarrow> held i k a (snd (Claim_reference ctx t q m))"
proof (cases rule: Claim_cases[of ctx t q m])
  case (2 oper)
  assume "held i k a m"
  then have "held i k a (fold (claim_entry (cl_OperationID q)) (map fst (ro_reservations oper)) m)" by (rule held_claim_entries)
  then show ?thesis unfolding 2(5) by (simp add: held_def)
qed simp

definition entry_of :: "string \<Rightarrow> reference_key \<Rightarrow> materializer \<Rightarrow> reference_entry option" where
  "entry_of i k m = (case mget (mz_buckets m) k of None \<Rightarrow> None | Some b \<Rightarrow> mget (rb_entries b) i)"

lemma claim_entry_entry: "entry_of i k (claim_entry i k' m) = (if k' = k then map_option (\<lambda>e. e\<lparr>en_expiresAt := zero_time\<rparr>) (entry_of i k m) else entry_of i k m)"
  by (auto simp: entry_of_def claim_entry_def put_reference_bucket_def split: option.splits)

lemma claimed_held: "entry_of i k m = Some e \<Longrightarrow> k \<in> set ks \<Longrightarrow> held i k (en_reserved e) (fold (claim_entry i) ks m)"
proof (induction ks arbitrary: m e)
  case (Cons k' ks)
  show ?case
  proof (cases "k' = k")
    case True
    then have "entry_of i k (claim_entry i k' m) = Some (e\<lparr>en_expiresAt := zero_time\<rparr>)" using Cons.prems(1) claim_entry_entry[of i k k' m] by simp
    then have "held i k (en_reserved e) (claim_entry i k' m)" by (auto simp: entry_of_def held_def IsZero_def split: option.splits)
    then show ?thesis by (simp add: held_claim_entries)
  next
    case False
    then show ?thesis using Cons claim_entry_entry[of i k k' m] by simp
  qed
qed simp

definition untouched :: "string \<Rightarrow> materializer \<Rightarrow> staged \<Rightarrow> bool" where
  "untouched i m st \<longleftrightarrow> mwf (sg_buckets st)
     \<and> (\<forall>k b. mget (sg_buckets st) k = Some b \<longrightarrow> (\<exists>b0. mget (mz_buckets m) k = Some b0 \<and> mget (rb_entries b) i = mget (rb_entries b0) i))"

lemma untouchedD: "untouched i m st \<Longrightarrow> mget (sg_buckets st) k = Some b \<Longrightarrow> \<exists>b0. mget (mz_buckets m) k = Some b0 \<and> mget (rb_entries b) i = mget (rb_entries b0) i"
  unfolding untouched_def by blast

lemma untouched_put:
  assumes "untouched i m st" and "sg_buckets st' = mput k b (sg_buckets st)" and "mget (mz_buckets m) k = Some b0" and "mget (rb_entries b) i = mget (rb_entries b0) i"
  shows "untouched i m st'"
  using assms unfolding untouched_def by auto

lemma reconcile_event_untouched:
  assumes "untouched i m st" and "j \<noteq> i" and "reconcile_event env m j st event = Inr st'"
  shows "untouched i m st'"
  using assms(3)
proof (cases rule: reconcile_event_cases)
  case (2 k v)
  from 2 show ?thesis
  proof (cases rule: settle_reservation_cases)
    case (1 b e b' e')
    obtain b0 where b0: "mget (mz_buckets m) k = Some b0" "mget (rb_entries b) i = mget (rb_entries b0) i"
      using 1(1) untouchedD[OF assms(1), of k] by (auto simp: staged_bucket_def split: option.splits)
    show ?thesis using untouched_put[OF assms(1) 1(4) b0(1)] b0(2) assms(2) applyReferenceCompletion_entries[OF 1(3)] by simp
  qed
qed (use assms(1) in simp)

lemma held_Reconcile:
  assumes "books m" and "held i k a m" and "rn_OperationID q \<noteq> i"
  shows "held i k a (snd (Reconcile env ctx t q m))"
proof -
  let ?m = "expire t m"
  have h: "held i k a ?m" by (rule held_expire[OF assms(1,2)])
  have "held i k a (publish_staged (rn_OperationID q) st ?m)"
    if f: "foldE (reconcile_event env ?m (rn_OperationID q)) \<lparr>sg_operation = oper, sg_buckets = [], sg_seen = []\<rparr> es = Inr st" for st oper es
  proof -
    have u: "untouched i ?m st"
      by (rule foldE_invariant[OF f]) (simp add: untouched_def, rule reconcile_event_untouched[OF _ assms(3)])
    obtain b0 where b0: "mget (mz_buckets ?m) k = Some b0" "\<exists>e. mget (rb_entries b0) i = Some e \<and> IsZero (en_expiresAt e) \<and> en_reserved e = a"
      using h by (auto simp: held_def)
    have "mwf (sg_buckets st)" using u by (simp add: untouched_def)
    then show ?thesis
      using b0 untouchedD[OF u, of k] mget_fold_mput[of "sg_buckets st" "mz_buckets ?m" k]
      by (cases "mget (sg_buckets st) k") (auto simp: held_def publish_staged_def)
  qed
  then show ?thesis using h assms(2) by (auto simp: Reconcile_def Let_def split: option.splits sum.splits)
qed

lemma held_run:
  assumes "reference_run env (\<lambda>j. j \<noteq> i) m m'" and "books m" and "held i k a m" and "mget (mz_operations m) i \<noteq> None"
  shows "held i k a m'"
  using assms
proof (induction rule: reference_run.induct)
  case (run_accept m1 ctx t q)
  have "mget (mz_operations m1) i \<noteq> None" using reference_run_later[OF run_accept.hyps] run_accept.prems(3) by (auto simp: later_def)
  then show ?case using run_accept run_books[OF run_accept.hyps] by (intro held_Accept) simp_all
next
  case (run_reconcile m1 r ctx t)
  then show ?case using run_books[OF run_reconcile.hyps(1)] by (intro held_Reconcile) simp_all
qed (simp_all add: held_Claim)


section \<open>Properties\<close>

text \<open>C12: an acceptance never oversubscribes a window. In every reachable state, a newly accepted request books exactly its amounts, on top of what has not
  expired, and afterwards the reserved and accounted money of each of its windows is within the limit it named.\<close>

theorem acceptance_within_limits:
  assumes "NewReferenceBudgetMaterializer g n = Inr m0" and "reference_run env (\<lambda>_. True) m0 m"
    and "Accept env ctx t q m = (Inr r, m')" and "rs_Accepted r" and "\<not> rs_Replayed r"
  shows "\<exists>cs. canonicalReferenceReservations (rq_Reservations q) = Inr cs
    \<and> (\<forall>w. window_units m' w = window_units (expire t m) w + (\<Sum>c\<leftarrow>cs. if (cn_policyID c, cn_windowID c) = w then usdUnits (cn_amountUSD c) else 0))
    \<and> (\<forall>c \<in> set cs. window_units m' (cn_policyID c, cn_windowID c) \<le> usdUnits (cn_limitUSD c))"
proof -
  have b: "books (expire t m)" by (rule expire_books[OF run_books[OF assms(2) new_books[OF assms(1)]]])
  obtain cs fp where cs: "canonicalReferenceReservations (rq_Reservations q) = Inr cs" "accept_locked env t q cs fp (expire t m) = (Inr r, m')"
    using assms(3) by (auto simp: Accept_def split: option.splits sum.splits if_splits)
  then have "accept_new env t q cs fp (expire t m) = (Inr r, m')"
    using assms(5) by (auto simp: accept_locked_def split: option.splits if_splits)
  note e = accept_new_accepted[OF b canonical_ok[OF cs(1)] this assms(4)]
  show ?thesis using cs(1) e by blast
qed

text \<open>C13: a claimed reservation is never refunded by time or by other operations. Once a claim was granted, whatever is accepted, claimed, expired or settled for
  other operations later, each of its entries keeps its reserved amount, and its bucket's total covers it.\<close>

theorem claimed_reservation_held:
  assumes "NewReferenceBudgetMaterializer g n = Inr m0" and "reference_run env (\<lambda>_. True) m0 m"
    and "Claim_reference ctx t q m = (Inr receipt, m1)" and "reference_run env (\<lambda>j. j \<noteq> cl_OperationID q) m1 m2"
    and "mget (mz_operations m) (cl_OperationID q) = Some oper" and "(k, v) \<in> set (ro_reservations oper)"
  shows "\<exists>b e b' e'. mget (mz_buckets m) k = Some b \<and> mget (rb_entries b) (cl_OperationID q) = Some e
    \<and> mget (mz_buckets m2) k = Some b' \<and> mget (rb_entries b') (cl_OperationID q) = Some e'
    \<and> en_reserved e' = en_reserved e \<and> usdUnits (en_reserved e) \<le> usdUnits (rb_reserved b')"
proof -
  let ?i = "cl_OperationID q"
  have b: "books m" by (rule run_books[OF assms(2) new_books[OF assms(1)]])
  have b1: "books m1" using Claim_books[OF b, of ctx t q] assms(3) by simp
  have b2: "books m2" by (rule run_books[OF assms(4) b1])
  have c: "\<forall>k \<in> fst ` set (ro_reservations oper). claimable m ?i k" "mget (mz_operations m1) ?i \<noteq> None"
    "mz_buckets m1 = mz_buckets (fold (claim_entry ?i) (map fst (ro_reservations oper)) m)"
    by (cases rule: Claim_cases[of ctx t q m]; use assms(3,5) in auto)+
  obtain bk e where e: "mget (mz_buckets m) k = Some bk" "mget (rb_entries bk) ?i = Some e"
    using c(1) assms(6) by (force simp: claimable_def split: option.splits)
  have "k \<in> set (map fst (ro_reservations oper))" using assms(6) by (simp add: rev_image_eqI)
  then have "held ?i k (en_reserved e) (fold (claim_entry ?i) (map fst (ro_reservations oper)) m)"
    by (rule claimed_held[rotated]) (simp add: entry_of_def e)
  then have "held ?i k (en_reserved e) m1" by (simp add: held_same[OF c(3)])
  from held_run[OF assms(4) b1 this c(2)] obtain b' e' where
    h: "mget (mz_buckets m2) k = Some b'" "mget (rb_entries b') ?i = Some e'" "en_reserved e' = en_reserved e" by (auto simp: held_def)
  show ?thesis using e h bucket_ok_entry(2)[OF booksD[OF b2 h(1)] h(2)] by auto
qed

text \<open>C14: settlement is atomic and idempotent. A refused settlement changes nothing beyond the expiry of old entries, and one that was applied can be sent
  again at any later time, after any other calls, with success and without any effect but that expiry.\<close>

theorem settlement_idempotent:
  "(Reconcile env ctx t q m = (Some e, m') \<longrightarrow> m' = m \<or> m' = expire t m)
   \<and> (Reconcile env ctx t q m = (None, m1) \<and> reference_run env (\<lambda>_. True) m1 m2 \<longrightarrow> Reconcile env None t2 q m2 = (None, expire t2 m2))"
proof -
  have "m' = m \<or> m' = expire t m" if "Reconcile env ctx t q m = (Some e, m')"
    using that by (auto simp: Reconcile_def Let_def split: option.splits if_splits sum.splits)
  moreover have "Reconcile env None t2 q m2 = (None, expire t2 m2)"
    if r: "Reconcile env ctx t q m = (None, m1)" and run: "reference_run env (\<lambda>_. True) m1 m2"
  proof -
    obtain oper where o1: "mget (mz_operations m1) (rn_OperationID q) = Some oper" "rs_Accepted (ro_result oper)"
      "\<forall>e \<in> set (rn_Events q). mget (ro_events oper) (ce_EventID e) = Some (referenceEventFingerprint env e)"
      "rn_GenerationID q = mz_generation m1" "rn_IncarnationID q = mz_incarnation m1" using Reconcile_applied[OF r] .
    obtain oper2 where o2: "mget (mz_operations m2) (rn_OperationID q) = Some oper2" "op_later oper oper2"
      "mz_generation m2 = mz_generation m1" "mz_incarnation m2 = mz_incarnation m1"
      using reference_run_later[OF run] o1(1) by (auto simp: later_def)
    let ?st = "\<lparr>sg_operation = oper2, sg_buckets = [], sg_seen = []\<rparr>"
    have "foldE (reconcile_event env (expire t2 m2) (rn_OperationID q)) ?st (rn_Events q) = Inr ?st"
      using o1(3) o2(2) by (intro reconcile_replayed) (auto simp: op_later_def map_le_def dom_def)
    moreover have "ReconcileRequest_Validate q = None" using Reconcile_None[OF r] by metis
    moreover have "publish_staged (rn_OperationID q) ?st (expire t2 m2) = expire t2 m2"
      using o2(1) expire_same[of m2 t2] by (simp add: publish_staged_def same_operations_def mput_same)
    ultimately show ?thesis using o1 o2 by (simp add: Reconcile_def op_later_def)
  qed
  ultimately show ?thesis by blast
qed

section \<open>Examples\<close>

definition bdemo_env :: reference_env where
  "bdemo_env = \<lparr>rf_sha256 = (\<lambda>s. s), rf_hex = filter (\<lambda>c. c \<noteq> NUL), rf_request = (\<lambda>w. Some (wq_OperationID w)), rf_event = (\<lambda>e. Some (ce_EventID e))\<rparr>"

definition bdemo_window :: "string \<Rightarrow> string \<Rightarrow> window_reservation" where
  "bdemo_window p w = \<lparr>r_PolicyID = p, r_WindowID = w, r_Bucket = 1, r_Amount = 0, r_Limit = 0, r_AmountUSD = USD (Some 5), r_LimitUSD = USD (Some 9),
     r_BucketNanos = 10, r_DurationNanos = 20\<rparr>"

definition bdemo_request :: "window_reservation list \<Rightarrow> reserve_request" where
  "bdemo_request ws = \<lparr>rq_OperationID = ''o'', rq_GenerationID = ''g'', rq_Reservations = ws, rq_ExpiresAt = zero_time\<rparr>"

definition bdemo_empty :: materializer where
  "bdemo_empty = \<lparr>mz_generation = ''g'', mz_incarnation = ''n'', mz_buckets = [], mz_operations = []\<rparr>"

definition bdemo_accepted :: materializer where
  "bdemo_accepted = snd (Accept bdemo_env None 12 (bdemo_request [bdemo_window ''p'' ''w'']) bdemo_empty)"

definition bdemo_claim :: claim_request where
  "bdemo_claim = \<lparr>cl_OperationID = ''o'', cl_GenerationID = ''g'', cl_IncarnationID = ''n''\<rparr>"

definition bdemo_claimed :: materializer where
  "bdemo_claimed = snd (Claim_reference None 13 bdemo_claim bdemo_accepted)"

definition bdemo_settlement :: reconcile_request where
  "bdemo_settlement = \<lparr>rn_OperationID = ''o'', rn_GenerationID = ''g'', rn_IncarnationID = ''n'', rn_Events =
     [\<lparr>ce_EventID = ''e'', ce_GenerationID = ''g'', ce_OperationID = ''o'', ce_WindowID = ''w'', ce_BucketStart = 10, ce_ReservationRevision = 2,
       ce_Kind = JournalFinalizeExact, ce_ReservedDecreaseUSD = USD (Some 5), ce_AccountedIncreaseUSD = USD (Some 3), ce_AccountedDecreaseUSD = USD None,
       ce_ActualCostUSD = Some (USD (Some 3)), ce_CostStatus = CostExact, ce_UnknownReasonCode = [], ce_OccurredAt = 14\<rparr>]\<rparr>"

lemma bdemo_new: "NewReferenceBudgetMaterializer ''g'' ''n'' = Inr bdemo_empty" by code_simp

lemma bdemo_accept:
  "case Accept bdemo_env None 12 (bdemo_request [bdemo_window ''p'' ''w'']) bdemo_empty of
     (Inr r, m) \<Rightarrow> rs_Accepted r \<and> \<not> rs_Replayed r \<and> window_units m (''p'', ''w'') = 5 | _ \<Rightarrow> False"
  by code_simp

lemma bdemo_claim_ok: "case Claim_reference None 13 bdemo_claim bdemo_accepted of (Inr _, _) \<Rightarrow> True | _ \<Rightarrow> False" by code_simp

lemma bdemo_settle_ok: "fst (Reconcile bdemo_env None 14 bdemo_settlement bdemo_claimed) = None" by code_simp


lemma bdemo_run: "reference_run bdemo_env P bdemo_empty bdemo_accepted" "reference_run bdemo_env P bdemo_empty bdemo_claimed"
proof -
  show a: "reference_run bdemo_env P bdemo_empty bdemo_accepted" unfolding bdemo_accepted_def by (intro reference_run.intros)
  then show "reference_run bdemo_env P bdemo_empty bdemo_claimed" unfolding bdemo_claimed_def by (rule run_claim)
qed

theorem acceptance_within_limits_witness:
  "\<exists>r m. Accept bdemo_env None 12 (bdemo_request [bdemo_window ''p'' ''w'']) bdemo_empty = (Inr r, m) \<and> rs_Accepted r
     \<and> (\<exists>cs. canonicalReferenceReservations [bdemo_window ''p'' ''w''] = Inr cs \<and> (\<forall>c \<in> set cs. window_units m (cn_policyID c, cn_windowID c) \<le> usdUnits (cn_limitUSD c)))"
proof -
  obtain r m where a: "Accept bdemo_env None 12 (bdemo_request [bdemo_window ''p'' ''w'']) bdemo_empty = (Inr r, m)" "rs_Accepted r" "\<not> rs_Replayed r"
    using bdemo_accept by (auto split: prod.splits sum.splits)
  show ?thesis using acceptance_within_limits[OF bdemo_new run_start a] a by (auto simp: bdemo_request_def)
qed

lemma bdemo_operation:
  "case mget (mz_operations bdemo_accepted) ''o'' of None \<Rightarrow> False | Some oper \<Rightarrow> map fst (ro_reservations oper) = [(''p'', ''w'', 1)]"
  by code_simp

theorem claimed_reservation_held_witness:
  "\<exists>b e. mget (mz_buckets (snd (Accept bdemo_env None (10 ^ 18) (bdemo_request [bdemo_window ''p'' ''v'']) bdemo_claimed))) (''p'', ''w'', 1) = Some b
     \<and> mget (rb_entries b) ''o'' = Some e \<and> usdUnits (en_reserved e) \<le> usdUnits (rb_reserved b)"
proof -
  obtain receipt where c: "Claim_reference None 13 bdemo_claim bdemo_accepted = (Inr receipt, bdemo_claimed)"
    using bdemo_claim_ok by (auto simp: bdemo_claimed_def split: prod.splits sum.splits)
  obtain oper v where o1: "mget (mz_operations bdemo_accepted) (cl_OperationID bdemo_claim) = Some oper" "((''p'', ''w'', 1), v) \<in> set (ro_reservations oper)"
    using bdemo_operation by (auto simp: bdemo_claim_def split: option.splits)
  have "reference_run bdemo_env (\<lambda>j. j \<noteq> cl_OperationID bdemo_claim) bdemo_claimed
      (snd (Accept bdemo_env None (10 ^ 18) (bdemo_request [bdemo_window ''p'' ''v'']) bdemo_claimed))" by (intro reference_run.intros)
  from claimed_reservation_held[OF bdemo_new bdemo_run(1) c this o1] show ?thesis by (auto simp: bdemo_claim_def)
qed



theorem settlement_idempotent_witness:
  "\<exists>m. Reconcile bdemo_env None 14 bdemo_settlement bdemo_claimed = (None, m) \<and> Reconcile bdemo_env None 15 bdemo_settlement m = (None, expire 15 m)"
proof -
  obtain m where m: "Reconcile bdemo_env None 14 bdemo_settlement bdemo_claimed = (None, m)" using bdemo_settle_ok by (metis prod.collapse)
  then show ?thesis using settlement_idempotent[of bdemo_env None 14 bdemo_settlement bdemo_claimed undefined undefined m m 15] run_start[of bdemo_env "\<lambda>_. True" m] by blast
qed

end
