(* ===== verification/Spec2Isabelle.thy ===== *)
theory Spec2Isabelle
  imports Money_Text Pricing_Facts Admission_Retention Planner_Facts Budget_Facts Estimate_Facts Compaction_Facts Checkpoint_Facts Memory_Continuation_Facts Memory_Blob Cloud_Fill_Runs Cloud_Publish_Facts Cloud_Request_Runs Record_Reuse Reference_Budget_Runs
begin

text \<open>
  A verification development of the Go worker under \<^verbatim>\<open>src/golang\<close>, a Temporal worker that
  routes LLM requests to providers under exact spending limits.

  \<^bold>\<open>The program.\<close> A request (package \<^verbatim>\<open>llm\<close>) names a logical model, a service class and possibly
  a continuation (package \<^verbatim>\<open>state\<close>). The planner (package \<^verbatim>\<open>routing\<close>) turns the route catalog, the
  class policies, the passive health view and cache affinities into an ordered plan of
  candidates. The estimator (package \<^verbatim>\<open>budget\<close>) prices the plan's candidates with the pricing
  catalog (package \<^verbatim>\<open>pricing\<close>); budget policies say which windows the amount must fit. The
  admission store (\<^verbatim>\<open>admission\<close>, \<^verbatim>\<open>storage/memory\<close>) reserves the amount, follows the operation
  through dispatch and settles it at its actual cost.

  \<^bold>\<open>Theories and sources.\<close>
  \<^item> \<open>Prelude\<close>, \<open>GoStrings\<close>: errors as sums, Go maps as association lists, 64-bit wrap-around,
    truncating division, the string and time functions the code uses.
  \<^item> \<open>Money\<close>, \<open>Money_Text\<close>: \<^verbatim>\<open>pricing/decimal.go\<close>, \<^verbatim>\<open>money.go\<close>, \<^verbatim>\<open>nano_usd.go\<close>. The locale
    \<open>bounded_money\<close> is the contract of checked addition and subtraction, interpreted on USD,
    microUSD and nanoUSD; \<open>integer_boundary\<close> that of the rounding conversions. Shown: round trips
    of printing and parsing, least upper bounds of every rounding.
  \<^item> \<open>Pricing\<close>, \<open>Pricing_Facts\<close>: \<^verbatim>\<open>pricing/entry.go\<close>, \<^verbatim>\<open>cost.go\<close>, \<^verbatim>\<open>catalog.go\<close>. The locale
    \<open>charge_loop\<close> is the loop that usage settlement and estimation share. Shown: exact costs, one
    active price per route and time, compiled catalogs validate, reload semantics.
  \<^item> \<open>Admission\<close>, \<open>Admission_Store\<close>: package \<^verbatim>\<open>admission\<close> and \<^verbatim>\<open>storage/memory/admission.go\<close>, one
    definition per method, each an atomic step under the store's mutex that returns the state an
    error leaves behind. \<open>Admission_Ledger\<close> (locale \<open>ledger\<close>), \<open>Admission_Steps\<close> and
    \<open>Admission_Sweep\<close> show that every operation keeps the invariant;
    \<open>Admission_Properties\<close>, \<open>Admission_Tokens\<close> and \<open>Admission_Retention\<close> hold what follows for all
    reachable stores: buckets cover charges, limits hold, tokens fence, retention is invisible.
  \<^item> \<open>Llm_Types\<close>: the parts of requests, service classes and hosted tools that routing and
    budgeting read. \<open>Continuation\<close>: \<^verbatim>\<open>state/continuation.go\<close>, \<^verbatim>\<open>pinning.go\<close>, \<^verbatim>\<open>provider_affinity.go\<close>.
  \<^item> \<open>Routing\<close>, \<open>Planner\<close>, \<open>Planner_Facts\<close>: package \<^verbatim>\<open>routing\<close>. The locale \<open>stable_reorder\<close> is what
    soft affinity may do to a plan. Shown: candidates are authorized, plans are complete and
    class-major, hard pins constrain, health opens and closes exactly.
  \<^item> \<open>Budget\<close>, \<open>Budget_Facts\<close>: \<^verbatim>\<open>budget/window.go\<close>, \<^verbatim>\<open>policy.go\<close>, \<^verbatim>\<open>match.go\<close>, \<^verbatim>\<open>journal.go\<close>.
    Shown: exact admission, a sufficient and minimal retry delay, conservation of money by
    accounting events.
  \<^item> \<open>Estimate\<close>, \<open>Estimate_Facts\<close>: \<^verbatim>\<open>budget/estimate.go\<close>, \<^verbatim>\<open>context.go\<close>. Shown: exact estimates that
    their microUSD amount covers, plan maxima, an exact PDF page count, a media allowance that
    never decides the context check.
  \<^item> \<open>Transcript\<close>: the tool frontier of \<^verbatim>\<open>state/materialize.go\<close>. \<open>Compaction\<close>, \<open>Compaction_Facts\<close>: package
    \<^verbatim>\<open>compaction\<close>. Shown: a selected prefix never splits a turn, the window search is exact, quoted
    conversation text cannot forge a heading, compaction does not loop.
  \<^item> \<open>Handle\<close>: \<^verbatim>\<open>state/handle.go\<close>. The locale \<open>handle_signer\<close> is the contract of a signer, interpreted on
    the keyring. Shown: issued handles verify, and only for what their MAC covers.
  \<^item> \<open>Expiring_Store\<close>: the abstract specification of the memory stores, a map whose entries expire, with
    the locale \<open>expiring_store\<close> for its implementations. \<open>Memory_Continuation\<close>, \<open>Memory_Continuation_Facts\<close>:
    \<^verbatim>\<open>storage/memory/continuation.go\<close>; \<open>Memory_Blob\<close>: \<^verbatim>\<open>storage/blob/store.go\<close> and
    \<^verbatim>\<open>storage/memory/blob.go\<close>. Shown: both simulate it; live entries never change, tenants are isolated.
  \<^item> \<open>Model_State\<close>: \<^verbatim>\<open>state/model_state.go\<close>, \<^verbatim>\<open>settings_patch.go\<close> and the leaf validators of
    \<^verbatim>\<open>llm/contracts.go\<close>. \<open>Checkpoint\<close>, \<open>Checkpoint_Facts\<close>: \<^verbatim>\<open>state/checkpoint.go\<close>. Shown: snapshots never
    change what materialization returns, every node reaches its root, publication is idempotent and
    scoped, decimals have one canonical spelling.
  \<^item> \<open>Cloud_Port\<close>: programs over the key-value and blob stores of \<^verbatim>\<open>storage/cloudstate\<close>, the interleaving of any
    number of them, a program logic for what they write to one row, and the locale \<open>versioned_table\<close>, what the code
    relies on of the table; \<open>Cloud_Memory\<close> interprets it on the in-memory stores of \<^verbatim>\<open>memory_test.go\<close>.
    \<open>Go_Bytes\<close>, \<open>Cloud_Base\<close>: \<^verbatim>\<open>crypto.go\<close>, \<^verbatim>\<open>model.go\<close>. \<open>Cache\<close>: package \<^verbatim>\<open>cache\<close>. \<open>Cloud_Entry\<close>: \<^verbatim>\<open>response_cache.go\<close>.
    \<open>Cloud_Fill\<close>, \<open>Cloud_Fill_Facts\<close>, \<open>Cloud_Fill_Runs\<close>: \<^verbatim>\<open>cache_fill.go\<close> with its receipts and validation. Shown: the row of a fill
    is a run of its state machine and at most one dispatch is unresolved, whatever interleaves, fails or loses its
    acknowledgement; a finished attempt can be dispatched again.
  \<^item> \<open>Checkpoint_Port\<close>: \<^verbatim>\<open>state/checkpoint_port.go\<close>. \<open>Cloud_Checkpoint\<close>, \<open>Cloud_Checkpoint_Facts\<close>: \<^verbatim>\<open>checkpoint.go\<close> and \<^verbatim>\<open>checkpoint_blob.go\<close>
    of the same package. Shown: every caller that is told of the checkpoint of an operation is told of the same one.
    \<open>Cloud_Publish\<close>, \<open>Cloud_Publish_Facts\<close>: publication and use in \<^verbatim>\<open>response_cache.go\<close>. Shown: the head of a cache key only
    moves to later successes.
  \<^item> \<open>Cloud_Log\<close>: the locale \<open>event_streams\<close>, what the code relies on of the event streams, and the logic \<open>wpf\<close> of what a program commits to
    rows and streams and may conclude from what it read. \<open>Cloud_Request\<close>, \<open>Cloud_Request_Facts\<close>, \<open>Cloud_Request_Runs\<close>: \<^verbatim>\<open>model.go\<close>,
    \<^verbatim>\<open>repository.go\<close>, \<^verbatim>\<open>pending.go\<close> and \<^verbatim>\<open>operation.go\<close>. Shown: a request has one history and one outcome, and no unfinished request is
    hidden from recovery. \<open>Record_Reuse\<close>: \<^verbatim>\<open>record_reuse.go\<close>. Shown: its bounds.
  \<^item> \<open>Durable\<close>, \<open>Durable_Facts\<close>: \<^verbatim>\<open>storage/durable/contract.go\<close>, \<^verbatim>\<open>budget_boundary.go\<close>, \<^verbatim>\<open>unknown_cost.go\<close>: the contract of the budget leaser, the life cycle of an operation and the
    boundary that drives it. The locale \<open>one_use_leaser\<close> is what the boundary relies on for claims. \<open>Reference_Budget\<close>: \<^verbatim>\<open>reference_materializer.go\<close>,
    the specification of the Redis functions; \<open>Reference_Budget_Facts\<close> interprets the locale on it, \<open>Reference_Budget_Books\<close> and \<open>Reference_Budget_Runs\<close> are
    about its money. Shown: phases follow their order, a dispatch is granted once, acceptances respect limits, claimed money is held until its
    settlement, settlement is atomic and idempotent; an acceptance that fails half way keeps what it booked.
  \<^item> This theory: what spans components, settlement within the reservation.

  \<^bold>\<open>Parameters.\<close> Code the modelled packages only call is an argument: the catalog digest
  (\<open>dg\<close>), the hexadecimal SHA-256 of an operation token (\<open>hexsha\<close>), the JSON codec and request
  normalization (\<open>codec\<close>), the transcript digest (\<open>td\<close>), the provider tokenizer, HMAC-SHA256 and the UUID
  codec (\<open>hm\<close>, \<open>uparse\<close>, \<open>ustring\<close>), the encoders and digests of checkpoints (\<open>checkpoint_env\<close>), \<^verbatim>\<open>float64\<close>
  formatting (\<open>floats\<close>, \<open>settings_env\<close>), the cipher, digest and canonicalizer of the cloud repositories (\<open>cloud_env\<close>) and their
  JSON encoders (\<open>cache_codec\<close>, \<open>request_codec\<close>), those of the reference materializer (\<open>reference_env\<close>), the cloud stores (\<open>storage\<close>) and the clock (\<open>clk\<close>, one reading per call). Encryption is idealised where a
  theorem asks for \<open>authentic\<close>: only what was sealed opens, and keyed digests do not collide on it. No theorem assumes more of them than its hypotheses say.

  \<^bold>\<open>Bounds.\<close> \<^verbatim>\<open>int64\<close> values are \<open>int\<close> with \<open>wrap64\<close> at each operation that can overflow;
  \<^verbatim>\<open>big.Int\<close> and \<^verbatim>\<open>big.Rat\<close> are \<open>int\<close> and \<open>rat\<close>. Loops are structural or have a measure;
  the sixteen rounds of a conditional write are the code's own bound. One loop has fuel, the pages of a history in
  \<^verbatim>\<open>readRevision\<close> (\<open>rc_pages\<close>): by \<open>enough_pages\<close> one page more than \<^verbatim>\<open>maxRevisions\<close> never runs out when every page but the last has an entry. Errors are values without their formatted text.

  \<^bold>\<open>Not modelled.\<close> The engine's goroutines, Temporal activities and workflows, provider adapters,
  JSON codecs and wire validation, configuration, SQL, Redis and object stores, the rest of the cloud repositories, the
  control plane and observability: they are I/O, generated or concurrent glue around the
  decisions modelled here.
\<close>

section \<open>Settlement stays within the reservation\<close>

lemma with_ratio_ge:
  assumes "\<forall>r. es_SafetyRatio es = Some r \<longrightarrow> 1 \<le> r" and "0 \<le> n"
  shows "n \<le> with_ratio es n"
proof (cases "es_SafetyRatio es")
  case None
  then show ?thesis by (simp add: with_ratio_def)
next
  case (Some r)
  have "(of_int n :: rat) * 1 \<le> of_int n * r" using assms Some by (intro mult_left_mono) simp_all
  then have "(of_int n :: rat) \<le> of_int \<lceil>of_int n * r\<rceil>" using le_of_int_ceiling[of "of_int n * r"] by linarith
  then show ?thesis using Some by (simp add: with_ratio_def)
qed


definition demo_usage :: usage where
  "demo_usage = \<lparr>InputTokens = 0, OutputTokens = 900, CacheReadTokens = 1, CacheWriteTokens = 0, ReasoningTokens = 0, MediaUnits = 0\<rparr>"


end
